(* ===== verification/Prelude.thy ===== *)
theory Prelude
  imports Complex_Main "HOL-Library.AList" "HOL-Library.Sublist"
begin

text \<open>
  Shared vocabulary of the development: the parts of the JavaScript standard library that the
  mobile client uses (insertion-ordered maps, string trimming, decimal printing, slicing), with
  the generic lemmas that the component theories rely on.

  A JavaScript string is a \<^typ>\<open>string\<close>: one \<^typ>\<open>char\<close> per code unit, restricted to
  the code units below 256. A JavaScript \<open>Map\<close> (and an object used as a dictionary whose keys
  are not array indices) is an association list in insertion order: \<open>set\<close> on a present key
  keeps its position and on an absent key appends, which is what \<^const>\<open>AList.update\<close> does.
\<close>

named_theorems frame_simps \<open>an operation leaves a field of the state alone\<close>
named_theorems js_simps \<open>unfolding of the JavaScript library functions\<close>


section \<open>Insertion-ordered maps\<close>

type_synonym ('k, 'v) jsmap = "('k \<times> 'v) list"

abbreviation map_get :: "('k, 'v) jsmap \<Rightarrow> 'k \<Rightarrow> 'v option" where
  "map_get m k \<equiv> map_of m k"

abbreviation map_has :: "('k, 'v) jsmap \<Rightarrow> 'k \<Rightarrow> bool" where
  "map_has m k \<equiv> map_of m k \<noteq> None"

abbreviation map_put :: "'k \<Rightarrow> 'v \<Rightarrow> ('k, 'v) jsmap \<Rightarrow> ('k, 'v) jsmap" where
  "map_put k v m \<equiv> AList.update k v m"

abbreviation map_del :: "'k \<Rightarrow> ('k, 'v) jsmap \<Rightarrow> ('k, 'v) jsmap" where
  "map_del k m \<equiv> AList.delete k m"

abbreviation map_wf :: "('k, 'v) jsmap \<Rightarrow> bool" where
  "map_wf m \<equiv> distinct (map fst m)"

lemma map_get_put: "map_get (map_put k v m) j = (if j = k then Some v else map_get m j)"
  by (simp add: update_conv')

lemma map_get_del: "map_get (map_del k m) j = (if j = k then None else map_get m j)"
  by (simp add: delete_conv')

lemma map_wf_put [simp, intro]: "map_wf m \<Longrightarrow> map_wf (map_put k v m)"
  by (rule distinct_update)

lemma map_wf_del [simp, intro]: "map_wf m \<Longrightarrow> map_wf (map_del k m)"
  by (rule distinct_delete)

lemma map_wf_filter [simp, intro]: "map_wf m \<Longrightarrow> map_wf (filter P m)"
  by (induction m) auto

lemma map_of_filter_key:
  "map_of (filter (\<lambda>(k, v). P k) m) j = (if P j then map_of m j else None)"
  by (induction m) auto

lemma map_put_absent: "map_get m k = None \<Longrightarrow> map_put k v m = m @ [(k, v)]"
  by (induction m) (auto split: if_splits)

lemma length_map_put:
  "length (map_put k v m) = (if map_has m k then length m else Suc (length m))"
  by (induction m) auto

lemma length_map_del_le: "length (map_del k m) \<le> length m"
  by (simp add: AList.delete_eq)

lemma length_map_del_less: "map_has m k \<Longrightarrow> length (map_del k m) < length m"
  by (induction m) (auto simp: AList.delete_eq length_filter_less intro: le_imp_less_Suc)

lemma set_map_del: "set (map_del k m) \<subseteq> set m"
  by (auto simp: AList.delete_eq)

lemma set_map_put: "set (map_put k v m) \<subseteq> insert (k, v) (set m)"
  by (induction m) auto


section \<open>Array slices\<close>

text \<open>\<open>xs.slice(-n)\<close> for a positive \<open>n\<close>: the last \<open>n\<close> elements, or all of them.\<close>

definition slice_last :: "nat \<Rightarrow> 'a list \<Rightarrow> 'a list" where
  "slice_last n xs = drop (length xs - n) xs"

lemma length_slice_last [simp]: "length (slice_last n xs) = min n (length xs)"
  by (auto simp: slice_last_def)

lemma slice_last_short [simp]: "length xs \<le> n \<Longrightarrow> slice_last n xs = xs"
  by (simp add: slice_last_def)

lemma set_slice_last: "set (slice_last n xs) \<subseteq> set xs"
  by (simp add: slice_last_def set_drop_subset)

lemma slice_last_append1:
  "0 < n \<Longrightarrow> length xs = n \<Longrightarrow> slice_last n (xs @ [x]) = tl xs @ [x]"
  by (cases xs) (auto simp: slice_last_def)


section \<open>Sorting\<close>

text \<open>
  \<open>Array.prototype.sort\<close> with a comparator: a stable insertion sort, which is the result of any
  stable sort when the comparator is consistent.
\<close>

fun insert_by :: "('a \<Rightarrow> 'a \<Rightarrow> int) \<Rightarrow> 'a \<Rightarrow> 'a list \<Rightarrow> 'a list" where
  "insert_by cmp x [] = [x]"
| "insert_by cmp x (y # ys) = (if cmp x y \<le> 0 then x # y # ys else y # insert_by cmp x ys)"

definition js_sort :: "('a \<Rightarrow> 'a \<Rightarrow> int) \<Rightarrow> 'a list \<Rightarrow> 'a list" where
  "js_sort cmp xs = foldr (insert_by cmp) xs []"

lemma set_insert_by [simp]: "set (insert_by cmp x xs) = insert x (set xs)"
  by (induction xs) auto

lemma set_js_sort [simp]: "set (js_sort cmp xs) = set xs"
  by (induction xs) (auto simp: js_sort_def)


section \<open>Strings\<close>

text \<open>\<open>WhiteSpace\<close> and \<open>LineTerminator\<close> of the language among the code units below 256.\<close>

definition is_js_space :: "char \<Rightarrow> bool" where
  "is_js_space c \<longleftrightarrow> of_char c \<in> {9, 10, 11, 12, 13, 32, 160 :: nat}"

definition trim_start :: "string \<Rightarrow> string" where
  "trim_start s = dropWhile is_js_space s"

definition trim_end :: "string \<Rightarrow> string" where
  "trim_end s = rev (dropWhile is_js_space (rev s))"

definition trim :: "string \<Rightarrow> string" where
  "trim s = trim_end (trim_start s)"

lemma dropWhile_idem [simp]: "dropWhile P (dropWhile P xs) = dropWhile P xs"
  by (induction xs) auto

lemma trim_end_empty_iff: "trim_end s = [] \<longleftrightarrow> (\<forall>c\<in>set s. is_js_space c)"
  by (auto simp: trim_end_def)

lemma hd_trim_end: "trim_end s \<noteq> [] \<Longrightarrow> hd (trim_end s) = hd s"
proof -
  assume ne: "trim_end s \<noteq> []"
  have "s = trim_end s @ rev (takeWhile is_js_space (rev s))"
    unfolding trim_end_def by (metis rev_append rev_rev_ident takeWhile_dropWhile_id)
  with ne show ?thesis by (metis hd_append2)
qed

lemma trim_start_trim: "trim_start (trim s) = trim s"
proof (cases "trim s = []")
  case True
  then show ?thesis by (simp add: trim_start_def)
next
  case False
  then have "hd (trim s) = hd (trim_start s)" and "trim_start s \<noteq> []"
    by (auto simp: trim_def hd_trim_end) (simp add: trim_end_def)
  then have "\<not> is_js_space (hd (trim s))"
    by (simp add: trim_start_def hd_dropWhile)
  with False show ?thesis by (cases "trim s") (auto simp: trim_start_def)
qed

lemma trim_idem [simp]: "trim (trim s) = trim s"
proof -
  have "trim (trim s) = trim_end (trim s)" by (metis trim_def trim_start_trim)
  also have "\<dots> = trim s" by (simp add: trim_def trim_end_def)
  finally show ?thesis .
qed

lemma trim_Nil [simp]: "trim [] = []"
  by (simp add: trim_def trim_end_def trim_start_def)

definition starts_with :: "string \<Rightarrow> string \<Rightarrow> bool" where
  "starts_with s p \<longleftrightarrow> take (length p) s = p"

definition ends_with :: "string \<Rightarrow> string \<Rightarrow> bool" where
  "ends_with s p \<longleftrightarrow> starts_with (rev s) (rev p)"

lemma starts_with_prefix: "starts_with s p \<longleftrightarrow> prefix p s"
  by (metis append_take_drop_id prefix_def starts_with_def append_eq_conv_conj)

text \<open>\<open>s.replace(from, to)\<close> with a string pattern: the first occurrence only.\<close>

fun replace_first :: "string \<Rightarrow> string \<Rightarrow> string \<Rightarrow> string" where
  "replace_first from to [] = (if from = [] then to else [])"
| "replace_first from to (c # cs) =
     (if starts_with (c # cs) from then to @ drop (length from) (c # cs)
      else c # replace_first from to cs)"

text \<open>\<open>s.replaceAll(from, to)\<close> with a non-empty string pattern, left to right without overlap.\<close>

function replace_all :: "string \<Rightarrow> string \<Rightarrow> string \<Rightarrow> string" where
  "replace_all from to s =
     (case s of
        [] \<Rightarrow> []
      | c # cs \<Rightarrow>
          if from \<noteq> [] \<and> starts_with s from then to @ replace_all from to (drop (length from) s)
          else c # replace_all from to cs)"
  by pat_completeness auto
termination
  by (relation "measure (\<lambda>(from, to, s). length s)") auto

declare replace_all.simps [simp del]

text \<open>\<open>encodeURIComponent\<close> on code units below 256 (UTF-8, percent-encoded).\<close>

definition hex_digit :: "nat \<Rightarrow> char" where
  "hex_digit d = (if d < 10 then char_of (48 + d) else char_of (55 + d))"

definition percent_byte :: "nat \<Rightarrow> string" where
  "percent_byte b = [CHR ''%'', hex_digit (b div 16), hex_digit (b mod 16)]"

definition uri_unreserved :: "char \<Rightarrow> bool" where
  "uri_unreserved c \<longleftrightarrow>
     (let n = of_char c in
      (48 \<le> n \<and> n < (58 :: nat)) \<or> (65 \<le> n \<and> n < 91) \<or> (97 \<le> n \<and> n < 123) \<or>
      c \<in> set ''-_.!~*()'' \<or> n = 39)"

definition encode_uri_char :: "char \<Rightarrow> string" where
  "encode_uri_char c =
     (if uri_unreserved c then [c]
      else let n = of_char c in
           if n < 128 then percent_byte n
           else percent_byte (192 + n div 64) @ percent_byte (128 + n mod 64))"

definition encode_uri_component :: "string \<Rightarrow> string" where
  "encode_uri_component s = concat (map encode_uri_char s)"

text \<open>\<open>s.split(c)\<close> for a one-character separator, and \<open>parts.join(sep)\<close>.\<close>

fun split_on :: "char \<Rightarrow> string \<Rightarrow> string list" where
  "split_on c [] = [[]]"
| "split_on c (x # xs) =
     (if x = c then [] # split_on c xs
      else (case split_on c xs of [] \<Rightarrow> [[x]] | l # ls \<Rightarrow> (x # l) # ls))"

fun join :: "string \<Rightarrow> string list \<Rightarrow> string" where
  "join sep [] = []"
| "join sep [x] = x"
| "join sep (x # y # ys) = x @ sep @ join sep (y # ys)"

lemma split_on_nonempty [simp]: "split_on c s \<noteq> []"
  by (induction s) (auto split: list.splits)

lemma join_split_on: "join [c] (split_on c s) = s"
proof (induction s)
  case Nil
  then show ?case by simp
next
  case (Cons x xs)
  then show ?case by (cases "split_on c xs" rule: list.exhaust) (auto, (cases "tl (split_on c xs)", auto)+)
qed

lemma split_on_no_sep: "l \<in> set (split_on c s) \<Longrightarrow> c \<notin> set l"
  by (induction s arbitrary: l) (auto split: if_splits list.splits)


text \<open>A separator that the right part does not contain can be split off in one way only.\<close>

lemma first_separator_inject:
  "x \<notin> set a \<Longrightarrow> x \<notin> set b \<Longrightarrow> a @ x # c = b @ x # d \<longleftrightarrow> a = b \<and> c = d"
proof (induction a arbitrary: b)
  case Nil
  then show ?case by (cases b) auto
next
  case (Cons y a)
  then show ?case by (cases b) auto
qed

lemma last_separator_inject:
  assumes "x \<notin> set h" "x \<notin> set h'"
  shows "k @ x # h = k' @ x # h' \<longleftrightarrow> k = k' \<and> h = h'"
proof -
  have "k @ x # h = k' @ x # h' \<longleftrightarrow> rev (k @ x # h) = rev (k' @ x # h')" by (simp only: rev_is_rev_conv)
  also have "\<dots> \<longleftrightarrow> rev h @ x # rev k = rev h' @ x # rev k'" by simp
  also have "\<dots> \<longleftrightarrow> k = k' \<and> h = h'" using assms by (auto simp: first_separator_inject)
  finally show ?thesis .
qed


section \<open>Decimal printing of integers\<close>

definition digit_char :: "nat \<Rightarrow> char" where
  "digit_char d = char_of (48 + d)"

fun string_of_nat :: "nat \<Rightarrow> string" where
  "string_of_nat n =
     (if n < 10 then [digit_char n] else string_of_nat (n div 10) @ [digit_char (n mod 10)])"

declare string_of_nat.simps [simp del]

definition string_of_int :: "int \<Rightarrow> string" where
  "string_of_int i = (if i < 0 then ''-'' @ string_of_nat (nat (- i)) else string_of_nat (nat i))"

definition char_digit :: "char \<Rightarrow> nat option" where
  "char_digit c = (let d = of_char c in if 48 \<le> d \<and> d < (58 :: nat) then Some (d - 48) else None)"

lemma char_digit_digit_char [simp]: "d < 10 \<Longrightarrow> char_digit (digit_char d) = Some d"
  by (simp add: char_digit_def digit_char_def)

fun nat_of_digits :: "nat \<Rightarrow> string \<Rightarrow> nat option" where
  "nat_of_digits acc [] = Some acc"
| "nat_of_digits acc (c # cs) =
     (case char_digit c of None \<Rightarrow> None | Some d \<Rightarrow> nat_of_digits (acc * 10 + d) cs)"

lemma nat_of_digits_append:
  "nat_of_digits acc (xs @ ys) = Option.bind (nat_of_digits acc xs) (\<lambda>a. nat_of_digits a ys)"
  by (induction xs arbitrary: acc) (auto split: option.splits)

lemma nat_of_digits_string_of_nat: "nat_of_digits 0 (string_of_nat n) = Some n"
proof (induction n rule: string_of_nat.induct)
  case (1 n)
  then show ?case
    by (subst string_of_nat.simps) (auto simp: nat_of_digits_append)
qed

lemma string_of_nat_inject [simp]: "string_of_nat m = string_of_nat n \<longleftrightarrow> m = n"
  by (metis nat_of_digits_string_of_nat option.inject)

lemma string_of_nat_digits: "c \<in> set (string_of_nat n) \<Longrightarrow> \<exists>d<10. c = digit_char d"
proof (induction n arbitrary: c rule: string_of_nat.induct)
  case (1 n)
  then show ?case
    by (subst (asm) (2) string_of_nat.simps)
      (auto split: if_splits intro: exI [of _ "n mod 10"])
qed

lemma string_of_nat_nonempty [simp]: "string_of_nat n \<noteq> []"
  by (subst string_of_nat.simps) simp

end
