(* ===== verification/JsValue.thy ===== *)
theory JsValue
  imports Prelude
begin

text \<open>
  Untrusted wire values and the readers of \<^verbatim>\<open>shared/runtimeValidation.ts\<close> and
  \<^verbatim>\<open>bridge/agui/agUiValueReaders.ts\<close>.

  A decoded JSON value is a \<open>json\<close>; numbers are exact rationals (a double that JSON can carry
  is a rational; rounding of integers beyond 2 to the 53 is not modelled). A field that an object
  does not have reads as \<^const>\<open>None\<close>, the language's \<open>undefined\<close>.

  The readers are built from schemas of the third-party package valibot. Its primitive
  schemas are the fields of the parameter record \<open>valibot\<close>; the pipes and unions that the
  source writes are spelled out. \<open>valibot_conforms\<close> states their documented behaviour.
\<close>

datatype json =
    JNull
  | JBool bool
  | JNum rat
  | JStr string
  | JArr "json list"
  | JObj "(string, json) jsmap"

section \<open>The language's \<open>Number\<close> conversion of strings\<close>

definition digit_in_base :: "nat \<Rightarrow> char \<Rightarrow> nat option" where
  "digit_in_base b c =
     (let n = of_char c;
          d = (if 48 \<le> n \<and> n < 58 then n - 48
               else if 97 \<le> n \<and> n < 123 then n - 87
               else if 65 \<le> n \<and> n < 91 then n - 55 else b)
      in if d < b then Some d else None)"

fun digits_value :: "nat \<Rightarrow> nat \<Rightarrow> string \<Rightarrow> nat option" where
  "digits_value b acc [] = Some acc"
| "digits_value b acc (c # cs) =
     (case digit_in_base b c of None \<Rightarrow> None | Some d \<Rightarrow> digits_value b (acc * b + d) cs)"

definition natural_in_base :: "nat \<Rightarrow> string \<Rightarrow> nat option" where
  "natural_in_base b s = (if s = [] then None else digits_value b 0 s)"

text \<open>\<open>DecimalDigits . DecimalDigits\<close> with at least one digit in all.\<close>

definition decimal_mantissa :: "string \<Rightarrow> rat option" where
  "decimal_mantissa s =
     (let whole = takeWhile (\<lambda>c. c \<noteq> CHR ''.'') s;
          frac = drop (Suc (length whole)) s
      in if whole = [] \<and> frac = [] then None
         else (case (digits_value 10 0 whole, digits_value 10 0 frac) of
                 (Some w, Some f) \<Rightarrow> Some (of_nat w + of_nat f / 10 ^ length frac)
               | _ \<Rightarrow> None))"

definition signed_natural :: "string \<Rightarrow> int option" where
  "signed_natural s =
     (case s of
        c # cs \<Rightarrow>
          if c = CHR ''-'' then map_option (\<lambda>n. - int n) (natural_in_base 10 cs)
          else if c = CHR ''+'' then map_option int (natural_in_base 10 cs)
          else map_option int (natural_in_base 10 s)
      | [] \<Rightarrow> None)"

definition scale10 :: "rat \<Rightarrow> int \<Rightarrow> rat" where
  "scale10 m e = (if 0 \<le> e then m * 10 ^ nat e else m / 10 ^ nat (- e))"

definition unsigned_decimal :: "string \<Rightarrow> rat option" where
  "unsigned_decimal s =
     (let mant = takeWhile (\<lambda>c. c \<noteq> CHR ''e'' \<and> c \<noteq> CHR ''E'') s in
      if length mant = length s then decimal_mantissa s
      else (case (decimal_mantissa mant, signed_natural (drop (Suc (length mant)) s)) of
              (Some m, Some e) \<Rightarrow> Some (scale10 m e)
            | _ \<Rightarrow> None))"

text \<open>
  \<open>Number(s)\<close> for a trimmed string that is not empty, \<^const>\<open>None\<close> for \<open>NaN\<close> and the infinities
  (a magnitude that rounds to infinity is at least the bound below).
\<close>

definition double_overflow :: rat where
  "double_overflow = 2 ^ 1024 - 2 ^ 970"

definition finite_double :: "rat \<Rightarrow> rat option" where
  "finite_double x = (if \<bar>x\<bar> < double_overflow then Some x else None)"

definition number_of_string :: "string \<Rightarrow> rat option" where
  "number_of_string s =
     (if take 2 s \<in> {''0x'', ''0X''} then Option.bind (map_option of_nat (natural_in_base 16 (drop 2 s))) finite_double
      else if take 2 s \<in> {''0o'', ''0O''} then Option.bind (map_option of_nat (natural_in_base 8 (drop 2 s))) finite_double
      else if take 2 s \<in> {''0b'', ''0B''} then Option.bind (map_option of_nat (natural_in_base 2 (drop 2 s))) finite_double
      else (case s of
              [] \<Rightarrow> Some 0
            | c # cs \<Rightarrow>
                if c = CHR ''-'' then Option.bind (map_option uminus (unsigned_decimal cs)) finite_double
                else if c = CHR ''+'' then Option.bind (unsigned_decimal cs) finite_double
                else Option.bind (unsigned_decimal s) finite_double))"

text \<open>\<open>Math.trunc\<close>\<close>

definition js_trunc :: "rat \<Rightarrow> int" where
  "js_trunc x = (if x < 0 then \<lceil>x\<rceil> else \<lfloor>x\<rfloor>)"


section \<open>Readers of wire values\<close>

record valibot =
  v_string :: "json \<Rightarrow> string option"
  v_boolean :: "json \<Rightarrow> bool option"
  v_finite_number :: "json \<Rightarrow> rat option"
  v_array :: "json \<Rightarrow> json list option"

definition valibot_conforms :: "valibot \<Rightarrow> bool" where
  "valibot_conforms vb \<longleftrightarrow>
     (\<forall>j. v_string vb j = (case j of JStr s \<Rightarrow> Some s | _ \<Rightarrow> None)) \<and>
     (\<forall>j. v_boolean vb j = (case j of JBool b \<Rightarrow> Some b | _ \<Rightarrow> None)) \<and>
     (\<forall>j. v_finite_number vb j = (case j of JNum n \<Rightarrow> Some n | _ \<Rightarrow> None)) \<and>
     (\<forall>j. v_array vb j = (case j of JArr xs \<Rightarrow> Some xs | _ \<Rightarrow> None))"

definition toRecord :: "json option \<Rightarrow> (string, json) jsmap option" where
  "toRecord v = (case v of Some (JObj o') \<Rightarrow> Some o' | _ \<Rightarrow> None)"

definition lookupDispatchEntry :: "(string, 'e) jsmap \<Rightarrow> string \<Rightarrow> 'e option" where
  "lookupDispatchEntry table key = map_get table key"

definition readString :: "valibot \<Rightarrow> json option \<Rightarrow> string option" where
  "readString vb v = Option.bind v (v_string vb)"

definition readBoolean :: "valibot \<Rightarrow> json option \<Rightarrow> bool option" where
  "readBoolean vb v = Option.bind v (v_boolean vb)"

definition readFiniteNumber :: "valibot \<Rightarrow> json option \<Rightarrow> rat option" where
  "readFiniteNumber vb v = Option.bind v (v_finite_number vb)"

definition coercedFiniteNumberSchema :: "valibot \<Rightarrow> json \<Rightarrow> rat option" where
  "coercedFiniteNumberSchema vb j =
     (case v_finite_number vb j of
        Some n \<Rightarrow> Some n
      | None \<Rightarrow> Option.bind (v_string vb j) (\<lambda>s. number_of_string (trim s)))"

definition finiteNumberLikeSchema :: "valibot \<Rightarrow> json \<Rightarrow> rat option" where
  "finiteNumberLikeSchema vb j =
     (case v_finite_number vb j of
        Some n \<Rightarrow> Some n
      | None \<Rightarrow> Option.bind (v_string vb j)
          (\<lambda>s. let t = trim s in if t = [] then None else number_of_string t))"

definition readCoercedFiniteNumber :: "valibot \<Rightarrow> json option \<Rightarrow> rat option" where
  "readCoercedFiniteNumber vb v = Option.bind v (coercedFiniteNumberSchema vb)"

definition readFiniteNumberLike :: "valibot \<Rightarrow> json option \<Rightarrow> rat option" where
  "readFiniteNumberLike vb v = Option.bind v (finiteNumberLikeSchema vb)"

definition readIntegerLike :: "valibot \<Rightarrow> json option \<Rightarrow> int option" where
  "readIntegerLike vb v = map_option js_trunc (readFiniteNumberLike vb v)"

definition readNonNegativeIntegerLike :: "valibot \<Rightarrow> json option \<Rightarrow> int option" where
  "readNonNegativeIntegerLike vb v = map_option (\<lambda>x. max 0 \<lfloor>x\<rfloor>) (readFiniteNumberLike vb v)"

definition readTrimmedStringArray :: "valibot \<Rightarrow> json option \<Rightarrow> string list" where
  "readTrimmedStringArray vb v =
     (case Option.bind v (v_array vb) of
        None \<Rightarrow> []
      | Some xs \<Rightarrow>
          filter (\<lambda>s. s \<noteq> [])
            (map (\<lambda>x. case readString vb (Some x) of Some s \<Rightarrow> trim s | None \<Rightarrow> []) xs))"

definition readNonEmptyStringArray :: "valibot \<Rightarrow> json option \<Rightarrow> string list option" where
  "readNonEmptyStringArray vb v =
     Option.bind (Option.bind v (v_array vb))
       (\<lambda>xs. let ss = List.map_filter (\<lambda>x. readString vb (Some x)) xs
             in if ss = [] then None else Some ss)"

text \<open>\<^verbatim>\<open>bridge/agui/agUiValueReaders.ts\<close>\<close>

definition nonEmptyString :: "json option \<Rightarrow> string option" where
  "nonEmptyString v =
     (case v of Some (JStr s) \<Rightarrow> if trim s \<noteq> [] then Some (trim s) else None | _ \<Rightarrow> None)"

definition record_of :: "json option \<Rightarrow> (string, json) jsmap option" where
  "record_of v = (case v of Some (JObj o') \<Rightarrow> Some o' | _ \<Rightarrow> None)"

text \<open>\<open>o?.[key]\<close> on an optional object\<close>

definition field :: "(string, json) jsmap option \<Rightarrow> string \<Rightarrow> json option" where
  "field o' key = Option.bind o' (\<lambda>m. map_get m key)"

lemma nonEmptyString_Some:
  "nonEmptyString v = Some s \<Longrightarrow> s \<noteq> [] \<and> trim s = s"
  by (auto simp: nonEmptyString_def split: option.splits json.splits if_splits)

lemma readNonNegativeIntegerLike_nonneg:
  "readNonNegativeIntegerLike vb v = Some n \<Longrightarrow> 0 \<le> n"
  by (auto simp: readNonNegativeIntegerLike_def)

lemma readTrimmedStringArray_trimmed:
  "s \<in> set (readTrimmedStringArray vb v) \<Longrightarrow> s \<noteq> [] \<and> trim s = s"
  by (auto simp: readTrimmedStringArray_def split: option.splits)

lemma js_trunc_of_int [simp]: "js_trunc (of_int i) = i"
  by (simp add: js_trunc_def)

text \<open>The documented primitives, as a concrete instance.\<close>

definition valibot_documented :: valibot where
  "valibot_documented =
     \<lparr>v_string = (\<lambda>j. case j of JStr s \<Rightarrow> Some s | _ \<Rightarrow> None),
      v_boolean = (\<lambda>j. case j of JBool b \<Rightarrow> Some b | _ \<Rightarrow> None),
      v_finite_number = (\<lambda>j. case j of JNum n \<Rightarrow> Some n | _ \<Rightarrow> None),
      v_array = (\<lambda>j. case j of JArr xs \<Rightarrow> Some xs | _ \<Rightarrow> None)\<rparr>"

lemma valibot_documented_conforms: "valibot_conforms valibot_documented"
  by (simp add: valibot_conforms_def valibot_documented_def)

end
