(* ===== verification/AgUiTypes.thy ===== *)
theory AgUiTypes
  imports JsValue
begin

text \<open>
  The data that crosses the bridge: chat messages (\<^verbatim>\<open>bridge/types/chat.ts\<close>), the notification
  envelope of the RPC stream (\<^verbatim>\<open>bridge/types/bridge.ts\<close>), the AG-UI events
  and their admission check (\<^verbatim>\<open>bridge/agui/agUi.ts\<close>, \<^verbatim>\<open>bridge/agui/agUiMessagesState.ts\<close>).

  The schema validator \<open>EventSchemas.safeParse\<close> belongs to the package \<^verbatim>\<open>@ag-ui/core\<close>: it is
  the parameter \<open>safe_parse\<close>, which returns the typed event with its optional timestamp.
\<close>

section \<open>Chat messages\<close>

datatype chat_role = Developer | System | Assistant | User | Tool | Activity | Reasoning

record tool_call =
  tc_id :: string
  tc_name :: string
  tc_arguments :: string
  tc_encryptedValue :: "string option"

datatype tool_kind =
    KRead | KEdit | KDelete | KMove | KSearch | KExecute | KThink | KFetch | KSwitchMode | KOther

datatype tool_status = TsPending | TsInProgress | TsCompleted | TsFailed

record tool_meta =
  tm_toolCallId :: string
  tm_kind :: tool_kind
  tm_status :: tool_status
  tm_title :: string
  tm_content :: "json list option"
  tm_locations :: "json list option"
  tm_truncated :: "bool option"

text \<open>
  One record for the union \<open>ChatMessage\<close>: the fields a role does not have are \<^const>\<open>None\<close>.
  The content is a string, an array of parts (user) or an object (activity).
\<close>

record chat_message =
  cm_id :: string
  cm_role :: chat_role
  cm_content :: json
  cm_name :: "string option"
  cm_toolCalls :: "tool_call list option"
  cm_toolCallId :: "string option"
  cm_error :: "string option"
  cm_activityType :: "string option"
  cm_encryptedValue :: "string option"
  cm_parts :: "json list option"
  cm_createdAt :: string
  cm_completedAt :: "string option"
  cm_pending :: "bool option"
  cm_toolMeta :: "tool_meta option"
  cm_usage :: "json option"


section \<open>AG-UI events\<close>

datatype encrypted_subtype = EncToolCall | EncMessage

datatype agui_event =
    RUN_STARTED string string
  | RUN_FINISHED string string
  | RUN_ERROR string
  | STEP_STARTED string
  | STEP_FINISHED string
  | TEXT_MESSAGE_START string chat_role "string option" "json option"
  | TEXT_MESSAGE_CONTENT string string
  | TEXT_MESSAGE_END string
  | TEXT_MESSAGE_CHUNK "string option" "chat_role option" "string option" "string option"
  | TOOL_CALL_START string string "string option"
  | TOOL_CALL_ARGS string string
  | TOOL_CALL_END string
  | TOOL_CALL_CHUNK "string option" "string option" "string option" "string option"
  | TOOL_CALL_RESULT string string string
  | STATE_SNAPSHOT json
  | STATE_DELTA "json list"
  | MESSAGES_SNAPSHOT "chat_message list"
  | ACTIVITY_SNAPSHOT string string "(string, json) jsmap"
  | ACTIVITY_DELTA string string "json list"
  | RAW "string option" json
  | CUSTOM string "json option"
  | REASONING_START string
  | REASONING_MESSAGE_START string
  | REASONING_MESSAGE_CONTENT string string
  | REASONING_MESSAGE_END string
  | REASONING_MESSAGE_CHUNK "string option" "string option"
  | REASONING_END string
  | REASONING_ENCRYPTED_VALUE string string encrypted_subtype
  | UNSUPPORTED_EVENT string

type_synonym event_parser = "json option \<Rightarrow> (agui_event \<times> rat option) option"

record agui_envelope =
  env_threadId :: string
  env_runId :: string
  env_sourceTurnId :: "string option"
  env_event :: agui_event
  env_timestamp :: "rat option"

text \<open>Membership in \<open>SUPPORTED_AG_UI_EVENT_TYPES\<close>.\<close>

definition supported_event :: "agui_event \<Rightarrow> bool" where
  "supported_event e \<longleftrightarrow> (case e of UNSUPPORTED_EVENT _ \<Rightarrow> False | _ \<Rightarrow> True)"


section \<open>Notifications\<close>

record notification =
  n_method :: string
  n_params :: "(string, json) jsmap option"
  n_protocolVersion :: "int option"
  n_streamId :: "string option"
  n_eventId :: "int option"

definition event_identity_ok :: "string \<Rightarrow> string \<Rightarrow> agui_event \<Rightarrow> bool" where
  "event_identity_ok threadId runId e =
     (case e of
        RUN_STARTED t r \<Rightarrow> t = threadId \<and> r = runId
      | RUN_FINISHED t r \<Rightarrow> t = threadId \<and> r = runId
      | _ \<Rightarrow> True)"

definition parseAgUiEventNotification ::
  "event_parser \<Rightarrow> notification \<Rightarrow> agui_envelope option" where
  "parseAgUiEventNotification safe_parse n =
     (if n_method n \<noteq> ''bridge/agui.event'' then None
      else
        let params = n_params n in
        case (nonEmptyString (field params ''threadId''), nonEmptyString (field params ''runId''),
              safe_parse (field params ''event'')) of
          (Some threadId, Some runId, Some (event, ts)) \<Rightarrow>
            if \<not> supported_event event \<or> \<not> event_identity_ok threadId runId event then None
            else Some \<lparr>env_threadId = threadId, env_runId = runId,
                       env_sourceTurnId = nonEmptyString (field params ''sourceTurnId''),
                       env_event = event, env_timestamp = ts\<rparr>
        | _ \<Rightarrow> None)"

lemma parseAgUiEventNotification_SomeD:
  assumes "parseAgUiEventNotification sp n = Some env"
  shows "env_threadId env \<noteq> []" "env_runId env \<noteq> []" "supported_event (env_event env)"
    "env_event env = RUN_FINISHED t r \<Longrightarrow> t = env_threadId env \<and> r = env_runId env"
  using assms
  by (auto simp: parseAgUiEventNotification_def event_identity_ok_def Let_def
      dest!: nonEmptyString_Some split: if_splits option.splits prod.splits)

end
