(* ===== verification/WsClient.thy ===== *)
theory WsClient
  imports AgUiTypes
begin

text \<open>
  The bridge websocket client, \<^verbatim>\<open>bridge/ws/*.ts\<close>: the class \<open>HostBridgeWsClient\<close> with its layers
  (connection, socket transport, replay and ordering, completion and dispatch).

  The object is the record \<open>ws_client\<close>; every method is a function on it. What the object does to
  its surroundings (listener calls, socket operations, timers, settled promises) is appended to
  the log \<open>outs\<close>. Promises, sockets and timers have identities drawn from \<open>fresh\<close>; a pending
  continuation is data (\<open>waiting\<close>, \<open>pendingRequests\<close>, \<open>replayTasks\<close>, \<open>waiters\<close>) that a later
  event resumes, so that the events of \<open>ws_step\<close> interleave in any order the platform allows.
  Listeners do not call back into the client while an event is being emitted.

  Parameters (\<open>ws_deps\<close>): the validators, the platform name of React Native and the random
  jitter \<open>Math.floor(Math.random() * 250)\<close> drawn for each reconnect timer.
\<close>

section \<open>State\<close>

datatype origin = FromBridge | FromClient

datatype ws_error =
    RpcRequestError string rat string "json option"
  | BridgeProtocolVersionError int
  | PlainError string

datatype request_owner = Caller nat | ReplayOf nat

datatype ws_out =
    EmitEvent origin notification
  | EmitStatus bool
  | OpenSocket nat string "string option"
  | CloseSocket nat
  | SendRequest string string "json option"
  | SettleCaller nat "ws_error + json"
  | SettleWaiter nat "ws_error option"
  | StartTimer nat int

datatype snapshot_reason = StreamChanged | ReplayInconsistent | ReplayTruncated | RecoveryOverflow

datatype stream_identity = IdMissing | IdInitial | IdSame | IdChanged | IdUnsupported

datatype delivery_source = Live | Replay

record turn_completion =
  co_threadId :: string
  co_turnId :: "string option"
  co_status :: "string option"
  co_errorMessage :: "string option"
  co_completedAt :: int

record pending_request =
  pr_method :: string
  pr_owner :: request_owner

record waiting_request =
  wr_method :: string
  wr_params :: "json option"
  wr_ensured :: bool

text \<open>One call of \<open>openSocket\<close>: the socket, its closure variables and its \<open>readyState\<close>.\<close>

record attempt =
  at_generation :: nat
  at_settled :: bool
  at_ready :: nat

datatype replay_phase = RpAwait | RpSettled "ws_error + json" | RpDone bool

record replay_task =
  rt_generation :: nat
  rt_cursor :: int
  rt_target :: "int option"
  rt_phase :: replay_phase

record waiter =
  wt_id :: nat
  wt_threadId :: string
  wt_turnId :: string
  wt_timeoutMs :: int

record ws_client =
  authToken :: "string option"
  workspaceId :: "string option"
  allowQueryTokenAuth :: bool
  baseUrl :: string
  requestTimeoutMs :: int
  socket :: "nat option"
  pendingSocket :: "nat option"
  connected :: bool
  shouldReconnect :: bool
  reconnectAttempts :: nat
  reconnectTimer :: "(nat \<times> nat) option"
  connectPromise :: "nat option"
  connectGeneration :: nat
  pendingRequests :: "(json, pending_request) jsmap"
  recentTurnCompletions :: "(string, turn_completion) jsmap"
  pendingEvents :: "(int, notification) jsmap"
  lastSeenEventId :: int
  replaySupported :: bool
  replayInFlight :: "nat option"
  replayGeneration :: nat
  recoveryWatermark :: "int option"
  awaitingFreshRecoveryBaseline :: bool
  requestCounter :: nat
  streamId :: "string option"
  protocolError :: "int option"
  attempts :: "(nat, attempt) jsmap"
  replayTasks :: "(nat, replay_task) jsmap"
  waiting :: "(request_owner, waiting_request) jsmap"
  waiters :: "waiter list"
  clock :: int
  fresh :: nat
  outs :: "ws_out list"

record ws_deps =
  dp_valibot :: valibot
  dp_parse :: event_parser
  dp_platform :: string
  dp_jitter :: "nat \<Rightarrow> nat"

definition PROTOCOL_VERSION :: int where "PROTOCOL_VERSION = 2"
definition TURN_COMPLETION_TTL_MS :: int where "TURN_COMPLETION_TTL_MS = 5 * 60 * 1000"
definition MAX_RECOVERY_BUFFERED_EVENTS :: nat where "MAX_RECOVERY_BUFFERED_EVENTS = 2048"

record ws_options =
  opt_authToken :: "string option"
  opt_workspaceId :: "string option"
  opt_allowQueryTokenAuth :: "bool option"
  opt_requestTimeoutMs :: "int option"

definition trimmed_or_null :: "string option \<Rightarrow> string option" where
  "trimmed_or_null v = Option.bind v (\<lambda>s. if trim s = [] then None else Some (trim s))"

definition strip_trailing_slash :: "string \<Rightarrow> string" where
  "strip_trailing_slash u = (if u \<noteq> [] \<and> last u = CHR ''/'' then butlast u else u)"

definition newClient :: "string \<Rightarrow> ws_options \<Rightarrow> ws_client" where
  "newClient url opts =
     \<lparr>authToken = trimmed_or_null (opt_authToken opts),
      workspaceId = trimmed_or_null (opt_workspaceId opts),
      allowQueryTokenAuth = (case opt_allowQueryTokenAuth opts of None \<Rightarrow> False | Some b \<Rightarrow> b),
      baseUrl = strip_trailing_slash url,
      requestTimeoutMs = (case opt_requestTimeoutMs opts of None \<Rightarrow> 180000 | Some t \<Rightarrow> t),
      socket = None, pendingSocket = None, connected = False, shouldReconnect = False,
      reconnectAttempts = 0, reconnectTimer = None, connectPromise = None, connectGeneration = 0,
      pendingRequests = [], recentTurnCompletions = [], pendingEvents = [],
      lastSeenEventId = 0, replaySupported = True, replayInFlight = None, replayGeneration = 0,
      recoveryWatermark = None, awaitingFreshRecoveryBaseline = False, requestCounter = 0,
      streamId = None, protocolError = None, attempts = [], replayTasks = [], waiting = [],
      waiters = [], clock = 0, fresh = 0, outs = []\<rparr>"


section \<open>Event parsing and turn completions\<close>

definition readEventId :: "valibot \<Rightarrow> (string, json) jsmap \<Rightarrow> int option" where
  "readEventId vb rec =
     (case readIntegerLike vb (map_get rec ''eventId'') of
        None \<Rightarrow> None
      | Some i \<Rightarrow> if i < 1 then None else Some i)"

definition turnCompletionKey :: "string \<Rightarrow> string \<Rightarrow> string" where
  "turnCompletionKey threadId turnId = threadId @ ''::'' @ turnId"

definition toAgUiTurnCompletionSnapshot ::
  "ws_deps \<Rightarrow> int \<Rightarrow> notification \<Rightarrow> turn_completion option" where
  "toAgUiTurnCompletionSnapshot dp now n =
     (case parseAgUiEventNotification (dp_parse dp) n of
        None \<Rightarrow> None
      | Some env \<Rightarrow>
          (case env_sourceTurnId env of
             None \<Rightarrow> None
           | Some turn \<Rightarrow>
               (case env_event env of
                  RUN_FINISHED _ _ \<Rightarrow>
                    Some \<lparr>co_threadId = env_threadId env, co_turnId = Some turn,
                          co_status = Some ''completed'', co_errorMessage = None,
                          co_completedAt = now\<rparr>
                | RUN_ERROR msg \<Rightarrow>
                    Some \<lparr>co_threadId = env_threadId env, co_turnId = Some turn,
                          co_status = Some ''failed'', co_errorMessage = Some msg,
                          co_completedAt = now\<rparr>
                | _ \<Rightarrow> None)))"

definition isFailedTurnStatus :: "string option \<Rightarrow> bool" where
  "isFailedTurnStatus st \<longleftrightarrow>
     st \<in> {Some ''failed'', Some ''interrupted'', Some ''error'', Some ''aborted'',
           Some ''cancelled'', Some ''canceled''}"

definition pruneTurnCompletions ::
  "int \<Rightarrow> (string, turn_completion) jsmap \<Rightarrow> (string, turn_completion) jsmap" where
  "pruneTurnCompletions now m =
     filter (\<lambda>(k, c). \<not> now - co_completedAt c > TURN_COMPLETION_TTL_MS) m"

definition rememberTurnCompletion ::
  "int \<Rightarrow> turn_completion \<Rightarrow> (string, turn_completion) jsmap \<Rightarrow> (string, turn_completion) jsmap" where
  "rememberTurnCompletion now c m =
     (case co_turnId c of
        None \<Rightarrow> m
      | Some turn \<Rightarrow>
          if turn = [] then m
          else map_put (turnCompletionKey (co_threadId c) turn) c (pruneTurnCompletions now m))"

definition getTurnCompletion :: "string \<Rightarrow> string \<Rightarrow> ws_client \<Rightarrow> turn_completion option \<times> ws_client" where
  "getTurnCompletion threadId turnId s =
     (let m = pruneTurnCompletions (clock s) (recentTurnCompletions s)
      in (map_get m (turnCompletionKey threadId turnId), s\<lparr>recentTurnCompletions := m\<rparr>))"

text \<open>The error a completion settles a waiting caller with, \<^const>\<open>None\<close> when the turn succeeded.\<close>

definition assertTurnSucceeded :: "turn_completion \<Rightarrow> ws_error option" where
  "assertTurnSucceeded c =
     (if isFailedTurnStatus (co_status c)
      then Some (PlainError
        (case co_errorMessage c of
           Some m \<Rightarrow> m
         | None \<Rightarrow> ''turn '' @ (case co_status c of Some st \<Rightarrow> st | None \<Rightarrow> ''failed'')))
      else None)"


section \<open>Dispatch to listeners\<close>

fun notify_waiters ::
  "int \<Rightarrow> turn_completion option \<Rightarrow> waiter list \<Rightarrow> (string, turn_completion) jsmap \<Rightarrow>
   waiter list \<times> (string, turn_completion) jsmap \<times> ws_out list" where
  "notify_waiters now c [] m = ([], m, [])"
| "notify_waiters now c (w # ws) m =
     (case c of
        None \<Rightarrow> (w # ws, m, [])
      | Some co \<Rightarrow>
          if co_threadId co = wt_threadId w \<and> co_turnId co = Some (wt_turnId w)
          then (case notify_waiters now c ws (rememberTurnCompletion now co m) of
                  (ws', m', os) \<Rightarrow> (ws', m', SettleWaiter (wt_id w) (assertTurnSucceeded co) # os))
          else (case notify_waiters now c ws m of (ws', m', os) \<Rightarrow> (w # ws', m', os)))"

definition emitEvent :: "ws_deps \<Rightarrow> origin \<Rightarrow> notification \<Rightarrow> ws_client \<Rightarrow> ws_client" where
  "emitEvent dp org n s =
     (let r = notify_waiters (clock s) (toAgUiTurnCompletionSnapshot dp (clock s) n)
                (waiters s) (recentTurnCompletions s)
      in s\<lparr>waiters := fst r, recentTurnCompletions := fst (snd r),
           outs := outs s @ EmitEvent org n # snd (snd r)\<rparr>)"

definition emitStatus :: "bool \<Rightarrow> ws_client \<Rightarrow> ws_client" where
  "emitStatus c s = s\<lparr>connected := c, outs := outs s @ [EmitStatus c]\<rparr>"

definition rememberEventCompletion :: "ws_deps \<Rightarrow> notification \<Rightarrow> ws_client \<Rightarrow> ws_client" where
  "rememberEventCompletion dp n s =
     s\<lparr>recentTurnCompletions :=
         (case toAgUiTurnCompletionSnapshot dp (clock s) n of
            None \<Rightarrow> recentTurnCompletions s
          | Some c \<Rightarrow> rememberTurnCompletion (clock s) c (recentTurnCompletions s))\<rparr>"

definition emitNumberedEvent :: "ws_deps \<Rightarrow> notification \<Rightarrow> ws_client \<Rightarrow> ws_client" where
  "emitNumberedEvent dp n s =
     (case n_eventId n of
        None \<Rightarrow> s
      | Some i \<Rightarrow> emitEvent dp FromBridge n (rememberEventCompletion dp n (s\<lparr>lastSeenEventId := i\<rparr>)))"

definition deliverUnnumberedEvent :: "ws_deps \<Rightarrow> notification \<Rightarrow> ws_client \<Rightarrow> ws_client" where
  "deliverUnnumberedEvent dp n s = emitEvent dp FromBridge n (rememberEventCompletion dp n s)"

lemmas emit_defs =
  emitNumberedEvent_def deliverUnnumberedEvent_def rememberEventCompletion_def emitEvent_def
  emitStatus_def Let_def


section \<open>Sockets, connection and reconnection\<close>

definition readyState :: "ws_client \<Rightarrow> nat \<Rightarrow> nat" where
  "readyState s k = (case map_get (attempts s) k of None \<Rightarrow> 3 | Some a \<Rightarrow> at_ready a)"

definition socketOpen :: "ws_client \<Rightarrow> bool" where
  "socketOpen s \<longleftrightarrow> (case socket s of None \<Rightarrow> False | Some k \<Rightarrow> readyState s k = 1)"

definition update_attempt :: "nat \<Rightarrow> (attempt \<Rightarrow> attempt) \<Rightarrow> ws_client \<Rightarrow> ws_client" where
  "update_attempt k f s =
     s\<lparr>attempts := map (\<lambda>(j, a). if j = k then (j, f a) else (j, a)) (attempts s)\<rparr>"

definition closeSocket :: "nat \<Rightarrow> ws_client \<Rightarrow> ws_client" where
  "closeSocket k s =
     (update_attempt k (\<lambda>a. a\<lparr>at_ready := max 2 (at_ready a)\<rparr>) s)\<lparr>outs := outs s @ [CloseSocket k]\<rparr>"

definition closeOptionalSocket :: "nat option \<Rightarrow> ws_client \<Rightarrow> ws_client" where
  "closeOptionalSocket k s = (case k of None \<Rightarrow> s | Some j \<Rightarrow> closeSocket j s)"

definition shouldUseQueryTokenAuth :: "ws_deps \<Rightarrow> ws_client \<Rightarrow> bool" where
  "shouldUseQueryTokenAuth dp s \<longleftrightarrow>
     authToken s \<noteq> None \<and> allowQueryTokenAuth s \<and> dp_platform dp \<in> {''android'', ''web''}"

definition socketUrl :: "ws_deps \<Rightarrow> ws_client \<Rightarrow> string" where
  "socketUrl dp s =
     (let wsBase = (if starts_with (baseUrl s) ''https://''
                    then replace_first ''https://'' ''wss://'' (baseUrl s)
                    else replace_first ''http://'' ''ws://'' (baseUrl s));
          base = wsBase @ ''/rpc'';
          tokenPart = (case authToken s of
                         Some t \<Rightarrow> if shouldUseQueryTokenAuth dp s
                                   then [''token='' @ encode_uri_component t] else []
                       | None \<Rightarrow> []);
          workspacePart = (case workspaceId s of
                             Some w \<Rightarrow> [''workspace='' @ encode_uri_component w]
                           | None \<Rightarrow> []);
          suffix = join ''&'' (tokenPart @ workspacePart)
      in if suffix = [] then base else base @ ''?'' @ suffix)"

definition authorizationHeader :: "ws_deps \<Rightarrow> ws_client \<Rightarrow> string option" where
  "authorizationHeader dp s =
     (case authToken s of
        Some t \<Rightarrow> if dp_platform dp \<noteq> ''web'' \<and> \<not> shouldUseQueryTokenAuth dp s
                  then Some (''Bearer '' @ t) else None
      | None \<Rightarrow> None)"

text \<open>\<open>openSocket(generation)\<close> up to its first suspension; the socket's identity is \<open>fresh s\<close>.\<close>

definition openSocket :: "ws_deps \<Rightarrow> nat \<Rightarrow> ws_client \<Rightarrow> ws_client" where
  "openSocket dp generation s =
     s\<lparr>pendingSocket := Some (fresh s), fresh := Suc (fresh s),
       attempts := attempts s @
         [(fresh s, \<lparr>at_generation = generation, at_settled = False, at_ready = 0\<rparr>)],
       outs := outs s @ [OpenSocket (fresh s) (socketUrl dp s) (authorizationHeader dp s)]\<rparr>"

definition connectionIdle :: "ws_client \<Rightarrow> bool" where
  "connectionIdle s \<longleftrightarrow>
     socket s = None \<and> pendingSocket s = None \<and> connectPromise s = None \<and> reconnectTimer s = None"

definition startConnect :: "ws_deps \<Rightarrow> ws_client \<Rightarrow> ws_client" where
  "startConnect dp s =
     (if \<not> shouldReconnect s \<or> \<not> connectionIdle s then s
      else
        let k = fresh s; g = Suc (connectGeneration s)
        in (openSocket dp g (s\<lparr>connectGeneration := g\<rparr>))\<lparr>connectPromise := Some k\<rparr>)"

definition connect :: "ws_deps \<Rightarrow> ws_client \<Rightarrow> ws_client" where
  "connect dp s =
     (if protocolError s \<noteq> None then s else startConnect dp (s\<lparr>shouldReconnect := True\<rparr>))"

definition reconnectDelay :: "ws_deps \<Rightarrow> nat \<Rightarrow> nat \<Rightarrow> int" where
  "reconnectDelay dp attempt timer = min 5000 (500 * 2 ^ attempt) + int (dp_jitter dp timer)"

definition scheduleReconnect :: "ws_deps \<Rightarrow> ws_client \<Rightarrow> ws_client" where
  "scheduleReconnect dp s =
     (if \<not> shouldReconnect s \<or> \<not> connectionIdle s then s
      else
        let timer = fresh s
        in s\<lparr>reconnectAttempts := Suc (reconnectAttempts s), fresh := Suc (fresh s),
             reconnectTimer := Some (timer, connectGeneration s),
             outs := outs s @ [StartTimer timer (reconnectDelay dp (reconnectAttempts s) timer)]\<rparr>)"

text \<open>The callback of the timer that \<open>scheduleReconnect\<close> starts.\<close>

definition onReconnectTimer :: "ws_deps \<Rightarrow> nat \<Rightarrow> ws_client \<Rightarrow> ws_client" where
  "onReconnectTimer dp timer s =
     (case reconnectTimer s of
        None \<Rightarrow> s
      | Some (t, generation) \<Rightarrow>
          if t \<noteq> timer then s
          else
            let s1 = s\<lparr>reconnectTimer := None\<rparr>
            in if \<not> shouldReconnect s1 \<or> generation \<noteq> connectGeneration s1 then s1
               else startConnect dp s1)"

text \<open>The \<open>finally\<close> callback of the promise that \<open>startConnect\<close> made for attempt \<open>k\<close>.\<close>

definition onConnectSettled :: "ws_deps \<Rightarrow> nat \<Rightarrow> ws_client \<Rightarrow> ws_client" where
  "onConnectSettled dp k s =
     (case map_get (attempts s) k of
        None \<Rightarrow> s
      | Some a \<Rightarrow>
          if \<not> at_settled a \<or> connectPromise s \<noteq> Some k then s
          else
            let s1 = s\<lparr>connectPromise := None\<rparr>
            in if shouldReconnect s1 \<and> at_generation a = connectGeneration s1 \<and>
                  socket s1 = None \<and> pendingSocket s1 = None
               then scheduleReconnect dp s1 else s1)"


section \<open>Requests\<close>

definition set_phase ::
  "nat \<Rightarrow> replay_phase \<Rightarrow> (nat, replay_task) jsmap \<Rightarrow> (nat, replay_task) jsmap" where
  "set_phase k ph ts = map (\<lambda>(j, t). if j = k then (j, t\<lparr>rt_phase := ph\<rparr>) else (j, t)) ts"

definition settle :: "request_owner \<Rightarrow> (ws_error + json) \<Rightarrow> ws_client \<Rightarrow> ws_client" where
  "settle owner r s =
     (case owner of
        Caller c \<Rightarrow> s\<lparr>outs := outs s @ [SettleCaller c r]\<rparr>
      | ReplayOf k \<Rightarrow> s\<lparr>replayTasks := set_phase k (RpSettled r) (replayTasks s)\<rparr>)"

definition caller_rejections :: "ws_error \<Rightarrow> (json, pending_request) jsmap \<Rightarrow> ws_out list" where
  "caller_rejections err ps =
     List.map_filter
       (\<lambda>(i, p). case pr_owner p of Caller c \<Rightarrow> Some (SettleCaller c (Inl err)) | ReplayOf k \<Rightarrow> None) ps"

definition fail_replays ::
  "ws_error \<Rightarrow> (json, pending_request) jsmap \<Rightarrow> (nat, replay_task) jsmap \<Rightarrow> (nat, replay_task) jsmap" where
  "fail_replays err ps ts =
     map (\<lambda>(k, t). if list_ex (\<lambda>(i, p). pr_owner p = ReplayOf k) ps
                   then (k, t\<lparr>rt_phase := RpSettled (Inl err)\<rparr>) else (k, t)) ts"

definition rejectAllPending :: "ws_error \<Rightarrow> ws_client \<Rightarrow> ws_client" where
  "rejectAllPending err s =
     s\<lparr>outs := outs s @ caller_rejections err (pendingRequests s),
       replayTasks := fail_replays err (pendingRequests s) (replayTasks s),
       pendingRequests := []\<rparr>"

text \<open>\<open>ensureConnected\<close> up to its first suspension.\<close>

definition ensureConnectedStart :: "ws_deps \<Rightarrow> ws_client \<Rightarrow> ws_client" where
  "ensureConnectedStart dp s =
     (if connected s \<and> socketOpen s then s
      else if shouldReconnect s then startConnect dp (s\<lparr>reconnectTimer := None\<rparr>)
      else s)"

definition beginRequest ::
  "ws_deps \<Rightarrow> request_owner \<Rightarrow> string \<Rightarrow> json option \<Rightarrow> ws_client \<Rightarrow> ws_client" where
  "beginRequest dp owner method params s =
     (let s1 = ensureConnectedStart dp s
      in s1\<lparr>waiting := map_put owner
              \<lparr>wr_method = method, wr_params = params, wr_ensured = False\<rparr> (waiting s1)\<rparr>)"

text \<open>
  The rest of \<open>ensureConnected\<close>: the awaited connection promise may have been rejected
  (\<open>failure\<close>); otherwise the connection is checked once more.
\<close>

definition ensureConnectedEnd :: "request_owner \<Rightarrow> string option \<Rightarrow> ws_client \<Rightarrow> ws_client" where
  "ensureConnectedEnd owner failure s =
     (case map_get (waiting s) owner of
        None \<Rightarrow> s
      | Some w \<Rightarrow>
          if wr_ensured w then s
          else
            (case failure of
               Some msg \<Rightarrow> settle owner (Inl (PlainError msg)) (s\<lparr>waiting := map_del owner (waiting s)\<rparr>)
             | None \<Rightarrow>
                 if \<not> connected s \<or> \<not> socketOpen s
                 then settle owner (Inl (PlainError ''Unable to connect to bridge websocket''))
                        (s\<lparr>waiting := map_del owner (waiting s)\<rparr>)
                 else s\<lparr>waiting := map_put owner (w\<lparr>wr_ensured := True\<rparr>) (waiting s)\<rparr>))"

definition requestId :: "int \<Rightarrow> nat \<Rightarrow> string" where
  "requestId now counter = string_of_int now @ ''-'' @ string_of_nat counter"

text \<open>The body of \<open>request\<close> after \<open>ensureConnected\<close>; \<open>sendOk\<close> is false when \<open>send\<close> throws.\<close>

definition sendRequest :: "request_owner \<Rightarrow> bool \<Rightarrow> ws_client \<Rightarrow> ws_client" where
  "sendRequest owner sendOk s =
     (case map_get (waiting s) owner of
        None \<Rightarrow> s
      | Some w \<Rightarrow>
          if \<not> wr_ensured w then s
          else
            let s1 = s\<lparr>waiting := map_del owner (waiting s), requestCounter := Suc (requestCounter s)\<rparr>;
                rid = requestId (clock s1) (requestCounter s1)
            in if \<not> socketOpen s1
               then settle owner (Inl (PlainError ''Bridge websocket is not connected'')) s1
               else if sendOk
               then s1\<lparr>pendingRequests :=
                         map_put (JStr rid) \<lparr>pr_method = wr_method w, pr_owner = owner\<rparr> (pendingRequests s1),
                       outs := outs s1 @ [SendRequest rid (wr_method w) (wr_params w)]\<rparr>
               else settle owner (Inl (PlainError ''send failed''))
                      (s1\<lparr>pendingRequests := map_del (JStr rid) (pendingRequests s1)\<rparr>))"

text \<open>The timeout callback of a request, which fires only while the request is pending.\<close>

definition onRequestTimeout :: "json \<Rightarrow> ws_client \<Rightarrow> ws_client" where
  "onRequestTimeout rid s =
     (case map_get (pendingRequests s) rid of
        None \<Rightarrow> s
      | Some p \<Rightarrow>
          settle (pr_owner p) (Inl (PlainError (''RPC timeout for method: '' @ pr_method p)))
            (s\<lparr>pendingRequests := map_del rid (pendingRequests s)\<rparr>))"

lemmas request_defs =
  settle_def rejectAllPending_def ensureConnectedStart_def beginRequest_def ensureConnectedEnd_def
  sendRequest_def onRequestTimeout_def Let_def

lemmas connection_defs =
  update_attempt_def closeSocket_def closeOptionalSocket_def openSocket_def startConnect_def
  connect_def scheduleReconnect_def onReconnectTimer_def onConnectSettled_def Let_def

end
