(* ===== verification/WsProtocol.thy ===== *)
theory WsProtocol
  imports WsClient
begin

text \<open>
  The stream side of the websocket client: epochs, buffering, replay and the socket callbacks
  (\<^verbatim>\<open>replayAndOrderingLayer.ts\<close>, \<^verbatim>\<open>socketTransportLayer.ts\<close>, and \<open>acknowledgeSnapshotRecovery\<close>,
  \<open>resetRecoveryEpoch\<close>, \<open>disconnect\<close>, \<open>waitForTurnCompletion\<close> of \<^verbatim>\<open>connectionLayer.ts\<close>), and
  the step function \<open>ws_step\<close> that interleaves API calls, socket events, timers and resumed
  continuations.
\<close>

section \<open>Delivery epochs\<close>

fun reason_string :: "snapshot_reason \<Rightarrow> string" where
  "reason_string StreamChanged = ''streamChanged''"
| "reason_string ReplayInconsistent = ''replayInconsistent''"
| "reason_string ReplayTruncated = ''replayTruncated''"
| "reason_string RecoveryOverflow = ''recoveryOverflow''"

definition json_of_int :: "int option \<Rightarrow> json" where
  "json_of_int v = (case v of None \<Rightarrow> JNull | Some i \<Rightarrow> JNum (of_int i))"

definition json_of_string :: "string option \<Rightarrow> json" where
  "json_of_string v = (case v of None \<Rightarrow> JNull | Some t \<Rightarrow> JStr t)"

definition snapshotRequired ::
  "snapshot_reason \<Rightarrow> string option \<Rightarrow> int \<Rightarrow> int \<Rightarrow> int option \<Rightarrow> int option \<Rightarrow> string option \<Rightarrow> notification" where
  "snapshotRequired reason previousStreamId lastDelivered resumeAfter earliest latest stream =
     \<lparr>n_method = ''bridge/events/snapshotRequired'',
      n_params = Some
        [(''reason'', JStr (reason_string reason)),
         (''previousStreamId'', json_of_string previousStreamId),
         (''lastDeliveredEventId'', JNum (of_int lastDelivered)),
         (''resumeAfterEventId'', JNum (of_int resumeAfter)),
         (''earliestEventId'', json_of_int earliest),
         (''latestEventId'', json_of_int latest)],
      n_protocolVersion = Some PROTOCOL_VERSION, n_streamId = stream, n_eventId = None\<rparr>"

definition resetDeliveryEpoch ::
  "ws_deps \<Rightarrow> snapshot_reason \<Rightarrow> int option \<Rightarrow> int option \<Rightarrow> string option \<Rightarrow> ws_client \<Rightarrow> ws_client" where
  "resetDeliveryEpoch dp reason earliest latest previousStreamId s =
     (let lastDelivered = lastSeenEventId s;
          resumeAfter = (case latest of None \<Rightarrow> 0 | Some l \<Rightarrow> l);
          kept = (if reason = StreamChanged then []
                  else filter (\<lambda>(i, n). \<not> i \<le> resumeAfter) (pendingEvents s))
      in emitEvent dp FromClient
           (snapshotRequired reason previousStreamId lastDelivered resumeAfter earliest latest (streamId s))
           (s\<lparr>replayGeneration := Suc (replayGeneration s), pendingEvents := kept,
              lastSeenEventId := resumeAfter, recoveryWatermark := Some resumeAfter,
              replayInFlight := None\<rparr>))"

definition resetRecoveryEpoch :: "ws_deps \<Rightarrow> ws_client \<Rightarrow> ws_client" where
  "resetRecoveryEpoch dp s =
     (let lastDelivered = lastSeenEventId s;
          previousStreamId = streamId s;
          s1 = s\<lparr>connectGeneration := Suc (connectGeneration s),
                 replayGeneration := Suc (replayGeneration s), replayInFlight := None,
                 pendingEvents := [], recoveryWatermark := Some 0,
                 awaitingFreshRecoveryBaseline := True, lastSeenEventId := 0, streamId := None,
                 socket := None, pendingSocket := None, connectPromise := None,
                 reconnectAttempts := 0, reconnectTimer := None\<rparr>;
          s2 = (if pendingSocket s \<noteq> socket s then closeOptionalSocket (pendingSocket s) s1 else s1);
          s3 = closeOptionalSocket (socket s) s2;
          s4 = rejectAllPending (PlainError ''Bridge websocket recovery epoch reset'') (emitStatus False s3);
          s5 = emitEvent dp FromClient
                 (snapshotRequired RecoveryOverflow previousStreamId lastDelivered 0 None None None) s4
      in if shouldReconnect s5 then startConnect dp s5 else s5)"

definition disconnect :: "ws_client \<Rightarrow> ws_client" where
  "disconnect s =
     (let s1 = s\<lparr>shouldReconnect := False, connectGeneration := Suc (connectGeneration s),
                 reconnectAttempts := 0, reconnectTimer := None,
                 replayGeneration := Suc (replayGeneration s), replayInFlight := None,
                 pendingSocket := None, socket := None, connectPromise := None\<rparr>
      in if socket s = None \<and> pendingSocket s = None then emitStatus False s1
         else
           let s2 = (if pendingSocket s \<noteq> socket s then closeOptionalSocket (pendingSocket s) s1 else s1);
               s3 = closeOptionalSocket (socket s) s2
           in rejectAllPending (PlainError ''Bridge websocket disconnected'') (emitStatus False s3))"

definition applyStreamIdentity ::
  "ws_deps \<Rightarrow> int option \<Rightarrow> string option \<Rightarrow> ws_client \<Rightarrow> stream_identity \<times> ws_client" where
  "applyStreamIdentity dp protocolVersion sid s =
     (case (protocolVersion, sid) of
        (Some v, Some (c # cs)) \<Rightarrow>
          if v \<noteq> PROTOCOL_VERSION
          then let s1 = s\<lparr>protocolError := Some v, shouldReconnect := False,
                          connectGeneration := Suc (connectGeneration s)\<rparr>;
                   s2 = rejectAllPending (BridgeProtocolVersionError v) s1
               in (IdUnsupported, closeOptionalSocket (socket s2) s2)
          else
            let s1 = s\<lparr>protocolError := None\<rparr>
            in (case streamId s1 of
                  None \<Rightarrow> (IdInitial, s1\<lparr>streamId := Some (c # cs)\<rparr>)
                | Some cur \<Rightarrow>
                    if cur = c # cs then (IdSame, s1)
                    else (IdChanged,
                          resetDeliveryEpoch dp StreamChanged None None (Some cur)
                            (s1\<lparr>streamId := Some (c # cs)\<rparr>)))
      | _ \<Rightarrow> (IdMissing, s))"


section \<open>Ordered delivery\<close>

lemma pendingEvents_emitNumberedEvent [simp]:
  "pendingEvents (emitNumberedEvent dp n s) = pendingEvents s"
  by (simp add: emit_defs split: option.splits)

function drainLoop :: "ws_deps \<Rightarrow> ws_client \<Rightarrow> ws_client" where
  "drainLoop dp s =
     (case map_get (pendingEvents s) (lastSeenEventId s + 1) of
        None \<Rightarrow> s
      | Some n \<Rightarrow>
          drainLoop dp (emitNumberedEvent dp n
            (s\<lparr>pendingEvents := map_del (lastSeenEventId s + 1) (pendingEvents s)\<rparr>)))"
  by pat_completeness auto
termination
  by (relation "measure (\<lambda>(dp, s). length (pendingEvents s))") (auto simp: length_map_del_less)

declare drainLoop.simps [simp del]

definition drainPendingEvents :: "ws_deps \<Rightarrow> ws_client \<Rightarrow> ws_client" where
  "drainPendingEvents dp s = (if recoveryWatermark s \<noteq> None then s else drainLoop dp s)"

definition hasPendingGap :: "ws_client \<Rightarrow> bool" where
  "hasPendingGap s \<longleftrightarrow>
     pendingEvents s \<noteq> [] \<and> \<not> map_has (pendingEvents s) (lastSeenEventId s + 1)"

definition replayParams :: "int \<Rightarrow> json option" where
  "replayParams cursor = Some (JObj [(''afterEventId'', JNum (of_int cursor)), (''limit'', JNum 200)])"

text \<open>\<open>scheduleReplay\<close> and the synchronous start of \<open>replayMissedEvents\<close>.\<close>

definition scheduleReplay :: "ws_deps \<Rightarrow> ws_client \<Rightarrow> ws_client" where
  "scheduleReplay dp s =
     (if \<not> replaySupported s \<or> replayInFlight s \<noteq> None \<or> \<not> connected s \<or> \<not> socketOpen s then s
      else
        let k = fresh s;
            s1 = s\<lparr>fresh := Suc k,
                   replayTasks := replayTasks s @
                     [(k, \<lparr>rt_generation = replayGeneration s, rt_cursor = lastSeenEventId s,
                           rt_target = None, rt_phase = RpAwait\<rparr>)]\<rparr>;
            s2 = beginRequest dp (ReplayOf k) ''bridge/events/replay'' (replayParams (lastSeenEventId s)) s1
        in s2\<lparr>replayInFlight := Some k\<rparr>)"

definition drainAndReplayGap :: "ws_deps \<Rightarrow> ws_client \<Rightarrow> ws_client" where
  "drainAndReplayGap dp s =
     (let s1 = drainPendingEvents dp s in if hasPendingGap s1 then scheduleReplay dp s1 else s1)"

definition acknowledgeSnapshotRecovery :: "ws_deps \<Rightarrow> int \<Rightarrow> ws_client \<Rightarrow> bool \<times> ws_client" where
  "acknowledgeSnapshotRecovery dp resumeAfter s =
     (if recoveryWatermark s \<noteq> Some resumeAfter then (False, s)
      else (True, drainAndReplayGap dp
                    (s\<lparr>recoveryWatermark := None, awaitingFreshRecoveryBaseline := False\<rparr>)))"

definition hasRecoveryBufferOverflow :: "ws_client \<Rightarrow> bool" where
  "hasRecoveryBufferOverflow s \<longleftrightarrow>
     recoveryWatermark s \<noteq> None \<and> length (pendingEvents s) > MAX_RECOVERY_BUFFERED_EVENTS"

definition drainOrReplayPendingEvents :: "ws_deps \<Rightarrow> delivery_source \<Rightarrow> ws_client \<Rightarrow> ws_client" where
  "drainOrReplayPendingEvents dp src s =
     (if src = Replay then drainPendingEvents dp s
      else if replayInFlight s = None then drainAndReplayGap dp s
      else s)"

definition deliverNumberedNotification ::
  "ws_deps \<Rightarrow> notification \<Rightarrow> int \<Rightarrow> delivery_source \<Rightarrow> ws_client \<Rightarrow> bool \<times> ws_client" where
  "deliverNumberedNotification dp n i src s =
     (if i \<le> lastSeenEventId s \<or> map_has (pendingEvents s) i then (False, s)
      else if lastSeenEventId s = 0 \<and> \<not> awaitingFreshRecoveryBaseline s
      then (True, emitNumberedEvent dp n s)
      else
        let s1 = s\<lparr>pendingEvents := map_put i n (pendingEvents s)\<rparr>
        in if hasRecoveryBufferOverflow s1 then (False, resetRecoveryEpoch dp s1)
           else (True, drainOrReplayPendingEvents dp src s1))"

definition deliverNotification ::
  "ws_deps \<Rightarrow> notification \<Rightarrow> int option \<Rightarrow> delivery_source \<Rightarrow> ws_client \<Rightarrow> bool \<times> ws_client" where
  "deliverNotification dp n i src s =
     (case i of
        None \<Rightarrow> (True, deliverUnnumberedEvent dp n s)
      | Some j \<Rightarrow> deliverNumberedNotification dp n j src s)"

definition createNotification ::
  "string \<Rightarrow> (string, json) jsmap option \<Rightarrow> int option \<Rightarrow> string option \<Rightarrow> int option \<Rightarrow> notification" where
  "createNotification method params protocolVersion sid i =
     \<lparr>n_method = method, n_params = params, n_protocolVersion = protocolVersion,
      n_streamId = (if sid = Some [] then None else sid), n_eventId = i\<rparr>"

definition readNotification ::
  "ws_deps \<Rightarrow> (string, json) jsmap \<Rightarrow> ws_client \<Rightarrow>
   (string \<times> stream_identity \<times> int option \<times> notification) option \<times> ws_client" where
  "readNotification dp rec s =
     (case readString (dp_valibot dp) (map_get rec ''method'') of
        Some (c # cs) \<Rightarrow>
          let protocolVersion = readIntegerLike (dp_valibot dp) (map_get rec ''protocolVersion'');
              sid = readString (dp_valibot dp) (map_get rec ''streamId'');
              r = applyStreamIdentity dp protocolVersion sid s
          in if fst r = IdUnsupported then (None, snd r)
             else
               let i = readEventId (dp_valibot dp) rec
               in (Some (c # cs, fst r, i,
                         createNotification (c # cs) (toRecord (map_get rec ''params'')) protocolVersion sid i),
                   snd r)
      | _ \<Rightarrow> (None, s))"

definition scheduleConnectionReplay ::
  "ws_deps \<Rightarrow> string \<Rightarrow> stream_identity \<Rightarrow> ws_client \<Rightarrow> ws_client" where
  "scheduleConnectionReplay dp method identity s =
     (if method = ''bridge/connection/state'' \<and> (identity = IdSame \<or> identity = IdMissing) \<and>
         (lastSeenEventId s > 0 \<or> recoveryWatermark s \<noteq> None)
      then scheduleReplay dp s else s)"

definition handleNotificationRecord ::
  "ws_deps \<Rightarrow> delivery_source \<Rightarrow> (string, json) jsmap \<Rightarrow> ws_client \<Rightarrow> ws_client" where
  "handleNotificationRecord dp src rec s =
     (case readNotification dp rec s of
        (None, s1) \<Rightarrow> s1
      | (Some (method, identity, i, n), s1) \<Rightarrow>
          let r = deliverNotification dp n i src s1
          in if fst r then scheduleConnectionReplay dp method identity (snd r) else snd r)"

definition handleIncoming :: "ws_deps \<Rightarrow> json option \<Rightarrow> ws_client \<Rightarrow> ws_client" where
  "handleIncoming dp parsed s =
     (case toRecord parsed of
        None \<Rightarrow> s
      | Some rec \<Rightarrow>
          (let hasMethod = (case map_get rec ''method'' of Some (JStr _) \<Rightarrow> True | _ \<Rightarrow> False);
               rid = (case map_get rec ''id'' of
                        Some (JStr t) \<Rightarrow> Some (JStr t) | Some (JNum x) \<Rightarrow> Some (JNum x) | _ \<Rightarrow> None)
           in case rid of
                Some i \<Rightarrow>
                  (case map_get (pendingRequests s) i of
                     None \<Rightarrow> s
                   | Some p \<Rightarrow>
                       let s1 = s\<lparr>pendingRequests := map_del i (pendingRequests s)\<rparr>;
                           err = toRecord (map_get rec ''error'')
                       in (case (field err ''code'', field err ''message'') of
                             (Some (JNum code), Some (JStr msg)) \<Rightarrow>
                               settle (pr_owner p)
                                 (Inl (RpcRequestError (pr_method p) code msg (field err ''data''))) s1
                           | _ \<Rightarrow>
                               settle (pr_owner p)
                                 (Inr (case map_get rec ''result'' of Some r \<Rightarrow> r | None \<Rightarrow> JNull)) s1))
              | None \<Rightarrow> if hasMethod then handleNotificationRecord dp Live rec s else s))"


section \<open>Replay of missed events\<close>

definition classifyReplayRequestError :: "ws_error \<Rightarrow> bool" where
  "classifyReplayRequestError e \<longleftrightarrow> (case e of RpcRequestError _ code _ _ \<Rightarrow> code = - 32601 | _ \<Rightarrow> False)"

definition checkReplayPageIntegrity ::
  "int \<Rightarrow> int option \<Rightarrow> int option \<Rightarrow> snapshot_reason option" where
  "checkReplayPageIntegrity cursor earliest latest =
     (case (earliest, latest) of
        (None, None) \<Rightarrow> None
      | (None, Some l) \<Rightarrow>
          if l < cursor then Some ReplayInconsistent
          else if l > cursor then Some ReplayTruncated else None
      | (Some e, None) \<Rightarrow> if e > cursor + 1 then Some ReplayTruncated else None
      | (Some e, Some l) \<Rightarrow>
          if l < cursor then Some ReplayInconsistent
          else if e > cursor + 1 then Some ReplayTruncated else None)"

definition applyReplayEvents :: "ws_deps \<Rightarrow> json list \<Rightarrow> ws_client \<Rightarrow> ws_client" where
  "applyReplayEvents dp events s =
     fold (\<lambda>entry s. case toRecord (Some entry) of
                       None \<Rightarrow> s | Some rec \<Rightarrow> handleNotificationRecord dp Replay rec s) events s"

definition extractPageEventIds :: "valibot \<Rightarrow> json list \<Rightarrow> int list" where
  "extractPageEventIds vb events =
     List.map_filter (\<lambda>entry. Option.bind (toRecord (Some entry)) (readEventId vb)) events"

definition resolveReplayTargetEventId :: "int option \<Rightarrow> int option \<Rightarrow> int list \<Rightarrow> int option" where
  "resolveReplayTargetEventId target latest pageIds =
     (case target of
        Some t \<Rightarrow> Some t
      | None \<Rightarrow>
          (case latest of
             Some l \<Rightarrow> Some l
           | None \<Rightarrow> if pageIds = [] then None else Some (Max (set pageIds))))"

definition finishReplay :: "nat \<Rightarrow> bool \<Rightarrow> ws_client \<Rightarrow> ws_client" where
  "finishReplay k ok s = s\<lparr>replayTasks := set_phase k (RpDone ok) (replayTasks s)\<rparr>"

text \<open>The loop body of \<open>replayMissedEvents\<close> from the arrival of a page to the next request.\<close>

definition processReplayPage ::
  "ws_deps \<Rightarrow> nat \<Rightarrow> replay_task \<Rightarrow> (string, json) jsmap option \<Rightarrow> ws_client \<Rightarrow> ws_client" where
  "processReplayPage dp k t response s =
     (let vb = dp_valibot dp;
          r = applyStreamIdentity dp (readIntegerLike vb (field response ''protocolVersion''))
                (readString vb (field response ''streamId'')) s
      in if fst r = IdUnsupported \<or> fst r = IdChanged then finishReplay k True (snd r)
         else
           let s1 = snd r;
               latest = readIntegerLike vb (field response ''latestEventId'');
               earliest = readIntegerLike vb (field response ''earliestEventId'')
           in case checkReplayPageIntegrity (rt_cursor t) earliest latest of
                Some reason \<Rightarrow>
                  finishReplay k True (resetDeliveryEpoch dp reason earliest latest (streamId s1) s1)
              | None \<Rightarrow>
                  let events = (case field response ''events'' of Some (JArr es) \<Rightarrow> es | _ \<Rightarrow> []);
                      s2 = applyReplayEvents dp events s1;
                      cursor = lastSeenEventId s2;
                      target = resolveReplayTargetEventId (rt_target t) latest (extractPageEventIds vb events)
                  in (case target of
                        None \<Rightarrow> finishReplay k True s2
                      | Some tg \<Rightarrow>
                          if cursor \<ge> tg then finishReplay k True s2
                          else if field response ''hasMore'' \<noteq> Some (JBool True) \<or> cursor \<le> rt_cursor t
                          then finishReplay k True
                                 (resetDeliveryEpoch dp ReplayInconsistent earliest latest (streamId s2) s2)
                          else if rt_generation t \<noteq> replayGeneration s2 then finishReplay k True s2
                          else
                            beginRequest dp (ReplayOf k) ''bridge/events/replay'' (replayParams cursor)
                              (s2\<lparr>replayTasks := map_put k
                                    (t\<lparr>rt_cursor := cursor, rt_target := target, rt_phase := RpAwait\<rparr>)
                                    (replayTasks s2)\<rparr>)))"

definition continueReplay :: "ws_deps \<Rightarrow> nat \<Rightarrow> ws_client \<Rightarrow> ws_client" where
  "continueReplay dp k s =
     (case map_get (replayTasks s) k of
        None \<Rightarrow> s
      | Some t \<Rightarrow>
          (case rt_phase t of
             RpSettled (Inl e) \<Rightarrow>
               if classifyReplayRequestError e then finishReplay k True (s\<lparr>replaySupported := False\<rparr>)
               else finishReplay k False s
           | RpSettled (Inr v) \<Rightarrow>
               if rt_generation t \<noteq> replayGeneration s then finishReplay k True s
               else if v = JNull then finishReplay k False s
               else processReplayPage dp k t (toRecord (Some v)) s
           | _ \<Rightarrow> s))"

text \<open>The \<open>finally\<close> callback of the replay promise.\<close>

definition onReplaySettled :: "ws_deps \<Rightarrow> nat \<Rightarrow> ws_client \<Rightarrow> ws_client" where
  "onReplaySettled dp k s =
     (case map_get (replayTasks s) k of
        None \<Rightarrow> s
      | Some t \<Rightarrow>
          (case rt_phase t of
             RpDone ok \<Rightarrow>
               let s1 = s\<lparr>replayTasks := map_del k (replayTasks s)\<rparr>
               in if replayInFlight s1 \<noteq> Some k then s1
                  else
                    let s2 = s1\<lparr>replayInFlight := None\<rparr>
                    in if \<not> ok \<or> rt_generation t \<noteq> replayGeneration s2 then s2
                       else drainAndReplayGap dp s2
           | _ \<Rightarrow> s))"


section \<open>Socket callbacks and turn waiters\<close>

definition onSocketOpen :: "nat \<Rightarrow> ws_client \<Rightarrow> ws_client" where
  "onSocketOpen k s =
     (case map_get (attempts s) k of
        None \<Rightarrow> s
      | Some a \<Rightarrow>
          let s0 = update_attempt k (\<lambda>a. a\<lparr>at_ready := max 1 (at_ready a), at_settled := True\<rparr>) s
          in if at_generation a \<noteq> connectGeneration s0 \<or> \<not> shouldReconnect s0 \<or> pendingSocket s0 \<noteq> Some k
             then closeSocket k s0
             else emitStatus True
                    (s0\<lparr>pendingSocket := None, socket := Some k, reconnectAttempts := 0\<rparr>))"

definition onSocketClose :: "ws_deps \<Rightarrow> nat \<Rightarrow> ws_client \<Rightarrow> ws_client" where
  "onSocketClose dp k s =
     (case map_get (attempts s) k of
        None \<Rightarrow> s
      | Some a \<Rightarrow>
          let s0 = update_attempt k (\<lambda>a. a\<lparr>at_ready := 3, at_settled := True\<rparr>) s;
              s1 = (if pendingSocket s0 = Some k then s0\<lparr>pendingSocket := None\<rparr> else s0);
              s2 = (if socket s1 = Some k
                    then rejectAllPending (PlainError ''Bridge websocket closed'')
                           (emitStatus False (s1\<lparr>socket := None\<rparr>))
                    else s1)
          in if \<not> at_settled a then s2
             else if shouldReconnect s2 \<and> at_generation a = connectGeneration s2
             then scheduleReconnect dp s2 else s2)"

definition onSocketError :: "ws_deps \<Rightarrow> nat \<Rightarrow> ws_client \<Rightarrow> ws_client" where
  "onSocketError dp k s =
     (case map_get (attempts s) k of
        None \<Rightarrow> s
      | Some a \<Rightarrow>
          if \<not> at_settled a
          then
            let s0 = update_attempt k (\<lambda>a. a\<lparr>at_settled := True\<rparr>) s;
                s1 = (if pendingSocket s0 = Some k then s0\<lparr>pendingSocket := None\<rparr> else s0)
            in closeSocket k s1
          else if socket s = Some k
          then
            let s1 = rejectAllPending (PlainError ''Bridge websocket error'')
                       (emitStatus False (closeSocket k (s\<lparr>socket := None\<rparr>)))
            in if shouldReconnect s1 \<and> at_generation a = connectGeneration s1
               then scheduleReconnect dp s1 else s1
          else s)"

definition onSocketMessage :: "ws_deps \<Rightarrow> nat \<Rightarrow> json option \<Rightarrow> ws_client \<Rightarrow> ws_client" where
  "onSocketMessage dp k parsed s =
     (case map_get (attempts s) k of
        None \<Rightarrow> s
      | Some a \<Rightarrow>
          if at_generation a \<noteq> connectGeneration s \<or> socket s \<noteq> Some k then s
          else handleIncoming dp parsed s)"

definition waitForTurnCompletion :: "string \<Rightarrow> string \<Rightarrow> int option \<Rightarrow> ws_client \<Rightarrow> ws_client" where
  "waitForTurnCompletion threadId turnId timeoutMs s =
     (let w = fresh s; r = getTurnCompletion threadId turnId (s\<lparr>fresh := Suc w\<rparr>)
      in case r of
           (Some c, s1) \<Rightarrow> s1\<lparr>outs := outs s1 @ [SettleWaiter w (assertTurnSucceeded c)]\<rparr>
         | (None, s1) \<Rightarrow>
             s1\<lparr>waiters := waiters s1 @ [\<lparr>wt_id = w, wt_threadId = threadId, wt_turnId = turnId,
               wt_timeoutMs = (case timeoutMs of Some ms \<Rightarrow> ms | None \<Rightarrow> requestTimeoutMs s1)\<rparr>]\<rparr>)"

definition onWaiterTimeout :: "nat \<Rightarrow> ws_client \<Rightarrow> ws_client" where
  "onWaiterTimeout w s =
     (case find (\<lambda>x. wt_id x = w) (waiters s) of
        None \<Rightarrow> s
      | Some x \<Rightarrow> s\<lparr>waiters := filter (\<lambda>x. wt_id x \<noteq> w) (waiters s),
             outs := outs s @ [SettleWaiter w (Some (PlainError
               (''turn timed out after '' @ string_of_int (wt_timeoutMs x) @ ''ms'')))]\<rparr>)"


section \<open>Steps\<close>

datatype ws_event =
    CallConnect
  | CallDisconnect
  | CallResetRecoveryEpoch
  | CallAcknowledge int
  | CallRequest string "json option"
  | CallWaitForTurn string string "int option"
  | SocketOpened nat
  | SocketClosed nat
  | SocketErrored nat
  | SocketMessage nat "json option"
  | ReconnectTimer nat
  | ConnectSettled nat
  | EnsureConnectedResumes request_owner "string option"
  | RequestResumes request_owner bool
  | RequestTimeout json
  | ReplayResumes nat
  | ReplaySettled nat
  | WaiterTimeout nat
  | ClockAdvances nat

fun ws_step :: "ws_deps \<Rightarrow> ws_event \<Rightarrow> ws_client \<Rightarrow> ws_client" where
  "ws_step dp CallConnect s = connect dp s"
| "ws_step dp CallDisconnect s = disconnect s"
| "ws_step dp CallResetRecoveryEpoch s = resetRecoveryEpoch dp s"
| "ws_step dp (CallAcknowledge i) s = snd (acknowledgeSnapshotRecovery dp i s)"
| "ws_step dp (CallRequest m p) s =
     beginRequest dp (Caller (fresh s)) m p (s\<lparr>fresh := Suc (fresh s)\<rparr>)"
| "ws_step dp (CallWaitForTurn t u ms) s = waitForTurnCompletion t u ms s"
| "ws_step dp (SocketOpened k) s = onSocketOpen k s"
| "ws_step dp (SocketClosed k) s = onSocketClose dp k s"
| "ws_step dp (SocketErrored k) s = onSocketError dp k s"
| "ws_step dp (SocketMessage k m) s = onSocketMessage dp k m s"
| "ws_step dp (ReconnectTimer t) s = onReconnectTimer dp t s"
| "ws_step dp (ConnectSettled k) s = onConnectSettled dp k s"
| "ws_step dp (EnsureConnectedResumes w e) s = ensureConnectedEnd w e s"
| "ws_step dp (RequestResumes w b) s = sendRequest w b s"
| "ws_step dp (RequestTimeout i) s = onRequestTimeout i s"
| "ws_step dp (ReplayResumes k) s = continueReplay dp k s"
| "ws_step dp (ReplaySettled k) s = onReplaySettled dp k s"
| "ws_step dp (WaiterTimeout w) s = onWaiterTimeout w s"
| "ws_step dp (ClockAdvances d) s = s\<lparr>clock := clock s + int d\<rparr>"

definition ws_run :: "ws_deps \<Rightarrow> ws_event list \<Rightarrow> ws_client \<Rightarrow> ws_client" where
  "ws_run dp es s = fold (ws_step dp) es s"

inductive ws_reachable :: "ws_deps \<Rightarrow> ws_client \<Rightarrow> bool" for dp where
  start: "ws_reachable dp (newClient url opts)"
| step: "ws_reachable dp s \<Longrightarrow> ws_reachable dp (ws_step dp e s)"

lemma ws_reachable_run: "ws_reachable dp s \<Longrightarrow> ws_reachable dp (ws_run dp es s)"
  by (induction es arbitrary: s) (auto simp: ws_run_def intro: ws_reachable.step)

end
