(* ===== verification/WsOrdering.thy ===== *)
theory WsOrdering
  imports WsProtocol
begin

text \<open>
  Ordered delivery of the websocket client. The log \<open>outs\<close> is read as a sequence of epochs:
  each \<open>snapshotRequired\<close> event that the client emits itself opens one, at the event id it
  announces. \<open>delivery_inv\<close> says that the numbered events delivered in the current epoch are
  exactly the ids from the first one to \<open>lastSeenEventId\<close>, in order; every step keeps it.
\<close>

section \<open>Epochs of the log\<close>

definition resume_of :: "notification \<Rightarrow> int" where
  "resume_of n = (case field (n_params n) ''resumeAfterEventId'' of Some (JNum x) \<Rightarrow> \<lfloor>x\<rfloor> | _ \<Rightarrow> 0)"

fun log_step :: "int \<times> int list \<Rightarrow> ws_out \<Rightarrow> int \<times> int list" where
  "log_step (b, ids) (EmitEvent FromClient n) = (resume_of n, [])"
| "log_step (b, ids) (EmitEvent FromBridge n) =
     (case n_eventId n of None \<Rightarrow> (b, ids) | Some i \<Rightarrow> (b, ids @ [i]))"
| "log_step (b, ids) x = (b, ids)"

definition epoch_log :: "ws_out list \<Rightarrow> int \<times> int list" where
  "epoch_log os = foldl log_step (0, []) os"

definition silent :: "ws_out \<Rightarrow> bool" where
  "silent x = (case x of EmitEvent org n \<Rightarrow> org = FromBridge \<and> n_eventId n = None | _ \<Rightarrow> True)"

lemma log_step_silent [simp]: "silent x \<Longrightarrow> log_step p x = p"
  by (cases p; cases x; auto simp: silent_def split: origin.splits)

lemma foldl_log_silent [simp]: "list_all silent os \<Longrightarrow> foldl log_step p os = p"
  by (induction os arbitrary: p) auto

lemma epoch_log_append: "epoch_log (xs @ ys) = foldl log_step (epoch_log xs) ys"
  by (simp add: epoch_log_def)

lemma resume_of_snapshotRequired [simp]:
  "resume_of (snapshotRequired reason ps ld ra e l st) = ra"
  by (simp add: resume_of_def snapshotRequired_def field_def)

lemma snapshotRequired_unnumbered [simp]:
  "n_eventId (snapshotRequired reason ps ld ra e l st) = None"
  by (simp add: snapshotRequired_def)

text \<open>Contiguity: base, delivered ids, last id.\<close>

definition contiguous :: "int \<Rightarrow> int list \<Rightarrow> int \<Rightarrow> bool" where
  "contiguous b ids l \<longleftrightarrow>
     (ids = [] \<and> l = b) \<or>
     (\<exists>f. 1 \<le> f \<and> f \<le> l \<and> ids = [f..l] \<and> (b = 0 \<or> f = b + 1))"

lemma contiguous_Nil [simp]: "contiguous b [] b"
  by (simp add: contiguous_def)

lemma contiguous_snoc: "contiguous b ids l \<Longrightarrow> 1 \<le> l + 1 \<Longrightarrow> contiguous b (ids @ [l + 1]) (l + 1)"
  by (auto simp: contiguous_def upto_rec2 intro: exI [of _ "l + 1"])

lemma contiguous_zero: "contiguous b ids 0 \<Longrightarrow> ids = [] \<and> b = 0"
  by (auto simp: contiguous_def)

lemma contiguous_baseline: "1 \<le> i \<Longrightarrow> contiguous 0 [i] i"
  by (auto simp: contiguous_def)

definition pending_ok :: "(int, notification) jsmap \<Rightarrow> bool" where
  "pending_ok m \<longleftrightarrow> (\<forall>(i, n) \<in> set m. n_eventId n = Some i \<and> 1 \<le> i)"

text \<open>Every epoch that the log has opened, the closed ones included.\<close>

definition log_ok :: "ws_out list \<Rightarrow> bool" where
  "log_ok os \<longleftrightarrow> (\<forall>p. prefix p os \<longrightarrow> (\<exists>l. contiguous (fst (epoch_log p)) (snd (epoch_log p)) l))"

lemma log_ok_Nil [simp]: "log_ok []"
  by (auto simp: log_ok_def epoch_log_def intro!: exI [of _ 0])

lemma log_ok_snoc:
  "log_ok os \<Longrightarrow> contiguous (fst (epoch_log (os @ [x]))) (snd (epoch_log (os @ [x]))) l \<Longrightarrow>
   log_ok (os @ [x])"
  by (auto simp: log_ok_def prefix_snoc)

lemma log_ok_silent: "log_ok os \<Longrightarrow> list_all silent xs \<Longrightarrow> log_ok (os @ xs)"
proof (induction xs rule: rev_induct)
  case (snoc x xs)
  then have "log_ok (os @ xs)" "silent x" by auto
  moreover from this have "epoch_log ((os @ xs) @ [x]) = epoch_log (os @ xs)"
    by (simp only: epoch_log_append [of "os @ xs"] foldl.simps log_step_silent)
  ultimately show ?case using log_ok_snoc [of "os @ xs" x] by (auto simp: log_ok_def)
qed simp

lemma log_ok_cons_silent:
  "log_ok os \<Longrightarrow> contiguous (fst (epoch_log (os @ [x]))) (snd (epoch_log (os @ [x]))) l \<Longrightarrow>
   list_all silent xs \<Longrightarrow> log_ok (os @ x # xs)"
  using log_ok_silent [OF log_ok_snoc, of os x l xs] by simp

definition delivery_inv :: "ws_client \<Rightarrow> bool" where
  "delivery_inv s \<longleftrightarrow> log_ok (outs s) \<and>
     contiguous (fst (epoch_log (outs s))) (snd (epoch_log (outs s))) (lastSeenEventId s) \<and>
     pending_ok (pendingEvents s)"

lemma pending_ok_put: "pending_ok m \<Longrightarrow> n_eventId n = Some i \<Longrightarrow> 1 \<le> i \<Longrightarrow> pending_ok (map_put i n m)"
  using set_map_put by (fastforce simp: pending_ok_def)

lemma pending_ok_del: "pending_ok m \<Longrightarrow> pending_ok (map_del i m)"
  using set_map_del by (fastforce simp: pending_ok_def)

lemma pending_ok_filter [simp]: "pending_ok m \<Longrightarrow> pending_ok (filter P m)"
  by (auto simp: pending_ok_def)

lemma pending_ok_Nil [simp]: "pending_ok []"
  by (simp add: pending_ok_def)

lemma pending_okD: "pending_ok m \<Longrightarrow> map_get m i = Some n \<Longrightarrow> n_eventId n = Some i \<and> 1 \<le> i"
  by (auto simp: pending_ok_def dest: map_of_SomeD)


section \<open>Quiet operations\<close>

text \<open>Operations that deliver no numbered event and leave the ordering state alone.\<close>

definition quiet :: "ws_client \<Rightarrow> ws_client \<Rightarrow> bool" where
  "quiet s t \<longleftrightarrow>
     lastSeenEventId t = lastSeenEventId s \<and> pendingEvents t = pendingEvents s \<and>
     (\<exists>os. outs t = outs s @ os \<and> list_all silent os)"

named_theorems quiet_intros

lemma quiet_refl [simp, quiet_intros]: "quiet s s"
  by (auto simp: quiet_def)

lemma quiet_trans: "quiet s t \<Longrightarrow> quiet t u \<Longrightarrow> quiet s u"
  by (auto simp: quiet_def)

lemma quiet_delivery_inv: "quiet s t \<Longrightarrow> delivery_inv s \<Longrightarrow> delivery_inv t"
  by (auto simp: quiet_def delivery_inv_def epoch_log_append log_ok_silent)

lemma silent_simps [simp]:
  "silent (EmitStatus b)" "silent (OpenSocket k u h)" "silent (CloseSocket k)"
  "silent (SendRequest i m p)" "silent (SettleCaller c r)" "silent (SettleWaiter w e)"
  "silent (StartTimer t d)" "n_eventId n = None \<Longrightarrow> silent (EmitEvent FromBridge n)"
  by (simp_all add: silent_def)

lemma silent_caller_rejections [simp]: "list_all silent (caller_rejections err ps)"
  by (induction ps) (auto simp: caller_rejections_def map_filter_simps split: request_owner.splits)

lemma silent_notify_waiters [simp]: "list_all silent (snd (snd (notify_waiters now c ws m)))"
  by (induction now c ws m rule: notify_waiters.induct) (auto split: option.splits prod.splits)

lemma quiet_emitStatus [quiet_intros]: "quiet s (emitStatus b s)"
  by (auto simp: quiet_def emitStatus_def)

lemma quiet_closeSocket [quiet_intros]: "quiet s (closeSocket k s)"
  by (auto simp: quiet_def closeSocket_def update_attempt_def)

lemma quiet_closeOptionalSocket [quiet_intros]: "quiet s (closeOptionalSocket k s)"
  by (auto simp: closeOptionalSocket_def intro: quiet_intros split: option.splits)

lemma quiet_rejectAllPending [quiet_intros]: "quiet s (rejectAllPending e s)"
  by (auto simp: quiet_def rejectAllPending_def)

lemma quiet_settle [quiet_intros]: "quiet s (settle w r s)"
  by (auto simp: quiet_def settle_def split: request_owner.splits)

lemma quiet_startConnect [quiet_intros]: "quiet s (startConnect dp s)"
  by (auto simp: quiet_def startConnect_def openSocket_def Let_def)

lemma quiet_scheduleReconnect [quiet_intros]: "quiet s (scheduleReconnect dp s)"
  by (auto simp: quiet_def scheduleReconnect_def Let_def)

lemma quiet_deliverUnnumbered [quiet_intros]:
  "n_eventId n = None \<Longrightarrow> quiet s (deliverUnnumberedEvent dp n s)"
  by (auto simp: quiet_def emit_defs)

text \<open>Field updates outside the ordering state do not matter.\<close>

lemma quiet_update_after [simp]:
  "quiet s (t\<lparr>socket := v1\<rparr>) \<longleftrightarrow> quiet s t"
  "quiet s (t\<lparr>pendingSocket := v2\<rparr>) \<longleftrightarrow> quiet s t"
  "quiet s (t\<lparr>connected := v3\<rparr>) \<longleftrightarrow> quiet s t"
  "quiet s (t\<lparr>shouldReconnect := v4\<rparr>) \<longleftrightarrow> quiet s t"
  "quiet s (t\<lparr>reconnectAttempts := v5\<rparr>) \<longleftrightarrow> quiet s t"
  "quiet s (t\<lparr>reconnectTimer := v6\<rparr>) \<longleftrightarrow> quiet s t"
  "quiet s (t\<lparr>connectPromise := v7\<rparr>) \<longleftrightarrow> quiet s t"
  "quiet s (t\<lparr>connectGeneration := v8\<rparr>) \<longleftrightarrow> quiet s t"
  "quiet s (t\<lparr>pendingRequests := v9\<rparr>) \<longleftrightarrow> quiet s t"
  "quiet s (t\<lparr>recentTurnCompletions := v10\<rparr>) \<longleftrightarrow> quiet s t"
  "quiet s (t\<lparr>replaySupported := v11\<rparr>) \<longleftrightarrow> quiet s t"
  "quiet s (t\<lparr>replayInFlight := v12\<rparr>) \<longleftrightarrow> quiet s t"
  "quiet s (t\<lparr>replayGeneration := v13\<rparr>) \<longleftrightarrow> quiet s t"
  "quiet s (t\<lparr>recoveryWatermark := v14\<rparr>) \<longleftrightarrow> quiet s t"
  "quiet s (t\<lparr>awaitingFreshRecoveryBaseline := v15\<rparr>) \<longleftrightarrow> quiet s t"
  "quiet s (t\<lparr>requestCounter := v16\<rparr>) \<longleftrightarrow> quiet s t"
  "quiet s (t\<lparr>streamId := v17\<rparr>) \<longleftrightarrow> quiet s t"
  "quiet s (t\<lparr>protocolError := v18\<rparr>) \<longleftrightarrow> quiet s t"
  "quiet s (t\<lparr>attempts := v19\<rparr>) \<longleftrightarrow> quiet s t"
  "quiet s (t\<lparr>replayTasks := v20\<rparr>) \<longleftrightarrow> quiet s t"
  "quiet s (t\<lparr>waiting := v21\<rparr>) \<longleftrightarrow> quiet s t"
  "quiet s (t\<lparr>waiters := v22\<rparr>) \<longleftrightarrow> quiet s t"
  "quiet s (t\<lparr>clock := v23\<rparr>) \<longleftrightarrow> quiet s t"
  "quiet s (t\<lparr>fresh := v24\<rparr>) \<longleftrightarrow> quiet s t"
  by (simp_all add: quiet_def)

lemma quiet_update_before [simp]:
  "quiet (s\<lparr>socket := v25\<rparr>) t \<longleftrightarrow> quiet s t"
  "quiet (s\<lparr>pendingSocket := v26\<rparr>) t \<longleftrightarrow> quiet s t"
  "quiet (s\<lparr>connected := v27\<rparr>) t \<longleftrightarrow> quiet s t"
  "quiet (s\<lparr>shouldReconnect := v28\<rparr>) t \<longleftrightarrow> quiet s t"
  "quiet (s\<lparr>reconnectAttempts := v29\<rparr>) t \<longleftrightarrow> quiet s t"
  "quiet (s\<lparr>reconnectTimer := v30\<rparr>) t \<longleftrightarrow> quiet s t"
  "quiet (s\<lparr>connectPromise := v31\<rparr>) t \<longleftrightarrow> quiet s t"
  "quiet (s\<lparr>connectGeneration := v32\<rparr>) t \<longleftrightarrow> quiet s t"
  "quiet (s\<lparr>pendingRequests := v33\<rparr>) t \<longleftrightarrow> quiet s t"
  "quiet (s\<lparr>recentTurnCompletions := v34\<rparr>) t \<longleftrightarrow> quiet s t"
  "quiet (s\<lparr>replaySupported := v35\<rparr>) t \<longleftrightarrow> quiet s t"
  "quiet (s\<lparr>replayInFlight := v36\<rparr>) t \<longleftrightarrow> quiet s t"
  "quiet (s\<lparr>replayGeneration := v37\<rparr>) t \<longleftrightarrow> quiet s t"
  "quiet (s\<lparr>recoveryWatermark := v38\<rparr>) t \<longleftrightarrow> quiet s t"
  "quiet (s\<lparr>awaitingFreshRecoveryBaseline := v39\<rparr>) t \<longleftrightarrow> quiet s t"
  "quiet (s\<lparr>requestCounter := v40\<rparr>) t \<longleftrightarrow> quiet s t"
  "quiet (s\<lparr>streamId := v41\<rparr>) t \<longleftrightarrow> quiet s t"
  "quiet (s\<lparr>protocolError := v42\<rparr>) t \<longleftrightarrow> quiet s t"
  "quiet (s\<lparr>attempts := v43\<rparr>) t \<longleftrightarrow> quiet s t"
  "quiet (s\<lparr>replayTasks := v44\<rparr>) t \<longleftrightarrow> quiet s t"
  "quiet (s\<lparr>waiting := v45\<rparr>) t \<longleftrightarrow> quiet s t"
  "quiet (s\<lparr>waiters := v46\<rparr>) t \<longleftrightarrow> quiet s t"
  "quiet (s\<lparr>clock := v47\<rparr>) t \<longleftrightarrow> quiet s t"
  "quiet (s\<lparr>fresh := v48\<rparr>) t \<longleftrightarrow> quiet s t"
  by (simp_all add: quiet_def)

lemma quiet_update_attempt [simp]: "quiet s (update_attempt k f t) \<longleftrightarrow> quiet s t"
  by (simp add: update_attempt_def)

lemma quiet_update_attempt_before [simp]: "quiet (update_attempt k f s) t \<longleftrightarrow> quiet s t"
  by (simp add: update_attempt_def)

lemma quiet_thenI: "quiet s t \<Longrightarrow> (\<And>u. quiet u (f u)) \<Longrightarrow> quiet s (f t)"
  by (blast intro: quiet_trans)

lemma quiet_connect [quiet_intros]: "quiet s (connect dp s)"
  using quiet_startConnect [of "s\<lparr>shouldReconnect := True\<rparr>" dp] by (simp add: connect_def)

lemma quiet_ensureConnectedStart [quiet_intros]: "quiet s (ensureConnectedStart dp s)"
  using quiet_startConnect [of "s\<lparr>reconnectTimer := None\<rparr>" dp]
  by (simp add: ensureConnectedStart_def)

lemma quiet_beginRequest [quiet_intros]: "quiet s (beginRequest dp w m p s)"
  by (simp add: beginRequest_def Let_def quiet_ensureConnectedStart)

lemma quiet_ensureConnectedEnd [quiet_intros]: "quiet s (ensureConnectedEnd w e s)"
  by (auto simp: ensureConnectedEnd_def split: option.splits intro!: quiet_thenI [OF _ quiet_settle])

lemma quiet_sendRequest [quiet_intros]: "quiet s (sendRequest w b s)"
  by (auto simp: sendRequest_def Let_def quiet_def settle_def split: option.splits request_owner.splits)

lemma quiet_onRequestTimeout [quiet_intros]: "quiet s (onRequestTimeout i s)"
  by (auto simp: onRequestTimeout_def split: option.splits intro!: quiet_thenI [OF _ quiet_settle])

lemma quiet_scheduleReplay [quiet_intros]: "quiet s (scheduleReplay dp s)"
  by (auto simp: scheduleReplay_def Let_def intro!: quiet_thenI [OF _ quiet_beginRequest])

lemma quiet_scheduleConnectionReplay [quiet_intros]: "quiet s (scheduleConnectionReplay dp m i s)"
  by (simp add: scheduleConnectionReplay_def quiet_scheduleReplay)

lemma quiet_finishReplay [quiet_intros]: "quiet s (finishReplay k b s)"
  by (simp add: finishReplay_def)

lemma quiet_onReconnectTimer [quiet_intros]: "quiet s (onReconnectTimer dp t s)"
  by (auto simp: onReconnectTimer_def Let_def split: option.splits
      intro!: quiet_thenI [OF _ quiet_startConnect])

lemma quiet_onConnectSettled [quiet_intros]: "quiet s (onConnectSettled dp k s)"
  by (auto simp: onConnectSettled_def Let_def split: option.splits
      intro!: quiet_thenI [OF _ quiet_scheduleReconnect])

lemma quiet_drop_socket:
  "quiet s t \<Longrightarrow> quiet s (rejectAllPending e (emitStatus b t))"
  by (intro quiet_thenI [OF quiet_thenI, OF _ quiet_emitStatus quiet_rejectAllPending])

lemma quiet_disconnect [quiet_intros]: "quiet s (disconnect s)"
  by (auto simp: disconnect_def Let_def intro!: quiet_drop_socket quiet_thenI [OF _ quiet_emitStatus]
      quiet_thenI [OF _ quiet_closeOptionalSocket])

lemma quiet_onSocketOpen [quiet_intros]: "quiet s (onSocketOpen k s)"
  by (auto simp: onSocketOpen_def Let_def split: option.splits
      intro!: quiet_thenI [OF _ quiet_closeSocket] quiet_thenI [OF _ quiet_emitStatus])

lemma quiet_onSocketClose [quiet_intros]: "quiet s (onSocketClose dp k s)"
  by (auto simp: onSocketClose_def Let_def split: option.splits
      intro!: quiet_thenI [OF _ quiet_scheduleReconnect] quiet_drop_socket)

lemma quiet_onSocketError [quiet_intros]: "quiet s (onSocketError dp k s)"
  by (auto simp: onSocketError_def Let_def split: option.splits
      intro!: quiet_thenI [OF _ quiet_scheduleReconnect] quiet_drop_socket
        quiet_thenI [OF _ quiet_closeSocket])

lemma quiet_onWaiterTimeout [quiet_intros]: "quiet s (onWaiterTimeout w s)"
  by (auto simp: onWaiterTimeout_def quiet_def split: option.splits)

lemma quiet_waitForTurnCompletion [quiet_intros]: "quiet s (waitForTurnCompletion t u ms s)"
  by (auto simp: waitForTurnCompletion_def getTurnCompletion_def Let_def quiet_def split: option.splits)


section \<open>Delivery steps\<close>

lemma epoch_log_client [simp]: "log_step p (EmitEvent FromClient n) = (resume_of n, [])"
  by (cases p) simp

lemma epoch_log_bridge:
  "n_eventId n = Some i \<Longrightarrow> log_step p (EmitEvent FromBridge n) = (fst p, snd p @ [i])"
  by (cases p) simp

text \<open>What a numbered delivery and a client event do to the ordering state.\<close>

lemma outs_emitNumberedEvent:
  assumes "n_eventId n = Some i"
  shows "\<exists>os. outs (emitNumberedEvent dp n s) = outs s @ EmitEvent FromBridge n # os \<and> list_all silent os"
  using assms by (auto simp: emit_defs)

lemma lastSeen_emitNumberedEvent [simp]:
  "n_eventId n = Some i \<Longrightarrow> lastSeenEventId (emitNumberedEvent dp n s) = i"
  by (simp add: emit_defs)

lemma epoch_log_emitNumberedEvent:
  assumes "n_eventId n = Some i"
  shows "epoch_log (outs (emitNumberedEvent dp n s)) =
           (fst (epoch_log (outs s)), snd (epoch_log (outs s)) @ [i])"
proof -
  obtain os where os: "outs (emitNumberedEvent dp n s) = outs s @ EmitEvent FromBridge n # os"
      "list_all silent os"
    using outs_emitNumberedEvent [OF assms] by blast
  then show ?thesis by (simp add: epoch_log_append epoch_log_bridge [OF assms])
qed

lemma log_ok_emitNumberedEvent:
  assumes "log_ok (outs s)" "n_eventId n = Some i"
    "contiguous (fst (epoch_log (outs s))) (snd (epoch_log (outs s)) @ [i]) i"
  shows "log_ok (outs (emitNumberedEvent dp n s))"
  using outs_emitNumberedEvent [OF assms(2), of dp s] assms
  by (auto simp: epoch_log_append epoch_log_bridge [OF assms(2)] intro!: log_ok_cons_silent [where l = i])

lemma emit_next_inv:
  assumes "delivery_inv s" "n_eventId n = Some (lastSeenEventId s + 1)" "1 \<le> lastSeenEventId s + 1"
  shows "delivery_inv (emitNumberedEvent dp n s)"
  using assms contiguous_snoc
  by (simp add: delivery_inv_def epoch_log_emitNumberedEvent log_ok_emitNumberedEvent)

lemma emit_baseline_inv:
  assumes "delivery_inv s" "n_eventId n = Some i" "1 \<le> i" "lastSeenEventId s = 0"
  shows "delivery_inv (emitNumberedEvent dp n s)"
  using assms contiguous_zero [of "fst (epoch_log (outs s))" "snd (epoch_log (outs s))"]
  by (simp add: delivery_inv_def epoch_log_emitNumberedEvent log_ok_emitNumberedEvent contiguous_baseline)

lemma delivery_inv_update [simp]:
  "delivery_inv (s\<lparr>recoveryWatermark := v1\<rparr>) = delivery_inv s"
  "delivery_inv (s\<lparr>awaitingFreshRecoveryBaseline := v2\<rparr>) = delivery_inv s"
  "delivery_inv (s\<lparr>replayTasks := v3\<rparr>) = delivery_inv s"
  "delivery_inv (s\<lparr>replayInFlight := v4\<rparr>) = delivery_inv s"
  "delivery_inv (s\<lparr>replaySupported := v5\<rparr>) = delivery_inv s"
  "delivery_inv (s\<lparr>streamId := v6\<rparr>) = delivery_inv s"
  "delivery_inv (s\<lparr>protocolError := v7\<rparr>) = delivery_inv s"
  "delivery_inv (s\<lparr>pendingRequests := v8\<rparr>) = delivery_inv s"
  by (simp_all add: delivery_inv_def)

lemma delivery_inv_buffer:
  "delivery_inv s \<Longrightarrow> n_eventId n = Some i \<Longrightarrow> 1 \<le> i \<Longrightarrow>
   delivery_inv (s\<lparr>pendingEvents := map_put i n (pendingEvents s)\<rparr>)"
  by (simp add: delivery_inv_def pending_ok_put)

lemma delivery_inv_unbuffer:
  "delivery_inv s \<Longrightarrow> delivery_inv (s\<lparr>pendingEvents := map_del i (pendingEvents s)\<rparr>)"
  by (simp add: delivery_inv_def pending_ok_del)

lemma drainLoop_inv: "delivery_inv s \<Longrightarrow> delivery_inv (drainLoop dp s)"
proof (induction dp s rule: drainLoop.induct)
  case (1 dp s)
  show ?case
  proof (cases "map_get (pendingEvents s) (lastSeenEventId s + 1)")
    case None
    then show ?thesis using 1 by (simp add: drainLoop.simps [of dp s])
  next
    case (Some n)
    then have "n_eventId n = Some (lastSeenEventId s + 1)" "1 \<le> lastSeenEventId s + 1"
      using pending_okD [of "pendingEvents s", OF _ Some] 1 by (simp_all add: delivery_inv_def)
    then show ?thesis
      using 1 Some by (simp add: drainLoop.simps [of dp s] emit_next_inv delivery_inv_unbuffer)
  qed
qed

lemma drainPendingEvents_inv: "delivery_inv s \<Longrightarrow> delivery_inv (drainPendingEvents dp s)"
  by (simp add: drainPendingEvents_def drainLoop_inv)

lemma drainAndReplayGap_inv: "delivery_inv s \<Longrightarrow> delivery_inv (drainAndReplayGap dp s)"
  by (auto simp: drainAndReplayGap_def Let_def
      intro: drainPendingEvents_inv quiet_delivery_inv [OF quiet_scheduleReplay])

text \<open>A client event opens an epoch at the id it announces.\<close>

lemma emitClient_inv:
  assumes "resume_of n = lastSeenEventId s" "pending_ok (pendingEvents s)" "log_ok (outs s)"
  shows "delivery_inv (emitEvent dp FromClient n s)"
  using assms
  by (auto simp: delivery_inv_def emitEvent_def Let_def epoch_log_append
      intro: log_ok_cons_silent [of _ _ "lastSeenEventId s"])

lemma resetDeliveryEpoch_inv:
  "delivery_inv s \<Longrightarrow> delivery_inv (resetDeliveryEpoch dp r e l p s)"
  unfolding resetDeliveryEpoch_def Let_def by (rule emitClient_inv) (simp_all add: delivery_inv_def)

lemma resetRecoveryEpoch_inv:
  assumes "log_ok (outs s)"
  shows "delivery_inv (resetRecoveryEpoch dp s)"
proof -
  have q: "quiet (s\<lparr>pendingEvents := [], lastSeenEventId := 0\<rparr>) t \<Longrightarrow>
      delivery_inv (emitEvent dp FromClient (snapshotRequired a b c 0 d e f) t)" for t a b c d e f
    by (rule emitClient_inv) (use assms in \<open>auto simp: quiet_def log_ok_silent\<close>)
  show ?thesis
    unfolding resetRecoveryEpoch_def Let_def
    by (auto intro!: q quiet_delivery_inv [OF quiet_startConnect] quiet_drop_socket
        quiet_thenI [OF _ quiet_closeOptionalSocket])
      (simp_all add: quiet_def)
qed

lemma delivery_inv_log: "delivery_inv s \<Longrightarrow> log_ok (outs s)"
  by (simp add: delivery_inv_def)

lemma applyStreamIdentity_inv:
  assumes "delivery_inv s"
  shows "delivery_inv (snd (applyStreamIdentity dp v sid s))"
proof -
  have close: "delivery_inv (closeOptionalSocket k (rejectAllPending e t))"
    if "quiet s t" for k e t
    using that assms quiet_delivery_inv quiet_trans quiet_closeOptionalSocket quiet_rejectAllPending
    by metis
  show ?thesis
    using assms
    by (auto simp: applyStreamIdentity_def Let_def 
        split: option.splits list.splits intro!: close resetDeliveryEpoch_inv)
qed

lemma deliverNumberedNotification_inv:
  assumes "delivery_inv s" "n_eventId n = Some i" "1 \<le> i"
  shows "delivery_inv (snd (deliverNumberedNotification dp n i src s))"
proof -
  have "delivery_inv (drainOrReplayPendingEvents dp src (s\<lparr>pendingEvents := map_put i n (pendingEvents s)\<rparr>))"
    using delivery_inv_buffer [OF assms]
    by (simp add: drainOrReplayPendingEvents_def drainPendingEvents_inv drainAndReplayGap_inv)
  with assms show ?thesis
    by (auto simp: deliverNumberedNotification_def Let_def delivery_inv_log resetRecoveryEpoch_inv intro: emit_baseline_inv)
qed

lemma readEventId_pos: "readEventId vb rec = Some i \<Longrightarrow> 1 \<le> i"
  by (auto simp: readEventId_def split: option.splits if_splits)

lemma deliverNotification_inv:
  assumes "delivery_inv s" "n_eventId n = i" "\<And>j. i = Some j \<Longrightarrow> 1 \<le> j"
  shows "delivery_inv (snd (deliverNotification dp n i src s))"
  using assms quiet_delivery_inv [OF quiet_deliverUnnumbered, of n s dp]
  by (auto simp: deliverNotification_def deliverNumberedNotification_inv split: option.splits)

lemma readNotification_event:
  "readNotification dp rec s = (Some (m, ident, i, n), t) \<Longrightarrow>
   n_eventId n = i \<and> i = readEventId (dp_valibot dp) rec"
  by (auto simp: readNotification_def createNotification_def Let_def
      split: option.splits list.splits if_splits)

lemma readNotification_inv: "delivery_inv s \<Longrightarrow> delivery_inv (snd (readNotification dp rec s))"
  by (auto simp: readNotification_def Let_def applyStreamIdentity_inv split: option.splits list.splits)

lemma handleNotificationRecord_inv:
  assumes "delivery_inv s"
  shows "delivery_inv (handleNotificationRecord dp src rec s)"
proof (cases "readNotification dp rec s")
  case (Pair o1 s1)
  have s1: "delivery_inv s1" using readNotification_inv [OF assms, of dp rec] Pair by simp
  show ?thesis
  proof (cases o1)
    case None
    then show ?thesis using s1 Pair by (simp add: handleNotificationRecord_def)
  next
    case (Some r)
    obtain m ident i n where r: "r = (m, ident, i, n)" by (cases r) auto
    have "delivery_inv (snd (deliverNotification dp n i src s1))"
      using s1 readNotification_event [of dp rec s m ident i n s1] Pair Some r readEventId_pos
      by (auto intro!: deliverNotification_inv)
    then show ?thesis
      using Pair Some r quiet_delivery_inv [OF quiet_scheduleConnectionReplay]
      by (simp add: handleNotificationRecord_def Let_def)
  qed
qed

lemma applyReplayEvents_inv: "delivery_inv s \<Longrightarrow> delivery_inv (applyReplayEvents dp es s)"
  by (induction es arbitrary: s)
    (auto simp: applyReplayEvents_def handleNotificationRecord_inv split: option.splits)

lemma handleIncoming_inv: "delivery_inv s \<Longrightarrow> delivery_inv (handleIncoming dp m s)"
  using handleNotificationRecord_inv
  by (auto simp: handleIncoming_def Let_def split: option.splits json.splits
      intro!: quiet_delivery_inv [OF quiet_settle])

lemma finishReplay_inv [simp]: "delivery_inv (finishReplay k b s) = delivery_inv s"
  by (simp add: finishReplay_def)

lemma processReplayPage_inv:
  assumes "delivery_inv s"
  shows "delivery_inv (processReplayPage dp k t resp s)"
proof -
  define s1 where "s1 = snd (applyStreamIdentity dp (readIntegerLike (dp_valibot dp) (field resp ''protocolVersion''))
      (readString (dp_valibot dp) (field resp ''streamId'')) s)"
  have s1: "delivery_inv s1" using assms by (simp add: s1_def applyStreamIdentity_inv)
  then have s2: "delivery_inv (applyReplayEvents dp es s1)" for es by (rule applyReplayEvents_inv)
  show ?thesis
    unfolding processReplayPage_def Let_def s1_def [symmetric]
    using s1 s2
    by (auto split: option.splits intro!: resetDeliveryEpoch_inv quiet_delivery_inv [OF quiet_beginRequest])
qed

lemma continueReplay_inv: "delivery_inv s \<Longrightarrow> delivery_inv (continueReplay dp k s)"
  by (auto simp: continueReplay_def processReplayPage_inv split: option.splits replay_phase.splits sum.splits)

lemma onReplaySettled_inv: "delivery_inv s \<Longrightarrow> delivery_inv (onReplaySettled dp k s)"
  by (auto simp: onReplaySettled_def Let_def split: option.splits replay_phase.splits
      intro!: drainAndReplayGap_inv)

lemma acknowledge_inv: "delivery_inv s \<Longrightarrow> delivery_inv (snd (acknowledgeSnapshotRecovery dp i s))"
  by (simp add: acknowledgeSnapshotRecovery_def drainAndReplayGap_inv)

lemma onSocketMessage_inv: "delivery_inv s \<Longrightarrow> delivery_inv (onSocketMessage dp k m s)"
  by (simp add: onSocketMessage_def handleIncoming_inv split: option.splits)

lemma ws_step_quiet:
  "e \<notin> {CallResetRecoveryEpoch} \<union> range CallAcknowledge \<union> range ReplayResumes \<union> range ReplaySettled
      \<union> {SocketMessage k m | k m. True} \<Longrightarrow> quiet s (ws_step dp e s)"
  by (cases e) (auto intro: quiet_intros quiet_thenI [OF _ quiet_beginRequest])

lemma ws_step_inv: "delivery_inv s \<Longrightarrow> delivery_inv (ws_step dp e s)"
  using quiet_delivery_inv [OF ws_step_quiet, of e s dp]
  by (cases e) (auto simp: delivery_inv_log resetRecoveryEpoch_inv acknowledge_inv continueReplay_inv
      onReplaySettled_inv onSocketMessage_inv)

lemma newClient_inv: "delivery_inv (newClient url opts)"
  by (simp add: delivery_inv_def newClient_def epoch_log_def)

lemma ws_reachable_delivery_inv: "ws_reachable dp s \<Longrightarrow> delivery_inv s"
  by (induction rule: ws_reachable.induct) (auto simp: newClient_inv ws_step_inv)

end
