(* ===== verification/WsGuarantees.thy ===== *)
theory WsGuarantees
  imports WsOrdering
begin

text \<open>
  The guarantees of the websocket client: ordered exactly-once delivery, the recovery barrier,
  acknowledgement and progress of replay.
\<close>

section \<open>Helper lemmas\<close>

definition delivered_ids :: "ws_out list \<Rightarrow> int list" where
  "delivered_ids os =
     List.map_filter (\<lambda>x. case x of EmitEvent FromBridge n \<Rightarrow> n_eventId n | _ \<Rightarrow> None) os"

lemma delivered_ids_simps [simp]:
  "delivered_ids [] = []"
  "delivered_ids (EmitEvent FromClient n # os) = delivered_ids os"
  "delivered_ids (EmitEvent FromBridge n # os) =
     (case n_eventId n of None \<Rightarrow> delivered_ids os | Some i \<Rightarrow> i # delivered_ids os)"
  by (simp_all add: delivered_ids_def map_filter_simps split: option.splits)

lemma delivered_ids_append [simp]: "delivered_ids (xs @ ys) = delivered_ids xs @ delivered_ids ys"
  by (simp add: delivered_ids_def map_filter_def)

lemma delivered_ids_silent [simp]: "list_all silent os \<Longrightarrow> delivered_ids os = []"
  by (induction os) (auto simp: delivered_ids_def map_filter_def silent_def split: ws_out.splits)

lemma quiet_delivered: "quiet s t \<Longrightarrow> delivered_ids (outs t) = delivered_ids (outs s)"
  by (auto simp: quiet_def)

lemma delivered_emitNumberedEvent:
  "n_eventId n = Some i \<Longrightarrow>
   delivered_ids (outs (emitNumberedEvent dp n s)) = delivered_ids (outs s) @ [i]"
  using outs_emitNumberedEvent [of n i dp s] by auto

text \<open>The recovery fields that delivery of events leaves alone.\<close>

lemma frame_emitEvent [simp, frame_simps]:
  "recoveryWatermark (emitEvent dp og n s) = recoveryWatermark s"
  "awaitingFreshRecoveryBaseline (emitEvent dp og n s) = awaitingFreshRecoveryBaseline s"
  "lastSeenEventId (emitEvent dp og n s) = lastSeenEventId s"
  "pendingEvents (emitEvent dp og n s) = pendingEvents s"
  "replayGeneration (emitEvent dp og n s) = replayGeneration s"
  "replayTasks (emitEvent dp og n s) = replayTasks s"
  by (simp_all add: emit_defs)

lemma frame_emitNumberedEvent [simp, frame_simps]:
  "recoveryWatermark (emitNumberedEvent dp n s) = recoveryWatermark s"
  "awaitingFreshRecoveryBaseline (emitNumberedEvent dp n s) = awaitingFreshRecoveryBaseline s"
  by (simp_all add: emit_defs split: option.splits)

lemma frame_deliverUnnumbered [simp, frame_simps]:
  "recoveryWatermark (deliverUnnumberedEvent dp n s) = recoveryWatermark s"
  "awaitingFreshRecoveryBaseline (deliverUnnumberedEvent dp n s) = awaitingFreshRecoveryBaseline s"
  "lastSeenEventId (deliverUnnumberedEvent dp n s) = lastSeenEventId s"
  "pendingEvents (deliverUnnumberedEvent dp n s) = pendingEvents s"
  by (simp_all add: deliverUnnumberedEvent_def rememberEventCompletion_def)

lemma frame_startConnect [simp, frame_simps]:
  "recoveryWatermark (startConnect dp s) = recoveryWatermark s"
  "awaitingFreshRecoveryBaseline (startConnect dp s) = awaitingFreshRecoveryBaseline s"
  by (simp_all add: connection_defs)

lemma frame_closeOptionalSocket [simp, frame_simps]:
  "recoveryWatermark (closeOptionalSocket k s) = recoveryWatermark s"
  "awaitingFreshRecoveryBaseline (closeOptionalSocket k s) = awaitingFreshRecoveryBaseline s"
  by (simp_all add: connection_defs split: option.splits)

lemma frame_rejectAllPending [simp, frame_simps]:
  "recoveryWatermark (rejectAllPending e s) = recoveryWatermark s"
  "awaitingFreshRecoveryBaseline (rejectAllPending e s) = awaitingFreshRecoveryBaseline s"
  "recoveryWatermark (emitStatus b s) = recoveryWatermark s"
  "awaitingFreshRecoveryBaseline (emitStatus b s) = awaitingFreshRecoveryBaseline s"
  by (simp_all add: rejectAllPending_def emitStatus_def)

lemma frame_beginRequest [simp, frame_simps]:
  "recoveryWatermark (beginRequest dp w m p s) = recoveryWatermark s"
  "awaitingFreshRecoveryBaseline (beginRequest dp w m p s) = awaitingFreshRecoveryBaseline s"
  by (simp_all add: beginRequest_def ensureConnectedStart_def Let_def)

lemma frame_scheduleReplay [simp, frame_simps]:
  "recoveryWatermark (scheduleReplay dp s) = recoveryWatermark s"
  "awaitingFreshRecoveryBaseline (scheduleReplay dp s) = awaitingFreshRecoveryBaseline s"
  by (simp_all add: scheduleReplay_def Let_def)

lemma resetRecoveryEpoch_fields [simp]:
  "recoveryWatermark (resetRecoveryEpoch dp s) = Some 0"
  "awaitingFreshRecoveryBaseline (resetRecoveryEpoch dp s)"
  by (simp_all add: resetRecoveryEpoch_def Let_def)


section \<open>Ordered delivery\<close>

text \<open>
  C1. Ordered exactly-once delivery. After any sequence of API calls, socket events, timer
  callbacks and resumed continuations, take any prefix of what the client has emitted: the
  numbered events delivered since the last \<open>snapshotRequired\<close> event are a gap-free ascending
  run of ids, starting right after the id that event announced when it announced one
  (otherwise at the first id the bridge sent). At the end the run stops at \<open>lastSeenEventId\<close>.
\<close>

theorem ordered_delivery:
  "(case epoch_log (take k (outs (ws_run dp es (newClient url opts)))) of
      (base, ids) \<Rightarrow>
        ids = [] \<or> (\<exists>f l. 1 \<le> f \<and> f \<le> l \<and> ids = [f..l] \<and> (base = 0 \<or> f = base + 1))) \<and>
   (case epoch_log (outs (ws_run dp es (newClient url opts))) of
      (base, ids) \<Rightarrow>
        lastSeenEventId (ws_run dp es (newClient url opts)) = (if ids = [] then base else last ids))"
proof -
  define s where "s = ws_run dp es (newClient url opts)"
  have "ws_reachable dp s"
    unfolding s_def by (intro ws_reachable_run ws_reachable.start)
  then have inv: "delivery_inv s" by (rule ws_reachable_delivery_inv)
  then have "\<exists>l. contiguous (fst (epoch_log (take k (outs s)))) (snd (epoch_log (take k (outs s)))) l"
    using delivery_inv_log by (simp add: log_ok_def take_is_prefix)
  moreover have "lastSeenEventId s =
      (if snd (epoch_log (outs s)) = [] then fst (epoch_log (outs s)) else last (snd (epoch_log (outs s))))"
    using inv by (auto simp: delivery_inv_def contiguous_def upto_rec2)
  ultimately show ?thesis
    unfolding contiguous_def s_def by (cases "epoch_log (take k (outs s))"; cases "epoch_log (outs s)")
      (simp add: s_def, blast)
qed


section \<open>Recovery\<close>

definition barrier :: "ws_client \<Rightarrow> bool" where
  "barrier s \<longleftrightarrow>
     recoveryWatermark s \<noteq> None \<and> (lastSeenEventId s \<noteq> 0 \<or> awaitingFreshRecoveryBaseline s)"

lemma barrier_no_drain: "recoveryWatermark s \<noteq> None \<Longrightarrow> drainPendingEvents dp s = s"
  by (simp add: drainPendingEvents_def)

lemma barrier_cong:
  "quiet s t \<Longrightarrow> recoveryWatermark t = recoveryWatermark s \<Longrightarrow>
   awaitingFreshRecoveryBaseline t = awaitingFreshRecoveryBaseline s \<Longrightarrow> barrier t = barrier s"
  by (simp add: barrier_def quiet_def)

lemma barrier_drainOrReplay:
  assumes "recoveryWatermark s \<noteq> None"
  shows "quiet s (drainOrReplayPendingEvents dp src s) \<and>
         barrier (drainOrReplayPendingEvents dp src s) = barrier s"
  using assms quiet_scheduleReplay [of s dp]
  by (auto simp: drainOrReplayPendingEvents_def drainAndReplayGap_def Let_def barrier_no_drain
      barrier_cong)

lemmas delivered_quiet_ops [simp] =
  quiet_startConnect [THEN quiet_delivered] quiet_closeOptionalSocket [THEN quiet_delivered]
  quiet_rejectAllPending [THEN quiet_delivered] quiet_emitStatus [THEN quiet_delivered]

lemma delivered_emitClient [simp]:
  "delivered_ids (outs (emitEvent dp FromClient n s)) = delivered_ids (outs s)"
  by (simp add: emitEvent_def Let_def)

lemma delivered_resetRecoveryEpoch [simp]:
  "delivered_ids (outs (resetRecoveryEpoch dp s)) = delivered_ids (outs s)"
  by (simp add: resetRecoveryEpoch_def Let_def)

lemma barrier_deliverNumbered:
  assumes "barrier s" "n_eventId n = Some i" "t = snd (deliverNumberedNotification dp n i src s)"
  shows "barrier t \<and> delivered_ids (outs t) = delivered_ids (outs s)"
proof -
  define u where "u = s\<lparr>pendingEvents := map_put i n (pendingEvents s)\<rparr>"
  have u: "barrier u" "recoveryWatermark u \<noteq> None" "outs u = outs s"
    using assms by (simp_all add: u_def barrier_def)
  have "t = s \<or> t = resetRecoveryEpoch dp u \<or> t = drainOrReplayPendingEvents dp src u"
    using assms by (auto simp: deliverNumberedNotification_def u_def Let_def barrier_def)
  moreover have "barrier (resetRecoveryEpoch dp u)" by (simp add: barrier_def)
  ultimately show ?thesis
    using assms(1) u barrier_drainOrReplay [OF u(2), of dp src] quiet_delivered by auto
qed

lemma barrier_deliverNotification:
  assumes "barrier s" "n_eventId n = i"
  shows "barrier (snd (deliverNotification dp n i src s)) \<and>
         delivered_ids (outs (snd (deliverNotification dp n i src s))) = delivered_ids (outs s)"
  using assms barrier_deliverNumbered [of s n _ _ dp src] quiet_deliverUnnumbered [of n s dp]
  by (auto simp: deliverNotification_def quiet_delivered barrier_cong split: option.splits)

lemma barrier_applyStreamIdentity:
  assumes "barrier s" "fst (applyStreamIdentity dp v sid s) \<noteq> IdChanged"
  shows "barrier (snd (applyStreamIdentity dp v sid s)) \<and>
         delivered_ids (outs (snd (applyStreamIdentity dp v sid s))) = delivered_ids (outs s)"
proof -
  have "barrier (closeOptionalSocket k (rejectAllPending e t)) = barrier t" for k e t
    by (intro barrier_cong quiet_thenI [OF quiet_rejectAllPending quiet_closeOptionalSocket]) simp_all
  moreover have "barrier (s\<lparr>protocolError := p\<rparr>) = barrier s" "barrier (s\<lparr>streamId := q\<rparr>) = barrier s"
    "barrier (s\<lparr>protocolError := p, shouldReconnect := b, connectGeneration := g\<rparr>) = barrier s"
    "barrier (s\<lparr>protocolError := p, streamId := q\<rparr>) = barrier s" for p q b g
    by (simp_all add: barrier_def)
  ultimately show ?thesis
    using assms by (auto simp: applyStreamIdentity_def Let_def split: option.splits list.splits if_splits)
qed

definition record_identity :: "ws_deps \<Rightarrow> (string, json) jsmap \<Rightarrow> ws_client \<Rightarrow> stream_identity" where
  "record_identity dp rec s =
     fst (applyStreamIdentity dp (readIntegerLike (dp_valibot dp) (map_get rec ''protocolVersion''))
            (readString (dp_valibot dp) (map_get rec ''streamId'')) s)"

lemma barrier_readNotification:
  assumes "barrier s" "record_identity dp rec s \<noteq> IdChanged"
  shows "barrier (snd (readNotification dp rec s)) \<and>
         delivered_ids (outs (snd (readNotification dp rec s))) = delivered_ids (outs s)"
  using assms barrier_applyStreamIdentity [of s dp]
  by (auto simp: readNotification_def record_identity_def Let_def split: option.splits list.splits)

lemma barrier_scheduleReplay [simp]: "barrier (scheduleReplay dp s) = barrier s"
  by (simp add: barrier_cong [OF quiet_scheduleReplay])

lemma barrier_scheduleConnectionReplay [simp]:
  "barrier (scheduleConnectionReplay dp m i s) = barrier s"
  "delivered_ids (outs (scheduleConnectionReplay dp m i s)) = delivered_ids (outs s)"
  by (simp_all add: scheduleConnectionReplay_def quiet_delivered [OF quiet_scheduleReplay])

text \<open>
  C2. The recovery barrier. It is up while a recovery watermark is set and the client has a delivery position other
  than 0 or waits for a fresh baseline. Then no notification that belongs to the current stream, live or replayed,
  numbered or not, makes a numbered event reach the listeners, and the barrier is still up after it, whether the event
  is buffered, dropped as a duplicate or overflows the buffer and resets the epoch. Two cases are outside of this: a
  notification that changes the stream, and the time after such a change, when a watermark is set but the position
  is 0 and no fresh baseline is awaited; there the next numbered event is delivered before the acknowledgement
  (\<open>stream_change_delivers_before_ack\<close>).
\<close>

theorem recovery_barrier:
  assumes "recoveryWatermark s = Some w"
    and "lastSeenEventId s \<noteq> 0 \<or> awaitingFreshRecoveryBaseline s"
    and "record_identity dp rec s \<noteq> IdChanged"
  shows "delivered_ids (outs (handleNotificationRecord dp src rec s)) = delivered_ids (outs s) \<and>
         recoveryWatermark (handleNotificationRecord dp src rec s) \<noteq> None \<and>
         (lastSeenEventId (handleNotificationRecord dp src rec s) \<noteq> 0 \<or>
          awaitingFreshRecoveryBaseline (handleNotificationRecord dp src rec s))"
proof -
  have b: "barrier s" using assms by (simp add: barrier_def)
  obtain o1 s1 where r: "readNotification dp rec s = (o1, s1)" by fastforce
  have s1: "barrier s1" "delivered_ids (outs s1) = delivered_ids (outs s)"
    using barrier_readNotification [OF b assms(3)] r by auto
  have "barrier (handleNotificationRecord dp src rec s) \<and>
      delivered_ids (outs (handleNotificationRecord dp src rec s)) = delivered_ids (outs s)"
  proof (cases o1)
    case None
    then show ?thesis using r s1 by (simp add: handleNotificationRecord_def)
  next
    case (Some e)
    obtain m ident i n where e: "e = (m, ident, i, n)" by (cases e) auto
    have "n_eventId n = i" using readNotification_event r Some e by blast
    from barrier_deliverNotification [OF s1(1) this, of dp src] show ?thesis
      using r s1 Some e by (simp add: handleNotificationRecord_def Let_def)
  qed
  then show ?thesis by (simp add: barrier_def)
qed

text \<open>A client with a delivery position, and deps that follow the documented validators.\<close>

definition demo_deps :: ws_deps where
  "demo_deps = \<lparr>dp_valibot = valibot_documented, dp_parse = (\<lambda>_. None), dp_platform = ''ios'',
                dp_jitter = (\<lambda>_. 100)\<rparr>"

definition demo_options :: ws_options where
  "demo_options = \<lparr>opt_authToken = Some ''secret'', opt_workspaceId = None,
                   opt_allowQueryTokenAuth = None, opt_requestTimeoutMs = None\<rparr>"

definition demo_client :: ws_client where
  "demo_client = newClient ''http://host/'' demo_options"

definition demo_note :: "int \<Rightarrow> notification" where
  "demo_note i = \<lparr>n_method = ''m'', n_params = None, n_protocolVersion = None, n_streamId = None,
                  n_eventId = Some i\<rparr>"

lemmas demo_defs =
  demo_deps_def demo_options_def demo_client_def demo_note_def newClient_def valibot_documented_def

theorem recovery_barrier_witness:
  "delivered_ids (outs (handleNotificationRecord demo_deps Live
      [(''method'', JStr ''m''), (''eventId'', JNum 6)]
      (demo_client\<lparr>recoveryWatermark := Some 5, lastSeenEventId := 5\<rparr>))) = []"
  using recovery_barrier [of "demo_client\<lparr>recoveryWatermark := Some 5, lastSeenEventId := 5\<rparr>" 5
      demo_deps "[(''method'', JStr ''m''), (''eventId'', JNum 6)]" Live]
  by (simp add: demo_defs record_identity_def applyStreamIdentity_def readString_def
      readIntegerLike_def readFiniteNumberLike_def)

text \<open>Draining delivers the longest buffered run after the last delivered id.\<close>

lemma socketOpen_cong: "socket s = socket t \<Longrightarrow> attempts s = attempts t \<Longrightarrow> socketOpen s = socketOpen t"
  by (simp add: socketOpen_def readyState_def split: option.splits)

definition outer_fields where
  "outer_fields s = (recoveryWatermark s, awaitingFreshRecoveryBaseline s, replaySupported s,
     replayInFlight s, connected s, socket s, attempts s, shouldReconnect s, replayGeneration s)"

lemma outer_fields_emitNumberedEvent [simp]:
  "outer_fields (emitNumberedEvent dp n s) = outer_fields s"
  by (simp add: outer_fields_def emit_defs split: option.splits)

lemma outer_fields_drainLoop: "outer_fields (drainLoop dp s) = outer_fields s"
proof (induction dp s rule: drainLoop.induct)
  case (1 dp s)
  have "outer_fields (s\<lparr>pendingEvents := m\<rparr>) = outer_fields s" for m by (simp add: outer_fields_def)
  with 1 show ?case by (subst drainLoop.simps) (simp split: option.splits)
qed

lemma drainLoop_fields [simp]:
  "recoveryWatermark (drainLoop dp s) = recoveryWatermark s"
  "awaitingFreshRecoveryBaseline (drainLoop dp s) = awaitingFreshRecoveryBaseline s"
  "replaySupported (drainLoop dp s) = replaySupported s"
  "replayInFlight (drainLoop dp s) = replayInFlight s"
  "connected (drainLoop dp s) = connected s"
  "socketOpen (drainLoop dp s) = socketOpen s"
  using outer_fields_drainLoop [of dp s]
  by (simp_all add: outer_fields_def socketOpen_cong [of "drainLoop dp s" s])

definition drained :: "ws_client \<Rightarrow> ws_client \<Rightarrow> bool" where
  "drained s t \<longleftrightarrow>
     lastSeenEventId s \<le> lastSeenEventId t \<and>
     delivered_ids (outs t) = delivered_ids (outs s) @ [lastSeenEventId s + 1..lastSeenEventId t] \<and>
     (\<forall>i. lastSeenEventId s < i \<and> i \<le> lastSeenEventId t \<longrightarrow> map_has (pendingEvents s) i) \<and>
     \<not> map_has (pendingEvents s) (lastSeenEventId t + 1) \<and>
     pendingEvents t =
       filter (\<lambda>(i, n). \<not> (lastSeenEventId s < i \<and> i \<le> lastSeenEventId t)) (pendingEvents s)"

lemma drainLoop_spec:
  assumes "pending_ok (pendingEvents s)"
  shows "drained s (drainLoop dp s)"
  using assms
proof (induction dp s rule: drainLoop.induct)
  case (1 dp s)
  show ?case
  proof (cases "map_get (pendingEvents s) (lastSeenEventId s + 1)")
    case None
    then show ?thesis by (auto simp: drainLoop.simps [of dp s] drained_def intro!: filter_True [symmetric])
  next
    case (Some n)
    define s1 where "s1 = emitNumberedEvent dp n
            (s\<lparr>pendingEvents := map_del (lastSeenEventId s + 1) (pendingEvents s)\<rparr>)"
    have d: "drainLoop dp s = drainLoop dp s1"
      using Some by (simp add: drainLoop.simps [of dp s] s1_def)
    have n: "n_eventId n = Some (lastSeenEventId s + 1)" using pending_okD [OF 1(2) Some] by simp
    have f: "pendingEvents s1 = map_del (lastSeenEventId s + 1) (pendingEvents s)"
      "lastSeenEventId s1 = lastSeenEventId s + 1"
      "delivered_ids (outs s1) = delivered_ids (outs s) @ [lastSeenEventId s + 1]"
      using n by (simp_all add: s1_def delivered_emitNumberedEvent)
    note IH = 1(1) [OF Some, folded s1_def, unfolded f drained_def, OF pending_ok_del, OF 1(2)]
    have "filter (\<lambda>(i, n). \<not> (lastSeenEventId s + 1 < i \<and> i \<le> lastSeenEventId (drainLoop dp s1)))
          (map_del (lastSeenEventId s + 1) (pendingEvents s)) =
        filter (\<lambda>(i, n). \<not> (lastSeenEventId s < i \<and> i \<le> lastSeenEventId (drainLoop dp s1))) (pendingEvents s)"
      using IH by (auto simp: AList.delete_eq intro!: filter_cong)
    moreover have "map_has (pendingEvents s) i"
      if "lastSeenEventId s < i" "i \<le> lastSeenEventId (drainLoop dp s1)" for i
      using IH Some that by (cases "i = lastSeenEventId s + 1") (auto simp: map_get_del)
    ultimately show ?thesis
      unfolding d drained_def using IH by (simp add: map_get_del upto_rec1 split: if_splits)
  qed
qed

lemma drained_gap: "drained s t \<Longrightarrow> pendingEvents t \<noteq> [] \<Longrightarrow> hasPendingGap t"
  by (auto simp: drained_def hasPendingGap_def map_of_filter_key)

lemma drained_quiet: "drained s t \<Longrightarrow> quiet t u \<Longrightarrow> drained s u"
  by (auto simp: drained_def quiet_def)

lemma drainAndReplayGap_spec:
  assumes "pending_ok (pendingEvents s)" "recoveryWatermark s = None"
  shows "drained s (drainAndReplayGap dp s) \<and>
    recoveryWatermark (drainAndReplayGap dp s) = None \<and>
    awaitingFreshRecoveryBaseline (drainAndReplayGap dp s) = awaitingFreshRecoveryBaseline s \<and>
    (pendingEvents (drainAndReplayGap dp s) \<noteq> [] \<and> replaySupported s \<and> connected s \<and> socketOpen s \<longrightarrow>
       replayInFlight (drainAndReplayGap dp s) \<noteq> None)"
proof -
  define v where "v = drainLoop dp s"
  have v: "drained s v" unfolding v_def by (rule drainLoop_spec [OF assms(1)])
  have t: "drainAndReplayGap dp s = (if hasPendingGap v then scheduleReplay dp v else v)"
    using assms(2) by (simp add: drainAndReplayGap_def drainPendingEvents_def v_def Let_def)
  have q: "quiet v (drainAndReplayGap dp s)" by (simp add: t quiet_scheduleReplay)
  then have "pendingEvents (drainAndReplayGap dp s) = pendingEvents v" by (simp add: quiet_def)
  moreover have "replaySupported v = replaySupported s" "connected v = connected s" "socketOpen v = socketOpen s"
    by (simp_all add: v_def)
  ultimately show ?thesis
    using assms(2) drained_quiet [OF v q] drained_gap [OF v]
    by (auto simp: t v_def scheduleReplay_def Let_def)
qed

text \<open>
  C3. Acknowledgement of a recovered snapshot. It is accepted exactly when it names the
  outstanding watermark; a refused one changes nothing. An accepted one lifts the barrier,
  delivers the longest run of buffered events that follows the delivery position (in order,
  nothing else), keeps every other buffered event, and if some event stays behind a gap asks
  the bridge for a replay whenever the connection allows one.
\<close>

theorem acknowledge_snapshot:
  assumes "ws_reachable dp s" "acknowledgeSnapshotRecovery dp r s = (ok, t)"
  shows "ok = (recoveryWatermark s = Some r) \<and>
    (if ok then
      recoveryWatermark t = None \<and> \<not> awaitingFreshRecoveryBaseline t \<and>
      lastSeenEventId s \<le> lastSeenEventId t \<and>
      delivered_ids (outs t) = delivered_ids (outs s) @ [lastSeenEventId s + 1..lastSeenEventId t] \<and>
      (\<forall>i. lastSeenEventId s < i \<and> i \<le> lastSeenEventId t \<longrightarrow> map_has (pendingEvents s) i) \<and>
      \<not> map_has (pendingEvents s) (lastSeenEventId t + 1) \<and>
      pendingEvents t =
        filter (\<lambda>(i, n). \<not> (lastSeenEventId s < i \<and> i \<le> lastSeenEventId t)) (pendingEvents s) \<and>
      (pendingEvents t \<noteq> [] \<and> replaySupported s \<and> connected s \<and> socketOpen s \<longrightarrow>
         replayInFlight t \<noteq> None)
     else t = s)"
proof (cases "recoveryWatermark s = Some r")
  case False
  then show ?thesis using assms(2) by (auto simp: acknowledgeSnapshotRecovery_def)
next
  case True
  define u where "u = s\<lparr>recoveryWatermark := None, awaitingFreshRecoveryBaseline := False\<rparr>"
  have "pending_ok (pendingEvents u)"
    using ws_reachable_delivery_inv [OF assms(1)] by (simp add: delivery_inv_def u_def)
  moreover have "ok" "t = drainAndReplayGap dp u"
    using True assms(2) by (auto simp: acknowledgeSnapshotRecovery_def u_def)
  moreover have "socketOpen u = socketOpen s" by (rule socketOpen_cong) (simp_all add: u_def)
  ultimately show ?thesis
    using True drainAndReplayGap_spec [of u dp] by (simp add: drained_def u_def)
qed

definition demo_event :: "string \<Rightarrow> int \<Rightarrow> json option" where
  "demo_event sid i = Some (JObj [(''method'', JStr ''m''), (''protocolVersion'', JNum 2),
                              (''streamId'', JStr sid), (''eventId'', JNum (of_int i))])"

definition demo_run :: "ws_event list" where
  "demo_run = [CallConnect, CallResetRecoveryEpoch, SocketOpened 1,
     SocketMessage 1 (demo_event ''s'' 2), SocketMessage 1 (demo_event ''s'' 1),
     SocketMessage 1 (demo_event ''s'' 4)]"

lemma demo_reachable: "ws_reachable demo_deps (ws_run demo_deps es demo_client)"
  unfolding demo_client_def by (intro ws_reachable_run ws_reachable.start)

lemma demo_run_state:
  "recoveryWatermark (ws_run demo_deps demo_run demo_client) = Some 0"
  "delivered_ids (outs (ws_run demo_deps demo_run demo_client)) = []"
  "lastSeenEventId (ws_run demo_deps demo_run demo_client) = 0"
  "map fst (pendingEvents (ws_run demo_deps demo_run demo_client)) = [2, 1, 4]"
  by code_simp+

lemma demo_ack_state:
  "lastSeenEventId (snd (acknowledgeSnapshotRecovery demo_deps 0
      (ws_run demo_deps demo_run demo_client))) = 2"
  by code_simp

theorem acknowledge_snapshot_witness:
  "delivered_ids (outs (snd (acknowledgeSnapshotRecovery demo_deps 0
      (ws_run demo_deps demo_run demo_client)))) = [1, 2]"
proof -
  have "[0 + 1..2 :: int] = [1, 2]" by code_simp
  then show ?thesis
    using acknowledge_snapshot [OF demo_reachable prod.collapse [symmetric], of 0 demo_run]
    by (simp add: demo_run_state demo_ack_state)
qed


section \<open>Progress of replay\<close>

lemma map_get_set_phase:
  "map_get (set_phase k ph ts) j =
     map_option (\<lambda>t. if j = k then t\<lparr>rt_phase := ph\<rparr> else t) (map_get ts j)"
  by (induction ts) (simp_all add: set_phase_def case_prod_unfold)

lemma finishReplay_phase:
  "map_get (replayTasks (finishReplay k b s)) k = Some t \<Longrightarrow> rt_phase t = RpDone b"
  by (auto simp: finishReplay_def map_get_set_phase)

lemma replayTasks_startConnect [simp]: "replayTasks (startConnect dp s) = replayTasks s"
  by (simp add: connection_defs)

lemma replayTasks_beginRequest [simp]: "replayTasks (beginRequest dp w m p s) = replayTasks s"
  by (simp add: beginRequest_def ensureConnectedStart_def Let_def)

lemma resolveReplayTarget_keep [simp]: "resolveReplayTargetEventId (Some g) l ids = Some g"
  by (simp add: resolveReplayTargetEventId_def)

text \<open>A page either ends the replay or asks for the next page from a larger cursor.\<close>

lemma processReplayPage_cases:
  "(\<exists>u. processReplayPage dp k t resp s = finishReplay k True u) \<or>
   (\<exists>s2 tg latest ids.
      resolveReplayTargetEventId (rt_target t) latest ids = Some tg \<and>
      rt_cursor t < lastSeenEventId s2 \<and> lastSeenEventId s2 < tg \<and>
      processReplayPage dp k t resp s =
        beginRequest dp (ReplayOf k) ''bridge/events/replay'' (replayParams (lastSeenEventId s2))
          (s2\<lparr>replayTasks := map_put k
             (t\<lparr>rt_cursor := lastSeenEventId s2, rt_target := Some tg, rt_phase := RpAwait\<rparr>)
             (replayTasks s2)\<rparr>))"
  (is "?fin \<or> ?next")
proof (rule disjCI)
  assume not_next: "\<not> ?next"
  define vb where "vb = dp_valibot dp"
  define r where "r = applyStreamIdentity dp (readIntegerLike vb (field resp ''protocolVersion''))
      (readString vb (field resp ''streamId'')) s"
  define latest where "latest = readIntegerLike vb (field resp ''latestEventId'')"
  define events where "events = (case field resp ''events'' of Some (JArr es) \<Rightarrow> es | _ \<Rightarrow> [])"
  define s2 where "s2 = applyReplayEvents dp events (snd r)"
  define target where
    "target = resolveReplayTargetEventId (rt_target t) latest (extractPageEventIds vb events)"
  note d = processReplayPage_def [of dp k t resp s, unfolded Let_def, folded vb_def,
      folded r_def latest_def events_def, folded s2_def target_def]
  have "\<not> (rt_cursor t < lastSeenEventId s2 \<and> lastSeenEventId s2 < tg \<and>
      processReplayPage dp k t resp s =
        beginRequest dp (ReplayOf k) ''bridge/events/replay'' (replayParams (lastSeenEventId s2))
          (s2\<lparr>replayTasks := map_put k
             (t\<lparr>rt_cursor := lastSeenEventId s2, rt_target := Some tg, rt_phase := RpAwait\<rparr>)
             (replayTasks s2)\<rparr>))" if "target = Some tg" for tg
    using not_next that unfolding target_def by blast
  then show ?fin
    unfolding d by (cases target) (auto simp: not_le split: option.split)
qed

lemma processReplayPage_progress:
  assumes "map_get (replayTasks (processReplayPage dp k t resp s)) k = Some t'" "rt_phase t' = RpAwait"
  shows "rt_cursor t < rt_cursor t' \<and> rt_cursor t' = lastSeenEventId (processReplayPage dp k t resp s) \<and>
    rt_generation t' = rt_generation t \<and>
    (\<exists>g. rt_target t' = Some g \<and> rt_cursor t' < g \<and> (rt_target t = None \<or> rt_target t = Some g))"
proof -
  have "\<And>b u. map_get (replayTasks (finishReplay k b u)) k \<noteq> Some t'"
    using assms(2) finishReplay_phase by fastforce
  then obtain s2 tg latest ids where
    tg: "resolveReplayTargetEventId (rt_target t) latest ids = Some tg"
    and c: "rt_cursor t < lastSeenEventId s2" "lastSeenEventId s2 < tg"
    and e: "processReplayPage dp k t resp s =
        beginRequest dp (ReplayOf k) ''bridge/events/replay'' (replayParams (lastSeenEventId s2))
          (s2\<lparr>replayTasks := map_put k
             (t\<lparr>rt_cursor := lastSeenEventId s2, rt_target := Some tg, rt_phase := RpAwait\<rparr>)
             (replayTasks s2)\<rparr>)"
    using processReplayPage_cases [of dp k t resp s] assms(1) by metis
  have l: "lastSeenEventId (beginRequest dp w m p u) = lastSeenEventId u" for w m p u
    using quiet_beginRequest [of u dp w m p] by (simp add: quiet_def)
  show ?thesis
    using assms(1) tg c by (cases "rt_target t") (auto simp: e l map_get_put)
qed

text \<open>
  C4. Replay makes progress. When a replay page has been processed and the loop goes on to ask
  for another one, its cursor is the id delivered last and is strictly larger than before, and
  strictly below a target that is fixed from the first page on; so a replay asks for at most
  target minus cursor further pages.
\<close>

theorem replay_progress:
  assumes "map_get (replayTasks s) k = Some t" "rt_phase t = RpSettled r"
    and "map_get (replayTasks (continueReplay dp k s)) k = Some t'" "rt_phase t' = RpAwait"
  shows "rt_cursor t < rt_cursor t' \<and> rt_cursor t' = lastSeenEventId (continueReplay dp k s) \<and>
    rt_generation t' = rt_generation t \<and>
    (\<exists>g. rt_target t' = Some g \<and> rt_cursor t' < g \<and> (rt_target t = None \<or> rt_target t = Some g))"
proof -
  have f: "\<And>b u. map_get (replayTasks (finishReplay k b u)) k \<noteq> Some t'"
    using assms(4) finishReplay_phase by fastforce
  obtain v where "r = Inr v" "continueReplay dp k s = processReplayPage dp k t (toRecord (Some v)) s"
    using assms(1-3) f by (auto simp: continueReplay_def split: if_splits sum.splits)
  then show ?thesis using processReplayPage_progress [of dp k t _ s t'] assms(3,4) by metis
qed

definition demo_page :: json where
  "demo_page = JObj [(''protocolVersion'', JNum 2), (''streamId'', JStr ''s''),
     (''earliestEventId'', JNum 1), (''latestEventId'', JNum 10), (''hasMore'', JBool True),
     (''events'', JArr [the (demo_event ''s'' 2), the (demo_event ''s'' 3)])]"

definition demo_replay_run :: "ws_event list" where
  "demo_replay_run = [CallConnect, SocketOpened 0, SocketMessage 0 (demo_event ''s'' 1),
     SocketMessage 0 (demo_event ''s'' 4), EnsureConnectedResumes (ReplayOf 1) None,
     RequestResumes (ReplayOf 1) True,
     SocketMessage 0 (Some (JObj [(''id'', JStr ''0-1''), (''result'', demo_page)]))]"

definition demo_task :: "ws_client \<Rightarrow> replay_task" where
  "demo_task s = the (map_get (replayTasks s) 1)"

theorem replay_progress_witness:
  "rt_cursor (demo_task (ws_run demo_deps demo_replay_run demo_client)) = 1 \<and>
   rt_cursor (demo_task (continueReplay demo_deps 1 (ws_run demo_deps demo_replay_run demo_client))) = 4 \<and>
   rt_cursor (demo_task (ws_run demo_deps demo_replay_run demo_client)) <
   rt_cursor (demo_task (continueReplay demo_deps 1 (ws_run demo_deps demo_replay_run demo_client)))"
proof -
  let ?s = "ws_run demo_deps demo_replay_run demo_client"
  have "map_get (replayTasks ?s) 1 = Some (demo_task ?s)"
    "rt_phase (demo_task ?s) = RpSettled (Inr demo_page)"
    "map_get (replayTasks (continueReplay demo_deps 1 ?s)) 1 = Some (demo_task (continueReplay demo_deps 1 ?s))"
    "rt_phase (demo_task (continueReplay demo_deps 1 ?s)) = RpAwait"
    by code_simp+
  note replay_progress [OF this]
  moreover have "rt_cursor (demo_task ?s) = 1" "rt_cursor (demo_task (continueReplay demo_deps 1 ?s)) = 4"
    by code_simp+
  ultimately show ?thesis by simp
qed

end
