(* ===== verification/WsConnection.thy ===== *)
theory WsConnection
  imports WsGuarantees
begin

text \<open>
  Connection side of the websocket client: the invariant of sockets, timers and pending
  requests, authentication of the socket, reconnect delays, identities of requests, and the
  cache of turn completions.
\<close>

section \<open>Identities of requests\<close>

lemma digit_char_not_dash: "d < 10 \<Longrightarrow> digit_char d \<noteq> CHR ''-''"
  using char_digit_digit_char [of d] by (auto simp: char_digit_def)

lemma dash_not_in_nat: "CHR ''-'' \<notin> set (string_of_nat n)"
  using string_of_nat_digits [of "CHR ''-''" n] digit_char_not_dash by metis

lemma requestId_counter: "requestId t c = requestId t' c' \<Longrightarrow> c = c'"
  using last_separator_inject [OF dash_not_in_nat dash_not_in_nat] by (simp add: requestId_def)



section \<open>The connection invariant\<close>

definition conn_inv :: "ws_client \<Rightarrow> bool" where
  "conn_inv s \<longleftrightarrow>
     (socket s = None \<or> pendingSocket s = None) \<and>
     (connected s \<longleftrightarrow> socket s \<noteq> None) \<and>
     (reconnectTimer s \<noteq> None \<longrightarrow>
        socket s = None \<and> pendingSocket s = None \<and> connectPromise s = None) \<and>
     (pendingRequests s \<noteq> [] \<longrightarrow> socket s \<noteq> None) \<and>
     (\<forall>(k, p) \<in> set (pendingRequests s). \<exists>t c. k = JStr (requestId t c) \<and> c \<le> requestCounter s)"

definition conn_part where
  "conn_part s = (socket s, pendingSocket s, connected s, reconnectTimer s, connectPromise s,
     pendingRequests s, requestCounter s)"

lemma conn_inv_cong: "conn_part s = conn_part t \<Longrightarrow> conn_inv s = conn_inv t"
  by (simp add: conn_part_def conn_inv_def)

named_theorems conn_intros

lemma conn_part_emit [simp]:
  "conn_part (emitEvent dp og n s) = conn_part s"
  "conn_part (emitNumberedEvent dp n s) = conn_part s"
  "conn_part (deliverUnnumberedEvent dp n s) = conn_part s"
  "conn_part (resetDeliveryEpoch dp r e l p s) = conn_part s"
  "conn_part (closeOptionalSocket k s) = conn_part s"
  "conn_part (closeSocket j s) = conn_part s"
  by (simp_all add: conn_part_def emit_defs resetDeliveryEpoch_def connection_defs split: option.splits)

lemmas conn_inv_emit [simp] = conn_part_emit [THEN conn_inv_cong]

lemma conn_part_update [simp]:
  "conn_part (s\<lparr>pendingEvents := v1\<rparr>) = conn_part s"
  "conn_part (s\<lparr>replayTasks := v2\<rparr>) = conn_part s"
  "conn_part (s\<lparr>recoveryWatermark := v3\<rparr>) = conn_part s"
  "conn_part (s\<lparr>awaitingFreshRecoveryBaseline := v4\<rparr>) = conn_part s"
  "conn_part (s\<lparr>replayInFlight := v5\<rparr>) = conn_part s"
  "conn_part (s\<lparr>replaySupported := v6\<rparr>) = conn_part s"
  "conn_part (s\<lparr>protocolError := v7\<rparr>) = conn_part s"
  "conn_part (s\<lparr>streamId := v8\<rparr>) = conn_part s"
  "conn_part (s\<lparr>shouldReconnect := v9\<rparr>) = conn_part s"
  "conn_part (s\<lparr>connectGeneration := v10\<rparr>) = conn_part s"
  "conn_part (s\<lparr>fresh := v11\<rparr>) = conn_part s"
  "conn_part (s\<lparr>clock := v12\<rparr>) = conn_part s"
  "conn_part (s\<lparr>waiting := v13\<rparr>) = conn_part s"
  "conn_part (s\<lparr>attempts := v14\<rparr>) = conn_part s"
  "conn_part (s\<lparr>waiters := v15\<rparr>) = conn_part s"
  "conn_part (s\<lparr>outs := v16\<rparr>) = conn_part s"
  "conn_part (s\<lparr>recentTurnCompletions := v17\<rparr>) = conn_part s"
  by (simp_all add: conn_part_def)

lemmas conn_inv_update [simp] = conn_part_update [THEN conn_inv_cong]

lemma conn_part_settle [simp]: "conn_part (settle w r s) = conn_part s"
  by (simp add: conn_part_def settle_def split: request_owner.splits)

lemmas conn_inv_settle [simp] = conn_part_settle [THEN conn_inv_cong]

lemma conn_part_update_attempt [simp]: "conn_part (update_attempt k f s) = conn_part s"
  by (simp add: conn_part_def update_attempt_def)

lemmas conn_inv_update_attempt [simp] = conn_part_update_attempt [THEN conn_inv_cong]

lemma conn_part_drainLoop [simp]: "conn_part (drainLoop dp s) = conn_part s"
  by (induction dp s rule: drainLoop.induct) (subst drainLoop.simps, simp split: option.splits)

lemmas conn_inv_drainLoop [simp] = conn_part_drainLoop [THEN conn_inv_cong]

lemma conn_inv_startConnect [conn_intros]: "conn_inv s \<Longrightarrow> conn_inv (startConnect dp s)"
  by (auto simp: conn_inv_def startConnect_def openSocket_def connectionIdle_def Let_def)

lemma conn_inv_scheduleReconnect [conn_intros]: "conn_inv s \<Longrightarrow> conn_inv (scheduleReconnect dp s)"
  by (auto simp: conn_inv_def scheduleReconnect_def connectionIdle_def Let_def)

lemma conn_inv_clear_timer [conn_intros]: "conn_inv s \<Longrightarrow> conn_inv (s\<lparr>reconnectTimer := None\<rparr>)"
  by (simp add: conn_inv_def)

lemma conn_inv_clear_promise [conn_intros]: "conn_inv s \<Longrightarrow> conn_inv (s\<lparr>connectPromise := None\<rparr>)"
  by (simp add: conn_inv_def)

lemma conn_inv_clear_pending [conn_intros]: "conn_inv s \<Longrightarrow> conn_inv (s\<lparr>pendingSocket := None\<rparr>)"
  by (auto simp: conn_inv_def)

lemma conn_inv_drop_request [conn_intros]:
  "conn_inv s \<Longrightarrow> conn_inv (s\<lparr>pendingRequests := map_del i (pendingRequests s)\<rparr>)"
  using set_map_del [of i "pendingRequests s"] by (fastforce simp: conn_inv_def)

lemma conn_inv_count [conn_intros]:
  "conn_inv s \<Longrightarrow> conn_inv (s\<lparr>requestCounter := Suc (requestCounter s)\<rparr>)"
  by (fastforce simp: conn_inv_def intro: le_SucI)

lemma conn_inv_add_request [conn_intros]:
  assumes "conn_inv s" "socket s \<noteq> None"
  shows "conn_inv (s\<lparr>pendingRequests :=
    map_put (JStr (requestId t (requestCounter s))) p (pendingRequests s)\<rparr>)"
proof -
  have "\<exists>t c. k = JStr (requestId t c) \<and> c \<le> requestCounter s"
    if "(k, q) \<in> set (map_put (JStr (requestId t (requestCounter s))) p (pendingRequests s))" for k q
  proof -
    have "(k, q) = (JStr (requestId t (requestCounter s)), p) \<or> (k, q) \<in> set (pendingRequests s)"
      using that set_map_put by fast
    then show ?thesis using assms(1) unfolding conn_inv_def by blast
  qed
  then show ?thesis using assms by (auto simp: conn_inv_def)
qed

lemma conn_inv_rejectAll [conn_intros]: "conn_inv s \<Longrightarrow> conn_inv (rejectAllPending e s)"
  by (auto simp: conn_inv_def rejectAllPending_def)

text \<open>Giving up the socket: the status is emitted and every pending request rejected.\<close>

lemma conn_inv_drop_socket [conn_intros]:
  "socket s = None \<Longrightarrow> (reconnectTimer s \<noteq> None \<longrightarrow> pendingSocket s = None \<and> connectPromise s = None) \<Longrightarrow>
   conn_inv (rejectAllPending e (emitStatus False s))"
  by (simp add: conn_inv_def rejectAllPending_def emitStatus_def)

lemma conn_inv_ensureConnectedStart [conn_intros]:
  "conn_inv s \<Longrightarrow> conn_inv (ensureConnectedStart dp s)"
  by (simp add: ensureConnectedStart_def conn_intros)

lemma conn_inv_beginRequest [conn_intros]: "conn_inv s \<Longrightarrow> conn_inv (beginRequest dp w m p s)"
  by (simp add: beginRequest_def Let_def conn_intros)

lemma conn_inv_sendRequest [conn_intros]:
  assumes "conn_inv s"
  shows "conn_inv (sendRequest w b s)"
proof -
  let ?s1 = "s\<lparr>waiting := map_del w (waiting s), requestCounter := Suc (requestCounter s)\<rparr>"
  have "conn_inv ?s1" using conn_inv_count [of "s\<lparr>waiting := map_del w (waiting s)\<rparr>"] assms by simp
  moreover have "socketOpen ?s1 \<Longrightarrow> socket ?s1 \<noteq> None" by (auto simp: socketOpen_def split: option.splits)
  ultimately show ?thesis
    using assms conn_inv_add_request [of ?s1] conn_inv_drop_request [of ?s1]
    by (auto simp: sendRequest_def Let_def split: option.splits)
qed

lemma conn_inv_scheduleReplay [conn_intros]: "conn_inv s \<Longrightarrow> conn_inv (scheduleReplay dp s)"
  by (simp add: scheduleReplay_def Let_def conn_intros)

lemma conn_inv_drainAndReplayGap [conn_intros]: "conn_inv s \<Longrightarrow> conn_inv (drainAndReplayGap dp s)"
  by (simp add: drainAndReplayGap_def drainPendingEvents_def Let_def conn_intros)

lemma frame_closing [simp, frame_simps]:
  "socket (closeOptionalSocket k s) = socket s"
  "pendingSocket (closeOptionalSocket k s) = pendingSocket s"
  "reconnectTimer (closeOptionalSocket k s) = reconnectTimer s"
  "connectPromise (closeOptionalSocket k s) = connectPromise s"
  by (simp_all add: connection_defs split: option.splits)

lemma conn_inv_resetRecoveryEpoch [conn_intros]: "conn_inv (resetRecoveryEpoch dp s)"
  by (simp add: resetRecoveryEpoch_def Let_def conn_inv_startConnect conn_inv_drop_socket)

lemma conn_inv_disconnect [conn_intros]: "conn_inv s \<Longrightarrow> conn_inv (disconnect s)"
  by (auto simp: disconnect_def Let_def conn_inv_drop_socket) (auto simp: conn_inv_def emitStatus_def)

lemma conn_inv_applyStreamIdentity [conn_intros]:
  "conn_inv s \<Longrightarrow> conn_inv (snd (applyStreamIdentity dp v sid s))"
  by (auto simp: applyStreamIdentity_def Let_def conn_intros split: option.splits list.splits)

lemma conn_inv_deliverNotification [conn_intros]:
  "conn_inv s \<Longrightarrow> conn_inv (snd (deliverNotification dp n i src s))"
  by (auto simp: deliverNotification_def deliverNumberedNotification_def drainOrReplayPendingEvents_def
      drainPendingEvents_def Let_def conn_intros split: option.splits)

lemma conn_inv_readNotification [conn_intros]:
  "conn_inv s \<Longrightarrow> conn_inv (snd (readNotification dp rec s))"
  by (auto simp: readNotification_def Let_def conn_intros split: option.splits list.splits)

lemma conn_inv_handleNotificationRecord [conn_intros]:
  assumes "conn_inv s"
  shows "conn_inv (handleNotificationRecord dp src rec s)"
  using conn_inv_readNotification [OF assms, of dp rec]
  by (auto simp: handleNotificationRecord_def scheduleConnectionReplay_def Let_def conn_intros
      split: prod.splits option.splits)

lemma conn_inv_applyReplayEvents [conn_intros]: "conn_inv s \<Longrightarrow> conn_inv (applyReplayEvents dp es s)"
  by (induction es arbitrary: s) (auto simp: applyReplayEvents_def conn_intros split: option.splits)

lemma conn_inv_finishReplay [simp]: "conn_inv (finishReplay k b s) = conn_inv s"
  by (simp add: finishReplay_def)

lemma conn_inv_processReplayPage [conn_intros]:
  assumes "conn_inv s"
  shows "conn_inv (processReplayPage dp k t resp s)"
proof -
  define s1 where "s1 = snd (applyStreamIdentity dp (readIntegerLike (dp_valibot dp) (field resp ''protocolVersion''))
      (readString (dp_valibot dp) (field resp ''streamId'')) s)"
  have "conn_inv s1" using assms by (simp add: s1_def conn_intros)
  moreover from this have "conn_inv (applyReplayEvents dp es s1)" for es by (rule conn_intros)
  ultimately show ?thesis
    unfolding processReplayPage_def Let_def s1_def [symmetric]
    by (auto split: option.splits intro!: conn_inv_beginRequest)
qed

lemma conn_inv_continueReplay [conn_intros]: "conn_inv s \<Longrightarrow> conn_inv (continueReplay dp k s)"
  by (auto simp: continueReplay_def conn_intros split: option.splits replay_phase.splits sum.splits)

lemma conn_inv_onReplaySettled [conn_intros]: "conn_inv s \<Longrightarrow> conn_inv (onReplaySettled dp k s)"
  by (auto simp: onReplaySettled_def Let_def conn_intros split: option.splits replay_phase.splits)

lemma conn_inv_handleIncoming [conn_intros]: "conn_inv s \<Longrightarrow> conn_inv (handleIncoming dp m s)"
  by (auto simp: handleIncoming_def Let_def conn_intros split: option.splits json.splits)

lemma conn_inv_onSocketOpen [conn_intros]: "conn_inv s \<Longrightarrow> conn_inv (onSocketOpen k s)"
  by (auto simp: onSocketOpen_def Let_def split: option.splits)
    (auto simp: conn_inv_def emitStatus_def update_attempt_def)

lemma conn_inv_onSocketClose [conn_intros]: "conn_inv s \<Longrightarrow> conn_inv (onSocketClose dp k s)"
  by (auto simp: onSocketClose_def Let_def split: option.splits
      intro!: conn_inv_scheduleReconnect conn_inv_drop_socket conn_inv_clear_pending)
    (auto simp: conn_inv_def update_attempt_def)

lemma conn_inv_onSocketError [conn_intros]: "conn_inv s \<Longrightarrow> conn_inv (onSocketError dp k s)"
  by (auto simp: onSocketError_def Let_def split: option.splits
      intro!: conn_inv_scheduleReconnect conn_inv_drop_socket conn_inv_clear_pending)
    (auto simp: conn_inv_def update_attempt_def closeSocket_def)

lemma conn_inv_step: "conn_inv s \<Longrightarrow> conn_inv (ws_step dp e s)"
  by (cases e)
    (auto simp: connect_def acknowledgeSnapshotRecovery_def onSocketMessage_def onReconnectTimer_def
      onConnectSettled_def ensureConnectedEnd_def onRequestTimeout_def waitForTurnCompletion_def
      onWaiterTimeout_def getTurnCompletion_def conn_intros Let_def split: option.splits)

lemma conn_inv_reachable: "ws_reachable dp s \<Longrightarrow> conn_inv s"
  by (induction rule: ws_reachable.induct) (auto simp: conn_inv_step, simp add: conn_inv_def newClient_def)

text \<open>
  C11. The connection invariant of every reachable state: never a live and a connecting socket at
  once; the status shown to the app is \<open>connected\<close> exactly while there is a live socket; a
  reconnect timer runs only when nothing else is connecting or connected; and a request awaits
  its answer only on a live socket (dropping the socket has settled all others).
\<close>

theorem connection_invariant:
  "(let s = ws_run dp es (newClient url opts)
    in (socket s = None \<or> pendingSocket s = None) \<and>
       connected s = (socket s \<noteq> None) \<and>
       (if reconnectTimer s = None then True
        else socket s = None \<and> pendingSocket s = None \<and> connectPromise s = None) \<and>
       (if pendingRequests s = [] then True else socket s \<noteq> None))"
proof -
  have "ws_reachable dp (ws_run dp es (newClient url opts))"
    by (intro ws_reachable_run ws_reachable.start)
  then have "conn_inv (ws_run dp es (newClient url opts))" by (rule conn_inv_reachable)
  then show ?thesis by (simp add: conn_inv_def Let_def)
qed


section \<open>Authentication of the socket\<close>

text \<open>
  The token leaves the device through one channel only. When query authentication is not
  both allowed by the options and supported by the platform, the URL of the socket does not
  depend on the token at all; the \<open>Authorization\<close> header carries it there except on the web,
  and carries nothing when the URL does.
\<close>

theorem token_channel:
  "(if allowQueryTokenAuth s \<and> dp_platform dp \<in> {''android'', ''web''}
    then authorizationHeader dp s = None
    else socketUrl dp (s\<lparr>authToken := tok\<rparr>) = socketUrl dp s \<and>
         authorizationHeader dp s =
           (if dp_platform dp = ''web'' then None else map_option (\<lambda>t. ''Bearer '' @ t) (authToken s)))"
  by (auto simp: authorizationHeader_def socketUrl_def shouldUseQueryTokenAuth_def Let_def
      split: option.splits)


section \<open>Reconnection\<close>

text \<open>
  Reconnect delays. With a jitter below 250 ms every delay lies between half a second and
  5.25 s, without jitter it doubles with every failed attempt until it reaches the cap of 5 s,
  and stays there.
\<close>

theorem reconnect_delay:
  assumes "dp_jitter dp timer < 250"
  shows "500 \<le> reconnectDelay dp attempt timer \<and> reconnectDelay dp attempt timer < 5250 \<and>
    reconnectDelay dp attempt timer - int (dp_jitter dp timer) =
      (if attempt < 4 then 500 * 2 ^ attempt else 5000)"
proof -
  have p: "(1 :: int) \<le> 2 ^ attempt" by simp
  have "(500 :: int) * 2 ^ attempt \<le> 5000" if "attempt < 4"
    using power_increasing [of attempt 3 "2 :: int"] that by simp
  moreover have "(5000 :: int) \<le> 500 * 2 ^ attempt" if "\<not> attempt < 4"
    using power_increasing [of 4 attempt "2 :: int"] that by simp
  ultimately show ?thesis
    using assms p by (auto simp: reconnectDelay_def min_def simp del: one_le_power)
qed

theorem reconnect_delay_witness:
  "reconnectDelay demo_deps 2 7 = 2100 \<and> reconnectDelay demo_deps 9 7 = 5100"
  using reconnect_delay [of demo_deps 7 2] reconnect_delay [of demo_deps 7 9]
  by (simp add: demo_deps_def)



text \<open>
  A new request never takes the identity of a pending one: in every reachable state, at
  whatever time the next request is sent, the map of pending requests has no entry under its id;
  so no request overwrites another and every answer settles the request it belongs to.
\<close>

theorem request_ids_fresh:
  "(let s = ws_run dp es (newClient url opts)
    in map_get (pendingRequests s) (JStr (requestId now (Suc (requestCounter s)))) = None)"
proof -
  have "ws_reachable dp (ws_run dp es (newClient url opts))"
    by (intro ws_reachable_run ws_reachable.start)
  then have "conn_inv (ws_run dp es (newClient url opts))" by (rule conn_inv_reachable)
  then have "JStr (requestId now (Suc (requestCounter (ws_run dp es (newClient url opts))))) \<notin>
      fst ` set (pendingRequests (ws_run dp es (newClient url opts)))"
    by (auto simp: conn_inv_def dest!: requestId_counter bspec)
  then show ?thesis by (simp add: Let_def map_of_eq_None_iff)
qed


section \<open>Turn completions\<close>

lemma map_get_prune:
  "map_wf m \<Longrightarrow>
   map_get (pruneTurnCompletions now m) k =
     (case map_get m k of
        None \<Rightarrow> None
      | Some c \<Rightarrow> if now - co_completedAt c > TURN_COMPLETION_TTL_MS then None else Some c)"
  unfolding pruneTurnCompletions_def
proof (induction m)
  case (Cons p m)
  then have "fst p \<notin> fst ` set m" by simp
  then have "map_get m (fst p) = None" by (simp add: map_of_eq_None_iff)
  with Cons show ?case by (cases p) (auto split: option.splits)
qed simp

lemma map_wf_prune [simp]: "map_wf m \<Longrightarrow> map_wf (pruneTurnCompletions now m)"
  by (simp add: pruneTurnCompletions_def)

lemma remember_get:
  assumes "co_turnId c = Some turn" "turn \<noteq> []"
  shows "map_get (rememberTurnCompletion now c m) (turnCompletionKey (co_threadId c) turn) = Some c"
  using assms by (simp add: rememberTurnCompletion_def map_get_put)

text \<open>
  A finished turn is remembered for five minutes. Once a completion is recorded, a lookup by
  thread and turn finds it as long as no more than \<open>TURN_COMPLETION_TTL_MS\<close> have passed,
  forgets it afterwards, and a caller that waits for the turn is settled at once with the outcome
  of the turn instead of being registered as a listener.
\<close>

theorem turn_completion_remembered:
  assumes "co_turnId c = Some turn" "turn \<noteq> []" "map_wf (recentTurnCompletions s)"
    and "recentTurnCompletions t = rememberTurnCompletion (clock s) c (recentTurnCompletions s)"
    and "clock t = co_completedAt c + d" "0 \<le> d"
  shows "fst (getTurnCompletion (co_threadId c) turn t) =
           (if d \<le> TURN_COMPLETION_TTL_MS then Some c else None) \<and>
         (if d \<le> TURN_COMPLETION_TTL_MS
          then waiters (waitForTurnCompletion (co_threadId c) turn ms t) = waiters t \<and>
               outs (waitForTurnCompletion (co_threadId c) turn ms t) =
                 outs t @ [SettleWaiter (fresh t) (assertTurnSucceeded c)]
          else outs (waitForTurnCompletion (co_threadId c) turn ms t) = outs t)"
proof -
  have "map_wf (recentTurnCompletions t)"
    using assms by (simp add: rememberTurnCompletion_def)
  then have "map_get (pruneTurnCompletions (clock t) (recentTurnCompletions t))
      (turnCompletionKey (co_threadId c) turn) = (if d \<le> TURN_COMPLETION_TTL_MS then Some c else None)"
    using remember_get [OF assms(1,2)] assms(4,5) by (simp add: map_get_prune)
  then show ?thesis
    by (simp add: getTurnCompletion_def waitForTurnCompletion_def Let_def)
qed

definition demo_completion :: turn_completion where
  "demo_completion = \<lparr>co_threadId = ''t'', co_turnId = Some ''u'', co_status = Some ''completed'',
     co_errorMessage = None, co_completedAt = 0\<rparr>"

theorem turn_completion_remembered_witness:
  "outs (waitForTurnCompletion ''t'' ''u'' None
      (demo_client\<lparr>recentTurnCompletions := rememberTurnCompletion 0 demo_completion [],
                   clock := 300000\<rparr>)) = [SettleWaiter 0 None]"
  using turn_completion_remembered [of demo_completion "''u''" demo_client
      "demo_client\<lparr>recentTurnCompletions := rememberTurnCompletion 0 demo_completion [], clock := 300000\<rparr>"
      300000]
  by (simp add: demo_defs demo_completion_def TURN_COMPLETION_TTL_MS_def assertTurnSucceeded_def
      isFailedTurnStatus_def)


section \<open>Bounds of the recovery buffer\<close>

lemma length_pending_drainOrReplay:
  assumes "recoveryWatermark s \<noteq> None"
  shows "pendingEvents (drainOrReplayPendingEvents dp src s) = pendingEvents s"
  using barrier_drainOrReplay [OF assms, of dp src] by (simp add: quiet_def)

lemma resetRecoveryEpoch_pending [simp]: "pendingEvents (resetRecoveryEpoch dp s) = []"
proof -
  have "pendingEvents (startConnect dp t) = pendingEvents t"
    "pendingEvents (closeOptionalSocket k t) = pendingEvents t"
    "pendingEvents (rejectAllPending e t) = pendingEvents t"
    "pendingEvents (emitStatus b t) = pendingEvents t" for t k e b
    using quiet_startConnect quiet_closeOptionalSocket quiet_rejectAllPending quiet_emitStatus
    by (simp_all add: quiet_def)
  then show ?thesis by (simp add: resetRecoveryEpoch_def Let_def)
qed

text \<open>
  The recovery buffer is bounded: while a snapshot is outstanding, a numbered event is either
  buffered within the limit of 2048 events, or the recovery epoch restarts with an empty buffer,
  an outstanding watermark of 0 and the request for a fresh baseline.
\<close>

theorem recovery_buffer_bounded:
  assumes "barrier s" "length (pendingEvents s) \<le> MAX_RECOVERY_BUFFERED_EVENTS" "n_eventId n = Some i"
    and "deliverNumberedNotification dp n i src s = (ok, t)"
  shows "length (pendingEvents t) \<le> MAX_RECOVERY_BUFFERED_EVENTS \<and>
    (if i \<le> lastSeenEventId s \<or> map_has (pendingEvents s) i then \<not> ok \<and> t = s
     else if length (pendingEvents s) < MAX_RECOVERY_BUFFERED_EVENTS
     then ok \<and> pendingEvents t = pendingEvents s @ [(i, n)]
     else \<not> ok \<and> pendingEvents t = [] \<and> recoveryWatermark t = Some 0 \<and>
          awaitingFreshRecoveryBaseline t)"
proof -
  have w: "recoveryWatermark s \<noteq> None" using assms(1) by (simp add: barrier_def)
  have l: "length (map_put i n (pendingEvents s)) = Suc (length (pendingEvents s))"
    if "map_get (pendingEvents s) i = None" using that by (simp add: length_map_put)
  show ?thesis
    using assms w l
    by (auto simp: deliverNumberedNotification_def barrier_def hasRecoveryBufferOverflow_def Let_def
        length_pending_drainOrReplay map_put_absent split: if_splits)
qed

theorem recovery_buffer_bounded_witness:
  "pendingEvents (snd (deliverNumberedNotification demo_deps (demo_note 7) 7 Live
      (demo_client\<lparr>recoveryWatermark := Some 5, lastSeenEventId := 5\<rparr>))) = [(7, demo_note 7)]"
  using recovery_buffer_bounded [OF _ _ _ prod.collapse [symmetric],
      of "demo_client\<lparr>recoveryWatermark := Some 5, lastSeenEventId := 5\<rparr>" "demo_note 7" 7 demo_deps Live]
  by (simp add: demo_defs barrier_def MAX_RECOVERY_BUFFERED_EVENTS_def)


section \<open>Two corner cases of recovery\<close>

text \<open>
  A change of stream does not raise the barrier: the client asks for a snapshot with
  watermark 0, and the next numbered event of the new stream is delivered at once, before the
  acknowledgement.
\<close>

theorem stream_change_delivers_before_ack:
  "(let s = ws_run demo_deps
      [CallConnect, SocketOpened 0, SocketMessage 0 (demo_event ''a'' 5),
       SocketMessage 0 (demo_event ''b'' 9)] demo_client
    in recoveryWatermark s = Some 0 \<and> delivered_ids (outs s) = [5, 9])"
  by code_simp

definition demo_stranding_run :: "ws_event list" where
  "demo_stranding_run =
     [CallConnect, CallResetRecoveryEpoch, SocketOpened 1,
      SocketMessage 1 (demo_event ''s'' 5), SocketMessage 1 (demo_event ''s'' 6),
      EnsureConnectedResumes (ReplayOf 2) None, RequestResumes (ReplayOf 2) True,
      CallAcknowledge 0, SocketMessage 1 (demo_event ''s'' 7),
      SocketMessage 1 (Some (JObj [(''id'', JStr ''0-1''),
        (''result'', JObj [(''protocolVersion'', JNum 2), (''streamId'', JStr ''s''),
          (''earliestEventId'', JNum 1), (''latestEventId'', JNum 7), (''hasMore'', JBool False),
          (''events'', JArr (map (\<lambda>i. the (demo_event ''s'' i)) [1, 2, 3, 4, 5, 6, 7]))])])),
      ReplayResumes 2, ReplaySettled 2]"

text \<open>
  A live event can strand the buffer after a recovery. When the recovery epoch restarted at 0
  and its snapshot is acknowledged while events 5 and 6 are buffered, the client asks for a
  replay; a live event 7 that arrives before the answer is taken as a new baseline and delivered
  at once. Events 5 and 6 are never delivered (they are at most \<open>lastSeenEventId\<close>), they stay in
  the buffer, and when the replay has finished with everything up to 7 the client starts
  another one because of them.
\<close>

theorem live_baseline_strands_buffer:
  "(let s = ws_run demo_deps demo_stranding_run demo_client
    in delivered_ids (outs s) = [7] \<and> lastSeenEventId s = 7 \<and>
       map fst (pendingEvents s) = [5, 6] \<and> recoveryWatermark s = None \<and>
       replayInFlight s = Some 3)"
  by code_simp

end
