(* ===== verification/CompactDiff.thy ===== *)
theory CompactDiff
  imports Prelude "HOL-Library.Word"
begin

text \<open>
  The compact diff of a tool result, \<^verbatim>\<open>shared/diff/compactDiff.ts\<close>: common prefix and suffix, the
  matrix of longest common subsequences (16-bit cells), the walk that turns it into an edit
  script, the selection of at most 40 changed lines with their context, and the bounded cache.

  An exception of the source is the value \<^const>\<open>None\<close> of the walk and of the selection.
\<close>

section \<open>Lines\<close>

datatype diff_kind = DContext | DAdd | DRemove

record diff_line =
  dl_kind :: diff_kind
  dl_prefix :: char
  dl_content :: string

record compact_diff =
  cd_lines :: "diff_line list"
  cd_additions :: nat
  cd_deletions :: nat
  cd_omittedChangedLines :: int
  cd_unavailable :: bool

definition CONTEXT_LINES :: nat where "CONTEXT_LINES = 3"
definition MAX_RENDERED_CHANGED_LINES :: nat where "MAX_RENDERED_CHANGED_LINES = 40"
definition MAX_LCS_CELLS :: nat where "MAX_LCS_CELLS = 1000000"
definition MAX_CACHE_ENTRIES :: nat where "MAX_CACHE_ENTRIES = 64"
definition ACP_STRUCTURED_STRING_LIMIT :: nat where "ACP_STRUCTURED_STRING_LIMIT = 16 * 1024"
definition TRUNCATION_GUARD_BYTES :: nat where "TRUNCATION_GUARD_BYTES = 8"

definition diff_line_of :: "diff_kind \<Rightarrow> char \<Rightarrow> string \<Rightarrow> diff_line" where
  "diff_line_of k p c = \<lparr>dl_kind = k, dl_prefix = p, dl_content = c\<rparr>"

definition unavailableDiff :: compact_diff where
  "unavailableDiff = \<lparr>cd_lines = [], cd_additions = 0, cd_deletions = 0,
     cd_omittedChangedLines = 0, cd_unavailable = True\<rparr>"

definition looksStructurallyTruncated :: "string option \<Rightarrow> bool" where
  "looksStructurallyTruncated v \<longleftrightarrow>
     (case v of None \<Rightarrow> False | Some s \<Rightarrow> length s \<ge> ACP_STRUCTURED_STRING_LIMIT - TRUNCATION_GUARD_BYTES)"

definition CR :: char where "CR = CHR 0x0D"
definition LF :: char where "LF = CHR 0x0A"

definition splitLines :: "string \<Rightarrow> string list" where
  "splitLines value =
     (let lines = split_on LF (replace_all [CR] [LF] (replace_all [CR, LF] [LF] value))
      in if last lines = [] then butlast lines else lines)"

fun prefix_loop :: "nat \<Rightarrow> string list \<Rightarrow> string list \<Rightarrow> nat \<Rightarrow> nat" where
  "prefix_loop 0 left right index = index"
| "prefix_loop (Suc n) left right index =
     (if left ! index = right ! index then prefix_loop n left right (Suc index) else index)"

text \<open>The loop runs while \<open>index < limit\<close>; the first argument is \<open>limit - index\<close>.\<close>

definition commonPrefixLength :: "string list \<Rightarrow> string list \<Rightarrow> nat" where
  "commonPrefixLength left right = prefix_loop (min (length left) (length right)) left right 0"

fun suffix_loop :: "nat \<Rightarrow> string list \<Rightarrow> string list \<Rightarrow> nat \<Rightarrow> nat" where
  "suffix_loop 0 left right count = count"
| "suffix_loop (Suc n) left right count =
     (if left ! (length left - 1 - count) = right ! (length right - 1 - count)
      then suffix_loop n left right (Suc count) else count)"

definition commonSuffixLength :: "string list \<Rightarrow> string list \<Rightarrow> nat \<Rightarrow> nat" where
  "commonSuffixLength left right prefixLength =
     suffix_loop (min (length left) (length right) - prefixLength) left right 0"


section \<open>The matrix\<close>

definition at16 :: "16 word list \<Rightarrow> nat \<Rightarrow> 16 word" where
  "at16 row j = (if j < length row then row ! j else 0)"

text \<open>The inner loop, for \<open>newIndex\<close> from the first argument minus one down to 0.\<close>

fun fill_row :: "nat \<Rightarrow> string \<Rightarrow> string list \<Rightarrow> 16 word list \<Rightarrow> 16 word list \<Rightarrow> 16 word list" where
  "fill_row 0 x new next row = row"
| "fill_row (Suc j) x new next row =
     fill_row j x new next
       (row[j := if x = new ! j then at16 next (j + 1) + 1 else max (at16 next j) (at16 row (j + 1))])"

text \<open>The outer loop, for \<open>oldIndex\<close> likewise.\<close>

fun fill_rows :: "nat \<Rightarrow> string list \<Rightarrow> string list \<Rightarrow> 16 word list list \<Rightarrow> 16 word list list" where
  "fill_rows 0 old new m = m"
| "fill_rows (Suc i) old new m =
     fill_rows i old new (m[i := fill_row (length new) (old ! i) new (m ! (i + 1)) (m ! i)])"

definition buildLcsMatrix :: "string list \<Rightarrow> string list \<Rightarrow> 16 word list list option" where
  "buildLcsMatrix old new =
     (if (length old + 1) * (length new + 1) > MAX_LCS_CELLS then None
      else Some (fill_rows (length old) old new
                   (replicate (length old + 1) (replicate (length new + 1) 0))))"

definition matrix_at :: "16 word list list \<Rightarrow> nat \<Rightarrow> nat \<Rightarrow> 16 word" where
  "matrix_at m i j = (if i < length m then at16 (m ! i) j else 0)"


section \<open>The walk\<close>

definition nth_opt :: "'a list \<Rightarrow> nat \<Rightarrow> 'a option" where
  "nth_opt xs i = (if i < length xs then Some (xs ! i) else None)"

function walk ::
  "string list \<Rightarrow> string list \<Rightarrow> 16 word list list \<Rightarrow> nat \<Rightarrow> nat \<Rightarrow> diff_line list \<Rightarrow> diff_line list option" where
  "walk old new m i j ops =
     (if i < length old \<or> j < length new
      then (case (nth_opt old i, nth_opt new j) of
              (Some x, Some y) \<Rightarrow>
                if x = y then walk old new m (Suc i) (Suc j) (ops @ [diff_line_of DContext CHR '' '' x])
                else if matrix_at m (i + 1) j \<ge> matrix_at m i (j + 1)
                then walk old new m (Suc i) j (ops @ [diff_line_of DRemove CHR ''-'' x])
                else walk old new m i (Suc j) (ops @ [diff_line_of DAdd CHR ''+'' y])
            | (Some x, None) \<Rightarrow> walk old new m (Suc i) j (ops @ [diff_line_of DRemove CHR ''-'' x])
            | (None, Some y) \<Rightarrow> walk old new m i (Suc j) (ops @ [diff_line_of DAdd CHR ''+'' y])
            | (None, None) \<Rightarrow> None)
      else Some ops)"
  by pat_completeness auto
termination
  by (relation "measure (\<lambda>(old, new, m, i, j, ops). (length old - i) + (length new - j))")
    (auto simp: nth_opt_def split: if_splits)

declare walk.simps [simp del]

definition walkLineOperations ::
  "string list \<Rightarrow> string list \<Rightarrow> 16 word list list \<Rightarrow> diff_line list option" where
  "walkLineOperations old new m = walk old new m 0 0 []"

text \<open>The inner option is the value \<open>null\<close> of a matrix that would be too large.\<close>

definition buildLineOperations ::
  "string list \<Rightarrow> string list \<Rightarrow> diff_line list option option" where
  "buildLineOperations old new =
     (case buildLcsMatrix old new of
        None \<Rightarrow> Some None
      | Some m \<Rightarrow> map_option Some (walkLineOperations old new m))"


section \<open>The selection of changed lines\<close>

definition operationIndexes :: "diff_line list \<Rightarrow> diff_kind \<Rightarrow> nat list" where
  "operationIndexes ops kind = filter (\<lambda>i. dl_kind (ops ! i) = kind) [0..<length ops]"

record selection =
  sel_lines :: "diff_line list"
  sel_shownChangedLines :: nat
  sel_omittedBefore :: bool
  sel_omittedAfter :: bool

fun render_indexes :: "diff_line list \<Rightarrow> nat option \<Rightarrow> nat list \<Rightarrow> diff_line list option" where
  "render_indexes ops prev [] = Some []"
| "render_indexes ops prev (i # is) =
     (case nth_opt ops i of
        None \<Rightarrow> None
      | Some op \<Rightarrow>
          map_option
            (\<lambda>rest. (if (case prev of None \<Rightarrow> False | Some p \<Rightarrow> i > p + 1)
                     then [diff_line_of DContext CHR '' '' ''...''] else []) @ op # rest)
            (render_indexes ops (Some i) is))"

definition removalLimit :: "nat \<Rightarrow> nat \<Rightarrow> nat" where
  "removalLimit nr na =
     (let r1 = min nr ((MAX_RENDERED_CHANGED_LINES + 1) div 2);
          a1 = min na (MAX_RENDERED_CHANGED_LINES - r1)
      in min nr (MAX_RENDERED_CHANGED_LINES - a1))"

definition additionLimit :: "nat \<Rightarrow> nat \<Rightarrow> nat" where
  "additionLimit nr na = min na (MAX_RENDERED_CHANGED_LINES - removalLimit nr na)"

definition selectedChanges :: "diff_line list \<Rightarrow> nat list" where
  "selectedChanges ops =
     (let rs = operationIndexes ops DRemove; as = operationIndexes ops DAdd
      in remdups (take (removalLimit (length rs) (length as)) rs @
                  take (additionLimit (length rs) (length as)) as))"

definition context_around :: "diff_line list \<Rightarrow> nat \<Rightarrow> nat list" where
  "context_around ops i =
     filter (\<lambda>k. dl_kind (ops ! k) = DContext)
       [i - CONTEXT_LINES..<Suc (min (length ops - 1) (i + CONTEXT_LINES))]"

definition orderedIndexes :: "diff_line list \<Rightarrow> nat list" where
  "orderedIndexes ops =
     sort (remdups (selectedChanges ops @ concat (map (context_around ops) (selectedChanges ops))))"

definition compactOperations :: "diff_line list \<Rightarrow> selection option" where
  "compactOperations ops =
     (let idx = orderedIndexes ops
      in map_option
           (\<lambda>ls. \<lparr>sel_lines = ls, sel_shownChangedLines = length (selectedChanges ops),
                   sel_omittedBefore = (idx \<noteq> [] \<and> hd idx > 0),
                   sel_omittedAfter = (idx \<noteq> [] \<and> last idx < length ops - 1)\<rparr>)
           (render_indexes ops None idx))"


section \<open>The diff and its cache\<close>

definition kind_count :: "diff_kind \<Rightarrow> diff_line list \<Rightarrow> nat" where
  "kind_count k ops = length (filter (\<lambda>l. dl_kind l = k) ops)"

definition slice :: "'a list \<Rightarrow> nat \<Rightarrow> nat \<Rightarrow> 'a list" where
  "slice xs a b = drop a (take b xs)"

definition computeCompactDiff :: "string option \<Rightarrow> string \<Rightarrow> compact_diff option" where
  "computeCompactDiff oldText newText =
     (if looksStructurallyTruncated oldText \<or> looksStructurallyTruncated (Some newText)
      then Some unavailableDiff
      else
        let oldLines = (case oldText of None \<Rightarrow> [] | Some t \<Rightarrow> splitLines t);
            newLines = splitLines newText;
            p = commonPrefixLength oldLines newLines;
            q = commonSuffixLength oldLines newLines p;
            oldChanged = slice oldLines p (length oldLines - q);
            newChanged = slice newLines p (length newLines - q)
        in if oldChanged = [] \<and> newChanged = []
           then Some \<lparr>cd_lines = [], cd_additions = 0, cd_deletions = 0,
                      cd_omittedChangedLines = 0, cd_unavailable = False\<rparr>
           else
             (case buildLineOperations oldChanged newChanged of
                None \<Rightarrow> None
              | Some None \<Rightarrow> Some unavailableDiff
              | Some (Some ops) \<Rightarrow>
                  map_option
                    (\<lambda>shown.
                       \<lparr>cd_lines =
                          map (diff_line_of DContext CHR '' '') (slice oldLines (p - CONTEXT_LINES) p) @
                          (if sel_omittedBefore shown then [diff_line_of DContext CHR '' '' ''...''] else []) @
                          sel_lines shown @
                          (if sel_omittedAfter shown then [diff_line_of DContext CHR '' '' ''...''] else []) @
                          map (diff_line_of DContext CHR '' '')
                            (slice newLines (length newLines - q)
                               (min (length newLines) (length newLines - q + CONTEXT_LINES))),
                        cd_additions = kind_count DAdd ops, cd_deletions = kind_count DRemove ops,
                        cd_omittedChangedLines =
                          int (kind_count DAdd ops) + int (kind_count DRemove ops)
                          - int (sel_shownChangedLines shown),
                        cd_unavailable = False\<rparr>)
                    (compactOperations ops)))"

record diff_cache =
  dc_map :: "(string option, (string, compact_diff) jsmap) jsmap"
  dc_order :: "(string option \<times> string) list"

definition cache_get :: "diff_cache \<Rightarrow> string option \<Rightarrow> string \<Rightarrow> compact_diff option" where
  "cache_get c old new = Option.bind (map_get (dc_map c) old) (\<lambda>m. map_get m new)"

definition cache_evict :: "diff_cache \<Rightarrow> diff_cache" where
  "cache_evict c =
     (case dc_order c of
        [] \<Rightarrow> c
      | (old, new) # rest \<Rightarrow>
          (case map_get (dc_map c) old of
             None \<Rightarrow> c\<lparr>dc_order := rest\<rparr>
           | Some m \<Rightarrow>
               let m' = map_del new m
               in c\<lparr>dc_order := rest,
                    dc_map := (if m' = [] then map_del old (dc_map c) else map_put old m' (dc_map c))\<rparr>))"

definition cacheCompactDiff ::
  "string option \<Rightarrow> string \<Rightarrow> compact_diff \<Rightarrow> diff_cache \<Rightarrow> diff_cache" where
  "cacheCompactDiff old new d c =
     (let byNew = (case map_get (dc_map c) old of None \<Rightarrow> [] | Some m \<Rightarrow> m);
          c1 = c\<lparr>dc_map := map_put old (map_put new d byNew) (dc_map c),
                 dc_order := dc_order c @ [(old, new)]\<rparr>
      in if length (dc_order c1) \<le> MAX_CACHE_ENTRIES then c1 else cache_evict c1)"

definition buildCompactDiff ::
  "string option \<Rightarrow> string \<Rightarrow> diff_cache \<Rightarrow> (compact_diff \<times> diff_cache) option" where
  "buildCompactDiff old new c =
     (case cache_get c old new of
        Some d \<Rightarrow> Some (d, c)
      | None \<Rightarrow> map_option (\<lambda>d. (d, cacheCompactDiff old new d c)) (computeCompactDiff old new))"

end
