(* ===== verification/CompactDiffCorrect.thy ===== *)
theory CompactDiffCorrect
  imports CompactDiff
begin

text \<open>
  Correctness of the compact diff: the matrix holds the lengths of longest common subsequences
  without overflow of its 16-bit cells, the walk yields a shortest edit script from the old to
  the new lines, the selection shows at most 40 changed lines, and the cache is transparent and
  bounded.
\<close>

section \<open>Longest common subsequences\<close>

fun lcs :: "'a list \<Rightarrow> 'a list \<Rightarrow> nat" where
  "lcs [] ys = 0"
| "lcs (x # xs) [] = 0"
| "lcs (x # xs) (y # ys) =
     (if x = y then Suc (lcs xs ys) else max (lcs xs (y # ys)) (lcs (x # xs) ys))"

lemma lcs_Nil2 [simp]: "lcs xs [] = 0"
  by (cases xs) auto

lemma lcs_upper: "subseq zs xs \<Longrightarrow> subseq zs ys \<Longrightarrow> length zs \<le> lcs xs ys"
proof (induction xs ys arbitrary: zs rule: lcs.induct)
  case (3 x xs y ys)
  show ?case
  proof (cases zs)
    case (Cons z zs')
    have 1: "subseq zs xs" if "z \<noteq> x" using 3(4) that Cons by simp
    have 2: "subseq zs ys" if "z \<noteq> y" using 3(5) that Cons by simp
    show ?thesis
    proof (cases "x = y")
      case True
      have "subseq zs' xs" "subseq zs' ys"
        using 3(4,5) Cons by (auto simp: subseq_Cons' split: if_splits)
      with 3(1) [OF True] have "length zs' \<le> lcs xs ys" by blast
      with True Cons show ?thesis by simp
    next
      case False
      then show ?thesis
        using 3(2) [OF False, of zs] 3(3) [OF False, of zs] 3(4,5) 1 2 by (cases "z = x") auto
    qed
  qed simp
qed simp_all

lemma lcs_attained: "\<exists>zs. subseq zs xs \<and> subseq zs ys \<and> length zs = lcs xs ys"
proof (induction xs ys rule: lcs.induct)
  case (3 x xs y ys)
  show ?case
  proof (cases "x = y")
    case True
    then show ?thesis using 3(1) by (auto intro: exI [of _ "x # _"])
  next
    case False
    then obtain zs1 zs2 where
      "subseq zs1 xs" "subseq zs1 (y # ys)" "length zs1 = lcs xs (y # ys)"
      "subseq zs2 (x # xs)" "subseq zs2 ys" "length zs2 = lcs (x # xs) ys"
      using 3(2,3) by blast
    then show ?thesis
      using False by (cases "lcs xs (y # ys) \<le> lcs (x # xs) ys") (auto simp: max_def intro: exI [of _ zs1] exI [of _ zs2])
  qed
qed auto

lemma lcs_le: "lcs xs ys \<le> length xs" "lcs xs ys \<le> length ys"
  using lcs_attained [of xs ys] by (auto dest: list_emb_length)

lemma subseq_reversed: "subseq xs ys \<Longrightarrow> subseq (rev xs) (rev ys)"
  by (induction rule: list_emb.induct) (auto intro: list_emb_append_mono subseq_rev_drop_many)

lemma lcs_rev: "lcs (rev xs) (rev ys) = lcs xs ys"
proof -
  have le: "lcs (rev xs) (rev ys) \<le> lcs xs ys" for xs ys :: "'a list"
  proof -
    obtain zs where "subseq zs (rev xs)" "subseq zs (rev ys)" "length zs = lcs (rev xs) (rev ys)"
      using lcs_attained by blast
    then have "subseq (rev zs) xs" "subseq (rev zs) ys" by (metis subseq_reversed rev_rev_ident)+
    then show ?thesis using lcs_upper \<open>length zs = _\<close> by (metis length_rev)
  qed
  from le [of xs ys] le [of "rev xs" "rev ys"] show ?thesis by simp
qed

lemma lcs_same_prefix: "lcs (ps @ xs) (ps @ ys) = length ps + lcs xs ys"
  by (induction ps) auto

lemma lcs_same_suffix: "lcs (xs @ ss) (ys @ ss) = lcs xs ys + length ss"
  using lcs_rev [of "xs @ ss" "ys @ ss"] lcs_rev [of xs ys] lcs_same_prefix [of "rev ss"] by simp


section \<open>The matrix\<close>

lemma length_fill_row [simp]: "length (fill_row j x new next row) = length row"
  by (induction j arbitrary: row) auto

lemma length_fill_rows [simp]: "length (fill_rows i old new m) = length m"
  by (induction i arbitrary: m) auto

definition row_ok :: "string list \<Rightarrow> string list \<Rightarrow> 16 word list \<Rightarrow> nat \<Rightarrow> bool" where
  "row_ok xs new row j \<longleftrightarrow>
     length row = Suc (length new) \<and> (\<forall>k. j \<le> k \<and> k \<le> length new \<longrightarrow> unat (row ! k) = lcs xs (drop k new))"

lemma fill_row_ok:
  assumes "row_ok xs new next 0" "row_ok (x # xs) new row j" "j \<le> length new"
    and "length xs < 65535 \<or> length new < 65535"
  shows "row_ok (x # xs) new (fill_row j x new next row) 0"
  using assms(2,3)
proof (induction j arbitrary: row)
  case (Suc j)
  let ?v = "if x = new ! j then at16 next (j + 1) + 1 else max (at16 next j) (at16 row (j + 1))"
  have l: "length next = Suc (length new)" "length row = Suc (length new)"
    using assms(1) Suc.prems by (auto simp: row_ok_def)
  have n: "unat (next ! k) = lcs xs (drop k new)" if "k \<le> length new" for k
    using assms(1) that by (simp add: row_ok_def)
  have r: "unat (row ! k) = lcs (x # xs) (drop k new)" if "Suc j \<le> k" "k \<le> length new" for k
    using Suc.prems that by (simp add: row_ok_def)
  have d: "drop j new = new ! j # drop (Suc j) new"
    using Suc.prems by (simp add: Cons_nth_drop_Suc)
  have "lcs xs (drop (Suc j) new) < 65535"
    using lcs_le [of xs "drop (Suc j) new"] assms(4) by auto
  then have "unat (next ! Suc j + 1) = Suc (lcs xs (drop (Suc j) new))"
    using n [of "Suc j"] Suc.prems by (simp add: unat_word_ariths)
  then have "unat ?v = lcs (x # xs) (drop j new)"
    using Suc.prems n [of j] n [of "Suc j"] r [of "Suc j"] l d
    by (auto simp: at16_def max_def word_le_nat_alt)
  then have "row_ok (x # xs) new (row[j := ?v]) j"
    using Suc.prems l r by (auto simp: row_ok_def nth_list_update le_Suc_eq Suc_le_eq not_less_eq_eq)
  then show ?case using Suc by simp
qed simp

definition rows_ok :: "string list \<Rightarrow> string list \<Rightarrow> 16 word list list \<Rightarrow> nat \<Rightarrow> bool" where
  "rows_ok old new m i \<longleftrightarrow>
     length m = Suc (length old) \<and> (\<forall>r \<in> set m. length r = Suc (length new)) \<and>
     (\<forall>k. k < i \<longrightarrow> last (m ! k) = 0) \<and>
     (\<forall>k. i \<le> k \<and> k \<le> length old \<longrightarrow> row_ok (drop k old) new (m ! k) 0)"

lemma fill_rows_ok:
  assumes "rows_ok old new m i" "i \<le> length old" "length old < 65535 \<or> length new < 65535"
  shows "rows_ok old new (fill_rows i old new m) 0"
  using assms(1,2)
proof (induction i arbitrary: m)
  case (Suc i)
  have l: "length m = Suc (length old)" "length (m ! i) = Suc (length new)"
    using Suc.prems by (auto simp: rows_ok_def)
  have d: "drop i old = old ! i # drop (Suc i) old" using Suc.prems by (simp add: Cons_nth_drop_Suc)
  have "row_ok (drop (Suc i) old) new (m ! Suc i) 0" using Suc.prems by (simp add: rows_ok_def)
  moreover have "last (m ! i) = 0" using Suc.prems by (simp add: rows_ok_def)
  then have "m ! i ! length new = 0" using l by (simp add: last_conv_nth flip: length_greater_0_conv)
  then have "row_ok (drop i old) new (m ! i) (length new)" using l by (auto simp: row_ok_def le_antisym)
  moreover have "length (drop (Suc i) old) < 65535 \<or> length new < 65535" using assms(3) by auto
  ultimately have "row_ok (drop i old) new (fill_row (length new) (old ! i) new (m ! (i + 1)) (m ! i)) 0"
    unfolding d using fill_row_ok [of "drop (Suc i) old" new "m ! Suc i" "old ! i" "m ! i" "length new"] by simp
  then have "rows_ok old new (m[i := fill_row (length new) (old ! i) new (m ! (i + 1)) (m ! i)]) i"
    using Suc.prems l
    by (auto simp: rows_ok_def nth_list_update le_Suc_eq Suc_le_eq dest!: set_update_subset_insert [THEN subsetD])
  then show ?case using Suc by simp
qed simp

lemma cells_bound: "(a + 1) * (b + 1) \<le> (1000000 :: nat) \<Longrightarrow> a < 65535 \<or> b < 65535"
proof (rule ccontr)
  assume "(a + 1) * (b + 1) \<le> (1000000 :: nat)" "\<not> (a < 65535 \<or> b < 65535)"
  moreover from this have "65536 * 65536 \<le> (a + 1) * (b + 1)" by (intro mult_le_mono) auto
  ultimately show False by simp
qed

lemma buildLcsMatrix_ok:
  assumes "buildLcsMatrix old new = Some m"
  shows "rows_ok old new m 0"
proof -
  have "length old < 65535 \<or> length new < 65535"
    using assms cells_bound by (auto simp: buildLcsMatrix_def MAX_LCS_CELLS_def split: if_splits)
  moreover have "rows_ok old new (replicate (length old + 1) (replicate (length new + 1) 0)) (length old)"
    by (auto simp: rows_ok_def row_ok_def last_replicate nth_append simp del: replicate_Suc
        simp flip: replicate_append_same)
  ultimately show ?thesis
    using assms fill_rows_ok by (auto simp: buildLcsMatrix_def split: if_splits)
qed

text \<open>
  The matrix is right. Whenever the matrix is built (at most a million cells), its cell in
  row \<open>i\<close> and column \<open>j\<close> is the length of a longest common subsequence of the old lines from \<open>i\<close>
  and the new lines from \<open>j\<close>; the 16-bit cells never wrap around.
\<close>

theorem lcs_matrix_correct:
  assumes "buildLcsMatrix old new = Some m" "i \<le> length old" "j \<le> length new"
  shows "(\<exists>zs. subseq zs (drop i old) \<and> subseq zs (drop j new) \<and> length zs = unat (matrix_at m i j)) \<and>
    (\<forall>zs. subseq zs (drop i old) \<and> subseq zs (drop j new) \<longrightarrow> length zs \<le> unat (matrix_at m i j))"
proof -
  have "unat (matrix_at m i j) = lcs (drop i old) (drop j new)"
    using buildLcsMatrix_ok [OF assms(1)] assms(2,3)
    by (auto simp: rows_ok_def row_ok_def matrix_at_def at16_def)
  then show ?thesis using lcs_attained lcs_upper by metis
qed

theorem lcs_matrix_correct_witness:
  "\<exists>m zs. buildLcsMatrix [''a'', ''b''] [''b'', ''c''] = Some m \<and>
     subseq zs [''a'', ''b''] \<and> subseq zs [''b'', ''c''] \<and> length zs = unat (matrix_at m 0 0)"
proof -
  obtain m where m: "buildLcsMatrix [''a'', ''b''] [''b'', ''c''] = Some m"
    by (simp add: buildLcsMatrix_def MAX_LCS_CELLS_def)
  from lcs_matrix_correct [OF m, of 0 0] m show ?thesis by auto
qed


section \<open>The walk\<close>

definition old_of :: "diff_line list \<Rightarrow> string list" where
  "old_of ops = map dl_content (filter (\<lambda>l. dl_kind l \<noteq> DAdd) ops)"

definition new_of :: "diff_line list \<Rightarrow> string list" where
  "new_of ops = map dl_content (filter (\<lambda>l. dl_kind l \<noteq> DRemove) ops)"

lemma old_new_of_simps [simp]:
  "old_of [] = []" "new_of [] = []"
  "old_of (ops @ ops') = old_of ops @ old_of ops'" "new_of (ops @ ops') = new_of ops @ new_of ops'"
  "old_of [diff_line_of DContext p c] = [c]" "new_of [diff_line_of DContext p c] = [c]"
  "old_of [diff_line_of DRemove p c] = [c]" "new_of [diff_line_of DRemove p c] = []"
  "old_of [diff_line_of DAdd p c] = []" "new_of [diff_line_of DAdd p c] = [c]"
  by (simp_all add: old_of_def new_of_def diff_line_of_def)

lemma kind_count_simps [simp]:
  "kind_count k [] = 0" "kind_count k (xs @ ys) = kind_count k xs + kind_count k ys"
  "kind_count k [diff_line_of k' p c] = (if k = k' then 1 else 0)"
  by (simp_all add: kind_count_def diff_line_of_def)

text \<open>The edit script on the remaining lines, without indices and without the matrix.\<close>

fun script :: "string list \<Rightarrow> string list \<Rightarrow> diff_line list" where
  "script [] ys = map (diff_line_of DAdd CHR ''+'') ys"
| "script (x # xs) [] = diff_line_of DRemove CHR ''-'' x # script xs []"
| "script (x # xs) (y # ys) =
     (if x = y then diff_line_of DContext CHR '' '' x # script xs ys
      else if lcs xs (y # ys) \<ge> lcs (x # xs) ys
      then diff_line_of DRemove CHR ''-'' x # script xs (y # ys)
      else diff_line_of DAdd CHR ''+'' y # script (x # xs) ys)"

lemma drop_nth_Cons: "i < length xs \<Longrightarrow> drop i xs = xs ! i # drop (Suc i) xs"
  by (simp add: Cons_nth_drop_Suc)

lemma walk_script:
  assumes "rows_ok old new m 0" "i \<le> length old" "j \<le> length new"
  shows "walk old new m i j ops = Some (ops @ script (drop i old) (drop j new))"
  using assms
proof (induction old new m i j ops rule: walk.induct)
  case (1 old new m i j ops)
  have cell: "unat (matrix_at m a b) = lcs (drop a old) (drop b new)" if "a \<le> length old" "b \<le> length new" for a b
    using 1(6) that by (auto simp: rows_ok_def row_ok_def matrix_at_def at16_def)
  consider (inner) "i < length old" "j < length new" | (left) "i < length old" "j = length new"
    | (right) "i = length old" "j < length new" | (stop) "i = length old" "j = length new"
    using 1(7,8) by linarith
  then show ?case
  proof cases
    case inner
    then have "matrix_at m (i + 1) j \<ge> matrix_at m i (j + 1) \<longleftrightarrow>
        lcs (drop (Suc i) old) (drop j new) \<ge> lcs (drop i old) (drop (Suc j) new)"
      by (simp add: word_le_nat_alt cell)
    moreover have "walk old new m (Suc i) (Suc j) (ops @ [diff_line_of DContext CHR '' '' (old ! i)]) =
        Some (ops @ diff_line_of DContext CHR '' '' (old ! i) # script (drop (Suc i) old) (drop (Suc j) new))"
      if "old ! i = new ! j" using inner that 1(1-5) 1(6) by (simp add: nth_opt_def)
    moreover have "walk old new m (Suc i) j (ops @ [diff_line_of DRemove CHR ''-'' (old ! i)]) =
        Some (ops @ diff_line_of DRemove CHR ''-'' (old ! i) # script (drop (Suc i) old) (drop j new))"
      if "old ! i \<noteq> new ! j" "matrix_at m (i + 1) j \<ge> matrix_at m i (j + 1)"
      using inner that 1(1-5) 1(6) by (simp add: nth_opt_def)
    moreover have "walk old new m i (Suc j) (ops @ [diff_line_of DAdd CHR ''+'' (new ! j)]) =
        Some (ops @ diff_line_of DAdd CHR ''+'' (new ! j) # script (drop i old) (drop (Suc j) new))"
      if "old ! i \<noteq> new ! j" "\<not> matrix_at m (i + 1) j \<ge> matrix_at m i (j + 1)"
      using inner that 1(1-5) 1(6) by (simp add: nth_opt_def)
    ultimately show ?thesis
      using inner by (subst walk.simps) (simp add: nth_opt_def drop_nth_Cons del: lcs.simps(3))
  next
    case left
    then show ?thesis using 1(1-5) 1(6) by (subst walk.simps) (simp add: nth_opt_def drop_nth_Cons)
  next
    case right
    then show ?thesis using 1(1-5) 1(6) by (subst walk.simps) (simp add: nth_opt_def drop_nth_Cons)
  next
    case stop
    then show ?thesis by (subst walk.simps) simp
  qed
qed

lemma diff_line_sel [simp]:
  "dl_kind (diff_line_of k p c) = k" "dl_content (diff_line_of k p c) = c" "dl_prefix (diff_line_of k p c) = p"
  by (simp_all add: diff_line_of_def)

lemma script_old: "old_of (script xs ys) = xs"
  by (induction xs ys rule: script.induct) (auto simp: old_of_def filter_empty_conv)

lemma script_new: "new_of (script xs ys) = ys"
  by (induction xs ys rule: script.induct) (auto simp: new_of_def o_def filter_True)

lemma script_context: "kind_count DContext (script xs ys) = lcs xs ys"
  by (induction xs ys rule: script.induct) (auto simp: kind_count_def filter_empty_conv max_def)

lemma kind_counts: "kind_count DContext ops + kind_count DRemove ops = length (old_of ops)"
    "kind_count DContext ops + kind_count DAdd ops = length (new_of ops)"
proof -
  have "kind_count DContext ops + kind_count DRemove ops = length (old_of ops) \<and>
        kind_count DContext ops + kind_count DAdd ops = length (new_of ops)"
  proof (induction ops)
    case (Cons a ops)
    then show ?case by (cases "dl_kind a") (auto simp: kind_count_def old_of_def new_of_def)
  qed (simp add: kind_count_def)
  then show "kind_count DContext ops + kind_count DRemove ops = length (old_of ops)"
    "kind_count DContext ops + kind_count DAdd ops = length (new_of ops)" by auto
qed

lemma buildLineOperations_script:
  "buildLineOperations xs ys =
     (if (length xs + 1) * (length ys + 1) > MAX_LCS_CELLS then Some None else Some (Some (script xs ys)))"
proof (cases "buildLcsMatrix xs ys")
  case (Some m)
  then show ?thesis
    using walk_script [OF buildLcsMatrix_ok [OF Some], of 0 0 "[]"]
    by (auto simp: buildLineOperations_def walkLineOperations_def buildLcsMatrix_def split: if_splits)
qed (auto simp: buildLineOperations_def buildLcsMatrix_def split: if_splits)

lemma edit_script_bound:
  "length xs + length ys \<le> 2 * lcs xs ys + (kind_count DAdd ops + kind_count DRemove ops)"
  if "old_of ops = xs" "new_of ops = ys"
proof -
  have "subseq (map dl_content (filter (\<lambda>l. dl_kind l = DContext) ops)) (old_of ops)"
    "subseq (map dl_content (filter (\<lambda>l. dl_kind l = DContext) ops)) (new_of ops)"
    unfolding old_of_def new_of_def by (induction ops) auto
  then have "kind_count DContext ops \<le> lcs xs ys"
    using lcs_upper that by (fastforce simp: kind_count_def)
  with kind_counts [of ops] that show ?thesis by simp
qed

text \<open>
  C17. The edit script. Unless the matrix would have more than a million cells, the operations
  that \<open>buildLineOperations\<close> returns (it never throws) turn the old lines into the new ones:
  without the additions they are the old lines, without the removals the new ones, and no
  sequence of operations with that property has fewer additions and removals.
\<close>

theorem line_operations_shortest:
  assumes "(length old + 1) * (length new + 1) \<le> MAX_LCS_CELLS"
  shows "\<exists>ops. buildLineOperations old new = Some (Some ops) \<and>
    map dl_content (filter (\<lambda>l. dl_kind l \<noteq> DAdd) ops) = old \<and>
    map dl_content (filter (\<lambda>l. dl_kind l \<noteq> DRemove) ops) = new \<and>
    (\<forall>ops' :: diff_line list. map dl_content (filter (\<lambda>l. dl_kind l \<noteq> DAdd) ops') = old \<and>
            map dl_content (filter (\<lambda>l. dl_kind l \<noteq> DRemove) ops') = new \<longrightarrow>
       kind_count DAdd ops + kind_count DRemove ops \<le> kind_count DAdd ops' + kind_count DRemove ops')"
proof (intro exI [of _ "script old new"] conjI allI impI)
  show "buildLineOperations old new = Some (Some (script old new))"
    using assms by (simp add: buildLineOperations_script)
  show "map dl_content (filter (\<lambda>l. dl_kind l \<noteq> DAdd) (script old new)) = old"
    using script_old by (simp add: old_of_def)
  show "map dl_content (filter (\<lambda>l. dl_kind l \<noteq> DRemove) (script old new)) = new"
    using script_new by (simp add: new_of_def)
  fix ops' :: "diff_line list"
  assume "map dl_content (filter (\<lambda>l. dl_kind l \<noteq> DAdd) ops') = old \<and>
          map dl_content (filter (\<lambda>l. dl_kind l \<noteq> DRemove) ops') = new"
  then show "kind_count DAdd (script old new) + kind_count DRemove (script old new)
      \<le> kind_count DAdd ops' + kind_count DRemove ops'"
    using edit_script_bound [of ops' old new] kind_counts [of "script old new"]
    by (simp add: old_of_def [symmetric] new_of_def [symmetric] script_old script_new script_context)
qed

theorem line_operations_shortest_witness:
  "\<exists>ops. buildLineOperations [''a'', ''b''] [''b'', ''c''] = Some (Some ops) \<and>
     map dl_content (filter (\<lambda>l. dl_kind l \<noteq> DAdd) ops) = [''a'', ''b'']"
  using line_operations_shortest [of "[''a'', ''b'']" "[''b'', ''c'']"] by (auto simp: MAX_LCS_CELLS_def)


section \<open>The selection\<close>

abbreviation changed :: "diff_line \<Rightarrow> bool" where
  "changed l \<equiv> dl_kind l \<noteq> DContext"

lemma limits_sum: "removalLimit r a + additionLimit r a = min (r + a) MAX_RENDERED_CHANGED_LINES"
  unfolding removalLimit_def additionLimit_def MAX_RENDERED_CHANGED_LINES_def Let_def by linarith

lemma limits_le: "removalLimit r a \<le> r" "additionLimit r a \<le> a"
  by (auto simp: removalLimit_def additionLimit_def Let_def)

lemma length_operationIndexes: "length (operationIndexes ops k) = kind_count k ops"
proof -
  have "filter (\<lambda>l. dl_kind l = k) ops = map (\<lambda>i. ops ! i) (operationIndexes ops k)"
    using map_nth [of ops] by (metis (no_types, lifting) filter_map filter_cong o_apply operationIndexes_def)
  then show ?thesis by (simp add: kind_count_def)
qed

lemma operationIndexes_set: "i \<in> set (operationIndexes ops k) \<longleftrightarrow> i < length ops \<and> dl_kind (ops ! i) = k"
  by (auto simp: operationIndexes_def)

lemma distinct_operationIndexes [simp]: "distinct (operationIndexes ops k)"
  by (simp add: operationIndexes_def)

lemma selectedChanges_set:
  "i \<in> set (selectedChanges ops) \<Longrightarrow> i < length ops \<and> changed (ops ! i)"
  by (auto simp: selectedChanges_def Let_def dest!: in_set_takeD simp: operationIndexes_set)

lemma distinct_selectedChanges [simp]: "distinct (selectedChanges ops)"
  by (simp add: selectedChanges_def Let_def)

lemma length_selectedChanges:
  "length (selectedChanges ops) = min (kind_count DAdd ops + kind_count DRemove ops) MAX_RENDERED_CHANGED_LINES"
proof -
  let ?r = "operationIndexes ops DRemove" and ?a = "operationIndexes ops DAdd"
  let ?xs = "take (removalLimit (length ?r) (length ?a)) ?r @ take (additionLimit (length ?r) (length ?a)) ?a"
  have "distinct ?xs" by (auto dest!: in_set_takeD simp: operationIndexes_set)
  then have "length (selectedChanges ops) = length ?xs"
    by (simp add: selectedChanges_def Let_def distinct_remdups_id)
  also have "\<dots> = min (length ?r + length ?a) MAX_RENDERED_CHANGED_LINES"
    using limits_sum limits_le by simp
  finally show ?thesis by (simp add: length_operationIndexes add.commute)
qed

lemma orderedIndexes_set:
  "i \<in> set (orderedIndexes ops) \<Longrightarrow> i < length ops"
  using selectedChanges_set by (fastforce simp: orderedIndexes_def context_around_def)

lemma orderedIndexes_changed:
  "filter (\<lambda>i. changed (ops ! i)) (orderedIndexes ops) = sort (selectedChanges ops)"
proof -
  have "set (filter (\<lambda>i. changed (ops ! i)) (orderedIndexes ops)) = set (selectedChanges ops)"
    using selectedChanges_set by (fastforce simp: orderedIndexes_def context_around_def)
  then show ?thesis
    by (intro sorted_distinct_set_unique) (simp_all add: orderedIndexes_def sorted_wrt_filter)
qed

lemma render_indexes_total:
  assumes "\<forall>i \<in> set is. i < length ops"
  shows "\<exists>ls. render_indexes ops prev is = Some ls \<and>
    filter changed ls = map (\<lambda>i. ops ! i) (filter (\<lambda>i. changed (ops ! i)) is)"
  using assms
proof (induction "is" arbitrary: prev)
  case (Cons i "is")
  then obtain ls where "render_indexes ops (Some i) is = Some ls"
    "filter changed ls = map (\<lambda>i. ops ! i) (filter (\<lambda>i. changed (ops ! i)) is)"
    by (metis list.set_intros(2))
  moreover have "nth_opt ops i = Some (ops ! i)" using Cons.prems by (simp add: nth_opt_def)
  ultimately show ?case by simp
qed simp

lemma subseq_indexes:
  assumes "sorted is" "distinct is" "\<forall>i \<in> set is. i < length ops"
  shows "subseq (map (\<lambda>i. ops ! i) is) ops"
proof -
  have "is = filter (\<lambda>i. i \<in> set is) [0..<length ops]"
    using assms by (intro sorted_distinct_set_unique) (auto simp: sorted_wrt_filter)
  then have "subseq (map (\<lambda>i. ops ! i) is) (map (\<lambda>i. ops ! i) [0..<length ops])"
    by (metis subseq_filter_left subseq_map)
  then show ?thesis by (simp add: map_nth)
qed

text \<open>
  The selection of changed lines. It never throws; it shows every changed line when there are
  at most 40 of them and exactly 40 otherwise, reports that number, and shows them in the order
  of the edit script.
\<close>

theorem selection_bounded:
  "\<exists>sel. compactOperations ops = Some sel \<and>
     sel_shownChangedLines sel = min (kind_count DAdd ops + kind_count DRemove ops) 40 \<and>
     length (filter (\<lambda>l. dl_kind l \<noteq> DContext) (sel_lines sel)) = sel_shownChangedLines sel \<and>
     subseq (filter (\<lambda>l. dl_kind l \<noteq> DContext) (sel_lines sel)) (filter (\<lambda>l. dl_kind l \<noteq> DContext) ops)"
proof -
  obtain ls where ls: "render_indexes ops None (orderedIndexes ops) = Some ls"
    "filter changed ls = map (\<lambda>i. ops ! i) (sort (selectedChanges ops))"
    using render_indexes_total [of "orderedIndexes ops" ops None] orderedIndexes_set orderedIndexes_changed by metis
  have "subseq (map (\<lambda>i. ops ! i) (sort (selectedChanges ops))) ops"
    using selectedChanges_set by (intro subseq_indexes) auto
  then have "subseq (filter changed (map (\<lambda>i. ops ! i) (sort (selectedChanges ops)))) (filter changed ops)"
    by (rule subseq_filter)
  moreover have "filter changed (map (\<lambda>i. ops ! i) (sort (selectedChanges ops))) =
      map (\<lambda>i. ops ! i) (sort (selectedChanges ops))"
    using selectedChanges_set by (intro filter_True) auto
  ultimately show ?thesis
    using ls by (simp add: compactOperations_def Let_def length_selectedChanges MAX_RENDERED_CHANGED_LINES_def)
qed


section \<open>Common prefix and suffix\<close>

lemma prefix_loop_spec:
  "index \<le> prefix_loop n left right index \<and> prefix_loop n left right index \<le> index + n \<and>
   (\<forall>k. index \<le> k \<and> k < prefix_loop n left right index \<longrightarrow> left ! k = right ! k)"
proof (induction n arbitrary: index)
  case (Suc n)
  show ?case using Suc [of "Suc index"] by (auto simp: le_eq_less_or_eq [of index] Suc_le_eq)
qed auto

lemma suffix_loop_spec:
  "count \<le> suffix_loop n left right count \<and> suffix_loop n left right count \<le> count + n \<and>
   (\<forall>k. count \<le> k \<and> k < suffix_loop n left right count \<longrightarrow>
      left ! (length left - 1 - k) = right ! (length right - 1 - k))"
proof (induction n arbitrary: count)
  case (Suc n)
  show ?case using Suc [of "Suc count"] by (auto simp: le_eq_less_or_eq [of count] Suc_le_eq)
qed auto

lemma commonPrefix:
  assumes "p = commonPrefixLength xs ys"
  shows "p \<le> length xs" "p \<le> length ys" "take p xs = take p ys"
  using prefix_loop_spec [of 0 "min (length xs) (length ys)" xs ys] assms
  by (auto simp: commonPrefixLength_def intro!: nth_equalityI)

lemma commonSuffix:
  assumes "q = commonSuffixLength xs ys p" "p \<le> length xs" "p \<le> length ys"
  shows "p + q \<le> length xs" "p + q \<le> length ys" "drop (length xs - q) xs = drop (length ys - q) ys"
proof -
  note spec = suffix_loop_spec [of 0 "min (length xs) (length ys) - p" xs ys,
      folded commonSuffixLength_def assms(1)]
  then have q: "q \<le> min (length xs) (length ys) - p" by simp
  with assms show le: "p + q \<le> length xs" "p + q \<le> length ys" by auto
  have nth: "xs ! (length xs - q + i) = ys ! (length ys - q + i)" if "i < q" for i
  proof -
    have "xs ! (length xs - 1 - (q - 1 - i)) = ys ! (length ys - 1 - (q - 1 - i))"
      using that spec [THEN conjunct2, THEN conjunct2, rule_format, of "q - 1 - i"] by simp
    moreover have "length xs - 1 - (q - 1 - i) = length xs - q + i"
      "length ys - 1 - (q - 1 - i) = length ys - q + i" using that le by auto
    ultimately show ?thesis by simp
  qed
  show "drop (length xs - q) xs = drop (length ys - q) ys"
    using le nth by (intro nth_equalityI) auto
qed

text \<open>Cutting the common parts off keeps the number of changes.\<close>

lemma cut_common:
  assumes "p = commonPrefixLength xs ys" "q = commonSuffixLength xs ys p"
    and "xs' = slice xs p (length xs - q)" "ys' = slice ys p (length ys - q)"
  shows "length xs = length xs' + p + q" "length ys = length ys' + p + q"
    "lcs xs ys = lcs xs' ys' + p + q"
proof -
  note pre = commonPrefix [OF assms(1)]
  note suf = commonSuffix [OF assms(2) pre(1,2)]
  show l: "length xs = length xs' + p + q" "length ys = length ys' + p + q"
    using suf assms by (auto simp: slice_def)
  have split: "zs = take p zs @ slice zs p (length zs - q) @ drop (length zs - q) zs"
    if "p + q \<le> length zs" for zs :: "string list"
  proof -
    have "zs = take (length zs - q) zs @ drop (length zs - q) zs" by simp
    also have "take (length zs - q) zs = take p zs @ slice zs p (length zs - q)"
      using that append_take_drop_id [of p "take (length zs - q) zs"] by (simp add: slice_def min_absorb1)
    finally show ?thesis by simp
  qed
  have "lcs xs ys = lcs (take p xs @ xs' @ drop (length xs - q) xs) (take p xs @ ys' @ drop (length xs - q) xs)"
    using split [OF suf(1)] split [OF suf(2)] pre(3) suf(3) assms(3,4) by metis
  also have "\<dots> = p + (lcs xs' ys' + q)"
    using pre suf by (simp add: lcs_same_prefix lcs_same_suffix)
  finally show "lcs xs ys = lcs xs' ys' + p + q" by simp
qed

section \<open>The diff\<close>

definition text_lines :: "string option \<Rightarrow> string list" where
  "text_lines t = (case t of None \<Rightarrow> [] | Some s \<Rightarrow> splitLines s)"

lemma filter_context_map [simp]: "filter changed (map (diff_line_of DContext p) xs) = []"
  by (simp add: filter_empty_conv)

lemma lcs_all: "lcs xs xs = length xs"
  using lcs_same_prefix [of xs "[]" "[]"] by simp

text \<open>
  The compact diff. It never throws. It is unavailable exactly when a text may have been cut
  off by the bridge or the changed parts are too large for the matrix; otherwise its counts are
  those of a shortest edit script of the two texts, it shows every changed line up to 40, and the
  number of omitted lines makes up the rest.
\<close>

theorem compact_diff_counts:
  "\<exists>d. computeCompactDiff old new = Some d \<and>
     (let ols = text_lines old; nls = splitLines new; p = commonPrefixLength ols nls;
          q = commonSuffixLength ols nls p
      in if looksStructurallyTruncated old \<or> looksStructurallyTruncated (Some new) \<or>
            (length ols - p - q + 1) * (length nls - p - q + 1) > MAX_LCS_CELLS
         then cd_unavailable d \<and> cd_lines d = []
         else \<not> cd_unavailable d \<and>
              cd_additions d + lcs ols nls = length nls \<and> cd_deletions d + lcs ols nls = length ols \<and>
              length (filter (\<lambda>l. dl_kind l \<noteq> DContext) (cd_lines d)) =
                min (cd_additions d + cd_deletions d) 40 \<and>
              cd_omittedChangedLines d =
                int (cd_additions d + cd_deletions d) - int (min (cd_additions d + cd_deletions d) 40))"
proof -
  define ols nls where "ols = text_lines old" and "nls = splitLines new"
  define p where "p = commonPrefixLength ols nls"
  define q where "q = commonSuffixLength ols nls p"
  define ols2 nls2 where "ols2 = slice ols p (length ols - q)" and "nls2 = slice nls p (length nls - q)"
  note cut = cut_common [OF p_def q_def ols2_def nls2_def]
  define ops where "ops = script ols2 nls2"
  obtain sel where sel: "compactOperations ops = Some sel"
    "sel_shownChangedLines sel = min (kind_count DAdd ops + kind_count DRemove ops) 40"
    "length (filter changed (sel_lines sel)) = sel_shownChangedLines sel"
    using selection_bounded by blast
  have counts: "kind_count DAdd ops + lcs ols nls = length nls" "kind_count DRemove ops + lcs ols nls = length ols"
    using kind_counts [of ops] cut by (auto simp: ops_def script_old script_new script_context)
  have big: "(length ols - p - q + 1) * (length nls - p - q + 1) = (length ols2 + 1) * (length nls2 + 1)"
    using cut by simp
  have d: "computeCompactDiff old new =
     (if looksStructurallyTruncated old \<or> looksStructurallyTruncated (Some new) then Some unavailableDiff
      else if ols2 = [] \<and> nls2 = []
           then Some \<lparr>cd_lines = [], cd_additions = 0, cd_deletions = 0,
                      cd_omittedChangedLines = 0, cd_unavailable = False\<rparr>
      else if (length ols2 + 1) * (length nls2 + 1) > MAX_LCS_CELLS then Some unavailableDiff
      else Some \<lparr>cd_lines =
                          map (diff_line_of DContext CHR '' '') (slice ols (p - CONTEXT_LINES) p) @
                          (if sel_omittedBefore sel then [diff_line_of DContext CHR '' '' ''...''] else []) @
                          sel_lines sel @
                          (if sel_omittedAfter sel then [diff_line_of DContext CHR '' '' ''...''] else []) @
                          map (diff_line_of DContext CHR '' '')
                            (slice nls (length nls - q) (min (length nls) (length nls - q + CONTEXT_LINES))),
                        cd_additions = kind_count DAdd ops, cd_deletions = kind_count DRemove ops,
                        cd_omittedChangedLines =
                          int (kind_count DAdd ops) + int (kind_count DRemove ops)
                          - int (sel_shownChangedLines sel),
                        cd_unavailable = False\<rparr>)"
    using sel(1)
    by (simp add: computeCompactDiff_def Let_def buildLineOperations_script ops_def
        text_lines_def ols_def nls_def p_def q_def ols2_def nls2_def)
  have e: "kind_count DAdd ops = 0 \<and> kind_count DRemove ops = 0" if "ols2 = []" "nls2 = []"
    using that by (simp add: ops_def)
  show ?thesis
    unfolding Let_def ols_def [symmetric] nls_def [symmetric] p_def [symmetric] q_def [symmetric] big d
    using counts sel(2,3) e
    by (auto simp: unavailableDiff_def MAX_LCS_CELLS_def)
qed


section \<open>The cache\<close>

text \<open>
  What the cache promises to its client, for any function it memoises: entries are results of the
  function, and there are never more than the bound.
\<close>

locale memo_cache =
  fixes lookup :: "'c \<Rightarrow> 'k \<Rightarrow> 'v option"
    and store :: "'k \<Rightarrow> 'v \<Rightarrow> 'c \<Rightarrow> 'c"
    and keys :: "'c \<Rightarrow> 'k list"
    and invar :: "'c \<Rightarrow> bool"
    and bound :: nat
  assumes store_invar: "invar c \<Longrightarrow> lookup c k = None \<Longrightarrow> invar (store k v c)"
    and store_lookup: "invar c \<Longrightarrow> lookup c k = None \<Longrightarrow>
      lookup (store k v c) j = Some w \<Longrightarrow> (j = k \<and> w = v) \<or> lookup c j = Some w"
    and lookup_keys: "invar c \<Longrightarrow> lookup c k \<noteq> None \<longleftrightarrow> k \<in> set (keys c)"
    and keys_bound: "invar c \<Longrightarrow> distinct (keys c) \<and> length (keys c) \<le> bound"
begin

definition sound :: "('k \<Rightarrow> 'v option) \<Rightarrow> 'c \<Rightarrow> bool" where
  "sound f c \<longleftrightarrow> invar c \<and> (\<forall>k v. lookup c k = Some v \<longrightarrow> f k = Some v)"

definition cached :: "('k \<Rightarrow> 'v option) \<Rightarrow> 'k \<Rightarrow> 'c \<Rightarrow> ('v \<times> 'c) option" where
  "cached f k c =
     (case lookup c k of Some v \<Rightarrow> Some (v, c) | None \<Rightarrow> map_option (\<lambda>v. (v, store k v c)) (f k))"

lemma cached_transparent: "sound f c \<Longrightarrow> map_option fst (cached f k c) = f k"
  by (auto simp: sound_def cached_def option.map_comp o_def option.map_ident split: option.splits)

lemma cached_sound: "sound f c \<Longrightarrow> cached f k c = Some (v, c') \<Longrightarrow> sound f c'"
  using store_invar store_lookup
  by (auto simp: sound_def cached_def split: option.splits) blast

lemma sound_bound: "sound f c \<Longrightarrow> finite {k. lookup c k \<noteq> None} \<and> card {k. lookup c k \<noteq> None} \<le> bound"
proof -
  assume "sound f c"
  then have "{k. lookup c k \<noteq> None} = set (keys c)" "distinct (keys c)" "length (keys c) \<le> bound"
    using lookup_keys keys_bound by (auto simp: sound_def)
  then show ?thesis by (simp add: distinct_card)
qed

end

definition diff_get :: "diff_cache \<Rightarrow> string option \<times> string \<Rightarrow> compact_diff option" where
  "diff_get c k = cache_get c (fst k) (snd k)"

definition diff_store :: "string option \<times> string \<Rightarrow> compact_diff \<Rightarrow> diff_cache \<Rightarrow> diff_cache" where
  "diff_store k d c = cacheCompactDiff (fst k) (snd k) d c"

definition cache_keys_ok :: "diff_cache \<Rightarrow> bool" where
  "cache_keys_ok c \<longleftrightarrow>
     distinct (dc_order c) \<and> (\<forall>k. diff_get c k \<noteq> None \<longleftrightarrow> k \<in> set (dc_order c))"

definition cache_ok :: "diff_cache \<Rightarrow> bool" where
  "cache_ok c \<longleftrightarrow> cache_keys_ok c \<and> length (dc_order c) \<le> MAX_CACHE_ENTRIES"

lemma diff_get_put:
  "diff_get (c\<lparr>dc_map := map_put old (map_put new d
      (case map_get (dc_map c) old of None \<Rightarrow> [] | Some m \<Rightarrow> m)) (dc_map c), dc_order := ord\<rparr>) k =
   (if k = (old, new) then Some d else diff_get c k)"
  by (cases k) (auto simp: diff_get_def cache_get_def map_get_put split: option.splits)

lemma diff_get_evict:
  assumes "dc_order c = k0 # rest"
  shows "diff_get (cache_evict c) k = (if k = k0 then None else diff_get c k)"
proof (cases "map_get (dc_map c) (fst k0)")
  case None
  then show ?thesis using assms
    by (cases k0; cases k) (auto simp: diff_get_def cache_get_def cache_evict_def)
next
  case (Some m)
  have e: "map_get m (snd k) = None" if "map_del (snd k0) m = []" "snd k \<noteq> snd k0"
    using map_get_del [of "snd k0" m "snd k"] that by simp
  show ?thesis using assms Some e
    by (cases k0; cases k) (auto simp: diff_get_def cache_get_def cache_evict_def Let_def
        map_get_put map_get_del)
qed

lemma evict_order: "dc_order c = k0 # rest \<Longrightarrow> dc_order (cache_evict c) = rest"
  by (cases k0) (auto simp: cache_evict_def Let_def split: option.splits)

lemma cache_keys_evict:
  "cache_keys_ok c \<Longrightarrow> dc_order c = k0 # rest \<Longrightarrow> cache_keys_ok (cache_evict c)"
  unfolding cache_keys_ok_def by (simp only: diff_get_evict evict_order) (metis distinct.simps(2) set_ConsD list.set_intros)

interpretation dcache: memo_cache diff_get diff_store dc_order cache_ok MAX_CACHE_ENTRIES
proof
  fix c k d j w
  assume ok: "cache_ok c" and new: "diff_get c k = None"
  define c1 where "c1 = c\<lparr>dc_map := map_put (fst k) (map_put (snd k) d
      (case map_get (dc_map c) (fst k) of None \<Rightarrow> [] | Some m \<Rightarrow> m)) (dc_map c), dc_order := dc_order c @ [k]\<rparr>"
  have get1: "diff_get c1 i = (if i = k then Some d else diff_get c i)" for i
    unfolding c1_def by (simp only: diff_get_put prod.collapse)
  have st: "diff_store k d c = (if length (dc_order c1) \<le> MAX_CACHE_ENTRIES then c1 else cache_evict c1)"
    by (simp add: diff_store_def cacheCompactDiff_def c1_def)
  have ord1: "dc_order c1 = dc_order c @ [k]" by (simp add: c1_def)
  have "k \<notin> set (dc_order c)" using ok new unfolding cache_ok_def cache_keys_ok_def by metis
  then have k1: "cache_keys_ok c1"
    using ok by (auto simp: cache_keys_ok_def cache_ok_def get1 ord1)
  obtain k0 rest where ord0: "dc_order c1 = k0 # rest" by (cases "dc_order c1") (auto simp: ord1)
  have "length (dc_order c1) \<le> Suc MAX_CACHE_ENTRIES" using ok by (simp add: ord1 cache_ok_def)
  then show "cache_ok (diff_store k d c)"
    using k1 cache_keys_evict [OF k1 ord0] evict_order [OF ord0] ord0 by (simp add: st cache_ok_def)
  show "j = k \<and> w = d \<or> diff_get c j = Some w" if "diff_get (diff_store k d c) j = Some w"
    using that diff_get_evict [OF ord0, of j] get1 [of j] by (auto simp: st split: if_splits)
next
  fix c k
  assume "cache_ok c"
  then show "(diff_get c k \<noteq> None) = (k \<in> set (dc_order c))" unfolding cache_ok_def cache_keys_ok_def by blast
next
  fix c
  assume "cache_ok c"
  then show "distinct (dc_order c) \<and> length (dc_order c) \<le> MAX_CACHE_ENTRIES"
    by (simp add: cache_ok_def cache_keys_ok_def)
qed

lemma buildCompactDiff_cached:
  "buildCompactDiff old new c = dcache.cached (\<lambda>k. computeCompactDiff (fst k) (snd k)) (old, new) c"
  by (simp add: buildCompactDiff_def dcache.cached_def diff_get_def diff_store_def split: option.splits)

fun build_many :: "(string option \<times> string) list \<Rightarrow> diff_cache \<Rightarrow> diff_cache option" where
  "build_many [] c = Some c"
| "build_many ((old, new) # qs) c =
     (case buildCompactDiff old new c of None \<Rightarrow> None | Some (d, c') \<Rightarrow> build_many qs c')"

definition empty_cache :: diff_cache where
  "empty_cache = \<lparr>dc_map = [], dc_order = []\<rparr>"

lemma build_many_sound:
  "dcache.sound (\<lambda>k. computeCompactDiff (fst k) (snd k)) c \<Longrightarrow>
   \<exists>c'. build_many qs c = Some c' \<and> dcache.sound (\<lambda>k. computeCompactDiff (fst k) (snd k)) c'"
proof (induction qs c rule: build_many.induct)
  case (2 old new qs c)
  obtain d c' where b: "buildCompactDiff old new c = Some (d, c')"
    using dcache.cached_transparent [OF 2(2), of "(old, new)"] compact_diff_counts [of old new]
    by (fastforce simp: buildCompactDiff_cached)
  with 2 show ?case by (auto simp: buildCompactDiff_cached dest: dcache.cached_sound)
qed simp

text \<open>
  C18. The cache of compact diffs is transparent and bounded: after any sequence of requests,
  whatever was evicted in between, the next request returns what \<open>computeCompactDiff\<close> computes,
  and the cache holds at most 64 diffs.
\<close>

theorem diff_cache_transparent:
  "\<exists>c. build_many qs empty_cache = Some c \<and>
     map_option fst (buildCompactDiff old new c) = computeCompactDiff old new \<and>
     finite {k. cache_get c (fst k) (snd k) \<noteq> None} \<and>
     card {k. cache_get c (fst k) (snd k) \<noteq> None} \<le> 64"
proof -
  have "dcache.sound (\<lambda>k. computeCompactDiff (fst k) (snd k)) empty_cache"
    by (simp add: dcache.sound_def cache_ok_def cache_keys_ok_def diff_get_def cache_get_def empty_cache_def)
  from build_many_sound [OF this, of qs] obtain c where
    c: "build_many qs empty_cache = Some c" "dcache.sound (\<lambda>k. computeCompactDiff (fst k) (snd k)) c" by blast
  then show ?thesis
    using dcache.cached_transparent [OF c(2), of "(old, new)"] dcache.sound_bound [OF c(2)]
    by (simp add: buildCompactDiff_cached diff_get_def MAX_CACHE_ENTRIES_def)
qed

end
