(* ===== verification/UnifiedDiff.thy ===== *)
theory UnifiedDiff
  imports Prelude
begin

text \<open>
  The parser of unified Git diffs and the anchors of review comments,
  \<^verbatim>\<open>features/git/diff/unified.ts\<close> and \<^verbatim>\<open>features/git/diff/review.ts\<close>. The mutable locals of the
  parser are the record \<open>parse_state\<close> and the loop body is \<open>parse_line\<close>. Line numbers are
  natural numbers (those of the source are exact below \<open>2 ^ 53\<close>).
\<close>

section \<open>Data\<close>

datatype line_kind = LContext | LAdd | LRemove | LMeta

record udiff_line =
  ul_kind :: line_kind
  ul_prefix :: string
  ul_content :: string
  ul_old :: "nat option"
  ul_new :: "nat option"

record udiff_hunk =
  uh_header :: string
  uh_oldStart :: nat
  uh_oldCount :: nat
  uh_newStart :: nat
  uh_newCount :: nat
  uh_lines :: "udiff_line list"

datatype file_status = FModified | FAdded | FDeleted | FRenamed | FBinary

record progress_file =
  pf_oldPath :: "string option"
  pf_newPath :: "string option"
  pf_displayPath :: string
  pf_status :: file_status
  pf_additions :: nat
  pf_deletions :: nat
  pf_hunks :: "udiff_hunk list"

record udiff_file =
  uf_id :: string
  uf_oldPath :: "string option"
  uf_newPath :: "string option"
  uf_displayPath :: string
  uf_status :: file_status
  uf_additions :: nat
  uf_deletions :: nat
  uf_hunks :: "udiff_hunk list"

record udiff_document =
  ud_files :: "udiff_file list"
  ud_totalAdditions :: nat
  ud_totalDeletions :: nat

definition chr_cr :: char where "chr_cr = CHR 0x0D"
definition chr_lf :: char where "chr_lf = CHR 0x0A"
definition chr_tab :: char where "chr_tab = CHR 0x09"
definition chr_esc :: char where "chr_esc = CHR 0x1B"
definition chr_backslash :: char where "chr_backslash = CHR 0x5C"
definition chr_quote :: char where "chr_quote = CHR 0x22"

section \<open>Lexical helpers\<close>

text \<open>
  \<open>stripAnsi\<close>: every match of an escape character, \<open>[\<close>, digits and semicolons, \<open>m\<close> is removed; the
  characters of the class exclude \<open>m\<close>, so the match is the longest run.
\<close>

definition ansi_param :: "char \<Rightarrow> bool" where
  "ansi_param c \<longleftrightarrow> char_digit c \<noteq> None \<or> c = CHR '';''"

definition ansi_rest :: "string \<Rightarrow> string option" where
  "ansi_rest s =
     (case s of
        e # b # cs \<Rightarrow>
          if e = chr_esc \<and> b = CHR ''['' then
            (case dropWhile ansi_param cs of
               x # rest \<Rightarrow> if x = CHR ''m'' then Some rest else None
             | [] \<Rightarrow> None)
          else None
      | _ \<Rightarrow> None)"

lemma ansi_rest_shorter: "ansi_rest s = Some r \<Longrightarrow> length r < length s"
proof -
  assume a: "ansi_rest s = Some r"
  then obtain e b cs x where s: "s = e # b # cs" "dropWhile ansi_param cs = x # r"
    by (auto simp: ansi_rest_def split: list.splits if_splits)
  then have "length (x # r) \<le> length cs" by (metis length_dropWhile_le)
  with s show ?thesis by simp
qed

function stripAnsi :: "string \<Rightarrow> string" where
  "stripAnsi s =
     (case ansi_rest s of
        Some r \<Rightarrow> stripAnsi r
      | None \<Rightarrow> (case s of [] \<Rightarrow> [] | c # cs \<Rightarrow> c # stripAnsi cs))"
  by pat_completeness auto
termination
  by (relation "measure length") (auto dest: ansi_rest_shorter)

declare stripAnsi.simps [simp del]

text \<open>The pieces of \<open>HUNK_HEADER_PATTERN\<close>, each consuming a prefix of the rest of the line.\<close>

definition expect :: "string \<Rightarrow> string \<Rightarrow> string option" where
  "expect lit s = (if starts_with s lit then Some (drop (length lit) s) else None)"

definition is_digit :: "char \<Rightarrow> bool" where
  "is_digit c \<longleftrightarrow> char_digit c \<noteq> None"

definition take_number :: "string \<Rightarrow> (nat \<times> string) option" where
  "take_number s =
     (case takeWhile is_digit s of
        [] \<Rightarrow> None
      | d # ds \<Rightarrow> map_option (\<lambda>n. (n, dropWhile is_digit s)) (nat_of_digits 0 (d # ds)))"

definition take_count :: "string \<Rightarrow> nat \<times> string" where
  "take_count s =
     (case s of
        c # cs \<Rightarrow> if c = CHR '','' then (case take_number cs of Some r \<Rightarrow> r | None \<Rightarrow> (1, s)) else (1, s)
      | [] \<Rightarrow> (1, s))"

definition parseHunkHeader :: "string \<Rightarrow> (nat \<times> nat \<times> nat \<times> nat) option" where
  "parseHunkHeader line =
     Option.bind (expect ''@@ -'' line) (\<lambda>r1.
     Option.bind (take_number r1) (\<lambda>(oldStart, r2).
       let (oldCount, r3) = take_count r2 in
     Option.bind (expect '' +'' r3) (\<lambda>r4.
     Option.bind (take_number r4) (\<lambda>(newStart, r5).
       let (newCount, r6) = take_count r5 in
     Option.bind (expect '' @@'' r6) (\<lambda>r7.
       if (case r7 of [] \<Rightarrow> True | c # cs \<Rightarrow> is_js_space c)
       then Some (oldStart, oldCount, newStart, newCount) else None)))))"


section \<open>Paths\<close>

definition decodeGitPath :: "string \<Rightarrow> string" where
  "decodeGitPath raw =
     (if \<not> starts_with raw [chr_quote] \<or> \<not> ends_with raw [chr_quote] \<or> length raw < 2 then raw
      else
        replace_all [chr_backslash, CHR ''r''] [chr_cr]
          (replace_all [chr_backslash, CHR ''n''] [chr_lf]
            (replace_all [chr_backslash, CHR ''t''] [chr_tab]
              (replace_all [chr_backslash, chr_quote] [chr_quote]
                (replace_all [chr_backslash, chr_backslash] [chr_backslash] (butlast (tl raw)))))))"

definition parsePatchPath :: "string \<Rightarrow> string option" where
  "parsePatchPath raw =
     (let trimmed = trim raw
      in if trimmed = [] \<or> trimmed = ''/dev/null'' then None
         else
           let decoded = decodeGitPath trimmed
           in if decoded = ''/dev/null'' then None
              else if starts_with decoded ''a/'' \<or> starts_with decoded ''b/'' then Some (drop 2 decoded)
              else Some decoded)"

record token_state =
  tk_tokens :: "string list"
  tk_current :: string
  tk_inQuotes :: bool
  tk_escaped :: bool

definition token_step :: "char \<Rightarrow> token_state \<Rightarrow> token_state" where
  "token_step c s =
     (if tk_escaped s then s\<lparr>tk_current := tk_current s @ [c], tk_escaped := False\<rparr>
      else if c = chr_backslash then s\<lparr>tk_current := tk_current s @ [c], tk_escaped := True\<rparr>
      else if c = chr_quote then s\<lparr>tk_inQuotes := \<not> tk_inQuotes s, tk_current := tk_current s @ [c]\<rparr>
      else if \<not> tk_inQuotes s \<and> c = CHR '' ''
      then (if tk_current s \<noteq> [] then s\<lparr>tk_tokens := tk_tokens s @ [tk_current s], tk_current := []\<rparr> else s)
      else s\<lparr>tk_current := tk_current s @ [c]\<rparr>)"

definition nth_or_empty :: "string list \<Rightarrow> nat \<Rightarrow> string" where
  "nth_or_empty xs i = (if i < length xs then xs ! i else [])"

definition splitDiffHeaderPayload :: "string \<Rightarrow> string \<times> string" where
  "splitDiffHeaderPayload payload =
     (let s = fold token_step payload
                \<lparr>tk_tokens = [], tk_current = [], tk_inQuotes = False, tk_escaped = False\<rparr>;
          tokens = (if tk_current s \<noteq> [] then tk_tokens s @ [tk_current s] else tk_tokens s)
      in (nth_or_empty tokens 0, nth_or_empty tokens 1))"

definition parseDiffHeaderPaths :: "string \<Rightarrow> string option \<times> string option" where
  "parseDiffHeaderPaths line =
     (case splitDiffHeaderPayload (trim (drop (length ''diff --git '') line)) of
        (l, r) \<Rightarrow> (parsePatchPath l, parsePatchPath r))"

text \<open>A path is used only when it is not empty (the truthiness test of the source).\<close>

definition truthy :: "string option \<Rightarrow> bool" where
  "truthy p \<longleftrightarrow> (case p of None \<Rightarrow> False | Some s \<Rightarrow> s \<noteq> [])"

definition formatDisplayPath :: "string option \<Rightarrow> string option \<Rightarrow> string" where
  "formatDisplayPath old new =
     (if truthy old \<and> truthy new
      then (if old = new then the new else the old @ '' -> '' @ the new)
      else if truthy new then the new
      else if truthy old then the old
      else ''unknown'')"

definition applyFileMetadata :: "string \<Rightarrow> progress_file \<Rightarrow> progress_file" where
  "applyFileMetadata line f =
     (let g =
        (if starts_with line ''new file mode '' then f\<lparr>pf_status := FAdded\<rparr>
         else if starts_with line ''deleted file mode '' then f\<lparr>pf_status := FDeleted\<rparr>
         else if starts_with line ''rename from ''
         then f\<lparr>pf_status := FRenamed, pf_oldPath := Some (decodeGitPath (drop (length ''rename from '') line))\<rparr>
         else if starts_with line ''rename to ''
         then f\<lparr>pf_status := FRenamed, pf_newPath := Some (decodeGitPath (drop (length ''rename to '') line))\<rparr>
         else if starts_with line ''Binary files '' \<or> line = ''GIT binary patch''
         then f\<lparr>pf_status := FBinary\<rparr>
         else if starts_with line ''--- '' then f\<lparr>pf_oldPath := parsePatchPath (drop 4 line)\<rparr>
         else if starts_with line ''+++ '' then f\<lparr>pf_newPath := parsePatchPath (drop 4 line)\<rparr>
         else f)
      in g\<lparr>pf_displayPath := formatDisplayPath (pf_oldPath g) (pf_newPath g)\<rparr>)"

definition finalizeFile :: "progress_file \<Rightarrow> nat \<Rightarrow> udiff_file" where
  "finalizeFile f index =
     (let old = truthy (pf_oldPath f); new = truthy (pf_newPath f);
          status = (if pf_status f = FModified
                    then (if \<not> old \<and> new then FAdded
                          else if old \<and> \<not> new then FDeleted
                          else if old \<and> new \<and> pf_oldPath f \<noteq> pf_newPath f then FRenamed
                          else FModified)
                    else pf_status f);
          display = formatDisplayPath (pf_oldPath f) (pf_newPath f)
      in \<lparr>uf_id = display @ '':'' @ string_of_nat index, uf_oldPath = pf_oldPath f,
          uf_newPath = pf_newPath f, uf_displayPath = display, uf_status = status,
          uf_additions = pf_additions f, uf_deletions = pf_deletions f, uf_hunks = pf_hunks f\<rparr>)"


section \<open>The parser\<close>

record parse_state =
  ps_files :: "udiff_file list"
  ps_file :: "progress_file option"
  ps_hunk :: "udiff_hunk option"
  ps_old :: nat
  ps_new :: nat

definition flushHunk :: "parse_state \<Rightarrow> parse_state" where
  "flushHunk s =
     (case (ps_file s, ps_hunk s) of
        (Some f, Some h) \<Rightarrow> s\<lparr>ps_file := Some (f\<lparr>pf_hunks := pf_hunks f @ [h]\<rparr>), ps_hunk := None\<rparr>
      | _ \<Rightarrow> s)"

definition flushFile :: "parse_state \<Rightarrow> parse_state" where
  "flushFile s =
     (case ps_file s of
        None \<Rightarrow> s
      | Some _ \<Rightarrow>
          let t = flushHunk s
          in (case ps_file t of
                None \<Rightarrow> t
              | Some f \<Rightarrow> t\<lparr>ps_files := ps_files t @ [finalizeFile f (length (ps_files t))], ps_file := None\<rparr>))"

definition push_line :: "udiff_line \<Rightarrow> udiff_hunk \<Rightarrow> udiff_hunk" where
  "push_line l h = h\<lparr>uh_lines := uh_lines h @ [l]\<rparr>"

text \<open>A line inside a hunk.\<close>

definition parse_hunk_line :: "string \<Rightarrow> progress_file \<Rightarrow> udiff_hunk \<Rightarrow> parse_state \<Rightarrow> parse_state" where
  "parse_hunk_line line f h s =
     (if starts_with line ''+'' \<and> \<not> starts_with line ''+++ ''
      then s\<lparr>ps_hunk := Some (push_line \<lparr>ul_kind = LAdd, ul_prefix = ''+'', ul_content = drop 1 line,
                                        ul_old = None, ul_new = Some (ps_new s)\<rparr> h),
             ps_file := Some (f\<lparr>pf_additions := pf_additions f + 1\<rparr>), ps_new := ps_new s + 1\<rparr>
      else if starts_with line ''-'' \<and> \<not> starts_with line ''--- ''
      then s\<lparr>ps_hunk := Some (push_line \<lparr>ul_kind = LRemove, ul_prefix = ''-'', ul_content = drop 1 line,
                                        ul_old = Some (ps_old s), ul_new = None\<rparr> h),
             ps_file := Some (f\<lparr>pf_deletions := pf_deletions f + 1\<rparr>), ps_old := ps_old s + 1\<rparr>
      else if starts_with line '' ''
      then s\<lparr>ps_hunk := Some (push_line \<lparr>ul_kind = LContext, ul_prefix = '' '', ul_content = drop 1 line,
                                        ul_old = Some (ps_old s), ul_new = Some (ps_new s)\<rparr> h),
             ps_old := ps_old s + 1, ps_new := ps_new s + 1\<rparr>
      else if starts_with line [chr_backslash]
      then s\<lparr>ps_hunk := Some (push_line \<lparr>ul_kind = LMeta, ul_prefix = [chr_backslash],
                                        ul_content = trim_start (drop 1 line),
                                        ul_old = None, ul_new = None\<rparr> h)\<rparr>
      else s\<lparr>ps_hunk := Some (push_line \<lparr>ul_kind = LMeta, ul_prefix = '' '', ul_content = line,
                                        ul_old = None, ul_new = None\<rparr> h)\<rparr>)"

definition parse_line :: "string \<Rightarrow> parse_state \<Rightarrow> parse_state" where
  "parse_line rawLine s =
     (let line = stripAnsi rawLine in
      if starts_with line ''diff --git ''
      then let t = flushFile s; (old, new) = parseDiffHeaderPaths line
           in t\<lparr>ps_file := Some \<lparr>pf_oldPath = old, pf_newPath = new,
                  pf_displayPath = formatDisplayPath old new, pf_status = FModified,
                  pf_additions = 0, pf_deletions = 0, pf_hunks = []\<rparr>\<rparr>
      else
        (case ps_file s of
           None \<Rightarrow> s
         | Some f \<Rightarrow>
             if starts_with line ''@@ ''
             then let t = flushHunk s
                  in (case parseHunkHeader line of
                        None \<Rightarrow> t
                      | Some (oldStart, oldCount, newStart, newCount) \<Rightarrow>
                          t\<lparr>ps_old := oldStart, ps_new := newStart,
                            ps_hunk := Some \<lparr>uh_header = line, uh_oldStart = oldStart,
                              uh_oldCount = oldCount, uh_newStart = newStart, uh_newCount = newCount,
                              uh_lines = []\<rparr>\<rparr>)
             else
               (case ps_hunk s of
                  Some h \<Rightarrow> parse_hunk_line line f h s
                | None \<Rightarrow> s\<lparr>ps_file := Some (applyFileMetadata line f)\<rparr>)))"

definition initial_parse :: parse_state where
  "initial_parse = \<lparr>ps_files = [], ps_file = None, ps_hunk = None, ps_old = 0, ps_new = 0\<rparr>"

definition parseUnifiedGitDiff :: "string \<Rightarrow> udiff_document" where
  "parseUnifiedGitDiff rawDiff =
     (let ls = split_on chr_lf (replace_all [chr_cr] [chr_lf] (replace_all [chr_cr, chr_lf] [chr_lf] rawDiff));
          files = ps_files (flushFile (fold parse_line ls initial_parse))
      in \<lparr>ud_files = files,
          ud_totalAdditions = fold (\<lambda>f t. t + uf_additions f) files 0,
          ud_totalDeletions = fold (\<lambda>f t. t + uf_deletions f) files 0\<rparr>)"


section \<open>Review anchors\<close>

datatype review_side = OldSide | NewSide

record context_line =
  xl_old :: "nat option"
  xl_new :: "nat option"
  xl_prefix :: string
  xl_text :: string

record review_target =
  rv_anchorKey :: string
  rv_fileId :: string
  rv_path :: string
  rv_oldPath :: "string option"
  rv_newPath :: "string option"
  rv_side :: review_side
  rv_line :: nat
  rv_hunk :: string
  rv_context :: "context_line list"

definition or_else :: "'a option \<Rightarrow> 'a option \<Rightarrow> 'a option" where
  "or_else a b = (case a of None \<Rightarrow> b | Some x \<Rightarrow> Some x)"

fun side_name :: "review_side \<Rightarrow> string" where
  "side_name OldSide = ''OLD''"
| "side_name NewSide = ''NEW''"

definition createGitReviewTarget ::
  "udiff_file \<Rightarrow> udiff_hunk \<Rightarrow> udiff_line \<Rightarrow> nat \<Rightarrow> review_target option" where
  "createGitReviewTarget file hunk line lineIndex =
     (if ul_kind line = LMeta then None
      else
        let side = (if ul_kind line = LRemove then OldSide else NewSide);
            lineNumber = (if side = OldSide then ul_old line else ul_new line);
            path = (if side = OldSide then or_else (uf_oldPath file) (uf_newPath file)
                    else or_else (uf_newPath file) (uf_oldPath file))
        in (case lineNumber of
              None \<Rightarrow> None
            | Some n \<Rightarrow>
                if \<not> truthy path then None
                else Some
                  \<lparr>rv_anchorKey = uf_id file @ '':'' @ side_name side @ '':'' @ string_of_nat n @ '':'' @ uh_header hunk,
                   rv_fileId = uf_id file, rv_path = the path, rv_oldPath = uf_oldPath file,
                   rv_newPath = uf_newPath file, rv_side = side, rv_line = n, rv_hunk = uh_header hunk,
                   rv_context =
                     map (\<lambda>e. \<lparr>xl_old = ul_old e, xl_new = ul_new e, xl_prefix = ul_prefix e,
                               xl_text = ul_content e\<rparr>)
                       (drop (lineIndex - 2) (take (min (length (uh_lines hunk)) (lineIndex + 3)) (uh_lines hunk)))\<rparr>))"

end
