(* ===== verification/UnifiedDiffCorrect.thy ===== *)
theory UnifiedDiffCorrect
  imports UnifiedDiff
begin

text \<open>
  Correctness of the unified diff parser: the counts of a file and of the document are those of
  the lines it lists, line numbers run from the hunk header without gaps, file identities are
  distinct, a printed hunk is read back but for lines that look like a file header, and a review anchor points at the line it was made for.
\<close>

section \<open>The parser's invariant\<close>

definition hunk_count :: "line_kind \<Rightarrow> udiff_hunk \<Rightarrow> nat" where
  "hunk_count k h = length (filter (\<lambda>l. ul_kind l = k) (uh_lines h))"

definition hunks_count :: "line_kind \<Rightarrow> udiff_hunk list \<Rightarrow> nat" where
  "hunks_count k hs = sum_list (map (hunk_count k) hs)"

definition old_numbers :: "udiff_hunk \<Rightarrow> nat list" where
  "old_numbers h = List.map_filter ul_old (uh_lines h)"

definition new_numbers :: "udiff_hunk \<Rightarrow> nat list" where
  "new_numbers h = List.map_filter ul_new (uh_lines h)"

definition line_ok :: "udiff_line \<Rightarrow> bool" where
  "line_ok l \<longleftrightarrow>
     (ul_old l \<noteq> None \<longleftrightarrow> ul_kind l \<in> {LContext, LRemove}) \<and>
     (ul_new l \<noteq> None \<longleftrightarrow> ul_kind l \<in> {LContext, LAdd})"

definition hunk_ok :: "udiff_hunk \<Rightarrow> bool" where
  "hunk_ok h \<longleftrightarrow>
     list_all line_ok (uh_lines h) \<and>
     old_numbers h = [uh_oldStart h..<uh_oldStart h + hunk_count LContext h + hunk_count LRemove h] \<and>
     new_numbers h = [uh_newStart h..<uh_newStart h + hunk_count LContext h + hunk_count LAdd h]"

definition file_ok :: "nat \<Rightarrow> nat \<Rightarrow> udiff_hunk list \<Rightarrow> bool" where
  "file_ok a d hs \<longleftrightarrow> a = hunks_count LAdd hs \<and> d = hunks_count LRemove hs \<and> list_all hunk_ok hs"

definition current_hunks :: "parse_state \<Rightarrow> progress_file \<Rightarrow> udiff_hunk list" where
  "current_hunks s f = pf_hunks f @ (case ps_hunk s of None \<Rightarrow> [] | Some h \<Rightarrow> [h])"

definition ids_from :: "udiff_file list \<Rightarrow> bool" where
  "ids_from fs \<longleftrightarrow>
     (\<forall>i < length fs. uf_id (fs ! i) = uf_displayPath (fs ! i) @ '':'' @ string_of_nat i)"

definition parse_inv :: "parse_state \<Rightarrow> bool" where
  "parse_inv s \<longleftrightarrow>
     list_all (\<lambda>f. file_ok (uf_additions f) (uf_deletions f) (uf_hunks f)) (ps_files s) \<and>
     ids_from (ps_files s) \<and>
     (case ps_file s of
        None \<Rightarrow> ps_hunk s = None
      | Some f \<Rightarrow> file_ok (pf_additions f) (pf_deletions f) (current_hunks s f)) \<and>
     (case ps_hunk s of
        None \<Rightarrow> True
      | Some h \<Rightarrow>
          ps_old s = uh_oldStart h + hunk_count LContext h + hunk_count LRemove h \<and>
          ps_new s = uh_newStart h + hunk_count LContext h + hunk_count LAdd h)"

lemma hunks_count_append [simp]: "hunks_count k (xs @ ys) = hunks_count k xs + hunks_count k ys"
  by (simp add: hunks_count_def)

lemma hunks_count_single [simp]: "hunks_count k [h] = hunk_count k h" "hunks_count k [] = 0"
  by (simp_all add: hunks_count_def)

lemma hunk_count_push [simp]:
  "hunk_count k (push_line l h) = hunk_count k h + (if ul_kind l = k then 1 else 0)"
  by (simp add: hunk_count_def push_line_def)

lemma push_line_sel [simp]:
  "uh_oldStart (push_line l h) = uh_oldStart h" "uh_newStart (push_line l h) = uh_newStart h"
  "uh_lines (push_line l h) = uh_lines h @ [l]" "uh_header (push_line l h) = uh_header h"
  by (simp_all add: push_line_def)

lemma map_filter_snoc: "List.map_filter f (xs @ [x]) = List.map_filter f xs @ (case f x of None \<Rightarrow> [] | Some y \<Rightarrow> [y])"
  by (simp add: map_filter_def split: option.splits)

lemma hunk_ok_push:
  assumes "hunk_ok h" "line_ok l"
    and "ul_old l \<noteq> None \<Longrightarrow> ul_old l = Some (uh_oldStart h + hunk_count LContext h + hunk_count LRemove h)"
    and "ul_new l \<noteq> None \<Longrightarrow> ul_new l = Some (uh_newStart h + hunk_count LContext h + hunk_count LAdd h)"
  shows "hunk_ok (push_line l h)"
  using assms
  by (cases "ul_kind l") (auto simp: hunk_ok_def old_numbers_def new_numbers_def map_filter_snoc line_ok_def)

lemma parse_inv_flushHunk: "parse_inv s \<Longrightarrow> parse_inv (flushHunk s)"
  by (auto simp: parse_inv_def flushHunk_def current_hunks_def split: option.splits)

lemma flushHunk_none: "parse_inv s \<Longrightarrow> ps_hunk (flushHunk s) = None"
  by (auto simp: parse_inv_def flushHunk_def split: option.splits)

lemma ids_from_snoc: "ids_from fs \<Longrightarrow> ids_from (fs @ [finalizeFile f (length fs)])"
  by (auto simp: ids_from_def nth_append finalizeFile_def Let_def less_Suc_eq)

lemma finalizeFile_sel [simp]:
  "uf_additions (finalizeFile f i) = pf_additions f" "uf_deletions (finalizeFile f i) = pf_deletions f"
  "uf_hunks (finalizeFile f i) = pf_hunks f"
  by (simp_all add: finalizeFile_def Let_def)

lemma parse_inv_flushFile:
  assumes "parse_inv s"
  shows "parse_inv (flushFile s) \<and> ps_file (flushFile s) = None"
proof (cases "ps_file s")
  case None
  then show ?thesis using assms by (simp add: flushFile_def)
next
  case (Some f)
  define t where "t = flushHunk s"
  have t: "parse_inv t" "ps_hunk t = None"
    using assms by (simp_all add: t_def parse_inv_flushHunk flushHunk_none)
  obtain g where g: "ps_file t = Some g"
    using Some by (cases "ps_hunk s") (simp_all add: t_def flushHunk_def)
  show ?thesis
    using t g Some ids_from_snoc
    by (auto simp: flushFile_def Let_def parse_inv_def current_hunks_def simp flip: t_def)
qed

lemma parse_inv_hunk_line:
  assumes "parse_inv s" "ps_file s = Some f" "ps_hunk s = Some h"
  shows "parse_inv (parse_hunk_line line f h s)"
proof -
  have h: "hunk_ok h" "ps_old s = uh_oldStart h + hunk_count LContext h + hunk_count LRemove h"
    "ps_new s = uh_newStart h + hunk_count LContext h + hunk_count LAdd h"
    using assms by (auto simp: parse_inv_def file_ok_def current_hunks_def)
  show ?thesis
    using assms h
    by (auto simp: parse_inv_def parse_hunk_line_def file_ok_def current_hunks_def
        intro!: hunk_ok_push simp: line_ok_def)
qed

lemma applyFileMetadata_counts [simp]:
  "pf_additions (applyFileMetadata l f) = pf_additions f"
  "pf_deletions (applyFileMetadata l f) = pf_deletions f"
  "pf_hunks (applyFileMetadata l f) = pf_hunks f"
  by (simp_all add: applyFileMetadata_def Let_def)

lemma parse_inv_line: "parse_inv s \<Longrightarrow> parse_inv (parse_line line s)"
proof -
  assume inv: "parse_inv s"
  note ff = parse_inv_flushFile [OF inv]
  have 1: "parse_inv ((flushFile s)\<lparr>ps_file := Some \<lparr>pf_oldPath = a, pf_newPath = b, pf_displayPath = c,
      pf_status = d, pf_additions = 0, pf_deletions = 0, pf_hunks = []\<rparr>\<rparr>)" for a b c d
    using ff by (auto simp: parse_inv_def file_ok_def current_hunks_def)
  have 2: "parse_inv ((flushHunk s)\<lparr>ps_old := a, ps_new := b, ps_hunk := Some \<lparr>uh_header = hd,
      uh_oldStart = a, uh_oldCount = oc, uh_newStart = b, uh_newCount = nc, uh_lines = []\<rparr>\<rparr>)"
    if "ps_file s = Some f" for a b hd oc nc f
    using parse_inv_flushHunk [OF inv] flushHunk_none [OF inv] that
    by (auto simp: parse_inv_def flushHunk_def file_ok_def current_hunks_def hunk_ok_def hunk_count_def
        old_numbers_def new_numbers_def map_filter_def split: option.splits)
  have 3: "parse_inv (s\<lparr>ps_file := Some (applyFileMetadata l f)\<rparr>)"
    if "ps_file s = Some f" "ps_hunk s = None" for l f
    using inv that by (simp add: parse_inv_def current_hunks_def)
  show ?thesis
    using inv 1 2 3 parse_inv_flushHunk [OF inv] parse_inv_hunk_line [OF inv]
    by (auto simp: parse_line_def Let_def split: option.splits prod.splits)
qed

lemma parse_inv_fold: "parse_inv s \<Longrightarrow> parse_inv (fold parse_line ls s)"
  by (induction ls arbitrary: s) (auto simp: parse_inv_line)

lemma parse_result:
  "parse_inv (flushFile (fold parse_line ls initial_parse))"
proof -
  have "parse_inv initial_parse" by (simp add: parse_inv_def initial_parse_def ids_from_def)
  then show ?thesis using parse_inv_fold parse_inv_flushFile by blast
qed

lemma fold_add_sum: "fold (\<lambda>x t. t + f x) xs (n :: nat) = n + sum_list (map f xs)"
  by (induction xs arbitrary: n) auto

text \<open>
  Counts of a parsed diff. For every input, the additions and deletions shown for a file are
  the numbers of added and removed lines in its hunks, and the totals of the document are the
  sums over the files.
\<close>

theorem unified_diff_counts:
  "list_all (\<lambda>f. uf_additions f = sum_list (map (hunk_count LAdd) (uf_hunks f)) \<and>
                 uf_deletions f = sum_list (map (hunk_count LRemove) (uf_hunks f)))
     (ud_files (parseUnifiedGitDiff raw)) \<and>
   ud_totalAdditions (parseUnifiedGitDiff raw) = sum_list (map uf_additions (ud_files (parseUnifiedGitDiff raw))) \<and>
   ud_totalDeletions (parseUnifiedGitDiff raw) = sum_list (map uf_deletions (ud_files (parseUnifiedGitDiff raw)))"
  using parse_result
  by (auto simp: parseUnifiedGitDiff_def Let_def fold_add_sum parse_inv_def file_ok_def hunks_count_def
      list_all_iff)

text \<open>
  Line numbers of a parsed diff. In every hunk of every file the old line numbers of the
  context and removed lines count up from the old start of the header without gaps, and the new
  numbers of the context and added lines from the new start; lines of other kinds carry none.
\<close>

theorem unified_diff_numbers:
  "list_all (\<lambda>f. list_all (\<lambda>h.
       List.map_filter ul_old (uh_lines h) =
         [uh_oldStart h..<uh_oldStart h + hunk_count LContext h + hunk_count LRemove h] \<and>
       List.map_filter ul_new (uh_lines h) =
         [uh_newStart h..<uh_newStart h + hunk_count LContext h + hunk_count LAdd h] \<and>
       list_all (\<lambda>l. (ul_old l \<noteq> None) = (ul_kind l = LContext \<or> ul_kind l = LRemove) \<and>
                     (ul_new l \<noteq> None) = (ul_kind l = LContext \<or> ul_kind l = LAdd)) (uh_lines h))
     (uf_hunks f)) (ud_files (parseUnifiedGitDiff raw))"
  using parse_result
  by (auto simp: parseUnifiedGitDiff_def Let_def parse_inv_def file_ok_def hunk_ok_def old_numbers_def
      new_numbers_def list_all_iff line_ok_def)


section \<open>File identities\<close>

lemma digit_not_colon: "CHR '':'' \<notin> set (string_of_nat n)"
proof
  assume "CHR '':'' \<in> set (string_of_nat n)"
  then obtain d where "d < 10" "CHR '':'' = digit_char d" using string_of_nat_digits by blast
  then have "char_digit CHR '':'' = Some d" using char_digit_digit_char by metis
  then show False by (simp add: char_digit_def)
qed

lemma id_index: "a @ '':'' @ string_of_nat i = b @ '':'' @ string_of_nat j \<Longrightarrow> i = j"
  using last_separator_inject [OF digit_not_colon digit_not_colon] by simp

text \<open>
  No two files of a parsed diff share their identity, even when the diff lists a path twice.
\<close>

theorem unified_diff_ids:
  "distinct (map uf_id (ud_files (parseUnifiedGitDiff raw)))"
proof -
  have "ids_from (ud_files (parseUnifiedGitDiff raw))"
    using parse_result by (simp add: parseUnifiedGitDiff_def Let_def parse_inv_def)
  then show ?thesis by (auto simp: distinct_conv_nth ids_from_def dest: id_index [simplified])
qed


section \<open>A printed hunk is read back\<close>

datatype edit = Keep string | Ins string | Del string

fun edit_line :: "edit \<Rightarrow> string" where
  "edit_line (Keep c) = '' '' @ c"
| "edit_line (Ins c) = ''+'' @ c"
| "edit_line (Del c) = ''-'' @ c"

fun edit_text :: "edit \<Rightarrow> string" where
  "edit_text (Keep c) = c"
| "edit_text (Ins c) = c"
| "edit_text (Del c) = c"

text \<open>An added or removed line that, printed with its mark, starts like the path line of a file header.\<close>

fun header_like :: "edit \<Rightarrow> bool" where
  "header_like (Keep c) \<longleftrightarrow> False"
| "header_like (Ins c) \<longleftrightarrow> starts_with c ''++ ''"
| "header_like (Del c) \<longleftrightarrow> starts_with c ''-- ''"

text \<open>The rows the edits are read as: numbered, or without a number where they look like a header.\<close>

fun numbered :: "nat \<Rightarrow> nat \<Rightarrow> edit list \<Rightarrow> udiff_line list" where
  "numbered o' n [] = []"
| "numbered o' n (Keep c # es) =
     \<lparr>ul_kind = LContext, ul_prefix = '' '', ul_content = c, ul_old = Some o', ul_new = Some n\<rparr> #
     numbered (o' + 1) (n + 1) es"
| "numbered o' n (Ins c # es) =
     (if header_like (Ins c)
      then \<lparr>ul_kind = LMeta, ul_prefix = '' '', ul_content = ''+'' @ c, ul_old = None, ul_new = None\<rparr> # numbered o' n es
      else \<lparr>ul_kind = LAdd, ul_prefix = ''+'', ul_content = c, ul_old = None, ul_new = Some n\<rparr> # numbered o' (n + 1) es)"
| "numbered o' n (Del c # es) =
     (if header_like (Del c)
      then \<lparr>ul_kind = LMeta, ul_prefix = '' '', ul_content = ''-'' @ c, ul_old = None, ul_new = None\<rparr> # numbered o' n es
      else \<lparr>ul_kind = LRemove, ul_prefix = ''-'', ul_content = c, ul_old = Some o', ul_new = None\<rparr> # numbered (o' + 1) n es)"

definition old_size :: "edit list \<Rightarrow> nat" where
  "old_size es = length (filter (\<lambda>e. case e of Ins _ \<Rightarrow> False | _ \<Rightarrow> True) es)"

definition new_size :: "edit list \<Rightarrow> nat" where
  "new_size es = length (filter (\<lambda>e. case e of Del _ \<Rightarrow> False | _ \<Rightarrow> True) es)"

definition ins_size :: "edit list \<Rightarrow> nat" where
  "ins_size es = length (filter (\<lambda>e. case e of Ins _ \<Rightarrow> True | _ \<Rightarrow> False) es)"

definition del_size :: "edit list \<Rightarrow> nat" where
  "del_size es = length (filter (\<lambda>e. case e of Del _ \<Rightarrow> True | _ \<Rightarrow> False) es)"

lemmas size_defs = old_size_def new_size_def ins_size_def del_size_def

definition hunk_header :: "nat \<Rightarrow> nat \<Rightarrow> nat \<Rightarrow> nat \<Rightarrow> string" where
  "hunk_header os oc ns nc = ''@@ -'' @ string_of_nat os @ '','' @ string_of_nat oc @
     '' +'' @ string_of_nat ns @ '','' @ string_of_nat nc @ '' @@''"

definition print_hunk :: "nat \<Rightarrow> nat \<Rightarrow> edit list \<Rightarrow> string list" where
  "print_hunk os ns es = hunk_header os (old_size es) ns (new_size es) # map edit_line es"

lemma stripAnsi_id: "chr_esc \<notin> set s \<Longrightarrow> stripAnsi s = s"
proof (induction s)
  case (Cons c cs)
  then have "ansi_rest (c # cs) = None" by (auto simp: ansi_rest_def split: list.splits)
  then show ?case using Cons by (simp add: stripAnsi.simps [of "c # cs"])
qed (simp add: stripAnsi.simps ansi_rest_def)

lemma digits_string_of_nat: "c \<in> set (string_of_nat n) \<Longrightarrow> is_digit c"
  using string_of_nat_digits [of c n] by (auto simp: is_digit_def)

lemma take_number_print:
  assumes "\<not> is_digit c"
  shows "take_number (string_of_nat n @ c # r) = Some (n, c # r)"
proof -
  have "takeWhile is_digit (string_of_nat n @ c # r) = string_of_nat n"
    "dropWhile is_digit (string_of_nat n @ c # r) = c # r"
    using assms digits_string_of_nat [of _ n] by (simp_all add: takeWhile_append dropWhile_append)
  then show ?thesis
    using nat_of_digits_string_of_nat [of n] string_of_nat_nonempty [of n]
    by (auto simp: take_number_def split: list.splits)
qed

lemma not_digits [simp]: "\<not> is_digit CHR '',''" "\<not> is_digit CHR '' ''"
  by (simp_all add: is_digit_def char_digit_def)

lemma parseHunkHeader_print: "parseHunkHeader (hunk_header os oc ns nc) = Some (os, oc, ns, nc)"
  by (simp add: parseHunkHeader_def hunk_header_def expect_def starts_with_def take_number_print take_count_def)

lemma header_no_esc: "chr_esc \<notin> set (hunk_header os oc ns nc)"
proof -
  have "\<not> is_digit chr_esc" by (simp add: is_digit_def char_digit_def chr_esc_def)
  then have "chr_esc \<notin> set (string_of_nat n)" for n using digits_string_of_nat by blast
  then show ?thesis by (simp add: hunk_header_def chr_esc_def)
qed

text \<open>The edits that are counted and numbered.\<close>

definition plain_edits :: "edit list \<Rightarrow> edit list" where
  "plain_edits es = filter (\<lambda>e. \<not> header_like e) es"

lemma edit_line_plain: "chr_esc \<notin> set (edit_text e) \<Longrightarrow> stripAnsi (edit_line e) = edit_line e"
  by (rule stripAnsi_id) (cases e; simp add: chr_esc_def)

lemma starts_with_Cons: "starts_with (c # s) (d # p) \<longleftrightarrow> c = d \<and> starts_with s p"
  by (auto simp: starts_with_def)

lemma starts_with_Nil [simp]: "starts_with s []"
  by (simp add: starts_with_def)

lemma parse_edit:
  assumes "chr_esc \<notin> set (edit_text e)" "ps_file s = Some f" "ps_hunk s = Some h"
  shows "parse_line (edit_line e) s =
    s\<lparr>ps_file := Some (f\<lparr>pf_additions := pf_additions f + ins_size (plain_edits [e]),
                          pf_deletions := pf_deletions f + del_size (plain_edits [e])\<rparr>),
      ps_hunk := Some (h\<lparr>uh_lines := uh_lines h @ numbered (ps_old s) (ps_new s) [e]\<rparr>),
      ps_old := ps_old s + old_size (plain_edits [e]), ps_new := ps_new s + new_size (plain_edits [e])\<rparr>"
  using assms edit_line_plain [OF assms(1)]
  by (cases e; cases s)
    (auto simp: parse_line_def parse_hunk_line_def push_line_def size_defs plain_edits_def starts_with_Cons Let_def
      chr_backslash_def)

lemma numbered_Cons:
  "numbered o' n (e # es) =
   numbered o' n [e] @ numbered (o' + old_size (plain_edits [e])) (n + new_size (plain_edits [e])) es"
  by (cases e) (simp_all add: plain_edits_def size_defs)

lemma plain_size_Cons:
  "ins_size (plain_edits (e # es)) = ins_size (plain_edits [e]) + ins_size (plain_edits es)"
  "del_size (plain_edits (e # es)) = del_size (plain_edits [e]) + del_size (plain_edits es)"
  "old_size (plain_edits (e # es)) = old_size (plain_edits [e]) + old_size (plain_edits es)"
  "new_size (plain_edits (e # es)) = new_size (plain_edits [e]) + new_size (plain_edits es)"
  by (cases e; simp add: plain_edits_def size_defs)+

lemma parse_body:
  assumes "list_all (\<lambda>e. chr_esc \<notin> set (edit_text e)) es" "ps_file s = Some f" "ps_hunk s = Some h"
  shows "fold parse_line (map edit_line es) s =
    s\<lparr>ps_file := Some (f\<lparr>pf_additions := pf_additions f + ins_size (plain_edits es),
                          pf_deletions := pf_deletions f + del_size (plain_edits es)\<rparr>),
      ps_hunk := Some (h\<lparr>uh_lines := uh_lines h @ numbered (ps_old s) (ps_new s) es\<rparr>),
      ps_old := ps_old s + old_size (plain_edits es), ps_new := ps_new s + new_size (plain_edits es)\<rparr>"
  using assms
proof (induction es arbitrary: s f h)
  case Nil
  then show ?case by (simp add: size_defs plain_edits_def)
next
  case (Cons e es)
  then have "parse_line (edit_line e) s = s\<lparr>ps_file := Some (f\<lparr>pf_additions := pf_additions f + ins_size (plain_edits [e]),
                          pf_deletions := pf_deletions f + del_size (plain_edits [e])\<rparr>),
      ps_hunk := Some (h\<lparr>uh_lines := uh_lines h @ numbered (ps_old s) (ps_new s) [e]\<rparr>),
      ps_old := ps_old s + old_size (plain_edits [e]), ps_new := ps_new s + new_size (plain_edits [e])\<rparr>"
    by (intro parse_edit) simp_all
  moreover note numbered_Cons [of "ps_old s" "ps_new s" e es] plain_size_Cons [of e es]
  ultimately show ?case using Cons by (simp del: numbered.simps add: add.assoc)
qed

text \<open>
  C19. What the parser reads of a printed hunk. Print any edits whose texts hold no escape character under a hunk
  header with the numbers of lines they have and the line numbers they start at. Inside any file the parser reads
  the edits in order, each with its text, its kind and its old and new line number, and adds their numbers to the
  counts of the file; with one exception: a removed line whose text starts with two dashes and a space, and an added
  line whose text starts with two plus signs and a space, is read as a meta line with its mark, has no
  line number, is not counted, and the lines after it are numbered as if it were not there. So a hunk is read back
  exactly when it has no such line.
\<close>

theorem hunk_roundtrip:
  assumes "list_all (\<lambda>e. chr_esc \<notin> set (edit_text e)) es" "ps_file s = Some f" "ps_hunk s = None"
  shows "fold parse_line (print_hunk os ns es) s =
    s\<lparr>ps_file := Some (f\<lparr>pf_additions := pf_additions f + ins_size (plain_edits es),
                          pf_deletions := pf_deletions f + del_size (plain_edits es)\<rparr>),
      ps_hunk := Some \<lparr>uh_header = hunk_header os (old_size es) ns (new_size es), uh_oldStart = os,
        uh_oldCount = old_size es, uh_newStart = ns, uh_newCount = new_size es, uh_lines = numbered os ns es\<rparr>,
      ps_old := os + old_size (plain_edits es), ps_new := ns + new_size (plain_edits es)\<rparr>"
proof -
  let ?hd = "hunk_header os (old_size es) ns (new_size es)"
  have "parse_line ?hd s = s\<lparr>ps_old := os, ps_new := ns, ps_hunk := Some \<lparr>uh_header = ?hd, uh_oldStart = os,
        uh_oldCount = old_size es, uh_newStart = ns, uh_newCount = new_size es, uh_lines = []\<rparr>\<rparr>"
    using assms stripAnsi_id [OF header_no_esc]
    by (simp add: parse_line_def parseHunkHeader_print flushHunk_def Let_def)
      (simp add: hunk_header_def starts_with_Cons)
  then show ?thesis
    using assms parse_body [OF assms(1), of "parse_line ?hd s" f]
    by (simp add: print_hunk_def)
qed

definition demo_file :: progress_file where
  "demo_file = \<lparr>pf_oldPath = Some ''f'', pf_newPath = Some ''f'', pf_displayPath = ''f'',
     pf_status = FModified, pf_additions = 0, pf_deletions = 0, pf_hunks = []\<rparr>"

theorem hunk_roundtrip_witness:
  "map (\<lambda>l. (ul_content l, ul_old l, ul_new l)) (uh_lines (the (ps_hunk (fold parse_line
      (print_hunk 3 4 [Keep ''a'', Del ''b'', Del ''-- c'', Ins ''d'']) (initial_parse\<lparr>ps_file := Some demo_file\<rparr>))))) =
    [(''a'', Some 3, Some 4), (''b'', Some 4, None), (''--- c'', None, None), (''d'', None, Some 5)]"
  using hunk_roundtrip [of "[Keep ''a'', Del ''b'', Del ''-- c'', Ins ''d'']" "initial_parse\<lparr>ps_file := Some demo_file\<rparr>"
      demo_file 3 4]
  by (simp add: initial_parse_def chr_esc_def starts_with_def)

text \<open>
  A removed line whose own text starts with two dashes and a space (a comment in SQL or Lua)
  is taken for a file header: the parser lists it without a line number, does not count it as a
  deletion, and numbers the old lines after it one too low.
\<close>

theorem dashed_removal_not_counted:
  "(let s = fold parse_line [''--- old comment'', '' kept'']
        (initial_parse\<lparr>ps_file := Some demo_file,
           ps_hunk := Some \<lparr>uh_header = [], uh_oldStart = 1, uh_oldCount = 2, uh_newStart = 1,
                            uh_newCount = 1, uh_lines = []\<rparr>, ps_old := 1, ps_new := 1\<rparr>)
    in map ul_kind (uh_lines (the (ps_hunk s))) = [LMeta, LContext] \<and>
       map ul_old (uh_lines (the (ps_hunk s))) = [None, Some 1] \<and>
       pf_deletions (the (ps_file s)) = 0)"
  by code_simp


section \<open>Review anchors\<close>

text \<open>
  A review comment is anchored at the line it was made on. For a line of a hunk with
  consistent numbers, a target exists exactly when the line is not meta and the file has a path;
  it then names the side the line is on and its number on that side, and its context is a run
  of at most five consecutive lines of the hunk, the line itself among them.
\<close>

theorem review_target_anchor:
  assumes "i < length (uh_lines h)" "line_ok (uh_lines h ! i)"
  shows "(case createGitReviewTarget file h (uh_lines h ! i) i of
      None \<Rightarrow> ul_kind (uh_lines h ! i) = LMeta \<or>
              \<not> truthy (if ul_kind (uh_lines h ! i) = LRemove then or_else (uf_oldPath file) (uf_newPath file)
                        else or_else (uf_newPath file) (uf_oldPath file))
    | Some t \<Rightarrow>
        ul_kind (uh_lines h ! i) \<noteq> LMeta \<and>
        (if rv_side t = OldSide then ul_old (uh_lines h ! i) else ul_new (uh_lines h ! i)) = Some (rv_line t) \<and>
        (rv_side t = OldSide) = (ul_kind (uh_lines h ! i) = LRemove) \<and>
        rv_path t \<noteq> [] \<and> length (rv_context t) \<le> 5 \<and>
        map xl_text (rv_context t) ! (i - (i - 2)) = ul_content (uh_lines h ! i) \<and>
        sublist (map xl_text (rv_context t)) (map ul_content (uh_lines h)))"
proof -
  let ?l = "uh_lines h ! i" and ?c = "drop (i - 2) (take (min (length (uh_lines h)) (i + 3)) (uh_lines h))"
  have 5: "length ?c \<le> 5" by auto
  have e: "i - 2 + (i - (i - 2)) = i" by simp
  have "?c ! (i - (i - 2)) = take (min (length (uh_lines h)) (i + 3)) (uh_lines h) ! (i - 2 + (i - (i - 2)))"
    using assms(1) by (intro nth_drop) auto
  also have "\<dots> = ?l" unfolding e using assms(1) by simp
  finally have nth: "?c ! (i - (i - 2)) = ?l" "i - (i - 2) < length ?c" using assms(1) by auto
  define ctx where "ctx = map (\<lambda>e. \<lparr>xl_old = ul_old e, xl_new = ul_new e, xl_prefix = ul_prefix e, xl_text = ul_content e\<rparr>) ?c"
  have texts: "map xl_text ctx = map ul_content ?c" by (simp add: ctx_def)
  have "sublist (map ul_content ?c) (map ul_content (uh_lines h))"
    by (intro map_mono_sublist) (meson sublist_drop sublist_take sublist_order.order_trans)
  then have ctx: "length ctx \<le> 5" "map xl_text ctx ! (i - (i - 2)) = ul_content ?l"
      "sublist (map xl_text ctx) (map ul_content (uh_lines h))"
    unfolding texts using 5 nth by (simp_all add: ctx_def)
  show ?thesis
    unfolding createGitReviewTarget_def Let_def ctx_def [symmetric]
    using assms(2) ctx by (cases "ul_kind ?l") (auto simp: line_ok_def truthy_def split: option.splits)
qed

theorem review_target_anchor_witness:
  "rv_line (the (createGitReviewTarget (finalizeFile demo_file 0)
      \<lparr>uh_header = ''h'', uh_oldStart = 3, uh_oldCount = 2, uh_newStart = 4, uh_newCount = 2,
       uh_lines = numbered 3 4 [Keep ''a'', Del ''b'', Ins ''c'']\<rparr>
      (numbered 3 4 [Keep ''a'', Del ''b'', Ins ''c''] ! 1) 1)) = 4"
  using review_target_anchor [of 1 "\<lparr>uh_header = ''h'', uh_oldStart = 3, uh_oldCount = 2,
      uh_newStart = 4, uh_newCount = 2, uh_lines = numbered 3 4 [Keep ''a'', Del ''b'', Ins ''c'']\<rparr>"
      "finalizeFile demo_file 0"]
  by (auto simp: line_ok_def finalizeFile_def demo_file_def or_else_def truthy_def starts_with_def Let_def
      split: option.splits if_splits)

end
