(* ===== verification/JsonText.thy ===== *)
theory JsonText
  imports JsValue
begin

text \<open>
  \<open>JSON.stringify\<close>: quoting of strings, arrays of strings and whole values. Quoted strings and
  arrays of strings are read back in one way only. The printing of numbers
  (\<open>Number.prototype.toString\<close>) is the argument \<open>num\<close> of \<open>json_text\<close>.
\<close>

section \<open>\<open>JSON.stringify\<close> of strings and arrays of strings\<close>

definition hex_lower :: "nat \<Rightarrow> char" where
  "hex_lower d = ''0123456789abcdef'' ! d"

definition short_escapes :: "(char \<times> char) list" where
  "short_escapes = [(CHR 0x22, CHR 0x22), (CHR 0x5C, CHR 0x5C), (CHR 0x08, CHR ''b''),
     (CHR 0x0C, CHR ''f''), (CHR 0x0A, CHR ''n''), (CHR 0x0D, CHR ''r''), (CHR 0x09, CHR ''t'')]"

definition json_escape :: "char \<Rightarrow> string" where
  "json_escape c =
     (case map_of short_escapes c of
        Some l \<Rightarrow> [CHR 0x5C, l]
      | None \<Rightarrow>
          if of_char c < (32 :: nat)
          then [CHR 0x5C, CHR ''u'', CHR ''0'', CHR ''0'',
                hex_lower (of_char c div 16), hex_lower (of_char c mod 16)]
          else [c])"

definition json_string :: "string \<Rightarrow> string" where
  "json_string s = CHR 0x22 # concat (map json_escape s) @ [CHR 0x22]"

definition json_string_array :: "string list \<Rightarrow> string" where
  "json_string_array xs = ''['' @ join '','' (map json_string xs) @ '']''"

text \<open>The escapes form a prefix code, so that a quoted string is read back in one way.\<close>

lemma hex_digits_distinct: "distinct ''0123456789abcdef''"
  by code_simp

lemma hex_lower_inject: "d < 16 \<Longrightarrow> e < 16 \<Longrightarrow> hex_lower d = hex_lower e \<longleftrightarrow> d = e"
  unfolding hex_lower_def by (subst nth_eq_iff_index_eq [OF hex_digits_distinct]) auto

lemma short_escape_inverse:
  "map_of short_escapes c = Some l \<Longrightarrow> map_of (map prod.swap short_escapes) l = Some c \<and> l \<noteq> CHR ''u''"
  by (auto simp: short_escapes_def split: if_splits)

lemma short_escape_none: "map_of short_escapes c = None \<Longrightarrow> c \<noteq> CHR 0x22 \<and> c \<noteq> CHR 0x5C"
  by (auto simp: short_escapes_def)

lemma json_escape_prefix_code:
  assumes "json_escape c @ r = json_escape c' @ r'"
  shows "c = c' \<and> r = r'"
proof -
  let ?n = "of_char c :: nat" and ?n' = "of_char c' :: nat"
  have low: "c = c'" if "?n < 32" "?n' < 32" "hex_lower (?n div 16) = hex_lower (?n' div 16)"
      "hex_lower (?n mod 16) = hex_lower (?n' mod 16)"
  proof -
    have "?n div 16 < 16" "?n' div 16 < 16" using that by simp_all
    then have "?n div 16 = ?n' div 16" "?n mod 16 = ?n' mod 16" using that by (simp_all add: hex_lower_inject)
    then have "?n = ?n'" by (metis div_mult_mod_eq)
    then show ?thesis by simp
  qed
  show ?thesis
    using assms low short_escape_inverse [of c] short_escape_inverse [of c'] short_escape_none [of c]
      short_escape_none [of c']
    by (simp add: json_escape_def split: option.splits if_splits)
qed

lemma json_escape_not_quote: "json_escape c @ r \<noteq> CHR 0x22 # r'"
  using short_escape_none [of c] by (auto simp: json_escape_def split: option.splits)

lemma json_body_inject:
  "concat (map json_escape s) @ CHR 0x22 # r = concat (map json_escape s') @ CHR 0x22 # r' \<Longrightarrow> s = s' \<and> r = r'"
proof (induction s arbitrary: s')
  case Nil
  then show ?case using json_escape_not_quote by (cases s') (auto, metis)
next
  case (Cons c cs)
  then obtain c' cs' where s': "s' = c' # cs'"
    using json_escape_not_quote by (cases s') (auto)
  then have "c = c' \<and> concat (map json_escape cs) @ CHR 0x22 # r = concat (map json_escape cs') @ CHR 0x22 # r'"
    using Cons.prems json_escape_prefix_code by fastforce
  with Cons.IH s' show ?case by auto
qed

lemma json_string_inject: "json_string s @ r = json_string s' @ r' \<Longrightarrow> s = s' \<and> r = r'"
  by (simp add: json_string_def) (metis json_body_inject)

lemma json_list_inject:
  "join '','' (map json_string xs) @ CHR '']'' # r = join '','' (map json_string ys) @ CHR '']'' # r' \<Longrightarrow>
   xs = ys \<and> r = r'"
proof (induction xs arbitrary: ys)
  case Nil
  then show ?case by (cases ys; cases "tl ys") (auto simp: json_string_def)
next
  case (Cons x xs)
  have hd: "join '','' (map json_string (z # zs)) @ CHR '']'' # q =
      json_string z @ (if zs = [] then CHR '']'' # q else CHR '','' # join '','' (map json_string zs) @ CHR '']'' # q)" for z zs q
    by (cases zs) auto
  obtain y ys' where ys: "ys = y # ys'" using Cons.prems by (cases ys; cases xs) (auto simp: json_string_def)
  have "x = y \<and> (if xs = [] then CHR '']'' # r else CHR '','' # join '','' (map json_string xs) @ CHR '']'' # r) =
      (if ys' = [] then CHR '']'' # r' else CHR '','' # join '','' (map json_string ys') @ CHR '']'' # r')"
    using Cons.prems unfolding ys hd by (rule json_string_inject)
  then show ?case using Cons.IH [of ys'] ys by (auto split: if_splits)
qed

lemma json_string_array_inject:
  "json_string_array xs @ r = json_string_array ys @ r' \<Longrightarrow> xs = ys \<and> r = r'"
  by (simp add: json_string_array_def) (metis json_list_inject)


section \<open>\<open>JSON.stringify\<close> of values\<close>

fun json_text :: "(rat \<Rightarrow> string) \<Rightarrow> json \<Rightarrow> string" where
  "json_text num JNull = ''null''"
| "json_text num (JBool b) = (if b then ''true'' else ''false'')"
| "json_text num (JNum x) = num x"
| "json_text num (JStr s) = json_string s"
| "json_text num (JArr xs) = ''['' @ join '','' (map (json_text num) xs) @ '']''"
| "json_text num (JObj m) =
     ''{'' @ join '','' (map (\<lambda>(k, v). json_string k @ '':'' @ json_text num v) m) @ ''}''"

text \<open>\<open>utf8ByteLength\<close> on code units below 256.\<close>

definition utf8_bytes :: "string \<Rightarrow> nat" where
  "utf8_bytes s = sum_list (map (\<lambda>c. if of_char c \<le> (127 :: nat) then 1 else 2) s)"

lemma utf8_bytes_append [simp]: "utf8_bytes (xs @ ys) = utf8_bytes xs + utf8_bytes ys"
  by (simp add: utf8_bytes_def)

lemma utf8_bytes_Cons: "utf8_bytes (c # cs) = (if of_char c \<le> (127 :: nat) then 1 else 2) + utf8_bytes cs"
  by (simp add: utf8_bytes_def)

lemma utf8_bytes_Nil [simp]: "utf8_bytes [] = 0"
  by (simp add: utf8_bytes_def)

lemma utf8_bytes_length: "length s \<le> utf8_bytes s"
  by (induction s) (auto simp: utf8_bytes_Cons)

lemma join_snoc: "join sep (xs @ [x]) = (if xs = [] then x else join sep xs @ sep @ x)"
proof (induction xs)
  case (Cons y ys)
  then show ?case by (cases ys) auto
qed simp

end
