(* ===== verification/Submission.thy ===== *)
theory Submission
  imports JsonText "HOL-Library.Word"
begin

unbundle bit_operations_syntax

text \<open>
  Submission of chat messages: the retry controller
  \<^verbatim>\<open>features/chat/turn/controllers/submissionController.ts\<close> and the persisted idempotency cache
  \<^verbatim>\<open>submissionIdempotencyCache.ts\<close>. Time is in milliseconds and an argument of the operations
  that read the clock. A persisted file is the decoded JSON value; its writing is the list
  \<open>ic_written\<close> of values handed to the storage. Parameters of \<open>begin\<close>: the string that the
  injected \<open>createId\<close> returns and the nonce of \<open>createSubmissionNonce\<close> (\<open>expo-crypto\<close>, the web
  crypto object or the clock and \<open>Math.random\<close>).
\<close>

section \<open>Request hashes\<close>

record attachments =
  att_mentions :: "string list"
  att_localImages :: "string list"

text \<open>\<open>fnv1a\<close> on 32-bit words: \<open>Math.imul\<close> is the product modulo \<open>2 ^ 32\<close>.\<close>

fun fnv1a :: "string \<Rightarrow> 32 word \<Rightarrow> 32 word" where
  "fnv1a [] hash = hash"
| "fnv1a (c # cs) hash = fnv1a cs ((hash XOR of_nat (of_char c)) * 0x01000193)"

text \<open>\<open>toString(16).padStart(8, '0')\<close>: eight hexadecimal digits.\<close>

definition hex8 :: "32 word \<Rightarrow> string" where
  "hex8 w = map (\<lambda>i. hex_lower (unat w div 16 ^ i mod 16)) [7, 6, 5, 4, 3, 2, 1, 0]"

definition requestPayload :: "string \<Rightarrow> attachments \<Rightarrow> string" where
  "requestPayload draft att =
     ''['' @ json_string draft @ '','' @ json_string_array (att_mentions att) @ '','' @
     json_string_array (att_localImages att) @ '']''"

definition hashSubmissionRequest :: "string \<Rightarrow> attachments \<Rightarrow> string" where
  "hashSubmissionRequest draft att =
     (let payload = requestPayload draft att;
          low = fnv1a payload 0x811c9dc5;
          high = fnv1a payload (0x9e3779b9 XOR low)
      in hex8 low @ hex8 high)"

definition KEY_SEPARATOR :: string where "KEY_SEPARATOR = [CHR 0x00]"

definition buildKey :: "string \<Rightarrow> string \<Rightarrow> string" where
  "buildKey scopeKey requestHash = scopeKey @ KEY_SEPARATOR @ requestHash"

definition hash_ok :: "string \<Rightarrow> bool" where
  "hash_ok h \<longleftrightarrow> CHR 0x00 \<notin> set h"

lemma hash_ok_hash [simp]: "hash_ok (hashSubmissionRequest d a)"
proof -
  have "hex_lower (n mod 16) \<in> set ''0123456789abcdef''" for n
    unfolding hex_lower_def by (rule nth_mem) simp
  then have "set (hex8 w) \<subseteq> set ''0123456789abcdef''" for w
    unfolding hex8_def set_map by blast
  moreover have "CHR 0x00 \<notin> set ''0123456789abcdef''" by simp
  ultimately show ?thesis unfolding hash_ok_def hashSubmissionRequest_def Let_def by auto
qed

lemma buildKey_inject:
  assumes "hash_ok h" "hash_ok h'"
  shows "buildKey k h = buildKey k' h' \<longleftrightarrow> k = k' \<and> h = h'"
  using assms last_separator_inject [of "CHR 0x00" h h' k k']
  by (simp add: buildKey_def KEY_SEPARATOR_def hash_ok_def)


section \<open>The idempotency cache\<close>

record idem_record =
  ir_submissionId :: string
  ir_updatedAt :: rat

definition SUBMISSION_IDEMPOTENCY_LIMIT :: nat where "SUBMISSION_IDEMPOTENCY_LIMIT = 32"
definition SUBMISSION_IDEMPOTENCY_TTL_MS :: rat where "SUBMISSION_IDEMPOTENCY_TTL_MS = 24 * 60 * 60 * 1000"
definition CHAT_SUBMISSION_IDEMPOTENCY_VERSION :: rat where "CHAT_SUBMISSION_IDEMPOTENCY_VERSION = 1"

definition pruneSubmissionIdempotencyEntries ::
  "(string, idem_record) jsmap \<Rightarrow> rat \<Rightarrow> nat \<Rightarrow> rat \<Rightarrow> (string, idem_record) jsmap" where
  "pruneSubmissionIdempotencyEntries entries now limit ttlMs =
     slice_last limit
       (sort_key (\<lambda>(k, r). ir_updatedAt r) (filter (\<lambda>(k, r). now - ir_updatedAt r \<le> ttlMs) entries))"

definition json_of_record :: "idem_record \<Rightarrow> json" where
  "json_of_record r = JObj [(''submissionId'', JStr (ir_submissionId r)), (''updatedAt'', JNum (ir_updatedAt r))]"

definition serializeSubmissionIdempotencyEntries :: "(string, idem_record) jsmap \<Rightarrow> json" where
  "serializeSubmissionIdempotencyEntries entries =
     JObj [(''version'', JNum CHAT_SUBMISSION_IDEMPOTENCY_VERSION),
           (''entries'', JObj (map (\<lambda>(k, r). (k, json_of_record r)) entries))]"

text \<open>An array is an object, too: its keys are the indices.\<close>

definition toSubmissionIdempotencyEntries :: "json option \<Rightarrow> (string, json) jsmap option" where
  "toSubmissionIdempotencyEntries v =
     (case v of
        Some (JObj o') \<Rightarrow> Some o'
      | Some (JArr xs) \<Rightarrow> Some (zip (map string_of_nat [0..<length xs]) xs)
      | _ \<Rightarrow> None)"

definition parseSubmissionIdempotencyEntry :: "string \<Rightarrow> json \<Rightarrow> idem_record option" where
  "parseSubmissionIdempotencyEntry key value =
     (let rec = toSubmissionIdempotencyEntries (Some value);
          submissionId = (case field rec ''submissionId'' of Some (JStr t) \<Rightarrow> trim t | _ \<Rightarrow> []);
          updatedAt = (case field rec ''updatedAt'' of Some (JNum x) \<Rightarrow> Some x | _ \<Rightarrow> None)
      in if trim key \<noteq> [] \<and> submissionId \<noteq> []
         then map_option (\<lambda>x. \<lparr>ir_submissionId = submissionId, ir_updatedAt = x\<rparr>) updatedAt
         else None)"

text \<open>The argument is the decoded file, \<^const>\<open>None\<close> when it is blank or not JSON.\<close>

definition parseSubmissionIdempotencyEntries :: "json option \<Rightarrow> rat \<Rightarrow> (string, idem_record) jsmap" where
  "parseSubmissionIdempotencyEntries parsed now =
     (let obj = toRecord parsed;
          entries = toSubmissionIdempotencyEntries (field obj ''entries'')
      in if field obj ''version'' \<noteq> Some (JNum CHAT_SUBMISSION_IDEMPOTENCY_VERSION) then []
         else (case entries of
                 None \<Rightarrow> []
               | Some es \<Rightarrow>
                   pruneSubmissionIdempotencyEntries
                     (List.map_filter
                        (\<lambda>(k, v). map_option (\<lambda>r. (k, r)) (parseSubmissionIdempotencyEntry k v)) es)
                     now SUBMISSION_IDEMPOTENCY_LIMIT SUBMISSION_IDEMPOTENCY_TTL_MS))"

record idem_cache =
  ic_path :: "string option"
  ic_limit :: nat
  ic_ttlMs :: rat
  ic_entries :: "(string, idem_record) jsmap"
  ic_written :: "json list"

definition newCache :: "string option \<Rightarrow> nat option \<Rightarrow> rat option \<Rightarrow> idem_cache" where
  "newCache path limit ttl =
     \<lparr>ic_path = path,
      ic_limit = (case limit of None \<Rightarrow> SUBMISSION_IDEMPOTENCY_LIMIT | Some l \<Rightarrow> l),
      ic_ttlMs = (case ttl of None \<Rightarrow> SUBMISSION_IDEMPOTENCY_TTL_MS | Some t \<Rightarrow> t),
      ic_entries = [], ic_written = []\<rparr>"

text \<open>\<open>load\<close>: the file as the storage returned it (outer \<^const>\<open>None\<close>: the read failed).\<close>

definition cache_load :: "json option option \<Rightarrow> rat \<Rightarrow> idem_cache \<Rightarrow> idem_cache" where
  "cache_load raw now c =
     (if ic_path c = None then c
      else c\<lparr>ic_entries := (case raw of None \<Rightarrow> [] | Some p \<Rightarrow> parseSubmissionIdempotencyEntries p now)\<rparr>)"

definition persist :: "idem_cache \<Rightarrow> idem_cache" where
  "persist c =
     (if ic_path c = None then c
      else c\<lparr>ic_written := ic_written c @ [serializeSubmissionIdempotencyEntries (ic_entries c)]\<rparr>)"

definition cache_lookup :: "rat \<Rightarrow> string \<Rightarrow> string \<Rightarrow> idem_cache \<Rightarrow> string option \<times> idem_cache" where
  "cache_lookup now scopeKey requestHash c =
     (case map_get (ic_entries c) (buildKey scopeKey requestHash) of
        None \<Rightarrow> (None, c)
      | Some r \<Rightarrow>
          if now - ir_updatedAt r > ic_ttlMs c
          then (None, c\<lparr>ic_entries := map_del (buildKey scopeKey requestHash) (ic_entries c)\<rparr>)
          else (Some (ir_submissionId r), c))"

definition cache_record :: "rat \<Rightarrow> string \<Rightarrow> string \<Rightarrow> string \<Rightarrow> idem_cache \<Rightarrow> idem_cache" where
  "cache_record now scopeKey requestHash submissionId c =
     persist (c\<lparr>ic_entries :=
       pruneSubmissionIdempotencyEntries
         (map_put (buildKey scopeKey requestHash)
            \<lparr>ir_submissionId = submissionId, ir_updatedAt = now\<rparr> (ic_entries c))
         now (ic_limit c) (ic_ttlMs c)\<rparr>)"

definition cache_clear :: "string \<Rightarrow> string \<Rightarrow> idem_cache \<Rightarrow> idem_cache" where
  "cache_clear scopeKey requestHash c =
     (if \<not> map_has (ic_entries c) (buildKey scopeKey requestHash) then c
      else persist (c\<lparr>ic_entries := map_del (buildKey scopeKey requestHash) (ic_entries c)\<rparr>))"


section \<open>The controller\<close>

text \<open>The interface \<open>SubmissionIdempotencyStore\<close> that the controller depends on.\<close>

record 's idem_store =
  st_lookup :: "rat \<Rightarrow> string \<Rightarrow> string \<Rightarrow> 's \<Rightarrow> string option \<times> 's"
  st_record :: "rat \<Rightarrow> string \<Rightarrow> string \<Rightarrow> string \<Rightarrow> 's \<Rightarrow> 's"
  st_clear :: "string \<Rightarrow> string \<Rightarrow> 's \<Rightarrow> 's"

definition cache_store :: "idem_cache idem_store" where
  "cache_store = \<lparr>st_lookup = cache_lookup, st_record = cache_record, st_clear = cache_clear\<rparr>"

record draft_snapshot =
  ds_scopeKey :: string
  ds_value :: string
  ds_revision :: int

record composer_submission =
  su_id :: string
  su_scopeKey :: string
  su_draft :: string
  su_mentions :: "string list"
  su_localImages :: "string list"
  su_clearedRevision :: "int option"

record controller =
  sc_failed :: "(string, composer_submission) jsmap"
  sc_counter :: nat

definition FAILED_SUBMISSION_LIMIT :: nat where "FAILED_SUBMISSION_LIMIT = 32"

definition newController :: controller where
  "newController = \<lparr>sc_failed = [], sc_counter = 0\<rparr>"

definition submissionScopeKey :: "string \<Rightarrow> string option \<Rightarrow> string" where
  "submissionScopeKey profileId threadId =
     ''['' @ json_string (trim profileId) @ '','' @
     (case threadId of
        None \<Rightarrow> ''null''
      | Some t \<Rightarrow> if trim t = [] then ''null'' else json_string (trim t)) @ '']''"

definition retryKey :: "string \<Rightarrow> string \<Rightarrow> attachments \<Rightarrow> string" where
  "retryKey scopeKey draft att =
     ''['' @ json_string scopeKey @ '','' @ json_string draft @ '','' @
     json_string_array (att_mentions att) @ '','' @ json_string_array (att_localImages att) @ '']''"

definition submission_attachments :: "composer_submission \<Rightarrow> attachments" where
  "submission_attachments su = \<lparr>att_mentions = su_mentions su, att_localImages = su_localImages su\<rparr>"

definition submission_key :: "composer_submission \<Rightarrow> string" where
  "submission_key su = retryKey (su_scopeKey su) (su_draft su) (submission_attachments su)"

definition new_submission :: "string \<Rightarrow> draft_snapshot \<Rightarrow> attachments \<Rightarrow> composer_submission" where
  "new_submission i sn att =
     \<lparr>su_id = i, su_scopeKey = ds_scopeKey sn, su_draft = ds_value sn, su_mentions = att_mentions att,
      su_localImages = att_localImages att, su_clearedRevision = None\<rparr>"

definition digit36 :: "nat \<Rightarrow> char" where
  "digit36 d = ''0123456789abcdefghijklmnopqrstuvwxyz'' ! d"

fun base36 :: "nat \<Rightarrow> string" where
  "base36 n = (if n < 36 then [digit36 n] else base36 (n div 36) @ [digit36 (n mod 36)])"

declare base36.simps [simp del]

definition begin_submission ::
  "'s idem_store option \<Rightarrow> string \<Rightarrow> string \<Rightarrow> rat \<Rightarrow> draft_snapshot \<Rightarrow> attachments \<Rightarrow>
   controller \<times> 's \<Rightarrow> composer_submission \<times> controller \<times> 's" where
  "begin_submission store createId nonce now sn att cs =
     (let (c, s) = cs; key = retryKey (ds_scopeKey sn) (ds_value sn) att
      in case map_get (sc_failed c) key of
           Some retry \<Rightarrow>
             (retry\<lparr>su_clearedRevision := None\<rparr>, c\<lparr>sc_failed := map_del key (sc_failed c)\<rparr>, s)
         | None \<Rightarrow>
             let (persisted, s1) =
                   (case store of
                      None \<Rightarrow> (None, s)
                    | Some st \<Rightarrow> st_lookup st now (ds_scopeKey sn) (hashSubmissionRequest (ds_value sn) att) s)
             in if (case persisted of None \<Rightarrow> False | Some i \<Rightarrow> i \<noteq> [])
                then (new_submission (the persisted) sn att, c, s1)
                else
                  let c1 = c\<lparr>sc_counter := Suc (sc_counter c)\<rparr>; generated = trim createId;
                      i = (if generated \<noteq> [] then generated
                           else ''submission-'' @ nonce @ ''-'' @ base36 (sc_counter c1))
                  in (new_submission i sn att, c1, s1))"

definition markCleared :: "composer_submission \<Rightarrow> int \<Rightarrow> composer_submission" where
  "markCleared su revision = su\<lparr>su_clearedRevision := Some revision\<rparr>"

function drop_oldest :: "(string, composer_submission) jsmap \<Rightarrow> (string, composer_submission) jsmap" where
  "drop_oldest m =
     (if length m > FAILED_SUBMISSION_LIMIT
      then (case m of
              [] \<Rightarrow> m
            | (k, v) # rest \<Rightarrow> if k = [] then m else drop_oldest (map_del k m))
      else m)"
  by pat_completeness auto
termination
  by (relation "measure length") (auto intro: le_imp_less_Suc length_map_del_le)

declare drop_oldest.simps [simp del]

definition fail_submission ::
  "'s idem_store option \<Rightarrow> rat \<Rightarrow> composer_submission \<Rightarrow> draft_snapshot \<Rightarrow> controller \<times> 's \<Rightarrow>
   bool \<times> controller \<times> 's" where
  "fail_submission store now su current cs =
     (let (c, s) = cs; key = submission_key su;
          failed = drop_oldest (map_put key su (map_del key (sc_failed c)));
          s1 = (case store of
                  None \<Rightarrow> s
                | Some st \<Rightarrow> st_record st now (su_scopeKey su)
                    (hashSubmissionRequest (su_draft su) (submission_attachments su)) (su_id su) s)
      in (su_clearedRevision su \<noteq> None \<and> ds_scopeKey current = su_scopeKey su \<and>
          Some (ds_revision current) = su_clearedRevision su \<and> ds_value current = [],
          c\<lparr>sc_failed := failed\<rparr>, s1))"

definition succeed_submission ::
  "'s idem_store option \<Rightarrow> composer_submission \<Rightarrow> controller \<times> 's \<Rightarrow> controller \<times> 's" where
  "succeed_submission store su cs =
     (let (c, s) = cs
      in (c\<lparr>sc_failed := map_del (submission_key su) (sc_failed c)\<rparr>,
          case store of
            None \<Rightarrow> s
          | Some st \<Rightarrow> st_clear st (su_scopeKey su)
              (hashSubmissionRequest (su_draft su) (submission_attachments su)) s))"

end
