(* ===== verification/SubmissionCorrect.thy ===== *)
theory SubmissionCorrect
  imports Submission
begin

text \<open>
  Correctness of submissions: a retry of a failed submission keeps its identity, in the session
  and after a restart; a submission always carries what was asked for; success forgets it; and
  both the retry map and the cache are bounded.
\<close>

section \<open>Pruning\<close>

lemma insort_key_snoc: "f x \<le> f y \<Longrightarrow> insort_key f x (zs @ [y]) = insort_key f x zs @ [y]"
  by (induction zs) auto

lemma sort_key_snoc_max: "(\<forall>x \<in> set xs. f x \<le> f y) \<Longrightarrow> sort_key f (xs @ [y]) = sort_key f xs @ [y]"
  by (induction xs) (auto simp: insort_key_snoc)

lemma set_prune: "set (pruneSubmissionIdempotencyEntries m now l ttl) \<subseteq> set m"
  using set_slice_last by (fastforce simp: pruneSubmissionIdempotencyEntries_def)

lemma length_prune: "length (pruneSubmissionIdempotencyEntries m now l ttl) \<le> l"
  by (simp add: pruneSubmissionIdempotencyEntries_def)

lemma map_wf_sort_key: "map_wf m \<Longrightarrow> map_wf (sort_key f m)"
  by (simp add: distinct_map)

lemma map_wf_slice_last: "map_wf m \<Longrightarrow> map_wf (slice_last n m)"
  by (simp add: slice_last_def distinct_map distinct_drop) (meson inj_on_subset set_drop_subset)

lemma map_wf_prune_entries: "map_wf m \<Longrightarrow> map_wf (pruneSubmissionIdempotencyEntries m now l ttl)"
  by (simp add: pruneSubmissionIdempotencyEntries_def map_wf_slice_last map_wf_sort_key)

definition entries_ok :: "rat \<Rightarrow> nat \<Rightarrow> (string, idem_record) jsmap \<Rightarrow> bool" where
  "entries_ok now limit m \<longleftrightarrow>
     map_wf m \<and> length m \<le> limit \<and> (\<forall>(k, r) \<in> set m. ir_updatedAt r \<le> now)"

text \<open>The newest entry survives pruning.\<close>

lemma prune_keeps_newest:
  assumes "entries_ok now limit m" "1 \<le> limit" "0 \<le> ttl" "ir_updatedAt r = now"
  shows "(k, r) \<in> set (pruneSubmissionIdempotencyEntries (map_put k r m) now limit ttl)"
proof -
  let ?fresh = "\<lambda>(k :: string, r). now - ir_updatedAt r \<le> ttl" and ?t = "\<lambda>(k :: string, r). ir_updatedAt r"
  have new: "?fresh (k, r)" using assms by simp
  show ?thesis
  proof (cases "map_get m k")
    case None
    then have "filter ?fresh (map_put k r m) = filter ?fresh m @ [(k, r)]"
      using new by (simp add: map_put_absent)
    moreover have "\<forall>x \<in> set (filter ?fresh m). ?t x \<le> ?t (k, r)"
      using assms by (auto simp: entries_ok_def)
    ultimately have "sort_key ?t (filter ?fresh (map_put k r m)) = sort_key ?t (filter ?fresh m) @ [(k, r)]"
      by (simp only: sort_key_snoc_max)
    then show ?thesis
      using assms(2) by (simp add: pruneSubmissionIdempotencyEntries_def slice_last_def Suc_diff_le)
  next
    case (Some r0)
    then have "length (map_put k r m) \<le> limit" using assms(1) by (simp add: length_map_put entries_ok_def)
    then have "length (filter ?fresh (map_put k r m)) \<le> limit"
      using length_filter_le order_trans by blast
    then have "set (pruneSubmissionIdempotencyEntries (map_put k r m) now limit ttl) =
        set (filter ?fresh (map_put k r m))"
      by (simp add: pruneSubmissionIdempotencyEntries_def)
    moreover have "(k, r) \<in> set (map_put k r m)"
      using map_get_put [of k r m k] by (auto dest: map_of_SomeD)
    ultimately show ?thesis using new by simp
  qed
qed


section \<open>The store and its laws\<close>

text \<open>
  What the controller relies on. The invariant depends on the time of the last operation; the
  clock does not run backwards.
\<close>

locale idempotency_store =
  fixes store :: "'s idem_store" and invar :: "rat \<Rightarrow> 's \<Rightarrow> bool"
  assumes record_invar: "invar now s \<Longrightarrow> invar now (st_record store now k h i s)"
    and clear_invar: "invar now s \<Longrightarrow> invar now (st_clear store k h s)"
    and lookup_invar: "invar now s \<Longrightarrow> invar now (snd (st_lookup store now k h s))"
    and invar_mono: "invar now s \<Longrightarrow> now \<le> now' \<Longrightarrow> invar now' s"
    and lookup_recorded: "invar now s \<Longrightarrow> fst (st_lookup store now k h (st_record store now k h i s)) = Some i"
    and lookup_recorded_other: "invar now s \<Longrightarrow> hash_ok h \<Longrightarrow> hash_ok h' \<Longrightarrow> (k, h) \<noteq> (k', h') \<Longrightarrow>
      fst (st_lookup store now k' h' (st_record store now k h i s)) = Some j \<Longrightarrow>
      fst (st_lookup store now k' h' s) = Some j"
    and lookup_cleared: "invar now s \<Longrightarrow> fst (st_lookup store now k h (st_clear store k h s)) = None"
begin

lemma retry_from_store:
  assumes "invar now s" "i \<noteq> []" "map_get (sc_failed c) (retryKey (ds_scopeKey sn) (ds_value sn) att) = None"
    and "s' = st_record store now (ds_scopeKey sn) (hashSubmissionRequest (ds_value sn) att) i s"
  shows "su_id (fst (begin_submission (Some store) createId nonce now sn att (c, s'))) = i"
  using assms lookup_recorded [OF assms(1), of "ds_scopeKey sn" "hashSubmissionRequest (ds_value sn) att" i]
  by (simp add: begin_submission_def Let_def case_prod_unfold new_submission_def)

lemma fresh_after_success:
  assumes "invar now s" "succeed_submission (Some store) su (c, s) = (c', s')"
    and "ds_scopeKey sn = su_scopeKey su" "ds_value sn = su_draft su" "att = submission_attachments su"
  shows "su_id (fst (begin_submission (Some store) createId nonce now sn att (c', s'))) =
    (if trim createId \<noteq> [] then trim createId
     else ''submission-'' @ nonce @ ''-'' @ base36 (Suc (sc_counter c)))"
proof -
  have s': "s' = st_clear store (su_scopeKey su) (hashSubmissionRequest (su_draft su) (submission_attachments su)) s"
    "map_get (sc_failed c') (submission_key su) = None" "sc_counter c' = sc_counter c"
    using assms(2) by (auto simp: succeed_submission_def map_get_del)
  show ?thesis
    using s' assms(3-5) lookup_cleared [OF assms(1), of "su_scopeKey su"
        "hashSubmissionRequest (su_draft su) (submission_attachments su)"]
    by (simp add: begin_submission_def Let_def case_prod_unfold new_submission_def submission_key_def)
qed

end

definition cache_invar :: "rat \<Rightarrow> idem_cache \<Rightarrow> bool" where
  "cache_invar now c \<longleftrightarrow>
     entries_ok now (ic_limit c) (ic_entries c) \<and> 1 \<le> ic_limit c \<and> 0 \<le> ic_ttlMs c"

lemma persist_sel [simp]:
  "ic_entries (persist c) = ic_entries c" "ic_limit (persist c) = ic_limit c" "ic_ttlMs (persist c) = ic_ttlMs c"
  "ic_path (persist c) = ic_path c"
  by (simp_all add: persist_def)

lemma entries_ok_del: "entries_ok now l m \<Longrightarrow> entries_ok now l (map_del k m)"
  using set_map_del [of k m] length_map_del_le [of k m] by (fastforce simp: entries_ok_def)

lemma entries_ok_prune:
  assumes "entries_ok now l m" "ir_updatedAt r = now"
  shows "entries_ok now l (pruneSubmissionIdempotencyEntries (map_put k r m) now l ttl)"
  using assms set_prune [of "map_put k r m" now l ttl] set_map_put [of k r m] length_prune
    map_wf_prune_entries [of "map_put k r m"]
  unfolding entries_ok_def by fastforce

lemma map_get_mem: "map_wf m \<Longrightarrow> map_get m k = Some r \<longleftrightarrow> (k, r) \<in> set m"
  by (simp add: map_of_eq_Some_iff)

interpretation idem: idempotency_store cache_store cache_invar
proof
  fix now s k h i
  assume inv: "cache_invar now s"
  show rec: "cache_invar now (st_record cache_store now k h i s)"
    using inv by (simp add: cache_store_def cache_record_def cache_invar_def entries_ok_prune)
  show "cache_invar now (st_clear cache_store k h s)"
    using inv by (simp add: cache_store_def cache_clear_def cache_invar_def entries_ok_del)
  show "cache_invar now (snd (st_lookup cache_store now k h s))"
    using inv by (simp add: cache_store_def cache_lookup_def cache_invar_def entries_ok_del split: option.split)
  show "cache_invar now' s" if "now \<le> now'" for now'
    using inv that by (fastforce simp: cache_invar_def entries_ok_def)
  show "fst (st_lookup cache_store now k h (st_clear cache_store k h s)) = None"
    by (simp add: cache_store_def cache_clear_def cache_lookup_def map_get_del)
  let ?r = "\<lparr>ir_submissionId = i, ir_updatedAt = now\<rparr>"
  let ?es = "pruneSubmissionIdempotencyEntries (map_put (buildKey k h) ?r (ic_entries s)) now (ic_limit s) (ic_ttlMs s)"
  have wf: "map_wf ?es" using inv by (auto simp: cache_invar_def entries_ok_def intro!: map_wf_prune_entries)
  have "map_get ?es (buildKey k h) = Some ?r"
    using inv prune_keeps_newest [of now "ic_limit s" "ic_entries s" "ic_ttlMs s" ?r "buildKey k h"]
    by (simp add: cache_invar_def map_get_mem [OF wf])
  then show "fst (st_lookup cache_store now k h (st_record cache_store now k h i s)) = Some i"
    using inv by (simp add: cache_store_def cache_record_def cache_lookup_def cache_invar_def)
  show "fst (st_lookup cache_store now k' h' s) = Some j"
    if neq: "hash_ok h" "hash_ok h'" "(k, h) \<noteq> (k', h')"
      and found: "fst (st_lookup cache_store now k' h' (st_record cache_store now k h i s)) = Some j" for k' h' j
  proof -
    obtain r where r: "map_get ?es (buildKey k' h') = Some r" "j = ir_submissionId r"
      "\<not> now - ir_updatedAt r > ic_ttlMs s"
      using found by (auto simp: cache_store_def cache_record_def cache_lookup_def split: option.splits if_splits)
    have "(buildKey k' h', r) \<in> set (map_put (buildKey k h) ?r (ic_entries s))"
      using r(1) wf set_prune unfolding map_get_mem [OF wf] by blast
    then have "map_get (map_put (buildKey k h) ?r (ic_entries s)) (buildKey k' h') = Some r"
      using inv by (simp add: cache_invar_def entries_ok_def map_get_mem)
    then have "map_get (ic_entries s) (buildKey k' h') = Some r"
      using neq by (auto simp: map_get_put buildKey_inject split: if_splits)
    then show ?thesis using r by (simp add: cache_store_def cache_lookup_def)
  qed
qed


section \<open>The retry map\<close>

lemma retryKey_inject:
  "retryKey k d a = retryKey k' d' a' \<longleftrightarrow>
   k = k' \<and> d = d' \<and> att_mentions a = att_mentions a' \<and> att_localImages a = att_localImages a'"
proof
  assume "retryKey k d a = retryKey k' d' a'"
  then have "json_string k @ '','' @ json_string d @ '','' @ json_string_array (att_mentions a) @ '','' @
        json_string_array (att_localImages a) @ '']'' =
      json_string k' @ '','' @ json_string d' @ '','' @ json_string_array (att_mentions a') @ '','' @
        json_string_array (att_localImages a') @ '']''"
    by (simp add: retryKey_def)
  note 1 = json_string_inject [OF this]
  then have "json_string d @ '','' @ json_string_array (att_mentions a) @ '','' @
        json_string_array (att_localImages a) @ '']'' =
      json_string d' @ '','' @ json_string_array (att_mentions a') @ '','' @
        json_string_array (att_localImages a') @ '']''" by simp
  note 2 = json_string_inject [OF this]
  then have "json_string_array (att_mentions a) @ '','' @ json_string_array (att_localImages a) @ '']'' =
      json_string_array (att_mentions a') @ '','' @ json_string_array (att_localImages a') @ '']''" by simp
  note 3 = json_string_array_inject [OF this]
  then have "json_string_array (att_localImages a) @ '']'' = json_string_array (att_localImages a') @ '']''" by simp
  note 4 = json_string_array_inject [OF this]
  from 1 2 3 4 show "k = k' \<and> d = d' \<and> att_mentions a = att_mentions a' \<and> att_localImages a = att_localImages a'"
    by simp
qed (simp add: retryKey_def)

lemma retryKey_nonempty [simp]: "retryKey k d a \<noteq> []"
  by (simp add: retryKey_def)

definition failed_ok :: "(string, composer_submission) jsmap \<Rightarrow> bool" where
  "failed_ok m \<longleftrightarrow> map_wf m \<and> (\<forall>(k, su) \<in> set m. k = submission_key su)"

lemma failed_ok_del: "failed_ok m \<Longrightarrow> failed_ok (map_del k m)"
  using set_map_del [of k m] by (fastforce simp: failed_ok_def)

lemma drop_oldest_suffix:
  assumes "failed_ok m"
  shows "drop_oldest m = slice_last FAILED_SUBMISSION_LIMIT m"
  using assms
proof (induction m rule: drop_oldest.induct)
  case (1 m)
  show ?case
  proof (cases "length m > FAILED_SUBMISSION_LIMIT")
    case False
    then show ?thesis by (simp add: drop_oldest.simps [of m])
  next
    case True
    then obtain k v rest where m: "m = (k, v) # rest" by (cases m) auto
    have "k \<noteq> []" using 1(2) m by (auto simp: failed_ok_def submission_key_def)
    have del: "map_del k m = rest"
      using 1(2) m by (auto simp: failed_ok_def AList.delete_eq intro!: filter_True) (metis fst_conv image_eqI)
    then have "failed_ok rest" using failed_ok_del [OF 1(2), of k] by simp
    then have "drop_oldest m = slice_last FAILED_SUBMISSION_LIMIT rest"
      using 1(1) [OF True m refl \<open>k \<noteq> []\<close>] True m \<open>k \<noteq> []\<close> del
      by (subst drop_oldest.simps) simp
    then show ?thesis using True m by (simp add: slice_last_def Suc_diff_le)
  qed
qed

lemma failed_ok_put:
  assumes "failed_ok m"
  shows "failed_ok (map_put (submission_key su) su (map_del (submission_key su) m))"
proof -
  have "failed_ok (map_del (submission_key su) m)" using assms by (rule failed_ok_del)
  then show ?thesis
    using set_map_put [of "submission_key su" su "map_del (submission_key su) m"]
    by (fastforce simp: failed_ok_def)
qed

lemma failed_ok_slice: "failed_ok m \<Longrightarrow> failed_ok (slice_last n m)"
  using set_slice_last [of n m] by (auto simp: failed_ok_def map_wf_slice_last)

lemma fail_sc_failed:
  assumes "failed_ok (sc_failed c)" "fail_submission store now su cur (c, s) = (b, c', s')"
  shows "sc_failed c' = slice_last FAILED_SUBMISSION_LIMIT
      (map_del (submission_key su) (sc_failed c) @ [(submission_key su, su)])"
proof -
  have "map_put (submission_key su) su (map_del (submission_key su) (sc_failed c)) =
      map_del (submission_key su) (sc_failed c) @ [(submission_key su, su)]"
    by (rule map_put_absent) (simp add: map_get_del)
  with assms drop_oldest_suffix [OF failed_ok_put [OF assms(1), of su]] show ?thesis
    by (auto simp: fail_submission_def Let_def)
qed

lemma fail_failed_ok:
  assumes "failed_ok (sc_failed c)" "fail_submission store now su cur (c, s) = (b, c', s')"
  shows "failed_ok (sc_failed c') \<and> map_get (sc_failed c') (submission_key su) = Some su \<and>
    length (sc_failed c') \<le> FAILED_SUBMISSION_LIMIT"
proof -
  let ?m = "map_del (submission_key su) (sc_failed c) @ [(submission_key su, su)]"
  have m: "map_put (submission_key su) su (map_del (submission_key su) (sc_failed c)) = ?m"
    by (rule map_put_absent) (simp add: map_get_del)
  have ok: "failed_ok (sc_failed c')"
    using failed_ok_slice [OF failed_ok_put [OF assms(1), of su]] fail_sc_failed [OF assms] by (simp add: m)
  have "(submission_key su, su) \<in> set (sc_failed c')"
    unfolding fail_sc_failed [OF assms]
    by (simp add: slice_last_def FAILED_SUBMISSION_LIMIT_def Suc_diff_le)
  with ok show ?thesis
    unfolding fail_sc_failed [OF assms] by (simp add: failed_ok_def map_get_mem)
qed

text \<open>Any sequence of the controller's operations, starting from a new controller.\<close>

datatype submission_step =
    DoBegin string string rat draft_snapshot attachments
  | DoFail rat composer_submission draft_snapshot
  | DoSucceed composer_submission

fun submission_run ::
  "'s idem_store option \<Rightarrow> submission_step list \<Rightarrow> controller \<times> 's \<Rightarrow> controller \<times> 's" where
  "submission_run store [] cs = cs"
| "submission_run store (DoBegin i n now sn att # es) cs =
     submission_run store es (snd (begin_submission store i n now sn att cs))"
| "submission_run store (DoFail now su cur # es) cs =
     submission_run store es (snd (fail_submission store now su cur cs))"
| "submission_run store (DoSucceed su # es) cs = submission_run store es (succeed_submission store su cs)"

lemma begin_failed_ok:
  "failed_ok (sc_failed (fst cs)) \<Longrightarrow>
   failed_ok (sc_failed (fst (snd (begin_submission store i n now sn att cs))))"
  by (auto simp: begin_submission_def Let_def case_prod_unfold failed_ok_del split: option.splits)

lemma run_failed_ok:
  "failed_ok (sc_failed (fst cs)) \<Longrightarrow> failed_ok (sc_failed (fst (submission_run store es cs)))"
proof (induction store es cs rule: submission_run.induct)
  case (3 store now su cur es cs)
  obtain b c' s' where "fail_submission store now su cur cs = (b, c', s')" by (metis prod.collapse)
  then show ?case using 3 fail_failed_ok [of "fst cs" store now su cur "snd cs"] by simp
next
  case (4 store su es cs)
  then show ?case by (simp add: succeed_submission_def case_prod_unfold failed_ok_del)
qed (auto simp: begin_failed_ok)

lemma newController_ok [simp]: "failed_ok (sc_failed newController)"
  by (simp add: failed_ok_def newController_def)


section \<open>Properties\<close>

text \<open>
  A submission carries what was asked for. After any sequence of operations on a new
  controller, with any store, the submission that \<open>begin\<close> returns, be it new, recovered from the
  store or a retry, has the scope, the draft and the attachments of the call, and has not been
  marked as cleared.
\<close>

theorem begin_returns_request:
  "(let su = fst (begin_submission store createId nonce now sn att (submission_run store es (newController, s)))
    in su_scopeKey su = ds_scopeKey sn \<and> su_draft su = ds_value sn \<and>
       su_mentions su = att_mentions att \<and> su_localImages su = att_localImages att \<and>
       su_clearedRevision su = None)"
proof -
  obtain c s' where cs: "submission_run store es (newController, s) = (c, s')" by fastforce
  have ok: "failed_ok (sc_failed c)"
    using run_failed_ok [of "(newController, s)" store es] by (simp add: cs)
  show ?thesis
  proof (cases "map_get (sc_failed c) (retryKey (ds_scopeKey sn) (ds_value sn) att)")
    case None
    then show ?thesis
      by (auto simp: cs begin_submission_def new_submission_def Let_def case_prod_unfold)
  next
    case (Some su)
    then have "retryKey (ds_scopeKey sn) (ds_value sn) att = submission_key su"
      using ok by (auto simp: failed_ok_def dest!: map_of_SomeD)
    then show ?thesis
      using Some by (simp add: cs begin_submission_def Let_def submission_key_def retryKey_inject
          submission_attachments_def)
  qed
qed

text \<open>
  A retry in the same session keeps the identity. Once a submission has failed, the next
  \<open>begin\<close> with the same scope, draft and attachments returns that submission with its id,
  whatever happened before, whichever store is used and whatever ids a new submission would get.
\<close>

theorem retry_keeps_id:
  "(let cs = submission_run store es (newController, s);
        cs1 = snd (fail_submission store now su cur cs);
        sn = \<lparr>ds_scopeKey = su_scopeKey su, ds_value = su_draft su, ds_revision = rev'\<rparr>
    in fst (begin_submission store createId nonce now' sn (submission_attachments su) cs1) =
         su\<lparr>su_clearedRevision := None\<rparr> \<and>
       length (sc_failed (fst cs1)) \<le> FAILED_SUBMISSION_LIMIT)"
proof -
  obtain c s' where cs: "submission_run store es (newController, s) = (c, s')" by fastforce
  obtain b c1 s1 where f: "fail_submission store now su cur (c, s') = (b, c1, s1)" by (metis prod.collapse)
  have ok: "failed_ok (sc_failed c)"
    using run_failed_ok [of "(newController, s)" store es] by (simp add: cs)
  from fail_failed_ok [OF ok f] show ?thesis
    by (simp add: cs f begin_submission_def submission_key_def Let_def)
qed

lemma parse_serialized:
  assumes "\<forall>(k, r) \<in> set es. trim k \<noteq> [] \<and> trim (ir_submissionId r) = ir_submissionId r \<and> ir_submissionId r \<noteq> []"
  shows "parseSubmissionIdempotencyEntries (Some (serializeSubmissionIdempotencyEntries es)) now =
    pruneSubmissionIdempotencyEntries es now SUBMISSION_IDEMPOTENCY_LIMIT SUBMISSION_IDEMPOTENCY_TTL_MS"
proof -
  have "List.map_filter (\<lambda>(k, v). map_option (\<lambda>r. (k, r)) (parseSubmissionIdempotencyEntry k v))
      (map (\<lambda>(k, r). (k, json_of_record r)) es) = es"
    using assms
    by (induction es) (auto simp: map_filter_simps parseSubmissionIdempotencyEntry_def json_of_record_def
        toSubmissionIdempotencyEntries_def field_def)
  then show ?thesis
    by (simp add: parseSubmissionIdempotencyEntries_def serializeSubmissionIdempotencyEntries_def
        toRecord_def field_def toSubmissionIdempotencyEntries_def)
qed

definition readable_entries :: "(string, idem_record) jsmap \<Rightarrow> bool" where
  "readable_entries es \<longleftrightarrow>
     list_all (\<lambda>(k, r). trim k \<noteq> [] \<and> trim (ir_submissionId r) = ir_submissionId r \<and> ir_submissionId r \<noteq> []) es"

lemma parse_serialized_short:
  assumes "readable_entries es" "length es \<le> 32"
  shows "set (parseSubmissionIdempotencyEntries (Some (serializeSubmissionIdempotencyEntries es)) now) =
    {(k, r) \<in> set es. now - ir_updatedAt r \<le> SUBMISSION_IDEMPOTENCY_TTL_MS}"
proof -
  have "length (filter (\<lambda>(k, r). now - ir_updatedAt r \<le> SUBMISSION_IDEMPOTENCY_TTL_MS) es) \<le> 32"
    using assms(2) length_filter_le order_trans by blast
  then show ?thesis
    using assms(1)
    by (auto simp: parse_serialized readable_entries_def list_all_iff pruneSubmissionIdempotencyEntries_def
        SUBMISSION_IDEMPOTENCY_LIMIT_def)
qed

lemma parse_map_wf:
  assumes "readable_entries es" "map_wf es"
  shows "map_wf (parseSubmissionIdempotencyEntries (Some (serializeSubmissionIdempotencyEntries es)) now)"
  using assms parse_serialized [of es now] map_wf_prune_entries by (simp add: readable_entries_def list_all_iff)

text \<open>
  The file is read back. What \<open>serializeSubmissionIdempotencyEntries\<close> writes for at most 32
  entries with distinct keys (none of them blank) and trimmed, non-empty ids is read as exactly
  the entries that have not expired by the time of reading.
\<close>

theorem idempotency_file_roundtrip:
  assumes "readable_entries es" "map_wf es" "length es \<le> 32"
  shows "map_get (parseSubmissionIdempotencyEntries (Some (serializeSubmissionIdempotencyEntries es)) now) k =
    (case map_get es k of
       None \<Rightarrow> None
     | Some r \<Rightarrow> if now - ir_updatedAt r \<le> 24 * 60 * 60 * 1000 then Some r else None)"
proof -
  let ?m = "parseSubmissionIdempotencyEntries (Some (serializeSubmissionIdempotencyEntries es)) now"
  have wf: "map_wf ?m" using parse_map_wf assms by blast
  have iff: "map_get ?m k = Some r \<longleftrightarrow> map_get es k = Some r \<and> now - ir_updatedAt r \<le> 24 * 60 * 60 * 1000" for r
    unfolding map_get_mem [OF wf] map_get_mem [OF assms(2)] parse_serialized_short [OF assms(1,3)]
    by (simp add: SUBMISSION_IDEMPOTENCY_TTL_MS_def)
  show ?thesis
  proof (cases "map_get ?m k")
    case None
    then show ?thesis using iff by (auto split: option.split)
  next
    case (Some r)
    then have "map_get es k = Some r" "now - ir_updatedAt r \<le> 24 * 60 * 60 * 1000" using iff by auto
    then show ?thesis using Some by simp
  qed
qed

definition demo_entries :: "(string, idem_record) jsmap" where
  "demo_entries = [(''k'', \<lparr>ir_submissionId = ''s1'', ir_updatedAt = 1000\<rparr>)]"

theorem idempotency_file_roundtrip_witness:
  "map_get (parseSubmissionIdempotencyEntries (Some (serializeSubmissionIdempotencyEntries demo_entries)) 2000) ''k'' =
     Some \<lparr>ir_submissionId = ''s1'', ir_updatedAt = 1000\<rparr>"
proof -
  have "readable_entries demo_entries" "map_wf demo_entries" "length demo_entries \<le> 32" by code_simp+
  from idempotency_file_roundtrip [OF this, of 2000 "''k''"] show ?thesis by (simp add: demo_entries_def)
qed

lemma trim_buildKey: "trim (buildKey k h) \<noteq> []"
proof -
  have z: "\<not> is_js_space (CHR 0x00)" by code_simp
  have "x \<in> set xs \<Longrightarrow> \<not> P x \<Longrightarrow> x \<in> set (dropWhile P xs)" for x :: char and P xs
    by (induction xs) auto
  with z have "CHR 0x00 \<in> set (trim_start (buildKey k h))"
    unfolding trim_start_def buildKey_def KEY_SEPARATOR_def by simp
  with z show ?thesis by (auto simp: trim_def trim_end_empty_iff)
qed

lemma readable_record:
  assumes "readable_entries es" "trim i = i" "i \<noteq> []"
  shows "readable_entries (pruneSubmissionIdempotencyEntries
    (map_put (buildKey k h) \<lparr>ir_submissionId = i, ir_updatedAt = now\<rparr> es) now l ttl)"
proof -
  have "set (pruneSubmissionIdempotencyEntries
      (map_put (buildKey k h) \<lparr>ir_submissionId = i, ir_updatedAt = now\<rparr> es) now l ttl)
    \<subseteq> insert (buildKey k h, \<lparr>ir_submissionId = i, ir_updatedAt = now\<rparr>) (set es)"
    using set_prune set_map_put by (meson order_trans)
  then show ?thesis using assms trim_buildKey unfolding readable_entries_def list_all_iff by fastforce
qed

text \<open>
  C15. A retry after a restart keeps the identity. A submission with a trimmed id fails; the app is
  closed, the cache is loaded again from what was written last and a new controller is made; if
  the user submits the same content in the same scope within 24 hours, the submission gets the
  same id.
\<close>

theorem restart_keeps_id:
  assumes "cache_invar now c" "readable_entries (ic_entries c)" "ic_path c = Some p"
    and "ic_limit c = SUBMISSION_IDEMPOTENCY_LIMIT" "ic_ttlMs c = SUBMISSION_IDEMPOTENCY_TTL_MS"
    and "trim (su_id su) = su_id su" "su_id su \<noteq> []"
    and "fail_submission (Some cache_store) now su cur (ctl, c) = (b, ctl', c')"
    and "later \<le> now + 24 * 60 * 60 * 1000"
    and "reloaded = cache_load (Some (Some (last (ic_written c')))) later (newCache (Some p) None None)"
  shows "su_id (fst (begin_submission (Some cache_store) createId nonce later
      \<lparr>ds_scopeKey = su_scopeKey su, ds_value = su_draft su, ds_revision = r\<rparr>
      (submission_attachments su) (newController, reloaded))) = su_id su"
proof -
  define k where "k = buildKey (su_scopeKey su) (hashSubmissionRequest (su_draft su) (submission_attachments su))"
  define rec where "rec = \<lparr>ir_submissionId = su_id su, ir_updatedAt = now\<rparr>"
  define es where "es = pruneSubmissionIdempotencyEntries (map_put k rec (ic_entries c)) now
      SUBMISSION_IDEMPOTENCY_LIMIT SUBMISSION_IDEMPOTENCY_TTL_MS"
  have c': "last (ic_written c') = serializeSubmissionIdempotencyEntries es"
    using assms(3-5,8)
    by (auto simp: fail_submission_def cache_store_def cache_record_def persist_def Let_def es_def k_def rec_def)
  have es: "readable_entries es" "map_wf es" "length es \<le> 32"
    using readable_record [OF assms(2,6,7)] assms(1) length_prune
    by (auto simp: es_def k_def rec_def cache_invar_def entries_ok_def SUBMISSION_IDEMPOTENCY_LIMIT_def
        intro!: map_wf_prune_entries)
  have "(k, rec) \<in> set es"
    using assms(1,4,5) prune_keeps_newest [of now "ic_limit c" "ic_entries c" "ic_ttlMs c" rec k]
    by (simp add: es_def cache_invar_def rec_def)
  moreover have "later - ir_updatedAt rec \<le> SUBMISSION_IDEMPOTENCY_TTL_MS"
    using assms(9) by (simp add: rec_def SUBMISSION_IDEMPOTENCY_TTL_MS_def)
  ultimately have "map_get (ic_entries reloaded) k = Some rec" "ic_ttlMs reloaded = SUBMISSION_IDEMPOTENCY_TTL_MS"
    using parse_serialized_short [OF es(1,3), of later] map_get_mem [OF parse_map_wf [OF es(1,2), of later]]
    by (auto simp: assms(10) cache_load_def newCache_def c')
  then show ?thesis
    using assms(7) \<open>later - ir_updatedAt rec \<le> _\<close>
    by (simp add: begin_submission_def newController_def cache_store_def cache_lookup_def k_def [symmetric]
        rec_def new_submission_def Let_def)
qed

text \<open>
  Success forgets the submission: after \<open>succeed\<close>, the same content in the same scope starts
  a new submission with a new id (the injected one, or one built from the nonce and the counter).
\<close>

theorem success_starts_afresh:
  assumes "cache_invar now s" "succeed_submission (Some cache_store) su (c, s) = (c', s')"
    and "ds_scopeKey sn = su_scopeKey su" "ds_value sn = su_draft su" "att = submission_attachments su"
  shows "su_id (fst (begin_submission (Some cache_store) createId nonce now sn att (c', s'))) =
    (if trim createId \<noteq> [] then trim createId
     else ''submission-'' @ nonce @ ''-'' @ base36 (Suc (sc_counter c)))"
  using assms by (rule idem.fresh_after_success)

definition demo_submission :: composer_submission where
  "demo_submission = \<lparr>su_id = ''sub'', su_scopeKey = ''scope'', su_draft = ''hi'', su_mentions = [],
     su_localImages = [], su_clearedRevision = Some 3\<rparr>"

definition demo_snapshot :: draft_snapshot where
  "demo_snapshot = \<lparr>ds_scopeKey = ''scope'', ds_value = ''hi'', ds_revision = 3\<rparr>"

lemma demo_cache_invar: "cache_invar 1000 (newCache (Some ''f'') None None)"
  by (simp add: cache_invar_def newCache_def entries_ok_def SUBMISSION_IDEMPOTENCY_LIMIT_def
      SUBMISSION_IDEMPOTENCY_TTL_MS_def)

theorem success_starts_afresh_witness:
  "su_id (fst (begin_submission (Some cache_store) '' new '' ''n'' 1000 demo_snapshot
      (submission_attachments demo_submission)
      (fst (succeed_submission (Some cache_store) demo_submission (newController, newCache (Some ''f'') None None)),
       snd (succeed_submission (Some cache_store) demo_submission (newController, newCache (Some ''f'') None None)))))
     = ''new''"
proof -
  have t: "trim '' new '' = ''new''" by code_simp
  show ?thesis
    using success_starts_afresh [where now = 1000 and s = "newCache (Some ''f'') None None"
        and su = demo_submission and c = newController and sn = demo_snapshot and createId = "'' new ''"
        and nonce = "''n''" and att = "submission_attachments demo_submission",
        OF demo_cache_invar prod.collapse [symmetric]]
    by (simp add: t demo_snapshot_def demo_submission_def)
qed

theorem restart_keeps_id_witness:
  "su_id (fst (begin_submission (Some cache_store) ''fresh'' ''n'' 5000
      \<lparr>ds_scopeKey = ''scope'', ds_value = ''hi'', ds_revision = 0\<rparr> (submission_attachments demo_submission)
      (newController,
       cache_load (Some (Some (last (ic_written (snd (snd (fail_submission (Some cache_store) 1000 demo_submission
         demo_snapshot (newController, newCache (Some ''f'') None None)))))))) 5000 (newCache (Some ''f'') None None))))
     = ''sub''"
proof -
  have t: "trim ''sub'' = ''sub''" by code_simp
  obtain b ctl' c' where f: "fail_submission (Some cache_store) 1000 demo_submission demo_snapshot
      (newController, newCache (Some ''f'') None None) = (b, ctl', c')" by (metis prod.collapse)
  note restart_keeps_id [OF demo_cache_invar _ _ _ _ _ _ f _ refl, of "''f''" 5000 "''fresh''" "''n''" 0]
  then show ?thesis
    unfolding f snd_conv by (simp add: t newCache_def readable_entries_def demo_submission_def)
qed

end
