(* ===== verification/SnapshotCache.thy ===== *)
theory SnapshotCache
  imports JsonText
begin

text \<open>
  The cache of chat snapshots, \<^verbatim>\<open>shell/session/chatSnapshotCache.ts\<close>: reading and bounding the
  persisted cache, the update when a chat is selected or loaded, the removal of oversized
  payloads, and the queue of saves and purges with its generation barrier.

  A chat is the JSON object it is, because the code checks it field by field and writes it out
  again. Parameters (\<open>snapshot_deps\<close>): \<open>MessageSchema\<close> of \<^verbatim>\<open>@ag-ui/core\<close>, the locale's
  \<open>localeCompare\<close>, \<open>Date.parse\<close> and \<open>Number.prototype.toString\<close>.
\<close>

section \<open>Data\<close>

record snapshot_deps =
  sd_message :: "json \<Rightarrow> bool"
  sd_compare :: "string \<Rightarrow> string \<Rightarrow> int"
  sd_dateParse :: "string \<Rightarrow> rat option"
  sd_number :: "rat \<Rightarrow> string"

record snap_entry =
  se_chat :: json
  se_cachedAt :: string
  se_lastAccessedAt :: string

record snap_cache =
  ch_profileId :: string
  ch_selectedChatId :: "string option"
  ch_updatedAt :: string
  ch_entries :: "snap_entry list"

definition CHAT_SNAPSHOT_CACHE_VERSION :: rat where "CHAT_SNAPSHOT_CACHE_VERSION = 1"
definition CHAT_SNAPSHOT_CACHE_MAX_ENTRIES :: nat where "CHAT_SNAPSHOT_CACHE_MAX_ENTRIES = 20"
definition CHAT_SNAPSHOT_CACHE_MAX_BYTES :: nat where "CHAT_SNAPSHOT_CACHE_MAX_BYTES = 8 * 1024 * 1024"
definition CHAT_SNAPSHOT_CACHE_MAX_AGE_MS :: rat where
  "CHAT_SNAPSHOT_CACHE_MAX_AGE_MS = 30 * 24 * 60 * 60 * 1000"
definition CHAT_SNAPSHOT_INLINE_PAYLOAD_MAX_BYTES :: nat where
  "CHAT_SNAPSHOT_INLINE_PAYLOAD_MAX_BYTES = 64 * 1024"

definition obj_field :: "json \<Rightarrow> string \<Rightarrow> json option" where
  "obj_field j key = field (toRecord (Some j)) key"

definition is_string :: "json option \<Rightarrow> bool" where
  "is_string v \<longleftrightarrow> (case v of Some (JStr _) \<Rightarrow> True | _ \<Rightarrow> False)"

definition chat_id :: "json \<Rightarrow> string option" where
  "chat_id chat = (case obj_field chat ''id'' of Some (JStr s) \<Rightarrow> Some s | _ \<Rightarrow> None)"


section \<open>Oversized payloads\<close>

definition isOversizedPayload :: "json option \<Rightarrow> bool" where
  "isOversizedPayload v \<longleftrightarrow>
     (case v of Some (JStr s) \<Rightarrow> length s > CHAT_SNAPSHOT_INLINE_PAYLOAD_MAX_BYTES | _ \<Rightarrow> False)"

definition without_key :: "string \<Rightarrow> json \<Rightarrow> json" where
  "without_key key j = (case j of JObj o' \<Rightarrow> JObj (map_del key o') | _ \<Rightarrow> j)"

definition with_key :: "string \<Rightarrow> json \<Rightarrow> json \<Rightarrow> json" where
  "with_key key v j = (case j of JObj o' \<Rightarrow> JObj (map_put key v o') | _ \<Rightarrow> j)"

definition sanitizePartForCache :: "json \<Rightarrow> json" where
  "sanitizePartForCache part =
     (if obj_field part ''type'' \<in> {Some (JStr ''image''), Some (JStr ''audio'')} \<and>
         isOversizedPayload (obj_field part ''data'')
      then without_key ''data'' part
      else if obj_field part ''type'' = Some (JStr ''resource'') \<and>
              isOversizedPayload (Option.bind (obj_field part ''resource'') (\<lambda>r. obj_field r ''blob''))
      then with_key ''resource'' (without_key ''blob'' (the (obj_field part ''resource''))) part
      else part)"

definition sanitizePartsForCache :: "json list \<Rightarrow> json list" where
  "sanitizePartsForCache parts = map sanitizePartForCache parts"

definition oversized_text :: "snapshot_deps \<Rightarrow> json option \<Rightarrow> bool" where
  "oversized_text dp v \<longleftrightarrow>
     (case v of None \<Rightarrow> False
      | Some j \<Rightarrow> isOversizedPayload (Some (JStr (json_text (sd_number dp) j))))"

definition sanitizeToolMetaForCache :: "snapshot_deps \<Rightarrow> json \<Rightarrow> json" where
  "sanitizeToolMetaForCache dp tm =
     (let contentOversized = oversized_text dp (obj_field tm ''content'');
          locationsOversized = oversized_text dp (obj_field tm ''locations'');
          t1 = (if contentOversized then without_key ''content'' tm else tm)
      in if locationsOversized then without_key ''locations'' t1 else t1)"

text \<open>A field that is absent (or falsy) stays as it is.\<close>

definition falsy :: "json \<Rightarrow> bool" where
  "falsy j \<longleftrightarrow> j = JNull \<or> j = JBool False \<or> j = JNum 0 \<or> j = JStr []"

definition sanitizeMessageForCache :: "snapshot_deps \<Rightarrow> json \<Rightarrow> json" where
  "sanitizeMessageForCache dp message =
     (let m1 = (case obj_field message ''parts'' of
                  Some (JArr ps) \<Rightarrow> with_key ''parts'' (JArr (sanitizePartsForCache ps)) message
                | _ \<Rightarrow> message)
      in case obj_field message ''toolMeta'' of
           Some tm \<Rightarrow> if falsy tm then m1 else with_key ''toolMeta'' (sanitizeToolMetaForCache dp tm) m1
         | None \<Rightarrow> m1)"

definition sanitizeChatForCache :: "snapshot_deps \<Rightarrow> json \<Rightarrow> json" where
  "sanitizeChatForCache dp chat =
     (case obj_field chat ''messages'' of
        Some (JArr ms) \<Rightarrow> with_key ''messages'' (JArr (map (sanitizeMessageForCache dp) ms)) chat
      | _ \<Rightarrow> chat)"


section \<open>Validation of persisted chats\<close>

definition isChatMessagePart :: "json \<Rightarrow> bool" where
  "isChatMessagePart v \<longleftrightarrow>
     (case v of
        JObj _ \<Rightarrow>
          let ty = obj_field v ''type''
          in if ty = Some (JStr ''text'') then is_string (obj_field v ''text'')
             else if ty = Some (JStr ''image'') \<or> ty = Some (JStr ''audio'') then True
             else if ty = Some (JStr ''resourceLink'') then is_string (obj_field v ''uri'')
             else ty = Some (JStr ''resource'') \<and>
                  (case obj_field v ''resource'' of Some (JObj _) \<Rightarrow> True | _ \<Rightarrow> False)
      | _ \<Rightarrow> False)"

definition isChatMessage :: "snapshot_deps \<Rightarrow> json \<Rightarrow> bool" where
  "isChatMessage dp v \<longleftrightarrow>
     (case v of
        JObj _ \<Rightarrow>
          sd_message dp v \<and> is_string (obj_field v ''createdAt'') \<and>
          (case obj_field v ''parts'' of
             None \<Rightarrow> True
           | Some (JArr ps) \<Rightarrow> list_all isChatMessagePart ps
           | _ \<Rightarrow> False)
      | _ \<Rightarrow> False)"

definition isChat :: "snapshot_deps \<Rightarrow> json \<Rightarrow> bool" where
  "isChat dp v \<longleftrightarrow>
     (case v of
        JObj _ \<Rightarrow>
          is_string (obj_field v ''id'') \<and> obj_field v ''id'' \<noteq> Some (JStr []) \<and>
          list_all (\<lambda>k. is_string (obj_field v k))
            [''title'', ''status'', ''createdAt'', ''updatedAt'', ''statusUpdatedAt'', ''lastMessagePreview''] \<and>
          (case obj_field v ''messages'' of Some (JArr ms) \<Rightarrow> list_all (isChatMessage dp) ms | _ \<Rightarrow> False)
      | _ \<Rightarrow> False)"

definition date_field :: "snapshot_deps \<Rightarrow> json option \<Rightarrow> string option" where
  "date_field dp v = (case v of Some (JStr s) \<Rightarrow> if sd_dateParse dp s \<noteq> None then Some s else None | _ \<Rightarrow> None)"

definition normalizeCacheEntry :: "snapshot_deps \<Rightarrow> json \<Rightarrow> snap_entry option" where
  "normalizeCacheEntry dp v =
     (case obj_field v ''chat'' of
        None \<Rightarrow> None
      | Some chat \<Rightarrow>
          if \<not> isChat dp chat then None
          else
            (case (date_field dp (obj_field v ''cachedAt''), date_field dp (obj_field v ''lastAccessedAt'')) of
               (Some a, Some b) \<Rightarrow>
                 Some \<lparr>se_chat = sanitizeChatForCache dp chat, se_cachedAt = a, se_lastAccessedAt = b\<rparr>
             | _ \<Rightarrow> None))"


section \<open>Bounding\<close>

definition entry_json :: "snap_entry \<Rightarrow> json" where
  "entry_json e = JObj [(''chat'', se_chat e), (''cachedAt'', JStr (se_cachedAt e)),
                        (''lastAccessedAt'', JStr (se_lastAccessedAt e))]"

definition cache_json :: "snap_cache \<Rightarrow> json" where
  "cache_json c =
     JObj [(''version'', JNum CHAT_SNAPSHOT_CACHE_VERSION), (''profileId'', JStr (ch_profileId c)),
           (''selectedChatId'', case ch_selectedChatId c of None \<Rightarrow> JNull | Some s \<Rightarrow> JStr s),
           (''updatedAt'', JStr (ch_updatedAt c)), (''entries'', JArr (map entry_json (ch_entries c)))]"

definition json_bytes :: "snapshot_deps \<Rightarrow> json \<Rightarrow> nat" where
  "json_bytes dp j = utf8_bytes (json_text (sd_number dp) j)"

definition entry_compare :: "snapshot_deps \<Rightarrow> string option \<Rightarrow> snap_entry \<Rightarrow> snap_entry \<Rightarrow> int" where
  "entry_compare dp selected left right =
     (if selected \<noteq> None \<and> chat_id (se_chat left) = selected then -1
      else if selected \<noteq> None \<and> chat_id (se_chat right) = selected then 1
      else sd_compare dp (se_lastAccessedAt right) (se_lastAccessedAt left))"

fun bound_loop :: "snapshot_deps \<Rightarrow> snap_entry list \<Rightarrow> snap_entry list \<Rightarrow> nat \<Rightarrow> snap_entry list" where
  "bound_loop dp [] entries cacheBytes = entries"
| "bound_loop dp (e # es) entries cacheBytes =
     (if length entries \<ge> CHAT_SNAPSHOT_CACHE_MAX_ENTRIES then entries
      else
        let entryBytes = json_bytes dp (entry_json e);
            separatorBytes = (if length entries > 0 then 1 else 0)
        in if cacheBytes + separatorBytes + entryBytes > CHAT_SNAPSHOT_CACHE_MAX_BYTES
           then bound_loop dp es entries cacheBytes
           else bound_loop dp es (entries @ [e]) (cacheBytes + (separatorBytes + entryBytes)))"

definition boundChatSnapshotCache :: "snapshot_deps \<Rightarrow> snap_cache \<Rightarrow> snap_cache" where
  "boundChatSnapshotCache dp c =
     (let ordered = js_sort (entry_compare dp (ch_selectedChatId c)) (ch_entries c);
          entries = bound_loop dp ordered [] (json_bytes dp (cache_json (c\<lparr>ch_entries := []\<rparr>)))
      in c\<lparr>ch_selectedChatId :=
             (if list_ex (\<lambda>e. chat_id (se_chat e) = ch_selectedChatId c) entries then ch_selectedChatId c else None),
           ch_entries := entries\<rparr>)"

definition createEmptyChatSnapshotCache :: "string \<Rightarrow> string \<Rightarrow> snap_cache" where
  "createEmptyChatSnapshotCache profileId now =
     \<lparr>ch_profileId = profileId, ch_selectedChatId = None, ch_updatedAt = now, ch_entries = []\<rparr>"

text \<open>
  \<open>parsed\<close> is the decoded file (\<^const>\<open>None\<close>: not JSON), \<open>now\<close> the time in milliseconds and \<open>nowIso\<close>
  its ISO form.
\<close>

definition parseChatSnapshotCache ::
  "snapshot_deps \<Rightarrow> json option \<Rightarrow> string \<Rightarrow> rat \<Rightarrow> string \<Rightarrow> snap_cache" where
  "parseChatSnapshotCache dp parsed profileId now nowIso =
     (case parsed of
        Some (JObj rec) \<Rightarrow>
          (case map_get rec ''entries'' of
             Some (JArr raw) \<Rightarrow>
               if map_get rec ''version'' \<noteq> Some (JNum CHAT_SNAPSHOT_CACHE_VERSION) \<or>
                  map_get rec ''profileId'' \<noteq> Some (JStr profileId)
               then createEmptyChatSnapshotCache profileId nowIso
               else
                 let entries =
                       js_sort (\<lambda>l r. sd_compare dp (se_lastAccessedAt r) (se_lastAccessedAt l))
                         (filter (\<lambda>e. now - the (sd_dateParse dp (se_cachedAt e)) \<le> CHAT_SNAPSHOT_CACHE_MAX_AGE_MS)
                            (List.map_filter (normalizeCacheEntry dp) raw));
                     selected =
                       (case map_get rec ''selectedChatId'' of
                          Some (JStr s) \<Rightarrow>
                            if list_ex (\<lambda>e. chat_id (se_chat e) = Some s) entries then Some s else None
                        | _ \<Rightarrow> None)
                 in boundChatSnapshotCache dp
                      \<lparr>ch_profileId = profileId, ch_selectedChatId = selected,
                       ch_updatedAt = (case date_field dp (map_get rec ''updatedAt'') of Some u \<Rightarrow> u | None \<Rightarrow> nowIso),
                       ch_entries = entries\<rparr>
           | _ \<Rightarrow> createEmptyChatSnapshotCache profileId nowIso)
      | _ \<Rightarrow> createEmptyChatSnapshotCache profileId nowIso)"

fun touch_entry :: "string \<Rightarrow> string \<Rightarrow> snap_entry list \<Rightarrow> snap_entry list" where
  "touch_entry i now [] = []"
| "touch_entry i now (e # es) =
     (if chat_id (se_chat e) = Some i then e\<lparr>se_lastAccessedAt := now\<rparr> # es else e # touch_entry i now es)"

definition updateChatSnapshotCache ::
  "snapshot_deps \<Rightarrow> snap_cache \<Rightarrow> string option \<Rightarrow> json option \<Rightarrow> string \<Rightarrow> snap_cache" where
  "updateChatSnapshotCache dp c selectedChatId chat now =
     (let selected = Option.bind selectedChatId (\<lambda>s. if trim s = [] then None else Some (trim s));
          kept = (case chat of
                    None \<Rightarrow> ch_entries c
                  | Some ch \<Rightarrow> filter (\<lambda>e. chat_id (se_chat e) \<noteq> chat_id ch) (ch_entries c));
          entries =
            (case chat of
               Some ch \<Rightarrow>
                 if isChat dp ch
                 then \<lparr>se_chat = sanitizeChatForCache dp ch, se_cachedAt = now, se_lastAccessedAt = now\<rparr> # kept
                 else (case selected of None \<Rightarrow> kept | Some s \<Rightarrow> touch_entry s now kept)
             | None \<Rightarrow> (case selected of None \<Rightarrow> kept | Some s \<Rightarrow> touch_entry s now kept))
      in boundChatSnapshotCache dp
           \<lparr>ch_profileId = ch_profileId c, ch_selectedChatId = selected, ch_updatedAt = now, ch_entries = entries\<rparr>)"

definition getChatSnapshotCachePath :: "string \<Rightarrow> string option \<Rightarrow> string option" where
  "getChatSnapshotCachePath profileId base =
     (case base of
        None \<Rightarrow> None
      | Some b \<Rightarrow>
          if b = [] \<or> trim profileId = [] then None
          else Some (b @ ''dappercode-chat-cache/'' @ encode_uri_component profileId @ ''/snapshots.json''))"


section \<open>The queue of saves and purges\<close>

text \<open>
  The operations of one profile run one after the other. A save suspends twice: while the
  directory is made and while the file is written. \<open>ss_path\<close> is what \<open>getChatSnapshotCachePath\<close>
  gives for the profile.
\<close>

datatype cache_op =
    SaveQueued snap_cache nat
  | SaveDirectory snap_cache nat
  | SaveWriting snap_cache nat
  | DeleteQueued

record snap_store =
  ss_path :: "string option"
  ss_generation :: nat
  ss_queue :: "cache_op list"
  ss_file :: "(snap_cache \<times> nat) option"

definition saveChatSnapshotCache :: "snap_cache \<Rightarrow> nat \<Rightarrow> snap_store \<Rightarrow> snap_store" where
  "saveChatSnapshotCache c generation s =
     (case ss_path s of
        None \<Rightarrow> s
      | Some _ \<Rightarrow> s\<lparr>ss_queue := ss_queue s @ [SaveQueued c generation]\<rparr>)"

definition deleteChatSnapshotCache :: "snap_store \<Rightarrow> snap_store" where
  "deleteChatSnapshotCache s =
     (let bumped = s\<lparr>ss_generation := Suc (ss_generation s)\<rparr>
      in case ss_path s of
           None \<Rightarrow> bumped
         | Some _ \<Rightarrow> bumped\<lparr>ss_queue := ss_queue s @ [DeleteQueued]\<rparr>)"

text \<open>
  The operation at the head of the queue resumes; \<open>ok\<close> is false when the file system call it
  awaits fails.
\<close>

definition run_head :: "snapshot_deps \<Rightarrow> bool \<Rightarrow> snap_store \<Rightarrow> snap_store" where
  "run_head dp ok s =
     (case ss_queue s of
        [] \<Rightarrow> s
      | SaveQueued c g # rest \<Rightarrow>
          s\<lparr>ss_queue := (if g \<noteq> ss_generation s then rest else SaveDirectory c g # rest)\<rparr>
      | SaveDirectory c g # rest \<Rightarrow>
          s\<lparr>ss_queue := (if \<not> ok \<or> g \<noteq> ss_generation s then rest else SaveWriting c g # rest)\<rparr>
      | SaveWriting c g # rest \<Rightarrow>
          s\<lparr>ss_queue := rest,
            ss_file := (if ok then Some (boundChatSnapshotCache dp c, g) else ss_file s)\<rparr>
      | DeleteQueued # rest \<Rightarrow>
          s\<lparr>ss_queue := rest, ss_file := (if ok then None else ss_file s)\<rparr>)"

end
