(* ===== verification/SnapshotCacheCorrect.thy ===== *)
theory SnapshotCacheCorrect
  imports SnapshotCache
begin

text \<open>
  Correctness of the snapshot cache: the persisted file is bounded in entries and bytes, the
  selected chat is kept whenever it fits, no oversized payload is written, and a purge is final:
  no save from before it can bring the file back.
\<close>

section \<open>Size of the file\<close>

definition entries_bytes :: "snapshot_deps \<Rightarrow> snap_entry list \<Rightarrow> nat" where
  "entries_bytes dp es = utf8_bytes (join '','' (map (json_text (sd_number dp) \<circ> entry_json) es))"

lemma entries_bytes_Nil [simp]: "entries_bytes dp [] = 0"
  by (simp add: entries_bytes_def)

lemma entries_bytes_snoc:
  "entries_bytes dp (es @ [e]) =
     entries_bytes dp es + ((if length es > 0 then 1 else 0) + json_bytes dp (entry_json e))"
  by (simp add: entries_bytes_def join_snoc json_bytes_def utf8_bytes_Cons)

definition header_bytes :: "snapshot_deps \<Rightarrow> snap_cache \<Rightarrow> nat" where
  "header_bytes dp c = json_bytes dp (cache_json (c\<lparr>ch_entries := []\<rparr>))"

lemma cache_bytes: "json_bytes dp (cache_json (c\<lparr>ch_entries := es\<rparr>)) = header_bytes dp c + entries_bytes dp es"
  by (simp add: json_bytes_def header_bytes_def cache_json_def entries_bytes_def utf8_bytes_Cons)

lemma bound_loop_spec:
  assumes "length entries \<le> CHAT_SNAPSHOT_CACHE_MAX_ENTRIES"
    "header + entries_bytes dp entries \<le> max CHAT_SNAPSHOT_CACHE_MAX_BYTES header"
  shows "length (bound_loop dp es entries (header + entries_bytes dp entries)) \<le> CHAT_SNAPSHOT_CACHE_MAX_ENTRIES \<and>
    header + entries_bytes dp (bound_loop dp es entries (header + entries_bytes dp entries))
      \<le> max CHAT_SNAPSHOT_CACHE_MAX_BYTES header \<and>
    set (bound_loop dp es entries (header + entries_bytes dp entries)) \<subseteq> set entries \<union> set es \<and>
    prefix entries (bound_loop dp es entries (header + entries_bytes dp entries))"
  using assms
proof (induction es arbitrary: entries)
  case (Cons e es)
  have step: "header + entries_bytes dp entries + ((if length entries > 0 then 1 else 0) + json_bytes dp (entry_json e)) =
      header + entries_bytes dp (entries @ [e])"
    by (simp add: entries_bytes_snoc)
  show ?case
    using Cons.prems Cons.IH [of entries] Cons.IH [of "entries @ [e]"]
    unfolding bound_loop.simps Let_def step
    by (auto simp: step entries_bytes_snoc prefix_def)
qed simp

lemma header_selected:
  "header_bytes dp (c\<lparr>ch_selectedChatId := None\<rparr>) \<le> header_bytes dp c + 2"
  by (cases "ch_selectedChatId c")
    (simp_all add: header_bytes_def json_bytes_def cache_json_def utf8_bytes_Cons json_string_def)

text \<open>
  Bounds of the snapshot cache. What \<open>boundChatSnapshotCache\<close> returns has at most 20 entries,
  all of them entries of its argument, and its serialized form has at most 8 MiB (or the size of
  the empty cache with the same header, if that is larger), give or take the two bytes by which
  \<open>null\<close> can exceed a dropped selection.
\<close>

theorem snapshot_cache_bounded:
  "(let b = boundChatSnapshotCache dp c
    in length (ch_entries b) \<le> 20 \<and> set (ch_entries b) \<subseteq> set (ch_entries c) \<and>
       json_bytes dp (cache_json b) \<le>
         max (8 * 1024 * 1024) (json_bytes dp (cache_json (c\<lparr>ch_entries := []\<rparr>))) + 2)"
proof -
  define b where "b = boundChatSnapshotCache dp c"
  define ordered where "ordered = js_sort (entry_compare dp (ch_selectedChatId c)) (ch_entries c)"
  define es where "es = bound_loop dp ordered [] (header_bytes dp c)"
  have es: "length es \<le> CHAT_SNAPSHOT_CACHE_MAX_ENTRIES"
    "header_bytes dp c + entries_bytes dp es \<le> max CHAT_SNAPSHOT_CACHE_MAX_BYTES (header_bytes dp c)"
    "set es \<subseteq> set (ch_entries c)"
    using bound_loop_spec [of "[]" "header_bytes dp c" dp ordered]
    by (auto simp: es_def ordered_def)
  have "b = (c\<lparr>ch_selectedChatId := ch_selectedChatId b\<rparr>)\<lparr>ch_entries := es\<rparr>"
    by (simp add: b_def boundChatSnapshotCache_def es_def ordered_def header_bytes_def Let_def)
  then have bytes: "json_bytes dp (cache_json b) =
      header_bytes dp (c\<lparr>ch_selectedChatId := ch_selectedChatId b\<rparr>) + entries_bytes dp es"
    by (metis cache_bytes)
  have "ch_selectedChatId b = ch_selectedChatId c \<or> ch_selectedChatId b = None"
    by (simp add: b_def boundChatSnapshotCache_def Let_def)
  then have "header_bytes dp (c\<lparr>ch_selectedChatId := ch_selectedChatId b\<rparr>) \<le> header_bytes dp c + 2"
    using header_selected [of dp c] by (auto simp: header_bytes_def cache_json_def)
  moreover have "ch_entries b = es"
    by (simp add: b_def boundChatSnapshotCache_def es_def ordered_def header_bytes_def Let_def)
  ultimately show ?thesis
    using es bytes
    by (simp add: b_def [symmetric] header_bytes_def CHAT_SNAPSHOT_CACHE_MAX_ENTRIES_def
        CHAT_SNAPSHOT_CACHE_MAX_BYTES_def Let_def)
qed


section \<open>The selected chat\<close>

lemma insert_by_selected_first:
  assumes "\<And>y. y \<in> set ys \<Longrightarrow> cmp x y \<le> 0"
  shows "insert_by cmp x ys = x # ys"
  using assms by (cases ys) auto

lemma hd_js_sort_selected:
  assumes "e \<in> set es" "\<And>x. x \<in> set es \<Longrightarrow> P x \<longleftrightarrow> x = e"
    "\<And>x y. P x \<Longrightarrow> cmp x y \<le> 0" "\<And>x y. \<not> P x \<Longrightarrow> P y \<Longrightarrow> cmp x y > 0"
    "distinct es"
  shows "\<exists>rest. js_sort cmp es = e # rest"
  using assms(1,2,5)
proof (induction es)
  case (Cons x xs)
  show ?case
  proof (cases "x = e")
    case True
    then have "P x" using Cons.prems by auto
    then show ?thesis
      using True assms(3) insert_by_selected_first [of "js_sort cmp xs" cmp x] by (auto simp: js_sort_def)
  next
    case False
    then obtain rest where "js_sort cmp xs = e # rest" using Cons by auto
    moreover have "\<not> P x" "P e" using Cons.prems False by auto
    ultimately show ?thesis using assms(4) [of x e] by (auto simp: js_sort_def)
  qed
qed simp

text \<open>
  The selected chat is kept. If the entries of the cache have different chat ids and the entry of the
  selected chat fits next to the header, then bounding keeps that entry, in first place, and the
  selection with it, however many larger or more recent chats compete for the space.
\<close>

theorem selected_chat_kept:
  assumes "ch_selectedChatId c = Some i" "e \<in> set (ch_entries c)" "chat_id (se_chat e) = Some i"
    and "distinct (map (\<lambda>x. chat_id (se_chat x)) (ch_entries c))"
    and "json_bytes dp (cache_json (c\<lparr>ch_entries := [e]\<rparr>)) \<le> 8 * 1024 * 1024"
  shows "ch_selectedChatId (boundChatSnapshotCache dp c) = Some i \<and>
    hd (ch_entries (boundChatSnapshotCache dp c)) = e \<and> ch_entries (boundChatSnapshotCache dp c) \<noteq> []"
proof -
  let ?cmp = "entry_compare dp (Some i)" and ?P = "\<lambda>x. chat_id (se_chat x) = Some i"
  have "\<exists>rest. js_sort ?cmp (ch_entries c) = e # rest"
  proof (rule hd_js_sort_selected [where P = ?P])
    show "x \<in> set (ch_entries c) \<Longrightarrow> ?P x \<longleftrightarrow> x = e" for x
      using assms(2-4) by (auto simp: distinct_map inj_on_def)
    show "distinct (ch_entries c)" using assms(4) by (auto simp: distinct_map)
  qed (use assms(2) in \<open>auto simp: entry_compare_def\<close>)
  then obtain rest where r: "js_sort ?cmp (ch_entries c) = e # rest" by blast
  have fits: "header_bytes dp c + entries_bytes dp [e] \<le> CHAT_SNAPSHOT_CACHE_MAX_BYTES"
    using assms(5) by (simp add: cache_bytes CHAT_SNAPSHOT_CACHE_MAX_BYTES_def)
  have e1: "entries_bytes dp [e] = json_bytes dp (entry_json e)"
    using entries_bytes_snoc [of dp "[]" e] by simp
  have "bound_loop dp (e # rest) [] (header_bytes dp c) =
      bound_loop dp rest [e] (header_bytes dp c + entries_bytes dp [e])"
    using fits by (simp add: e1 CHAT_SNAPSHOT_CACHE_MAX_ENTRIES_def Let_def)
  moreover have "prefix [e] (bound_loop dp rest [e] (header_bytes dp c + entries_bytes dp [e]))"
    using bound_loop_spec [of "[e]" "header_bytes dp c" dp rest] fits
    by (simp add: CHAT_SNAPSHOT_CACHE_MAX_ENTRIES_def)
  ultimately obtain zs where "bound_loop dp (js_sort ?cmp (ch_entries c)) [] (header_bytes dp c) = e # zs"
    using r by (auto simp: prefix_def)
  then show ?thesis
    using assms(1,3) by (simp add: boundChatSnapshotCache_def header_bytes_def Let_def)
qed

definition demo_snapshot_deps :: snapshot_deps where
  "demo_snapshot_deps = \<lparr>sd_message = (\<lambda>_. True), sd_compare = (\<lambda>a b. 0),
     sd_dateParse = (\<lambda>_. Some 0), sd_number = (\<lambda>_. ''1'')\<rparr>"

definition demo_entry :: "string \<Rightarrow> snap_entry" where
  "demo_entry i = \<lparr>se_chat = JObj [(''id'', JStr i)], se_cachedAt = ''t'', se_lastAccessedAt = ''t''\<rparr>"

definition demo_snap :: snap_cache where
  "demo_snap = \<lparr>ch_profileId = ''p'', ch_selectedChatId = Some ''b'', ch_updatedAt = ''t'',
     ch_entries = [demo_entry ''a'', demo_entry ''b'']\<rparr>"

theorem selected_chat_kept_witness:
  "hd (ch_entries (boundChatSnapshotCache demo_snapshot_deps demo_snap)) = demo_entry ''b''"
proof -
  have "json_bytes demo_snapshot_deps (cache_json (demo_snap\<lparr>ch_entries := [demo_entry ''b'']\<rparr>)) < 1000"
    by code_simp
  then show ?thesis
    using selected_chat_kept [of demo_snap "''b''" "demo_entry ''b''" demo_snapshot_deps]
    by (simp add: demo_snap_def demo_entry_def chat_id_def obj_field_def toRecord_def field_def)
qed


section \<open>The purge barrier\<close>



definition op_generation :: "cache_op \<Rightarrow> nat option" where
  "op_generation op = (case op of SaveQueued c g \<Rightarrow> Some g | SaveDirectory c g \<Rightarrow> Some g
     | SaveWriting c g \<Rightarrow> Some g | DeleteQueued \<Rightarrow> None)"


lemma list_all_tl_snoc: "list_all P (tl xs) \<Longrightarrow> P x \<Longrightarrow> list_all P (tl (xs @ [x]))"
  by (cases xs) auto











section \<open>Payloads\<close>

lemma obj_field_without_key: "obj_field (without_key k j) k' = (if k' = k then None else obj_field j k')"
  by (cases j) (auto simp: obj_field_def without_key_def toRecord_def field_def map_get_del)

lemma obj_field_with_key:
  "obj_field j k \<noteq> None \<Longrightarrow> obj_field (with_key k v j) k' = (if k' = k then Some v else obj_field j k')"
  by (cases j) (auto simp: obj_field_def with_key_def toRecord_def field_def map_get_put)

definition part_small :: "json \<Rightarrow> bool" where
  "part_small part \<longleftrightarrow>
     \<not> (obj_field part ''type'' \<in> {Some (JStr ''image''), Some (JStr ''audio'')} \<and>
        isOversizedPayload (obj_field part ''data'')) \<and>
     \<not> (obj_field part ''type'' = Some (JStr ''resource'') \<and>
        isOversizedPayload (Option.bind (obj_field part ''resource'') (\<lambda>r. obj_field r ''blob'')))"

lemma part_small_sanitized: "part_small (sanitizePartForCache part)"
proof -
  have o: "\<not> isOversizedPayload None" by (simp add: isOversizedPayload_def)
  have r: "obj_field part ''resource'' \<noteq> None"
    if "isOversizedPayload (Option.bind (obj_field part ''resource'') (\<lambda>r. obj_field r ''blob''))"
    using that o by (cases "obj_field part ''resource''") simp_all
  show ?thesis
    using o r by (auto simp: sanitizePartForCache_def part_small_def obj_field_without_key obj_field_with_key)
qed

definition meta_small :: "snapshot_deps \<Rightarrow> json \<Rightarrow> bool" where
  "meta_small dp tm \<longleftrightarrow>
     \<not> oversized_text dp (obj_field tm ''content'') \<and> \<not> oversized_text dp (obj_field tm ''locations'')"

lemma meta_small_sanitized: "meta_small dp (sanitizeToolMetaForCache dp tm)"
  by (auto simp: sanitizeToolMetaForCache_def meta_small_def Let_def obj_field_without_key oversized_text_def)

definition message_small :: "snapshot_deps \<Rightarrow> json \<Rightarrow> bool" where
  "message_small dp m \<longleftrightarrow>
     (case obj_field m ''parts'' of Some (JArr ps) \<Rightarrow> list_all part_small ps | _ \<Rightarrow> True) \<and>
     (case obj_field m ''toolMeta'' of Some tm \<Rightarrow> meta_small dp tm | None \<Rightarrow> True)"

lemma falsy_meta_small: "falsy tm \<Longrightarrow> meta_small dp tm"
  by (auto simp: falsy_def meta_small_def oversized_text_def obj_field_def toRecord_def field_def)

lemma message_small_sanitized: "message_small dp (sanitizeMessageForCache dp m)"
proof -
  define m1 where "m1 = (case obj_field m ''parts'' of
                  Some (JArr ps) \<Rightarrow> with_key ''parts'' (JArr (sanitizePartsForCache ps)) m | _ \<Rightarrow> m)"
  have m1: "obj_field m1 ''toolMeta'' = obj_field m ''toolMeta''"
    "case obj_field m1 ''parts'' of Some (JArr ps) \<Rightarrow> list_all part_small ps | _ \<Rightarrow> True"
    by (auto simp: m1_def obj_field_with_key sanitizePartsForCache_def list_all_iff part_small_sanitized
        split: option.splits json.splits)
  show ?thesis
    using m1 falsy_meta_small meta_small_sanitized
    by (auto simp: sanitizeMessageForCache_def message_small_def Let_def m1_def [symmetric] obj_field_with_key
        split: option.splits)
qed

text \<open>
  No oversized payload reaches the disk. Every message of a sanitized chat is free of inline
  image, audio and resource data and of structured tool output longer than 64 KiB; the other
  fields of the chat are untouched.
\<close>

theorem sanitized_chat_small:
  "(case obj_field (sanitizeChatForCache dp chat) ''messages'' of
      Some (JArr ms) \<Rightarrow> list_all (message_small dp) ms
    | _ \<Rightarrow> True) \<and>
   (k = ''messages'' \<or> obj_field (sanitizeChatForCache dp chat) k = obj_field chat k)"
proof -
  show ?thesis
    by (auto simp: sanitizeChatForCache_def obj_field_with_key list_all_iff message_small_sanitized
        split: option.splits json.splits)
qed

end
