(* ===== verification/AgUiText.thy ===== *)
theory AgUiText
  imports JsonText AgUiTypes
begin

text \<open>
  What the AG-UI reducers compute on message contents: the text and the sub-agent data of a
  message (\<^verbatim>\<open>bridge/messages.ts\<close>), the rendering of structured content
  (\<^verbatim>\<open>bridge/agui/agUiContent.ts\<close>), ordered parts and JSON patches
  (\<^verbatim>\<open>bridge/agui/agUiReducerUtilities.ts\<close>).

  The record \<open>js_lib\<close> holds what the host provides: \<open>js_iso\<close> prints a time stamp
  (\<open>new Date(t).toISOString()\<close>, for times in the range of \<open>Date\<close>), \<open>js_now\<close> is the current time
  printed the same way, \<open>js_number\<close> prints a number and \<open>js_parse\<close> is \<open>JSON.parse\<close>
  (\<^const>\<open>None\<close> when it throws).
\<close>

record js_lib =
  js_iso :: "rat \<Rightarrow> string"
  js_now :: string
  js_number :: "rat \<Rightarrow> string"
  js_parse :: "string \<Rightarrow> json option"

definition timestampIso :: "js_lib \<Rightarrow> rat option \<Rightarrow> string" where
  "timestampIso lib timestamp = (case timestamp of Some t \<Rightarrow> js_iso lib t | None \<Rightarrow> js_now lib)"


section \<open>Library functions\<close>

text \<open>\<open>toLowerCase\<close> on the code units below 256.\<close>

definition lower_char :: "char \<Rightarrow> char" where
  "lower_char c =
     (let n = of_char c :: nat
      in if (65 \<le> n \<and> n < 91) \<or> (192 \<le> n \<and> n < 223 \<and> n \<noteq> 215) then char_of (n + 32) else c)"

definition to_lower :: "string \<Rightarrow> string" where
  "to_lower s = map lower_char s"

definition is_alnum :: "char \<Rightarrow> bool" where
  "is_alnum c \<longleftrightarrow>
     (let n = of_char c :: nat in (48 \<le> n \<and> n < 58) \<or> (65 \<le> n \<and> n < 91) \<or> (97 \<le> n \<and> n < 123))"

definition NL :: string where "NL = [CHR 0x0A]"

text \<open>The bullet of the activity texts, in UTF-8.\<close>

definition BULLET :: string where "BULLET = [CHR 0xE2, CHR 0x80, CHR 0xA2]"

text \<open>\<open>hay.indexOf(needle, from)\<close> for a needle that is not empty, and \<open>hay.includes(needle)\<close>.\<close>

definition index_of :: "string \<Rightarrow> string \<Rightarrow> nat \<Rightarrow> nat option" where
  "index_of hay needle from = List.find (\<lambda>pos. starts_with (drop pos hay) needle) [from..<Suc (length hay)]"

definition str_includes :: "string \<Rightarrow> string \<Rightarrow> bool" where
  "str_includes hay needle \<longleftrightarrow> index_of hay needle 0 \<noteq> None"

text \<open>\<open>Number.parseInt(s, 10)\<close>, \<^const>\<open>None\<close> for \<open>NaN\<close>.\<close>

definition digits_prefix :: "string \<Rightarrow> nat option" where
  "digits_prefix s =
     (let ds = takeWhile (\<lambda>c. char_digit c \<noteq> None) s in if ds = [] then None else nat_of_digits 0 ds)"

definition parse_int :: "string \<Rightarrow> int option" where
  "parse_int s =
     (case trim_start s of
        [] \<Rightarrow> None
      | c # cs \<Rightarrow>
          if c = CHR ''-'' then map_option (\<lambda>n. - int n) (digits_prefix cs)
          else if c = CHR ''+'' then map_option int (digits_prefix cs)
          else map_option int (digits_prefix (c # cs)))"

text \<open>An optional string as a condition: absent and empty strings are false.\<close>

definition non_empty :: "string option \<Rightarrow> string option" where
  "non_empty v = (case v of Some s \<Rightarrow> if s = [] then None else Some s | None \<Rightarrow> None)"

definition str_field :: "(string, json) jsmap \<Rightarrow> string \<Rightarrow> string option" where
  "str_field m k = (case map_get m k of Some (JStr s) \<Rightarrow> Some s | _ \<Rightarrow> None)"

definition arr_field :: "(string, json) jsmap option \<Rightarrow> string \<Rightarrow> json list option" where
  "arr_field m k = (case field m k of Some (JArr xs) \<Rightarrow> Some xs | _ \<Rightarrow> None)"

text \<open>\<open>{...a, ...b}\<close>\<close>

definition spread :: "('k, 'v) jsmap \<Rightarrow> ('k, 'v) jsmap \<Rightarrow> ('k, 'v) jsmap" where
  "spread a b = fold (\<lambda>(k, v). map_put k v) b a"


section \<open>Message text\<close>

definition SUBAGENT_ACTIVITY_TYPE :: string where "SUBAGENT_ACTIVITY_TYPE = ''dappercode.subagent''"

definition readActivityText :: "json \<Rightarrow> string" where
  "readActivityText content =
     (case content of JObj m \<Rightarrow> (case str_field m ''text'' of Some t \<Rightarrow> t | None \<Rightarrow> []) | _ \<Rightarrow> [])"

definition text_of_part :: "json \<Rightarrow> string" where
  "text_of_part part =
     (case part of
        JObj m \<Rightarrow>
          if str_field m ''type'' = Some ''text''
          then (case str_field m ''text'' of Some t \<Rightarrow> t | None \<Rightarrow> []) else []
      | _ \<Rightarrow> [])"

definition readUserText :: "json \<Rightarrow> string" where
  "readUserText content =
     (case content of JStr s \<Rightarrow> s | JArr parts \<Rightarrow> concat (map text_of_part parts) | _ \<Rightarrow> [])"

text \<open>A message without content has the content \<^const>\<open>JNull\<close>.\<close>

definition getMessageText :: "chat_message \<Rightarrow> string" where
  "getMessageText m =
     (case cm_role m of
        Activity \<Rightarrow> readActivityText (cm_content m)
      | User \<Rightarrow> readUserText (cm_content m)
      | _ \<Rightarrow> (case cm_content m of JStr s \<Rightarrow> s | _ \<Rightarrow> []))"


section \<open>Sub-agent data\<close>

text \<open>The properties of a value that is an object for \<open>typeof\<close>; an array has its indices.\<close>

definition object_entries :: "json \<Rightarrow> (string, json) jsmap option" where
  "object_entries v =
     (case v of
        JObj m \<Rightarrow> Some m
      | JArr xs \<Rightarrow> Some (zip (map string_of_nat [0..<length xs]) xs)
      | _ \<Rightarrow> None)"

definition isStringArray :: "json \<Rightarrow> bool" where
  "isStringArray v = (case v of JArr xs \<Rightarrow> list_all (\<lambda>x. case x of JStr _ \<Rightarrow> True | _ \<Rightarrow> False) xs | _ \<Rightarrow> False)"

definition isOptionalStringProperty :: "(string, json) jsmap \<Rightarrow> string \<Rightarrow> bool" where
  "isOptionalStringProperty m k =
     (case map_get m k of None \<Rightarrow> True | Some (JStr _) \<Rightarrow> True | _ \<Rightarrow> False)"

definition isOptionalStringArrayProperty :: "(string, json) jsmap \<Rightarrow> string \<Rightarrow> bool" where
  "isOptionalStringArrayProperty m k = (case map_get m k of None \<Rightarrow> True | Some v \<Rightarrow> isStringArray v)"

definition isChatMessageSubAgentMeta :: "(string, json) jsmap \<Rightarrow> bool" where
  "isChatMessageSubAgentMeta m \<longleftrightarrow>
     isOptionalStringProperty m ''toolCallId'' \<and> isOptionalStringProperty m ''tool'' \<and>
     isOptionalStringProperty m ''prompt'' \<and> isOptionalStringProperty m ''senderThreadId'' \<and>
     isOptionalStringArrayProperty m ''receiverThreadIds'' \<and> isOptionalStringProperty m ''agentStatus''"

definition content_field :: "chat_message \<Rightarrow> string \<Rightarrow> json option" where
  "content_field m k = (case cm_content m of JObj o' \<Rightarrow> map_get o' k | _ \<Rightarrow> None)"

definition getSubAgentMeta :: "chat_message \<Rightarrow> (string, json) jsmap option" where
  "getSubAgentMeta m =
     (if cm_role m \<noteq> Activity \<or> cm_activityType m \<noteq> Some SUBAGENT_ACTIVITY_TYPE then None
      else Option.bind (Option.bind (content_field m ''subAgent'') object_entries)
             (\<lambda>meta. if isChatMessageSubAgentMeta meta then Some meta else None))"

definition thread_links :: "(string, json) jsmap option \<Rightarrow> string list" where
  "thread_links meta =
     (case arr_field meta ''receiverThreadIds'' of
        None \<Rightarrow> []
      | Some xs \<Rightarrow> filter (\<lambda>s. s \<noteq> []) (map (\<lambda>x. case x of JStr s \<Rightarrow> trim s | _ \<Rightarrow> []) xs))"

definition meta_call :: "(string, json) jsmap option \<Rightarrow> string option" where
  "meta_call meta = non_empty (Option.bind meta (\<lambda>m. str_field m ''toolCallId''))"

definition preserveKnownSubAgentThreadLink :: "chat_message option \<Rightarrow> chat_message \<Rightarrow> chat_message" where
  "preserveKnownSubAgentThreadLink existing incoming =
     (if cm_role incoming \<noteq> Activity \<or> cm_activityType incoming \<noteq> Some SUBAGENT_ACTIVITY_TYPE then incoming
      else
        let existingMeta = Option.bind existing getSubAgentMeta;
            existingIds = thread_links existingMeta;
            incomingMeta = getSubAgentMeta incoming;
            incomingIds = thread_links incomingMeta
        in if existingIds = [] then incoming
           else if incomingIds \<noteq> [] \<or>
                   (meta_call existingMeta \<noteq> None \<and> meta_call incomingMeta \<noteq> None \<and>
                    meta_call existingMeta \<noteq> meta_call incomingMeta)
           then incoming
           else
             let content = (case cm_content incoming of JObj o' \<Rightarrow> o' | _ \<Rightarrow> []);
                 meta = spread (case existingMeta of Some m \<Rightarrow> m | None \<Rightarrow> [])
                               (case incomingMeta of Some m \<Rightarrow> m | None \<Rightarrow> [])
             in incoming\<lparr>cm_content := JObj (map_put ''subAgent''
                  (JObj (map_put ''receiverThreadIds'' (JArr (map JStr existingIds)) meta)) content)\<rparr>)"

text \<open>The fields that a new message of a role starts with.\<close>

definition blank_message :: "string \<Rightarrow> chat_role \<Rightarrow> json \<Rightarrow> string \<Rightarrow> chat_message" where
  "blank_message i role content createdAt =
     \<lparr>cm_id = i, cm_role = role, cm_content = content, cm_name = None, cm_toolCalls = None,
      cm_toolCallId = None, cm_error = None, cm_activityType = None, cm_encryptedValue = None,
      cm_parts = None, cm_createdAt = createdAt, cm_completedAt = None, cm_pending = None,
      cm_toolMeta = None, cm_usage = None\<rparr>"

definition createActivityMessage ::
  "string \<Rightarrow> string \<Rightarrow> (string, json) jsmap \<Rightarrow> string \<Rightarrow> chat_message" where
  "createActivityMessage i activityType content createdAt =
     (blank_message i Activity (JObj content) createdAt)\<lparr>cm_activityType := Some activityType\<rparr>"


section \<open>Rendering of structured content\<close>

definition or_else_str :: "string option \<Rightarrow> string option \<Rightarrow> string option" where
  "or_else_str a b = (case a of Some s \<Rightarrow> Some s | None \<Rightarrow> b)"

definition renderImage :: "(string, json) jsmap \<Rightarrow> string list" where
  "renderImage entry =
     (let url = or_else_str (nonEmptyString (map_get entry ''url''))
                  (or_else_str (nonEmptyString (map_get entry ''imageUrl''))
                     (nonEmptyString (map_get entry ''image_url'')));
          data = nonEmptyString (map_get entry ''data'');
          mimeType = or_else_str (nonEmptyString (map_get entry ''mimeType''))
                       (nonEmptyString (map_get entry ''mime_type''));
          source = (case url of
                      Some u \<Rightarrow> Some u
                    | None \<Rightarrow> (case (data, mimeType) of
                                (Some d, Some mt) \<Rightarrow> Some (''data:'' @ mt @ '';base64,'' @ d)
                              | _ \<Rightarrow> None))
      in case source of Some s \<Rightarrow> [''[image: '' @ s @ '']''] | None \<Rightarrow> [''[image]''])"

definition renderAudio :: "(string, json) jsmap \<Rightarrow> string list" where
  "renderAudio entry =
     (let mimeType = or_else_str (nonEmptyString (map_get entry ''mimeType''))
                       (nonEmptyString (map_get entry ''mime_type''))
      in [''[audio'' @ (case mimeType of Some mt \<Rightarrow> '': '' @ mt | None \<Rightarrow> []) @ '']''])"

definition renderResourceLink :: "(string, json) jsmap \<Rightarrow> string list" where
  "renderResourceLink entry =
     (let uri = nonEmptyString (map_get entry ''uri''); name = nonEmptyString (map_get entry ''name'')
      in case uri of
           None \<Rightarrow> []
         | Some u \<Rightarrow>
             [''[file: '' @ u @ '']'' @
              (case name of Some n \<Rightarrow> if n \<noteq> u then '' '' @ n else [] | None \<Rightarrow> [])])"

definition renderResource :: "(string, json) jsmap \<Rightarrow> string list" where
  "renderResource entry =
     (let resource = record_of (map_get entry ''resource'');
          uri = nonEmptyString (field resource ''uri''); txt = nonEmptyString (field resource ''text'')
      in (case uri of Some u \<Rightarrow> ''[resource: '' @ u @ '']'' | None \<Rightarrow> ''[resource]'') #
         (case txt of Some t \<Rightarrow> [t] | None \<Rightarrow> []))"

definition renderTypedContent :: "string option \<Rightarrow> (string, json) jsmap \<Rightarrow> string list option" where
  "renderTypedContent ty entry =
     (if ty = Some ''text''
      then Some (case map_get entry ''text'' of
                   Some (JStr s) \<Rightarrow> if nonEmptyString (Some (JStr s)) \<noteq> None then [s] else []
                 | _ \<Rightarrow> [])
      else if ty = Some ''image'' then Some (renderImage entry)
      else if ty = Some ''audio'' then Some (renderAudio entry)
      else if ty = Some ''resourcelink'' then Some (renderResourceLink entry)
      else if ty = Some ''resource'' then Some (renderResource entry)
      else None)"

text \<open>
  The recursive calls of \<open>renderStructuredContent\<close> are the argument \<open>nested\<close> of the renderers
  below.
\<close>

definition renderDiff :: "(json option \<Rightarrow> string list) \<Rightarrow> (string, json) jsmap \<Rightarrow> string list" where
  "renderDiff nested entry =
     (''[diff: '' @ (case nonEmptyString (map_get entry ''path'') of Some p \<Rightarrow> p | None \<Rightarrow> ''file'') @ '']'') #
     concat (map nested [map_get entry ''oldText'', map_get entry ''newText''])"

definition renderTerminal :: "(json option \<Rightarrow> string list) \<Rightarrow> (string, json) jsmap \<Rightarrow> string list" where
  "renderTerminal nested entry =
     (let terminalId = or_else_str (nonEmptyString (map_get entry ''terminalId''))
                         (nonEmptyString (map_get entry ''terminal_id''))
      in (''[terminal'' @ (case terminalId of Some t \<Rightarrow> '': '' @ t | None \<Rightarrow> []) @ '']'') #
         concat (map (\<lambda>key. if map_has entry key then nested (map_get entry key) else []) [''output'', ''content'']))"

definition renderNestedContent ::
  "js_lib \<Rightarrow> (json option \<Rightarrow> string list) \<Rightarrow> (string, json) jsmap \<Rightarrow> string list" where
  "renderNestedContent lib nested entry =
     (let inner = concat (map (\<lambda>key. if map_has entry key then nested (map_get entry key) else [])
            [''content'', ''structuredContent'', ''structured_content'', ''locations'', ''result'', ''output''])
      in if inner \<noteq> [] then inner
         else (case nonEmptyString (map_get entry ''path'') of
                 None \<Rightarrow> []
               | Some p \<Rightarrow>
                   [''[location: '' @ p @
                    (case map_get entry ''line'' of
                       Some (JNum l) \<Rightarrow> if l \<noteq> 0 then '':'' @ js_number lib l else []
                     | _ \<Rightarrow> []) @ '']'']))"

text \<open>The first argument is 5 less the depth: content nested deeper than four levels is left out.\<close>

fun renderStructuredContent :: "js_lib \<Rightarrow> nat \<Rightarrow> json option \<Rightarrow> string list" where
  "renderStructuredContent lib 0 v = []"
| "renderStructuredContent lib (Suc n) v =
     (case v of
        None \<Rightarrow> []
      | Some JNull \<Rightarrow> []
      | Some (JArr xs) \<Rightarrow> concat (map (\<lambda>x. renderStructuredContent lib n (Some x)) xs)
      | Some (JStr s) \<Rightarrow> (if trim s \<noteq> [] then [s] else [])
      | Some (JObj entry) \<Rightarrow>
          (let ty = map_option (\<lambda>s. to_lower (filter is_alnum s)) (nonEmptyString (map_get entry ''type''))
           in case renderTypedContent ty entry of
                Some rendered \<Rightarrow> rendered
              | None \<Rightarrow>
                  if ty = Some ''content'' then renderStructuredContent lib n (map_get entry ''content'')
                  else if ty = Some ''diff'' then renderDiff (renderStructuredContent lib n) entry
                  else if ty = Some ''terminal'' then renderTerminal (renderStructuredContent lib n) entry
                  else renderNestedContent lib (renderStructuredContent lib n) entry)
      | Some _ \<Rightarrow> [])"

declare renderStructuredContent.simps [simp del]

definition renderAgUiCustomContent :: "js_lib \<Rightarrow> json \<Rightarrow> string" where
  "renderAgUiCustomContent lib v =
     (let structured = renderStructuredContent lib 5 (Some v)
      in if structured \<noteq> [] then join NL structured
         else (case v of JStr s \<Rightarrow> s | _ \<Rightarrow> json_text (js_number lib) v))"


section \<open>Ordered parts\<close>

definition text_part :: "string \<Rightarrow> json" where
  "text_part t = JObj [(''type'', JStr ''text''), (''text'', JStr t)]"

text \<open>The text of a part that is a text part.\<close>

definition part_text :: "json option \<Rightarrow> string option" where
  "part_text p =
     Option.bind (record_of p)
       (\<lambda>m. if str_field m ''type'' = Some ''text'' then str_field m ''text'' else None)"

text \<open>\<open>isChatMessagePart\<close> of the reducer utilities.\<close>

definition isMessagePart :: "json option \<Rightarrow> bool" where
  "isMessagePart v =
     (case record_of v of
        None \<Rightarrow> False
      | Some part \<Rightarrow>
          (case str_field part ''type'' of
             None \<Rightarrow> False
           | Some ty \<Rightarrow>
               if ty = ''text'' then str_field part ''text'' \<noteq> None
               else if ty = ''image'' \<or> ty = ''audio'' then True
               else if ty = ''resourceLink'' then str_field part ''uri'' \<noteq> None
               else ty = ''resource'' \<and> record_of (map_get part ''resource'') \<noteq> None))"

definition appendOrderedPart :: "json list \<Rightarrow> json option \<Rightarrow> json list" where
  "appendOrderedPart parts part =
     (case part_text part of
        None \<Rightarrow> (if isMessagePart part then parts @ [the part] else parts)
      | Some t \<Rightarrow>
          if t = [] then parts
          else (case part_text (if parts = [] then None else Some (last parts)) of
                  Some p \<Rightarrow> butlast parts @ [text_part (p @ t)]
                | None \<Rightarrow> parts @ [text_part t]))"

definition renderOrderedParts :: "js_lib \<Rightarrow> json list \<Rightarrow> string" where
  "renderOrderedParts lib parts = join NL (filter (\<lambda>s. s \<noteq> []) (map (renderAgUiCustomContent lib) parts))"

definition is_text_part :: "json \<Rightarrow> bool" where
  "is_text_part p \<longleftrightarrow> (case record_of (Some p) of Some m \<Rightarrow> str_field m ''type'' = Some ''text'' | None \<Rightarrow> False)"

definition partsMatchMessageContent :: "js_lib \<Rightarrow> json list option \<Rightarrow> json \<Rightarrow> bool" where
  "partsMatchMessageContent lib parts content =
     (case parts of
        None \<Rightarrow> False
      | Some ps \<Rightarrow>
          if ps = [] then False
          else (case content of
                  JStr s \<Rightarrow> (if list_ex (\<lambda>p. \<not> is_text_part p) ps then True else renderOrderedParts lib ps = s)
                | _ \<Rightarrow> True))"


section \<open>What the plain text of a tool does not cover\<close>

function findWholeLineRun :: "string \<Rightarrow> string \<Rightarrow> nat \<Rightarrow> nat option" where
  "findWholeLineRun haystack needle from =
     (case index_of haystack needle from of
        None \<Rightarrow> None
      | Some pos \<Rightarrow>
          let startsLine = (pos = 0 \<or> haystack ! (pos - 1) = CHR 0x0A);
              end' = pos + length needle;
              endsLine = (end' = length haystack \<or> haystack ! end' = CHR 0x0A)
          in if startsLine \<and> endsLine then Some pos else findWholeLineRun haystack needle (pos + 1))"
  by pat_completeness auto

lemma index_of_SomeD:
  "index_of hay needle from = Some pos \<Longrightarrow> from \<le> pos \<and> pos \<le> length hay \<and> starts_with (drop pos hay) needle"
  by (auto simp: index_of_def find_Some_iff simp del: upt_Suc)

termination findWholeLineRun
  by (relation "measure (\<lambda>(hay, needle, from). Suc (length hay) - from)") (auto dest!: index_of_SomeD)

declare findWholeLineRun.simps [simp del]

definition strip_newlines :: "string \<Rightarrow> string" where
  "strip_newlines s =
     rev (dropWhile (\<lambda>c. c = CHR 0x0A) (rev (dropWhile (\<lambda>c. c = CHR 0x0A) s)))"

definition structuredTextRemainder :: "string \<Rightarrow> string \<Rightarrow> string" where
  "structuredTextRemainder txt structured =
     (if trim structured = [] then []
      else if trim txt = [] then structured
      else let trimmed = trim txt in
        (case findWholeLineRun structured trimmed 0 of
           None \<Rightarrow> (if str_includes txt (trim structured) then [] else structured)
         | Some pos \<Rightarrow>
             let remainder = take pos structured @ drop (pos + length trimmed) structured
             in if trim remainder \<noteq> [] then strip_newlines remainder else []))"


section \<open>JSON patches\<close>

definition unescapePointer :: "string \<Rightarrow> string" where
  "unescapePointer s = replace_all ''~0'' ''~'' (replace_all ''~1'' ''/'' s)"

text \<open>
  \<open>splice(index, count, ...)\<close> starts at the index clamped to the array, counted from the end when it is
  negative. An undefined value in an array is \<^const>\<open>JNull\<close>, as the next clone makes it.
\<close>

definition splice_start :: "int \<Rightarrow> 'a list \<Rightarrow> nat" where
  "splice_start i xs =
     (if i < 0 then nat (max 0 (int (length xs) + i)) else min (nat i) (length xs))"

definition or_null :: "json option \<Rightarrow> json" where
  "or_null v = (case v of Some j \<Rightarrow> j | None \<Rightarrow> JNull)"

definition assign_index :: "int \<Rightarrow> json \<Rightarrow> json list \<Rightarrow> json list" where
  "assign_index i v xs =
     (if i < 0 \<or> 2 ^ 32 - 1 \<le> i then xs
      else if nat i < length xs then xs[nat i := v]
      else xs @ replicate (nat i - length xs) JNull @ [v])"

definition applyArrayPatch :: "json list \<Rightarrow> string \<Rightarrow> string \<Rightarrow> json option \<Rightarrow> json list" where
  "applyArrayPatch parent key op v =
     (case (if key = ''-'' then Some (int (length parent)) else parse_int key) of
        None \<Rightarrow> parent
      | Some i \<Rightarrow>
          let pos = splice_start i parent in
          if op = ''remove'' then take pos parent @ drop (Suc pos) parent
          else if op = ''add'' then take pos parent @ [or_null v] @ drop pos parent
          else if op = ''replace'' then assign_index i (or_null v) parent
          else parent)"

definition applyObjectPatch ::
  "(string, json) jsmap \<Rightarrow> string \<Rightarrow> string \<Rightarrow> json option \<Rightarrow> (string, json) jsmap" where
  "applyObjectPatch parent key op v =
     (if op = ''remove'' then map_del key parent
      else if op = ''add'' \<or> op = ''replace''
      then (case v of Some j \<Rightarrow> map_put key j parent | None \<Rightarrow> map_del key parent)
      else parent)"

definition patch_leaf :: "string \<Rightarrow> string \<Rightarrow> json option \<Rightarrow> json \<Rightarrow> json" where
  "patch_leaf key op v parent =
     (case parent of
        JArr xs \<Rightarrow> JArr (applyArrayPatch xs key op v)
      | JObj m \<Rightarrow> JObj (applyObjectPatch m key op v)
      | _ \<Rightarrow> parent)"

text \<open>
  The source finds the parent (\<open>getPatchParent\<close>) and changes it in place; here the change is made
  at the end of the path and the containers on the way are rebuilt.
\<close>

fun patch_at :: "string list \<Rightarrow> (json \<Rightarrow> json) \<Rightarrow> json \<Rightarrow> json" where
  "patch_at [] f j = f j"
| "patch_at (seg # segs) f (JArr xs) =
     (case parse_int seg of
        Some i \<Rightarrow>
          if 0 \<le> i \<and> nat i < length xs then JArr (xs[nat i := patch_at segs f (xs ! nat i)]) else JArr xs
      | None \<Rightarrow> JArr xs)"
| "patch_at (seg # segs) f (JObj m) =
     (case map_get m seg of Some v \<Rightarrow> JObj (map_put seg (patch_at segs f v) m) | None \<Rightarrow> JObj m)"
| "patch_at (seg # segs) f j = j"

definition applyNestedPatch :: "json \<Rightarrow> string list \<Rightarrow> string \<Rightarrow> json option \<Rightarrow> json" where
  "applyNestedPatch base segments op v = patch_at (butlast segments) (patch_leaf (last segments) op v) base"

definition applyRootPatch :: "json \<Rightarrow> string \<Rightarrow> json option \<Rightarrow> json" where
  "applyRootPatch base op v =
     (if op = ''replace'' \<or> op = ''add'' then or_null v else if op = ''remove'' then JNull else base)"

definition applyPatchOperation :: "json \<Rightarrow> (string, json) jsmap option \<Rightarrow> json" where
  "applyPatchOperation base patch =
     (case (nonEmptyString (field patch ''op''), Option.bind patch (\<lambda>m. str_field m ''path'')) of
        (Some op, Some path) \<Rightarrow>
          let segments = map unescapePointer (drop 1 (split_on CHR ''/'' path))
          in if segments = [] then applyRootPatch base op (field patch ''value'')
             else applyNestedPatch base segments op (field patch ''value'')
      | _ \<Rightarrow> base)"

definition applyJsonPatch :: "json \<Rightarrow> json list \<Rightarrow> json" where
  "applyJsonPatch v operations =
     fold (\<lambda>operation next. applyPatchOperation next (record_of (Some operation))) operations
       (case v of JNull \<Rightarrow> JObj [] | _ \<Rightarrow> v)"

end
