(* ===== verification/AgUiStore.thy ===== *)
theory AgUiStore
  imports AgUiText
begin

text \<open>
  The message store of the mobile client: the state of a thread
  (\<^verbatim>\<open>bridge/agui/agUiMessagesState.ts\<close>), its basic mutations
  (\<^verbatim>\<open>bridge/agui/agUiMessageMutations.ts\<close>), tool metadata (\<^verbatim>\<open>bridge/toolMeta.ts\<close>) and the
  settling of messages (\<^verbatim>\<open>bridge/agui/agUiStructuredAndTerminalReducers.ts\<close>).

  A plain object that serves as a dictionary is an association list; names of properties that
  every object inherits (\<open>constructor\<close> and the like) are not treated as present. Equal arrays
  count as the same array where the source compares references (\<open>shallowEqualMeta\<close>).
\<close>

section \<open>The state of a thread\<close>

record chunk_assembly =
  ca_count :: rat
  ca_chunks :: "(rat, string) jsmap"

datatype step_status = StepRunning | StepFinished

record agui_thread =
  th_messages :: "chat_message list"
  th_messageIndexById :: "(string, nat) jsmap"
  th_authoritativeSnapshot :: bool
  th_runByMessageId :: "(string, string) jsmap"
  th_terminalMessageIds :: "string list"
  th_replacesMessageId :: "(string, string) jsmap"
  th_toolCallMessageId :: "(string, string) jsmap"
  th_toolResultMessageId :: "(string, string) jsmap"
  th_subagentToolCallIds :: "(string, unit) jsmap"
  th_toolMeta :: "(string, tool_meta) jsmap"
  th_toolTextRevision :: "(string, string) jsmap"
  th_structuredRevision :: "(string, string) jsmap"
  th_structuredText :: "(string, string) jsmap"
  th_chunkAssemblies :: "(string, chunk_assembly) jsmap"
  th_state :: json
  th_steps :: "(string, step_status) jsmap"
  th_rawEvents :: "(string option \<times> json) list"
  th_customMetadata :: "(string, json option) jsmap"
  th_customMetadataOrder :: "string list"

type_synonym agui_state = "(string, agui_thread) jsmap"

definition MAX_MESSAGES_PER_THREAD :: nat where "MAX_MESSAGES_PER_THREAD = 128"
definition MAX_RAW_EVENTS_PER_THREAD :: nat where "MAX_RAW_EVENTS_PER_THREAD = 128"
definition MAX_CUSTOM_METADATA_ENTRIES :: nat where "MAX_CUSTOM_METADATA_ENTRIES = 128"

definition createAgUiThreadMessageState :: agui_thread where
  "createAgUiThreadMessageState =
     \<lparr>th_messages = [], th_messageIndexById = [], th_authoritativeSnapshot = False,
      th_runByMessageId = [], th_terminalMessageIds = [], th_replacesMessageId = [],
      th_toolCallMessageId = [], th_toolResultMessageId = [], th_subagentToolCallIds = [],
      th_toolMeta = [], th_toolTextRevision = [], th_structuredRevision = [],
      th_structuredText = [], th_chunkAssemblies = [], th_state = JNull, th_steps = [],
      th_rawEvents = [], th_customMetadata = [], th_customMetadataOrder = []\<rparr>"

text \<open>\<open>messages.findIndex(message => message.id === id)\<close>, from a given position on.\<close>

fun find_id :: "nat \<Rightarrow> string \<Rightarrow> chat_message list \<Rightarrow> nat option" where
  "find_id n i [] = None"
| "find_id n i (m # ms) = (if cm_id m = i then Some n else find_id (Suc n) i ms)"

definition findMessageIndex :: "agui_thread \<Rightarrow> string \<Rightarrow> nat option" where
  "findMessageIndex t i =
     (case map_get (th_messageIndexById t) i of
        Some n \<Rightarrow>
          if n < length (th_messages t) \<and> cm_id (th_messages t ! n) = i then Some n
          else find_id 0 i (th_messages t)
      | None \<Rightarrow> find_id 0 i (th_messages t))"

definition indexMessages :: "chat_message list \<Rightarrow> (string, nat) jsmap" where
  "indexMessages ms = fold (\<lambda>(i, n). map_put i n) (zip (map cm_id ms) [0..<length ms]) []"

definition findMessage :: "agui_thread \<Rightarrow> string \<Rightarrow> chat_message option" where
  "findMessage t i = map_option (\<lambda>n. th_messages t ! n) (findMessageIndex t i)"


section \<open>Tool metadata\<close>

definition TOOL_META_EVENT_NAME :: string where "TOOL_META_EVENT_NAME = ''dappercode.dev/tool-meta''"
definition TOOL_META_ACTIVITY_TYPE :: string where "TOOL_META_ACTIVITY_TYPE = ''dappercode.tool''"

definition TOOL_KINDS :: "(string \<times> tool_kind) list" where
  "TOOL_KINDS = [(''read'', KRead), (''edit'', KEdit), (''delete'', KDelete), (''move'', KMove),
     (''search'', KSearch), (''execute'', KExecute), (''think'', KThink), (''fetch'', KFetch),
     (''switch_mode'', KSwitchMode), (''other'', KOther)]"

definition TOOL_STATUSES :: "(string \<times> tool_status) list" where
  "TOOL_STATUSES = [(''pending'', TsPending), (''in_progress'', TsInProgress),
     (''completed'', TsCompleted), (''failed'', TsFailed)]"

definition normalized_name :: "json option \<Rightarrow> string option" where
  "normalized_name v =
     map_option (\<lambda>s. map (\<lambda>c. if c = CHR ''-'' then CHR ''_'' else c) (to_lower s)) (nonEmptyString v)"

definition toToolKind :: "json option \<Rightarrow> tool_kind" where
  "toToolKind v =
     (case Option.bind (normalized_name v) (map_of TOOL_KINDS) of Some k \<Rightarrow> k | None \<Rightarrow> KOther)"

definition toToolStatus :: "json option \<Rightarrow> tool_status" where
  "toToolStatus v =
     (case Option.bind (normalized_name v) (map_of TOOL_STATUSES) of Some s \<Rightarrow> s | None \<Rightarrow> TsPending)"

definition kind_name :: "tool_kind \<Rightarrow> string" where
  "kind_name k = (case find (\<lambda>(n, k'). k' = k) TOOL_KINDS of Some (n, _) \<Rightarrow> n | None \<Rightarrow> ''other'')"

definition parseToolMeta :: "json option \<Rightarrow> string option \<Rightarrow> tool_meta option" where
  "parseToolMeta v fallbackToolCallId =
     (case record_of v of
        None \<Rightarrow> None
      | Some entry \<Rightarrow>
          (case or_else_str (nonEmptyString (map_get entry ''toolCallId'')) (non_empty fallbackToolCallId) of
             None \<Rightarrow> None
           | Some toolCallId \<Rightarrow>
               let kind = toToolKind (map_get entry ''kind'')
               in Some \<lparr>tm_toolCallId = toolCallId, tm_kind = kind,
                    tm_status = toToolStatus (map_get entry ''status''),
                    tm_title = (case nonEmptyString (map_get entry ''title'') of Some t \<Rightarrow> t | None \<Rightarrow> kind_name kind),
                    tm_content = arr_field (Some entry) ''content'',
                    tm_locations = arr_field (Some entry) ''locations'',
                    tm_truncated = (case map_get entry ''truncated'' of Some (JBool b) \<Rightarrow> Some b | _ \<Rightarrow> None)\<rparr>))"

definition keep_last :: "'a option \<Rightarrow> 'a option \<Rightarrow> 'a option" where
  "keep_last new old = (case new of Some x \<Rightarrow> Some x | None \<Rightarrow> old)"

definition mergeToolMeta :: "tool_meta option \<Rightarrow> tool_meta \<Rightarrow> tool_meta" where
  "mergeToolMeta previous nxt =
     (case previous of
        None \<Rightarrow> nxt
      | Some p \<Rightarrow>
          nxt\<lparr>tm_content := keep_last (tm_content nxt) (tm_content p),
              tm_locations := keep_last (tm_locations nxt) (tm_locations p),
              tm_truncated := keep_last (tm_truncated nxt) (tm_truncated p)\<rparr>)"

definition withToolStructured ::
  "tool_meta option \<Rightarrow> string \<Rightarrow> json list option \<Rightarrow> json list option \<Rightarrow> tool_meta" where
  "withToolStructured previous toolCallId content locations =
     (let base = (case previous of
                    Some p \<Rightarrow> p
                  | None \<Rightarrow> \<lparr>tm_toolCallId = toolCallId, tm_kind = KOther, tm_status = TsPending,
                            tm_title = ''other'', tm_content = None, tm_locations = None, tm_truncated = None\<rparr>)
      in base\<lparr>tm_content := keep_last content (tm_content base),
              tm_locations := keep_last locations (tm_locations base)\<rparr>)"

definition tool_calls :: "chat_message \<Rightarrow> tool_call list" where
  "tool_calls m = (case cm_toolCalls m of Some cs \<Rightarrow> cs | None \<Rightarrow> [])"

definition messageReferencesToolCall :: "chat_message \<Rightarrow> string \<Rightarrow> bool" where
  "messageReferencesToolCall m toolCallId =
     (if cm_role m = Tool then cm_toolCallId m = Some toolCallId
      else if cm_role m = Assistant then list_ex (\<lambda>c. tc_id c = toolCallId) (tool_calls m)
      else False)"

definition shallowEqualMeta :: "tool_meta \<Rightarrow> tool_meta \<Rightarrow> bool" where
  "shallowEqualMeta l r \<longleftrightarrow>
     tm_kind l = tm_kind r \<and> tm_status l = tm_status r \<and> tm_title l = tm_title r \<and>
     tm_truncated l = tm_truncated r \<and> tm_content l = tm_content r \<and> tm_locations l = tm_locations r"

definition stamp_meta :: "tool_meta \<Rightarrow> chat_message \<Rightarrow> chat_message" where
  "stamp_meta meta m =
     (if \<not> messageReferencesToolCall m (tm_toolCallId meta) then m
      else let merged = mergeToolMeta (cm_toolMeta m) meta
           in case cm_toolMeta m of
                Some old \<Rightarrow> if shallowEqualMeta old merged then m else m\<lparr>cm_toolMeta := Some merged\<rparr>
              | None \<Rightarrow> m\<lparr>cm_toolMeta := Some merged\<rparr>)"

definition attachToolMeta :: "chat_message list \<Rightarrow> tool_meta \<Rightarrow> chat_message list" where
  "attachToolMeta ms meta = map (stamp_meta meta) ms"


section \<open>Message mutations\<close>

definition toolCall :: "string \<Rightarrow> string \<Rightarrow> string \<Rightarrow> tool_call" where
  "toolCall i name args = \<lparr>tc_id = i, tc_name = name, tc_arguments = args, tc_encryptedValue = None\<rparr>"

fun upsertToolCall :: "tool_call list \<Rightarrow> string \<Rightarrow> string \<Rightarrow> string \<Rightarrow> tool_call list" where
  "upsertToolCall [] i name args = [toolCall i name args]"
| "upsertToolCall (c # cs) i name args =
     (if tc_id c = i then toolCall i name args # cs else c # upsertToolCall cs i name args)"

definition rememberReplacement :: "agui_thread \<Rightarrow> string \<Rightarrow> string option \<Rightarrow> agui_thread" where
  "rememberReplacement t messageId replaces =
     (case non_empty replaces of
        None \<Rightarrow> t
      | Some r \<Rightarrow> t\<lparr>th_replacesMessageId := map_put messageId r (th_replacesMessageId t)\<rparr>)"

definition textMessage :: "js_lib \<Rightarrow> string \<Rightarrow> chat_role \<Rightarrow> string \<Rightarrow> string option \<Rightarrow> chat_message" where
  "textMessage lib i role content name =
     (let base = (blank_message i role (JStr content) (js_now lib))\<lparr>cm_name := non_empty name\<rparr>
      in case role of
           Developer \<Rightarrow> base
         | System \<Rightarrow> base
         | User \<Rightarrow> base
         | _ \<Rightarrow> base\<lparr>cm_role := Assistant, cm_pending := Some True\<rparr>)"

definition withoutMessageIds :: "(string, string) jsmap \<Rightarrow> string set \<Rightarrow> (string, string) jsmap" where
  "withoutMessageIds entries dropped = filter (\<lambda>(i, _). i \<notin> dropped) entries"

definition withoutMessageValues :: "(string, string) jsmap \<Rightarrow> string set \<Rightarrow> (string, string) jsmap" where
  "withoutMessageValues entries dropped = filter (\<lambda>(_, messageId). messageId \<notin> dropped) entries"

definition upsertMessage :: "js_lib \<Rightarrow> agui_thread \<Rightarrow> chat_message \<Rightarrow> string \<Rightarrow> rat option \<Rightarrow> agui_thread" where
  "upsertMessage lib t message runId timestamp =
     (let index = findMessageIndex t (cm_id message);
          existing = map_option (\<lambda>n. th_messages t ! n) index;
          nextMessage = message\<lparr>cm_createdAt :=
            (case existing of Some e \<Rightarrow> cm_createdAt e | None \<Rightarrow> timestampIso lib timestamp)\<rparr>;
          messages = (case index of
                        Some n \<Rightarrow> (th_messages t)[n := nextMessage]
                      | None \<Rightarrow> th_messages t @ [nextMessage]);
          kept = slice_last MAX_MESSAGES_PER_THREAD messages;
          runByMessageId = map_put (cm_id message) runId (th_runByMessageId t)
      in if length kept = length messages
         then t\<lparr>th_messages := kept,
                th_messageIndexById :=
                  (if index \<noteq> None \<and> map_get (th_messageIndexById t) (cm_id message) = index
                   then th_messageIndexById t
                   else map_put (cm_id message) (case index of Some n \<Rightarrow> n | None \<Rightarrow> length kept - 1)
                          (th_messageIndexById t)),
                th_runByMessageId := runByMessageId\<rparr>
         else let dropped = set (map cm_id (take (length messages - length kept) messages))
              in t\<lparr>th_messages := kept,
                   th_messageIndexById := indexMessages kept,
                   th_runByMessageId := withoutMessageIds runByMessageId dropped,
                   th_replacesMessageId := withoutMessageIds (th_replacesMessageId t) dropped,
                   th_toolCallMessageId := withoutMessageValues (th_toolCallMessageId t) dropped,
                   th_toolResultMessageId := withoutMessageValues (th_toolResultMessageId t) dropped,
                   th_terminalMessageIds := filter (\<lambda>i. i \<notin> dropped) (th_terminalMessageIds t)\<rparr>)"

definition withText :: "chat_message \<Rightarrow> string \<Rightarrow> chat_message" where
  "withText m content =
     (if cm_role m = Activity
      then m\<lparr>cm_content := JObj (map_put ''text'' (JStr content)
                                 (case cm_content m of JObj o' \<Rightarrow> o' | _ \<Rightarrow> []))\<rparr>
      else m\<lparr>cm_content := JStr content\<rparr>)"

definition text_or_empty :: "chat_message option \<Rightarrow> string" where
  "text_or_empty m = (case m of Some e \<Rightarrow> getMessageText e | None \<Rightarrow> [])"

definition appendText ::
  "js_lib \<Rightarrow> agui_thread \<Rightarrow> string \<Rightarrow> string \<Rightarrow> string \<Rightarrow> rat option \<Rightarrow> chat_role \<Rightarrow> agui_thread" where
  "appendText lib t messageId delta runId timestamp defaultRole =
     (let existing = findMessage t messageId;
          content = text_or_empty existing @ delta
      in if defaultRole \<noteq> Reasoning \<and> map_option cm_role existing \<noteq> Some Reasoning
         then
           (let existingParts = (case Option.bind existing cm_parts of Some ps \<Rightarrow> ps | None \<Rightarrow> []);
                onlyTextParts = list_all is_text_part existingParts;
                parts = (if onlyTextParts then [text_part content]
                         else appendOrderedPart existingParts (Some (text_part delta)));
                shown = (if onlyTextParts then content else renderOrderedParts lib parts);
                message =
                  (case existing of
                     Some e \<Rightarrow>
                       (let m = (withText e shown)\<lparr>cm_parts := Some parts\<rparr>
                        in if cm_role e = Assistant then m\<lparr>cm_pending := Some True\<rparr> else m)
                   | None \<Rightarrow> (textMessage lib messageId defaultRole shown None)\<lparr>cm_parts := Some parts\<rparr>)
            in upsertMessage lib t message runId timestamp)
         else
           (case existing of
              Some e \<Rightarrow>
                upsertMessage lib t
                  (if cm_role e = Reasoning then (withText e content)\<lparr>cm_pending := Some True\<rparr>
                   else withText e content) runId timestamp
            | None \<Rightarrow>
                if defaultRole = Reasoning
                then upsertMessage lib t
                       ((blank_message messageId Reasoning (JStr content) (timestampIso lib timestamp))
                          \<lparr>cm_pending := Some True\<rparr>) runId timestamp
                else upsertMessage lib t (textMessage lib messageId defaultRole content None) runId timestamp))"

definition upsertToolResult ::
  "js_lib \<Rightarrow> agui_thread \<Rightarrow> string \<Rightarrow> string \<Rightarrow> string \<Rightarrow> string \<Rightarrow> rat option \<Rightarrow> agui_thread" where
  "upsertToolResult lib t runId messageId toolCallId content timestamp =
     (let toolMessage = (blank_message messageId Tool (JStr content) (timestampIso lib timestamp))
            \<lparr>cm_toolCallId := Some toolCallId\<rparr>;
          nxt = upsertMessage lib t toolMessage runId timestamp
      in nxt\<lparr>th_messages := (case map_get (th_toolMeta nxt) toolCallId of
                               Some meta \<Rightarrow> attachToolMeta (th_messages nxt) meta
                             | None \<Rightarrow> th_messages nxt),
             th_toolResultMessageId := map_put toolCallId messageId (th_toolResultMessageId nxt)\<rparr>)"

definition with_messages :: "chat_message list \<Rightarrow> agui_thread \<Rightarrow> agui_thread" where
  "with_messages ms t = t\<lparr>th_messages := ms, th_messageIndexById := indexMessages ms\<rparr>"

definition tool_text :: "chat_message option \<Rightarrow> string" where
  "tool_text m =
     (case m of
        Some e \<Rightarrow> if cm_role e = Tool then (case cm_content e of JStr s \<Rightarrow> s | _ \<Rightarrow> []) else []
      | None \<Rightarrow> [])"

definition appendToolResult ::
  "js_lib \<Rightarrow> agui_thread \<Rightarrow> string \<Rightarrow> string \<Rightarrow> string \<Rightarrow> string \<Rightarrow> rat option \<Rightarrow> agui_thread" where
  "appendToolResult lib t runId messageId toolCallId delta timestamp =
     (let previousId = non_empty (map_get (th_toolResultMessageId t) toolCallId);
          previousText = tool_text (Option.bind previousId (findMessage t));
          withoutPrevious =
            (case previousId of
               Some p \<Rightarrow>
                 if p \<noteq> messageId then with_messages (filter (\<lambda>m. cm_id m \<noteq> p) (th_messages t)) t else t
             | None \<Rightarrow> t)
      in upsertToolResult lib withoutPrevious runId messageId toolCallId (previousText @ delta) timestamp)"

definition reduceActivitySnapshot ::
  "js_lib \<Rightarrow> agui_thread \<Rightarrow> string \<Rightarrow> string \<Rightarrow> string \<Rightarrow> (string, json) jsmap \<Rightarrow> rat option \<Rightarrow> agui_thread" where
  "reduceActivitySnapshot lib t runId messageId activityType content timestamp =
     (let subAgent = (if activityType = SUBAGENT_ACTIVITY_TYPE
                      then record_of (map_get content ''subAgent'') else None);
          suppressed =
            (case nonEmptyString (field subAgent ''toolCallId'') of
               None \<Rightarrow> t
             | Some toolCallId \<Rightarrow>
                 (with_messages
                    (filter (\<lambda>m. Some (cm_id m) \<noteq> map_get (th_toolCallMessageId t) toolCallId \<and>
                                 Some (cm_id m) \<noteq> map_get (th_toolResultMessageId t) toolCallId)
                       (th_messages t)) t)
                 \<lparr>th_subagentToolCallIds := map_put toolCallId () (th_subagentToolCallIds t)\<rparr>);
          incoming = createActivityMessage messageId activityType content (timestampIso lib timestamp)
      in upsertMessage lib suppressed
           (preserveKnownSubAgentThreadLink (findMessage suppressed messageId) incoming) runId timestamp)"

definition startToolCall ::
  "js_lib \<Rightarrow> agui_thread \<Rightarrow> string \<Rightarrow> string \<Rightarrow> string \<Rightarrow> string option \<Rightarrow> rat option \<Rightarrow> agui_thread" where
  "startToolCall lib t runId toolCallId toolCallName parentMessageId timestamp =
     (let messageId = (case parentMessageId of Some p \<Rightarrow> p | None \<Rightarrow> ''tool-call:'' @ toolCallId);
          fresh = (blank_message messageId Assistant (JStr []) (timestampIso lib timestamp))
                    \<lparr>cm_toolCalls := Some [toolCall toolCallId toolCallName []]\<rparr>;
          assistant =
            (case findMessage t messageId of
               Some e \<Rightarrow>
                 if cm_role e = Assistant
                 then e\<lparr>cm_toolCalls := Some (upsertToolCall (tool_calls e) toolCallId toolCallName [])\<rparr>
                 else fresh
             | None \<Rightarrow> fresh);
          nxt = upsertMessage lib t assistant runId timestamp
      in nxt\<lparr>th_toolCallMessageId := map_put toolCallId messageId (th_toolCallMessageId nxt)\<rparr>)"


section \<open>Settling messages\<close>

definition settle_reasoning :: "string set \<Rightarrow> chat_message \<Rightarrow> chat_message" where
  "settle_reasoning ids m =
     (if cm_role m \<noteq> Reasoning \<or> cm_pending m \<noteq> Some True \<or> cm_id m \<notin> ids then m
      else m\<lparr>cm_pending := Some False\<rparr>)"

definition settleReasoningMessages :: "chat_message list \<Rightarrow> string set \<Rightarrow> chat_message list" where
  "settleReasoningMessages ms ids = map (settle_reasoning ids) ms"

definition complete_message :: "string set \<Rightarrow> string \<Rightarrow> chat_message \<Rightarrow> chat_message" where
  "complete_message ids completedAt m =
     (if cm_role m \<noteq> Assistant \<or> cm_id m \<notin> ids \<or> (cm_completedAt m \<noteq> None \<and> cm_pending m = Some False) then m
      else m\<lparr>cm_completedAt := Some (case cm_completedAt m of Some c \<Rightarrow> c | None \<Rightarrow> completedAt),
             cm_pending := Some False\<rparr>)"

definition setMessageCompletionTime ::
  "chat_message list \<Rightarrow> string set \<Rightarrow> string option \<Rightarrow> chat_message list" where
  "setMessageCompletionTime ms ids completedAt =
     (case non_empty completedAt of None \<Rightarrow> ms | Some c \<Rightarrow> map (complete_message ids c) ms)"

definition add_missing :: "'a list \<Rightarrow> 'a list \<Rightarrow> 'a list" where
  "add_missing xs ys = fold (\<lambda>y acc. if y \<in> set acc then acc else acc @ [y]) ys xs"

definition markTerminal :: "agui_thread \<Rightarrow> string \<Rightarrow> string option \<Rightarrow> agui_thread" where
  "markTerminal t messageId completedAt =
     t\<lparr>th_messages :=
         setMessageCompletionTime (settleReasoningMessages (th_messages t) {messageId}) {messageId} completedAt,
       th_terminalMessageIds := add_missing (th_terminalMessageIds t) [messageId]\<rparr>"

definition markRunTerminal :: "agui_thread \<Rightarrow> string \<Rightarrow> string option \<Rightarrow> agui_thread" where
  "markRunTerminal t runId completedAt =
     (let ids = map fst (filter (\<lambda>(_, r). r = runId) (th_runByMessageId t))
      in if ids = [] then t
         else t\<lparr>th_messages :=
                  setMessageCompletionTime (settleReasoningMessages (th_messages t) (set ids)) (set ids) completedAt,
                th_terminalMessageIds := add_missing [] (th_terminalMessageIds t @ ids)\<rparr>)"

definition updateEncryptedValue ::
  "js_lib \<Rightarrow> agui_thread \<Rightarrow> string \<Rightarrow> string \<Rightarrow> encrypted_subtype \<Rightarrow> agui_thread" where
  "updateEncryptedValue lib t entityId encryptedValue subtype =
     (case subtype of
        EncMessage \<Rightarrow>
          (case findMessage t entityId of
             None \<Rightarrow> t
           | Some m \<Rightarrow>
               upsertMessage lib t (m\<lparr>cm_encryptedValue := Some encryptedValue\<rparr>)
                 (case map_get (th_runByMessageId t) entityId of Some r \<Rightarrow> r | None \<Rightarrow> []) None)
      | EncToolCall \<Rightarrow>
          (case Option.bind (non_empty (map_get (th_toolCallMessageId t) entityId)) (findMessage t) of
             None \<Rightarrow> t
           | Some m \<Rightarrow>
               if cm_role m \<noteq> Assistant then t
               else upsertMessage lib t
                      (m\<lparr>cm_toolCalls := map_option
                          (map (\<lambda>c. if tc_id c = entityId then c\<lparr>tc_encryptedValue := Some encryptedValue\<rparr> else c))
                          (cm_toolCalls m)\<rparr>)
                      (case map_get (th_runByMessageId t) (cm_id m) of Some r \<Rightarrow> r | None \<Rightarrow> []) None))"

end
