(* ===== verification/AgUiReducer.thy ===== *)
theory AgUiReducer
  imports AgUiStore
begin

text \<open>
  The AG-UI reducers: tool calls, custom events and chunks, message snapshots
  (\<^verbatim>\<open>bridge/agui/agUiToolAndCustomEventReducers.ts\<close>), structured content and sub-agent cards
  (\<^verbatim>\<open>bridge/agui/agUiStructuredAndTerminalReducers.ts\<close>), the dispatch on the type of the event
  (\<^verbatim>\<open>bridge/agui/agUiThreadEventReducer.ts\<close>) and the entry point
  (\<^verbatim>\<open>bridge/agui/agUiMessagesReducerEntry.ts\<close>).
\<close>

section \<open>Tool metadata and arguments\<close>

definition suppressed_call :: "agui_thread \<Rightarrow> string \<Rightarrow> bool" where
  "suppressed_call t toolCallId \<longleftrightarrow> map_has (th_subagentToolCallIds t) toolCallId"

definition rememberToolMeta :: "agui_thread \<Rightarrow> tool_meta \<Rightarrow> agui_thread" where
  "rememberToolMeta t meta =
     (if suppressed_call t (tm_toolCallId meta) then t
      else let merged = mergeToolMeta (map_get (th_toolMeta t) (tm_toolCallId meta)) meta
           in t\<lparr>th_messages := attachToolMeta (th_messages t) merged,
                th_toolMeta := map_put (tm_toolCallId meta) merged (th_toolMeta t)\<rparr>)"

definition reduceToolMeta ::
  "js_lib \<Rightarrow> agui_thread \<Rightarrow> string \<Rightarrow> (string, json) jsmap option \<Rightarrow> rat option \<Rightarrow> agui_thread" where
  "reduceToolMeta lib t runId v timestamp =
     (case parseToolMeta (map_option JObj v) None of
        None \<Rightarrow> t
      | Some meta \<Rightarrow>
          let started =
            (case non_empty (map_get (th_toolCallMessageId t) (tm_toolCallId meta)) of
               Some _ \<Rightarrow> t
             | None \<Rightarrow> startToolCall lib t runId (tm_toolCallId meta) (tm_title meta) None timestamp)
          in rememberToolMeta started meta)"

definition find_call :: "string \<Rightarrow> chat_message \<Rightarrow> tool_call option" where
  "find_call i m = List.find (\<lambda>c. tc_id c = i) (tool_calls m)"

definition appendToolArgs ::
  "js_lib \<Rightarrow> agui_thread \<Rightarrow> string \<Rightarrow> string \<Rightarrow> string \<Rightarrow> rat option \<Rightarrow> agui_thread" where
  "appendToolArgs lib t runId toolCallId delta timestamp =
     (let known = map_get (th_toolCallMessageId t) toolCallId;
          messageId = (case known of Some i \<Rightarrow> i | None \<Rightarrow> ''tool-call:'' @ toolCallId);
          started = (case non_empty known of
                       Some _ \<Rightarrow> t
                     | None \<Rightarrow> startToolCall lib t runId toolCallId ''tool'' None timestamp)
      in case findMessage started messageId of
           None \<Rightarrow> started
         | Some m \<Rightarrow>
             if cm_role m \<noteq> Assistant then started
             else let existing = find_call toolCallId m
                  in upsertMessage lib started
                       (m\<lparr>cm_toolCalls := Some (upsertToolCall (tool_calls m) toolCallId
                           (case existing of Some c \<Rightarrow> tc_name c | None \<Rightarrow> ''tool'')
                           ((case existing of Some c \<Rightarrow> tc_arguments c | None \<Rightarrow> []) @ delta))\<rparr>)
                       runId timestamp)"


section \<open>Structured content\<close>

definition reduceStructuredMessageContent ::
  "js_lib \<Rightarrow> agui_thread \<Rightarrow> agui_envelope \<Rightarrow> (string, json) jsmap option \<Rightarrow> agui_thread" where
  "reduceStructuredMessageContent lib t env v =
     (let messageId = (case nonEmptyString (field v ''messageId'') of
                         Some i \<Rightarrow> i | None \<Rightarrow> env_runId env @ '':content'');
          role = (if field v ''role'' = Some (JStr ''thought'') then Reasoning
                  else if field v ''role'' = Some (JStr ''user'') then User else Assistant);
          parts = appendOrderedPart
            (case Option.bind (findMessage t messageId) cm_parts of Some ps \<Rightarrow> ps | None \<Rightarrow> [])
            (field v ''content'');
          base = (blank_message messageId role (JStr (renderOrderedParts lib parts))
                    (timestampIso lib (env_timestamp env)))\<lparr>cm_parts := Some parts\<rparr>
      in upsertMessage lib t
           (if role = Reasoning then base\<lparr>cm_pending := Some True\<rparr> else base)
           (env_runId env) (env_timestamp env))"

definition join_lines :: "string list \<Rightarrow> string" where
  "join_lines ls = join NL (filter (\<lambda>s. s \<noteq> []) ls)"

text \<open>\<open>getToolCallDisplayLines\<close> of \<^verbatim>\<open>bridge/messages.ts\<close>\<close>

definition getToolCallDisplayLines :: "chat_message \<Rightarrow> string list" where
  "getToolCallDisplayLines m =
     (if cm_role m \<noteq> Assistant then []
      else map (\<lambda>c. let args = trim (tc_arguments c)
                     in join_lines [BULLET @ '' Called tool '' @ [CHR 0x60] @ tc_name c @ [CHR 0x60],
                                    if args \<noteq> [] \<and> args \<noteq> ''{}'' then ''  '' @ args else []])
             (tool_calls m))"

definition appendToolText :: "string \<Rightarrow> string \<Rightarrow> string \<times> string" where
  "appendToolText txt structured =
     (let appended = structuredTextRemainder txt structured in (join_lines [txt, appended], appended))"

definition reduceToolText ::
  "js_lib \<Rightarrow> agui_thread \<Rightarrow> agui_envelope \<Rightarrow> (string, json) jsmap option \<Rightarrow> agui_thread" where
  "reduceToolText lib t env v =
     (case nonEmptyString (field v ''toolCallId'') of
        None \<Rightarrow> t
      | Some toolCallId \<Rightarrow>
          if suppressed_call t toolCallId then t
          else (case (nonEmptyString (field v ''revision''), Option.bind v (\<lambda>m. str_field m ''content'')) of
                  (Some revision, Some content) \<Rightarrow>
                    if map_get (th_toolTextRevision t) toolCallId = Some revision then t
                    else
                      let messageId = (case map_get (th_toolResultMessageId t) toolCallId of
                                         Some i \<Rightarrow> i | None \<Rightarrow> ''tool-result:'' @ toolCallId);
                          structured = (case map_get (th_structuredText t) toolCallId of Some s \<Rightarrow> s | None \<Rightarrow> []);
                          joined = appendToolText content structured;
                          nxt = upsertToolResult lib t (env_runId env) messageId toolCallId (fst joined)
                                  (env_timestamp env)
                      in nxt\<lparr>th_toolTextRevision := map_put toolCallId revision (th_toolTextRevision nxt),
                             th_structuredText := map_put toolCallId (snd joined) (th_structuredText nxt)\<rparr>
                | _ \<Rightarrow> t))"

definition renderToolStructuredContent :: "js_lib \<Rightarrow> (string, json) jsmap option \<Rightarrow> string" where
  "renderToolStructuredContent lib v =
     (if arr_field v ''content'' = Some [] \<and> arr_field v ''locations'' = Some [] then []
      else renderAgUiCustomContent lib (case v of Some m \<Rightarrow> JObj m | None \<Rightarrow> JNull))"

definition withoutPreviousStructuredText :: "string \<Rightarrow> string \<Rightarrow> string" where
  "withoutPreviousStructuredText txt previousStructured =
     (if previousStructured \<noteq> [] \<and> ends_with txt previousStructured
      then trim_end (take (length txt - length previousStructured) txt) else txt)"

definition reduceToolContent ::
  "js_lib \<Rightarrow> agui_thread \<Rightarrow> agui_envelope \<Rightarrow> (string, json) jsmap option \<Rightarrow> agui_thread" where
  "reduceToolContent lib t env v =
     (let toolCallId = (case nonEmptyString (field v ''toolCallId'') of Some i \<Rightarrow> i | None \<Rightarrow> ''unknown'');
          revision = (case nonEmptyString (field v ''revision'') of
                        Some r \<Rightarrow> r
                      | None \<Rightarrow> json_text (js_number lib) (case v of Some m \<Rightarrow> JObj m | None \<Rightarrow> JNull))
      in if suppressed_call t toolCallId then t
         else if map_get (th_structuredRevision t) toolCallId = Some revision then t
         else
           let structured = renderToolStructuredContent lib v;
               messageId = (case map_get (th_toolResultMessageId t) toolCallId of
                              Some i \<Rightarrow> i | None \<Rightarrow> ''tool-result:'' @ toolCallId);
               base = withoutPreviousStructuredText (tool_text (findMessage t messageId))
                        (case map_get (th_structuredText t) toolCallId of Some s \<Rightarrow> s | None \<Rightarrow> []);
               joined = appendToolText base structured;
               nxt = upsertToolResult lib t (env_runId env) messageId toolCallId (fst joined) (env_timestamp env);
               meta = withToolStructured (map_get (th_toolMeta nxt) toolCallId) toolCallId
                        (arr_field v ''content'') (arr_field v ''locations'')
           in nxt\<lparr>th_messages := attachToolMeta (th_messages nxt) meta,
                  th_toolMeta := map_put toolCallId meta (th_toolMeta nxt),
                  th_structuredRevision := map_put toolCallId revision (th_structuredRevision nxt),
                  th_structuredText := map_put toolCallId (snd joined) (th_structuredText nxt)\<rparr>)"


section \<open>Sub-agent cards\<close>

definition readReceiverThreadIds :: "json option \<Rightarrow> string list" where
  "readReceiverThreadIds v =
     (case v of Some (JArr xs) \<Rightarrow> List.map_filter (\<lambda>x. nonEmptyString (Some x)) xs | _ \<Rightarrow> [])"

definition createSubagentMeta ::
  "string \<Rightarrow> string list \<Rightarrow> (string, json) jsmap option \<Rightarrow> string \<Rightarrow> (string, json) jsmap" where
  "createSubagentMeta toolCallId receiverThreadIds v threadId =
     [(''toolCallId'', JStr toolCallId),
      (''tool'', JStr (case nonEmptyString (field v ''tool'') of Some s \<Rightarrow> s | None \<Rightarrow> ''spawnAgent'')),
      (''senderThreadId'', JStr (case nonEmptyString (field v ''senderThreadId'') of Some s \<Rightarrow> s | None \<Rightarrow> threadId)),
      (''receiverThreadIds'', JArr (map JStr (add_missing [] receiverThreadIds)))] @
     (case nonEmptyString (field v ''agentStatus'') of Some s \<Rightarrow> [(''agentStatus'', JStr s)] | None \<Rightarrow> [])"

definition formatSubagentActivity :: "(string, json) jsmap \<Rightarrow> string \<Rightarrow> string option \<Rightarrow> string" where
  "formatSubagentActivity meta receiverThreadId resultPreview =
     (let status = str_field meta ''agentStatus''
      in join_lines
           [(if status = Some ''completed'' then BULLET @ '' Spawned sub-agent'' else BULLET @ '' Spawning sub-agent''),
            ''  Thread: '' @ receiverThreadId,
            (case non_empty status of Some s \<Rightarrow> ''  Status: '' @ s | None \<Rightarrow> []),
            (case non_empty resultPreview of Some r \<Rightarrow> ''  Result: '' @ r | None \<Rightarrow> [])])"

definition withoutSubagentMessages :: "chat_message list \<Rightarrow> string \<Rightarrow> chat_message list" where
  "withoutSubagentMessages ms toolCallId =
     filter (\<lambda>m. cm_id m \<notin> set [''tool-call:'' @ toolCallId, ''tool-result:'' @ toolCallId,
                                ''subagent:'' @ toolCallId]) ms"

definition reduceSubagentActivity ::
  "js_lib \<Rightarrow> agui_thread \<Rightarrow> agui_envelope \<Rightarrow> (string, json) jsmap option \<Rightarrow> agui_thread" where
  "reduceSubagentActivity lib t env v =
     (let toolCallId = (case nonEmptyString (field v ''toolCallId'') of Some i \<Rightarrow> i | None \<Rightarrow> ''unknown'');
          receiverThreadIds = readReceiverThreadIds (field v ''receiverThreadIds'')
      in case receiverThreadIds of
           [] \<Rightarrow> t
         | receiverThreadId # _ \<Rightarrow>
             let meta = createSubagentMeta toolCallId receiverThreadIds v (env_threadId env);
                 txt = formatSubagentActivity meta receiverThreadId (nonEmptyString (field v ''resultPreview''));
                 cleared = (with_messages (withoutSubagentMessages (th_messages t) toolCallId) t)
                   \<lparr>th_subagentToolCallIds := map_put toolCallId () (th_subagentToolCallIds t)\<rparr>
             in upsertMessage lib cleared
                  (createActivityMessage (''subagent:'' @ toolCallId) SUBAGENT_ACTIVITY_TYPE
                     [(''text'', JStr txt), (''subAgent'', JObj meta)] (timestampIso lib (env_timestamp env)))
                  (env_runId env) (env_timestamp env))"


section \<open>Message snapshots\<close>

definition subagent_call :: "chat_message \<Rightarrow> string option" where
  "subagent_call m =
     (if cm_role m = Activity \<and> cm_activityType m = Some SUBAGENT_ACTIVITY_TYPE
      then nonEmptyString (field (record_of (content_field m ''subAgent'')) ''toolCallId'') else None)"

definition collectCurrentSubagentsById :: "agui_thread \<Rightarrow> (string, chat_message) jsmap" where
  "collectCurrentSubagentsById t =
     fold (\<lambda>m subs. case subagent_call m of Some i \<Rightarrow> map_put i m subs | None \<Rightarrow> subs) (th_messages t) []"

text \<open>\<open>snapshotSubagentIds\<close> and \<open>snapshotActivityIds\<close>\<close>

definition collectSnapshotSubagentIds ::
  "agui_thread \<Rightarrow> chat_message list \<Rightarrow> (string, unit) jsmap \<times> string list" where
  "collectSnapshotSubagentIds t messages =
     (let ids = List.map_filter subagent_call messages
      in (fold (\<lambda>i m. map_put i () m) ids (th_subagentToolCallIds t), add_missing [] ids))"

definition isFailedSubagentStatus :: "string \<Rightarrow> bool" where
  "isFailedSubagentStatus status \<longleftrightarrow>
     to_lower (trim status) \<in> set [''failed'', ''error'', ''aborted'', ''cancelled'', ''canceled'']"

definition snapshotToolFailed :: "chat_message list \<Rightarrow> string \<Rightarrow> bool" where
  "snapshotToolFailed messages toolCallId =
     list_ex (\<lambda>m. cm_role m = Tool \<and> cm_toolCallId m = Some toolCallId \<and> non_empty (cm_error m) \<noteq> None) messages"

definition terminalizeSubagentCard :: "chat_message \<Rightarrow> string \<Rightarrow> chat_message" where
  "terminalizeSubagentCard m status =
     (if cm_role m \<noteq> Activity \<or> cm_activityType m \<noteq> Some SUBAGENT_ACTIVITY_TYPE then m
      else
        let meta = record_of (content_field m ''subAgent'');
            effectiveStatus =
              (case nonEmptyString (field meta ''agentStatus'') of
                 Some s \<Rightarrow> if isFailedSubagentStatus s then s else status
               | None \<Rightarrow> status);
            latest = List.find (\<lambda>l. starts_with (trim_start l) ''Latest:'')
                       (split_on CHR 0x0A (readActivityText (cm_content m)));
            txt = join_lines
              [(if isFailedSubagentStatus effectiveStatus then BULLET @ '' Sub-agent failed''
                else BULLET @ '' Sub-agent completed''),
               ''  Status: '' @ effectiveStatus,
               (case latest of Some l \<Rightarrow> l | None \<Rightarrow> [])];
            content = (case cm_content m of JObj o' \<Rightarrow> o' | _ \<Rightarrow> []);
            meta' = map_put ''agentStatus'' (JStr effectiveStatus) (case meta of Some o' \<Rightarrow> o' | None \<Rightarrow> [])
        in m\<lparr>cm_content := JObj (map_put ''subAgent'' (JObj meta') (map_put ''text'' (JStr txt) content))\<rparr>)"

definition suppressedToolCallIds :: "chat_message \<Rightarrow> (string, unit) jsmap \<Rightarrow> string list" where
  "suppressedToolCallIds m suppressed =
     (if cm_role m = Tool
      then (case cm_toolCallId m of Some i \<Rightarrow> if map_has suppressed i then [i] else [] | None \<Rightarrow> [])
      else if cm_role m = Assistant
      then filter (\<lambda>i. map_has suppressed i) (map tc_id (tool_calls m))
      else [])"

record snapshot_context =
  sx_currentSubagents :: "(string, chat_message) jsmap"
  sx_activityIds :: "string list"
  sx_subagentIds :: "(string, unit) jsmap"
  sx_terminalMessageIds :: "string list"
  sx_messages :: "chat_message list"
  sx_previous :: "(string, chat_message) jsmap"
  sx_timestamp :: "rat option"

record snapshot_build =
  sb_messages :: "chat_message list"
  sb_toolMeta :: "(string, tool_meta) jsmap"
  sb_restored :: "string list"

definition restoreSuppressedSubagentCards ::
  "snapshot_context \<Rightarrow> string list \<Rightarrow> snapshot_build \<Rightarrow> snapshot_build" where
  "restoreSuppressedSubagentCards ctx suppressedIds b =
     fold (\<lambda>toolCallId b.
             case map_get (sx_currentSubagents ctx) toolCallId of
               None \<Rightarrow> b
             | Some known \<Rightarrow>
                 if toolCallId \<in> set (sx_activityIds ctx) \<or> toolCallId \<in> set (sb_restored b) then b
                 else b\<lparr>sb_messages := sb_messages b @
                          [if cm_id known \<in> set (sx_terminalMessageIds ctx)
                           then terminalizeSubagentCard known
                                  (if snapshotToolFailed (sx_messages ctx) toolCallId then ''failed'' else ''completed'')
                           else known],
                        sb_restored := sb_restored b @ [toolCallId]\<rparr>)
       suppressedIds b"

definition applySnapshotToolMeta ::
  "chat_message \<Rightarrow> (string, unit) jsmap \<Rightarrow> (string, tool_meta) jsmap \<Rightarrow> (string, tool_meta) jsmap" where
  "applySnapshotToolMeta m suppressed metas =
     (case parseToolMeta (Some (cm_content m)) None of
        None \<Rightarrow> metas
      | Some meta \<Rightarrow>
          if map_has suppressed (tm_toolCallId meta) then metas
          else map_put (tm_toolCallId meta) (mergeToolMeta (map_get metas (tm_toolCallId meta)) meta) metas)"

definition snapshot_step :: "js_lib \<Rightarrow> snapshot_context \<Rightarrow> chat_message \<Rightarrow> snapshot_build \<Rightarrow> snapshot_build" where
  "snapshot_step lib ctx m b =
     (if cm_role m = Activity \<and> cm_activityType m = Some TOOL_META_ACTIVITY_TYPE
      then b\<lparr>sb_toolMeta := applySnapshotToolMeta m (sx_subagentIds ctx) (sb_toolMeta b)\<rparr>
      else if suppressedToolCallIds m (sx_subagentIds ctx) \<noteq> []
      then restoreSuppressedSubagentCards ctx (suppressedToolCallIds m (sx_subagentIds ctx)) b
      else
        let existing = map_get (sx_previous ctx) (cm_id m);
            nextMessage = m\<lparr>
              cm_createdAt := (case existing of Some e \<Rightarrow> cm_createdAt e | None \<Rightarrow> timestampIso lib (sx_timestamp ctx)),
              cm_parts := (if partsMatchMessageContent lib (Option.bind existing cm_parts) (cm_content m)
                           then Option.bind existing cm_parts else None)\<rparr>
        in b\<lparr>sb_messages := sb_messages b @ [preserveKnownSubAgentThreadLink existing nextMessage]\<rparr>)"

definition buildSnapshotMessages :: "js_lib \<Rightarrow> snapshot_context \<Rightarrow> (string, tool_meta) jsmap \<Rightarrow> snapshot_build" where
  "buildSnapshotMessages lib ctx metas =
     fold (snapshot_step lib ctx) (sx_messages ctx)
       \<lparr>sb_messages = [], sb_toolMeta = metas, sb_restored = []\<rparr>"

definition snapshotToolCallMessageIds :: "chat_message list \<Rightarrow> (string, string) jsmap" where
  "snapshotToolCallMessageIds ms =
     fold (\<lambda>(c, i). map_put c i)
       (concat (map (\<lambda>m. if cm_role m = Assistant then map (\<lambda>c. (tc_id c, cm_id m)) (tool_calls m) else []) ms)) []"

definition snapshotToolResultMessageIds :: "chat_message list \<Rightarrow> (string, string) jsmap" where
  "snapshotToolResultMessageIds ms =
     fold (\<lambda>(c, i). map_put c i)
       (List.map_filter (\<lambda>m. if cm_role m = Tool then map_option (\<lambda>c. (c, cm_id m)) (cm_toolCallId m) else None) ms) []"

definition rebaseToolBookkeeping ::
  "(string, string) jsmap \<Rightarrow> (string, string) jsmap \<Rightarrow> string set \<Rightarrow> (string, string) jsmap" where
  "rebaseToolBookkeeping previous fromSnapshot survivingMessageIds =
     spread (filter (\<lambda>(_, messageId). messageId \<in> survivingMessageIds) previous) fromSnapshot"

definition snapshot_context_of :: "agui_thread \<Rightarrow> chat_message list \<Rightarrow> rat option \<Rightarrow> snapshot_context" where
  "snapshot_context_of t messages timestamp =
     (let ids = collectSnapshotSubagentIds t messages
      in \<lparr>sx_currentSubagents = collectCurrentSubagentsById t, sx_activityIds = snd ids,
          sx_subagentIds = fst ids, sx_terminalMessageIds = th_terminalMessageIds t,
          sx_messages = messages,
          sx_previous = fold (\<lambda>m. map_put (cm_id m) m) (th_messages t) [], sx_timestamp = timestamp\<rparr>)"

definition applyMessagesSnapshot ::
  "js_lib \<Rightarrow> agui_thread \<Rightarrow> string \<Rightarrow> chat_message list \<Rightarrow> rat option \<Rightarrow> agui_thread" where
  "applyMessagesSnapshot lib t runId messages timestamp =
     (let ctx = snapshot_context_of t messages timestamp;
          b = buildSnapshotMessages lib ctx (th_toolMeta t);
          nextMessages = sb_messages b;
          kept = fold (\<lambda>(_, meta) ms. attachToolMeta ms meta) (sb_toolMeta b)
                   (slice_last MAX_MESSAGES_PER_THREAD nextMessages);
          keptIds = set (map cm_id kept)
      in t\<lparr>th_messages := kept,
           th_messageIndexById := indexMessages kept,
           th_authoritativeSnapshot := True,
           th_runByMessageId := fold (\<lambda>m. map_put (cm_id m) runId) nextMessages [],
           th_terminalMessageIds := map cm_id nextMessages,
           th_subagentToolCallIds := sx_subagentIds ctx,
           th_toolMeta := sb_toolMeta b,
           th_toolCallMessageId :=
             rebaseToolBookkeeping (th_toolCallMessageId t) (snapshotToolCallMessageIds kept) keptIds,
           th_toolResultMessageId :=
             rebaseToolBookkeeping (th_toolResultMessageId t) (snapshotToolResultMessageIds kept) keptIds\<rparr>)"

definition applyActivityDelta ::
  "js_lib \<Rightarrow> agui_thread \<Rightarrow> string \<Rightarrow> string \<Rightarrow> string \<Rightarrow> json list \<Rightarrow> rat option \<Rightarrow> agui_thread" where
  "applyActivityDelta lib t runId messageId activityType patch timestamp =
     (let existing = findMessage t messageId;
          content = (case existing of Some e \<Rightarrow> if cm_role e = Activity then cm_content e else JObj [] | None \<Rightarrow> JObj [])
      in upsertMessage lib t
           ((blank_message messageId Activity (applyJsonPatch content patch)
               (case existing of Some e \<Rightarrow> cm_createdAt e | None \<Rightarrow> timestampIso lib timestamp))
            \<lparr>cm_activityType := Some activityType\<rparr>) runId timestamp)"


section \<open>Custom events\<close>

definition storeCustomMetadata :: "agui_thread \<Rightarrow> string \<Rightarrow> json option \<Rightarrow> agui_thread" where
  "storeCustomMetadata t name v =
     (let order = slice_last MAX_CUSTOM_METADATA_ENTRIES
            (filter (\<lambda>e. e \<noteq> name) (th_customMetadataOrder t) @ [name])
      in t\<lparr>th_customMetadata :=
             map (\<lambda>e. (e, if e = name then v
                          else (case map_get (th_customMetadata t) e of Some x \<Rightarrow> x | None \<Rightarrow> None))) order,
           th_customMetadataOrder := order\<rparr>)"

definition CHUNK_SUFFIX :: string where "CHUNK_SUFFIX = ''-chunk''"

definition num_field :: "(string, json) jsmap option \<Rightarrow> string \<Rightarrow> rat option" where
  "num_field m k = (case field m k of Some (JNum n) \<Rightarrow> Some n | _ \<Rightarrow> None)"

text \<open>key, count, index and data\<close>

definition readCustomChunk ::
  "string \<Rightarrow> (string, json) jsmap option \<Rightarrow> (string \<times> rat \<times> rat \<times> string) option" where
  "readCustomChunk customName v =
     (let index = (case num_field v ''index'' of Some n \<Rightarrow> n | None \<Rightarrow> -1);
          count = (case num_field v ''count'' of Some n \<Rightarrow> n | None \<Rightarrow> 0)
      in case (nonEmptyString (field v ''canonicalId''), nonEmptyString (field v ''revision''),
               non_empty (Option.bind v (\<lambda>m. str_field m ''data''))) of
           (Some _, Some revision, Some data) \<Rightarrow>
             if index < 0 \<or> count \<le> index then None
             else Some (customName @ [CHR 0x00] @ revision, count, index, data)
         | _ \<Rightarrow> None)"

text \<open>
  What a chunk leads to: a state, or the whole event that its assembly was the last piece of
  (with the state and the key of the assembly).
\<close>

datatype chunk_outcome = ChunkHeld agui_thread | ChunkWhole agui_thread string agui_envelope

definition assembled_text :: "rat \<Rightarrow> (rat, string) jsmap \<Rightarrow> string" where
  "assembled_text count chunks =
     concat (map (\<lambda>i. case map_get chunks (of_nat i) of Some d \<Rightarrow> d | None \<Rightarrow> []) [0..<nat \<lfloor>count\<rfloor>])"

definition reduceCompletedCustomChunks ::
  "js_lib \<Rightarrow> agui_thread \<Rightarrow> agui_envelope \<Rightarrow> string \<Rightarrow> string \<Rightarrow> rat \<Rightarrow> (rat, string) jsmap \<Rightarrow> chunk_outcome" where
  "reduceCompletedCustomChunks lib pending env customName key count chunks =
     (case js_parse lib (assembled_text count chunks) of
        None \<Rightarrow> ChunkHeld pending
      | Some v \<Rightarrow>
          ChunkWhole pending key
            (env\<lparr>env_event := CUSTOM (take (length customName - length CHUNK_SUFFIX) customName) (Some v),
                 env_timestamp := None\<rparr>))"

definition reduceCustomChunk ::
  "js_lib \<Rightarrow> agui_thread \<Rightarrow> agui_envelope \<Rightarrow> string \<Rightarrow> (string, json) jsmap option \<Rightarrow> chunk_outcome" where
  "reduceCustomChunk lib t env customName v =
     (case readCustomChunk customName v of
        None \<Rightarrow> ChunkHeld t
      | Some (key, count, index, data) \<Rightarrow>
          let chunks = (case map_get (th_chunkAssemblies t) key of
                          Some a \<Rightarrow> if ca_count a = count then map_put index data (ca_chunks a) else [(index, data)]
                        | None \<Rightarrow> [(index, data)]);
              pending = t\<lparr>th_chunkAssemblies :=
                map_put key \<lparr>ca_count = count, ca_chunks = chunks\<rparr> (th_chunkAssemblies t)\<rparr>
          in if of_nat (length chunks) \<noteq> count then ChunkHeld pending
             else reduceCompletedCustomChunks lib pending env customName key count chunks)"

definition custom_name :: "agui_envelope \<Rightarrow> string" where
  "custom_name env = (case env_event env of CUSTOM name _ \<Rightarrow> name | _ \<Rightarrow> [])"

function reduceCustomEvent :: "js_lib \<Rightarrow> agui_thread \<Rightarrow> agui_envelope \<Rightarrow> agui_thread" where
  "reduceCustomEvent lib t env =
     (case env_event env of
        CUSTOM name v \<Rightarrow>
          (let value = record_of v in
           if ends_with name CHUNK_SUFFIX
           then (case reduceCustomChunk lib t env name value of
                   ChunkHeld t' \<Rightarrow> t'
                 | ChunkWhole pending key env' \<Rightarrow>
                     let completed = reduceCustomEvent lib pending env'
                     in completed\<lparr>th_chunkAssemblies := map_del key (th_chunkAssemblies completed)\<rparr>)
           else if name = ''dappercode.dev/message-content'' then reduceStructuredMessageContent lib t env value
           else if name = ''dappercode.dev/tool-text'' then reduceToolText lib t env value
           else if name = ''dappercode.dev/tool-content'' then reduceToolContent lib t env value
           else if name = ''dappercode.dev/subagent'' then reduceSubagentActivity lib t env value
           else if name = TOOL_META_EVENT_NAME then reduceToolMeta lib t (env_runId env) value (env_timestamp env)
           else storeCustomMetadata t name v)
      | _ \<Rightarrow> t)"
  by pat_completeness auto

lemma ends_with_length: "ends_with s p \<Longrightarrow> length p \<le> length s"
  by (metis ends_with_def starts_with_prefix prefix_length_le length_rev)

lemma ChunkWhole_env:
  assumes "reduceCustomChunk lib t env name v = ChunkWhole p key env'"
  shows "custom_name env' = take (length name - length CHUNK_SUFFIX) name"
  using assms
  by (auto simp: reduceCustomChunk_def reduceCompletedCustomChunks_def custom_name_def Let_def
      split: option.splits if_splits prod.splits)

termination reduceCustomEvent
proof (relation "measure (\<lambda>(lib, t, env). length (custom_name env))", goal_cases)
  case (2 lib t env name v w p key env')
  then have "length CHUNK_SUFFIX \<le> length name" by (simp add: ends_with_length)
  with 2 show ?case by (simp add: ChunkWhole_env CHUNK_SUFFIX_def) (simp add: custom_name_def)
qed simp

declare reduceCustomEvent.simps [simp del]


section \<open>Events\<close>

definition reduceTextMessageStartEvent :: "js_lib \<Rightarrow> agui_thread \<Rightarrow> agui_envelope \<Rightarrow> agui_thread" where
  "reduceTextMessageStartEvent lib t env =
     (case env_event env of
        TEXT_MESSAGE_START messageId role name replaces \<Rightarrow>
          let started = (if findMessage t messageId \<noteq> None then t
                         else upsertMessage lib t (textMessage lib messageId role [] name)
                                (env_runId env) (env_timestamp env))
          in rememberReplacement started messageId (nonEmptyString replaces)
      | _ \<Rightarrow> t)"

definition reduceTextMessageContentEvent :: "js_lib \<Rightarrow> agui_thread \<Rightarrow> agui_envelope \<Rightarrow> agui_thread" where
  "reduceTextMessageContentEvent lib t env =
     (case env_event env of
        TEXT_MESSAGE_CONTENT messageId delta \<Rightarrow>
          appendText lib t messageId delta (env_runId env) (env_timestamp env) Assistant
      | _ \<Rightarrow> t)"

definition reduceTextMessageEndEvent :: "js_lib \<Rightarrow> agui_thread \<Rightarrow> agui_envelope \<Rightarrow> agui_thread" where
  "reduceTextMessageEndEvent lib t env =
     (case env_event env of
        TEXT_MESSAGE_END messageId \<Rightarrow> markTerminal t messageId (Some (timestampIso lib (env_timestamp env)))
      | _ \<Rightarrow> t)"

definition reduceTextMessageChunkEvent :: "js_lib \<Rightarrow> agui_thread \<Rightarrow> agui_envelope \<Rightarrow> agui_thread" where
  "reduceTextMessageChunkEvent lib t env =
     (case env_event env of
        TEXT_MESSAGE_CHUNK mid role delta name \<Rightarrow>
          let messageId = (case mid of Some i \<Rightarrow> i | None \<Rightarrow> env_runId env @ '':text'');
              r = (case role of Some r \<Rightarrow> r | None \<Rightarrow> Assistant);
              nxt = (if findMessage t messageId = None
                     then upsertMessage lib t (textMessage lib messageId r [] name) (env_runId env) (env_timestamp env)
                     else t)
          in case non_empty delta of
               Some d \<Rightarrow> appendText lib nxt messageId d (env_runId env) (env_timestamp env) r
             | None \<Rightarrow> nxt
      | _ \<Rightarrow> t)"

definition start_reasoning :: "js_lib \<Rightarrow> agui_thread \<Rightarrow> agui_envelope \<Rightarrow> string \<Rightarrow> agui_thread" where
  "start_reasoning lib t env messageId =
     (if findMessage t messageId \<noteq> None then t
      else upsertMessage lib t
             ((blank_message messageId Reasoning (JStr []) (timestampIso lib (env_timestamp env)))
                \<lparr>cm_pending := Some True\<rparr>) (env_runId env) (env_timestamp env))"

definition reduceReasoningStartEvent :: "js_lib \<Rightarrow> agui_thread \<Rightarrow> agui_envelope \<Rightarrow> agui_thread" where
  "reduceReasoningStartEvent lib t env =
     (case env_event env of
        REASONING_START messageId \<Rightarrow> start_reasoning lib t env messageId
      | REASONING_MESSAGE_START messageId \<Rightarrow> start_reasoning lib t env messageId
      | _ \<Rightarrow> t)"

definition reduceReasoningContentEvent :: "js_lib \<Rightarrow> agui_thread \<Rightarrow> agui_envelope \<Rightarrow> agui_thread" where
  "reduceReasoningContentEvent lib t env =
     (case env_event env of
        REASONING_MESSAGE_CONTENT messageId delta \<Rightarrow>
          appendText lib t messageId delta (env_runId env) (env_timestamp env) Reasoning
      | _ \<Rightarrow> t)"

definition reduceReasoningChunkEvent :: "js_lib \<Rightarrow> agui_thread \<Rightarrow> agui_envelope \<Rightarrow> agui_thread" where
  "reduceReasoningChunkEvent lib t env =
     (case env_event env of
        REASONING_MESSAGE_CHUNK mid delta \<Rightarrow>
          let messageId = (case mid of Some i \<Rightarrow> i | None \<Rightarrow> env_runId env @ '':reasoning'');
              nxt = start_reasoning lib t env messageId
          in case non_empty delta of
               Some d \<Rightarrow> appendText lib nxt messageId d (env_runId env) (env_timestamp env) Reasoning
             | None \<Rightarrow> nxt
      | _ \<Rightarrow> t)"

definition reduceReasoningEndEvent :: "js_lib \<Rightarrow> agui_thread \<Rightarrow> agui_envelope \<Rightarrow> agui_thread" where
  "reduceReasoningEndEvent lib t env =
     (case env_event env of
        REASONING_MESSAGE_END messageId \<Rightarrow> markTerminal t messageId None
      | REASONING_END messageId \<Rightarrow> markTerminal t messageId None
      | _ \<Rightarrow> t)"

definition reduceReasoningEncryptedValueEvent :: "js_lib \<Rightarrow> agui_thread \<Rightarrow> agui_envelope \<Rightarrow> agui_thread" where
  "reduceReasoningEncryptedValueEvent lib t env =
     (case env_event env of
        REASONING_ENCRYPTED_VALUE entityId encryptedValue subtype \<Rightarrow>
          updateEncryptedValue lib t entityId encryptedValue subtype
      | _ \<Rightarrow> t)"

definition reduceToolCallStartEvent :: "js_lib \<Rightarrow> agui_thread \<Rightarrow> agui_envelope \<Rightarrow> agui_thread" where
  "reduceToolCallStartEvent lib t env =
     (case env_event env of
        TOOL_CALL_START toolCallId toolCallName parentMessageId \<Rightarrow>
          if suppressed_call t toolCallId then t
          else startToolCall lib t (env_runId env) toolCallId toolCallName parentMessageId (env_timestamp env)
      | _ \<Rightarrow> t)"

definition reduceToolCallArgsEvent :: "js_lib \<Rightarrow> agui_thread \<Rightarrow> agui_envelope \<Rightarrow> agui_thread" where
  "reduceToolCallArgsEvent lib t env =
     (case env_event env of
        TOOL_CALL_ARGS toolCallId delta \<Rightarrow>
          if suppressed_call t toolCallId then t
          else appendToolArgs lib t (env_runId env) toolCallId delta (env_timestamp env)
      | _ \<Rightarrow> t)"

definition reduceToolCallEndEvent :: "js_lib \<Rightarrow> agui_thread \<Rightarrow> agui_envelope \<Rightarrow> agui_thread" where
  "reduceToolCallEndEvent lib t env =
     (case env_event env of
        TOOL_CALL_END toolCallId \<Rightarrow>
          if suppressed_call t toolCallId then t
          else (case non_empty (map_get (th_toolCallMessageId t) toolCallId) of
                  Some messageId \<Rightarrow> markTerminal t messageId None
                | None \<Rightarrow> t)
      | _ \<Rightarrow> t)"

definition reduceToolCallChunkEvent :: "js_lib \<Rightarrow> agui_thread \<Rightarrow> agui_envelope \<Rightarrow> agui_thread" where
  "reduceToolCallChunkEvent lib t env =
     (case env_event env of
        TOOL_CALL_CHUNK cid toolCallName parentMessageId delta \<Rightarrow>
          (case non_empty cid of
             None \<Rightarrow> t
           | Some toolCallId \<Rightarrow>
               if suppressed_call t toolCallId then t
               else
                 let nxt = (case non_empty (map_get (th_toolCallMessageId t) toolCallId) of
                              Some _ \<Rightarrow> t
                            | None \<Rightarrow> startToolCall lib t (env_runId env) toolCallId
                                (case toolCallName of Some n \<Rightarrow> n | None \<Rightarrow> ''tool'') parentMessageId (env_timestamp env))
                 in case non_empty delta of
                      Some d \<Rightarrow> appendToolArgs lib nxt (env_runId env) toolCallId d (env_timestamp env)
                    | None \<Rightarrow> nxt)
      | _ \<Rightarrow> t)"

definition reduceToolCallResultEvent :: "js_lib \<Rightarrow> agui_thread \<Rightarrow> agui_envelope \<Rightarrow> agui_thread" where
  "reduceToolCallResultEvent lib t env =
     (case env_event env of
        TOOL_CALL_RESULT messageId toolCallId content \<Rightarrow>
          if suppressed_call t toolCallId then t
          else appendToolResult lib t (env_runId env) messageId toolCallId content (env_timestamp env)
      | _ \<Rightarrow> t)"

definition reduceMessagesSnapshotEvent :: "js_lib \<Rightarrow> agui_thread \<Rightarrow> agui_envelope \<Rightarrow> agui_thread" where
  "reduceMessagesSnapshotEvent lib t env =
     (case env_event env of
        MESSAGES_SNAPSHOT messages \<Rightarrow> applyMessagesSnapshot lib t (env_runId env) messages (env_timestamp env)
      | _ \<Rightarrow> t)"

definition reduceActivitySnapshotEvent :: "js_lib \<Rightarrow> agui_thread \<Rightarrow> agui_envelope \<Rightarrow> agui_thread" where
  "reduceActivitySnapshotEvent lib t env =
     (case env_event env of
        ACTIVITY_SNAPSHOT messageId activityType content \<Rightarrow>
          reduceActivitySnapshot lib t (env_runId env) messageId activityType content (env_timestamp env)
      | _ \<Rightarrow> t)"

definition reduceActivityDeltaEvent :: "js_lib \<Rightarrow> agui_thread \<Rightarrow> agui_envelope \<Rightarrow> agui_thread" where
  "reduceActivityDeltaEvent lib t env =
     (case env_event env of
        ACTIVITY_DELTA messageId activityType patch \<Rightarrow>
          applyActivityDelta lib t (env_runId env) messageId activityType patch (env_timestamp env)
      | _ \<Rightarrow> t)"

definition reduceStateSnapshotEvent :: "agui_thread \<Rightarrow> agui_envelope \<Rightarrow> agui_thread" where
  "reduceStateSnapshotEvent t env =
     (case env_event env of STATE_SNAPSHOT snapshot \<Rightarrow> t\<lparr>th_state := snapshot\<rparr> | _ \<Rightarrow> t)"

definition reduceStateDeltaEvent :: "agui_thread \<Rightarrow> agui_envelope \<Rightarrow> agui_thread" where
  "reduceStateDeltaEvent t env =
     (case env_event env of
        STATE_DELTA delta \<Rightarrow> t\<lparr>th_state := applyJsonPatch (th_state t) delta\<rparr>
      | _ \<Rightarrow> t)"

definition reduceStepStartedEvent :: "agui_thread \<Rightarrow> agui_envelope \<Rightarrow> agui_thread" where
  "reduceStepStartedEvent t env =
     (case env_event env of
        STEP_STARTED name \<Rightarrow> t\<lparr>th_steps := map_put name StepRunning (th_steps t)\<rparr>
      | _ \<Rightarrow> t)"

definition reduceStepFinishedEvent :: "agui_thread \<Rightarrow> agui_envelope \<Rightarrow> agui_thread" where
  "reduceStepFinishedEvent t env =
     (case env_event env of
        STEP_FINISHED name \<Rightarrow> t\<lparr>th_steps := map_put name StepFinished (th_steps t)\<rparr>
      | _ \<Rightarrow> t)"

definition reduceRawEvent :: "agui_thread \<Rightarrow> agui_envelope \<Rightarrow> agui_thread" where
  "reduceRawEvent t env =
     (case env_event env of
        RAW source event \<Rightarrow>
          t\<lparr>th_rawEvents := slice_last MAX_RAW_EVENTS_PER_THREAD (th_rawEvents t @ [(source, event)])\<rparr>
      | _ \<Rightarrow> t)"

text \<open>The table \<open>THREAD_EVENT_HANDLERS\<close> and its lookup.\<close>

definition reduceThreadState :: "js_lib \<Rightarrow> agui_thread \<Rightarrow> agui_envelope \<Rightarrow> agui_thread" where
  "reduceThreadState lib t env =
     (case env_event env of
        RUN_STARTED _ _ \<Rightarrow> createAgUiThreadMessageState
      | TEXT_MESSAGE_START _ _ _ _ \<Rightarrow> reduceTextMessageStartEvent lib t env
      | TEXT_MESSAGE_CONTENT _ _ \<Rightarrow> reduceTextMessageContentEvent lib t env
      | TEXT_MESSAGE_END _ \<Rightarrow> reduceTextMessageEndEvent lib t env
      | TEXT_MESSAGE_CHUNK _ _ _ _ \<Rightarrow> reduceTextMessageChunkEvent lib t env
      | REASONING_START _ \<Rightarrow> reduceReasoningStartEvent lib t env
      | REASONING_MESSAGE_START _ \<Rightarrow> reduceReasoningStartEvent lib t env
      | REASONING_MESSAGE_CONTENT _ _ \<Rightarrow> reduceReasoningContentEvent lib t env
      | REASONING_MESSAGE_CHUNK _ _ \<Rightarrow> reduceReasoningChunkEvent lib t env
      | REASONING_MESSAGE_END _ \<Rightarrow> reduceReasoningEndEvent lib t env
      | REASONING_END _ \<Rightarrow> reduceReasoningEndEvent lib t env
      | REASONING_ENCRYPTED_VALUE _ _ _ \<Rightarrow> reduceReasoningEncryptedValueEvent lib t env
      | TOOL_CALL_START _ _ _ \<Rightarrow> reduceToolCallStartEvent lib t env
      | TOOL_CALL_ARGS _ _ \<Rightarrow> reduceToolCallArgsEvent lib t env
      | TOOL_CALL_END _ \<Rightarrow> reduceToolCallEndEvent lib t env
      | TOOL_CALL_CHUNK _ _ _ _ \<Rightarrow> reduceToolCallChunkEvent lib t env
      | TOOL_CALL_RESULT _ _ _ \<Rightarrow> reduceToolCallResultEvent lib t env
      | MESSAGES_SNAPSHOT _ \<Rightarrow> reduceMessagesSnapshotEvent lib t env
      | ACTIVITY_SNAPSHOT _ _ _ \<Rightarrow> reduceActivitySnapshotEvent lib t env
      | ACTIVITY_DELTA _ _ _ \<Rightarrow> reduceActivityDeltaEvent lib t env
      | STATE_SNAPSHOT _ \<Rightarrow> reduceStateSnapshotEvent t env
      | STATE_DELTA _ \<Rightarrow> reduceStateDeltaEvent t env
      | STEP_STARTED _ \<Rightarrow> reduceStepStartedEvent t env
      | STEP_FINISHED _ \<Rightarrow> reduceStepFinishedEvent t env
      | RAW _ _ \<Rightarrow> reduceRawEvent t env
      | CUSTOM _ _ \<Rightarrow> reduceCustomEvent lib t env
      | RUN_FINISHED _ _ \<Rightarrow> markRunTerminal t (env_runId env) (Some (timestampIso lib (env_timestamp env)))
      | RUN_ERROR _ \<Rightarrow> markRunTerminal t (env_runId env) (Some (timestampIso lib (env_timestamp env)))
      | UNSUPPORTED_EVENT _ \<Rightarrow> t)"

text \<open>
  \<open>next === current\<close> compares references. The handlers that return a new object with the values
  of the old one even for a thread without state are those of \<open>RUN_STARTED\<close> and \<open>STATE_SNAPSHOT\<close>.
\<close>

definition always_copies :: "agui_event \<Rightarrow> bool" where
  "always_copies e = (case e of RUN_STARTED _ _ \<Rightarrow> True | STATE_SNAPSHOT _ \<Rightarrow> True | _ \<Rightarrow> False)"

definition thread_state :: "agui_state \<Rightarrow> string \<Rightarrow> agui_thread" where
  "thread_state s i = (case map_get s i of Some t \<Rightarrow> t | None \<Rightarrow> createAgUiThreadMessageState)"

definition reduceAgUiMessageState :: "js_lib \<Rightarrow> agui_state \<Rightarrow> agui_envelope \<Rightarrow> agui_state" where
  "reduceAgUiMessageState lib previous env =
     (let current = thread_state previous (env_threadId env);
          nxt = reduceThreadState lib current env
      in if nxt = current \<and> \<not> always_copies (env_event env) then previous
         else map_put (env_threadId env) nxt previous)"

end
