(* ===== verification/AgUiInvariants.thy ===== *)
theory AgUiInvariants
  imports AgUiReducer
begin

text \<open>
  Invariants of the message store. Every reducer changes a thread through a few primitives: it
  upserts a message, removes messages, rewrites messages in place, or touches bookkeeping. The
  locale \<open>thread_invariant\<close> states what these primitives have to keep of a predicate and derives
  that every event keeps it; it is interpreted for the bounds of a thread and for the distinctness
  of the message ids.
\<close>

abbreviation ids :: "chat_message list \<Rightarrow> string list" where
  "ids ms \<equiv> map cm_id ms"


section \<open>Finding messages\<close>

lemma find_id_Some: "find_id n i ms = Some k \<Longrightarrow> n \<le> k \<and> k < n + length ms \<and> cm_id (ms ! (k - n)) = i"
proof (induction ms arbitrary: n)
  case (Cons m ms)
  show ?case
  proof (cases "cm_id m = i")
    case True
    with Cons.prems show ?thesis by simp
  next
    case False
    with Cons.prems have "find_id (Suc n) i ms = Some k" by simp
    from Cons.IH [OF this] show ?thesis by (auto simp: nth_Cons')
  qed
qed simp

lemma find_id_None: "find_id n i ms = None \<longleftrightarrow> i \<notin> set (ids ms)"
  by (induction ms arbitrary: n) auto

lemma findMessageIndex_Some:
  "findMessageIndex t i = Some n \<Longrightarrow> n < length (th_messages t) \<and> cm_id (th_messages t ! n) = i"
  by (auto simp: findMessageIndex_def dest!: find_id_Some split: option.splits if_splits)

lemma findMessageIndex_None: "findMessageIndex t i = None \<longleftrightarrow> i \<notin> set (ids (th_messages t))"
  by (auto simp: findMessageIndex_def find_id_None dest: nth_mem split: option.splits if_splits)

lemma findMessage_None: "findMessage t i = None \<longleftrightarrow> i \<notin> set (ids (th_messages t))"
  by (simp add: findMessage_def findMessageIndex_None)

lemma findMessage_Some: "findMessage t i = Some m \<Longrightarrow> m \<in> set (th_messages t) \<and> cm_id m = i"
  by (auto simp: findMessage_def dest: findMessageIndex_Some)


section \<open>Message ids after an update\<close>

definition upserted :: "js_lib \<Rightarrow> agui_thread \<Rightarrow> chat_message \<Rightarrow> rat option \<Rightarrow> chat_message list" where
  "upserted lib t m ts =
     (case findMessageIndex t (cm_id m) of
        Some n \<Rightarrow> (th_messages t)[n := m\<lparr>cm_createdAt := cm_createdAt (th_messages t ! n)\<rparr>]
      | None \<Rightarrow> th_messages t @ [m\<lparr>cm_createdAt := timestampIso lib ts\<rparr>])"

lemma messages_upsert:
  "th_messages (upsertMessage lib t m r ts) = slice_last MAX_MESSAGES_PER_THREAD (upserted lib t m ts)"
  by (simp add: upsertMessage_def upserted_def Let_def split: option.split)

lemma slice_last_map: "map f (slice_last n xs) = slice_last n (map f xs)"
  by (simp add: slice_last_def drop_map)

lemma ids_upserted:
  "ids (upserted lib t m ts) =
     (if cm_id m \<in> set (ids (th_messages t)) then ids (th_messages t) else ids (th_messages t) @ [cm_id m])"
proof (cases "findMessageIndex t (cm_id m)")
  case None
  moreover from None have "cm_id m \<notin> set (ids (th_messages t))" by (metis findMessageIndex_None)
  ultimately show ?thesis by (simp add: upserted_def)
next
  case (Some n)
  then have "(ids (th_messages t))[n := cm_id m] = ids (th_messages t)" "cm_id m \<in> set (ids (th_messages t))"
    using findMessageIndex_Some [OF Some] by (metis list_update_id nth_map, metis length_map nth_map nth_mem)
  then show ?thesis using Some by (simp add: upserted_def map_update)
qed

lemma ids_upsert:
  "ids (th_messages (upsertMessage lib t m r ts)) =
     slice_last MAX_MESSAGES_PER_THREAD
       (if cm_id m \<in> set (ids (th_messages t)) then ids (th_messages t) else ids (th_messages t) @ [cm_id m])"
  by (simp add: messages_upsert slice_last_map ids_upserted)

lemma cm_id_stamp [simp]: "cm_id (stamp_meta meta m) = cm_id m"
  by (simp add: stamp_meta_def Let_def split: option.split)

lemma ids_attach [simp]: "ids (attachToolMeta ms meta) = ids ms"
  by (simp add: attachToolMeta_def)

lemma cm_id_settle [simp]: "cm_id (settle_reasoning A m) = cm_id m"
  by (simp add: settle_reasoning_def)

lemma cm_id_complete [simp]: "cm_id (complete_message A c m) = cm_id m"
  by (simp add: complete_message_def)

lemma ids_settle [simp]: "ids (settleReasoningMessages ms A) = ids ms"
  by (simp add: settleReasoningMessages_def)

lemma ids_complete [simp]: "ids (setMessageCompletionTime ms A c) = ids ms"
  by (simp add: setMessageCompletionTime_def split: option.split)

lemma ids_attach_all [simp]:
  "ids (fold (\<lambda>(k, meta) ms. attachToolMeta ms meta) metas ms) = ids ms"
  by (induction metas arbitrary: ms) auto

lemma cm_id_blank [simp]: "cm_id (blank_message i r c d) = i"
  by (simp add: blank_message_def)

lemma cm_id_textMessage [simp]: "cm_id (textMessage lib i r c n) = i"
  by (simp add: textMessage_def Let_def split: chat_role.split)

lemma cm_id_createActivity [simp]: "cm_id (createActivityMessage i ty c d) = i"
  by (simp add: createActivityMessage_def)

lemma cm_id_withText [simp]: "cm_id (withText m c) = cm_id m"
  by (simp add: withText_def)

lemma cm_id_preserve [simp]: "cm_id (preserveKnownSubAgentThreadLink e m) = cm_id m"
  by (simp add: preserveKnownSubAgentThreadLink_def Let_def)

lemma cm_id_terminalize [simp]: "cm_id (terminalizeSubagentCard m s) = cm_id m"
  by (simp add: terminalizeSubagentCard_def Let_def)


section \<open>Invariants of a thread\<close>

text \<open>
  \<open>t'\<close> has some of the messages of \<open>t\<close>, in their order, the same events and metadata, and every
  suppressed tool call of \<open>t\<close>.
\<close>

definition shrinks :: "agui_thread \<Rightarrow> agui_thread \<Rightarrow> bool" where
  "shrinks t' t \<longleftrightarrow>
     subseq (ids (th_messages t')) (ids (th_messages t)) \<and> th_rawEvents t' = th_rawEvents t \<and>
     th_customMetadata t' = th_customMetadata t \<and> th_customMetadataOrder t' = th_customMetadataOrder t \<and>
     {c. suppressed_call t c} \<subseteq> {c. suppressed_call t' c}"

lemma shrinks_same:
  "ids (th_messages t') = ids (th_messages t) \<Longrightarrow> th_rawEvents t' = th_rawEvents t \<Longrightarrow>
   th_customMetadata t' = th_customMetadata t \<Longrightarrow> th_customMetadataOrder t' = th_customMetadataOrder t \<Longrightarrow>
   th_subagentToolCallIds t' = th_subagentToolCallIds t \<Longrightarrow> shrinks t' t"
  by (simp add: shrinks_def suppressed_call_def)

lemma shrinks_filter: "shrinks (with_messages (filter P (th_messages t)) t) t"
  by (auto simp: shrinks_def with_messages_def suppressed_call_def intro: subseq_map)

lemma shrinks_suppress:
  "shrinks ((with_messages (filter P (th_messages t)) t)\<lparr>th_subagentToolCallIds := map_put c () (th_subagentToolCallIds t)\<rparr>) t"
  by (auto simp: shrinks_def with_messages_def suppressed_call_def update_conv' intro: subseq_map)

locale thread_invariant =
  fixes I :: "agui_thread \<Rightarrow> bool"
    and start :: bool
    and ok :: "agui_thread \<Rightarrow> chat_message list \<Rightarrow> bool"
  assumes create: "start \<Longrightarrow> I createAgUiThreadMessageState"
    and shrink: "I t \<Longrightarrow> shrinks t' t \<Longrightarrow> I t'"
    and upsert: "I t \<Longrightarrow> I (upsertMessage lib t m r ts)"
    and raw: "I t \<Longrightarrow> I (reduceRawEvent t env)"
    and metadata: "I t \<Longrightarrow> I (storeCustomMetadata t name v)"
    and snapshot: "I t \<Longrightarrow> ok t ms \<Longrightarrow> I (applyMessagesSnapshot lib t r ms ts)"
begin

lemma touch:
  "I t \<Longrightarrow> ids (th_messages t') = ids (th_messages t) \<Longrightarrow> th_rawEvents t' = th_rawEvents t \<Longrightarrow>
   th_customMetadata t' = th_customMetadata t \<Longrightarrow> th_customMetadataOrder t' = th_customMetadataOrder t \<Longrightarrow>
   th_subagentToolCallIds t' = th_subagentToolCallIds t \<Longrightarrow> I t'"
  by (rule shrink [OF _ shrinks_same])

lemma remove: "I t \<Longrightarrow> I (with_messages (filter P (th_messages t)) t)"
  by (rule shrink [OF _ shrinks_filter])

lemma append_text: "I t \<Longrightarrow> I (appendText lib t i d r ts role)"
  by (simp add: appendText_def Let_def upsert split: option.split)

lemma tool_result:
  assumes "I t"
  shows "I (upsertToolResult lib t r i c txt ts)"
  unfolding upsertToolResult_def Let_def
  by (rule touch [OF upsert [OF assms]]) (simp_all split: option.split)

lemma append_tool_result: "I t \<Longrightarrow> I (appendToolResult lib t r i c d ts)"
  by (simp add: appendToolResult_def Let_def tool_result remove split: option.split)

lemma suppress:
  "I t \<Longrightarrow> I ((with_messages (filter P (th_messages t)) t)
               \<lparr>th_subagentToolCallIds := map_put c () (th_subagentToolCallIds t)\<rparr>)"
  by (rule shrink [OF _ shrinks_suppress])

lemma activity_snapshot: "I t \<Longrightarrow> I (reduceActivitySnapshot lib t r i ty c ts)"
  by (simp add: reduceActivitySnapshot_def Let_def upsert suppress split: option.split)

lemma start_tool_call:
  assumes "I t"
  shows "I (startToolCall lib t r c n p ts)"
  unfolding startToolCall_def Let_def
  by (rule touch [OF upsert [OF assms]]) simp_all

lemma append_tool_args: "I t \<Longrightarrow> I (appendToolArgs lib t r c d ts)"
  by (simp add: appendToolArgs_def Let_def upsert start_tool_call split: option.split)

lemma tool_meta: "I t \<Longrightarrow> I (rememberToolMeta t meta)"
  by (simp add: rememberToolMeta_def Let_def) (auto elim: touch)

lemma reduce_tool_meta: "I t \<Longrightarrow> I (reduceToolMeta lib t r v ts)"
  by (simp add: reduceToolMeta_def Let_def tool_meta start_tool_call split: option.split)

lemma mark_terminal: "I t \<Longrightarrow> I (markTerminal t i c)"
  by (erule touch) (simp_all add: markTerminal_def)

lemma mark_run_terminal: "I t \<Longrightarrow> I (markRunTerminal t r c)"
  by (erule touch) (simp_all add: markRunTerminal_def Let_def)

lemma encrypted: "I t \<Longrightarrow> I (updateEncryptedValue lib t i v s)"
  by (simp add: updateEncryptedValue_def upsert split: encrypted_subtype.split option.split)

lemma tool_text: "I t \<Longrightarrow> I (reduceToolText lib t env v)"
  unfolding reduceToolText_def Let_def
  by (auto intro: touch [OF tool_result] split: option.split)

lemma tool_content: "I t \<Longrightarrow> I (reduceToolContent lib t env v)"
  unfolding reduceToolContent_def Let_def
  by (auto intro: touch [OF tool_result])

lemma subagent: "I t \<Longrightarrow> I (reduceSubagentActivity lib t env v)"
  by (simp add: reduceSubagentActivity_def Let_def upsert suppress withoutSubagentMessages_def split: list.split)

lemma hold: "I t \<Longrightarrow> I (t\<lparr>th_chunkAssemblies := c\<rparr>)"
  by (erule touch) simp_all

lemma chunk_held: "I t \<Longrightarrow> reduceCustomChunk lib t env n v = ChunkHeld t' \<Longrightarrow> I t'"
  by (auto simp: reduceCustomChunk_def reduceCompletedCustomChunks_def Let_def hold
      split: option.splits if_splits)

lemma chunk_whole: "I t \<Longrightarrow> reduceCustomChunk lib t env n v = ChunkWhole t' key env' \<Longrightarrow> I t'"
  by (auto simp: reduceCustomChunk_def reduceCompletedCustomChunks_def Let_def hold
      split: option.splits if_splits)

lemma custom: "I t \<Longrightarrow> I (reduceCustomEvent lib t env)"
proof (induction lib t env rule: reduceCustomEvent.induct)
  case (1 lib t env)
  show ?case
  proof (cases "env_event env")
    case (CUSTOM name v)
    show ?thesis
    proof (cases "ends_with name CHUNK_SUFFIX")
      case True
      show ?thesis
      proof (cases "reduceCustomChunk lib t env name (record_of v)")
        case (ChunkHeld t')
        with 1(2) CUSTOM True show ?thesis by (simp add: reduceCustomEvent.simps [of lib t env] chunk_held)
      next
        case (ChunkWhole p key env')
        have "I (reduceCustomEvent lib p env')"
          using 1(1) [OF CUSTOM refl True ChunkWhole] chunk_whole [OF 1(2) ChunkWhole] by blast
        then show ?thesis
          using CUSTOM True ChunkWhole
          by (simp add: reduceCustomEvent.simps [of lib t env] Let_def hold)
      qed
    next
      case False
      with 1(2) CUSTOM show ?thesis
        by (simp add: reduceCustomEvent.simps [of lib t env] Let_def tool_text tool_content subagent
            reduce_tool_meta metadata reduceStructuredMessageContent_def upsert)
    qed
  qed (use 1(2) in \<open>simp_all add: reduceCustomEvent.simps [of lib t env]\<close>)
qed

lemma event:
  assumes "I t" "\<And>ms. env_event env = MESSAGES_SNAPSHOT ms \<Longrightarrow> ok t ms"
    and "\<And>i r. env_event env = RUN_STARTED i r \<Longrightarrow> start"
  shows "I (reduceThreadState lib t env)"
proof -
  have started: "I (start_reasoning lib t env i)" for i
    using assms(1) by (simp add: start_reasoning_def upsert)
  have replaced: "I u \<Longrightarrow> I (rememberReplacement u i r)" for u i r
    by (erule touch) (simp_all add: rememberReplacement_def split: option.split)
  have bookkeeping: "I (t\<lparr>th_state := s\<rparr>)" "I (t\<lparr>th_steps := ss\<rparr>)" for s ss
    by (rule touch [OF assms(1)]; simp)+
  show ?thesis
    using assms
    by (cases "env_event env")
      (simp_all add: reduceThreadState_def create started replaced bookkeeping upsert append_text
        mark_terminal mark_run_terminal encrypted start_tool_call append_tool_args append_tool_result
        snapshot activity_snapshot custom raw Let_def applyActivityDelta_def
        reduceTextMessageStartEvent_def reduceTextMessageContentEvent_def reduceTextMessageEndEvent_def
        reduceTextMessageChunkEvent_def reduceReasoningStartEvent_def reduceReasoningContentEvent_def
        reduceReasoningChunkEvent_def reduceReasoningEndEvent_def reduceReasoningEncryptedValueEvent_def
        reduceToolCallStartEvent_def reduceToolCallArgsEvent_def reduceToolCallEndEvent_def
        reduceToolCallChunkEvent_def reduceToolCallResultEvent_def reduceMessagesSnapshotEvent_def
        reduceActivitySnapshotEvent_def reduceActivityDeltaEvent_def reduceStateSnapshotEvent_def
        reduceStateDeltaEvent_def reduceStepStartedEvent_def reduceStepFinishedEvent_def
        split: option.split)
qed

end


section \<open>The bounds of a thread\<close>

definition thread_bounded :: "agui_thread \<Rightarrow> bool" where
  "thread_bounded t \<longleftrightarrow>
     length (th_messages t) \<le> MAX_MESSAGES_PER_THREAD \<and>
     length (th_rawEvents t) \<le> MAX_RAW_EVENTS_PER_THREAD \<and>
     length (th_customMetadataOrder t) \<le> MAX_CUSTOM_METADATA_ENTRIES \<and>
     map fst (th_customMetadata t) = th_customMetadataOrder t \<and> distinct (th_customMetadataOrder t)"

lemma subseq_length_ids: "subseq (ids ms') (ids ms) \<Longrightarrow> length ms' \<le> length ms"
  using list_emb_length by fastforce

lemma length_attach_all: "length (fold (\<lambda>(k, meta) ms. attachToolMeta ms meta) metas ms) = length ms"
  by (metis ids_attach_all length_map)

lemma fields_upsert [frame_simps]:
  "th_rawEvents (upsertMessage lib t m r ts) = th_rawEvents t"
  "th_customMetadata (upsertMessage lib t m r ts) = th_customMetadata t"
  "th_customMetadataOrder (upsertMessage lib t m r ts) = th_customMetadataOrder t"
  "th_subagentToolCallIds (upsertMessage lib t m r ts) = th_subagentToolCallIds t"
  "th_toolMeta (upsertMessage lib t m r ts) = th_toolMeta t"
  "th_chunkAssemblies (upsertMessage lib t m r ts) = th_chunkAssemblies t"
  "th_structuredText (upsertMessage lib t m r ts) = th_structuredText t"
  "th_structuredRevision (upsertMessage lib t m r ts) = th_structuredRevision t"
  "th_toolTextRevision (upsertMessage lib t m r ts) = th_toolTextRevision t"
  by (simp_all add: upsertMessage_def Let_def)

lemma length_upsert: "length (th_messages (upsertMessage lib t m r ts)) \<le> MAX_MESSAGES_PER_THREAD"
  by (simp add: messages_upsert)

lemma distinct_slice_last: "distinct xs \<Longrightarrow> distinct (slice_last n xs)"
  by (simp add: slice_last_def)

interpretation bounded: thread_invariant thread_bounded True "\<lambda>_ _. True"
proof
  show "thread_bounded createAgUiThreadMessageState"
    by (simp add: thread_bounded_def createAgUiThreadMessageState_def)
  show "thread_bounded t'" if "thread_bounded t" "shrinks t' t" for t t'
    using that subseq_length_ids [of "th_messages t'" "th_messages t"]
    by (simp add: thread_bounded_def shrinks_def)
  show "thread_bounded (upsertMessage lib t m r ts)" if "thread_bounded t" for lib t m r ts
    using that by (simp add: thread_bounded_def length_upsert frame_simps)
  show "thread_bounded (reduceRawEvent t env)" if "thread_bounded t" for t env
    using that by (simp add: thread_bounded_def reduceRawEvent_def split: agui_event.split)
  show "thread_bounded (storeCustomMetadata t name v)" if "thread_bounded t" for t name v
    using that by (auto simp: thread_bounded_def storeCustomMetadata_def Let_def comp_def intro!: distinct_slice_last)
  show "thread_bounded (applyMessagesSnapshot lib t r ms ts)" if "thread_bounded t" for lib t r ms ts
    using that by (simp add: thread_bounded_def applyMessagesSnapshot_def Let_def length_attach_all)
qed

text \<open>Reducing a sequence of envelopes, each with the library it is reduced with.\<close>

definition agui_run :: "(js_lib \<times> agui_envelope) list \<Rightarrow> agui_state" where
  "agui_run es = foldl (\<lambda>s (lib, env). reduceAgUiMessageState lib s env) [] es"

definition all_threads :: "(agui_thread \<Rightarrow> bool) \<Rightarrow> agui_state \<Rightarrow> bool" where
  "all_threads P s \<longleftrightarrow> list_all (\<lambda>(i, t). P t) s"

lemma all_threads_state:
  "all_threads P s \<Longrightarrow> P createAgUiThreadMessageState \<Longrightarrow> P (thread_state s i)"
  by (auto simp: all_threads_def list_all_iff thread_state_def dest: map_of_SomeD split: option.split)

lemma all_threads_put: "all_threads P s \<Longrightarrow> P t \<Longrightarrow> all_threads P (map_put i t s)"
  using set_map_put [of i t s] by (auto simp: all_threads_def list_all_iff)

lemma all_threads_reduce:
  assumes "all_threads P s" "P createAgUiThreadMessageState" "\<And>t. P t \<Longrightarrow> P (reduceThreadState lib t env)"
  shows "all_threads P (reduceAgUiMessageState lib s env)"
  using assms by (simp add: reduceAgUiMessageState_def Let_def all_threads_put all_threads_state)

lemma agui_run_bounded: "all_threads thread_bounded (agui_run es)"
  unfolding agui_run_def
proof (induction es rule: rev_induct)
  case Nil
  then show ?case by (simp add: all_threads_def)
next
  case (snoc e es)
  then show ?case
    by (cases e) (auto intro!: all_threads_reduce bounded.event bounded.create)
qed

text \<open>
  C6. The message store is bounded. Whatever events arrive, in whatever order, no thread holds
  more than 128 messages, 128 raw events or 128 metadata entries, and the metadata map has
  exactly the entries of its eviction order, without repetition.
\<close>

theorem agui_store_bounded:
  "list_all (\<lambda>(i, t). length (th_messages t) \<le> 128 \<and> length (th_rawEvents t) \<le> 128 \<and>
       length (th_customMetadata t) \<le> 128 \<and> map fst (th_customMetadata t) = th_customMetadataOrder t \<and>
       distinct (th_customMetadataOrder t))
     (foldl (\<lambda>s (lib, env). reduceAgUiMessageState lib s env) [] es)"
  using agui_run_bounded [of es]
  by (auto simp: agui_run_def all_threads_def list_all_iff thread_bounded_def MAX_MESSAGES_PER_THREAD_def
      MAX_RAW_EVENTS_PER_THREAD_def MAX_CUSTOM_METADATA_ENTRIES_def dest!: bspec
      dest: arg_cong [where f = length])


section \<open>Message ids are unique\<close>

text \<open>
  A snapshot is clean for a thread when its messages have different ids and, if it lists the id of
  a sub-agent card of the thread, it also names the card's tool call.
\<close>

definition snapshot_clean :: "agui_thread \<Rightarrow> chat_message list \<Rightarrow> bool" where
  "snapshot_clean t ms \<longleftrightarrow>
     distinct (ids ms) \<and>
     list_all (\<lambda>m. case subagent_call m of
         None \<Rightarrow> True
       | Some c \<Rightarrow> cm_id m \<notin> set (ids ms) \<or> c \<in> set (List.map_filter subagent_call ms)) (th_messages t)"

lemma current_subagents:
  assumes "map_get (collectCurrentSubagentsById t) c = Some m"
  shows "m \<in> set (th_messages t) \<and> subagent_call m = Some c"
proof -
  have "map_get (fold (\<lambda>m subs. case subagent_call m of Some i \<Rightarrow> map_put i m subs | None \<Rightarrow> subs) ms []) c = Some m
      \<Longrightarrow> m \<in> set ms \<and> subagent_call m = Some c" for ms
    by (induction ms rule: rev_induct) (auto simp: update_conv' split: option.splits if_splits)
  with assms show ?thesis by (simp add: collectCurrentSubagentsById_def)
qed

lemma set_add_missing: "set (add_missing xs ys) = set xs \<union> set ys"
  by (induction ys arbitrary: xs) (auto simp: add_missing_def)

text \<open>What the build has so far: messages of the snapshot read so far and restored cards.\<close>

definition card_ids :: "agui_thread \<Rightarrow> chat_message list \<Rightarrow> string list \<Rightarrow> string set" where
  "card_ids t all cs =
     {cm_id m | m c. map_get (collectCurrentSubagentsById t) c = Some m \<and> c \<in> set cs \<and>
                     c \<notin> set (List.map_filter subagent_call all)}"

lemma card_ids_mono: "card_ids t all cs \<subseteq> card_ids t all (cs @ [c])"
  by (auto simp: card_ids_def)

lemma card_ids_new:
  "map_get (collectCurrentSubagentsById t) c = Some m \<Longrightarrow> c \<notin> set (List.map_filter subagent_call all) \<Longrightarrow>
   cm_id m \<in> card_ids t all (cs @ [c])"
  by (auto simp: card_ids_def)

definition build_inv :: "agui_thread \<Rightarrow> chat_message list \<Rightarrow> chat_message list \<Rightarrow> snapshot_build \<Rightarrow> bool" where
  "build_inv t all pre b \<longleftrightarrow>
     distinct (ids (sb_messages b)) \<and>
     set (ids (sb_messages b)) \<subseteq> set (ids pre) \<union> card_ids t all (sb_restored b)"

lemma build_restore:
  assumes clean: "snapshot_clean t all" "set pre \<subseteq> set all" and uniq: "distinct (ids (th_messages t))"
    and ctx: "sx_currentSubagents ctx = collectCurrentSubagentsById t"
      "set (sx_activityIds ctx) = set (List.map_filter subagent_call all)"
    and inv: "build_inv t all pre b"
  shows "build_inv t all pre (restoreSuppressedSubagentCards ctx cs b)"
  using inv
proof (induction cs arbitrary: b)
  case Nil
  then show ?case by (simp add: restoreSuppressedSubagentCards_def)
next
  case (Cons c cs)
  let ?b = "restoreSuppressedSubagentCards ctx [c] b"
  have "build_inv t all pre ?b"
  proof (cases "map_get (collectCurrentSubagentsById t) c")
    case None
    with Cons.prems show ?thesis by (simp add: restoreSuppressedSubagentCards_def ctx)
  next
    case (Some m)
    show ?thesis
    proof (cases "c \<in> set (sx_activityIds ctx) \<or> c \<in> set (sb_restored b)")
      case True
      with Cons.prems Some show ?thesis by (auto simp: restoreSuppressedSubagentCards_def ctx)
    next
      case False
      note m = current_subagents [OF Some]
      have outside: "cm_id m \<notin> set (ids all)"
        using clean(1) m False ctx(2) by (auto simp: snapshot_clean_def list_all_iff split: option.splits)
      have others: "cm_id m' \<noteq> cm_id m"
        if "map_get (collectCurrentSubagentsById t) c' = Some m'" "c' \<in> set (sb_restored b)" for m' c'
      proof
        assume "cm_id m' = cm_id m"
        with uniq m current_subagents [OF that(1)] have "m' = m" by (auto simp: distinct_map inj_on_def)
        with m current_subagents [OF that(1)] have "c' = c" by simp
        with that(2) False show False by simp
      qed
      have "i \<noteq> cm_id m" if i: "i \<in> set (ids (sb_messages b))" for i
      proof -
        from i Cons.prems have "i \<in> set (ids pre) \<or> (\<exists>m' c'. i = cm_id m' \<and>
            map_get (collectCurrentSubagentsById t) c' = Some m' \<and> c' \<in> set (sb_restored b))"
          unfolding build_inv_def card_ids_def by blast
        moreover have "set (ids pre) \<subseteq> set (ids all)" using clean(2) by auto
        ultimately show ?thesis using others outside by (metis subsetD)
      qed
      then have "cm_id m \<notin> set (ids (sb_messages b))" by blast
      moreover have "c \<notin> set (List.map_filter subagent_call all)" using False ctx(2) by simp
      ultimately show ?thesis
        using Cons.prems Some False ctx(1) card_ids_mono [of t all "sb_restored b" c]
          card_ids_new [OF Some, of all "sb_restored b"]
        by (auto simp: build_inv_def restoreSuppressedSubagentCards_def)
    qed
  qed
  from Cons.IH [OF this] show ?case by (simp add: restoreSuppressedSubagentCards_def)
qed

lemma build_step:
  assumes clean: "snapshot_clean t all" "all = pre @ m # rest" and uniq: "distinct (ids (th_messages t))"
    and ctx: "sx_currentSubagents ctx = collectCurrentSubagentsById t"
      "set (sx_activityIds ctx) = set (List.map_filter subagent_call all)"
    and inv: "build_inv t all pre b"
  shows "build_inv t all (pre @ [m]) (snapshot_step lib ctx m b)"
proof -
  have more: "build_inv t all (pre @ [m]) b'" if "build_inv t all pre b'" for b'
    using that by (auto simp: build_inv_def)
  have fresh: "cm_id m \<notin> set (ids (sb_messages b))"
  proof
    assume "cm_id m \<in> set (ids (sb_messages b))"
    moreover have "cm_id m \<notin> set (ids pre)" "m \<in> set all" using clean by (auto simp: snapshot_clean_def)
    ultimately obtain k c where k: "map_get (collectCurrentSubagentsById t) c = Some k" "cm_id k = cm_id m"
      "c \<notin> set (List.map_filter subagent_call all)" using inv by (auto simp: build_inv_def card_ids_def)
    with clean current_subagents [OF k(1)] \<open>m \<in> set all\<close> show False
      by (auto simp: snapshot_clean_def list_all_iff split: option.splits)
  qed
  have restored: "build_inv t all (pre @ [m]) (restoreSuppressedSubagentCards ctx cs b)" for cs
    using build_restore [OF clean(1) _ uniq ctx inv] clean(2) by (intro more) auto
  have plain: "build_inv t all (pre @ [m]) (b\<lparr>sb_messages := sb_messages b @ [m']\<rparr>)" if "cm_id m' = cm_id m" for m'
    using inv fresh that by (auto simp: build_inv_def)
  have meta: "build_inv t all (pre @ [m]) (b\<lparr>sb_toolMeta := x\<rparr>)" for x
    using more [OF inv] by (simp add: build_inv_def)
  show ?thesis using restored plain meta by (simp add: snapshot_step_def Let_def)
qed

lemma build_all:
  assumes "snapshot_clean t all" "distinct (ids (th_messages t))"
    and "sx_currentSubagents ctx = collectCurrentSubagentsById t" "sx_messages ctx = all"
      "set (sx_activityIds ctx) = set (List.map_filter subagent_call all)"
  shows "distinct (ids (sb_messages (buildSnapshotMessages lib ctx metas)))"
proof -
  have "build_inv t all pre (fold (snapshot_step lib ctx) pre \<lparr>sb_messages = [], sb_toolMeta = metas, sb_restored = []\<rparr>)"
    if "all = pre @ rest" for pre rest
    using that
  proof (induction pre arbitrary: rest rule: rev_induct)
    case Nil
    then show ?case by (simp add: build_inv_def)
  next
    case (snoc m pre)
    then have "build_inv t all pre (fold (snapshot_step lib ctx) pre \<lparr>sb_messages = [], sb_toolMeta = metas, sb_restored = []\<rparr>)"
      by simp
    with build_step [OF assms(1) _ assms(2,3,5), of pre m rest] snoc.prems show ?case by simp
  qed
  from this [of all "[]"] show ?thesis by (simp add: build_inv_def buildSnapshotMessages_def assms(4))
qed

definition unique_ids :: "agui_thread \<Rightarrow> bool" where
  "unique_ids t \<longleftrightarrow> distinct (ids (th_messages t))"

lemma ids_snapshot:
  "ids (th_messages (applyMessagesSnapshot lib t r ms ts)) =
     slice_last MAX_MESSAGES_PER_THREAD
       (ids (sb_messages (buildSnapshotMessages lib (snapshot_context_of t ms ts) (th_toolMeta t))))"
  by (simp add: applyMessagesSnapshot_def Let_def slice_last_map)

interpretation unique: thread_invariant unique_ids True snapshot_clean
proof
  show "unique_ids createAgUiThreadMessageState"
    by (simp add: unique_ids_def createAgUiThreadMessageState_def)
  show "unique_ids t'" if "unique_ids t" "shrinks t' t" for t t'
    using that by (auto simp: unique_ids_def shrinks_def subseq_conv_nths)
  show "unique_ids (upsertMessage lib t m r ts)" if "unique_ids t" for lib t m r ts
    using that by (auto simp: unique_ids_def ids_upsert intro!: distinct_slice_last)
  show "unique_ids (reduceRawEvent t env)" if "unique_ids t" for t env
    using that by (simp add: unique_ids_def reduceRawEvent_def split: agui_event.split)
  show "unique_ids (storeCustomMetadata t name v)" if "unique_ids t" for t name v
    using that by (simp add: unique_ids_def storeCustomMetadata_def Let_def)
  show "unique_ids (applyMessagesSnapshot lib t r ms ts)" if "unique_ids t" "snapshot_clean t ms" for lib t r ms ts
    unfolding unique_ids_def ids_snapshot
  proof (intro distinct_slice_last build_all [OF that(2)])
    show "distinct (ids (th_messages t))" using that(1) by (simp add: unique_ids_def)
  qed (simp_all add: snapshot_context_of_def collectSnapshotSubagentIds_def Let_def set_add_missing)
qed

text \<open>
  C5. Message ids stay unique. Let the ids of the messages of a thread be different from each other. Every event other
  than a message snapshot keeps them so, and a message snapshot does if its own ids are different and, where it
  has the id of a sub-agent card of the thread, it also has a card for the tool call of that card; a snapshot that breaks
  this condition can bring an id into the thread twice (\<open>snapshot_duplicates_kept\<close>). Whenever the ids are kept, the finder returns exactly the message
  with the id, whatever the state of the index.
\<close>

theorem message_ids_unique:
  assumes "distinct (map cm_id (th_messages t))"
    and "\<And>ms. env_event env = MESSAGES_SNAPSHOT ms \<Longrightarrow> snapshot_clean t ms"
  shows "distinct (map cm_id (th_messages (reduceThreadState lib t env))) \<and>
    (findMessage (reduceThreadState lib t env) i = Some m \<longleftrightarrow>
       m \<in> set (th_messages (reduceThreadState lib t env)) \<and> cm_id m = i)"
proof -
  let ?t = "reduceThreadState lib t env"
  have uniq: "distinct (ids (th_messages ?t))"
    using unique.event [of t env lib] assms by (simp add: unique_ids_def)
  moreover have "findMessage ?t i = Some m" if "m \<in> set (th_messages ?t)" "cm_id m = i"
  proof -
    have "i \<in> set (ids (th_messages ?t))" using that by auto
    then obtain m' where m': "findMessage ?t i = Some m'" using findMessage_None by fastforce
    with findMessage_Some [OF m'] that uniq show ?thesis by (auto simp: distinct_map inj_on_def)
  qed
  ultimately show ?thesis using findMessage_Some by blast
qed

definition demo_lib :: js_lib where
  "demo_lib = \<lparr>js_iso = (\<lambda>_. ''t''), js_now = ''now'', js_number = (\<lambda>_. ''1''), js_parse = (\<lambda>_. None)\<rparr>"

definition demo_env :: "agui_event \<Rightarrow> agui_envelope" where
  "demo_env e = \<lparr>env_threadId = ''th'', env_runId = ''r'', env_sourceTurnId = None, env_event = e, env_timestamp = None\<rparr>"

definition demo_user :: chat_message where
  "demo_user = blank_message ''u'' User (JStr ''hello'') ''t''"

text \<open>A snapshot that has an id twice is taken over as it is.\<close>

lemma snapshot_duplicates_kept:
  "map cm_id (th_messages (reduceThreadState demo_lib createAgUiThreadMessageState
     (demo_env (MESSAGES_SNAPSHOT [demo_user, demo_user])))) = [''u'', ''u'']"
  by code_simp

theorem message_ids_unique_witness:
  "map cm_id (th_messages (reduceThreadState demo_lib createAgUiThreadMessageState (demo_env (MESSAGES_SNAPSHOT [demo_user]))))
     = [''u''] \<and>
   findMessage (reduceThreadState demo_lib createAgUiThreadMessageState (demo_env (MESSAGES_SNAPSHOT [demo_user]))) ''u''
     = Some (demo_user\<lparr>cm_createdAt := ''now''\<rparr>)"
proof -
  let ?e = "demo_env (MESSAGES_SNAPSHOT [demo_user])"
  have ms: "th_messages (reduceThreadState demo_lib createAgUiThreadMessageState ?e) = [demo_user\<lparr>cm_createdAt := ''now''\<rparr>]"
    by code_simp
  have i: "cm_id (demo_user\<lparr>cm_createdAt := ''now''\<rparr>) = ''u''" by (simp add: demo_user_def)
  have "distinct (ids (th_messages createAgUiThreadMessageState))" "snapshot_clean createAgUiThreadMessageState [demo_user]"
    "env_event ?e = MESSAGES_SNAPSHOT [demo_user]"
    by (simp_all add: snapshot_clean_def createAgUiThreadMessageState_def demo_env_def)
  then have "findMessage (reduceThreadState demo_lib createAgUiThreadMessageState ?e) ''u'' = Some (demo_user\<lparr>cm_createdAt := ''now''\<rparr>)"
    using message_ids_unique [of createAgUiThreadMessageState ?e demo_lib "''u''" "demo_user\<lparr>cm_createdAt := ''now''\<rparr>"]
    unfolding ms by (simp add: i)
  then show ?thesis by (simp add: ms i)
qed

end
