(* ===== verification/AgUiStreams.thy ===== *)
theory AgUiStreams
  imports AgUiInvariants
begin

text \<open>
  What the reducers make of a stream of events: the text of streamed messages, and the messages of a run that has
  ended.
\<close>

section \<open>Messages after an update\<close>

lemma findMessage_iff:
  assumes "unique_ids t"
  shows "findMessage t i = Some m \<longleftrightarrow> m \<in> set (th_messages t) \<and> cm_id m = i"
proof
  assume m: "m \<in> set (th_messages t) \<and> cm_id m = i"
  then have "i \<in> set (ids (th_messages t))" by auto
  then obtain m' where m': "findMessage t i = Some m'" using findMessage_None by fastforce
  with findMessage_Some [OF m'] m assms show "findMessage t i = Some m"
    by (auto simp: unique_ids_def distinct_map inj_on_def)
qed (use findMessage_Some in blast)

definition stored :: "js_lib \<Rightarrow> agui_thread \<Rightarrow> chat_message \<Rightarrow> rat option \<Rightarrow> chat_message" where
  "stored lib t m ts =
     m\<lparr>cm_createdAt := (case findMessage t (cm_id m) of Some e \<Rightarrow> cm_createdAt e | None \<Rightarrow> timestampIso lib ts)\<rparr>"

definition roomy :: "agui_thread \<Rightarrow> string \<Rightarrow> bool" where
  "roomy t i \<longleftrightarrow> length (th_messages t) < MAX_MESSAGES_PER_THREAD \<or>
     length (th_messages t) \<le> MAX_MESSAGES_PER_THREAD \<and> findMessage t i \<noteq> None"

lemma set_upserted:
  assumes "unique_ids t"
  shows "set (upserted lib t m ts) = insert (stored lib t m ts) {x \<in> set (th_messages t). cm_id x \<noteq> cm_id m}"
proof (cases "findMessageIndex t (cm_id m)")
  case None
  then have "\<forall>x\<in>set (th_messages t). cm_id x \<noteq> cm_id m" by (metis findMessageIndex_None imageI set_map)
  with None show ?thesis by (auto simp: upserted_def stored_def findMessage_def)
next
  case (Some n)
  note n = findMessageIndex_Some [OF Some]
  have d: "distinct (th_messages t)" using assms by (auto simp: unique_ids_def distinct_map)
  have "x = th_messages t ! n \<longleftrightarrow> cm_id x = cm_id m" if "x \<in> set (th_messages t)" for x
    using that n assms by (metis findMessage_iff nth_mem option.inject)
  then have "set (th_messages t) - {th_messages t ! n} = {x \<in> set (th_messages t). cm_id x \<noteq> cm_id m}" by auto
  with Some n show ?thesis
    by (simp add: upserted_def stored_def findMessage_def set_update_distinct [OF d])
qed

lemma roomy_upserted: "roomy t (cm_id m) \<Longrightarrow> length (upserted lib t m ts) \<le> MAX_MESSAGES_PER_THREAD"
  by (auto simp: roomy_def upserted_def findMessage_def split: option.split)

lemma find_upsert:
  assumes "unique_ids t" "roomy t (cm_id m)"
  shows "findMessage (upsertMessage lib t m r ts) j =
    (if j = cm_id m then Some (stored lib t m ts) else findMessage t j)"
proof -
  let ?t = "upsertMessage lib t m r ts"
  have u: "unique_ids ?t" using assms(1) by (rule unique.upsert)
  have s: "set (th_messages ?t) = insert (stored lib t m ts) {x \<in> set (th_messages t). cm_id x \<noteq> cm_id m}"
    using set_upserted [OF assms(1)] roomy_upserted [OF assms(2)] by (simp add: messages_upsert)
  have i: "cm_id (stored lib t m ts) = cm_id m" by (simp add: stored_def)
  show ?thesis
  proof (cases "j = cm_id m")
    case True
    then show ?thesis using findMessage_iff [OF u] s i by auto
  next
    case False
    then have "findMessage ?t j = Some x \<longleftrightarrow> findMessage t j = Some x" for x
      using findMessage_iff [OF u] findMessage_iff [OF assms(1)] s i by auto
    with False show ?thesis by (metis (full_types) not_Some_eq)
  qed
qed

lemma length_upsert_room:
  "length (th_messages (upsertMessage lib t m r ts)) \<le> Suc (length (th_messages t))"
  by (auto simp: messages_upsert upserted_def split: option.split)


section \<open>Streamed text\<close>

lemma getMessageText_withText [simp]: "getMessageText (withText m c) = c"
  by (auto simp: withText_def getMessageText_def readActivityText_def readUserText_def str_field_def update_conv'
      split: chat_role.split)

lemma getMessageText_updates [simp]:
  "getMessageText (m\<lparr>cm_parts := p\<rparr>) = getMessageText m"
  "getMessageText (m\<lparr>cm_pending := q\<rparr>) = getMessageText m"
  "getMessageText (m\<lparr>cm_createdAt := d\<rparr>) = getMessageText m"
  by (simp_all add: getMessageText_def split: chat_role.split)

lemma getMessageText_new [simp]:
  "getMessageText (textMessage lib i Assistant c n) = c"
  "getMessageText (blank_message i Reasoning (JStr c) d) = c"
  by (simp_all add: getMessageText_def textMessage_def blank_message_def)

lemma cm_parts_new [simp]:
  "cm_parts (withText m c) = cm_parts m"
  "cm_parts (blank_message i r j d) = None"
  by (simp_all add: withText_def blank_message_def)

lemma is_text_part_text [simp]: "is_text_part (text_part t)"
  by (simp add: is_text_part_def text_part_def record_of_def str_field_def)

definition text_only :: "chat_message \<Rightarrow> bool" where
  "text_only m \<longleftrightarrow> (case cm_parts m of Some ps \<Rightarrow> list_all is_text_part ps | None \<Rightarrow> True)"

abbreviation message_text :: "agui_thread \<Rightarrow> string \<Rightarrow> string" where
  "message_text t i \<equiv> text_or_empty (findMessage t i)"

definition delta_of :: "agui_event \<Rightarrow> (string \<times> string) option" where
  "delta_of e = (case e of
     TEXT_MESSAGE_CONTENT i d \<Rightarrow> Some (i, d) | REASONING_MESSAGE_CONTENT i d \<Rightarrow> Some (i, d) | _ \<Rightarrow> None)"

text \<open>The message that \<open>appendText\<close> hands to \<open>upsertMessage\<close>.\<close>

lemma appendText_upsert:
  assumes "role = Assistant \<or> role = Reasoning" "\<And>e. findMessage t i = Some e \<Longrightarrow> text_only e"
  obtains m where "appendText lib t i d r ts role = upsertMessage lib t m r ts"
    "cm_id m = i" "text_only m" "getMessageText m = message_text t i @ d"
proof (cases "findMessage t i")
  case None
  show thesis
  proof (cases "role = Reasoning")
    case True
    with None show thesis
      by (intro that [of "(blank_message i Reasoning (JStr d) (timestampIso lib ts))\<lparr>cm_pending := Some True\<rparr>"])
        (simp_all add: appendText_def Let_def text_or_empty_def text_only_def)
  next
    case False
    with None assms(1) show thesis
      by (intro that [of "(textMessage lib i Assistant d None)\<lparr>cm_parts := Some [text_part d]\<rparr>"])
        (simp_all add: appendText_def Let_def text_or_empty_def text_only_def)
  qed
next
  case (Some e)
  then have e: "cm_id e = i" "text_only e" using findMessage_Some assms(2) by blast+
  define m where "m = (if role \<noteq> Reasoning \<and> cm_role e \<noteq> Reasoning
     then (let m = (withText e (getMessageText e @ d))\<lparr>cm_parts := Some [text_part (getMessageText e @ d)]\<rparr>
           in if cm_role e = Assistant then m\<lparr>cm_pending := Some True\<rparr> else m)
     else if cm_role e = Reasoning then (withText e (getMessageText e @ d))\<lparr>cm_pending := Some True\<rparr>
     else withText e (getMessageText e @ d))"
  have "list_all is_text_part (case cm_parts e of Some ps \<Rightarrow> ps | None \<Rightarrow> [])"
    using e(2) by (simp add: text_only_def split: option.splits)
  then have "appendText lib t i d r ts role = upsertMessage lib t m r ts"
    using Some by (simp add: appendText_def Let_def text_or_empty_def m_def split: option.split)
  moreover have "cm_id m = i" "text_only m" "getMessageText m = message_text t i @ d"
    using e Some by (simp_all add: m_def Let_def text_only_def text_or_empty_def split: option.splits)
  ultimately show thesis by (rule that)
qed

definition stream_inv :: "agui_thread \<Rightarrow> bool" where
  "stream_inv t \<longleftrightarrow> unique_ids t \<and> (\<forall>i e. findMessage t i = Some e \<longrightarrow> text_only e)"

lemma delta_step:
  assumes "stream_inv t" "length (th_messages t) < MAX_MESSAGES_PER_THREAD" "delta_of (env_event env) = Some (i, d)"
  shows "stream_inv (reduceThreadState lib t env) \<and>
    length (th_messages (reduceThreadState lib t env)) \<le> Suc (length (th_messages t)) \<and>
    message_text (reduceThreadState lib t env) j = message_text t j @ (if j = i then d else [])"
proof -
  obtain role where role: "role = Assistant \<or> role = Reasoning"
    "reduceThreadState lib t env = appendText lib t i d (env_runId env) (env_timestamp env) role"
    using assms(3)
    by (auto simp: delta_of_def reduceThreadState_def reduceTextMessageContentEvent_def
        reduceReasoningContentEvent_def split: agui_event.splits)
  obtain m where m: "appendText lib t i d (env_runId env) (env_timestamp env) role =
      upsertMessage lib t m (env_runId env) (env_timestamp env)"
    "cm_id m = i" "text_only m" "getMessageText m = message_text t i @ d"
    using appendText_upsert [OF role(1)] assms(1) unfolding stream_inv_def by metis
  have u: "unique_ids t" "roomy t (cm_id m)" using assms by (auto simp: stream_inv_def roomy_def)
  note f = find_upsert [OF u, of lib "env_runId env" "env_timestamp env"]
  have "stream_inv (upsertMessage lib t m (env_runId env) (env_timestamp env))"
    unfolding stream_inv_def f using assms(1) m(3) unique.upsert [OF u(1)]
    by (auto simp: stream_inv_def stored_def text_only_def split: if_splits)
  moreover have "message_text (upsertMessage lib t m (env_runId env) (env_timestamp env)) j =
      message_text t j @ (if j = i then d else [])"
    using m(2,4) unfolding f by (simp add: text_or_empty_def stored_def)
  ultimately show ?thesis unfolding role(2) m(1) using length_upsert_room by blast
qed

text \<open>
  C7. Streamed text arrives whole. Let any number of content events for text and reasoning messages, for
  different messages in any interleaving, arrive in a thread with room for them: the text of every
  message is then the text it had before followed by its own deltas in their order.
\<close>

theorem streamed_text:
  assumes "distinct (map cm_id (th_messages t))" "list_all text_only (th_messages t)"
    and "list_all (\<lambda>(lib, env). delta_of (env_event env) \<noteq> None) es"
    and "length (th_messages t) + length es \<le> 128"
  shows "text_or_empty (findMessage (foldl (\<lambda>t (lib, env). reduceThreadState lib t env) t es) j) =
    text_or_empty (findMessage t j) @
    concat (map (\<lambda>(lib, env). case delta_of (env_event env) of
        Some (i, d) \<Rightarrow> if i = j then d else [] | None \<Rightarrow> []) es)"
proof -
  have "stream_inv t" using assms(1,2) findMessage_Some by (fastforce simp: stream_inv_def unique_ids_def list_all_iff)
  then show ?thesis
    using assms(3,4)
  proof (induction es arbitrary: t)
    case (Cons e es)
    obtain lib env where e: "e = (lib, env)" by fastforce
    with Cons.prems obtain i d where d: "delta_of (env_event env) = Some (i, d)" by auto
    have step: "stream_inv (reduceThreadState lib t env)"
      "length (th_messages (reduceThreadState lib t env)) \<le> Suc (length (th_messages t))"
      "message_text (reduceThreadState lib t env) j = message_text t j @ (if j = i then d else [])"
      using delta_step [OF Cons.prems(1) _ d] Cons.prems(3) by (auto simp: MAX_MESSAGES_PER_THREAD_def)
    with Cons.IH [OF step(1)] Cons.prems e d show ?case by simp
  qed simp
qed

theorem streamed_text_witness:
  "text_or_empty (findMessage (foldl (\<lambda>t (lib, env). reduceThreadState lib t env) createAgUiThreadMessageState
     [(demo_lib, demo_env (TEXT_MESSAGE_CONTENT ''a'' ''he'')), (demo_lib, demo_env (REASONING_MESSAGE_CONTENT ''b'' ''x'')),
      (demo_lib, demo_env (TEXT_MESSAGE_CONTENT ''a'' ''llo''))]) ''a'') = ''hello''"
  by (subst streamed_text)
    (simp_all add: createAgUiThreadMessageState_def delta_of_def demo_env_def findMessage_def findMessageIndex_def
      text_or_empty_def)


section \<open>Settled runs\<close>

text \<open>
  The message a finished run leaves behind: an assistant message has a completion time (the one it had, or the
  time of the event) and is not pending, a pending reasoning message is not pending any more, and everything else
  about a message, its text and its tool rows among it, is as it was.
\<close>

definition message_at_end :: "string \<Rightarrow> chat_message \<Rightarrow> chat_message" where
  "message_at_end c m =
     (case cm_role m of
        Assistant \<Rightarrow> m\<lparr>cm_completedAt := Some (case cm_completedAt m of Some c' \<Rightarrow> c' | None \<Rightarrow> c), cm_pending := Some False\<rparr>
      | Reasoning \<Rightarrow> (if cm_pending m = Some True then m\<lparr>cm_pending := Some False\<rparr> else m)
      | _ \<Rightarrow> m)"

lemma complete_settled:
  "complete_message A c (settle_reasoning A m) = (if cm_id m \<in> A then message_at_end c m else m)"
  by (cases "cm_role m")
    (auto simp: complete_message_def settle_reasoning_def message_at_end_def split: option.split)

lemma markRunTerminal_eq:
  assumes "c \<noteq> []" and A: "A = {i. (i, r) \<in> set (th_runByMessageId t)}"
  shows "th_messages (markRunTerminal t r (Some c)) =
      map (\<lambda>m. if cm_id m \<in> A then message_at_end c m else m) (th_messages t)"
    and "set (th_terminalMessageIds (markRunTerminal t r (Some c))) = set (th_terminalMessageIds t) \<union> A"
    and "(markRunTerminal t r (Some c))\<lparr>th_messages := th_messages t, th_terminalMessageIds := th_terminalMessageIds t\<rparr> = t"
proof -
  define run_ids where "run_ids = map fst (filter (\<lambda>(_, r'). r' = r) (th_runByMessageId t))"
  have mem: "set run_ids = A"
    by (force simp: run_ids_def A)
  then show "th_messages (markRunTerminal t r (Some c)) =
      map (\<lambda>m. if cm_id m \<in> A then message_at_end c m else m) (th_messages t)"
    using assms(1)
    by (auto simp: markRunTerminal_def Let_def setMessageCompletionTime_def settleReasoningMessages_def
        non_empty_def run_ids_def [symmetric] complete_settled intro!: map_idI [symmetric])
  show "set (th_terminalMessageIds (markRunTerminal t r (Some c))) = set (th_terminalMessageIds t) \<union> A"
    using mem by (auto simp: markRunTerminal_def Let_def set_add_missing run_ids_def [symmetric])
  show "(markRunTerminal t r (Some c))\<lparr>th_messages := th_messages t, th_terminalMessageIds := th_terminalMessageIds t\<rparr> = t"
    by (simp add: markRunTerminal_def Let_def)
qed

text \<open>
  C8. A finished run leaves nothing pending, and touches nothing else. When a run ends, with success or with an
  error, at a time that has a name: every assistant message of the run gets a completion time, unless it has one,
  and is not pending any more; no reasoning message of the run is pending; no other field of these messages
  changes, no message of another run and no message of another role changes, and the messages keep their order.
  Exactly the messages of the run join the ones that count as terminal, and nothing else of the thread changes.
\<close>

theorem finished_run_settles:
  assumes "env_event env = RUN_FINISHED i r \<or> env_event env = RUN_ERROR why"
    and "timestampIso lib (env_timestamp env) \<noteq> []"
  shows "th_messages (reduceThreadState lib t env) =
      map (\<lambda>m. if (cm_id m, env_runId env) \<notin> set (th_runByMessageId t) then m
        else case cm_role m of
          Assistant \<Rightarrow> m\<lparr>cm_completedAt := Some (case cm_completedAt m of Some c \<Rightarrow> c
                                                 | None \<Rightarrow> timestampIso lib (env_timestamp env)),
                         cm_pending := Some False\<rparr>
        | Reasoning \<Rightarrow> if cm_pending m = Some True then m\<lparr>cm_pending := Some False\<rparr> else m
        | _ \<Rightarrow> m) (th_messages t) \<and>
    set (th_terminalMessageIds (reduceThreadState lib t env)) =
      set (th_terminalMessageIds t) \<union> {i. (i, env_runId env) \<in> set (th_runByMessageId t)} \<and>
    (reduceThreadState lib t env)\<lparr>th_messages := th_messages t, th_terminalMessageIds := th_terminalMessageIds t\<rparr> = t"
proof -
  have red: "reduceThreadState lib t env = markRunTerminal t (env_runId env) (Some (timestampIso lib (env_timestamp env)))"
    using assms(1) by (auto simp: reduceThreadState_def)
  show ?thesis
    unfolding red using markRunTerminal_eq [OF assms(2) refl, of t "env_runId env"]
    by (auto simp: message_at_end_def)
qed

theorem finished_run_settles_witness:
  "map (\<lambda>m. (cm_pending m, cm_completedAt m, getMessageText m)) (th_messages (reduceThreadState demo_lib
     (reduceThreadState demo_lib createAgUiThreadMessageState (demo_env (TEXT_MESSAGE_CONTENT ''a'' ''hi'')))
     (demo_env (RUN_FINISHED ''th'' ''r'')))) = [(Some False, Some ''now'', ''hi'')]"
proof -
  let ?t = "reduceThreadState demo_lib createAgUiThreadMessageState (demo_env (TEXT_MESSAGE_CONTENT ''a'' ''hi''))"
  let ?e = "demo_env (RUN_FINISHED ''th'' ''r'')"
  have t: "map (\<lambda>m. (cm_id m, cm_role m, cm_completedAt m, getMessageText m)) (th_messages ?t) =
      [(''a'', Assistant, None, ''hi'')]" "(''a'', ''r'') \<in> set (th_runByMessageId ?t)" by code_simp+
  then obtain m where m: "th_messages ?t = [m]" "cm_id m = ''a''" "cm_role m = Assistant" "cm_completedAt m = None"
    "getMessageText m = ''hi''" by auto
  have now: "timestampIso demo_lib (env_timestamp ?e) = ''now''" by code_simp
  then have "timestampIso demo_lib (env_timestamp ?e) \<noteq> []" by simp
  from conjunct1 [OF finished_run_settles [OF _ this, of "''th''" "''r''" _ ?t]] t(2) m now show ?thesis
    by (simp add: demo_env_def getMessageText_def)
qed

end
