(* ===== verification/AgUiTools.thy ===== *)
theory AgUiTools
  imports AgUiStreams
begin

text \<open>
  Tool calls in the message store: calls that a sub-agent card speaks for, the bookkeeping after a
  snapshot, tool metadata and the revisions of a tool's output.
\<close>

section \<open>Suppressed tool calls\<close>

interpretation hidden: thread_invariant "\<lambda>t. suppressed_call t c" False "\<lambda>_ _. True" for c
proof
  show "suppressed_call t' c" if "suppressed_call t c" "shrinks t' t" for t t'
    using that by (auto simp: shrinks_def)
  show "suppressed_call (upsertMessage lib t m r ts) c" if "suppressed_call t c" for lib t m r ts
    using that by (simp add: suppressed_call_def frame_simps)
  show "suppressed_call (reduceRawEvent t env) c" if "suppressed_call t c" for t env
    using that by (simp add: suppressed_call_def reduceRawEvent_def split: agui_event.split)
  show "suppressed_call (storeCustomMetadata t name v) c" if "suppressed_call t c" for t name v
    using that by (simp add: suppressed_call_def storeCustomMetadata_def Let_def)
  have keep: "map_has m c \<Longrightarrow> map_has (fold (\<lambda>i m. map_put i () m) is m) c" for "is" and m :: "(string, unit) jsmap"
    by (induction "is" arbitrary: m) (auto simp: update_conv')
  show "suppressed_call (applyMessagesSnapshot lib t r ms ts) c" if "suppressed_call t c" for lib t r ms ts
    using that keep
    by (simp add: suppressed_call_def applyMessagesSnapshot_def snapshot_context_of_def
        collectSnapshotSubagentIds_def Let_def del: not_None_eq)
qed simp

text \<open>The tool call that an event speaks for.\<close>

definition event_call :: "agui_event \<Rightarrow> string option" where
  "event_call e =
     (case e of
        TOOL_CALL_START c _ _ \<Rightarrow> Some c
      | TOOL_CALL_ARGS c _ \<Rightarrow> Some c
      | TOOL_CALL_END c \<Rightarrow> Some c
      | TOOL_CALL_CHUNK c _ _ _ \<Rightarrow> c
      | TOOL_CALL_RESULT _ c _ \<Rightarrow> Some c
      | CUSTOM name v \<Rightarrow>
          if name = ''dappercode.dev/tool-text'' \<or> name = ''dappercode.dev/tool-content''
          then nonEmptyString (field (record_of v) ''toolCallId'') else None
      | _ \<Rightarrow> None)"

lemma no_chunk_suffix:
  "\<not> ends_with ''dappercode.dev/tool-text'' CHUNK_SUFFIX" "\<not> ends_with ''dappercode.dev/tool-content'' CHUNK_SUFFIX"
  "\<not> ends_with ''dappercode.dev/tool-meta'' CHUNK_SUFFIX" "\<not> ends_with ''dappercode.dev/subagent'' CHUNK_SUFFIX"
  "\<not> ends_with ''dappercode.dev/message-content'' CHUNK_SUFFIX"
  by code_simp+

lemma custom_dispatch:
  "env_event env = CUSTOM ''dappercode.dev/tool-text'' v \<Longrightarrow> reduceCustomEvent lib t env = reduceToolText lib t env (record_of v)"
  "env_event env = CUSTOM ''dappercode.dev/tool-content'' v \<Longrightarrow> reduceCustomEvent lib t env = reduceToolContent lib t env (record_of v)"
  "env_event env = CUSTOM ''dappercode.dev/tool-meta'' v \<Longrightarrow>
     reduceCustomEvent lib t env = reduceToolMeta lib t (env_runId env) (record_of v) (env_timestamp env)"
  using no_chunk_suffix by (simp_all add: reduceCustomEvent.simps TOOL_META_EVENT_NAME_def Let_def)

lemmas tool_event_defs = reduceThreadState_def reduceToolCallStartEvent_def reduceToolCallArgsEvent_def
  reduceToolCallEndEvent_def reduceToolCallChunkEvent_def reduceToolCallResultEvent_def

text \<open>
  C9. The stream of a tool call that a sub-agent card has taken over is ignored. While the call is marked as suppressed, its
  start, argument, end, chunk, result, tool-text and tool-content events leave the whole thread as it is, and
  the mark stays through every event until a new run starts. The tool-meta events of the call are not
  among them: such an event can still give it a row (\<open>tool_meta_reveals_hidden_call\<close>).
\<close>

theorem suppressed_call_hidden:
  assumes "suppressed_call t c"
  shows "(event_call (env_event env) = Some c \<longrightarrow> reduceThreadState lib t env = t) \<and>
    ((\<exists>i r. env_event env = RUN_STARTED i r) \<or> suppressed_call (reduceThreadState lib t env) c)"
proof (intro conjI impI)
  assume "event_call (env_event env) = Some c"
  then show "reduceThreadState lib t env = t"
    using assms
    by (cases "env_event env")
      (auto simp: event_call_def tool_event_defs custom_dispatch reduceToolText_def reduceToolContent_def
        non_empty_def Let_def split: if_splits)
next
  show "(\<exists>i r. env_event env = RUN_STARTED i r) \<or> suppressed_call (reduceThreadState lib t env) c"
  proof (cases "\<exists>i r. env_event env = RUN_STARTED i r")
    case False
    then have "suppressed_call (reduceThreadState lib t env) c" by (intro hidden.event assms) auto
    then show ?thesis by simp
  qed simp
qed

definition demo_card :: agui_envelope where
  "demo_card = demo_env (CUSTOM ''dappercode.dev/subagent'' (Some (JObj
     [(''toolCallId'', JStr ''c''), (''receiverThreadIds'', JArr [JStr ''sub''])])))"

theorem suppressed_call_hidden_witness:
  "reduceThreadState demo_lib (reduceThreadState demo_lib createAgUiThreadMessageState demo_card)
     (demo_env (TOOL_CALL_START ''c'' ''task'' None)) =
   reduceThreadState demo_lib createAgUiThreadMessageState demo_card"
proof -
  have "suppressed_call (reduceThreadState demo_lib createAgUiThreadMessageState demo_card) ''c''" by code_simp
  from suppressed_call_hidden [OF this, of "demo_env (TOOL_CALL_START ''c'' ''task'' None)" demo_lib]
  show ?thesis by (simp add: event_call_def demo_env_def)
qed

text \<open>
  The metadata event is the exception: for a suppressed call that was never announced it puts a
  tool row into the transcript next to the sub-agent card.
\<close>

theorem tool_meta_reveals_hidden_call:
  "let t = reduceThreadState demo_lib createAgUiThreadMessageState demo_card;
       t' = reduceThreadState demo_lib t (demo_env (CUSTOM ''dappercode.dev/tool-meta'' (Some (JObj
              [(''toolCallId'', JStr ''c''), (''title'', JStr ''task'')]))))
   in suppressed_call t ''c'' \<and> map cm_id (th_messages t) = [''subagent:c''] \<and>
      map cm_id (th_messages t') = [''subagent:c'', ''tool-call:c'']"
  by code_simp


section \<open>The bookkeeping after a snapshot\<close>

lemma set_fold_put:
  "set (fold (\<lambda>(k, v). map_put k v) xs m) \<subseteq> set xs \<union> set m"
proof (induction xs arbitrary: m)
  case (Cons x xs)
  then show ?case using set_map_put [of "fst x" "snd x" m] by (cases x) fastforce
qed simp

lemma map_has_fold_put:
  "map_has (fold (\<lambda>(k, v). map_put k v) xs m) k \<longleftrightarrow> k \<in> fst ` set xs \<or> map_has m k"
proof (induction xs arbitrary: m)
  case (Cons x xs)
  then show ?case by (cases x) (auto simp: update_conv')
qed simp

lemma index_fold:
  assumes "n < length ms"
  shows "map_get (fold (\<lambda>(i, n). map_put i n) (zip (ids ms) [0..<length ms]) []) (cm_id (ms ! n)) \<noteq> None"
proof -
  have "(cm_id (ms ! n), n) \<in> set (zip (ids ms) [0..<length ms])"
    using assms by (auto simp: set_zip intro: exI [of _ n])
  then show ?thesis unfolding map_has_fold_put by force
qed

lemma indexMessages_sound:
  "map_get (indexMessages ms) i = Some n \<Longrightarrow> n < length ms \<and> cm_id (ms ! n) = i"
  using set_fold_put [of "zip (ids ms) [0..<length ms]" "[]"]
  by (fastforce simp: indexMessages_def set_zip dest: map_of_SomeD)

definition books_ok :: "chat_message list \<Rightarrow> (string, string) jsmap \<Rightarrow> bool" where
  "books_ok ms m \<longleftrightarrow> list_all (\<lambda>(c, i). i \<in> set (ids ms)) m"

lemma books_rebase:
  assumes "books_ok ms fromSnapshot"
  shows "books_ok ms (rebaseToolBookkeeping prev fromSnapshot (set (ids ms)))"
  using assms set_fold_put [of fromSnapshot "filter (\<lambda>(_, i). i \<in> set (ids ms)) prev"]
  by (fastforce simp: books_ok_def list_all_iff rebaseToolBookkeeping_def spread_def)

lemma books_calls: "books_ok ms (snapshotToolCallMessageIds ms)"
proof -
  have "set (snapshotToolCallMessageIds ms) \<subseteq>
      set (concat (map (\<lambda>m. if cm_role m = Assistant then map (\<lambda>c. (tc_id c, cm_id m)) (tool_calls m) else []) ms))"
    unfolding snapshotToolCallMessageIds_def using set_fold_put [of _ "[]"] by fastforce
  then show ?thesis by (fastforce simp: books_ok_def list_all_iff split: if_splits)
qed

lemma books_results: "books_ok ms (snapshotToolResultMessageIds ms)"
proof -
  have "set (snapshotToolResultMessageIds ms) \<subseteq>
      set (List.map_filter (\<lambda>m. if cm_role m = Tool then map_option (\<lambda>c. (c, cm_id m)) (cm_toolCallId m) else None) ms)"
    unfolding snapshotToolResultMessageIds_def using set_fold_put [of _ "[]"] by fastforce
  then show ?thesis by (fastforce simp: books_ok_def list_all_iff List.map_filter_def split: if_splits)
qed

text \<open>
  A snapshot leaves no stale bookkeeping. After a messages snapshot, for any thread and any
  snapshot, every tool call and every tool result that is known points to a message of the
  transcript, every call that an assistant message of the transcript makes is known, the index
  leads to messages with the indexed ids, and all messages of the transcript count as terminal.
\<close>

theorem snapshot_bookkeeping:
  "(let t' = applyMessagesSnapshot lib t r ms ts
    in list_all (\<lambda>(c, i). i \<in> set (map cm_id (th_messages t'))) (th_toolCallMessageId t') \<and>
       list_all (\<lambda>(c, i). i \<in> set (map cm_id (th_messages t'))) (th_toolResultMessageId t') \<and>
       list_all (\<lambda>m. list_all (\<lambda>call. map_has (th_toolCallMessageId t') (tc_id call)) (tool_calls m))
         (filter (\<lambda>m. cm_role m = Assistant) (th_messages t')) \<and>
       list_all (\<lambda>m. case map_get (th_messageIndexById t') (cm_id m) of
           Some n \<Rightarrow> n < length (th_messages t') \<and> cm_id (th_messages t' ! n) = cm_id m
         | None \<Rightarrow> False) (th_messages t') \<and>
       set (map cm_id (th_messages t')) \<subseteq> set (th_terminalMessageIds t'))"
proof -
  define t' where "t' = applyMessagesSnapshot lib t r ms ts"
  define kept where "kept = th_messages t'"
  have books: "th_toolCallMessageId t' =
      rebaseToolBookkeeping (th_toolCallMessageId t) (snapshotToolCallMessageIds kept) (set (ids kept))"
    "th_toolResultMessageId t' =
      rebaseToolBookkeeping (th_toolResultMessageId t) (snapshotToolResultMessageIds kept) (set (ids kept))"
    "th_messageIndexById t' = indexMessages kept"
    by (simp_all add: t'_def kept_def applyMessagesSnapshot_def Let_def del: ids_attach_all set_map)
  have known: "map_has (th_toolCallMessageId t') (tc_id call)"
    if "m \<in> set kept" "cm_role m = Assistant" "call \<in> set (tool_calls m)" for m call
    unfolding books(1) rebaseToolBookkeeping_def spread_def map_has_fold_put
  proof (rule disjI1)
    have "map_has (snapshotToolCallMessageIds kept) (tc_id call)"
      unfolding snapshotToolCallMessageIds_def map_has_fold_put using that by force
    then show "tc_id call \<in> fst ` set (snapshotToolCallMessageIds kept)" by (metis map_of_eq_None_iff)
  qed
  have index: "case map_get (indexMessages kept) (cm_id m) of
      Some n \<Rightarrow> n < length kept \<and> cm_id (kept ! n) = cm_id m | None \<Rightarrow> False" if "m \<in> set kept" for m
    using that index_fold indexMessages_sound
    by (auto simp: in_set_conv_nth indexMessages_def [symmetric] split: option.split)
  have "set (ids kept) \<subseteq> set (th_terminalMessageIds t')"
    unfolding kept_def t'_def ids_snapshot
    using set_slice_last by (fastforce simp: applyMessagesSnapshot_def Let_def)
  with known index show ?thesis
    using books_rebase [OF books_calls [of kept]] books_rebase [OF books_results [of kept]]
    unfolding Let_def t'_def [symmetric] kept_def [symmetric] books(3)
    by (auto simp: books [folded kept_def] books_ok_def list_all_iff)
qed


section \<open>Tool metadata\<close>

lemma references_stamp [simp]: "messageReferencesToolCall (stamp_meta meta m) c = messageReferencesToolCall m c"
  by (auto simp: stamp_meta_def messageReferencesToolCall_def tool_calls_def Let_def split: option.split)

lemma stamp_facts:
  assumes "messageReferencesToolCall m (tm_toolCallId meta)"
  shows "\<exists>tm. cm_toolMeta (stamp_meta meta m) = Some tm \<and> tm_kind tm = tm_kind meta \<and>
    tm_status tm = tm_status meta \<and> tm_title tm = tm_title meta"
  using assms
  by (auto simp: stamp_meta_def mergeToolMeta_def shallowEqualMeta_def Let_def split: option.split)

lemma parse_record: "parseToolMeta (map_option JObj (record_of v)) f = parseToolMeta v f"
  by (cases v) (auto simp: parseToolMeta_def record_of_def split: json.split)

lemma startToolCall_suppressed: "suppressed_call (startToolCall lib t r c n p ts) = suppressed_call t"
  by (rule ext) (simp add: startToolCall_def suppressed_call_def Let_def frame_simps)

lemma startToolCall_toolMeta: "th_toolMeta (startToolCall lib t r c n p ts) = th_toolMeta t"
  by (simp add: startToolCall_def Let_def frame_simps)

lemma mergeToolMeta_facts [simp]:
  "tm_toolCallId (mergeToolMeta p meta) = tm_toolCallId meta" "tm_kind (mergeToolMeta p meta) = tm_kind meta"
  "tm_status (mergeToolMeta p meta) = tm_status meta" "tm_title (mergeToolMeta p meta) = tm_title meta"
  by (simp_all add: mergeToolMeta_def split: option.split)

text \<open>
  A tool's status reaches its rows. After a metadata event for a call that is not suppressed,
  every message that speaks for the call carries the kind, the status and the title of the
  event; and unless the event brings its own, the content and locations that were known before
  are kept.
\<close>

theorem tool_meta_reaches_rows:
  assumes "env_event env = CUSTOM ''dappercode.dev/tool-meta'' v" "parseToolMeta v None = Some meta"
    and "\<not> suppressed_call t (tm_toolCallId meta)"
  shows "list_all (\<lambda>m. messageReferencesToolCall m (tm_toolCallId meta) \<longrightarrow>
      (\<exists>tm. cm_toolMeta m = Some tm \<and> tm_kind tm = tm_kind meta \<and> tm_status tm = tm_status meta \<and>
            tm_title tm = tm_title meta)) (th_messages (reduceThreadState lib t env)) \<and>
    (case map_get (th_toolMeta (reduceThreadState lib t env)) (tm_toolCallId meta) of
       None \<Rightarrow> False
     | Some tm \<Rightarrow>
         tm_content tm = keep_last (tm_content meta) (Option.bind (map_get (th_toolMeta t) (tm_toolCallId meta)) tm_content) \<and>
         tm_locations tm = keep_last (tm_locations meta) (Option.bind (map_get (th_toolMeta t) (tm_toolCallId meta)) tm_locations))"
proof -
  define started where "started = (case non_empty (map_get (th_toolCallMessageId t) (tm_toolCallId meta)) of
     Some _ \<Rightarrow> t
   | None \<Rightarrow> startToolCall lib t (env_runId env) (tm_toolCallId meta) (tm_title meta) None (env_timestamp env))"
  have st: "\<not> suppressed_call started (tm_toolCallId meta)" "th_toolMeta started = th_toolMeta t"
    using assms(3)
    by (auto simp: started_def startToolCall_suppressed startToolCall_toolMeta split: option.splits)
  have red: "reduceThreadState lib t env = rememberToolMeta started meta"
    using assms(1,2)
    by (simp add: reduceThreadState_def custom_dispatch reduceToolMeta_def parse_record started_def Let_def)
  let ?merged = "mergeToolMeta (map_get (th_toolMeta t) (tm_toolCallId meta)) meta"
  have "\<exists>tm. cm_toolMeta (stamp_meta ?merged m) = Some tm \<and> tm_kind tm = tm_kind meta \<and>
      tm_status tm = tm_status meta \<and> tm_title tm = tm_title meta"
    if "messageReferencesToolCall m (tm_toolCallId meta)" for m
    using stamp_facts [of m ?merged] that by simp
  then show ?thesis
    using st unfolding red
    by (auto simp: rememberToolMeta_def Let_def list_all_iff attachToolMeta_def update_conv' mergeToolMeta_def
        keep_last_def split: option.splits)
qed

definition demo_meta :: agui_envelope where
  "demo_meta = demo_env (CUSTOM ''dappercode.dev/tool-meta'' (Some (JObj
     [(''toolCallId'', JStr ''c''), (''kind'', JStr ''read''), (''status'', JStr ''in-progress''), (''title'', JStr ''Read'')])))"

theorem tool_meta_reaches_rows_witness:
  "map (\<lambda>m. map_option tm_status (cm_toolMeta m))
     (th_messages (reduceThreadState demo_lib createAgUiThreadMessageState demo_meta)) = [Some TsInProgress]"
proof -
  let ?t = "reduceThreadState demo_lib createAgUiThreadMessageState demo_meta"
  let ?v = "Some (JObj [(''toolCallId'', JStr ''c''), (''kind'', JStr ''read''), (''status'', JStr ''in-progress''), (''title'', JStr ''Read'')])"
  have refs: "map (\<lambda>m. messageReferencesToolCall m ''c'') (th_messages ?t) = [True]" by code_simp
  have meta: "map_option (\<lambda>m. (tm_toolCallId m, tm_status m)) (parseToolMeta ?v None) = Some (''c'', TsInProgress)" by code_simp
  then obtain meta where m: "parseToolMeta ?v None = Some meta" "tm_toolCallId meta = ''c''" "tm_status meta = TsInProgress"
    by auto
  have "env_event demo_meta = CUSTOM ''dappercode.dev/tool-meta'' ?v" by (simp add: demo_meta_def demo_env_def)
  from tool_meta_reaches_rows [OF this m(1), of createAgUiThreadMessageState demo_lib] refs m show ?thesis
    by (auto simp: suppressed_call_def createAgUiThreadMessageState_def map_eq_Cons_conv)
qed


section \<open>Revisions of a tool's output\<close>

lemma trim_end_newline: "trim_end (x @ NL) = trim_end x"
  by (simp add: trim_end_def NL_def is_js_space_def)

lemma trim_end_idem [simp]: "trim_end (trim_end x) = trim_end x"
  by (simp add: trim_end_def)

lemma strip_appended:
  "withoutPreviousStructuredText (fst (appendToolText x s)) (snd (appendToolText x s)) \<in> {x, trim_end x}"
proof (cases "snd (appendToolText x s) = []")
  case True
  then show ?thesis
    by (simp add: withoutPreviousStructuredText_def) (simp add: appendToolText_def join_lines_def Let_def)
next
  case False
  define a where "a = snd (appendToolText x s)"
  have ends: "ends_with (y @ a) a" for y by (simp add: ends_with_def starts_with_def)
  have "fst (appendToolText x s) = (if x = [] then a else x @ NL @ a)"
    using False by (simp add: a_def appendToolText_def join_lines_def Let_def)
  with False ends [of "[]"] ends [of "x @ NL"] show ?thesis
    by (auto simp: a_def [symmetric] withoutPreviousStructuredText_def trim_end_newline)
qed

lemma find_id_map: "(\<And>m. cm_id (f m) = cm_id m) \<Longrightarrow> find_id n i (map f ms) = find_id n i ms"
  by (induction ms arbitrary: n) auto

lemma findMessage_cong:
  "th_messages t' = th_messages t \<Longrightarrow> th_messageIndexById t' = th_messageIndexById t \<Longrightarrow> findMessage t' i = findMessage t i"
  by (simp add: findMessage_def findMessageIndex_def split: option.split)

lemma findMessage_attach:
  assumes "th_messages t' = attachToolMeta (th_messages t) meta" "th_messageIndexById t' = th_messageIndexById t"
  shows "findMessage t' i = map_option (stamp_meta meta) (findMessage t i)"
proof -
  have "findMessageIndex t' i = findMessageIndex t i"
    using assms by (auto simp: findMessageIndex_def attachToolMeta_def find_id_map split: option.split)
  then show ?thesis
    using assms(1) findMessageIndex_Some [of t i]
    by (cases "findMessageIndex t i") (auto simp: findMessage_def attachToolMeta_def)
qed

lemma tool_text_stamp [simp]:
  "tool_text (Some (stamp_meta meta m)) = tool_text (Some m)"
  "tool_text (map_option (stamp_meta meta) mo) = tool_text mo"
  by (cases mo; auto simp: tool_text_def stamp_meta_def Let_def split: option.split)+

lemma find_tool_result:
  assumes "unique_ids t" "roomy t i"
  shows "findMessage (upsertToolResult lib t r i c txt ts) i \<noteq> None \<and>
    tool_text (findMessage (upsertToolResult lib t r i c txt ts) i) = txt"
proof -
  let ?m = "(blank_message i Tool (JStr txt) (timestampIso lib ts))\<lparr>cm_toolCallId := Some c\<rparr>"
  let ?u = "upsertMessage lib t ?m r ts" and ?t = "upsertToolResult lib t r i c txt ts"
  have u: "findMessage ?u i = Some (stored lib t ?m ts)" using find_upsert [of t ?m] assms by simp
  have "findMessage ?t i = findMessage ?u i \<or> (\<exists>meta. findMessage ?t i = map_option (stamp_meta meta) (findMessage ?u i))"
  proof (cases "map_get (th_toolMeta ?u) c")
    case None
    then show ?thesis by (intro disjI1 findMessage_cong) (simp_all add: upsertToolResult_def Let_def)
  next
    case (Some meta)
    then show ?thesis
      by (intro disjI2 exI [of _ meta] findMessage_attach) (simp_all add: upsertToolResult_def Let_def)
  qed
  moreover have "tool_text (Some (stored lib t ?m ts)) = txt"
    by (simp add: tool_text_def stored_def blank_message_def)
  ultimately show ?thesis unfolding u by auto
qed

lemma result_frame:
  "map_get (th_toolResultMessageId (upsertToolResult lib t r i c txt ts)) c = Some i"
  "suppressed_call (upsertToolResult lib t r i c txt ts) d = suppressed_call t d"
  "length (th_messages (upsertToolResult lib t r i c txt ts)) \<le> MAX_MESSAGES_PER_THREAD"
  by (simp_all add: upsertToolResult_def suppressed_call_def Let_def update_conv' frame_simps
      attachToolMeta_def messages_upsert split: option.split)

text \<open>The output of a call is its plain text \<open>x\<close> and what one structured rendering adds to it.\<close>

definition tool_shows :: "agui_thread \<Rightarrow> string \<Rightarrow> string \<Rightarrow> string \<Rightarrow> bool" where
  "tool_shows t c i x \<longleftrightarrow>
     unique_ids t \<and> length (th_messages t) \<le> MAX_MESSAGES_PER_THREAD \<and> \<not> suppressed_call t c \<and>
     map_get (th_toolResultMessageId t) c = Some i \<and> findMessage t i \<noteq> None \<and>
     (\<exists>s. tool_text (findMessage t i) = fst (appendToolText x s) \<and>
          map_get (th_structuredText t) c = Some (snd (appendToolText x s)))"

lemma tool_content_step:
  assumes "tool_shows t c i x" "nonEmptyString (field v ''toolCallId'') = Some c"
  shows "\<exists>x'\<in>{x, trim_end x}. tool_shows (reduceToolContent lib t env v) c i x'"
proof -
  obtain s where s: "tool_text (findMessage t i) = fst (appendToolText x s)"
    "map_get (th_structuredText t) c = Some (snd (appendToolText x s))"
    using assms(1) by (auto simp: tool_shows_def)
  define y where "y = withoutPreviousStructuredText (fst (appendToolText x s)) (snd (appendToolText x s))"
  define j where "j = appendToolText y (renderToolStructuredContent lib v)"
  define u where "u = upsertToolResult lib t (env_runId env) i c (fst j) (env_timestamp env)"
  have y: "y \<in> {x, trim_end x}" unfolding y_def by (rule strip_appended)
  have t: "unique_ids t" "roomy t i" "\<not> suppressed_call t c" "map_get (th_toolResultMessageId t) c = Some i"
    using assms(1) by (auto simp: tool_shows_def roomy_def)
  show ?thesis
  proof (cases "reduceToolContent lib t env v = t")
    case True
    with assms(1) show ?thesis by auto
  next
    case False
    define r where "r = reduceToolContent lib t env v"
    define meta where "meta = withToolStructured (map_get (th_toolMeta u) c) c (arr_field v ''content'') (arr_field v ''locations'')"
    from False obtain rev where r: "r = u\<lparr>th_messages := attachToolMeta (th_messages u) meta,
        th_toolMeta := map_put c meta (th_toolMeta u), th_structuredRevision := map_put c rev (th_structuredRevision u),
        th_structuredText := map_put c (snd j) (th_structuredText u)\<rparr>"
      using t s assms(2)
      by (auto simp: r_def reduceToolContent_def Let_def u_def j_def y_def meta_def split: if_splits option.splits)
    have "findMessage r i = map_option (stamp_meta meta) (findMessage u i)"
      by (rule findMessage_attach) (simp_all add: r)
    moreover have "unique_ids r"
      unfolding r_def using unique.tool_content [OF t(1)] .
    moreover have "suppressed_call r c = suppressed_call u c" by (simp add: r suppressed_call_def)
    ultimately have "tool_shows r c i y"
      using find_tool_result [OF t(1,2), of lib "env_runId env" c "fst j" "env_timestamp env"]
        result_frame [of lib t "env_runId env" i c "fst j" "env_timestamp env"] t(3)
      unfolding tool_shows_def u_def [symmetric]
      by (auto simp: r update_conv' j_def attachToolMeta_def)
    with y show ?thesis unfolding r_def by blast
  qed
qed

text \<open>
  Structured output does not pile up. Take a call whose shown output is its plain text and the
  remainder of one structured rendering. After any number of further content revisions for the
  call the output is again the plain text (at most without its trailing white space) and the
  remainder of one rendering: what earlier revisions added is gone.
\<close>

theorem tool_output_not_repeated:
  assumes "tool_shows t c i x"
    and "list_all (\<lambda>(lib, env). \<exists>v. env_event env = CUSTOM ''dappercode.dev/tool-content'' v \<and>
           nonEmptyString (field (record_of v) ''toolCallId'') = Some c) es"
  shows "\<exists>x' s. (x' = x \<or> x' = trim_end x) \<and>
    tool_text (findMessage (foldl (\<lambda>t (lib, env). reduceThreadState lib t env) t es) i) = fst (appendToolText x' s)"
proof -
  have "\<exists>x'\<in>{x, trim_end x}. tool_shows (foldl (\<lambda>t (lib, env). reduceThreadState lib t env) t es) c i x'"
    using assms
  proof (induction es arbitrary: t x)
    case (Cons e es)
    obtain lib env where e: "e = (lib, env)" by fastforce
    with Cons.prems obtain v where v: "env_event env = CUSTOM ''dappercode.dev/tool-content'' v"
      "nonEmptyString (field (record_of v) ''toolCallId'') = Some c" by auto
    have red: "reduceThreadState lib t env = reduceToolContent lib t env (record_of v)"
      using v(1) by (simp add: reduceThreadState_def custom_dispatch)
    obtain y where y: "y \<in> {x, trim_end x}" "tool_shows (reduceThreadState lib t env) c i y"
      using tool_content_step [OF Cons.prems(1) v(2)] unfolding red by blast
    from Cons.IH [OF y(2)] Cons.prems(2) obtain z where "z \<in> {y, trim_end y}"
      "tool_shows (foldl (\<lambda>t (lib, env). reduceThreadState lib t env) (reduceThreadState lib t env) es) c i z" by auto
    with y(1) show ?case by (auto simp: e)
  qed simp
  then show ?thesis unfolding tool_shows_def by blast
qed

definition demo_output :: agui_thread where
  "demo_output = reduceThreadState demo_lib createAgUiThreadMessageState
     (demo_env (CUSTOM ''dappercode.dev/tool-text'' (Some (JObj
        [(''toolCallId'', JStr ''c''), (''revision'', JStr ''1''), (''content'', JStr ''out'')]))))"

definition demo_revision :: "string \<Rightarrow> string \<Rightarrow> agui_envelope" where
  "demo_revision revision txt = demo_env (CUSTOM ''dappercode.dev/tool-content'' (Some (JObj
     [(''toolCallId'', JStr ''c''), (''revision'', JStr revision), (''content'', JArr [JStr txt])])))"

theorem tool_output_not_repeated_witness:
  "\<exists>x' s. (x' = ''out'' \<or> x' = trim_end ''out'') \<and>
     tool_text (findMessage (foldl (\<lambda>t (lib, env). reduceThreadState lib t env) demo_output
       [(demo_lib, demo_revision ''2'' ''first''), (demo_lib, demo_revision ''3'' ''second'')]) ''tool-result:c'')
     = fst (appendToolText x' s)"
proof (rule tool_output_not_repeated [where c = "''c''"])
  have "unique_ids demo_output" "length (th_messages demo_output) \<le> MAX_MESSAGES_PER_THREAD"
    "\<not> suppressed_call demo_output ''c''" by code_simp+
  moreover have "map_get (th_toolResultMessageId demo_output) ''c'' = Some ''tool-result:c''"
    "tool_text (findMessage demo_output ''tool-result:c'') = fst (appendToolText ''out'' [])"
    "map_get (th_structuredText demo_output) ''c'' = Some (snd (appendToolText ''out'' []))" by code_simp+
  moreover from this(2) have "findMessage demo_output ''tool-result:c'' \<noteq> None"
    by (auto simp: tool_text_def appendToolText_def structuredTextRemainder_def join_lines_def Let_def
        split: option.splits)
  ultimately show "tool_shows demo_output ''c'' ''tool-result:c'' ''out''" unfolding tool_shows_def by blast
  have "nonEmptyString (Some (JStr ''c'')) = Some ''c''" by code_simp
  then show "list_all (\<lambda>(lib, env). \<exists>v. env_event env = CUSTOM ''dappercode.dev/tool-content'' v \<and>
      nonEmptyString (field (record_of v) ''toolCallId'') = Some ''c'')
      [(demo_lib, demo_revision ''2'' ''first''), (demo_lib, demo_revision ''3'' ''second'')]"
    by (simp add: demo_revision_def demo_env_def record_of_def field_def)
qed

end
