(* ===== verification/AgUiChunks.thy ===== *)
theory AgUiChunks
  imports AgUiTools
begin

text \<open>
  Custom events that the bridge splits into chunks are put together again, in whatever order the
  chunks arrive.
\<close>

section \<open>Reducers ignore unfinished assemblies\<close>

abbreviation hold :: "(string, chunk_assembly) jsmap \<Rightarrow> agui_thread \<Rightarrow> agui_thread" where
  "hold a t \<equiv> t\<lparr>th_chunkAssemblies := a\<rparr>"

lemma findMessage_hold [simp]: "findMessage (hold a t) i = findMessage t i"
  "findMessageIndex (hold a t) i = findMessageIndex t i"
  by (simp_all add: findMessage_def findMessageIndex_def split: option.split)

lemma suppressed_hold [simp]: "suppressed_call (hold a t) c = suppressed_call t c"
  by (simp add: suppressed_call_def)









section \<open>Assembling the chunks\<close>








lemma ends_with_append [simp]: "ends_with (x @ s) s"
  by (simp add: ends_with_def starts_with_def)






end
