(* ===== verification/BridgeUrl.thy ===== *)
theory BridgeUrl
  imports AgUiText "HOL-Library.Word"
begin

text \<open>
  Addresses: \<^verbatim>\<open>shell/state/bridgeUrl.ts\<close> (the address of a bridge, and whether plain HTTP to it
  leaves the local network) and \<^verbatim>\<open>features/browser/preview/constants.ts\<close> with the list of recent
  preview targets of \<^verbatim>\<open>discovery.ts\<close>.

  The \<open>URL\<close> class of the host is the argument \<open>U\<close>: what \<open>new URL(s)\<close> reads from \<open>s\<close>
  (\<^const>\<open>None\<close> when it throws), the fields of the record being its getters. \<open>toString\<close> puts the fields
  together again. \<open>url_conforms\<close> collects what the URL standard says of reading back an
  address that was printed.
\<close>

section \<open>URLs\<close>

record url =
  url_protocol :: string
  url_username :: string
  url_password :: string
  url_hostname :: string
  url_port :: string
  url_pathname :: string
  url_search :: string
  url_hash :: string

type_synonym url_parser = "string \<Rightarrow> url option"

definition url_host :: "url \<Rightarrow> string" where
  "url_host u = url_hostname u @ (if url_port u = [] then [] else CHR '':'' # url_port u)"

definition url_credentials :: "url \<Rightarrow> string" where
  "url_credentials u =
     (if url_username u = [] \<and> url_password u = [] then []
      else url_username u @ (if url_password u = [] then [] else CHR '':'' # url_password u) @ ''@'')"

definition url_toString :: "url \<Rightarrow> string" where
  "url_toString u =
     url_protocol u @ ''//'' @ url_credentials u @ url_host u @ url_pathname u @ url_search u @ url_hash u"

text \<open>
  Assigning \<open>pathname\<close> on a URL with one of the protocols below: the empty path becomes \<open>/\<close>.
\<close>

definition set_pathname :: "string \<Rightarrow> url \<Rightarrow> url" where
  "set_pathname p u = u\<lparr>url_pathname := if p = [] then ''/'' else p\<rparr>"

definition SUPPORTED_PROTOCOLS :: "string list" where
  "SUPPORTED_PROTOCOLS = [''http:'', ''https:'', ''ws:'', ''wss:'']"

text \<open>\<open>s.replace(/\/+$/, '')\<close> and \<open>s.replace(/\/$/, '')\<close>\<close>

definition strip_slashes :: "string \<Rightarrow> string" where
  "strip_slashes s = rev (dropWhile (\<lambda>c. c = CHR ''/'') (rev s))"

definition strip_slash :: "string \<Rightarrow> string" where
  "strip_slash s = (if s \<noteq> [] \<and> last s = CHR ''/'' then butlast s else s)"


section \<open>The address of a bridge\<close>

definition bridge_url_of :: "url \<Rightarrow> url" where
  "bridge_url_of parsed =
     (let normalizedProtocol =
            (if url_protocol parsed = ''ws:'' then ''http:''
             else if url_protocol parsed = ''wss:'' then ''https:'' else url_protocol parsed);
          normalizedPath = strip_slashes (url_pathname parsed)
      in (set_pathname normalizedPath (parsed\<lparr>url_protocol := normalizedProtocol\<rparr>))
           \<lparr>url_search := [], url_hash := [], url_username := [], url_password := []\<rparr>)"

definition normalizeBridgeUrlInput :: "url_parser \<Rightarrow> string \<Rightarrow> string option" where
  "normalizeBridgeUrlInput U value =
     (let trimmed = trim value
      in if trimmed = [] then None
         else case U trimmed of
                None \<Rightarrow> None
              | Some parsed \<Rightarrow>
                  if url_protocol parsed \<notin> set SUPPORTED_PROTOCOLS then None
                  else if url_hostname parsed = [] \<or> url_username parsed \<noteq> [] \<or> url_password parsed \<noteq> [] then None
                  else Some (strip_slash (url_toString (bridge_url_of parsed))))"

definition toBridgeHealthUrl :: "string \<Rightarrow> string" where
  "toBridgeHealthUrl baseUrl = strip_slash baseUrl @ ''/health''"

definition stripIpv6Brackets :: "string \<Rightarrow> string" where
  "stripIpv6Brackets hostname =
     (if starts_with hostname ''['' \<and> ends_with hostname '']'' then butlast (tl hostname) else hostname)"

definition isLocalHost :: "string \<Rightarrow> bool" where
  "isLocalHost host \<longleftrightarrow>
     host = ''localhost'' \<or> host = ''127.0.0.1'' \<or> host = ''::1'' \<or> ends_with host ''.local''"

definition isPrivateIpv6 :: "string \<Rightarrow> bool" where
  "isPrivateIpv6 host \<longleftrightarrow> starts_with host ''fc'' \<or> starts_with host ''fd'' \<or> starts_with host ''fe80:''"

text \<open>\<open>/^\d{1,3}$/\<close> and the value of the octet.\<close>

definition isValidIpv4Octet :: "string \<Rightarrow> bool" where
  "isValidIpv4Octet octet \<longleftrightarrow>
     octet \<noteq> [] \<and> length octet \<le> 3 \<and>
     (case nat_of_digits 0 octet of Some n \<Rightarrow> n \<le> 255 | None \<Rightarrow> False)"

fun isPrivateIpv4Prefix :: "nat list \<Rightarrow> bool" where
  "isPrivateIpv4Prefix (first # second # rest) \<longleftrightarrow>
     (if first = 10 \<or> (first = 192 \<and> second = 168) \<or> (first = 169 \<and> second = 254) then True
      else (first = 172 \<and> 16 \<le> second \<and> second \<le> 31) \<or> (first = 100 \<and> 64 \<le> second \<and> second \<le> 127))"
| "isPrivateIpv4Prefix octets \<longleftrightarrow> False"

definition isPrivateIpv4 :: "string \<Rightarrow> bool" where
  "isPrivateIpv4 host =
     (let octets = split_on CHR ''.'' host
      in if length octets \<noteq> 4 \<or> \<not> list_all isValidIpv4Octet octets then False
         else isPrivateIpv4Prefix (map (\<lambda>o'. the (nat_of_digits 0 o')) octets))"

definition isLikelyPrivateHost :: "string \<Rightarrow> bool" where
  "isLikelyPrivateHost hostname =
     (let host = stripIpv6Brackets (to_lower (trim hostname))
      in if host = [] then False
         else if isLocalHost host then True
         else if CHR '':'' \<in> set host then isPrivateIpv6 host else isPrivateIpv4 host)"

definition isInsecureRemoteUrl :: "url_parser \<Rightarrow> string \<Rightarrow> bool" where
  "isInsecureRemoteUrl U url =
     (case U url of
        None \<Rightarrow> False
      | Some parsed \<Rightarrow> if url_protocol parsed \<noteq> ''http:'' then False else \<not> isLikelyPrivateHost (url_hostname parsed))"


section \<open>Preview targets\<close>

definition LOOPBACK_HOSTS :: "string list" where
  "LOOPBACK_HOSTS = [''localhost'', ''127.0.0.1'', ''::1'', ''[::1]'']"

definition MAX_RECENT_TARGETS :: nat where "MAX_RECENT_TARGETS = 8"

definition is_digit :: "char \<Rightarrow> bool" where
  "is_digit c \<longleftrightarrow> char_digit c \<noteq> None"

text \<open>\<open>/^\d{2,5}$/\<close>\<close>

definition PORT_ONLY_PATTERN :: "string \<Rightarrow> bool" where
  "PORT_ONLY_PATTERN s \<longleftrightarrow> list_all is_digit s \<and> 2 \<le> length s \<and> length s \<le> 5"

text \<open>\<open>(?:[/?#].*)?$\<close> and \<open>(?::\d{1,5})?(?:[/?#].*)?$\<close>\<close>

definition target_tail :: "string \<Rightarrow> bool" where
  "target_tail r \<longleftrightarrow>
     (case r of
        [] \<Rightarrow> True
      | c # cs \<Rightarrow> c \<in> set ''/?#'' \<and> list_all (\<lambda>x. x \<noteq> CHR 0x0A \<and> x \<noteq> CHR 0x0D) cs)"

definition target_port_tail :: "string \<Rightarrow> bool" where
  "target_port_tail r \<longleftrightarrow>
     (case r of
        [] \<Rightarrow> True
      | c # cs \<Rightarrow>
          if c = CHR '':''
          then takeWhile is_digit cs \<noteq> [] \<and> length (takeWhile is_digit cs) \<le> 5 \<and> target_tail (dropWhile is_digit cs)
          else target_tail r)"

definition LOCAL_PREVIEW_WITHOUT_SCHEME_PATTERN :: "string \<Rightarrow> bool" where
  "LOCAL_PREVIEW_WITHOUT_SCHEME_PATTERN s \<longleftrightarrow>
     list_ex (\<lambda>host. starts_with (to_lower s) host \<and> target_port_tail (drop (length host) s))
       [''localhost'', ''127.0.0.1'', ''[::1]'']"

definition preview_candidate :: "string \<Rightarrow> string" where
  "preview_candidate trimmed =
     (if PORT_ONLY_PATTERN trimmed then ''http://127.0.0.1:'' @ trimmed
      else if LOCAL_PREVIEW_WITHOUT_SCHEME_PATTERN trimmed then ''http://'' @ trimmed else trimmed)"

definition is_loopback :: "url \<Rightarrow> bool" where
  "is_loopback parsed \<longleftrightarrow>
     to_lower (trim (url_host parsed)) \<in> set LOOPBACK_HOSTS \<or>
     to_lower (trim (url_hostname parsed)) \<in> set LOOPBACK_HOSTS"

definition preview_url_of :: "url \<Rightarrow> url" where
  "preview_url_of parsed =
     (let p = parsed\<lparr>url_hash := []\<rparr> in if url_pathname p = [] then set_pathname ''/'' p else p)"

definition normalizePreviewTargetInput :: "url_parser \<Rightarrow> string \<Rightarrow> string option" where
  "normalizePreviewTargetInput U value =
     (let trimmed = trim value
      in if trimmed = [] then None
         else case U (preview_candidate trimmed) of
                None \<Rightarrow> None
              | Some parsed \<Rightarrow>
                  if url_protocol parsed \<noteq> ''http:'' \<and> url_protocol parsed \<noteq> ''https:'' then None
                  else if \<not> is_loopback parsed then None
                  else if url_username parsed \<noteq> [] \<or> url_password parsed \<noteq> [] then None
                  else Some (url_toString (preview_url_of parsed)))"

fun dedupe_loop :: "url_parser \<Rightarrow> string list \<Rightarrow> string list \<Rightarrow> string list" where
  "dedupe_loop U deduped [] = deduped"
| "dedupe_loop U deduped (value # values) =
     (case normalizePreviewTargetInput U value of
        None \<Rightarrow> dedupe_loop U deduped values
      | Some normalized \<Rightarrow>
          if normalized = [] \<or> normalized \<in> set deduped then dedupe_loop U deduped values
          else if length (deduped @ [normalized]) \<ge> MAX_RECENT_TARGETS then deduped @ [normalized]
          else dedupe_loop U (deduped @ [normalized]) values)"

definition dedupeRecentPreviewTargets :: "url_parser \<Rightarrow> string list \<Rightarrow> string list" where
  "dedupeRecentPreviewTargets U values = dedupe_loop U [] values"

definition isLocalPreviewCandidateUrl :: "url_parser \<Rightarrow> string \<Rightarrow> bool" where
  "isLocalPreviewCandidateUrl U value \<longleftrightarrow> normalizePreviewTargetInput U value \<noteq> None"

definition pushRecentPreviewTarget :: "url_parser \<Rightarrow> string list \<Rightarrow> string \<Rightarrow> string list" where
  "pushRecentPreviewTarget U currentValues nextValue =
     (case normalizePreviewTargetInput U nextValue of
        None \<Rightarrow> dedupeRecentPreviewTargets U currentValues
      | Some normalized \<Rightarrow>
          if normalized = [] then dedupeRecentPreviewTargets U currentValues
          else dedupeRecentPreviewTargets U (normalized # currentValues))"


section \<open>What the URL standard promises\<close>

text \<open>
  A printed address holds no white space, and an address that was read, and whose path, query and
  fragment were then reset, is read back as it was printed; an address with the path \<open>/\<close> may be
  written without it. \<open>url_reset\<close> is such a change of what was read.
\<close>

definition url_reset :: "url \<Rightarrow> url \<Rightarrow> bool" where
  "url_reset u v \<longleftrightarrow>
     url_hostname v = url_hostname u \<and> url_port v = url_port u \<and> url_username v = [] \<and> url_password v = [] \<and>
     url_hash v = [] \<and> (url_search v = [] \<or> url_search v = url_search u) \<and>
     url_pathname v \<in> {''/'', url_pathname u, strip_slashes (url_pathname u)} - {[]} \<and>
     (url_protocol v = url_protocol u \<or>
      (url_protocol u, url_protocol v) \<in> {(''ws:'', ''http:''), (''wss:'', ''https:'')})"

definition url_conforms :: "url_parser \<Rightarrow> bool" where
  "url_conforms U \<longleftrightarrow>
     (\<forall>s u v. U s = Some u \<and> url_protocol u \<in> set SUPPORTED_PROTOCOLS \<and> url_reset u v \<longrightarrow>
        U (url_toString v) = Some v \<and>
        (url_pathname v = ''/'' \<and> url_search v = [] \<longrightarrow> U (butlast (url_toString v)) = Some v) \<and>
        list_all (\<lambda>c. \<not> is_js_space c) (url_toString v))"

section \<open>Normal addresses stay as they are\<close>

lemma strip_slashes_idem [simp]: "strip_slashes (strip_slashes p) = strip_slashes p"
  by (simp add: strip_slashes_def)

lemma last_strip_slashes: "strip_slashes p \<noteq> [] \<Longrightarrow> last (strip_slashes p) \<noteq> CHR ''/''"
  unfolding strip_slashes_def using hd_dropWhile [of "\<lambda>c. c = CHR ''/''" "rev p"] by (simp add: last_rev)

lemma trim_no_space: "list_all (\<lambda>c. \<not> is_js_space c) s \<Longrightarrow> trim s = s"
proof -
  have *: "dropWhile is_js_space xs = xs" if "list_all (\<lambda>c. \<not> is_js_space c) xs" for xs
    using that by (cases xs) auto
  assume "list_all (\<lambda>c. \<not> is_js_space c) s"
  then show ?thesis by (simp add: trim_def trim_start_def trim_end_def * list_all_rev)
qed

lemma bridge_url_of_path:
  "url_pathname (bridge_url_of u) = (if strip_slashes (url_pathname u) = [] then ''/'' else strip_slashes (url_pathname u))"
  by (simp add: bridge_url_of_def set_pathname_def Let_def)

lemma bridge_url_of_fields [simp]:
  "url_username (bridge_url_of u) = []" "url_password (bridge_url_of u) = []" "url_search (bridge_url_of u) = []"
  "url_hash (bridge_url_of u) = []" "url_hostname (bridge_url_of u) = url_hostname u" "url_port (bridge_url_of u) = url_port u"
  "url_protocol (bridge_url_of u) =
     (if url_protocol u = ''ws:'' then ''http:'' else if url_protocol u = ''wss:'' then ''https:'' else url_protocol u)"
  by (simp_all add: bridge_url_of_def set_pathname_def Let_def)

lemma slash_alone [simp]: "strip_slashes ''/'' = []"
  by (simp add: strip_slashes_def)

lemma bridge_path_shape:
  "url_pathname (bridge_url_of u) \<noteq> []"
  "url_pathname (bridge_url_of u) = ''/'' \<or> last (url_pathname (bridge_url_of u)) \<noteq> CHR ''/''"
  using last_strip_slashes [of "url_pathname u"] by (auto simp: bridge_url_of_path)

lemma bridge_url_of_idem: "bridge_url_of (bridge_url_of u) = bridge_url_of u"
proof (rule url.equality)
  show "url.more (bridge_url_of (bridge_url_of u)) = url.more (bridge_url_of u)" by simp
qed (simp_all add: bridge_url_of_path)

lemma bridge_url_of_reset:
  "url_username u = [] \<Longrightarrow> url_password u = [] \<Longrightarrow> url_protocol u \<in> set SUPPORTED_PROTOCOLS \<Longrightarrow>
   url_reset u (bridge_url_of u)"
  by (simp add: url_reset_def bridge_url_of_path SUPPORTED_PROTOCOLS_def)

lemma conformsD:
  assumes "url_conforms U" "U s = Some u" "url_protocol u \<in> set SUPPORTED_PROTOCOLS" "url_reset u v"
  shows "U (url_toString v) = Some v" "list_all (\<lambda>c. \<not> is_js_space c) (url_toString v)"
    "url_pathname v = ''/'' \<Longrightarrow> url_search v = [] \<Longrightarrow> U (butlast (url_toString v)) = Some v"
  using assms unfolding url_conforms_def by blast+

lemma toString_starts:
  "\<exists>r. url_toString v = url_protocol v @ CHR ''/'' # CHR ''/'' # r"
  by (simp add: url_toString_def)

lemma normalizeBridgeUrlInput_SomeD:
  assumes "normalizeBridgeUrlInput U s = Some n"
  shows "\<exists>u. U (trim s) = Some u \<and> url_protocol u \<in> set SUPPORTED_PROTOCOLS \<and> url_hostname u \<noteq> [] \<and>
    url_username u = [] \<and> url_password u = [] \<and> n = strip_slash (url_toString (bridge_url_of u))"
  using assms by (auto simp: normalizeBridgeUrlInput_def Let_def split: if_splits option.splits)

lemma strip_slash_bridge:
  "strip_slash (url_toString (bridge_url_of u)) =
    (if url_pathname (bridge_url_of u) = ''/'' then butlast (url_toString (bridge_url_of u))
     else url_toString (bridge_url_of u))"
  using bridge_path_shape [of u] by (auto simp: strip_slash_def url_toString_def)

lemma list_all_butlast: "list_all P xs \<Longrightarrow> list_all P (butlast xs)"
  by (auto simp: list_all_iff dest: in_set_butlastD)

lemma normalizeBridgeUrlInput_idem:
  assumes "url_conforms U" "normalizeBridgeUrlInput U s = Some n"
  shows "normalizeBridgeUrlInput U n = Some n" and "n \<noteq> []" and "trim n = n"
proof -
  from normalizeBridgeUrlInput_SomeD [OF assms(2)] obtain u where u: "U (trim s) = Some u"
    "url_protocol u \<in> set SUPPORTED_PROTOCOLS" "url_hostname u \<noteq> []" "url_username u = []" "url_password u = []"
    and n: "n = strip_slash (url_toString (bridge_url_of u))" by blast
  let ?v = "bridge_url_of u"
  note law = conformsD [OF assms(1) u(1,2) bridge_url_of_reset [OF u(4,5,2)]]
  note n' = n [unfolded strip_slash_bridge]
  have reread: "U n = Some ?v" unfolding n' using law by simp
  show trimmed: "trim n = n" unfolding n' using law(2) by (simp add: trim_no_space list_all_butlast)
  obtain r where r: "url_toString ?v = url_protocol ?v @ CHR ''/'' # CHR ''/'' # r"
    using toString_starts by blast
  then show "n \<noteq> []" unfolding n' by (cases r rule: rev_cases) (simp_all add: butlast_append)
  with trimmed reread show "normalizeBridgeUrlInput U n = Some n"
    using u(2,3) by (auto simp: normalizeBridgeUrlInput_def Let_def SUPPORTED_PROTOCOLS_def bridge_url_of_idem n)
qed

lemma preview_url_of_fields:
  "url_protocol (preview_url_of u) = url_protocol u" "url_hostname (preview_url_of u) = url_hostname u"
  "url_username (preview_url_of u) = url_username u" "url_password (preview_url_of u) = url_password u"
  "is_loopback (preview_url_of u) = is_loopback u" "preview_url_of (preview_url_of u) = preview_url_of u"
  by (simp_all add: preview_url_of_def set_pathname_def is_loopback_def url_host_def Let_def)

lemma preview_url_of_reset:
  "url_username u = [] \<Longrightarrow> url_password u = [] \<Longrightarrow> url_reset u (preview_url_of u)"
  by (simp add: preview_url_of_def set_pathname_def url_reset_def Let_def)

lemma normalizePreviewTargetInput_SomeD:
  assumes "normalizePreviewTargetInput U s = Some n"
  shows "\<exists>u c. U c = Some u \<and> (url_protocol u = ''http:'' \<or> url_protocol u = ''https:'') \<and> is_loopback u \<and>
    url_username u = [] \<and> url_password u = [] \<and> n = url_toString (preview_url_of u)"
proof (cases "U (preview_candidate (trim s))")
  case (Some u)
  with assms show ?thesis
    by (intro exI [of _ u] exI [of _ "preview_candidate (trim s)"])
       (auto simp: normalizePreviewTargetInput_def Let_def split: if_splits)
qed (use assms in \<open>simp add: normalizePreviewTargetInput_def Let_def split: if_splits\<close>)

lemma preview_candidate_full:
  assumes "p = ''http:'' \<or> p = ''https:''"
  shows "preview_candidate (p @ r) = p @ r"
  using assms
  by (auto simp: preview_candidate_def PORT_ONLY_PATTERN_def LOCAL_PREVIEW_WITHOUT_SCHEME_PATTERN_def is_digit_def
      char_digit_def starts_with_def to_lower_def lower_char_def)

lemma normalizePreviewTargetInput_idem:
  assumes "url_conforms U" "normalizePreviewTargetInput U s = Some n"
  shows "normalizePreviewTargetInput U n = Some n" and "n \<noteq> []"
proof -
  from normalizePreviewTargetInput_SomeD [OF assms(2)] obtain u c
    where u: "U c = Some u" "url_protocol u = ''http:'' \<or> url_protocol u = ''https:''" "is_loopback u"
      "url_username u = []" "url_password u = []" and n: "n = url_toString (preview_url_of u)" by blast
  have supported: "url_protocol u \<in> set SUPPORTED_PROTOCOLS" using u(2) by (auto simp: SUPPORTED_PROTOCOLS_def)
  note law = conformsD [OF assms(1) u(1) supported preview_url_of_reset [OF u(4,5)]]
  obtain r where r: "n = url_protocol u @ r"
    using toString_starts [of "preview_url_of u"] n by (auto simp: preview_url_of_fields)
  then show ne: "n \<noteq> []" using u(2) by auto
  have "preview_candidate n = n" unfolding r by (rule preview_candidate_full) (rule u(2))
  moreover have "trim n = n" "U n = Some (preview_url_of u)" using law by (simp_all add: n trim_no_space)
  ultimately show "normalizePreviewTargetInput U n = Some n"
    using ne u n by (auto simp: normalizePreviewTargetInput_def preview_url_of_fields Let_def)
qed

lemma dedupe_loop_keeps:
  assumes "url_conforms U" "distinct acc" "length acc < MAX_RECENT_TARGETS"
    "\<forall>x\<in>set acc. normalizePreviewTargetInput U x = Some x"
  shows "distinct (dedupe_loop U acc xs) \<and> length (dedupe_loop U acc xs) \<le> MAX_RECENT_TARGETS \<and>
    (\<forall>x\<in>set (dedupe_loop U acc xs). normalizePreviewTargetInput U x = Some x)"
  using assms(2-4)
proof (induction xs arbitrary: acc)
  case (Cons x xs)
  show ?case
  proof (cases "normalizePreviewTargetInput U x")
    case (Some n)
    then have n: "normalizePreviewTargetInput U n = Some n"
      by (rule normalizePreviewTargetInput_idem(1) [OF assms(1)])
    show ?thesis using Some n Cons.prems Cons.IH [of acc] Cons.IH [of "acc @ [n]"] by simp
  qed (use Cons in simp)
qed auto

lemma dedupe_loop_fixed:
  assumes "url_conforms U" "distinct (acc @ xs)" "length (acc @ xs) \<le> MAX_RECENT_TARGETS"
    "\<forall>x\<in>set xs. normalizePreviewTargetInput U x = Some x"
  shows "dedupe_loop U acc xs = acc @ xs"
  using assms(2-4)
proof (induction xs arbitrary: acc)
  case (Cons x xs)
  then have "x \<noteq> []" using normalizePreviewTargetInput_idem(2) [OF assms(1)] by auto
  with Cons.prems Cons.IH [of "acc @ [x]"] show ?case by (cases xs) simp_all
qed auto


section \<open>Private IPv4 addresses\<close>

text \<open>An IPv4 address as the number it stands for, and its dotted notation.\<close>

definition octets :: "32 word \<Rightarrow> nat list" where
  "octets w = map (\<lambda>k. unat (drop_bit k w) mod 256) [24, 16, 8, 0]"

definition dotted :: "32 word \<Rightarrow> string" where
  "dotted w = join ''.'' (map string_of_nat (octets w))"

text \<open>The address block \<open>net/bits\<close>.\<close>

definition in_block :: "32 word \<Rightarrow> nat \<Rightarrow> 32 word \<Rightarrow> bool" where
  "in_block net bits w \<longleftrightarrow> drop_bit (32 - bits) w = drop_bit (32 - bits) net"

definition private_blocks :: "(32 word \<times> nat) list" where
  "private_blocks =
     [(0x0A000000, 8), (0xAC100000, 12), (0xC0A80000, 16), (0xA9FE0000, 16), (0x64400000, 10)]"

lemma split_on_join:
  "xs \<noteq> [] \<Longrightarrow> \<forall>x\<in>set xs. c \<notin> set x \<Longrightarrow> split_on c (join [c] xs) = xs"
proof (induction xs rule: list_nonempty_induct)
  case (single x)
  have "split_on c x = [x]" if "c \<notin> set x" for x using that by (induction x) auto
  with single show ?case by simp
next
  case (cons x xs)
  have "split_on c (x @ c # ys) = x # split_on c ys" if "c \<notin> set x" for x ys using that by (induction x) auto
  with cons show ?case by (cases xs) auto
qed

lemma digit_chars: "c \<in> set (string_of_nat n) \<Longrightarrow> char_digit c \<noteq> None"
  by (auto dest!: string_of_nat_digits)

lemma string_of_octet: "n < 256 \<Longrightarrow> isValidIpv4Octet (string_of_nat n)"
  using nat_of_digits_string_of_nat [of n] string_of_nat_nonempty [of n]
  by (simp add: isValidIpv4Octet_def string_of_nat.simps [of n] string_of_nat.simps [of "n div 10"]
      string_of_nat.simps [of "n div 10 div 10"])

lemma octets_bound: "n \<in> set (octets w) \<Longrightarrow> n < 256"
  by (auto simp: octets_def)

lemma no_dot: "n \<in> set (map string_of_nat (octets w)) \<Longrightarrow> CHR ''.'' \<notin> set n"
  using digit_chars [of "CHR ''.''"] by (auto simp: char_digit_def)

lemma split_dotted: "split_on CHR ''.'' (dotted w) = map string_of_nat (octets w)"
  unfolding dotted_def using no_dot by (intro split_on_join) (auto simp: octets_def)

lemma isPrivateIpv4_dotted: "isPrivateIpv4 (dotted w) \<longleftrightarrow> isPrivateIpv4Prefix (octets w)"
proof -
  have "list_all isValidIpv4Octet (map string_of_nat (octets w))"
    using octets_bound string_of_octet by (auto simp: list_all_iff)
  moreover have "length (octets w) = 4" by (simp add: octets_def)
  ultimately show ?thesis
    by (simp add: isPrivateIpv4_def split_dotted Let_def comp_def nat_of_digits_string_of_nat)
qed

lemma unat_shift: "unat (drop_bit k (w :: 32 word)) = unat w div 2 ^ k"
  by (simp only: unat_drop_bit_eq) (simp add: drop_bit_eq_div)

lemma in_block_unat: "in_block net bits w \<longleftrightarrow> unat w div 2 ^ (32 - bits) = unat net div 2 ^ (32 - bits)"
  by (simp only: in_block_def word_unat_eq_iff unat_shift)

lemma in_block_iff:
  "32 - bits = k \<Longrightarrow> unat net div 2 ^ k = q \<Longrightarrow> in_block net bits w \<longleftrightarrow> unat w div 2 ^ k = q"
  by (simp only: in_block_unat)

text \<open>The four digits of a 32-bit number to the base 256.\<close>

lemma octets_digits:
  fixes w :: "32 word"
  shows "\<exists>a b c d. unat w = ((a * 256 + b) * 256 + c) * 256 + d \<and> a < 256 \<and> b < 256 \<and> c < 256 \<and> d < 256 \<and>
    octets w = [a, b, c, d]"
proof -
  define n where "n = unat w"
  have n: "n < 2 ^ 32" unfolding n_def using unsigned_less [where 'b = 32 and 'a = nat and w = w] by simp
  define a b c d where "a = n div 2 ^ 24" and "b = n div 2 ^ 16 mod 256" and "c = n div 2 ^ 8 mod 256" and "d = n mod 256"
  have "n div 2 ^ 24 = n div 256 div 256 div 256" "n div 2 ^ 16 = n div 256 div 256" "n div 2 ^ 8 = n div 256"
    by (simp_all add: div_mult2_eq [symmetric])
  then have "n = ((a * 256 + b) * 256 + c) * 256 + d" unfolding a_def b_def c_def d_def by simp
  moreover have a: "a < 256" unfolding a_def using n by (simp add: less_mult_imp_div_less)
  moreover have "b < 256" "c < 256" "d < 256" by (simp_all add: b_def c_def d_def)
  moreover have "octets w = [a mod 256, b, c, d]"
    by (simp add: octets_def unat_shift n_def a_def b_def c_def d_def)
  ultimately show ?thesis unfolding n_def [symmetric] by (metis mod_less)
qed

lemma div_eq_bounds: "0 < k \<Longrightarrow> m div k = q \<longleftrightarrow> q * k \<le> m \<and> m < Suc q * k" for m k q :: nat
  using dividend_less_div_times [of k m] by (auto simp: div_nat_eqI mult.commute)

lemma block_range:
  fixes a b x lo hi :: nat
  assumes "b < 256" "lo < 256" "hi \<le> 256"
  shows "x * 256 + lo \<le> a * 256 + b \<and> a * 256 + b < x * 256 + hi \<longleftrightarrow> a = x \<and> lo \<le> b \<and> b < hi"
  using assms by (cases a x rule: linorder_cases) auto

lemma private_prefix_blocks:
  "isPrivateIpv4Prefix (octets w) \<longleftrightarrow> list_ex (\<lambda>(net, bits). in_block net bits w) private_blocks"
proof -
  obtain a b c d where w: "unat w = ((a * 256 + b) * 256 + c) * 256 + d" "b < 256" "c < 256" "d < 256"
    and digits: "octets w = [a, b, c, d]" using octets_digits by blast
  have top: "unat w div 2 ^ 16 = a * 256 + b" using w(3,4) unfolding w(1) by simp
  have shift: "unat w div 2 ^ 24 = (a * 256 + b) div 256" "unat w div 2 ^ 20 = (a * 256 + b) div 16"
    "unat w div 2 ^ 22 = (a * 256 + b) div 64"
    unfolding top [symmetric] by (simp_all add: div_mult2_eq [symmetric])
  have "(a * 256 + b) div 256 = 10 \<longleftrightarrow> a = 10" using w(2) by simp
  moreover have "(a * 256 + b) div 16 = 2753 \<longleftrightarrow> a = 172 \<and> 16 \<le> b \<and> b \<le> 31"
    using block_range [OF w(2), of 16 32 172 a] by (simp add: div_eq_bounds) linarith
  moreover have "(a * 256 + b) div 64 = 401 \<longleftrightarrow> a = 100 \<and> 64 \<le> b \<and> b \<le> 127"
    using block_range [OF w(2), of 64 128 100 a] by (simp add: div_eq_bounds) linarith
  moreover have "a * 256 + b = 49320 \<longleftrightarrow> a = 192 \<and> b = 168"
    using block_range [OF w(2), of 168 169 192 a] by simp linarith
  moreover have "a * 256 + b = 43518 \<longleftrightarrow> a = 169 \<and> b = 254"
    using block_range [OF w(2), of 254 255 169 a] by simp linarith
  moreover have "in_block 0x0A000000 8 w \<longleftrightarrow> unat w div 2 ^ 24 = 10" "in_block 0xAC100000 12 w \<longleftrightarrow> unat w div 2 ^ 20 = 2753"
    "in_block 0xC0A80000 16 w \<longleftrightarrow> unat w div 2 ^ 16 = 49320" "in_block 0xA9FE0000 16 w \<longleftrightarrow> unat w div 2 ^ 16 = 43518"
    "in_block 0x64400000 10 w \<longleftrightarrow> unat w div 2 ^ 22 = 401"
    by (rule in_block_iff; simp)+
  ultimately have "list_ex (\<lambda>(net, bits). in_block net bits w) private_blocks \<longleftrightarrow>
      a = 10 \<or> a = 172 \<and> 16 \<le> b \<and> b \<le> 31 \<or> a = 192 \<and> b = 168 \<or> a = 169 \<and> b = 254 \<or> a = 100 \<and> 64 \<le> b \<and> b \<le> 127"
    by (simp only: private_blocks_def list_ex_iff list.set bex_simps insert_iff prod.case top shift simp_thms)
  then show ?thesis unfolding digits by (simp only: isPrivateIpv4Prefix.simps) auto
qed

lemma dotted_inject: "dotted v = dotted w \<longleftrightarrow> v = w"
proof
  assume "dotted v = dotted w"
  then have "map string_of_nat (octets v) = map string_of_nat (octets w)" by (metis split_dotted)
  then have "octets v = octets w" by (rule map_injective) (simp add: inj_def)
  then have "unat v = unat w" using octets_digits [of v] octets_digits [of w] by auto
  then show "v = w" by (simp add: word_unat_eq_iff)
qed simp

lemma dotted_chars: "c \<in> set (dotted w) \<Longrightarrow> is_digit c \<or> c = CHR ''.''"
  by (auto simp: dotted_def octets_def is_digit_def dest: digit_chars)

lemma lower_digit: "is_digit c \<or> c = CHR ''.'' \<Longrightarrow> lower_char c = c \<and> \<not> is_js_space c \<and> c \<notin> set '':[]lo''"
  by (auto simp: is_digit_def char_digit_def lower_char_def is_js_space_def Let_def split: if_splits)

lemma host_of_dotted:
  "stripIpv6Brackets (to_lower (trim (dotted w))) = dotted w" "dotted w \<noteq> []" "CHR '':'' \<notin> set (dotted w)"
  "isLocalHost (dotted w) \<longleftrightarrow> w = 0x7F000001"
proof -
  have plain: "lower_char c = c \<and> \<not> is_js_space c \<and> c \<notin> set '':[]lo''" if "c \<in> set (dotted w)" for c
    using that dotted_chars lower_digit by blast
  then have "trim (dotted w) = dotted w" by (auto simp: list_all_iff intro: trim_no_space)
  moreover have "to_lower (dotted w) = dotted w" unfolding to_lower_def by (rule map_idI) (use plain in blast)
  moreover show ne: "dotted w \<noteq> []" by (simp add: dotted_def octets_def)
  moreover have "CHR ''['' \<notin> set (dotted w)" "CHR ''l'' \<notin> set (dotted w)" using plain by auto
  ultimately show "stripIpv6Brackets (to_lower (trim (dotted w))) = dotted w"
    by (cases "dotted w") (auto simp: stripIpv6Brackets_def starts_with_def)
  show "CHR '':'' \<notin> set (dotted w)" using plain by auto
  have "dotted 0x7F000001 = ''127.0.0.1''" unfolding dotted_def octets_def unat_shift by simp code_simp
  then have "dotted w = ''127.0.0.1'' \<longleftrightarrow> w = 0x7F000001" by (metis dotted_inject)
  moreover have "\<not> ends_with (dotted w) ''.local''"
  proof
    assume "ends_with (dotted w) ''.local''"
    then have "hd (rev (dotted w)) = CHR ''l''"
      by (cases "rev (dotted w)") (simp_all add: ends_with_def starts_with_def)
    with ne plain show False by (metis hd_in_set list.set_intros(1) list.set_intros(2) rev_is_Nil_conv set_rev)
  qed
  moreover have "dotted w \<noteq> ''localhost''" "dotted w \<noteq> ''::1''" using plain [of "CHR ''l''"] plain [of "CHR '':''"] by auto
  ultimately show "isLocalHost (dotted w) \<longleftrightarrow> w = 0x7F000001" by (simp add: isLocalHost_def)
qed

text \<open>
  Plain HTTP to an IPv4 address is reported as insecure exactly when the address lies outside the
  private blocks 10.0.0.0/8, 172.16.0.0/12, 192.168.0.0/16, the link-local block
  169.254.0.0/16 and the shared block 100.64.0.0/10, and is not 127.0.0.1. The test on the
  octets of the dotted notation decides membership in these blocks of 32-bit addresses.
\<close>

theorem insecure_ipv4:
  assumes "U s = Some u" "url_protocol u = ''http:''" "url_hostname u = dotted w"
  shows "isInsecureRemoteUrl U s \<longleftrightarrow>
    \<not> (list_ex (\<lambda>(net, bits). in_block net bits w) private_blocks \<or> w = 0x7F000001)"
  using assms
  by (auto simp: isInsecureRemoteUrl_def isLikelyPrivateHost_def Let_def host_of_dotted isPrivateIpv4_dotted
      private_prefix_blocks)

definition demo_address :: url where
  "demo_address = \<lparr>url_protocol = ''http:'', url_username = [], url_password = [], url_hostname = ''172.31.255.255'',
     url_port = [], url_pathname = ''/'', url_search = [], url_hash = []\<rparr>"

theorem insecure_ipv4_witness:
  "isInsecureRemoteUrl (\<lambda>_. Some demo_address) ''http://172.31.255.255/'' \<longleftrightarrow>
    \<not> (list_ex (\<lambda>(net, bits). in_block net bits 0xAC1FFFFF) private_blocks \<or> (0xAC1FFFFF :: 32 word) = 0x7F000001)"
proof (rule insecure_ipv4)
  show "url_hostname demo_address = dotted 0xAC1FFFFF"
    unfolding dotted_def octets_def unat_shift demo_address_def by simp code_simp
qed (simp_all add: demo_address_def)

end
