(* ===== verification/AppState.thy ===== *)
theory AppState
  imports BridgeUrl JsonText
begin

text \<open>
  The state that the app keeps between runs: settings (\<^verbatim>\<open>shell/state/appSettings.ts\<close>), bridge profiles
  (\<^verbatim>\<open>shell/state/bridgeProfiles.ts\<close>), push registrations and the reducer over them
  (\<^verbatim>\<open>shell/state/appState/model.ts\<close>, \<^verbatim>\<open>reducer.ts\<close>).

  Values that the code reads with unchecked types are \<^typ>\<open>json\<close>. Where the code copies a value with
  \<open>JSON.parse(JSON.stringify(v))\<close> in memory, the model reads the value itself; the text on disk is
  printed by \<^const>\<open>json_text\<close> and read by \<open>js_parse\<close>. A host sample \<open>app_host\<close> holds what one call
  takes from the host: the clock, the text functions of \<^typ>\<open>js_lib\<close> and a new profile id.
\<close>

record app_host = js_lib +
  host_profileId :: string


section \<open>Bridge profiles\<close>

record bridge_profile =
  bp_id :: string
  bp_name :: string
  bp_bridgeUrl :: string
  bp_bridgeToken :: string
  bp_workspaceId :: "string option"
  bp_createdAt :: string
  bp_updatedAt :: string

record bridge_store =
  bs_activeProfileId :: "string option"
  bs_profiles :: "bridge_profile list"

text \<open>In a draft, \<^const>\<open>None\<close> as \<open>bd_workspaceId\<close> means that the property is absent.\<close>

record bridge_draft =
  bd_id :: "string option"
  bd_name :: "string option"
  bd_bridgeUrl :: string
  bd_bridgeToken :: string
  bd_workspaceId :: "string option option"
  bd_activate :: "bool option"

definition createEmptyBridgeProfileStore :: bridge_store where
  "createEmptyBridgeProfileStore = \<lparr>bs_activeProfileId = None, bs_profiles = []\<rparr>"

definition opt_json :: "string option \<Rightarrow> json" where
  "opt_json v = (case v of None \<Rightarrow> JNull | Some s \<Rightarrow> JStr s)"

definition profile_json :: "bridge_profile \<Rightarrow> json" where
  "profile_json p = JObj
     [(''id'', JStr (bp_id p)), (''name'', JStr (bp_name p)), (''bridgeUrl'', JStr (bp_bridgeUrl p)),
      (''bridgeToken'', JStr (bp_bridgeToken p)), (''workspaceId'', opt_json (bp_workspaceId p)),
      (''createdAt'', JStr (bp_createdAt p)), (''updatedAt'', JStr (bp_updatedAt p))]"

definition store_json :: "bridge_store \<Rightarrow> json" where
  "store_json s = JObj
     [(''activeProfileId'', opt_json (bs_activeProfileId s)), (''profiles'', JArr (map profile_json (bs_profiles s)))]"

text \<open>\<open>normalizeNonEmptyString\<close> and \<open>normalizeNullableString\<close> are the same function of two files.\<close>

definition normalizeNonEmptyString :: "json option \<Rightarrow> string option" where
  "normalizeNonEmptyString v =
     (case v of Some (JStr s) \<Rightarrow> (let trimmed = trim s in if trimmed \<noteq> [] then Some trimmed else None) | _ \<Rightarrow> None)"

definition normalizeBridgeToken :: "json option \<Rightarrow> string option" where
  "normalizeBridgeToken v =
     (case normalizeNonEmptyString v of None \<Rightarrow> None | Some s \<Rightarrow> if length s > 0 then Some s else None)"

text \<open>\<open>/^[A-Za-z0-9._-]+$/\<close>\<close>

definition workspace_char :: "char \<Rightarrow> bool" where
  "workspace_char c \<longleftrightarrow>
     (let n = of_char c :: nat
      in (65 \<le> n \<and> n \<le> 90) \<or> (97 \<le> n \<and> n \<le> 122) \<or> (48 \<le> n \<and> n \<le> 57) \<or> c \<in> set ''._-'')"

definition normalizeWorkspaceId :: "json option \<Rightarrow> string option" where
  "normalizeWorkspaceId v =
     (case normalizeNonEmptyString v of
        None \<Rightarrow> None
      | Some s \<Rightarrow> if length s > 128 \<or> \<not> list_all workspace_char s then None else Some s)"

definition normalizeTimestamp :: "app_host \<Rightarrow> json option \<Rightarrow> string" where
  "normalizeTimestamp h v = (case normalizeNonEmptyString v of Some s \<Rightarrow> s | None \<Rightarrow> js_now h)"

definition deriveBridgeProfileName :: "url_parser \<Rightarrow> string option \<Rightarrow> string \<Rightarrow> string" where
  "deriveBridgeProfileName U value bridgeUrl =
     (let trimmed = (case value of Some s \<Rightarrow> trim s | None \<Rightarrow> [])
      in if trimmed \<noteq> [] then trimmed
         else case U bridgeUrl of
                None \<Rightarrow> ''Bridge''
              | Some parsed \<Rightarrow> (let host = trim (url_hostname parsed) in if host \<noteq> [] then host else ''Bridge''))"

definition normalizeBridgeProfile :: "url_parser \<Rightarrow> app_host \<Rightarrow> json \<Rightarrow> bridge_profile option" where
  "normalizeBridgeProfile U h value =
     (case value of
        JObj record \<Rightarrow>
          (case (normalizeNonEmptyString (map_get record ''id''),
                 case map_get record ''bridgeUrl'' of Some (JStr s) \<Rightarrow> normalizeBridgeUrlInput U s | _ \<Rightarrow> None,
                 normalizeBridgeToken (map_get record ''bridgeToken'')) of
             (Some id', Some bridgeUrl, Some bridgeToken) \<Rightarrow>
               if bridgeUrl = [] then None
               else Some \<lparr>bp_id = id',
                 bp_name = deriveBridgeProfileName U (normalizeNonEmptyString (map_get record ''name'')) bridgeUrl,
                 bp_bridgeUrl = bridgeUrl, bp_bridgeToken = bridgeToken,
                 bp_workspaceId = normalizeWorkspaceId (map_get record ''workspaceId''),
                 bp_createdAt = normalizeTimestamp h (map_get record ''createdAt''),
                 bp_updatedAt = normalizeTimestamp h (map_get record ''updatedAt'')\<rparr>
           | _ \<Rightarrow> None)
      | _ \<Rightarrow> None)"

definition known_profile :: "bridge_profile list \<Rightarrow> string \<Rightarrow> bool" where
  "known_profile profiles id' \<longleftrightarrow> list_ex (\<lambda>p. bp_id p = id') profiles"

definition active_among :: "bridge_profile list \<Rightarrow> string option \<Rightarrow> string option" where
  "active_among profiles active =
     (case active of None \<Rightarrow> None | Some id' \<Rightarrow> if known_profile profiles id' then Some id' else None)"

text \<open>The body of \<open>parseBridgeProfileStore\<close> once the text is read; an array is an object without these fields.\<close>

definition bridge_store_of :: "url_parser \<Rightarrow> app_host \<Rightarrow> json \<Rightarrow> bridge_store" where
  "bridge_store_of U h parsed =
     (case parsed of
        JObj record \<Rightarrow>
          (let profiles = (case map_get record ''profiles'' of
                 Some (JArr xs) \<Rightarrow> List.map_filter (normalizeBridgeProfile U h) xs | _ \<Rightarrow> []);
               active = (case map_get record ''activeProfileId'' of Some (JStr s) \<Rightarrow> Some s | _ \<Rightarrow> None)
           in \<lparr>bs_activeProfileId = active_among profiles active, bs_profiles = profiles\<rparr>)
      | _ \<Rightarrow> createEmptyBridgeProfileStore)"

definition parseBridgeProfileStore :: "url_parser \<Rightarrow> app_host \<Rightarrow> string option \<Rightarrow> bridge_store" where
  "parseBridgeProfileStore U h raw =
     (case raw of
        None \<Rightarrow> createEmptyBridgeProfileStore
      | Some r \<Rightarrow>
          if trim r = [] then createEmptyBridgeProfileStore
          else case js_parse h r of None \<Rightarrow> createEmptyBridgeProfileStore | Some parsed \<Rightarrow> bridge_store_of U h parsed)"

definition sanitizeBridgeProfileStore :: "url_parser \<Rightarrow> app_host \<Rightarrow> bridge_store \<Rightarrow> bridge_store" where
  "sanitizeBridgeProfileStore U h store =
     (let profiles = List.map_filter (\<lambda>p. normalizeBridgeProfile U h (profile_json p)) (bs_profiles store)
      in \<lparr>bs_activeProfileId = active_among profiles (bs_activeProfileId store), bs_profiles = profiles\<rparr>)"

text \<open>\<open>draft.id ? store.profiles.find(...) ?? null : null\<close>: an empty id counts as none.\<close>

definition find_profile :: "bridge_store \<Rightarrow> string option \<Rightarrow> bridge_profile option" where
  "find_profile store id' =
     (case id' of
        None \<Rightarrow> None
      | Some i \<Rightarrow> if i = [] then None else List.find (\<lambda>p. bp_id p = i) (bs_profiles store))"

fun replace_or_push :: "bridge_profile \<Rightarrow> bridge_profile list \<Rightarrow> bridge_profile list" where
  "replace_or_push p [] = [p]"
| "replace_or_push p (q # qs) = (if bp_id q = bp_id p then p # qs else q # replace_or_push p qs)"

definition upsertBridgeProfile ::
  "url_parser \<Rightarrow> app_host \<Rightarrow> bridge_store \<Rightarrow> bridge_draft \<Rightarrow> string + bridge_profile \<times> bridge_store" where
  "upsertBridgeProfile U h store draft =
     (case (normalizeBridgeUrlInput U (bd_bridgeUrl draft), normalizeBridgeToken (Some (JStr (bd_bridgeToken draft)))) of
        (Some url, Some token) \<Rightarrow>
          if url = [] then Inl ''Bridge URL and token are required.''
          else let existing = find_profile store (bd_id draft);
                   now = js_now h;
                   profileId = (case existing of Some e \<Rightarrow> bp_id e | None \<Rightarrow> host_profileId h);
                   nextProfile = \<lparr>bp_id = profileId, bp_name = deriveBridgeProfileName U (bd_name draft) url,
                     bp_bridgeUrl = url, bp_bridgeToken = token,
                     bp_workspaceId = (case bd_workspaceId draft of
                        Some w \<Rightarrow> normalizeWorkspaceId (map_option JStr w)
                      | None \<Rightarrow> Option.bind existing bp_workspaceId),
                     bp_createdAt = (case existing of Some e \<Rightarrow> bp_createdAt e | None \<Rightarrow> now),
                     bp_updatedAt = now\<rparr>
               in Inr (nextProfile, sanitizeBridgeProfileStore U h
                    \<lparr>bs_activeProfileId =
                       (if bd_activate draft = Some False then bs_activeProfileId store else Some profileId),
                     bs_profiles = replace_or_push nextProfile (bs_profiles store)\<rparr>)
      | _ \<Rightarrow> Inl ''Bridge URL and token are required.'')"

definition setActiveBridgeProfile :: "url_parser \<Rightarrow> app_host \<Rightarrow> bridge_store \<Rightarrow> string option \<Rightarrow> bridge_store" where
  "setActiveBridgeProfile U h store profileId =
     (case profileId of
        None \<Rightarrow> store\<lparr>bs_activeProfileId := None\<rparr>
      | Some id' \<Rightarrow>
          if \<not> known_profile (bs_profiles store) id' then sanitizeBridgeProfileStore U h store
          else store\<lparr>bs_activeProfileId := Some id'\<rparr>)"

definition getActiveBridgeProfile :: "bridge_store \<Rightarrow> bridge_profile option" where
  "getActiveBridgeProfile store = find_profile store (bs_activeProfileId store)"


section \<open>Settings\<close>

datatype collaboration_mode = CollabDefault | CollabPlan
datatype approval_mode = ApprovalNormal | ApprovalYolo

record app_settings =
  set_defaultStartCwd :: "string option"
  set_preferredAgentId :: "string option"
  set_agentSettings :: "(string, collaboration_mode) jsmap"
  set_approvalMode :: approval_mode
  set_showToolCalls :: bool
  set_workspaceChatLimit :: "rat option"
  set_recentBrowserTargetUrls :: "string list"

definition APP_SETTINGS_VERSION :: rat where "APP_SETTINGS_VERSION = 13"
definition DEFAULT_WORKSPACE_CHAT_LIMIT :: rat where "DEFAULT_WORKSPACE_CHAT_LIMIT = 5"

definition createDefaultAppSettings :: app_settings where
  "createDefaultAppSettings =
     \<lparr>set_defaultStartCwd = None, set_preferredAgentId = None, set_agentSettings = [],
      set_approvalMode = ApprovalNormal, set_showToolCalls = True,
      set_workspaceChatLimit = Some DEFAULT_WORKSPACE_CHAT_LIMIT, set_recentBrowserTargetUrls = []\<rparr>"

text \<open>\<open>Number.parseInt(s, 10)\<close> of a trimmed string: the longest run of digits after a sign.\<close>

definition parse_int10 :: "string \<Rightarrow> int option" where
  "parse_int10 s =
     (let (sign, rest) = (case s of
            c # cs \<Rightarrow> if c = CHR ''-'' then (-1, cs) else if c = CHR ''+'' then (1, cs) else (1, s)
          | [] \<Rightarrow> (1, []));
          digits = takeWhile is_digit rest
      in if digits = [] then None else map_option (\<lambda>n. sign * int n) (nat_of_digits 0 digits))"

definition normalizeWorkspaceChatLimit :: "json option \<Rightarrow> rat option" where
  "normalizeWorkspaceChatLimit v =
     (if v = Some JNull \<or> v = Some (JStr ''all'') then None
      else let numericValue = (case v of
                 Some (JNum n) \<Rightarrow> Some n
               | Some (JStr s) \<Rightarrow> map_option of_int (parse_int10 (trim s))
               | _ \<Rightarrow> None)
           in if numericValue = Some 10 \<or> numericValue = Some 25 then numericValue
              else if numericValue = Some 5 then Some 5 else Some DEFAULT_WORKSPACE_CHAT_LIMIT)"

definition setting_collaborationMode :: "json option \<Rightarrow> collaboration_mode" where
  "setting_collaborationMode v =
     (case v of Some (JStr s) \<Rightarrow> if to_lower (trim s) = ''plan'' then CollabPlan else CollabDefault | _ \<Rightarrow> CollabDefault)"

text \<open>\<open>Object.entries\<close> and property reads of a value that may be an array.\<close>

definition entries_of :: "json \<Rightarrow> (string, json) jsmap option" where
  "entries_of v =
     (case v of
        JObj m \<Rightarrow> Some m
      | JArr xs \<Rightarrow> Some (zip (map string_of_nat [0..<length xs]) xs)
      | _ \<Rightarrow> None)"

definition add_agent_setting ::
  "string \<times> json \<Rightarrow> (string, collaboration_mode) jsmap \<Rightarrow> (string, collaboration_mode) jsmap" where
  "add_agent_setting e normalized =
     (case (normalizeNonEmptyString (Some (JStr (fst e))), entries_of (snd e)) of
        (Some agentId, Some entry) \<Rightarrow>
          map_put agentId (setting_collaborationMode (map_get entry ''collaborationMode'')) normalized
      | _ \<Rightarrow> normalized)"

definition normalizeAgentSettings :: "json option \<Rightarrow> (string, collaboration_mode) jsmap" where
  "normalizeAgentSettings v =
     (case Option.bind v entries_of of None \<Rightarrow> [] | Some record \<Rightarrow> fold add_agent_setting record [])"

definition normalizeBrowserTargetUrls :: "url_parser \<Rightarrow> json option \<Rightarrow> string list" where
  "normalizeBrowserTargetUrls U v =
     (case v of
        Some (JArr xs) \<Rightarrow>
          dedupeRecentPreviewTargets U
            (List.map_filter (\<lambda>x. case x of JStr s \<Rightarrow> normalizePreviewTargetInput U s | _ \<Rightarrow> None) xs)
      | _ \<Rightarrow> [])"

definition parseAppSettings :: "url_parser \<Rightarrow> json \<Rightarrow> app_settings" where
  "parseAppSettings U parsed =
     (case parsed of
        JObj o' \<Rightarrow>
          if map_get o' ''version'' \<noteq> Some (JNum APP_SETTINGS_VERSION) then createDefaultAppSettings
          else \<lparr>set_defaultStartCwd = normalizeNonEmptyString (map_get o' ''defaultStartCwd''),
                set_preferredAgentId = normalizeNonEmptyString (map_get o' ''preferredAgentId''),
                set_agentSettings = normalizeAgentSettings (map_get o' ''agentSettings''),
                set_approvalMode =
                  (if map_get o' ''approvalMode'' = Some (JStr ''yolo'') then ApprovalYolo else ApprovalNormal),
                set_showToolCalls =
                  (case map_get o' ''showToolCalls'' of None \<Rightarrow> True | Some v \<Rightarrow> v = JBool True),
                set_workspaceChatLimit = normalizeWorkspaceChatLimit (map_get o' ''workspaceChatLimit''),
                set_recentBrowserTargetUrls = normalizeBrowserTargetUrls U (map_get o' ''recentBrowserTargetUrls'')\<rparr>
      | _ \<Rightarrow> createDefaultAppSettings)"

definition SETTING_KEYS :: "string list" where
  "SETTING_KEYS = [''defaultStartCwd'', ''preferredAgentId'', ''agentSettings'', ''approvalMode'', ''showToolCalls'',
     ''workspaceChatLimit'', ''recentBrowserTargetUrls'']"

text \<open>Fields that the record does not have are \<open>undefined\<close>, which \<open>JSON.stringify\<close> leaves out.\<close>

definition normalizeAppSettings :: "url_parser \<Rightarrow> json option \<Rightarrow> app_settings" where
  "normalizeAppSettings U value =
     (let record = (case value of Some (JObj m) \<Rightarrow> m | _ \<Rightarrow> []);
          parsed = parseAppSettings U (JObj ((''version'', JNum APP_SETTINGS_VERSION) #
            List.map_filter (\<lambda>k. map_option (Pair k) (map_get record k)) SETTING_KEYS))
      in parsed\<lparr>set_recentBrowserTargetUrls :=
           dedupeRecentPreviewTargets U
             (List.map_filter (normalizePreviewTargetInput U) (set_recentBrowserTargetUrls parsed))\<rparr>)"

definition collaboration_json :: "collaboration_mode \<Rightarrow> json" where
  "collaboration_json m = JStr (case m of CollabDefault \<Rightarrow> ''default'' | CollabPlan \<Rightarrow> ''plan'')"

definition settings_fields :: "app_settings \<Rightarrow> (string, json) jsmap" where
  "settings_fields s =
     [(''defaultStartCwd'', opt_json (set_defaultStartCwd s)), (''preferredAgentId'', opt_json (set_preferredAgentId s)),
      (''agentSettings'', JObj (map (\<lambda>(a, m). (a, JObj [(''collaborationMode'', collaboration_json m)])) (set_agentSettings s))),
      (''approvalMode'', JStr (case set_approvalMode s of ApprovalNormal \<Rightarrow> ''normal'' | ApprovalYolo \<Rightarrow> ''yolo'')),
      (''showToolCalls'', JBool (set_showToolCalls s)),
      (''workspaceChatLimit'', case set_workspaceChatLimit s of None \<Rightarrow> JNull | Some n \<Rightarrow> JNum n),
      (''recentBrowserTargetUrls'', JArr (map JStr (set_recentBrowserTargetUrls s)))]"


section \<open>Push registrations\<close>

record push_registration =
  pr_profileId :: string
  pr_registrationId :: string
  pr_token :: "string option"

record push_settings =
  push_optedOut :: bool
  push_turnCompleted :: bool
  push_approvalRequested :: bool
  push_registrations :: "push_registration list"

definition createDefaultPushSettings :: push_settings where
  "createDefaultPushSettings =
     \<lparr>push_optedOut = False, push_turnCompleted = True, push_approvalRequested = True, push_registrations = []\<rparr>"

definition toPushRegistration ::
  "bridge_profile list \<Rightarrow> string list \<Rightarrow> string list \<Rightarrow> json \<Rightarrow> push_registration option" where
  "toPushRegistration knownProfiles seenProfiles seenRegistrations value =
     (case entries_of value of
        None \<Rightarrow> None
      | Some registration \<Rightarrow>
          (case (normalizeNonEmptyString (map_get registration ''profileId''),
                 normalizeNonEmptyString (map_get registration ''registrationId'')) of
             (Some profileId, Some registrationId) \<Rightarrow>
               if \<not> known_profile knownProfiles profileId \<or> profileId \<in> set seenProfiles \<or>
                  registrationId \<in> set seenRegistrations then None
               else Some \<lparr>pr_profileId = profileId, pr_registrationId = registrationId,
                      pr_token = normalizeNonEmptyString (map_get registration ''token'')\<rparr>
           | _ \<Rightarrow> None))"

text \<open>The two sets of seen ids are those of the registrations kept so far.\<close>

fun push_registrations_of ::
  "bridge_profile list \<Rightarrow> string list \<Rightarrow> string list \<Rightarrow> json list \<Rightarrow> push_registration list" where
  "push_registrations_of ps seenP seenR [] = []"
| "push_registrations_of ps seenP seenR (v # vs) =
     (case toPushRegistration ps seenP seenR v of
        None \<Rightarrow> push_registrations_of ps seenP seenR vs
      | Some r \<Rightarrow> r # push_registrations_of ps (pr_profileId r # seenP) (pr_registrationId r # seenR) vs)"

definition normalizePushRegistrations :: "json option \<Rightarrow> bridge_store \<Rightarrow> push_registration list" where
  "normalizePushRegistrations value profiles =
     (case value of Some (JArr vs) \<Rightarrow> push_registrations_of (bs_profiles profiles) [] [] vs | _ \<Rightarrow> [])"

definition normalizePushSettings :: "json option \<Rightarrow> bridge_store \<Rightarrow> push_settings" where
  "normalizePushSettings value profiles =
     (let record = (case value of Some (JObj m) \<Rightarrow> m | _ \<Rightarrow> []);
          events = (case map_get record ''events'' of Some (JObj m) \<Rightarrow> m | _ \<Rightarrow> []);
          flag = (\<lambda>key. case map_get events key of Some (JBool b) \<Rightarrow> b | _ \<Rightarrow> True)
      in \<lparr>push_optedOut = (map_get record ''optedOut'' = Some (JBool True)),
          push_turnCompleted = flag ''turnCompleted'', push_approvalRequested = flag ''approvalRequested'',
          push_registrations = normalizePushRegistrations (map_get record ''registrations'') profiles\<rparr>)"

definition registration_json :: "push_registration \<Rightarrow> json" where
  "registration_json r = JObj [(''profileId'', JStr (pr_profileId r)),
     (''registrationId'', JStr (pr_registrationId r)), (''token'', opt_json (pr_token r))]"

definition push_fields :: "push_settings \<Rightarrow> (string, json) jsmap" where
  "push_fields p =
     [(''optedOut'', JBool (push_optedOut p)),
      (''events'', JObj [(''turnCompleted'', JBool (push_turnCompleted p)),
                        (''approvalRequested'', JBool (push_approvalRequested p))]),
      (''registrations'', JArr (map registration_json (push_registrations p)))]"


section \<open>The state and its reducer\<close>

record app_state =
  app_settings :: app_settings
  app_bridgeProfiles :: bridge_store
  app_push :: push_settings

definition APP_STATE_VERSION :: rat where "APP_STATE_VERSION = 3"

definition createDefaultAppStateData :: app_state where
  "createDefaultAppStateData =
     \<lparr>app_settings = createDefaultAppSettings, app_bridgeProfiles = createEmptyBridgeProfileStore,
      app_push = createDefaultPushSettings\<rparr>"

definition normalizeAppStateData ::
  "url_parser \<Rightarrow> app_host \<Rightarrow> json option \<Rightarrow> bridge_store \<Rightarrow> json option \<Rightarrow> app_state" where
  "normalizeAppStateData U h settings profiles push =
     (let bridgeProfiles = bridge_store_of U h (store_json profiles)
      in \<lparr>app_settings = normalizeAppSettings U settings, app_bridgeProfiles = bridgeProfiles,
          app_push = normalizePushSettings push bridgeProfiles\<rparr>)"

datatype app_action =
    SettingsUpdate "(string, json) jsmap"
  | SettingsRememberThread string collaboration_mode
  | ProfilesSave bridge_draft
  | ProfilesSwitch string
  | PushUpdate "(string, json) jsmap"
  | PushEnsureRegistration string string
  | PushRegistered string string string
  | PushUnregistered string string

definition spread_fields :: "(string, json) jsmap \<Rightarrow> (string, json) jsmap \<Rightarrow> (string, json) jsmap" where
  "spread_fields base patch = fold (\<lambda>(k, v). map_put k v) patch base"

definition normalizeRequiredString :: "string \<Rightarrow> string \<Rightarrow> string + string" where
  "normalizeRequiredString value name =
     (case normalizeNonEmptyString (Some (JStr value)) of
        None \<Rightarrow> Inl (name @ '' must not be empty.'') | Some s \<Rightarrow> Inr s)"

definition find_registration :: "app_state \<Rightarrow> string \<Rightarrow> push_registration option" where
  "find_registration state profileId =
     List.find (\<lambda>r. pr_profileId r = profileId) (push_registrations (app_push state))"

definition with_registrations :: "app_state \<Rightarrow> push_registration list \<Rightarrow> app_state" where
  "with_registrations state rs = state\<lparr>app_push := (app_push state)\<lparr>push_registrations := rs\<rparr>\<rparr>"

definition updatePushRegistration :: "app_state \<Rightarrow> string \<Rightarrow> string \<Rightarrow> string \<Rightarrow> string + app_state" where
  "updatePushRegistration state profileId registrationId token =
     (case normalizeRequiredString token ''token'' of
        Inl e \<Rightarrow> Inl e
      | Inr normalizedToken \<Rightarrow>
          (case find_registration state profileId of
             None \<Rightarrow> Inr state
           | Some existing \<Rightarrow>
               if pr_registrationId existing \<noteq> registrationId then Inr state
               else Inr (with_registrations state
                 (map (\<lambda>r. if pr_profileId r = profileId then r\<lparr>pr_token := Some normalizedToken\<rparr> else r)
                   (push_registrations (app_push state))))))"

definition bridge_identity_changed :: "url_parser \<Rightarrow> bridge_profile \<Rightarrow> bridge_draft \<Rightarrow> bool" where
  "bridge_identity_changed U existing draft \<longleftrightarrow>
     Some (bp_bridgeUrl existing) \<noteq> normalizeBridgeUrlInput U (bd_bridgeUrl draft) \<or>
     bp_bridgeToken existing \<noteq> trim (bd_bridgeToken draft)"

definition reduceProfileAction :: "url_parser \<Rightarrow> app_host \<Rightarrow> app_state \<Rightarrow> app_action \<Rightarrow> string + app_state" where
  "reduceProfileAction U h state action =
     (case action of
        ProfilesSave draft \<Rightarrow>
          (let existing = find_profile (app_bridgeProfiles state) (bd_id draft)
           in case upsertBridgeProfile U h (app_bridgeProfiles state) draft of
                Inl e \<Rightarrow> Inl e
              | Inr (profile, store) \<Rightarrow>
                  Inr (let next = state\<lparr>app_bridgeProfiles := store\<rparr>
                       in case existing of
                            None \<Rightarrow> next
                          | Some e \<Rightarrow>
                              if bridge_identity_changed U e draft
                              then with_registrations next
                                (filter (\<lambda>r. pr_profileId r \<noteq> bp_id e) (push_registrations (app_push state)))
                              else next))
      | ProfilesSwitch profileId \<Rightarrow>
          if \<not> known_profile (bs_profiles (app_bridgeProfiles state)) profileId
          then Inl ''The selected bridge profile no longer exists.''
          else Inr (state\<lparr>app_bridgeProfiles := setActiveBridgeProfile U h (app_bridgeProfiles state) (Some profileId)\<rparr>)
      | _ \<Rightarrow> Inr state)"

definition reducePushAction :: "app_state \<Rightarrow> app_action \<Rightarrow> string + app_state" where
  "reducePushAction state action =
     (case action of
        PushUpdate patch \<Rightarrow>
          Inr (state\<lparr>app_push := normalizePushSettings (Some (JObj (spread_fields (push_fields (app_push state)) patch)))
                 (app_bridgeProfiles state)\<rparr>)
      | PushEnsureRegistration profileId registrationId \<Rightarrow>
          if \<not> known_profile (bs_profiles (app_bridgeProfiles state)) profileId then Inr state
          else if find_registration state profileId \<noteq> None then Inr state
          else (case normalizeRequiredString registrationId ''registrationId'' of
                  Inl e \<Rightarrow> Inl e
                | Inr rid \<Rightarrow>
                    Inr (with_registrations state (push_registrations (app_push state) @
                      [\<lparr>pr_profileId = profileId, pr_registrationId = rid, pr_token = None\<rparr>])))
      | PushRegistered profileId registrationId token \<Rightarrow> updatePushRegistration state profileId registrationId token
      | PushUnregistered profileId registrationId \<Rightarrow>
          Inr (with_registrations state
            (filter (\<lambda>r. pr_profileId r \<noteq> profileId \<or> pr_registrationId r \<noteq> registrationId)
              (push_registrations (app_push state))))
      | _ \<Rightarrow> Inr state)"

text \<open>\<open>normalizeCollaborationMode\<close> of \<^verbatim>\<open>model.ts\<close> keeps both values of the type.\<close>

definition appStateReducer :: "url_parser \<Rightarrow> app_host \<Rightarrow> app_state \<Rightarrow> app_action \<Rightarrow> string + app_state" where
  "appStateReducer U h state action =
     (case action of
        SettingsUpdate patch \<Rightarrow>
          Inr (state\<lparr>app_settings :=
            normalizeAppSettings U (Some (JObj (spread_fields (settings_fields (app_settings state)) patch)))\<rparr>)
      | SettingsRememberThread agent mode \<Rightarrow>
          (case normalizeNonEmptyString (Some (JStr agent)) of
             None \<Rightarrow> Inr state
           | Some agentId \<Rightarrow>
               Inr (state\<lparr>app_settings := (app_settings state)
                 \<lparr>set_preferredAgentId := Some agentId,
                  set_agentSettings := map_put agentId mode (set_agentSettings (app_settings state))\<rparr>\<rparr>))
      | ProfilesSave _ \<Rightarrow> reduceProfileAction U h state action
      | ProfilesSwitch _ \<Rightarrow> reduceProfileAction U h state action
      | _ \<Rightarrow> reducePushAction state action)"

definition app_json :: "app_state \<Rightarrow> json" where
  "app_json d = JObj [(''version'', JNum APP_STATE_VERSION), (''settings'', JObj (settings_fields (app_settings d))),
     (''bridgeProfiles'', store_json (app_bridgeProfiles d)), (''push'', JObj (push_fields (app_push d)))]"

definition renormalize :: "url_parser \<Rightarrow> app_host \<Rightarrow> app_state \<Rightarrow> app_state" where
  "renormalize U h data =
     normalizeAppStateData U h (Some (JObj (settings_fields (app_settings data)))) (app_bridgeProfiles data)
       (Some (JObj (push_fields (app_push data))))"

definition serializeAppState :: "url_parser \<Rightarrow> app_host \<Rightarrow> app_state \<Rightarrow> string" where
  "serializeAppState U h data = json_text (js_number h) (app_json (renormalize U h data))"

text \<open>
  Errors while loading are reported as \<open>invalid_data\<close>; \<open>normalizeAppSettings\<close> runs twice, as in
  the code.
\<close>

definition parsePersistedAppState :: "url_parser \<Rightarrow> app_host \<Rightarrow> string \<Rightarrow> string + app_state" where
  "parsePersistedAppState U h raw =
     (case js_parse h raw of
        Some (JObj parsed) \<Rightarrow>
          if map_get parsed ''version'' \<noteq> Some (JNum APP_STATE_VERSION)
          then Inl ''Saved app state is invalid and was not overwritten.''
          else Inr (normalizeAppStateData U h
            (Some (JObj (settings_fields (normalizeAppSettings U (map_get parsed ''settings'')))))
            (bridge_store_of U h (case map_get parsed ''bridgeProfiles'' of Some v \<Rightarrow> v | None \<Rightarrow> JObj []))
            (map_get parsed ''push''))
      | _ \<Rightarrow> Inl ''Saved app state is invalid and was not overwritten.'')"

end
