(* ===== verification/Persistence.thy ===== *)
theory Persistence
  imports AppState
begin

text \<open>
  \<^verbatim>\<open>shell/state/appState/persistenceCoordinator.ts\<close>: the coordinator that publishes the app state and writes
  it to the store of the device.

  The asynchronous methods are cut at their \<open>await\<close>s; a step of the model is the code between two of them,
  and the steps of different calls interleave freely. What waits is part of the state:
  \<^item> the write loop: scheduled by \<open>Promise.resolve().then\<close>, waiting for a write, or closing (the loop has
    returned and the \<open>finally\<close> that resets \<open>writeLoop\<close> has not run yet);
  \<^item> the chain of durable operations, of which the first runs;
  \<^item> the loads started by \<open>initialize\<close>, under the number of their promise;
  \<^item> the calls of \<open>retryPersistence\<close> that wait for the write loop, and those that may go on.
  The callers of \<open>flushPersistence\<close> only learn of an error afterwards and are not recorded. A write takes effect
  when it is reported as done; a write that fails (or has no adapter) leaves the store as it was. An action
  is paired with the host sample of the time when it is reduced.
\<close>

datatype error_code = ReadFailed | InvalidData | WriteFailed
datatype persistence_error = PersistenceError error_code string

datatype loop_phase = LoopIdle | LoopScheduled | LoopWriting app_state string | LoopClosing
datatype load_phase = LoadReading | LoadWriting string
datatype durable_phase = DurableWaiting | DurableInit nat | DurableFlushing | DurableFlushed | DurableWriting app_state string

type_synonym app_request = "app_action \<times> app_host"

record coordinator =
  co_loaded :: bool
  co_data :: app_state
  co_error :: "persistence_error option"
  co_initializePromise :: "nat option"
  co_initializedSuccessfully :: bool
  co_pendingData :: "app_state option"
  co_writeLoop :: loop_phase
  co_durableRequests :: nat
  co_durableChain :: "(app_request \<times> durable_phase) list"
  co_queuedActions :: "app_request list"
  co_loads :: "(nat \<times> load_phase) list"
  co_nextLoad :: nat
  co_retriesWaiting :: nat
  co_retriesReady :: nat
  co_disk :: "string option"

definition initial_coordinator :: "string option \<Rightarrow> coordinator" where
  "initial_coordinator disk =
     \<lparr>co_loaded = False, co_data = createDefaultAppStateData, co_error = None, co_initializePromise = None,
      co_initializedSuccessfully = False, co_pendingData = None, co_writeLoop = LoopIdle, co_durableRequests = 0,
      co_durableChain = [], co_queuedActions = [], co_loads = [], co_nextLoad = 0,
      co_retriesWaiting = 0, co_retriesReady = 0, co_disk = disk\<rparr>"

definition publish :: "app_state \<Rightarrow> persistence_error option \<Rightarrow> coordinator \<Rightarrow> coordinator" where
  "publish data error s = s\<lparr>co_data := data, co_error := error\<rparr>"


section \<open>The write loop\<close>

definition startWriteLoop :: "coordinator \<Rightarrow> coordinator" where
  "startWriteLoop s =
     (if co_writeLoop s \<noteq> LoopIdle \<or> co_pendingData s = None then s else s\<lparr>co_writeLoop := LoopScheduled\<rparr>)"

definition queuePersistence :: "app_state \<Rightarrow> coordinator \<Rightarrow> coordinator" where
  "queuePersistence data s = startWriteLoop (s\<lparr>co_pendingData := Some data\<rparr>)"

text \<open>The test of \<open>while (this.pendingData)\<close> and the start of the write.\<close>

definition loop_body :: "url_parser \<Rightarrow> app_host \<Rightarrow> coordinator \<Rightarrow> coordinator" where
  "loop_body U h s =
     (case co_pendingData s of
        None \<Rightarrow> s\<lparr>co_writeLoop := LoopClosing\<rparr>
      | Some data \<Rightarrow>
          s\<lparr>co_pendingData := None, co_writeLoop := LoopWriting data (serializeAppState U h data)\<rparr>)"

definition loop_written :: "url_parser \<Rightarrow> app_host \<Rightarrow> bool \<Rightarrow> app_state \<Rightarrow> string \<Rightarrow> coordinator \<Rightarrow> coordinator" where
  "loop_written U h ok data raw s =
     (if ok
      then loop_body U h (publish (co_data s) None (s\<lparr>co_disk := Some raw, co_initializedSuccessfully := True\<rparr>))
      else publish (co_data s)
             (Some (PersistenceError WriteFailed ''Settings could not be saved. Retry to persist the latest changes.''))
             (s\<lparr>co_pendingData := (case co_pendingData s of Some p \<Rightarrow> Some p | None \<Rightarrow> Some data),
                co_writeLoop := LoopClosing\<rparr>))"

definition head_phase :: "coordinator \<Rightarrow> durable_phase option" where
  "head_phase s = (case co_durableChain s of [] \<Rightarrow> None | d # _ \<Rightarrow> Some (snd d))"

definition set_head_phase :: "durable_phase \<Rightarrow> coordinator \<Rightarrow> coordinator" where
  "set_head_phase ph s =
     s\<lparr>co_durableChain := (case co_durableChain s of [] \<Rightarrow> [] | (r, _) # ds \<Rightarrow> (r, ph) # ds)\<rparr>"

text \<open>The \<open>finally\<close> of the loop: whoever waits for the loop may go on.\<close>

definition loop_closed :: "coordinator \<Rightarrow> coordinator" where
  "loop_closed s =
     (let s1 = s\<lparr>co_writeLoop := LoopIdle, co_retriesReady := co_retriesReady s + co_retriesWaiting s,
                 co_retriesWaiting := 0\<rparr>
      in if head_phase s1 = Some DurableFlushing then set_head_phase DurableFlushed s1 else s1)"


section \<open>Requests\<close>

definition dispatch :: "url_parser \<Rightarrow> app_request \<Rightarrow> coordinator \<Rightarrow> string + coordinator" where
  "dispatch U r s =
     (if \<not> co_loaded s then Inl ''App state has not loaded.''
      else if co_durableRequests s > 0 then Inr (s\<lparr>co_queuedActions := co_queuedActions s @ [r]\<rparr>)
      else (case appStateReducer U (snd r) (co_data s) (fst r) of
              Inl e \<Rightarrow> Inl e
            | Inr d \<Rightarrow> Inr (queuePersistence d (publish d None s))))"

definition dispatchDurable :: "app_request \<Rightarrow> coordinator \<Rightarrow> coordinator" where
  "dispatchDurable r s =
     s\<lparr>co_durableRequests := co_durableRequests s + 1, co_durableChain := co_durableChain s @ [(r, DurableWaiting)]\<rparr>"

definition start_load :: "coordinator \<Rightarrow> coordinator" where
  "start_load s =
     s\<lparr>co_initializePromise := Some (co_nextLoad s), co_loads := co_loads s @ [(co_nextLoad s, LoadReading)],
       co_nextLoad := co_nextLoad s + 1\<rparr>"

definition initialize :: "coordinator \<Rightarrow> coordinator" where
  "initialize s = (if co_initializePromise s = None then start_load s else s)"

text \<open>What \<open>flushPersistence\<close> does before it waits.\<close>

definition flush_begin :: "coordinator \<Rightarrow> coordinator" where
  "flush_begin s =
     (if co_pendingData s \<noteq> None \<and> co_writeLoop s = LoopIdle then startWriteLoop (publish (co_data s) None s) else s)"

definition retry_resume :: "coordinator \<Rightarrow> coordinator" where
  "retry_resume s = startWriteLoop (publish (co_data s) None (s\<lparr>co_pendingData := Some (co_data s)\<rparr>))"

definition retryPersistence :: "coordinator \<Rightarrow> coordinator" where
  "retryPersistence s =
     (if \<not> co_initializedSuccessfully s then initialize (s\<lparr>co_initializePromise := None\<rparr>)
      else if co_writeLoop s \<noteq> LoopIdle then s\<lparr>co_retriesWaiting := co_retriesWaiting s + 1\<rparr>
      else retry_resume s)"


section \<open>Loading\<close>

definition finish_load :: "nat \<Rightarrow> app_state \<Rightarrow> persistence_error option \<Rightarrow> coordinator \<Rightarrow> coordinator" where
  "finish_load n data error s =
     publish data error (s\<lparr>co_loaded := True, co_loads := map_del n (co_loads s)\<rparr>)"

definition accept_load :: "nat \<Rightarrow> app_state \<Rightarrow> coordinator \<Rightarrow> coordinator" where
  "accept_load n data s =
     finish_load n data None (s\<lparr>co_pendingData := None, co_initializedSuccessfully := True\<rparr>)"

definition load_read :: "url_parser \<Rightarrow> app_host \<Rightarrow> bool \<Rightarrow> nat \<Rightarrow> coordinator \<Rightarrow> coordinator" where
  "load_read U h ok n s =
     (if \<not> ok then finish_load n (co_data s) (Some (PersistenceError ReadFailed ''Could not load saved app state.'')) s
      else (case co_disk s of
              Some raw \<Rightarrow>
                (case parsePersistedAppState U h raw of
                   Inl e \<Rightarrow> finish_load n (co_data s) (Some (PersistenceError InvalidData e)) s
                 | Inr data \<Rightarrow> accept_load n data s)
            | None \<Rightarrow>
                s\<lparr>co_loads := map_put n (LoadWriting (serializeAppState U h createDefaultAppStateData)) (co_loads s)\<rparr>))"

definition load_written :: "bool \<Rightarrow> nat \<Rightarrow> string \<Rightarrow> coordinator \<Rightarrow> coordinator" where
  "load_written ok n raw s =
     (if ok then accept_load n createDefaultAppStateData (s\<lparr>co_disk := Some raw\<rparr>)
      else finish_load n (co_data s) (Some (PersistenceError WriteFailed ''Could not save initial app state.'')) s)"


section \<open>Durable operations\<close>

fun reduce_all :: "url_parser \<Rightarrow> app_state \<Rightarrow> app_request list \<Rightarrow> string + app_state" where
  "reduce_all U d [] = Inr d"
| "reduce_all U d ((a, h) # rs) = (case appStateReducer U h d a of Inl e \<Rightarrow> Inl e | Inr d' \<Rightarrow> reduce_all U d' rs)"

text \<open>\<open>splice(0)\<close> empties the queue before the first action is reduced.\<close>

definition applyQueuedActions :: "url_parser \<Rightarrow> coordinator \<Rightarrow> coordinator" where
  "applyQueuedActions U s =
     (if co_queuedActions s = [] then s
      else let s1 = s\<lparr>co_queuedActions := []\<rparr>
           in case reduce_all U (co_data s) (co_queuedActions s) of
                Inl e \<Rightarrow> s1
              | Inr data \<Rightarrow> queuePersistence data (publish data None s1))"

definition durable_finally :: "url_parser \<Rightarrow> coordinator \<Rightarrow> coordinator" where
  "durable_finally U s =
     (let s1 = s\<lparr>co_durableRequests := co_durableRequests s - 1, co_durableChain := tl (co_durableChain s)\<rparr>
      in if co_durableRequests s1 = 0 then applyQueuedActions U s1 else s1)"

definition durable_flush :: "coordinator \<Rightarrow> coordinator" where
  "durable_flush s =
     (let s1 = flush_begin s
      in set_head_phase (if co_writeLoop s1 = LoopIdle then DurableFlushed else DurableFlushing) s1)"

definition durable_start :: "coordinator \<Rightarrow> coordinator" where
  "durable_start s =
     (if \<not> co_loaded s
      then (let s1 = initialize s in set_head_phase (DurableInit (the (co_initializePromise s1))) s1)
      else durable_flush s)"

definition durable_flushed :: "url_parser \<Rightarrow> app_host \<Rightarrow> app_request \<Rightarrow> coordinator \<Rightarrow> coordinator" where
  "durable_flushed U h r s =
     (if co_error s \<noteq> None then durable_finally U s
      else (case appStateReducer U (snd r) (co_data s) (fst r) of
              Inl e \<Rightarrow> durable_finally U s
            | Inr nextData \<Rightarrow> set_head_phase (DurableWriting nextData (serializeAppState U h nextData)) s))"

definition durable_written :: "url_parser \<Rightarrow> bool \<Rightarrow> app_state \<Rightarrow> string \<Rightarrow> coordinator \<Rightarrow> coordinator" where
  "durable_written U ok nextData raw s =
     durable_finally U
       (if ok then publish nextData None (s\<lparr>co_disk := Some raw, co_initializedSuccessfully := True\<rparr>)
        else publish (co_data s)
               (Some (PersistenceError WriteFailed ''The app-state change was not saved. Please retry.'')) s)"


section \<open>Steps\<close>

datatype coord_event =
    Initialize | Dispatch app_request | DispatchDurable app_request | Retry | Flush
  | LoopRuns app_host | LoopWritten app_host bool | LoopClosed | RetryResumes
  | LoadRead app_host bool nat | LoadWritten bool nat
  | DurableStarts | DurableInitialized | DurableResumes app_host | DurableWritten bool

fun is_request :: "coord_event \<Rightarrow> bool" where
  "is_request Initialize = True" | "is_request (Dispatch r) = True" | "is_request (DispatchDurable r) = True"
| "is_request Retry = True" | "is_request Flush = True" | "is_request e = False"

text \<open>\<^const>\<open>None\<close>: the event cannot happen in this state. A request that throws changes nothing.\<close>

fun coord_step :: "url_parser \<Rightarrow> coordinator \<Rightarrow> coord_event \<Rightarrow> coordinator option" where
  "coord_step U s Initialize = Some (initialize s)"
| "coord_step U s (Dispatch r) = Some (case dispatch U r s of Inl e \<Rightarrow> s | Inr s' \<Rightarrow> s')"
| "coord_step U s (DispatchDurable r) = Some (dispatchDurable r s)"
| "coord_step U s Retry = Some (retryPersistence s)"
| "coord_step U s Flush = Some (flush_begin s)"
| "coord_step U s (LoopRuns h) = (if co_writeLoop s = LoopScheduled then Some (loop_body U h s) else None)"
| "coord_step U s (LoopWritten h ok) =
     (case co_writeLoop s of LoopWriting data raw \<Rightarrow> Some (loop_written U h ok data raw s) | _ \<Rightarrow> None)"
| "coord_step U s LoopClosed = (if co_writeLoop s = LoopClosing then Some (loop_closed s) else None)"
| "coord_step U s RetryResumes =
     (if co_retriesReady s > 0 then Some (retry_resume (s\<lparr>co_retriesReady := co_retriesReady s - 1\<rparr>)) else None)"
| "coord_step U s (LoadRead h ok n) =
     (if map_get (co_loads s) n = Some LoadReading then Some (load_read U h ok n s) else None)"
| "coord_step U s (LoadWritten ok n) =
     (case map_get (co_loads s) n of Some (LoadWriting raw) \<Rightarrow> Some (load_written ok n raw s) | _ \<Rightarrow> None)"
| "coord_step U s DurableStarts = (if head_phase s = Some DurableWaiting then Some (durable_start s) else None)"
| "coord_step U s DurableInitialized =
     (case head_phase s of
        Some (DurableInit n) \<Rightarrow> if map_has (co_loads s) n then None else Some (durable_flush s)
      | _ \<Rightarrow> None)"
| "coord_step U s (DurableResumes h) =
     (case co_durableChain s of (r, DurableFlushed) # _ \<Rightarrow> Some (durable_flushed U h r s) | _ \<Rightarrow> None)"
| "coord_step U s (DurableWritten ok) =
     (case head_phase s of Some (DurableWriting data raw) \<Rightarrow> Some (durable_written U ok data raw s) | _ \<Rightarrow> None)"

inductive coord_reachable :: "url_parser \<Rightarrow> string option \<Rightarrow> coordinator \<Rightarrow> bool" for U disk where
  start: "coord_reachable U disk (initial_coordinator disk)"
| step: "coord_reachable U disk s \<Longrightarrow> coord_step U s e = Some s' \<Longrightarrow> coord_reachable U disk s'"

fun coord_run :: "url_parser \<Rightarrow> coordinator \<Rightarrow> coord_event list \<Rightarrow> coordinator option" where
  "coord_run U s [] = Some s"
| "coord_run U s (e # es) = Option.bind (coord_step U s e) (\<lambda>s'. coord_run U s' es)"

text \<open>Nothing is under way.\<close>

definition settled :: "coordinator \<Rightarrow> bool" where
  "settled s \<longleftrightarrow>
     co_durableChain s = [] \<and> co_queuedActions s = [] \<and> co_writeLoop s = LoopIdle \<and> co_loads s = [] \<and>
     co_retriesWaiting s = 0 \<and> co_retriesReady s = 0"

end
