(* ===== verification/AppStateCorrect.thy ===== *)
theory AppStateCorrect
  imports AppState
begin

text \<open>
  The normal form of the app state: every reader establishes it, every action of the reducer keeps
  it, and a state in normal form that is saved is loaded unchanged.
\<close>

section \<open>Normal forms\<close>

definition plain :: "string \<Rightarrow> bool" where
  "plain s \<longleftrightarrow> s \<noteq> [] \<and> trim s = s"

definition plain_opt :: "string option \<Rightarrow> bool" where
  "plain_opt v \<longleftrightarrow> (case v of None \<Rightarrow> True | Some s \<Rightarrow> plain s)"

definition profile_normal :: "url_parser \<Rightarrow> bridge_profile \<Rightarrow> bool" where
  "profile_normal U p \<longleftrightarrow>
     plain (bp_id p) \<and> plain (bp_name p) \<and> plain (bp_bridgeToken p) \<and>
     normalizeBridgeUrlInput U (bp_bridgeUrl p) = Some (bp_bridgeUrl p) \<and> bp_bridgeUrl p \<noteq> [] \<and>
     normalizeWorkspaceId (map_option JStr (bp_workspaceId p)) = bp_workspaceId p \<and>
     plain (bp_createdAt p) \<and> plain (bp_updatedAt p)"

definition store_normal :: "url_parser \<Rightarrow> bridge_store \<Rightarrow> bool" where
  "store_normal U s \<longleftrightarrow>
     list_all (profile_normal U) (bs_profiles s) \<and>
     active_among (bs_profiles s) (bs_activeProfileId s) = bs_activeProfileId s"

definition settings_normal :: "url_parser \<Rightarrow> app_settings \<Rightarrow> bool" where
  "settings_normal U s \<longleftrightarrow>
     plain_opt (set_defaultStartCwd s) \<and> plain_opt (set_preferredAgentId s) \<and>
     map_wf (set_agentSettings s) \<and> list_all (\<lambda>(a, m). plain a) (set_agentSettings s) \<and>
     set_workspaceChatLimit s \<in> {None, Some 5, Some 10, Some 25} \<and>
     distinct (set_recentBrowserTargetUrls s) \<and> length (set_recentBrowserTargetUrls s) \<le> MAX_RECENT_TARGETS \<and>
     list_all (\<lambda>x. normalizePreviewTargetInput U x = Some x) (set_recentBrowserTargetUrls s)"

definition push_normal :: "bridge_profile list \<Rightarrow> push_settings \<Rightarrow> bool" where
  "push_normal ps p \<longleftrightarrow>
     distinct (map pr_profileId (push_registrations p)) \<and> distinct (map pr_registrationId (push_registrations p)) \<and>
     list_all (\<lambda>r. plain (pr_profileId r) \<and> plain (pr_registrationId r) \<and> plain_opt (pr_token r) \<and>
       known_profile ps (pr_profileId r)) (push_registrations p)"

definition app_normal :: "url_parser \<Rightarrow> app_state \<Rightarrow> bool" where
  "app_normal U d \<longleftrightarrow>
     settings_normal U (app_settings d) \<and> store_normal U (app_bridgeProfiles d) \<and>
     push_normal (bs_profiles (app_bridgeProfiles d)) (app_push d)"

text \<open>The clock prints a time, and a new profile id is not blank.\<close>

definition host_ok :: "app_host \<Rightarrow> bool" where
  "host_ok h \<longleftrightarrow> plain (js_now h) \<and> plain (host_profileId h)"

lemma normalizeNonEmptyString_plain: "plain s \<Longrightarrow> normalizeNonEmptyString (Some (JStr s)) = Some s"
  by (simp add: normalizeNonEmptyString_def plain_def)

lemma normalizeNonEmptyString_SomeD: "normalizeNonEmptyString v = Some s \<Longrightarrow> plain s"
  by (auto simp: normalizeNonEmptyString_def plain_def Let_def split: option.splits json.splits if_splits)

lemma plain_opt_normalize [simp]: "plain_opt (normalizeNonEmptyString v)"
  using normalizeNonEmptyString_SomeD by (auto simp: plain_opt_def split: option.split)

lemma normalize_opt_json: "plain_opt v \<Longrightarrow> normalizeNonEmptyString (Some (opt_json v)) = v"
  by (auto simp: plain_opt_def opt_json_def normalizeNonEmptyString_plain split: option.splits)
     (simp add: normalizeNonEmptyString_def)

lemma normalizeBridgeToken_eq: "normalizeBridgeToken v = normalizeNonEmptyString v"
  by (auto simp: normalizeBridgeToken_def normalizeNonEmptyString_def Let_def split: option.split json.split)


section \<open>Bridge profiles\<close>

lemma normalizeWorkspaceId_SomeD: "normalizeWorkspaceId v = Some s \<Longrightarrow> normalizeWorkspaceId (Some (JStr s)) = Some s"
  using normalizeNonEmptyString_SomeD
  by (auto simp: normalizeWorkspaceId_def normalizeNonEmptyString_plain split: option.splits if_splits)

lemma normalizeWorkspaceId_None [simp]: "normalizeWorkspaceId None = None"
  by (simp add: normalizeWorkspaceId_def normalizeNonEmptyString_def)

lemma workspace_stable: "normalizeWorkspaceId (map_option JStr (normalizeWorkspaceId v)) = normalizeWorkspaceId v"
  by (cases "normalizeWorkspaceId v") (auto dest: normalizeWorkspaceId_SomeD)

lemma workspace_opt_json: "normalizeWorkspaceId (Some (opt_json w)) = normalizeWorkspaceId (map_option JStr w)"
  by (cases w) (simp_all add: opt_json_def normalizeWorkspaceId_def normalizeNonEmptyString_def)

lemma deriveBridgeProfileName_plain: "plain (deriveBridgeProfileName U v url)"
proof -
  have "trim ''Bridge'' = ''Bridge''" by code_simp
  then show ?thesis by (auto simp: deriveBridgeProfileName_def plain_def Let_def split: option.split)
qed

lemma deriveBridgeProfileName_keeps: "plain n \<Longrightarrow> deriveBridgeProfileName U (Some n) url = n"
  by (simp add: deriveBridgeProfileName_def plain_def)

lemma normalizeBridgeProfile_SomeD:
  assumes "url_conforms U" "host_ok h" "normalizeBridgeProfile U h v = Some p"
  shows "profile_normal U p"
proof -
  have time: "plain (normalizeTimestamp h t)" for t
    using assms(2) normalizeNonEmptyString_SomeD by (auto simp: normalizeTimestamp_def host_ok_def split: option.split)
  show ?thesis
    using assms(3) normalizeBridgeUrlInput_idem [OF assms(1)] time
    by (auto simp: normalizeBridgeProfile_def profile_normal_def normalizeBridgeToken_eq workspace_stable
        deriveBridgeProfileName_plain dest: normalizeNonEmptyString_SomeD
        split: json.splits option.splits if_splits)
qed

lemma normalizeBridgeProfile_normal:
  assumes "profile_normal U p"
  shows "normalizeBridgeProfile U h (profile_json p) = Some p"
  using assms
  by (simp add: normalizeBridgeProfile_def profile_json_def profile_normal_def normalizeBridgeToken_eq
      normalizeNonEmptyString_plain deriveBridgeProfileName_keeps workspace_opt_json normalizeTimestamp_def)

lemma map_filter_id: "(\<And>x. x \<in> set xs \<Longrightarrow> f x = Some x) \<Longrightarrow> List.map_filter f xs = xs"
  by (induction xs) (simp_all add: List.map_filter_simps)

lemma map_filter_map: "List.map_filter f (map g xs) = List.map_filter (f \<circ> g) xs"
  by (induction xs) (simp_all add: List.map_filter_simps split: option.split)

lemma set_map_filter: "y \<in> set (List.map_filter f xs) \<longleftrightarrow> (\<exists>x\<in>set xs. f x = Some y)"
  by (induction xs) (auto simp: List.map_filter_simps split: option.splits)

lemma active_among_idem [simp]: "active_among ps (active_among ps a) = active_among ps a"
  by (auto simp: active_among_def split: option.split)

lemma bridge_store_of_fixed:
  assumes "store_normal U s"
  shows "bridge_store_of U h (store_json s) = s"
proof -
  have "List.map_filter (normalizeBridgeProfile U h) (map profile_json (bs_profiles s)) = bs_profiles s"
    unfolding map_filter_map
    using assms by (intro map_filter_id) (auto simp: store_normal_def list_all_iff normalizeBridgeProfile_normal)
  moreover have "(case opt_json a of JStr s \<Rightarrow> Some s | _ \<Rightarrow> None) = a" for a
    by (simp add: opt_json_def split: option.split)
  ultimately show ?thesis
    using assms by (simp add: bridge_store_of_def store_json_def store_normal_def)
qed

lemma bridge_store_of_normal:
  assumes "url_conforms U" "host_ok h"
  shows "store_normal U (bridge_store_of U h v)"
  using normalizeBridgeProfile_SomeD [OF assms]
  by (auto simp: bridge_store_of_def store_normal_def Let_def list_all_iff set_map_filter
      createEmptyBridgeProfileStore_def active_among_def split: json.split option.split)

lemma sanitize_normal:
  assumes "list_all (profile_normal U) (bs_profiles s)"
  shows "sanitizeBridgeProfileStore U h s = s\<lparr>bs_activeProfileId := active_among (bs_profiles s) (bs_activeProfileId s)\<rparr>"
proof -
  have "List.map_filter (\<lambda>p. normalizeBridgeProfile U h (profile_json p)) (bs_profiles s) = bs_profiles s"
    using assms by (intro map_filter_id) (auto simp: list_all_iff normalizeBridgeProfile_normal)
  then show ?thesis by (simp add: sanitizeBridgeProfileStore_def Let_def)
qed


section \<open>Settings\<close>

lemma add_agent_setting_keeps:
  assumes "map_wf m" "list_all (\<lambda>(a, x). plain a) m"
  shows "map_wf (add_agent_setting e m) \<and> list_all (\<lambda>(a, x). plain a) (add_agent_setting e m)"
  using assms set_map_put
  by (fastforce simp: add_agent_setting_def list_all_iff dest: normalizeNonEmptyString_SomeD split: option.split)

lemma normalizeAgentSettings_normal:
  "map_wf (normalizeAgentSettings v) \<and> list_all (\<lambda>(a, x). plain a) (normalizeAgentSettings v)"
proof -
  have "map_wf (fold add_agent_setting es m) \<and> list_all (\<lambda>(a, x). plain a) (fold add_agent_setting es m)"
    if "map_wf m" "list_all (\<lambda>(a, x). plain a) m" for es m
    using that by (induction es arbitrary: m) (auto simp: add_agent_setting_keeps)
  then show ?thesis by (simp add: normalizeAgentSettings_def split: option.split)
qed

abbreviation agent_entry :: "string \<times> collaboration_mode \<Rightarrow> string \<times> json" where
  "agent_entry \<equiv> \<lambda>(a, m). (a, JObj [(''collaborationMode'', collaboration_json m)])"

lemma setting_collaborationMode_json [simp]: "setting_collaborationMode (Some (collaboration_json m)) = m"
  by (cases m) (simp_all add: collaboration_json_def, code_simp+)

lemma fold_agent_settings:
  "map_wf (acc @ as) \<Longrightarrow> list_all (\<lambda>(a, m). plain a) as \<Longrightarrow> fold add_agent_setting (map agent_entry as) acc = acc @ as"
proof (induction as arbitrary: acc)
  case (Cons e as)
  obtain a m where e: "e = (a, m)" by force
  have "add_agent_setting (agent_entry e) acc = acc @ [e]"
    using Cons.prems
    by (auto simp: e add_agent_setting_def normalizeNonEmptyString_plain entries_of_def map_put_absent map_of_eq_None_iff)
  then show ?case using Cons.prems Cons.IH [of "acc @ [e]"] by (simp add: e)
qed simp

lemma normalizeWorkspaceChatLimit_range:
  "normalizeWorkspaceChatLimit v \<in> {None, Some 5, Some 10, Some 25}"
  by (auto simp: normalizeWorkspaceChatLimit_def DEFAULT_WORKSPACE_CHAT_LIMIT_def Let_def)

lemma dedupe_normal:
  assumes "url_conforms U"
  shows "distinct (dedupeRecentPreviewTargets U xs)" "length (dedupeRecentPreviewTargets U xs) \<le> MAX_RECENT_TARGETS"
    "list_all (\<lambda>x. normalizePreviewTargetInput U x = Some x) (dedupeRecentPreviewTargets U xs)"
  using dedupe_loop_keeps [OF assms, of "[]" xs]
  by (auto simp: dedupeRecentPreviewTargets_def MAX_RECENT_TARGETS_def list_all_iff)

lemma dedupe_fixed:
  assumes "url_conforms U" "distinct xs" "length xs \<le> MAX_RECENT_TARGETS"
    "list_all (\<lambda>x. normalizePreviewTargetInput U x = Some x) xs"
  shows "dedupeRecentPreviewTargets U xs = xs"
  using dedupe_loop_fixed [OF assms(1), of "[]" xs] assms(2-4)
  by (simp add: dedupeRecentPreviewTargets_def list_all_iff)

lemma parseAppSettings_normal:
  assumes "url_conforms U"
  shows "settings_normal U (parseAppSettings U v)"
  using normalizeAgentSettings_normal normalizeWorkspaceChatLimit_range dedupe_normal [OF assms]
  by (auto simp: parseAppSettings_def settings_normal_def createDefaultAppSettings_def plain_opt_def
      DEFAULT_WORKSPACE_CHAT_LIMIT_def normalizeBrowserTargetUrls_def split: json.split option.split
      dest: normalizeNonEmptyString_SomeD)

lemma normalizeAppSettings_normal:
  assumes "url_conforms U"
  shows "settings_normal U (normalizeAppSettings U v)"
  using parseAppSettings_normal [OF assms] dedupe_normal [OF assms]
  by (simp add: normalizeAppSettings_def settings_normal_def Let_def)

lemma normalizeAppSettings_fixed:
  assumes "url_conforms U" "settings_normal U s"
  shows "normalizeAppSettings U (Some (JObj (settings_fields s))) = s"
proof -
  note s = assms(2) [unfolded settings_normal_def]
  have recent: "List.map_filter (normalizePreviewTargetInput U) (set_recentBrowserTargetUrls s) = set_recentBrowserTargetUrls s"
    using s by (intro map_filter_id) (auto simp: list_all_iff)
  then have "normalizeBrowserTargetUrls U (Some (JArr (map JStr (set_recentBrowserTargetUrls s)))) = set_recentBrowserTargetUrls s"
    using s by (simp add: normalizeBrowserTargetUrls_def map_filter_map comp_def dedupe_fixed [OF assms(1)])
  moreover have "normalizeAgentSettings (Some (JObj (map agent_entry (set_agentSettings s)))) = set_agentSettings s"
    using s fold_agent_settings [of "[]"] by (simp add: normalizeAgentSettings_def entries_of_def)
  moreover have "normalizeWorkspaceChatLimit (Some (case set_workspaceChatLimit s of None \<Rightarrow> JNull | Some n \<Rightarrow> JNum n))
      = set_workspaceChatLimit s"
    using s by (auto simp: normalizeWorkspaceChatLimit_def)
  ultimately show ?thesis
    using s recent
    by (cases "set_approvalMode s")
       (simp_all add: normalizeAppSettings_def parseAppSettings_def settings_fields_def SETTING_KEYS_def Let_def
        List.map_filter_simps normalize_opt_json dedupe_fixed [OF assms(1)])
qed


section \<open>Push registrations\<close>

lemma toPushRegistration_SomeD:
  assumes "toPushRegistration ps seenP seenR v = Some r"
  shows "plain (pr_profileId r) \<and> plain (pr_registrationId r) \<and> plain_opt (pr_token r) \<and> known_profile ps (pr_profileId r)"
    "pr_profileId r \<notin> set seenP" "pr_registrationId r \<notin> set seenR"
  using assms by (auto simp: toPushRegistration_def dest: normalizeNonEmptyString_SomeD split: option.splits if_splits)

lemma push_registrations_of_normal:
  fixes rs
  defines "rs ps seenP seenR vs \<equiv> push_registrations_of ps seenP seenR vs"
  shows "distinct (map pr_profileId (rs ps seenP seenR vs)) \<and> distinct (map pr_registrationId (rs ps seenP seenR vs)) \<and>
    set (map pr_profileId (rs ps seenP seenR vs)) \<inter> set seenP = {} \<and>
    set (map pr_registrationId (rs ps seenP seenR vs)) \<inter> set seenR = {} \<and>
    list_all (\<lambda>r. plain (pr_profileId r) \<and> plain (pr_registrationId r) \<and> plain_opt (pr_token r) \<and>
      known_profile ps (pr_profileId r)) (rs ps seenP seenR vs)"
  unfolding rs_def
proof (induction vs arbitrary: seenP seenR)
  case (Cons v vs)
  show ?case
  proof (cases "toPushRegistration ps seenP seenR v")
    case (Some r)
    then show ?thesis
      using toPushRegistration_SomeD [OF Some] Cons.IH [of "pr_profileId r # seenP" "pr_registrationId r # seenR"]
      by auto
  qed (use Cons.IH [of seenP seenR] in simp)
qed simp

lemma normalizePushSettings_normal: "push_normal (bs_profiles s) (normalizePushSettings v s)"
  using push_registrations_of_normal [of "bs_profiles s" "[]" "[]"]
  by (simp add: normalizePushSettings_def normalizePushRegistrations_def push_normal_def Let_def
      split: option.split json.split)

lemma push_registrations_of_fixed:
  assumes "distinct (map pr_profileId rs)" "distinct (map pr_registrationId rs)"
    "set (map pr_profileId rs) \<inter> set seenP = {}" "set (map pr_registrationId rs) \<inter> set seenR = {}"
    "list_all (\<lambda>r. plain (pr_profileId r) \<and> plain (pr_registrationId r) \<and> plain_opt (pr_token r) \<and>
      known_profile ps (pr_profileId r)) rs"
  shows "push_registrations_of ps seenP seenR (map registration_json rs) = rs"
  using assms
proof (induction rs arbitrary: seenP seenR)
  case (Cons r rs)
  then have "toPushRegistration ps seenP seenR (registration_json r) = Some r"
    by (simp add: toPushRegistration_def registration_json_def entries_of_def normalizeNonEmptyString_plain normalize_opt_json)
  with Cons.prems Cons.IH [of "pr_profileId r # seenP" "pr_registrationId r # seenR"] show ?case by auto
qed simp

lemma normalizePushSettings_fixed:
  assumes "push_normal (bs_profiles s) p"
  shows "normalizePushSettings (Some (JObj (push_fields p))) s = p"
  using assms push_registrations_of_fixed [of "push_registrations p" "[]" "[]" "bs_profiles s"]
  by (simp add: normalizePushSettings_def push_fields_def normalizePushRegistrations_def push_normal_def Let_def)


section \<open>The reducer\<close>

lemma known_replace_or_push [simp]:
  "known_profile (replace_or_push p qs) i \<longleftrightarrow> known_profile qs i \<or> i = bp_id p"
  by (induction qs) (auto simp: known_profile_def)

lemma list_all_replace_or_push: "P p \<Longrightarrow> list_all P qs \<Longrightarrow> list_all P (replace_or_push p qs)"
  by (induction qs) auto

lemma find_profile_normal:
  assumes "store_normal U s" "find_profile s i = Some p"
  shows "profile_normal U p" "known_profile (bs_profiles s) (bp_id p)" "i = Some (bp_id p)"
  using assms
  by (auto simp: find_profile_def store_normal_def list_all_iff known_profile_def list_ex_iff find_Some_iff
      split: option.splits if_splits)

lemma upsertBridgeProfile_normal:
  assumes "url_conforms U" "host_ok h" "store_normal U s" "upsertBridgeProfile U h s draft = Inr (p, s')"
  shows "profile_normal U p" "store_normal U s'" "bs_profiles s' = replace_or_push p (bs_profiles s)"
    "bs_activeProfileId s' =
      (if bd_activate draft = Some False then active_among (bs_profiles s') (bs_activeProfileId s) else Some (bp_id p))"
    "bp_id p = (case find_profile s (bd_id draft) of Some e \<Rightarrow> bp_id e | None \<Rightarrow> host_profileId h)"
    "normalizeBridgeUrlInput U (bd_bridgeUrl draft) = Some (bp_bridgeUrl p)" "bp_bridgeToken p = trim (bd_bridgeToken draft)"
proof -
  obtain url token where draft: "normalizeBridgeUrlInput U (bd_bridgeUrl draft) = Some url"
      "normalizeNonEmptyString (Some (JStr (bd_bridgeToken draft))) = Some token" "url \<noteq> []"
    and p: "p = \<lparr>bp_id = (case find_profile s (bd_id draft) of Some e \<Rightarrow> bp_id e | None \<Rightarrow> host_profileId h),
        bp_name = deriveBridgeProfileName U (bd_name draft) url, bp_bridgeUrl = url, bp_bridgeToken = token,
        bp_workspaceId = (case bd_workspaceId draft of Some w \<Rightarrow> normalizeWorkspaceId (map_option JStr w)
          | None \<Rightarrow> Option.bind (find_profile s (bd_id draft)) bp_workspaceId),
        bp_createdAt = (case find_profile s (bd_id draft) of Some e \<Rightarrow> bp_createdAt e | None \<Rightarrow> js_now h),
        bp_updatedAt = js_now h\<rparr>"
    and s': "s' = sanitizeBridgeProfileStore U h
        \<lparr>bs_activeProfileId = (if bd_activate draft = Some False then bs_activeProfileId s else Some (bp_id p)),
         bs_profiles = replace_or_push p (bs_profiles s)\<rparr>"
    using assms(4)
    by (auto simp: upsertBridgeProfile_def normalizeBridgeToken_eq Let_def split: option.splits if_splits)
  show normal: "profile_normal U p"
    using draft assms(2) find_profile_normal(1) [OF assms(3)] normalizeBridgeUrlInput_idem(1) [OF assms(1) draft(1)]
      normalizeNonEmptyString_SomeD [OF draft(2)]
    by (auto simp: p profile_normal_def deriveBridgeProfileName_plain host_ok_def workspace_stable
        split: option.split bind_splits)
  then have "list_all (profile_normal U) (replace_or_push p (bs_profiles s))"
    using assms(3) by (intro list_all_replace_or_push) (auto simp: store_normal_def)
  then have "s' = \<lparr>bs_activeProfileId = active_among (replace_or_push p (bs_profiles s))
        (if bd_activate draft = Some False then bs_activeProfileId s else Some (bp_id p)),
      bs_profiles = replace_or_push p (bs_profiles s)\<rparr>" "list_all (profile_normal U) (bs_profiles s')"
    by (simp_all add: s' sanitize_normal)
  then show "store_normal U s'" "bs_profiles s' = replace_or_push p (bs_profiles s)"
    "bs_activeProfileId s' =
      (if bd_activate draft = Some False then active_among (bs_profiles s') (bs_activeProfileId s) else Some (bp_id p))"
    by (auto simp: store_normal_def) (simp add: active_among_def)
  show "bp_id p = (case find_profile s (bd_id draft) of Some e \<Rightarrow> bp_id e | None \<Rightarrow> host_profileId h)"
    "normalizeBridgeUrlInput U (bd_bridgeUrl draft) = Some (bp_bridgeUrl p)" "bp_bridgeToken p = trim (bd_bridgeToken draft)"
    using draft by (auto simp: p normalizeNonEmptyString_def Let_def split: if_splits)
qed

lemma push_normal_mono:
  "push_normal ps p \<Longrightarrow> (\<And>i. known_profile ps i \<Longrightarrow> known_profile qs i) \<Longrightarrow> push_normal qs p"
  by (auto simp: push_normal_def list_all_iff)

lemma push_normal_filter:
  "push_normal ps p \<Longrightarrow> push_normal ps (p\<lparr>push_registrations := filter P (push_registrations p)\<rparr>)"
  by (auto simp: push_normal_def list_all_iff distinct_map inj_on_def)

lemma push_normal_retoken:
  assumes "push_normal ps p" "plain tok"
  shows "push_normal ps (p\<lparr>push_registrations :=
    map (\<lambda>r. if pr_profileId r = i then r\<lparr>pr_token := Some tok\<rparr> else r) (push_registrations p)\<rparr>)"
proof -
  let ?f = "\<lambda>r :: push_registration. if pr_profileId r = i then r\<lparr>pr_token := Some tok\<rparr> else r"
  have "map pr_profileId (map ?f rs) = map pr_profileId rs" "map pr_registrationId (map ?f rs) = map pr_registrationId rs"
    for rs by (induction rs) auto
  moreover have "plain_opt (Some tok)" using assms(2) by (simp add: plain_opt_def)
  ultimately show ?thesis using assms(1) by (auto simp: push_normal_def list_all_iff simp del: map_map)
qed

text \<open>A registration is added under an id that no other registration has.\<close>

definition action_fresh :: "app_state \<Rightarrow> app_action \<Rightarrow> bool" where
  "action_fresh d a \<longleftrightarrow>
     (case a of
        PushEnsureRegistration i r \<Rightarrow> trim r \<notin> set (map pr_registrationId (push_registrations (app_push d)))
      | _ \<Rightarrow> True)"

lemma settings_remember_normal:
  assumes "settings_normal U s" "plain a"
  shows "settings_normal U (s\<lparr>set_preferredAgentId := Some a, set_agentSettings := map_put a m (set_agentSettings s)\<rparr>)"
  using assms set_map_put [of a m "set_agentSettings s"] by (fastforce simp: settings_normal_def plain_opt_def list_all_iff)

lemma normalizeRequiredString_InrD: "normalizeRequiredString v n = Inr s \<Longrightarrow> plain s \<and> s = trim v"
  by (auto simp: normalizeRequiredString_def normalizeNonEmptyString_def plain_def Let_def split: option.splits if_splits)

lemma reduce_push_normal:
  assumes "app_normal U d" "action_fresh d a" "reducePushAction d a = Inr d'"
  shows "app_normal U d'"
proof (cases a)
  case (PushEnsureRegistration i r)
  have "plain i" if "known_profile (bs_profiles (app_bridgeProfiles d)) i"
    using that assms(1) by (auto simp: app_normal_def store_normal_def known_profile_def list_all_iff list_ex_iff profile_normal_def)
  moreover have "i \<notin> set (map pr_profileId (push_registrations (app_push d)))" if "find_registration d i = None"
    using that by (auto simp: find_registration_def find_None_iff)
  ultimately show ?thesis
    using assms
    by (auto simp: PushEnsureRegistration reducePushAction_def app_normal_def action_fresh_def with_registrations_def
        push_normal_def plain_opt_def dest!: normalizeRequiredString_InrD split: if_splits sum.splits)
next
  case (PushRegistered i r tok)
  then show ?thesis
    using assms push_normal_retoken
    by (auto simp: reducePushAction_def updatePushRegistration_def app_normal_def with_registrations_def
        dest!: normalizeRequiredString_InrD split: if_splits sum.splits option.splits)
qed (use assms push_normal_filter normalizePushSettings_normal in
      \<open>auto simp: reducePushAction_def app_normal_def with_registrations_def\<close>)

lemma reduce_profile_normal:
  assumes "url_conforms U" "host_ok h" "app_normal U d" "reduceProfileAction U h d a = Inr d'"
  shows "app_normal U d'"
proof (cases a)
  case (ProfilesSave draft)
  with assms(4) obtain p s' where up: "upsertBridgeProfile U h (app_bridgeProfiles d) draft = Inr (p, s')"
    by (auto simp: reduceProfileAction_def Let_def split: sum.splits)
  note facts = upsertBridgeProfile_normal [OF assms(1,2) _ up]
  have store: "store_normal U (app_bridgeProfiles d)" using assms(3) by (simp add: app_normal_def)
  have "push_normal (bs_profiles s') (app_push d)"
    using assms(3) by (auto simp: app_normal_def facts(3) [OF store] intro: push_normal_mono)
  with facts(2) [OF store] assms(3,4) show ?thesis
    by (auto simp: ProfilesSave reduceProfileAction_def up app_normal_def with_registrations_def Let_def
        intro: push_normal_filter split: option.splits if_splits)
next
  case (ProfilesSwitch i)
  with assms(3,4) show ?thesis
    by (auto simp: reduceProfileAction_def setActiveBridgeProfile_def app_normal_def store_normal_def active_among_def
        split: if_splits)
qed (use assms in \<open>auto simp: reduceProfileAction_def\<close>)

lemma reducer_normal:
  assumes "url_conforms U" "host_ok h" "app_normal U d" "action_fresh d a" "appStateReducer U h d a = Inr d'"
  shows "app_normal U d'"
proof (cases a)
  case (SettingsUpdate patch)
  with assms show ?thesis by (auto simp: appStateReducer_def app_normal_def normalizeAppSettings_normal)
next
  case (SettingsRememberThread agent mode)
  with assms show ?thesis
    by (auto simp: appStateReducer_def app_normal_def settings_remember_normal dest: normalizeNonEmptyString_SomeD
        split: option.splits)
qed (insert reduce_push_normal [OF assms(3,4)] reduce_profile_normal [OF assms(1-3)] assms(5),
     auto simp: appStateReducer_def)

lemma default_normal: "app_normal U createDefaultAppStateData"
  by (simp add: app_normal_def createDefaultAppStateData_def settings_normal_def createDefaultAppSettings_def
      store_normal_def createEmptyBridgeProfileStore_def push_normal_def createDefaultPushSettings_def plain_opt_def
      active_among_def DEFAULT_WORKSPACE_CHAT_LIMIT_def)

lemma renormalize_fixed:
  "url_conforms U \<Longrightarrow> app_normal U d \<Longrightarrow> renormalize U h d = d"
  by (simp add: renormalize_def normalizeAppStateData_def app_normal_def bridge_store_of_fixed normalizeAppSettings_fixed
      normalizePushSettings_fixed)

lemma parsed_normal:
  assumes "url_conforms U" "host_ok h" "parsePersistedAppState U h raw = Inr d"
  shows "app_normal U d"
proof -
  have "app_normal U (normalizeAppStateData U h s ps p)" for s ps p
    by (simp add: app_normal_def normalizeAppStateData_def normalizeAppSettings_normal [OF assms(1)]
        bridge_store_of_normal [OF assms(1,2)] normalizePushSettings_normal Let_def)
  with assms(3) show ?thesis by (auto simp: parsePersistedAppState_def split: option.splits json.splits if_splits)
qed


section \<open>Sessions\<close>

text \<open>Actions one after the other; an action that throws leaves the state as it was.\<close>

fun app_run :: "url_parser \<Rightarrow> app_state \<Rightarrow> (app_host \<times> app_action) list \<Rightarrow> app_state" where
  "app_run U d [] = d"
| "app_run U d ((h, a) # xs) =
     (case appStateReducer U h d a of Inl e \<Rightarrow> app_run U d xs | Inr d' \<Rightarrow> app_run U d' xs)"

fun fresh_run :: "url_parser \<Rightarrow> app_state \<Rightarrow> (app_host \<times> app_action) list \<Rightarrow> bool" where
  "fresh_run U d [] = True"
| "fresh_run U d ((h, a) # xs) =
     (host_ok h \<and> action_fresh d a \<and>
      (case appStateReducer U h d a of Inl e \<Rightarrow> fresh_run U d xs | Inr d' \<Rightarrow> fresh_run U d' xs))"

lemma app_run_normal:
  assumes "url_conforms U"
  shows "app_normal U d \<Longrightarrow> fresh_run U d xs \<Longrightarrow> app_normal U (app_run U d xs)"
proof (induction xs arbitrary: d)
  case (Cons x xs)
  obtain h a where x: "x = (h, a)" by force
  show ?case
  proof (cases "appStateReducer U h d a")
    case (Inr d')
    moreover have "app_normal U d'"
      by (rule reducer_normal [OF assms _ Cons.prems(1) _ Inr]) (use Cons.prems in \<open>simp_all add: x\<close>)
    ultimately show ?thesis using Cons by (simp add: x)
  qed (use Cons in \<open>simp add: x\<close>)
qed simp

text \<open>
  C14. A session survives a restart. Whatever actions run, from the default state or from any saved
  file that is accepted, the state at the end is saved and loaded again unchanged: settings,
  profiles, active profile and push registrations, in their order. The registration ids
  that are added are new, and the text that is written is parsed as what was printed.
\<close>

theorem app_state_survives_restart:
  assumes "url_conforms U" "host_ok h"
    and "d = createDefaultAppStateData \<or> parsePersistedAppState U h raw = Inr d" "fresh_run U d xs"
    and "js_parse h' (json_text (js_number h') (app_json (app_run U d xs))) = Some (app_json (app_run U d xs))"
  shows "parsePersistedAppState U h' (serializeAppState U h' (app_run U d xs)) = Inr (app_run U d xs)"
proof -
  have "app_normal U d" using assms(1-3) default_normal parsed_normal by blast
  then have normal: "app_normal U (app_run U d xs)" using app_run_normal assms(1,4) by blast
  define e where "e = app_run U d xs"
  have e: "settings_normal U (app_settings e)" "store_normal U (app_bridgeProfiles e)"
    "push_normal (bs_profiles (app_bridgeProfiles e)) (app_push e)"
    using normal by (simp_all add: e_def app_normal_def)
  have "parsePersistedAppState U h' (serializeAppState U h' e) = Inr (normalizeAppStateData U h'
      (Some (JObj (settings_fields (normalizeAppSettings U (Some (JObj (settings_fields (app_settings e))))))))
      (bridge_store_of U h' (store_json (app_bridgeProfiles e))) (Some (JObj (push_fields (app_push e)))))"
    using assms(5) normal unfolding e_def [symmetric] serializeAppState_def
    by (simp add: renormalize_fixed [OF assms(1)] parsePersistedAppState_def app_json_def)
  also have "\<dots> = Inr (renormalize U h' e)"
    using e by (simp add: renormalize_def normalizeAppSettings_fixed [OF assms(1)] bridge_store_of_fixed)
  finally show ?thesis using normal by (simp add: renormalize_fixed [OF assms(1)] e_def)
qed

text \<open>
  Saving a profile that exists. The profile keeps its id and its place, and has the new address and
  token; all other profiles are unchanged. If the address or the token differs from
  the old one, the push registrations of this profile, and only those, are dropped;
  otherwise all stay. Settings and push preferences are not touched.
\<close>

theorem profile_save_drops_registrations:
  assumes "url_conforms U" "host_ok h" "app_normal U d" "find_profile (app_bridgeProfiles d) (bd_id draft) = Some e"
    and "appStateReducer U h d (ProfilesSave draft) = Inr d'"
  shows "\<exists>p. bp_id p = bp_id e \<and> normalizeBridgeUrlInput U (bd_bridgeUrl draft) = Some (bp_bridgeUrl p) \<and>
      bp_bridgeToken p = trim (bd_bridgeToken draft) \<and>
      bs_profiles (app_bridgeProfiles d') = replace_or_push p (bs_profiles (app_bridgeProfiles d)) \<and>
      push_registrations (app_push d') =
        (if bp_bridgeUrl p \<noteq> bp_bridgeUrl e \<or> bp_bridgeToken p \<noteq> bp_bridgeToken e
         then filter (\<lambda>r. pr_profileId r \<noteq> bp_id e) (push_registrations (app_push d))
         else push_registrations (app_push d)) \<and>
      app_settings d' = app_settings d \<and>
      (app_push d')\<lparr>push_registrations := []\<rparr> = (app_push d)\<lparr>push_registrations := []\<rparr>"
proof -
  obtain p s' where up: "upsertBridgeProfile U h (app_bridgeProfiles d) draft = Inr (p, s')"
    using assms(5) by (auto simp: appStateReducer_def reduceProfileAction_def Let_def split: sum.splits)
  have "store_normal U (app_bridgeProfiles d)" using assms(3) by (simp add: app_normal_def)
  note facts = upsertBridgeProfile_normal [OF assms(1,2) this up]
  have d': "d' = (if bridge_identity_changed U e draft
      then with_registrations (d\<lparr>app_bridgeProfiles := s'\<rparr>)
        (filter (\<lambda>r. pr_profileId r \<noteq> bp_id e) (push_registrations (app_push d)))
      else d\<lparr>app_bridgeProfiles := s'\<rparr>)"
    using assms(4,5) by (auto simp: appStateReducer_def reduceProfileAction_def up Let_def)
  show ?thesis
    using facts(3,5-7) assms(4) unfolding d' bridge_identity_changed_def
    by (intro exI [of _ p]) (auto simp: with_registrations_def)
qed

section \<open>A concrete session\<close>

definition demo_url :: url where
  "demo_url = \<lparr>url_protocol = ''http:'', url_username = [], url_password = [], url_hostname = ''h'',
     url_port = [], url_pathname = ''/'', url_search = [], url_hash = []\<rparr>"

definition demo_parser :: url_parser where
  "demo_parser s = (if s = ''http://h'' \<or> s = ''http://h/'' then Some demo_url else None)"

lemma demo_conforms: "url_conforms demo_parser"
proof -
  have only: "v = demo_url" if "url_reset demo_url v" for v
    using that by (intro url.equality) (auto simp: url_reset_def demo_url_def)
  have "url_toString demo_url = ''http://h/''" by code_simp
  moreover have "list_all (\<lambda>c. \<not> is_js_space c) ''http://h/''" by code_simp
  moreover have "demo_parser ''http://h/'' = Some demo_url" "demo_parser ''http://h'' = Some demo_url"
    by (simp_all add: demo_parser_def)
  ultimately have "demo_parser (url_toString v) = Some v \<and> demo_parser (butlast (url_toString v)) = Some v \<and>
    list_all (\<lambda>c. \<not> is_js_space c) (url_toString v)" if "url_reset demo_url v" for v
    unfolding only [OF that] by simp
  moreover have "u = demo_url" if "demo_parser s = Some u" for s u
    using that by (auto simp: demo_parser_def split: if_splits)
  ultimately show ?thesis unfolding url_conforms_def by blast
qed

definition demo_host :: app_host where
  "demo_host = \<lparr>js_iso = (\<lambda>t. ''t''), js_now = ''2026-01-01T00:00:00.000Z'', js_number = (\<lambda>x. ''3''), js_parse = (\<lambda>s. None),
     host_profileId = ''bridge-1''\<rparr>"

definition demo_draft :: bridge_draft where
  "demo_draft = \<lparr>bd_id = None, bd_name = None, bd_bridgeUrl = '' http://h/ '', bd_bridgeToken = ''secret'',
     bd_workspaceId = None, bd_activate = None\<rparr>"

definition demo_session :: "(app_host \<times> app_action) list" where
  "demo_session =
     [(demo_host, ProfilesSave demo_draft), (demo_host, PushEnsureRegistration ''bridge-1'' ''r1''),
      (demo_host, SettingsRememberThread '' agent '' CollabPlan)]"

definition demo_saved :: app_state where
  "demo_saved = app_run demo_parser createDefaultAppStateData demo_session"

theorem app_state_survives_restart_witness:
  "parsePersistedAppState demo_parser (demo_host\<lparr>js_parse := (\<lambda>_. Some (app_json demo_saved))\<rparr>)
     (serializeAppState demo_parser (demo_host\<lparr>js_parse := (\<lambda>_. Some (app_json demo_saved))\<rparr>) demo_saved) = Inr demo_saved"
  unfolding demo_saved_def
proof (rule app_state_survives_restart [OF demo_conforms, where h = demo_host and raw = "[]"])
  show "host_ok demo_host" by code_simp
  show "fresh_run demo_parser createDefaultAppStateData demo_session" by code_simp
qed simp_all

definition demo_edit :: bridge_draft where
  "demo_edit = demo_draft\<lparr>bd_id := Some ''bridge-1'', bd_bridgeToken := ''other''\<rparr>"

definition demo_profile :: bridge_profile where
  "demo_profile = \<lparr>bp_id = ''bridge-1'', bp_name = ''h'', bp_bridgeUrl = ''http://h'', bp_bridgeToken = ''secret'',
     bp_workspaceId = None, bp_createdAt = ''2026-01-01T00:00:00.000Z'', bp_updatedAt = ''2026-01-01T00:00:00.000Z''\<rparr>"

definition demo_edited :: app_state where
  "demo_edited = projr (appStateReducer demo_parser demo_host demo_saved (ProfilesSave demo_edit))"

theorem profile_save_drops_registrations_witness:
  "push_registrations (app_push demo_saved) \<noteq> [] \<and>
   (\<exists>p. bp_id p = bp_id demo_profile \<and> normalizeBridgeUrlInput demo_parser (bd_bridgeUrl demo_edit) = Some (bp_bridgeUrl p) \<and>
      bp_bridgeToken p = trim (bd_bridgeToken demo_edit) \<and>
      bs_profiles (app_bridgeProfiles demo_edited) = replace_or_push p (bs_profiles (app_bridgeProfiles demo_saved)) \<and>
      push_registrations (app_push demo_edited) =
        (if bp_bridgeUrl p \<noteq> bp_bridgeUrl demo_profile \<or> bp_bridgeToken p \<noteq> bp_bridgeToken demo_profile
         then filter (\<lambda>r. pr_profileId r \<noteq> bp_id demo_profile) (push_registrations (app_push demo_saved))
         else push_registrations (app_push demo_saved)) \<and>
      app_settings demo_edited = app_settings demo_saved \<and>
      (app_push demo_edited)\<lparr>push_registrations := []\<rparr> = (app_push demo_saved)\<lparr>push_registrations := []\<rparr>)"
proof (rule conjI)
  show "push_registrations (app_push demo_saved) \<noteq> []" by code_simp
  have "fresh_run demo_parser createDefaultAppStateData demo_session" by code_simp
  then have normal: "app_normal demo_parser demo_saved"
    unfolding demo_saved_def by (intro app_run_normal demo_conforms default_normal)
  have host: "host_ok demo_host" by code_simp
  have found: "find_profile (app_bridgeProfiles demo_saved) (bd_id demo_edit) = Some demo_profile" by code_simp
  have "\<not> isl (appStateReducer demo_parser demo_host demo_saved (ProfilesSave demo_edit))" by code_simp
  then have step: "appStateReducer demo_parser demo_host demo_saved (ProfilesSave demo_edit) = Inr demo_edited"
    unfolding demo_edited_def by simp
  show "\<exists>p. bp_id p = bp_id demo_profile \<and>
      normalizeBridgeUrlInput demo_parser (bd_bridgeUrl demo_edit) = Some (bp_bridgeUrl p) \<and>
      bp_bridgeToken p = trim (bd_bridgeToken demo_edit) \<and>
      bs_profiles (app_bridgeProfiles demo_edited) = replace_or_push p (bs_profiles (app_bridgeProfiles demo_saved)) \<and>
      push_registrations (app_push demo_edited) =
        (if bp_bridgeUrl p \<noteq> bp_bridgeUrl demo_profile \<or> bp_bridgeToken p \<noteq> bp_bridgeToken demo_profile
         then filter (\<lambda>r. pr_profileId r \<noteq> bp_id demo_profile) (push_registrations (app_push demo_saved))
         else push_registrations (app_push demo_saved)) \<and>
      app_settings demo_edited = app_settings demo_saved \<and>
      (app_push demo_edited)\<lparr>push_registrations := []\<rparr> = (app_push demo_saved)\<lparr>push_registrations := []\<rparr>"
    by (rule profile_save_drops_registrations [OF demo_conforms host normal found step])
qed

end
