(* ===== verification/PersistenceCorrect.thy ===== *)
theory PersistenceCorrect
  imports Persistence AppStateCorrect
begin

text \<open>
  Correctness of the persistence coordinator: without new requests it comes to rest after a bounded number of steps, with
  no operation, queued action, loop, load or retry left under way, and in runs in which requests keep out of each other's way the store of the
  device ends up with the published state. Three further theorems show what happens otherwise.
\<close>

lemmas coord_ops = publish_def startWriteLoop_def queuePersistence_def loop_body_def loop_written_def
  loop_closed_def dispatch_def dispatchDurable_def start_load_def initialize_def flush_begin_def retry_resume_def
  retryPersistence_def finish_load_def accept_load_def load_read_def load_written_def applyQueuedActions_def
  durable_finally_def durable_flush_def durable_start_def durable_flushed_def durable_written_def
  head_phase_def set_head_phase_def Let_def

lemma step_cases:
  assumes "coord_step U s e = Some s'"
  obtains
    (initialize) "e = Initialize" "s' = initialize s"
  | (refused) r where "e = Dispatch r" "s' = s"
  | (dispatch) r where "e = Dispatch r" "dispatch U r s = Inr s'"
  | (durable) r where "e = DispatchDurable r" "s' = dispatchDurable r s"
  | (retry) "e = Retry" "s' = retryPersistence s"
  | (flush) "e = Flush" "s' = flush_begin s"
  | (loop_runs) h where "e = LoopRuns h" "co_writeLoop s = LoopScheduled" "s' = loop_body U h s"
  | (loop_written) h ok d raw where "e = LoopWritten h ok" "co_writeLoop s = LoopWriting d raw" "s' = loop_written U h ok d raw s"
  | (loop_closed) "e = LoopClosed" "co_writeLoop s = LoopClosing" "s' = loop_closed s"
  | (retry_resumes) "e = RetryResumes" "co_retriesReady s > 0" "s' = retry_resume (s\<lparr>co_retriesReady := co_retriesReady s - 1\<rparr>)"
  | (load_read) h ok n where "e = LoadRead h ok n" "map_get (co_loads s) n = Some LoadReading" "s' = load_read U h ok n s"
  | (load_written) ok n raw where "e = LoadWritten ok n" "map_get (co_loads s) n = Some (LoadWriting raw)" "s' = load_written ok n raw s"
  | (durable_starts) r ds where "e = DurableStarts" "co_durableChain s = (r, DurableWaiting) # ds" "s' = durable_start s"
  | (durable_initialized) r ds n where "e = DurableInitialized" "co_durableChain s = (r, DurableInit n) # ds"
      "\<not> map_has (co_loads s) n" "s' = durable_flush s"
  | (durable_resumes) r ds h where "e = DurableResumes h" "co_durableChain s = (r, DurableFlushed) # ds" "s' = durable_flushed U h r s"
  | (durable_written) r ds ok d raw where "e = DurableWritten ok" "co_durableChain s = (r, DurableWriting d raw) # ds"
      "s' = durable_written U ok d raw s"
proof (cases e)
  case (Dispatch r)
  with assms show ?thesis using that(2,3) by (auto split: sum.splits)
next
  case DurableStarts
  with assms show ?thesis using that(13) by (auto simp: head_phase_def split: list.splits if_splits)
next
  case DurableInitialized
  with assms show ?thesis using that(14) by (auto simp: head_phase_def split: list.splits if_splits durable_phase.splits)
next
  case (DurableResumes h)
  with assms show ?thesis using that(15) by (auto split: list.splits prod.splits durable_phase.splits)
next
  case (DurableWritten ok)
  with assms show ?thesis using that(16) by (auto simp: head_phase_def split: list.splits durable_phase.splits)
qed (use assms that in \<open>auto split: if_splits loop_phase.splits option.splits load_phase.splits\<close>)


section \<open>The coordinator comes to rest\<close>

text \<open>An upper bound of the number of steps that are due.\<close>

fun loop_work :: "loop_phase \<Rightarrow> app_state option \<Rightarrow> nat" where
  "loop_work LoopIdle pending = 0"
| "loop_work LoopClosing pending = 1"
| "loop_work (LoopWriting d raw) pending = (if pending = None then 2 else 4)"
| "loop_work LoopScheduled pending = (if pending = None then 3 else 5)"

lemma loop_work_le: "loop_work l p \<le> loop_work l q + 2"
  by (cases l) auto

fun phase_work :: "durable_phase \<Rightarrow> nat" where
  "phase_work DurableWaiting = 30"
| "phase_work (DurableInit n) = 25"
| "phase_work DurableFlushing = 10"
| "phase_work DurableFlushed = 9"
| "phase_work (DurableWriting d raw) = 8"

fun load_work :: "load_phase \<Rightarrow> nat" where
  "load_work LoadReading = 2"
| "load_work (LoadWriting raw) = 1"

definition work :: "coordinator \<Rightarrow> nat" where
  "work s =
     loop_work (co_writeLoop s) (co_pendingData s) + sum_list (map (\<lambda>d. phase_work (snd d)) (co_durableChain s)) +
     sum_list (map (\<lambda>l. load_work (snd l)) (co_loads s)) + 8 * co_retriesWaiting s + 7 * co_retriesReady s"

lemma work_queue: "work (queuePersistence d s) \<le> work s + 5"
  using loop_work_le [of "co_writeLoop s" "Some d" "co_pendingData s"]
  by (simp add: work_def queuePersistence_def startWriteLoop_def)

lemma work_publish [simp]: "work (publish d e s) = work s"
  by (simp add: work_def publish_def)

lemma work_apply_queued: "work (applyQueuedActions U s) \<le> work s + 5"
proof -
  have "work (s\<lparr>co_queuedActions := []\<rparr>) = work s" by (simp add: work_def)
  then show ?thesis
    using work_queue [of _ "publish _ None (s\<lparr>co_queuedActions := []\<rparr>)"]
    by (auto simp: applyQueuedActions_def Let_def split: sum.split)
qed

lemma work_finally:
  assumes "co_durableChain s = (r, ph) # ds"
  shows "work (durable_finally U s) + phase_work ph \<le> work s + 5"
proof -
  let ?s = "s\<lparr>co_durableRequests := co_durableRequests s - 1, co_durableChain := tl (co_durableChain s)\<rparr>"
  have "work ?s + phase_work ph = work s" using assms by (simp add: work_def)
  then show ?thesis using work_apply_queued [of U ?s] by (auto simp: durable_finally_def Let_def)
qed

lemma work_set_head:
  assumes "co_durableChain s = (r, ph) # ds"
  shows "work (set_head_phase ph' s) + phase_work ph = work s + phase_work ph'"
  using assms by (simp add: work_def set_head_phase_def)

lemma work_flush_begin: "work (flush_begin s) \<le> work s + 5"
  by (auto simp: flush_begin_def startWriteLoop_def publish_def work_def)

lemma work_durable_flush:
  assumes "co_durableChain s = (r, ph) # ds"
  shows "work (durable_flush s) + phase_work ph \<le> work s + 15"
proof -
  have "co_durableChain (flush_begin s) = (r, ph) # ds"
    using assms by (simp add: flush_begin_def startWriteLoop_def publish_def)
  from work_set_head [OF this] work_flush_begin [of s] show ?thesis
    by (simp add: durable_flush_def Let_def split: if_split)
qed

definition loads_work :: "(nat \<times> load_phase) list \<Rightarrow> nat" where
  "loads_work ls = sum_list (map (\<lambda>l. load_work (snd l)) ls)"

lemma loads_work_filter: "loads_work (filter P ls) \<le> loads_work ls"
  by (induction ls) (auto simp: loads_work_def)

lemma work_load_done:
  "map_get ls n = Some ph \<Longrightarrow>
   loads_work (map_del n ls) + load_work ph \<le> loads_work ls"
proof (induction ls)
  case (Cons l ls)
  then show ?case using loads_work_filter [of "\<lambda>(k, _). n \<noteq> k" ls]
    by (cases l) (auto simp: AList.delete_eq loads_work_def split: if_splits)
qed simp

lemma work_load_writing:
  "map_get ls n = Some LoadReading \<Longrightarrow>
   loads_work (map_put n (LoadWriting raw) ls) < loads_work ls"
  by (induction ls) (auto simp: loads_work_def)

lemma work_alt:
  "work s = loop_work (co_writeLoop s) (co_pendingData s) + sum_list (map (\<lambda>d. phase_work (snd d)) (co_durableChain s)) +
     loads_work (co_loads s) + 8 * co_retriesWaiting s + 7 * co_retriesReady s"
  by (simp add: work_def loads_work_def)

lemma work_decreases:
  assumes "coord_step U s e = Some s'" "\<not> is_request e"
  shows "work s' < work s"
  using assms(1)
proof (cases rule: step_cases)
  case (loop_runs h)
  then show ?thesis by (auto simp: work_def loop_body_def split: option.split)
next
  case (loop_written h ok d raw)
  then show ?thesis by (auto simp: work_def coord_ops split: option.split)
next
  case loop_closed
  then show ?thesis
    by (cases "co_durableChain s") (auto simp: work_def coord_ops)
next
  case retry_resumes
  then show ?thesis
    using loop_work_le [of "co_writeLoop s" "Some (co_data s)" "co_pendingData s"]
    by (auto simp: work_def coord_ops)
next
  case (load_read h ok n)
  have "loop_work (co_writeLoop s) None \<le> loop_work (co_writeLoop s) (co_pendingData s)"
    by (cases "co_writeLoop s") auto
  with load_read show ?thesis
    using work_load_done [of "co_loads s" n LoadReading] work_load_writing [of "co_loads s" n]
    by (auto simp: work_alt load_read_def accept_load_def finish_load_def publish_def split: option.split sum.split)
next
  case (load_written ok n raw)
  have "loop_work (co_writeLoop s) None \<le> loop_work (co_writeLoop s) (co_pendingData s)"
    by (cases "co_writeLoop s") auto
  with load_written show ?thesis
    using work_load_done [of "co_loads s" n "LoadWriting raw"]
    by (auto simp: work_alt load_written_def accept_load_def finish_load_def publish_def)
next
  case (durable_starts r ds)
  have "work (initialize s) \<le> work s + 2" "co_durableChain (initialize s) = co_durableChain s"
    by (auto simp: work_def initialize_def start_load_def)
  with durable_starts show ?thesis
    using work_durable_flush [of s r DurableWaiting ds]
      work_set_head [of "initialize s" r DurableWaiting ds "DurableInit (the (co_initializePromise (initialize s)))"]
    by (auto simp: durable_start_def Let_def)
next
  case (durable_initialized r ds n)
  then show ?thesis using work_durable_flush [of s r "DurableInit n" ds] by simp
next
  case (durable_resumes r ds h)
  then show ?thesis
    using work_finally [of s r DurableFlushed ds U] work_set_head [of s r DurableFlushed ds "DurableWriting d raw" for d raw]
    by (auto simp: durable_flushed_def less_eq_Suc_le split: sum.split)
next
  case (durable_written r ds ok d raw)
  let ?t = "if ok then publish d None (s\<lparr>co_disk := Some raw, co_initializedSuccessfully := True\<rparr>)
    else publish (co_data s) (Some (PersistenceError WriteFailed ''The app-state change was not saved. Please retry.'')) s"
  have "co_durableChain ?t = (r, DurableWriting d raw) # ds" "work ?t = work s"
    using durable_written by (auto simp: publish_def work_def)
  with work_finally [of ?t r "DurableWriting d raw" ds U] show ?thesis
    unfolding durable_written(3) durable_written_def by simp
qed (use assms(2) in simp_all)


lemma run_bounded:
  assumes "coord_run U s es = Some s'" "list_all (\<lambda>e. \<not> is_request e) es"
  shows "work s' + length es \<le> work s"
  using assms
proof (induction es arbitrary: s)
  case (Cons e es)
  then obtain t where t: "coord_step U s e = Some t" "coord_run U t es = Some s'" by (auto split: bind_splits)
  with Cons.prems have "work t < work s" using work_decreases by simp
  with Cons.IH [OF t(2)] Cons.prems(2) show ?case by simp
qed simp

text \<open>What waits for the write loop or for a durable operation finds it running.\<close>

definition waits_ok :: "coordinator \<Rightarrow> bool" where
  "waits_ok s \<longleftrightarrow>
     co_durableRequests s = length (co_durableChain s) \<and> (co_queuedActions s \<noteq> [] \<longrightarrow> co_durableChain s \<noteq> []) \<and>
     list_all (\<lambda>d. snd d = DurableWaiting) (tl (co_durableChain s)) \<and>
     (head_phase s = Some DurableFlushing \<longrightarrow> co_writeLoop s \<noteq> LoopIdle) \<and>
     (0 < co_retriesWaiting s \<longrightarrow> co_writeLoop s \<noteq> LoopIdle)"

lemma waits_ok_step:
  assumes "waits_ok s" "coord_step U s e = Some s'"
  shows "waits_ok s'"
  using assms(2)
proof (cases rule: step_cases)
  case (durable r)
  with assms(1) show ?thesis
    by (cases "co_durableChain s") (auto simp: waits_ok_def coord_ops)
next
  case (durable_resumes r ds h)
  with assms(1) show ?thesis
    by (cases ds) (auto simp: waits_ok_def coord_ops split: sum.splits if_splits)
next
  case (durable_written r ds ok d raw)
  with assms(1) show ?thesis
    by (cases ds) (auto simp: waits_ok_def coord_ops split: sum.splits if_splits)
qed (use assms(1) in \<open>auto simp: waits_ok_def coord_ops split: option.splits sum.splits list.splits if_splits loop_phase.splits\<close>)


lemma waits_ok_reachable: "coord_reachable U disk s \<Longrightarrow> waits_ok s"
proof (induction rule: coord_reachable.induct)
  case start
  show ?case by (simp add: waits_ok_def initial_coordinator_def head_phase_def)
qed (rule waits_ok_step)

text \<open>The steps of the loop, of a load and of the first durable operation.\<close>

lemma loop_can_step: "co_writeLoop s \<noteq> LoopIdle \<Longrightarrow> \<exists>e. \<not> is_request e \<and> coord_step U s e \<noteq> None"
proof (cases "co_writeLoop s")
  case LoopScheduled
  then show ?thesis by (intro exI [of _ "LoopRuns undefined"]) simp
next
  case (LoopWriting d raw)
  then show ?thesis by (intro exI [of _ "LoopWritten undefined True"]) simp
next
  case LoopClosing
  then show ?thesis by (intro exI [of _ LoopClosed]) simp
qed simp

lemma load_can_step: "map_has (co_loads s) n \<Longrightarrow> \<exists>e. \<not> is_request e \<and> coord_step U s e \<noteq> None"
proof (cases "map_get (co_loads s) n")
  case (Some ph)
  then show ?thesis
  proof (cases ph)
    case LoadReading
    with Some show ?thesis by (intro exI [of _ "LoadRead undefined True n"]) simp
  next
    case (LoadWriting raw)
    with Some show ?thesis by (intro exI [of _ "LoadWritten True n"]) simp
  qed
qed simp

lemma durable_can_step:
  assumes "waits_ok s" "co_durableChain s = (r, ph) # ds"
  shows "\<exists>e. \<not> is_request e \<and> coord_step U s e \<noteq> None"
proof (cases ph)
  case DurableWaiting
  with assms(2) show ?thesis by (intro exI [of _ DurableStarts]) (simp add: head_phase_def)
next
  case (DurableInit n)
  with assms(2) show ?thesis
    using load_can_step [of s n U] by (cases "map_has (co_loads s) n") (blast, intro exI [of _ DurableInitialized], simp add: head_phase_def)
next
  case DurableFlushing
  with assms show ?thesis by (intro loop_can_step) (auto simp: waits_ok_def head_phase_def)
next
  case DurableFlushed
  with assms(2) show ?thesis by (intro exI [of _ "DurableResumes undefined"]) simp
next
  case (DurableWriting d raw)
  with assms(2) show ?thesis by (intro exI [of _ "DurableWritten True"]) (simp add: head_phase_def)
qed

lemma settled_or_step:
  assumes "waits_ok s"
  shows "settled s \<or> (\<exists>e. \<not> is_request e \<and> coord_step U s e \<noteq> None)"
proof (rule disjCI)
  assume stuck: "\<nexists>e. \<not> is_request e \<and> coord_step U s e \<noteq> None"
  then have idle: "co_writeLoop s = LoopIdle" and "co_loads s = []" and chain: "co_durableChain s = []"
    using loop_can_step [of s U] load_can_step [of s _ U] durable_can_step [OF assms, of _ _ _ U]
    by (blast, metis list.exhaust map_of_Cons_code(2) option.distinct(1) surj_pair, metis list.exhaust surj_pair)
  moreover have "co_retriesReady s = 0" using stuck by (auto dest: spec [of _ RetryResumes] split: if_splits)
  ultimately show "settled s" using assms by (simp add: settled_def waits_ok_def)
qed

text \<open>
  C13. The coordinator comes to rest. From every reachable state, a run without new requests has at most
  \<open>work s\<close> steps, whether the reads and writes succeed or fail; and as long as a durable operation, an
  action queued behind one, a write loop, a load or a retry is under way, some step is possible. So none of
  these is stuck or goes on for ever. It does not say that the last state has been written: after a failed write, or
  after an action in the moment in which the loop closes (\<open>closing_loop_loses_wakeup\<close>), a state to
  be written can remain with nothing under way to write it.
\<close>

theorem coordinator_settles:
  assumes "coord_reachable U disk s" "coord_run U s es = Some s'" "list_all (\<lambda>e. \<not> is_request e) es"
  shows "length es \<le> work s \<and> (settled s' \<or> (\<exists>e. \<not> is_request e \<and> coord_step U s' e \<noteq> None))"
proof
  show "length es \<le> work s" using run_bounded [OF assms(2,3)] by simp
  have "waits_ok s \<Longrightarrow> coord_run U s es = Some s' \<Longrightarrow> waits_ok s'" for s
    by (induction es arbitrary: s) (auto split: bind_splits dest: waits_ok_step)
  then show "settled s' \<or> (\<exists>e. \<not> is_request e \<and> coord_step U s' e \<noteq> None)"
    using waits_ok_reachable assms(1,2) settled_or_step by blast
qed


section \<open>The store ends up with the published state\<close>

text \<open>
  Requests that keep out of each other's way: no action in the moment in which the write loop closes or while the
  state is loaded again, no flush or retry while a durable operation is under way, and no durable operation
  while a retry is.
\<close>

fun calm :: "coordinator \<Rightarrow> coord_event \<Rightarrow> bool" where
  "calm s (Dispatch r) \<longleftrightarrow> co_writeLoop s \<noteq> LoopClosing \<and> co_loads s = []"
| "calm s (DispatchDurable r) \<longleftrightarrow>
     co_retriesWaiting s = 0 \<and> co_retriesReady s = 0 \<and> (co_loads s = [] \<or> \<not> co_loaded s)"
| "calm s Flush \<longleftrightarrow> co_durableChain s = [] \<and> co_loads s = []"
| "calm s Retry \<longleftrightarrow>
     co_durableChain s = [] \<and> co_loads s = [] \<and>
     (co_initializedSuccessfully s \<or> co_writeLoop s = LoopIdle \<and> co_pendingData s = None)"
| "calm s RetryResumes \<longleftrightarrow> co_writeLoop s \<noteq> LoopClosing"
| "calm s e \<longleftrightarrow> True"

inductive calm_reachable :: "url_parser \<Rightarrow> string option \<Rightarrow> coordinator \<Rightarrow> bool" for U disk where
  calm_start: "calm_reachable U disk (initial_coordinator disk)"
| calm_step: "calm_reachable U disk s \<Longrightarrow> calm s e \<Longrightarrow> coord_step U s e = Some s' \<Longrightarrow> calm_reachable U disk s'"

text \<open>The store holds the text of this state, or a text that is read as this state.\<close>

definition saved :: "url_parser \<Rightarrow> app_state \<Rightarrow> string option \<Rightarrow> bool" where
  "saved U d disk \<longleftrightarrow> (\<exists>raw h. disk = Some raw \<and> (raw = serializeAppState U h d \<or> parsePersistedAppState U h raw = Inr d))"

lemma saved_text [simp]: "saved U d (Some (serializeAppState U h d))"
  by (auto simp: saved_def)

lemma saved_read: "parsePersistedAppState U h raw = Inr d \<Longrightarrow> saved U d (Some raw)"
  by (auto simp: saved_def)

fun writing :: "loop_phase \<Rightarrow> bool" where
  "writing (LoopWriting d raw) = True" | "writing l = False"

text \<open>The write loop has what is not saved yet.\<close>

definition loop_safe :: "url_parser \<Rightarrow> coordinator \<Rightarrow> bool" where
  "loop_safe U s \<longleftrightarrow>
     (\<forall>d. co_pendingData s = Some d \<longrightarrow> d = co_data s) \<and>
     (\<forall>d raw. co_writeLoop s = LoopWriting d raw \<longrightarrow>
        (\<exists>h. raw = serializeAppState U h d) \<and> (co_pendingData s = None \<longrightarrow> d = co_data s)) \<and>
     (co_pendingData s \<noteq> None \<longrightarrow> co_writeLoop s = LoopScheduled \<or> writing (co_writeLoop s) \<or> co_error s \<noteq> None) \<and>
     (co_loaded s \<and> co_error s = None \<and> co_pendingData s = None \<and> \<not> writing (co_writeLoop s) \<longrightarrow>
        saved U (co_data s) (co_disk s))"

definition quiet :: "coordinator \<Rightarrow> bool" where
  "quiet s \<longleftrightarrow> co_pendingData s = None \<and> co_writeLoop s = LoopIdle"

text \<open>Loads and durable operations have the store for themselves.\<close>

definition turns_safe :: "url_parser \<Rightarrow> coordinator \<Rightarrow> bool" where
  "turns_safe U s \<longleftrightarrow>
     (head_phase s = Some DurableFlushed \<longrightarrow>
        co_loaded s \<and> co_writeLoop s = LoopIdle \<and> (co_pendingData s = None \<or> co_error s \<noteq> None)) \<and>
     (\<forall>d raw. head_phase s = Some (DurableWriting d raw) \<longrightarrow>
        co_loaded s \<and> quiet s \<and> (\<exists>h. raw = serializeAppState U h d)) \<and>
     (head_phase s = Some DurableFlushing \<longrightarrow> co_loaded s) \<and>
     (co_loads s \<noteq> [] \<longrightarrow>
        quiet s \<and> \<not> co_initializedSuccessfully s \<and> (co_durableChain s = [] \<or> \<not> co_loaded s) \<and> length (co_loads s) = 1) \<and>
     (\<not> co_loaded s \<longrightarrow> quiet s \<and> \<not> co_initializedSuccessfully s) \<and>
     (\<not> co_initializedSuccessfully s \<or> co_durableChain s \<noteq> [] \<longrightarrow> co_retriesWaiting s = 0 \<and> co_retriesReady s = 0) \<and>
     (co_initializePromise s = None \<longrightarrow> \<not> co_loaded s \<and> co_loads s = []) \<and>
     (\<forall>n. co_initializePromise s = Some n \<or> head_phase s = Some (DurableInit n) \<longrightarrow> co_loaded s \<or> map_has (co_loads s) n) \<and>
     (\<forall>n raw. map_get (co_loads s) n = Some (LoadWriting raw) \<longrightarrow>
        (\<exists>h. raw = serializeAppState U h createDefaultAppStateData))"

lemma map_del_single: "length ls = 1 \<Longrightarrow> map_has ls n \<Longrightarrow> map_del n ls = []"
  by (cases ls) (auto split: if_splits)

lemma queue_safe:
  assumes "loop_safe U s" "co_writeLoop s \<noteq> LoopClosing"
  shows "loop_safe U (queuePersistence d (publish d None s))"
  using assms by (cases "co_writeLoop s") (simp_all add: loop_safe_def queuePersistence_def startWriteLoop_def publish_def)

lemma queue_same: "startWriteLoop (publish d e (s\<lparr>co_pendingData := Some x\<rparr>)) = queuePersistence x (publish d e s)"
  by (simp add: queuePersistence_def publish_def startWriteLoop_def)

lemma loop_safe_frame [simp]:
  "loop_safe U (s\<lparr>co_queuedActions := q\<rparr>) = loop_safe U s" "loop_safe U (s\<lparr>co_durableRequests := n\<rparr>) = loop_safe U s"
  "loop_safe U (s\<lparr>co_durableChain := c\<rparr>) = loop_safe U s" "loop_safe U (s\<lparr>co_retriesReady := n\<rparr>) = loop_safe U s"
  "loop_safe U (s\<lparr>co_retriesWaiting := n\<rparr>) = loop_safe U s" "loop_safe U (s\<lparr>co_loads := l\<rparr>) = loop_safe U s"
  "loop_safe U (s\<lparr>co_initializePromise := i\<rparr>) = loop_safe U s" "loop_safe U (s\<lparr>co_nextLoad := n\<rparr>) = loop_safe U s"
  "loop_safe U (set_head_phase ph s) = loop_safe U s"
  by (simp_all add: loop_safe_def set_head_phase_def)

lemma finally_safe:
  assumes "loop_safe U s" "co_writeLoop s \<noteq> LoopClosing"
  shows "loop_safe U (durable_finally U s)"
  using assms by (auto simp: durable_finally_def applyQueuedActions_def Let_def intro!: queue_safe split: sum.split)

lemma flush_begin_safe: "loop_safe U s \<Longrightarrow> loop_safe U (flush_begin s)"
  by (auto simp: flush_begin_def startWriteLoop_def publish_def loop_safe_def)

lemma loop_safe_step:
  assumes "loop_safe U s" "turns_safe U s" "waits_ok s" "calm s e" "coord_step U s e = Some s'"
  shows "loop_safe U s'"
  using assms(5)
proof (cases rule: step_cases)
  case (dispatch r)
  with assms(1,4) show ?thesis by (auto simp: dispatch_def intro: queue_safe split: sum.splits if_splits)
next
  case (loop_runs h)
  with assms(1) show ?thesis by (auto simp: loop_safe_def loop_body_def split: option.splits)
next
  case (loop_written h ok d raw)
  with assms(1) show ?thesis by (auto simp: loop_safe_def loop_written_def loop_body_def publish_def split: option.splits)
next
  case loop_closed
  with assms(1) show ?thesis by (auto simp: loop_closed_def loop_safe_def Let_def set_head_phase_def)
next
  case retry_resumes
  with assms(1,4) show ?thesis unfolding retry_resume_def queue_same by (auto intro: queue_safe)
next
  case retry
  with assms(1) show ?thesis
    unfolding retryPersistence_def retry_resume_def queue_same by (auto simp: initialize_def start_load_def intro: queue_safe)
next
  case (load_read h ok n)
  with assms(2) have "quiet s" by (auto simp: turns_safe_def)
  then have failed: "loop_safe U (finish_load n (co_data s) (Some x) s)"
    and accepted: "parsePersistedAppState U h raw = Inr d \<Longrightarrow> co_disk s = Some raw \<Longrightarrow> loop_safe U (accept_load n d s)" for x raw d
    using saved_read by (simp_all add: loop_safe_def quiet_def accept_load_def finish_load_def publish_def)
  show ?thesis
    unfolding load_read(3) load_read_def using failed accepted assms(1) by (auto split: option.split sum.split)
next
  case (load_written ok n raw)
  with assms(2) have "\<exists>h. raw = serializeAppState U h createDefaultAppStateData" by (auto simp: turns_safe_def)
  moreover from load_written assms(2) have "quiet s" by (auto simp: turns_safe_def)
  ultimately show ?thesis using assms(1) load_written
    by (auto simp: loop_safe_def quiet_def load_written_def accept_load_def finish_load_def publish_def)
next
  case (durable_starts r ds)
  with assms(1) show ?thesis
    by (auto simp: durable_start_def durable_flush_def initialize_def start_load_def Let_def intro: flush_begin_safe)
next
  case (durable_initialized r ds n)
  with assms(1) show ?thesis by (auto simp: durable_flush_def Let_def intro: flush_begin_safe)
next
  case (durable_resumes r ds h)
  with assms(2) have "co_writeLoop s = LoopIdle" by (auto simp: turns_safe_def head_phase_def)
  with assms(1) durable_resumes show ?thesis by (auto simp: durable_flushed_def intro!: finally_safe split: sum.split)
next
  case (durable_written r ds ok d raw)
  with assms(2) have "quiet s" "\<exists>h. raw = serializeAppState U h d" by (auto simp: turns_safe_def head_phase_def)
  with assms(1) have "loop_safe U (publish d None (s\<lparr>co_disk := Some raw, co_initializedSuccessfully := True\<rparr>))"
    "loop_safe U (publish (co_data s) (Some x) s)" for x
    by (auto simp: loop_safe_def quiet_def publish_def)
  moreover have "co_writeLoop s = LoopIdle" using \<open>quiet s\<close> by (simp add: quiet_def)
  ultimately show ?thesis using durable_written by (auto simp: durable_written_def publish_def intro!: finally_safe)
qed (use assms(1) flush_begin_safe in \<open>auto simp: initialize_def start_load_def dispatchDurable_def\<close>)


lemma head_after_finally:
  assumes "waits_ok s"
  shows "head_phase (durable_finally U s) \<in> {None, Some DurableWaiting}"
    "co_durableChain (durable_finally U s) = tl (co_durableChain s)"
proof -
  show chain: "co_durableChain (durable_finally U s) = tl (co_durableChain s)"
    by (auto simp: durable_finally_def applyQueuedActions_def queuePersistence_def startWriteLoop_def publish_def Let_def
        split: sum.split)
  show "head_phase (durable_finally U s) \<in> {None, Some DurableWaiting}"
    using assms unfolding head_phase_def chain by (auto simp: waits_ok_def split: list.split)
qed

lemma finally_frame:
  "co_loaded (durable_finally U s) = co_loaded s" "co_loads (durable_finally U s) = co_loads s"
  "co_initializePromise (durable_finally U s) = co_initializePromise s"
  "co_initializedSuccessfully (durable_finally U s) = co_initializedSuccessfully s"
  "co_retriesWaiting (durable_finally U s) = co_retriesWaiting s" "co_retriesReady (durable_finally U s) = co_retriesReady s"
  by (auto simp: durable_finally_def applyQueuedActions_def queuePersistence_def startWriteLoop_def publish_def Let_def
      split: sum.split)

lemma turns_safe_finally:
  assumes "turns_safe U s" "waits_ok s" "co_loaded s" "co_loads s = []" "co_retriesWaiting s = 0" "co_retriesReady s = 0"
  shows "turns_safe U (durable_finally U s)"
  using assms head_after_finally [OF assms(2), of U] unfolding turns_safe_def finally_frame by auto


lemma turns_safe_frame [simp]: "turns_safe U (s\<lparr>co_queuedActions := q\<rparr>) = turns_safe U s"
  by (simp add: turns_safe_def quiet_def head_phase_def)

lemma turns_safe_queue:
  assumes "turns_safe U s" "co_loaded s" "co_loads s = []" "co_durableChain s = []"
  shows "turns_safe U (queuePersistence d (publish d e s))"
  using assms by (simp add: turns_safe_def queuePersistence_def startWriteLoop_def publish_def head_phase_def)

lemma turns_safe_load:
  assumes "turns_safe U s" "co_loads s = []" "quiet s" "\<not> co_initializedSuccessfully s" "co_durableChain s = [] \<or> \<not> co_loaded s"
  shows "turns_safe U (start_load s)"
  using assms by (simp add: turns_safe_def start_load_def quiet_def head_phase_def)

lemma turns_safe_init: "turns_safe U s \<Longrightarrow> turns_safe U (initialize s)"
  by (auto simp: initialize_def intro!: turns_safe_load) (auto simp: turns_safe_def)

lemma turns_safe_flush_head:
  assumes "turns_safe U s" "loop_safe U s" "co_loaded s" "co_durableChain s = (r, ph) # ds"
  shows "turns_safe U (durable_flush s)"
proof -
  have "co_loads s = []" using assms by (auto simp: turns_safe_def)
  then show ?thesis
    using assms
    by (simp add: turns_safe_def durable_flush_def flush_begin_def startWriteLoop_def publish_def set_head_phase_def
        head_phase_def quiet_def Let_def)
qed

lemma turns_safe_loading:
  assumes "turns_safe U s" "map_get (co_loads s) n = Some ph"
  shows "map_del n (co_loads s) = []" "quiet s" "co_retriesWaiting s = 0" "co_retriesReady s = 0" "co_loads s \<noteq> []"
proof -
  show loads: "co_loads s \<noteq> []" using assms(2) by auto
  then have "quiet s \<and> \<not> co_initializedSuccessfully s \<and> length (co_loads s) = 1"
    using assms(1) unfolding turns_safe_def by blast
  moreover from this have "co_retriesWaiting s = 0 \<and> co_retriesReady s = 0" using assms(1) unfolding turns_safe_def by blast
  ultimately show "map_del n (co_loads s) = []" "quiet s" "co_retriesWaiting s = 0" "co_retriesReady s = 0"
    using assms(2) by (simp_all add: map_del_single)
qed

lemma turns_safe_load_done:
  assumes "turns_safe U s" "map_del n (co_loads s) = []" "quiet s" "co_retriesWaiting s = 0" "co_retriesReady s = 0"
    "co_loads s \<noteq> []"
  shows "turns_safe U (finish_load n d x s)"
    "turns_safe U (finish_load n d x (s\<lparr>co_pendingData := None, co_initializedSuccessfully := True\<rparr>))"
    "turns_safe U (finish_load n d x (s\<lparr>co_disk := y, co_pendingData := None, co_initializedSuccessfully := True\<rparr>))"
  using assms by (simp_all add: turns_safe_def finish_load_def publish_def quiet_def head_phase_def)

lemma turns_safe_load_writing:
  assumes "turns_safe U s" "map_get (co_loads s) n = Some LoadReading"
  shows "turns_safe U (s\<lparr>co_loads := map_put n (LoadWriting (serializeAppState U h createDefaultAppStateData)) (co_loads s)\<rparr>)"
  using assms by (auto simp: turns_safe_def quiet_def head_phase_def length_map_put map_get_put split: if_splits)

lemma turns_safe_step:
  assumes "loop_safe U s" "turns_safe U s" "waits_ok s" "calm s e" "coord_step U s e = Some s'"
  shows "turns_safe U s'"
  using assms(5)
proof (cases rule: step_cases)
  case initialize
  with assms(2) show ?thesis by (simp add: turns_safe_init)
next
  case (dispatch r)
  have "co_durableRequests s = 0 \<Longrightarrow> co_durableChain s = []" using assms(3) by (simp add: waits_ok_def)
  with dispatch assms(2,4) show ?thesis
    by (auto simp: dispatch_def intro!: turns_safe_queue split: sum.splits if_splits)
next
  case (durable r)
  with assms(2,4) show ?thesis
    by (cases "co_durableChain s") (auto simp: turns_safe_def dispatchDurable_def quiet_def head_phase_def)
next
  case retry
  show ?thesis
  proof (cases "co_initializedSuccessfully s")
    case True
    then have "co_loaded s" using assms(2) by (auto simp: turns_safe_def)
    with True retry assms(2,4) show ?thesis
      by (auto simp: retryPersistence_def retry_resume_def queue_same intro: turns_safe_queue)
         (simp add: turns_safe_def quiet_def head_phase_def)
  next
    case False
    with retry assms(2,4) show ?thesis
      by (auto simp: retryPersistence_def initialize_def quiet_def turns_safe_def start_load_def head_phase_def)
  qed
next
  case flush
  with assms(2,4) show ?thesis
    by (auto simp: flush_begin_def startWriteLoop_def publish_def turns_safe_def quiet_def head_phase_def)
next
  case (loop_runs h)
  with assms(2) show ?thesis
    by (auto simp: loop_body_def turns_safe_def quiet_def head_phase_def split: option.split)
next
  case (loop_written h ok d raw)
  with assms(2) show ?thesis
    by (auto simp: loop_written_def loop_body_def publish_def turns_safe_def quiet_def head_phase_def split: option.split)
next
  case loop_closed
  have "co_loaded s" "co_loads s = []" using loop_closed assms(2) by (auto simp: turns_safe_def quiet_def)
  moreover have "co_pendingData s = None \<or> co_error s \<noteq> None" using loop_closed assms(1) by (auto simp: loop_safe_def)
  ultimately show ?thesis using loop_closed assms(2)
    by (cases "co_durableChain s")
       (auto simp: loop_closed_def turns_safe_def quiet_def head_phase_def set_head_phase_def Let_def)
next
  case retry_resumes
  then have "co_loaded s" "co_loads s = []" "co_durableChain s = []" using assms(2) by (auto simp: turns_safe_def)
  moreover have "turns_safe U (s\<lparr>co_retriesReady := co_retriesReady s - 1\<rparr>)"
    using assms(2) by (auto simp: turns_safe_def quiet_def head_phase_def)
  ultimately show ?thesis
    unfolding retry_resumes(3) retry_resume_def queue_same by (intro turns_safe_queue) simp_all
next
  case (load_read h ok n)
  note after = turns_safe_load_done [OF assms(2) turns_safe_loading [OF assms(2) load_read(2)]]
  have "turns_safe U (s\<lparr>co_loads := map_put n (LoadWriting (serializeAppState U h createDefaultAppStateData)) (co_loads s)\<rparr>)"
    using assms(2) load_read(2) by (rule turns_safe_load_writing)
  with after show ?thesis
    unfolding load_read(3) load_read_def accept_load_def by (simp split: option.split sum.split)
next
  case (load_written ok n raw)
  note after = turns_safe_load_done [OF assms(2) turns_safe_loading [OF assms(2) load_written(2)]]
  then show ?thesis unfolding load_written(3) load_written_def accept_load_def by simp
next
  case (durable_starts r ds)
  show ?thesis
  proof (cases "co_loaded s")
    case True
    with durable_starts assms(1,2) turns_safe_flush_head show ?thesis by (simp add: durable_start_def)
  next
    case False
    with durable_starts turns_safe_init [OF assms(2)] show ?thesis
      by (simp add: durable_start_def turns_safe_def set_head_phase_def head_phase_def quiet_def initialize_def start_load_def Let_def
          split: if_splits)
  qed
next
  case (durable_initialized r ds n)
  then have "co_loaded s" using assms(2) by (auto simp: turns_safe_def head_phase_def)
  with durable_initialized assms(1,2) turns_safe_flush_head show ?thesis by simp
next
  case (durable_resumes r ds h)
  then have "co_loaded s" "co_loads s = []" "co_retriesWaiting s = 0" "co_retriesReady s = 0"
    and idle: "co_writeLoop s = LoopIdle" "co_pendingData s = None \<or> co_error s \<noteq> None"
    using assms(2) by (auto simp: turns_safe_def head_phase_def)
  with durable_resumes assms(2,3) show ?thesis
    by (auto simp: durable_flushed_def intro!: turns_safe_finally split: sum.split)
       (auto simp: turns_safe_def set_head_phase_def head_phase_def quiet_def)
next
  case (durable_written r ds ok d raw)
  then have s: "co_loaded s" "co_loads s = []" "co_retriesWaiting s = 0" "co_retriesReady s = 0"
    using assms(2) by (auto simp: turns_safe_def head_phase_def)
  let ?t = "if ok then publish d None (s\<lparr>co_disk := Some raw, co_initializedSuccessfully := True\<rparr>)
    else publish (co_data s) (Some (PersistenceError WriteFailed ''The app-state change was not saved. Please retry.'')) s"
  have "turns_safe U ?t"
    using assms(2) s durable_written(2) by (auto simp: turns_safe_def publish_def head_phase_def quiet_def)
  moreover have "waits_ok ?t" using assms(3) by (auto simp: waits_ok_def publish_def head_phase_def)
  ultimately show ?thesis
    unfolding durable_written(3) durable_written_def using s by (intro turns_safe_finally) (auto simp: publish_def)
qed (use assms(2) in simp_all)


lemma calm_safe: "calm_reachable U disk s \<Longrightarrow> loop_safe U s \<and> turns_safe U s \<and> waits_ok s"
proof (induction rule: calm_reachable.induct)
  case calm_start
  show ?case
    by (simp add: loop_safe_def turns_safe_def waits_ok_def quiet_def initial_coordinator_def head_phase_def)
qed (use loop_safe_step turns_safe_step waits_ok_step in blast)

text \<open>
  C12. The store ends up with the published state. In a run in which requests keep out of each other's way, in
  any interleaving of dispatches, durable operations, loads, writes that succeed or fail and
  retries: whenever the state is loaded, no error is reported and the write loop is idle, nothing is
  waiting to be written and the store holds the state that the app shows.
\<close>

theorem published_state_saved:
  assumes "calm_reachable U disk s" "co_loaded s" "co_error s = None" "co_writeLoop s = LoopIdle"
  shows "co_pendingData s = None \<and> saved U (co_data s) (co_disk s)"
  using calm_safe [OF assms(1)] assms(2-4) by (auto simp: loop_safe_def)

text \<open>
  A durable operation is atomic. While it is written, dispatched actions wait and the published state does
  not change. When the write of the last durable operation is done, the published state is the
  written one with the waiting actions applied in their order, and a write of it is on its way. If the write
  fails, the waiting actions are applied to the old state. But if one of the waiting actions throws, all of them are lost.
\<close>

theorem durable_then_queued:
  assumes "coord_reachable U disk s" "co_durableChain s = [(r, DurableWriting d raw)]" "co_loaded s"
    and "coord_step U s (DurableWritten ok) = Some s'"
  shows "coord_step U s (Dispatch q) = Some (s\<lparr>co_queuedActions := co_queuedActions s @ [q]\<rparr>) \<and>
    co_disk s' = (if ok then Some raw else co_disk s) \<and> co_queuedActions s' = [] \<and> co_durableChain s' = [] \<and>
    (case reduce_all U (if ok then d else co_data s) (co_queuedActions s) of
       Inr d' \<Rightarrow> co_data s' = d' \<and>
         (co_queuedActions s = [] \<or> co_pendingData s' = Some d' \<and> co_writeLoop s' \<noteq> LoopIdle \<and> co_error s' = None)
     | Inl e \<Rightarrow> co_data s' = (if ok then d else co_data s) \<and> co_pendingData s' = co_pendingData s)"
proof -
  have n: "co_durableRequests s = 1" using waits_ok_reachable [OF assms(1)] assms(2) by (simp add: waits_ok_def)
  have s': "s' = durable_written U ok d raw s" using assms(2,4) by (simp add: head_phase_def)
  show ?thesis
    using assms(2,3) n unfolding s' durable_written_def
    by (auto simp: dispatch_def durable_finally_def applyQueuedActions_def queuePersistence_def startWriteLoop_def
        publish_def Let_def split: sum.split)
qed


section \<open>Requests that get in each other's way\<close>

definition demo_now :: app_host where
  "demo_now = \<lparr>js_iso = (\<lambda>t. ''t''), js_now = ''t'', js_number = (\<lambda>x. if x = 5 then ''5'' else ''3''), js_parse = (\<lambda>s. None),
     host_profileId = ''p''\<rparr>"

definition show_tools :: "bool \<Rightarrow> app_request" where
  "show_tools b = (SettingsUpdate [(''showToolCalls'', JBool b)], demo_now)"

definition demo_loaded :: "coord_event list" where
  "demo_loaded = [Initialize, LoadRead demo_now True 0, LoadWritten True 0]"

lemma reachable_run:
  assumes "coord_reachable U disk s" "coord_run U s es = Some s'"
  shows "coord_reachable U disk s'"
  using assms by (induction es arbitrary: s) (auto split: bind_splits intro: coord_reachable.step)

definition no_urls :: url_parser where
  "no_urls s = None"

definition lost_wakeup :: "coord_event list" where
  "lost_wakeup = demo_loaded @ [Dispatch (show_tools False), LoopRuns demo_now, LoopWritten demo_now True,
     Dispatch (show_tools True), LoopClosed]"

definition end_of :: "coord_event list \<Rightarrow> coordinator" where
  "end_of es = the (coord_run no_urls (initial_coordinator None) es)"

definition runs :: "coord_event list \<Rightarrow> bool" where
  "runs es \<longleftrightarrow> coord_run no_urls (initial_coordinator None) es \<noteq> None"

lemma coord_run_append: "coord_run U s (es @ fs) = Option.bind (coord_run U s es) (\<lambda>t. coord_run U t fs)"
  by (induction es arbitrary: s) (auto split: bind_splits)

lemma end_of_append: "runs (es @ fs) \<Longrightarrow> coord_run no_urls (end_of es) fs = Some (end_of (es @ fs))"
  by (auto simp: runs_def end_of_def coord_run_append split: bind_splits)

lemma end_of_reachable: "runs es \<Longrightarrow> coord_reachable no_urls None (end_of es)"
  using reachable_run [OF coord_reachable.start] by (auto simp: runs_def end_of_def)

text \<open>A run is evaluated once, with all that is to be checked of its end.\<close>

definition run_check :: "coord_event list \<Rightarrow> (coordinator \<Rightarrow> bool) \<Rightarrow> bool" where
  "run_check es P = (case coord_run no_urls (initial_coordinator None) es of Some s \<Rightarrow> P s | None \<Rightarrow> False)"

lemma run_checkD: "run_check es P \<Longrightarrow> runs es \<and> P (end_of es)"
  by (auto simp: run_check_def runs_def end_of_def split: option.splits)

text \<open>
  An action in the moment in which the write loop closes is not saved. The loop has seen that nothing is
  pending and returned, but \<open>writeLoop\<close> is reset only by the \<open>finally\<close> that follows; an action dispatched in
  between leaves its state in \<open>pendingData\<close> without a loop to write it: everything is settled, no error is
  reported, and the store has the older state.
\<close>

theorem closing_loop_loses_wakeup:
  "coord_reachable no_urls None (end_of lost_wakeup) \<and> settled (end_of lost_wakeup) \<and>
   co_loaded (end_of lost_wakeup) \<and> co_error (end_of lost_wakeup) = None \<and>
   co_pendingData (end_of lost_wakeup) = Some (co_data (end_of lost_wakeup)) \<and>
   set_showToolCalls (app_settings (co_data (end_of lost_wakeup))) \<and>
   co_disk (end_of lost_wakeup) = Some (serializeAppState no_urls demo_now
     (createDefaultAppStateData\<lparr>app_settings := createDefaultAppSettings\<lparr>set_showToolCalls := False\<rparr>\<rparr>))"
proof -
  have "run_check lost_wakeup (\<lambda>s. settled s \<and> co_loaded s \<and> co_error s = None \<and> co_pendingData s = Some (co_data s) \<and>
      set_showToolCalls (app_settings (co_data s)) \<and>
      co_disk s = Some (serializeAppState no_urls demo_now
        (createDefaultAppStateData\<lparr>app_settings := createDefaultAppSettings\<lparr>set_showToolCalls := False\<rparr>\<rparr>)))"
    by code_simp
  from run_checkD [OF this] end_of_reachable show ?thesis by blast
qed


definition retry_overlap :: "coord_event list" where
  "retry_overlap = demo_loaded @ [DispatchDurable (show_tools False), DurableStarts, DurableResumes demo_now, Retry,
     LoopRuns demo_now, DurableWritten True, LoopWritten demo_now True, LoopClosed]"

text \<open>
  A retry during a durable operation undoes it in the store. \<open>retryPersistence\<close> is not part of the chain of
  durable operations: called while one is written, it writes the state from before, and if its write is done last, the
  operation has been reported as durable, everything is settled without an error, and the store has the old state.
\<close>

theorem retry_overwrites_durable:
  "coord_reachable no_urls None (end_of retry_overlap) \<and> settled (end_of retry_overlap) \<and>
   co_error (end_of retry_overlap) = None \<and> co_pendingData (end_of retry_overlap) = None \<and>
   \<not> set_showToolCalls (app_settings (co_data (end_of retry_overlap))) \<and>
   co_disk (end_of retry_overlap) = Some (serializeAppState no_urls demo_now createDefaultAppStateData)"
proof -
  have "run_check retry_overlap (\<lambda>s. settled s \<and> co_error s = None \<and> co_pendingData s = None \<and>
      \<not> set_showToolCalls (app_settings (co_data s)) \<and> co_disk s = Some (serializeAppState no_urls demo_now createDefaultAppStateData))"
    by code_simp
  from run_checkD [OF this] end_of_reachable show ?thesis by blast
qed


section \<open>Concrete runs\<close>

fun calm_check :: "url_parser \<Rightarrow> coordinator \<Rightarrow> coord_event list \<Rightarrow> (coordinator \<Rightarrow> bool) \<Rightarrow> bool" where
  "calm_check U s [] P = P s"
| "calm_check U s (e # es) P = (calm s e \<and> (case coord_step U s e of None \<Rightarrow> False | Some s' \<Rightarrow> calm_check U s' es P))"

lemma calm_checkD:
  "calm_reachable U disk s \<Longrightarrow> calm_check U s es P \<Longrightarrow> \<exists>s'. coord_run U s es = Some s' \<and> calm_reachable U disk s' \<and> P s'"
  by (induction es arbitrary: s) (auto split: option.splits bind_splits intro: calm_step)

lemma runs_prefix: "runs (es @ fs) \<Longrightarrow> runs es"
  by (auto simp: runs_def coord_run_append split: bind_splits)

definition demo_writing :: "coord_event list" where
  "demo_writing = demo_loaded @ [DispatchDurable (show_tools False), DurableStarts, DurableResumes demo_now,
     Dispatch (SettingsRememberThread ''a'' CollabPlan, demo_now)]"

definition demo_rest :: "coord_event list" where
  "demo_rest = [DurableWritten True, LoopRuns demo_now, LoopWritten demo_now False, LoopClosed]"

definition demo_retried :: "coord_event list" where
  "demo_retried = demo_writing @ demo_rest @ [Flush, LoopRuns demo_now, LoopWritten demo_now True, LoopClosed]"

definition demo_tools_off :: app_state where
  "demo_tools_off = createDefaultAppStateData\<lparr>app_settings := createDefaultAppSettings\<lparr>set_showToolCalls := False\<rparr>\<rparr>"

lemma demo_writing_check:
  "run_check demo_writing (\<lambda>s. co_loaded s \<and> coord_step no_urls s (DurableWritten True) \<noteq> None \<and>
     map snd (co_durableChain s) = [DurableWriting demo_tools_off (serializeAppState no_urls demo_now demo_tools_off)])"
  by code_simp

lemma demo_retried_check:
  "calm_check no_urls (initial_coordinator None) demo_retried (\<lambda>s. co_loaded s \<and> co_error s = None \<and> co_writeLoop s = LoopIdle)"
  by code_simp

theorem coordinator_settles_witness:
  "length demo_rest \<le> work (end_of demo_writing) \<and>
   (settled (end_of (demo_writing @ demo_rest)) \<or>
    (\<exists>e. \<not> is_request e \<and> coord_step no_urls (end_of (demo_writing @ demo_rest)) e \<noteq> None))"
proof (rule coordinator_settles)
  obtain t where "coord_run no_urls (initial_coordinator None) demo_retried = Some t"
    using calm_checkD [OF calm_start demo_retried_check] by blast
  then have "runs ((demo_writing @ demo_rest) @ [Flush, LoopRuns demo_now, LoopWritten demo_now True, LoopClosed])"
    by (simp add: runs_def demo_retried_def)
  then have rest: "runs (demo_writing @ demo_rest)" by (rule runs_prefix)
  then show "coord_reachable no_urls None (end_of demo_writing)" by (intro end_of_reachable) (rule runs_prefix)
  from rest show "coord_run no_urls (end_of demo_writing) demo_rest = Some (end_of (demo_writing @ demo_rest))"
    by (rule end_of_append)
  show "list_all (\<lambda>e. \<not> is_request e) demo_rest" by (simp add: demo_rest_def)
qed

theorem published_state_saved_witness:
  "co_pendingData (end_of demo_retried) = None \<and> saved no_urls (co_data (end_of demo_retried)) (co_disk (end_of demo_retried))"
proof (rule published_state_saved)
  obtain t where "coord_run no_urls (initial_coordinator None) demo_retried = Some t" "calm_reachable no_urls None t"
    "co_loaded t" "co_error t = None" "co_writeLoop t = LoopIdle"
    using calm_checkD [OF calm_start demo_retried_check] by blast
  then show "calm_reachable no_urls None (end_of demo_retried)" "co_loaded (end_of demo_retried)"
    "co_error (end_of demo_retried) = None" "co_writeLoop (end_of demo_retried) = LoopIdle"
    by (simp_all add: end_of_def)
qed

theorem durable_then_queued_witness:
  "(let s = end_of demo_writing; s' = the (coord_step no_urls s (DurableWritten True))
    in coord_step no_urls s (Dispatch (show_tools True)) = Some (s\<lparr>co_queuedActions := co_queuedActions s @ [show_tools True]\<rparr>) \<and>
    co_disk s' = (if True then Some (serializeAppState no_urls demo_now demo_tools_off) else co_disk s) \<and>
    co_queuedActions s' = [] \<and> co_durableChain s' = [] \<and>
    (case reduce_all no_urls (if True then demo_tools_off else co_data s) (co_queuedActions s) of
       Inr d' \<Rightarrow> co_data s' = d' \<and>
         (co_queuedActions s = [] \<or> co_pendingData s' = Some d' \<and> co_writeLoop s' \<noteq> LoopIdle \<and> co_error s' = None)
     | Inl e \<Rightarrow> co_data s' = (if True then demo_tools_off else co_data s) \<and> co_pendingData s' = co_pendingData s))"
  unfolding Let_def
proof (rule durable_then_queued)
  note check = run_checkD [OF demo_writing_check]
  then show "coord_reachable no_urls None (end_of demo_writing)" "co_loaded (end_of demo_writing)" by (auto intro: end_of_reachable)
  have "map snd (co_durableChain (end_of demo_writing)) =
      [DurableWriting demo_tools_off (serializeAppState no_urls demo_now demo_tools_off)]" using check by blast
  then show "co_durableChain (end_of demo_writing) = [(fst (hd (co_durableChain (end_of demo_writing))),
      DurableWriting demo_tools_off (serializeAppState no_urls demo_now demo_tools_off))]" by auto
  have "coord_step no_urls (end_of demo_writing) (DurableWritten True) \<noteq> None" using check by blast
  then show "coord_step no_urls (end_of demo_writing) (DurableWritten True) =
      Some (the (coord_step no_urls (end_of demo_writing) (DurableWritten True)))" by auto
qed

end
