(* ===== verification/ChatTypes.thy ===== *)
theory ChatTypes
  imports AgUiTypes
begin

text \<open>
  The data of a chat (\<^verbatim>\<open>bridge/types/chat.ts\<close>) and of the snapshot of a session that the bridge
  sends (\<^verbatim>\<open>bridge/mapping/chatMappingRawTypesAndReaders.ts\<close>). A field that may be missing or
  \<open>null\<close> is an option; the client does not tell the two apart in these records. Numbers that
  come from the wire are rationals; counters that are read as non-negative integers are integers.
\<close>

section \<open>Snapshots\<close>

record token_usage =
  tu_inputTokens :: int
  tu_outputTokens :: int
  tu_reasoningTokens :: "int option"
  tu_cachedReadTokens :: "int option"
  tu_cachedWriteTokens :: "int option"
  tu_totalTokens :: int
  tu_model :: "string option"

record token_totals =
  tt_turns :: int
  tt_inputTokens :: int
  tt_outputTokens :: int
  tt_reasoningTokens :: "int option"
  tt_cachedReadTokens :: "int option"
  tt_cachedWriteTokens :: "int option"
  tt_totalTokens :: int

record snapshot_message =
  sm_id :: string
  sm_role :: string
  sm_parts :: "json list"
  sm_truncated :: bool
  sm_usage :: "token_usage option"

datatype entry_kind = EntryMessage | EntryReasoning | EntryTool

record timeline_entry =
  te_sequence :: rat
  te_kind :: entry_kind
  te_canonicalId :: string

record snapshot_tool =
  st_id :: string
  st_generation :: "rat option"
  st_kind :: string
  st_status :: string
  st_title :: string
  st_content :: string
  st_structuredContent :: "json list"
  st_locations :: "json list"
  st_truncated :: bool
  st_subagent :: bool

record collection_metadata =
  cl_truncated :: bool
  cl_omittedCount :: rat
  cl_oldestAvailableSequence :: "rat option"
  cl_newestSequence :: "rat option"
  cl_beforeCursor :: "string option"
  cl_revision :: rat

record snapshot_continuation =
  sc_revision :: rat
  sc_unavailableCount :: rat
  sc_earliestAvailableSequence :: "rat option"
  sc_latestAvailableSequence :: "rat option"
  sc_maxPageSize :: rat
  sc_maxHistoryEntries :: rat
  sc_maxHistoryBytes :: rat

record plan_entry =
  pl_content :: string
  pl_priority :: string
  pl_status :: string

record acp_usage =
  us_used :: "rat option"
  us_size :: "rat option"
  us_cost :: "string option"

record config_value =
  cv_value :: string
  cv_name :: string
  cv_description :: "string option"

record config_option =
  cg_id :: string
  cg_value :: string
  cg_name :: "string option"
  cg_description :: "string option"
  cg_category :: "string option"
  cg_options :: "config_value list"

record acp_command =
  cd_name :: string
  cd_description :: string

record session_info =
  si_agentId :: string
  si_threadId :: string
  si_title :: "string option"
  si_updatedAt :: "string option"
  si_historyReconstruction :: bool

record active_info =
  ai_runId :: "string option"
  ai_sourceTurnId :: "string option"
  ai_generation :: "rat option"
  ai_toolIds :: "string list"

record acp_snapshot =
  as_version :: rat
  as_timeline :: "timeline_entry list option"
  as_messages :: "snapshot_message list"
  as_tools :: "snapshot_tool list"
  as_messageCollection :: "collection_metadata option"
  as_reasoningCollection :: "collection_metadata option"
  as_toolCollection :: "collection_metadata option"
  as_continuation :: "snapshot_continuation option"
  as_plan :: "plan_entry list"
  as_usage :: acp_usage
  as_tokenTotals :: "token_totals option"
  as_mode :: "string option"
  as_config :: "config_option list"
  as_commands :: "acp_command list"
  as_session :: session_info
  as_active :: active_info


section \<open>Chats\<close>

datatype chat_status = StIdle | StRunning | StError | StComplete

record chat_summary =
  ct_id :: string
  ct_title :: string
  ct_status :: chat_status
  ct_createdAt :: string
  ct_updatedAt :: string
  ct_statusUpdatedAt :: string
  ct_timestampsSynthesized :: "bool option"
  ct_lastMessagePreview :: string
  ct_cwd :: "string option"
  ct_agentId :: "string option"
  ct_modelProvider :: "string option"
  ct_agentNickname :: "string option"
  ct_agentRole :: "string option"
  ct_sourceKind :: "string option"
  ct_parentThreadId :: "string option"
  ct_subAgentDepth :: "rat option"
  ct_lastRunStartedAt :: "string option"
  ct_lastRunFinishedAt :: "string option"
  ct_lastRunDurationMs :: "rat option"
  ct_lastRunExitCode :: "rat option"
  ct_lastRunTimedOut :: "bool option"
  ct_lastError :: "string option"

record plan_snapshot =
  ps_threadId :: string
  ps_turnId :: string
  ps_explanation :: "string option"
  ps_steps :: "(string \<times> string) list"

text \<open>
  A chat has the fields of its summary and those below. Where the source uses a chat as a summary
  (\<open>cloneChatSummary\<close>), the model drops the further fields with \<open>chat_summary.truncate\<close>.
\<close>

record chat = chat_summary +
  ct_messages :: "chat_message list"
  ct_acpSnapshot :: "acp_snapshot option"
  ct_latestPlan :: "plan_snapshot option"
  ct_latestTurnPlan :: "plan_snapshot option"
  ct_latestTurnStatus :: "string option"
  ct_activeTurnId :: "string option"
  ct_acpUsage :: "acp_usage option"
  ct_tokenTotals :: "token_totals option"
  ct_acpMode :: "string option"
  ct_acpConfig :: "config_option list option"
  ct_acpCommands :: "acp_command list option"
  ct_acpActive :: "active_info option"

text \<open>A chat of which only id, title and times are known.\<close>

definition blank_summary :: "string \<Rightarrow> string \<Rightarrow> string \<Rightarrow> chat_summary" where
  "blank_summary i t u = \<lparr>ct_id = i, ct_title = t, ct_status = StIdle, ct_createdAt = u, ct_updatedAt = u, ct_statusUpdatedAt = u,
     ct_timestampsSynthesized = None, ct_lastMessagePreview = [], ct_cwd = None, ct_agentId = None, ct_modelProvider = None,
     ct_agentNickname = None, ct_agentRole = None, ct_sourceKind = None, ct_parentThreadId = None, ct_subAgentDepth = None,
     ct_lastRunStartedAt = None, ct_lastRunFinishedAt = None, ct_lastRunDurationMs = None, ct_lastRunExitCode = None,
     ct_lastRunTimedOut = None, ct_lastError = None\<rparr>"

definition blank_chat :: "string \<Rightarrow> chat_status \<Rightarrow> chat_message list \<Rightarrow> chat" where
  "blank_chat i st ms = chat_summary.extend ((blank_summary i i [])\<lparr>ct_status := st\<rparr>)
     \<lparr>ct_messages = ms, ct_acpSnapshot = None, ct_latestPlan = None, ct_latestTurnPlan = None, ct_latestTurnStatus = None,
      ct_activeTurnId = None, ct_acpUsage = None, ct_tokenTotals = None, ct_acpMode = None, ct_acpConfig = None,
      ct_acpCommands = None, ct_acpActive = None\<rparr>"

end
