(* ===== verification/ThreadTree.thy ===== *)
theory ThreadTree
  imports BridgeUrl ChatTypes JsSort
begin

text \<open>
  \<^verbatim>\<open>shell/navigation/chatThreadTree.ts\<close>: the drawer shows the chats by workspace, each sub-agent thread indented
  below its parent. \<open>localeCompare\<close> of the host is the argument \<open>cmp\<close>. The recursion over the
  children is bounded by fuel, \<^const>\<open>None\<close> standing for a recursion that does not end; for chats with different ids
  the number of chats is enough.
\<close>

record thread_row =
  tr_chat :: chat_summary
  tr_indentLevel :: nat
  tr_rootThreadId :: string

record workspace_section =
  ws_key :: string
  ws_title :: string
  ws_subtitle :: "string option"
  ws_itemCount :: nat
  ws_data :: "thread_row list"

record workspace_bucket =
  wb_cwd :: "string option"
  wb_roots :: "chat_summary list"
  wb_latestUpdatedAt :: string

definition DEFAULT_WORKSPACE_KEY :: string where
  "DEFAULT_WORKSPACE_KEY = ''__bridge_default_workspace__''"

definition normalizeThreadId :: "string option \<Rightarrow> string option" where
  "normalizeThreadId value = Option.bind value (\<lambda>s. if trim s \<noteq> [] then Some (trim s) else None)"

definition normalizeCwd :: "string option \<Rightarrow> string option" where
  "normalizeCwd value = Option.bind value (\<lambda>s. if trim s \<noteq> [] then Some (trim s) else None)"

definition workspaceKey :: "string option \<Rightarrow> string" where
  "workspaceKey cwd = (case cwd of Some c \<Rightarrow> c | None \<Rightarrow> DEFAULT_WORKSPACE_KEY)"

definition with_slashes :: "string \<Rightarrow> string" where
  "with_slashes cwd = strip_slashes (map (\<lambda>c. if c = CHR 0x5C then CHR ''/'' else c) cwd)"

definition workspaceTitle :: "string option \<Rightarrow> string" where
  "workspaceTitle cwd =
     (case cwd of
        None \<Rightarrow> ''Bridge default workspace''
      | Some c \<Rightarrow>
          if c = [] then ''Bridge default workspace''
          else let normalized = with_slashes c
               in if normalized = [] then c
                  else let name = last (split_on CHR ''/'' normalized) in if name = [] then normalized else name)"

definition workspaceSubtitle :: "string option \<Rightarrow> string option" where
  "workspaceSubtitle cwd =
     (case cwd of
        None \<Rightarrow> None
      | Some c \<Rightarrow>
          if c = [] then None
          else let normalized = with_slashes c;
                   segments = filter (\<lambda>s. s \<noteq> []) (split_on CHR ''/'' normalized)
               in Some (if length segments \<le> 2 then normalized
                        else ''.../'' @ join ''/'' (slice_last 2 segments)))"

definition compareByUpdatedAtDesc :: "(string \<Rightarrow> string \<Rightarrow> int) \<Rightarrow> chat_summary \<Rightarrow> chat_summary \<Rightarrow> int" where
  "compareByUpdatedAtDesc cmp left right = cmp (ct_updatedAt right) (ct_updatedAt left)"

definition compareBranchChildren :: "(string \<Rightarrow> string \<Rightarrow> int) \<Rightarrow> chat_summary \<Rightarrow> chat_summary \<Rightarrow> int" where
  "compareBranchChildren cmp left right =
     (if ct_status left = StRunning \<and> ct_status right \<noteq> StRunning then -1
      else if ct_status right = StRunning \<and> ct_status left \<noteq> StRunning then 1
      else let depth = (\<lambda>c. case ct_subAgentDepth c of Some d \<Rightarrow> d | None \<Rightarrow> 0);
               depthDiff = depth left - depth right
           in if depthDiff \<noteq> 0 then (if depthDiff < 0 then -1 else 1)
              else let updatedDiff = cmp (ct_updatedAt right) (ct_updatedAt left)
                   in if updatedDiff \<noteq> 0 then updatedDiff else cmp (ct_title left) (ct_title right))"

text \<open>The parent of a chat in the list, \<^const>\<open>None\<close> for a root.\<close>

definition parent_in :: "chat_summary list \<Rightarrow> chat_summary \<Rightarrow> string option" where
  "parent_in chats chat =
     (case normalizeThreadId (ct_parentThreadId chat) of
        None \<Rightarrow> None
      | Some p \<Rightarrow> if p \<notin> ct_id ` set chats \<or> p = ct_id chat then None else Some p)"

definition add_child :: "chat_summary list \<Rightarrow> chat_summary \<Rightarrow> (string, chat_summary list) jsmap \<Rightarrow> (string, chat_summary list) jsmap" where
  "add_child chats chat m =
     (case parent_in chats chat of
        None \<Rightarrow> m
      | Some p \<Rightarrow> map_put p ((case map_get m p of Some siblings \<Rightarrow> siblings | None \<Rightarrow> []) @ [chat]) m)"

definition childrenByParentId :: "chat_summary list \<Rightarrow> (string, chat_summary list) jsmap" where
  "childrenByParentId chats = fold (add_child chats) chats []"

definition roots_of :: "chat_summary list \<Rightarrow> chat_summary list" where
  "roots_of chats = filter (\<lambda>c. parent_in chats c = None) chats"

fun appendChatBranch ::
  "nat \<Rightarrow> (string \<Rightarrow> string \<Rightarrow> int) \<Rightarrow> (string, chat_summary list) jsmap \<Rightarrow> chat_summary \<Rightarrow> nat \<Rightarrow> string \<Rightarrow> thread_row list option" where
  "appendChatBranch 0 cmp children chat indentLevel rootThreadId = None"
| "appendChatBranch (Suc n) cmp children chat indentLevel rootThreadId =
     map_option (\<lambda>rows. \<lparr>tr_chat = chat, tr_indentLevel = indentLevel, tr_rootThreadId = rootThreadId\<rparr> # concat rows)
       (those (map (\<lambda>child. appendChatBranch n cmp children child (indentLevel + 1) rootThreadId)
          (js_sort (compareBranchChildren cmp) (case map_get children (ct_id chat) of Some cs \<Rightarrow> cs | None \<Rightarrow> []))))"

definition add_root ::
  "(string \<Rightarrow> string \<Rightarrow> int) \<Rightarrow> chat_summary \<Rightarrow> (string, workspace_bucket) jsmap \<Rightarrow> (string, workspace_bucket) jsmap" where
  "add_root cmp rt m =
     (let rootCwd = normalizeCwd (ct_cwd rt); key = workspaceKey rootCwd
      in case map_get m key of
           Some existing \<Rightarrow>
             map_put key (existing\<lparr>wb_roots := wb_roots existing @ [rt],
               wb_latestUpdatedAt := (if cmp (ct_updatedAt rt) (wb_latestUpdatedAt existing) > 0
                 then ct_updatedAt rt else wb_latestUpdatedAt existing)\<rparr>) m
         | None \<Rightarrow> map_put key \<lparr>wb_cwd = rootCwd, wb_roots = [rt], wb_latestUpdatedAt = ct_updatedAt rt\<rparr> m)"

definition rootsByWorkspace :: "(string \<Rightarrow> string \<Rightarrow> int) \<Rightarrow> chat_summary list \<Rightarrow> (string, workspace_bucket) jsmap" where
  "rootsByWorkspace cmp roots = fold (add_root cmp) (js_sort (compareByUpdatedAtDesc cmp) roots) []"

definition workspace_section_of ::
  "nat \<Rightarrow> (string \<Rightarrow> string \<Rightarrow> int) \<Rightarrow> (string, chat_summary list) jsmap \<Rightarrow> string \<times> workspace_bucket \<Rightarrow> workspace_section option" where
  "workspace_section_of n cmp children e =
     map_option (\<lambda>rows. let data = concat rows
         in \<lparr>ws_key = fst e, ws_title = workspaceTitle (wb_cwd (snd e)), ws_subtitle = workspaceSubtitle (wb_cwd (snd e)),
             ws_itemCount = length data, ws_data = data\<rparr>)
       (those (map (\<lambda>rt. appendChatBranch n cmp children rt 0 (ct_id rt))
          (js_sort (compareByUpdatedAtDesc cmp) (wb_roots (snd e)))))"

definition buildChatWorkspaceSections ::
  "nat \<Rightarrow> (string \<Rightarrow> string \<Rightarrow> int) \<Rightarrow> chat_summary list \<Rightarrow> workspace_section list option" where
  "buildChatWorkspaceSections n cmp chats =
     (if chats = [] then Some []
      else those (map (workspace_section_of n cmp (childrenByParentId chats))
        (js_sort (\<lambda>l r. cmp (wb_latestUpdatedAt (snd r)) (wb_latestUpdatedAt (snd l)))
          (rootsByWorkspace cmp (roots_of chats)))))"


section \<open>Below a chat\<close>

text \<open>\<open>descends chats c k d\<close>: following the parents of \<open>d\<close> for \<open>k\<close> steps leads to \<open>c\<close>.\<close>

inductive descends :: "chat_summary list \<Rightarrow> chat_summary \<Rightarrow> nat \<Rightarrow> chat_summary \<Rightarrow> bool" for chats where
  here: "c \<in> set chats \<Longrightarrow> descends chats c 0 c"
| below: "descends chats c k d \<Longrightarrow> e \<in> set chats \<Longrightarrow> parent_in chats e = Some (ct_id d) \<Longrightarrow> descends chats c (Suc k) e"

inductive_cases descends_0 [elim!]: "descends chats c 0 d"
inductive_cases descends_Suc: "descends chats c (Suc k) e"

lemma descends_in: "descends chats c k d \<Longrightarrow> c \<in> set chats \<and> d \<in> set chats"
  by (induction rule: descends.induct) auto

lemma descends_top:
  "descends chats c (Suc k) e \<longleftrightarrow>
   (\<exists>d\<in>set chats. c \<in> set chats \<and> parent_in chats d = Some (ct_id c) \<and> descends chats d k e)"
proof
  show "descends chats c (Suc k) e \<Longrightarrow>
      \<exists>d\<in>set chats. c \<in> set chats \<and> parent_in chats d = Some (ct_id c) \<and> descends chats d k e"
  proof (induction k arbitrary: e)
    case 0
    then show ?case by (auto elim!: descends_Suc intro: here)
  next
    case (Suc k)
    from Suc.prems obtain d where d: "descends chats c (Suc k) d" "e \<in> set chats" "parent_in chats e = Some (ct_id d)"
      by (rule descends_Suc)
    from Suc.IH [OF d(1)] d(2,3) show ?case by (blast intro: below)
  qed
  show "\<exists>d\<in>set chats. c \<in> set chats \<and> parent_in chats d = Some (ct_id c) \<and> descends chats d k e \<Longrightarrow>
      descends chats c (Suc k) e"
  proof (elim bexE conjE)
    fix d assume "d \<in> set chats" "c \<in> set chats" "parent_in chats d = Some (ct_id c)" "descends chats d k e"
    from this(4,3,2,1) show "descends chats c (Suc k) e"
      by (induction rule: descends.induct) (auto intro: here below)
  qed
qed


text \<open>The children of a chat are those that have it as their parent, each once.\<close>

lemma fold_add_child:
  "map_get (fold (add_child chats) cs m) p =
     (let old = (case map_get m p of Some xs \<Rightarrow> xs | None \<Rightarrow> []); new = filter (\<lambda>c. parent_in chats c = Some p) cs
      in if new = [] then map_get m p else Some (old @ new))"
proof (induction cs arbitrary: m)
  case (Cons c cs)
  then show ?case
    by (cases "parent_in chats c") (auto simp: add_child_def map_get_put Let_def split: option.splits)
qed simp

definition children_of :: "chat_summary list \<Rightarrow> chat_summary \<Rightarrow> chat_summary list" where
  "children_of chats c = filter (\<lambda>d. parent_in chats d = Some (ct_id c)) chats"

lemma childrenByParentId_get:
  "(case map_get (childrenByParentId chats) (ct_id c) of Some cs \<Rightarrow> cs | None \<Rightarrow> []) = children_of chats c"
  by (simp add: childrenByParentId_def fold_add_child children_of_def Let_def)

lemma those_map_Some: "(\<And>x. x \<in> set xs \<Longrightarrow> f x \<noteq> None) \<Longrightarrow> those (map f xs) = Some (map (the \<circ> f) xs)"
proof (induction xs)
  case (Cons x xs)
  moreover obtain y where "f x = Some y" using Cons.prems by force
  ultimately show ?case by simp
qed simp

lemma those_map_SomeD: "those (map f xs) = Some ys \<Longrightarrow> ys = map (the \<circ> f) xs \<and> (\<forall>x\<in>set xs. f x \<noteq> None)"
  by (induction xs arbitrary: ys) (auto split: option.splits)


section \<open>One branch\<close>

abbreviation row :: "chat_summary \<Rightarrow> nat \<Rightarrow> string \<Rightarrow> thread_row" where
  "row c k r \<equiv> \<lparr>tr_chat = c, tr_indentLevel = k, tr_rootThreadId = r\<rparr>"

lemma branch_Suc:
  "appendChatBranch (Suc n) cmp (childrenByParentId chats) c k r =
   map_option (\<lambda>rows. row c k r # concat rows)
     (those (map (\<lambda>d. appendChatBranch n cmp (childrenByParentId chats) d (k + 1) r)
        (js_sort (compareBranchChildren cmp) (children_of chats c))))"
  by (simp add: childrenByParentId_get)

declare appendChatBranch.simps(2) [simp del]

lemma set_children: "d \<in> set (children_of chats c) \<longleftrightarrow> d \<in> set chats \<and> parent_in chats d = Some (ct_id c)"
  by (auto simp: children_of_def)

lemma branch_ends:
  assumes "c \<in> set chats" "\<nexists>e. descends chats c n e"
  shows "appendChatBranch n cmp (childrenByParentId chats) c k r \<noteq> None"
  using assms
proof (induction n arbitrary: c k)
  case 0
  then show ?case by (blast intro: here)
next
  case (Suc n)
  then have "appendChatBranch n cmp (childrenByParentId chats) d (k + 1) r \<noteq> None" if "d \<in> set (children_of chats c)" for d
    using that by (auto simp: descends_top set_children)
  then show ?case unfolding branch_Suc by (subst those_map_Some) auto
qed

lemma ex_nat_split: "(\<exists>j :: nat. P j) \<longleftrightarrow> P 0 \<or> (\<exists>j. P (Suc j))"
  by (metis not0_implies_Suc)

lemma branch_rows:
  assumes "c \<in> set chats" "appendChatBranch n cmp (childrenByParentId chats) c k r = Some rows"
  shows "set rows = {row d (k + j) r | d j. descends chats c j d}"
  using assms
proof (induction n arbitrary: c k rows)
  case (Suc n)
  let ?branch = "\<lambda>d. appendChatBranch n cmp (childrenByParentId chats) d (k + 1) r"
  have rows: "rows = row c k r # concat (map (the \<circ> ?branch) (js_sort (compareBranchChildren cmp) (children_of chats c)))"
    and ends: "\<forall>d\<in>set (children_of chats c). ?branch d \<noteq> None"
    using Suc.prems(2) unfolding branch_Suc by (auto dest!: those_map_SomeD)
  have "set (the (?branch d)) = {row e (k + 1 + j) r | e j. descends chats d j e}" if "d \<in> set (children_of chats c)" for d
    using that ends Suc.IH [of d "k + 1"] by (auto simp: set_children)
  then have "set rows = insert (row c k r) (\<Union>d\<in>set (children_of chats c). {row e (k + 1 + j) r | e j. descends chats d j e})"
    by (simp add: rows)
  also have "\<dots> = {row d (k + j) r | d j. descends chats c j d}"
  proof (rule set_eqI)
    fix x
    have "x \<in> {row d (k + j) r | d j. descends chats c j d} \<longleftrightarrow> (\<exists>j d. x = row d (k + j) r \<and> descends chats c j d)"
      by blast
    also have "\<dots> \<longleftrightarrow> (\<exists>d. x = row d (k + 0) r \<and> descends chats c 0 d) \<or> (\<exists>j d. x = row d (k + Suc j) r \<and> descends chats c (Suc j) d)"
      by (rule ex_nat_split)
    also have "\<dots> \<longleftrightarrow> x = row c k r \<or> (\<exists>d\<in>set (children_of chats c). \<exists>j e. x = row e (k + 1 + j) r \<and> descends chats d j e)"
      using Suc.prems(1) by (auto simp: descends_top set_children intro: here)
    also have "\<dots> \<longleftrightarrow> x \<in> insert (row c k r) (\<Union>d\<in>set (children_of chats c). {row e (k + 1 + j) r | e j. descends chats d j e})"
      by blast
    finally show "x \<in> insert (row c k r) (\<Union>d\<in>set (children_of chats c). {row e (k + 1 + j) r | e j. descends chats d j e}) \<longleftrightarrow>
        x \<in> {row d (k + j) r | d j. descends chats c j d}" by simp
  qed
  finally show ?case .
qed simp


section \<open>Chats with different ids\<close>

lemma same_id: "distinct (map ct_id chats) \<Longrightarrow> c \<in> set chats \<Longrightarrow> d \<in> set chats \<Longrightarrow> ct_id c = ct_id d \<Longrightarrow> c = d"
  by (auto simp: distinct_map dest: inj_onD)

text \<open>The way up from a chat is unique: its root, the distance and every chat on the way.\<close>

lemma same_top:
  assumes "distinct (map ct_id chats)"
  shows "descends chats c k e \<Longrightarrow> descends chats d k e \<Longrightarrow> c = d"
proof (induction k arbitrary: e)
  case (Suc k)
  from Suc.prems(1) obtain x where x: "descends chats c k x" "parent_in chats e = Some (ct_id x)" by (rule descends_Suc)
  from Suc.prems(2) obtain y where y: "descends chats d k y" "parent_in chats e = Some (ct_id y)" by (rule descends_Suc)
  have "x = y" using same_id [OF assms, of x y] descends_in [OF x(1)] descends_in [OF y(1)] x(2) y(2) by simp
  with x(1) y(1) show ?case using Suc.IH by simp
qed auto

lemma same_root:
  assumes "distinct (map ct_id chats)" "parent_in chats c = None" "parent_in chats d = None"
  shows "descends chats c j e \<Longrightarrow> descends chats d k e \<Longrightarrow> c = d \<and> j = k"
proof (induction j arbitrary: k e)
  case 0
  then show ?case using assms(2) by (cases k) (auto elim!: descends_Suc)
next
  case (Suc j)
  from Suc.prems(1) obtain x where x: "descends chats c j x" "parent_in chats e = Some (ct_id x)" by (rule descends_Suc)
  obtain k' where k: "k = Suc k'" using Suc.prems(2) x(2) assms(3) by (cases k) auto
  with Suc.prems(2) obtain y where y: "descends chats d k' y" "parent_in chats e = Some (ct_id y)" by (auto elim: descends_Suc)
  have "x = y" using same_id [OF assms(1), of x y] descends_in [OF x(1)] descends_in [OF y(1)] x(2) y(2) by simp
  with x(1) y(1) k show ?case using Suc.IH by simp
qed

lemma descends_prefix: "descends chats c k e \<Longrightarrow> i \<le> k \<Longrightarrow> \<exists>d. descends chats c i d"
proof (induction k arbitrary: e)
  case (Suc k)
  then show ?case by (metis descends_Suc le_Suc_eq)
qed (auto intro: here)

lemma descends_short:
  assumes "distinct (map ct_id chats)" "parent_in chats c = None"
  shows "\<nexists>e. descends chats c (length chats) e"
proof
  assume "\<exists>e. descends chats c (length chats) e"
  then obtain f where f: "descends chats c i (f i)" if "i \<le> length chats" for i
    using descends_prefix by metis
  have "inj_on f {..length chats}"
    using f same_root [OF assms(1,2,2)] by (intro inj_onI) (metis atMost_iff)
  moreover have "f ` {..length chats} \<subseteq> set chats" using f descends_in by blast
  ultimately have "card {..length chats} \<le> card (set chats)" by (intro card_inj_on_le) simp_all
  then show False using card_length [of chats] by simp
qed

lemma descends_trans: "descends chats d j e \<Longrightarrow> descends chats c k d \<Longrightarrow> descends chats c (k + j) e"
  by (induction rule: descends.induct) (auto intro: below)

lemma distinct_concat_map:
  assumes "distinct xs" "\<And>x. x \<in> set xs \<Longrightarrow> distinct (f x)"
    and "\<And>x y e. x \<in> set xs \<Longrightarrow> y \<in> set xs \<Longrightarrow> e \<in> set (f x) \<Longrightarrow> e \<in> set (f y) \<Longrightarrow> x = y"
  shows "distinct (concat (map f xs))"
  using assms
proof (induction xs)
  case (Cons x xs)
  then have "distinct (concat (map f xs))" by simp
  moreover have "set (f x) \<inter> set (concat (map f xs)) = {}" using Cons.prems(1,3) by fastforce
  ultimately show ?case using Cons.prems(2) by simp
qed simp

lemma branch_distinct:
  assumes "distinct (map ct_id chats)" "parent_in chats top' = None" "descends chats top' m c"
    and "appendChatBranch n cmp (childrenByParentId chats) c k r = Some rows"
  shows "distinct (map tr_chat rows)"
  using assms(3,4)
proof (induction n arbitrary: c k m rows)
  case (Suc n)
  let ?branch = "\<lambda>d. appendChatBranch n cmp (childrenByParentId chats) d (k + 1) r"
  let ?kids = "js_sort (compareBranchChildren cmp) (children_of chats c)"
  have rows: "rows = row c k r # concat (map (the \<circ> ?branch) ?kids)"
    and ends: "\<forall>d\<in>set (children_of chats c). ?branch d \<noteq> None"
    using Suc.prems(2) unfolding branch_Suc by (auto dest!: those_map_SomeD)
  have kid: "descends chats top' (Suc m) d" "d \<in> set chats" "?branch d = Some (the (?branch d))"
    if "d \<in> set (children_of chats c)" for d
    using that ends Suc.prems(1) by (auto simp: set_children intro: below)
  have chats_of: "tr_chat ` set (the (?branch d)) = {e. \<exists>j. descends chats d j e}" if "d \<in> set (children_of chats c)" for d
    unfolding branch_rows [OF kid(2,3) [OF that]] by (force simp: image_iff)
  have "distinct (concat (map (\<lambda>d. map tr_chat (the (?branch d))) ?kids))"
  proof (rule distinct_concat_map)
    show "distinct ?kids" using assms(1) by (simp add: children_of_def distinct_map)
    show "distinct (map tr_chat (the (?branch d)))" if "d \<in> set ?kids" for d
      using that kid Suc.IH by (metis set_js_sort)
    show "d = d'" if kids: "d \<in> set ?kids" "d' \<in> set ?kids" "e \<in> set (map tr_chat (the (?branch d)))"
      "e \<in> set (map tr_chat (the (?branch d')))" for d d' e
    proof -
      obtain j j' where j: "descends chats d j e" "descends chats d' j' e"
        using kids chats_of [of d] chats_of [of d'] by auto
      from descends_trans [OF j(1) kid(1)] descends_trans [OF j(2) kid(1)] kids(1,2)
      have "descends chats top' (Suc m + j) e" "descends chats top' (Suc m + j') e" by simp_all
      from same_root [OF assms(1,2,2) this] have "j = j'" by simp
      with j show "d = d'" using same_top [OF assms(1)] by blast
    qed
  qed
  moreover have "c \<notin> tr_chat ` set (the (?branch d))" if d: "d \<in> set (children_of chats c)" for d
  proof
    assume "c \<in> tr_chat ` set (the (?branch d))"
    then obtain j where "descends chats d j c" using chats_of [OF d] by auto
    then have "descends chats top' (Suc m + j) c" using kid(1) [OF d] by (rule descends_trans)
    from same_root [OF assms(1,2,2) Suc.prems(1) this] show False by simp
  qed
  ultimately show ?case unfolding rows by (auto simp: map_concat comp_def)
qed simp


section \<open>Workspaces\<close>

definition bucket_roots :: "(string, workspace_bucket) jsmap \<Rightarrow> chat_summary multiset" where
  "bucket_roots m = mset (concat (map (\<lambda>e. wb_roots (snd e)) m))"

definition buckets_ok :: "(string, workspace_bucket) jsmap \<Rightarrow> bool" where
  "buckets_ok m \<longleftrightarrow>
     map_wf m \<and> list_all (\<lambda>(k, b). list_all (\<lambda>c. workspaceKey (normalizeCwd (ct_cwd c)) = k) (wb_roots b)) m"

lemma bucket_roots_put:
  "bucket_roots (map_put k b m) + (case map_get m k of Some old \<Rightarrow> mset (wb_roots old) | None \<Rightarrow> {#}) =
   bucket_roots m + mset (wb_roots b)"
  by (induction m) (auto simp: bucket_roots_def split: option.splits)

lemma bucket_roots_append:
  "map_get m k = Some old \<Longrightarrow> wb_roots b = wb_roots old @ [c] \<Longrightarrow> bucket_roots (map_put k b m) = add_mset c (bucket_roots m)"
  using bucket_roots_put [of k b m] by simp

lemma add_root_roots: "bucket_roots (add_root cmp c m) = bucket_roots m + {#c#}"
  using bucket_roots_put [of "workspaceKey (normalizeCwd (ct_cwd c))" _ m]
  by (auto simp: add_root_def Let_def bucket_roots_append split: option.splits)

lemma add_root_ok: "buckets_ok m \<Longrightarrow> buckets_ok (add_root cmp c m)"
  using set_map_put [of "workspaceKey (normalizeCwd (ct_cwd c))" _ m]
  by (fastforce simp: add_root_def buckets_ok_def Let_def list_all_iff dest: map_of_SomeD split: option.splits)

lemma rootsByWorkspace_facts:
  "bucket_roots (rootsByWorkspace cmp rs) = mset rs" "buckets_ok (rootsByWorkspace cmp rs)"
proof -
  have "bucket_roots (fold (add_root cmp) xs m) = bucket_roots m + mset xs" for xs m
    by (induction xs arbitrary: m) (simp_all add: add_root_roots)
  then show "bucket_roots (rootsByWorkspace cmp rs) = mset rs"
    by (simp add: rootsByWorkspace_def) (simp add: bucket_roots_def)
  have "buckets_ok m \<Longrightarrow> buckets_ok (fold (add_root cmp) xs m)" for xs m
    by (induction xs arbitrary: m) (simp_all add: add_root_ok)
  then show "buckets_ok (rootsByWorkspace cmp rs)" by (simp add: rootsByWorkspace_def buckets_ok_def)
qed


lemma mset_concat_map: "mset (concat (map g xs)) = (\<Sum>x\<in>#mset xs. mset (g x))"
  by (induction xs) simp_all

lemma concat_concat_map: "concat (map (\<lambda>x. concat (map f (g x))) xs) = concat (map f (concat (map g xs)))"
  by (induction xs) simp_all

lemma map_concat_map: "map g (concat (map f xs)) = concat (map (\<lambda>x. map g (f x)) xs)"
  by (induction xs) simp_all

text \<open>The rows below a root, the workspaces in the order of the drawer, and the section of a workspace.\<close>

definition branch_of :: "(string \<Rightarrow> string \<Rightarrow> int) \<Rightarrow> chat_summary list \<Rightarrow> chat_summary \<Rightarrow> thread_row list" where
  "branch_of cmp chats c = the (appendChatBranch (length chats) cmp (childrenByParentId chats) c 0 (ct_id c))"

definition sorted_buckets :: "(string \<Rightarrow> string \<Rightarrow> int) \<Rightarrow> chat_summary list \<Rightarrow> (string \<times> workspace_bucket) list" where
  "sorted_buckets cmp chats =
     js_sort (\<lambda>l r. cmp (wb_latestUpdatedAt (snd r)) (wb_latestUpdatedAt (snd l))) (rootsByWorkspace cmp (roots_of chats))"

definition sorted_roots :: "(string \<Rightarrow> string \<Rightarrow> int) \<Rightarrow> string \<times> workspace_bucket \<Rightarrow> chat_summary list" where
  "sorted_roots cmp e = js_sort (compareByUpdatedAtDesc cmp) (wb_roots (snd e))"

definition drawn_roots :: "(string \<Rightarrow> string \<Rightarrow> int) \<Rightarrow> chat_summary list \<Rightarrow> chat_summary list" where
  "drawn_roots cmp chats = concat (map (sorted_roots cmp) (sorted_buckets cmp chats))"

definition drawn_section :: "(string \<Rightarrow> string \<Rightarrow> int) \<Rightarrow> chat_summary list \<Rightarrow> string \<times> workspace_bucket \<Rightarrow> workspace_section" where
  "drawn_section cmp chats e =
     \<lparr>ws_key = fst e, ws_title = workspaceTitle (wb_cwd (snd e)), ws_subtitle = workspaceSubtitle (wb_cwd (snd e)),
      ws_itemCount = length (concat (map (branch_of cmp chats) (sorted_roots cmp e))),
      ws_data = concat (map (branch_of cmp chats) (sorted_roots cmp e))\<rparr>"

lemma drawn_roots_mset: "mset (drawn_roots cmp chats) = mset (roots_of chats)"
  using rootsByWorkspace_facts(1) [of cmp "roots_of chats"]
  by (simp add: drawn_roots_def sorted_buckets_def sorted_roots_def [abs_def] bucket_roots_def mset_concat_map)

lemma drawn_roots_set: "set (drawn_roots cmp chats) = set (roots_of chats)"
  by (rule mset_eq_setD [OF drawn_roots_mset])

lemma sorted_roots_subset: "e \<in> set (sorted_buckets cmp chats) \<Longrightarrow> set (sorted_roots cmp e) \<subseteq> set (roots_of chats)"
  unfolding drawn_roots_set [of cmp chats, symmetric] by (auto simp: drawn_roots_def)

lemma drawn_branch:
  assumes "distinct (map ct_id chats)" "c \<in> set (roots_of chats)"
  shows "c \<in> set chats" "parent_in chats c = None"
    "appendChatBranch (length chats) cmp (childrenByParentId chats) c 0 (ct_id c) = Some (branch_of cmp chats c)"
    "set (branch_of cmp chats c) = {row d k (ct_id c) | d k. descends chats c k d}"
proof -
  show c: "c \<in> set chats" "parent_in chats c = None" using assms(2) by (simp_all add: roots_of_def)
  show b: "appendChatBranch (length chats) cmp (childrenByParentId chats) c 0 (ct_id c) = Some (branch_of cmp chats c)"
    using c branch_ends [of c chats "length chats" cmp 0 "ct_id c"] descends_short [OF assms(1), of c] by (auto simp: branch_of_def)
  show "set (branch_of cmp chats c) = {row d k (ct_id c) | d k. descends chats c k d}"
    using branch_rows [OF c(1) b] by simp
qed

lemma drawn_sections:
  assumes "distinct (map ct_id chats)" "chats \<noteq> []"
  shows "buildChatWorkspaceSections (length chats) cmp chats = Some (map (drawn_section cmp chats) (sorted_buckets cmp chats))"
proof -
  have "workspace_section_of (length chats) cmp (childrenByParentId chats) e = Some (drawn_section cmp chats e)"
    if e: "e \<in> set (sorted_buckets cmp chats)" for e
  proof -
    have "those (map (\<lambda>c. appendChatBranch (length chats) cmp (childrenByParentId chats) c 0 (ct_id c)) (sorted_roots cmp e)) =
        Some (map (branch_of cmp chats) (sorted_roots cmp e))"
      using drawn_branch(3) [OF assms(1)] sorted_roots_subset [OF e] by (subst those_map_Some) (auto simp: branch_of_def)
    then show ?thesis by (simp add: workspace_section_of_def sorted_roots_def drawn_section_def Let_def)
  qed
  then show ?thesis
    using assms(2) those_map_Some [of "sorted_buckets cmp chats" "workspace_section_of (length chats) cmp (childrenByParentId chats)"]
    by (simp add: buildChatWorkspaceSections_def sorted_buckets_def [symmetric])
qed

lemma drawn_rows:
  "concat (map ws_data (map (drawn_section cmp chats) (sorted_buckets cmp chats))) =
   concat (map (branch_of cmp chats) (drawn_roots cmp chats))"
  by (simp add: drawn_section_def drawn_roots_def map_concat comp_def concat_concat_map)

lemma drawn_rows_distinct:
  assumes "distinct (map ct_id chats)"
  shows "distinct (map tr_chat (concat (map (branch_of cmp chats) (drawn_roots cmp chats))))"
  unfolding map_concat_map [of tr_chat "branch_of cmp chats" "drawn_roots cmp chats"]
proof (rule distinct_concat_map)
  note branch = drawn_branch(1,2) [OF assms] and rows = drawn_branch(3,4) [OF assms, of _ cmp]
  have "distinct (roots_of chats)" using assms by (simp add: roots_of_def distinct_map)
  then show "distinct (drawn_roots cmp chats)" using drawn_roots_mset mset_eq_imp_distinct_iff by blast
  show "distinct (map tr_chat (branch_of cmp chats c))" if "c \<in> set (drawn_roots cmp chats)" for c
    using that branch rows(1) branch_distinct [OF assms, of c 0 c] unfolding drawn_roots_set by (metis here)
  show "c = d" if cd: "c \<in> set (drawn_roots cmp chats)" "d \<in> set (drawn_roots cmp chats)"
    "e \<in> set (map tr_chat (branch_of cmp chats c))" "e \<in> set (map tr_chat (branch_of cmp chats d))" for c d e
    using cd(3,4) rows(2) [of c] rows(2) [of d] cd(1,2) same_root [OF assms branch(2) branch(2)] unfolding drawn_roots_set by auto
qed

lemma drawn_rows_set:
  assumes "distinct (map ct_id chats)"
  shows "set (concat (map (branch_of cmp chats) (drawn_roots cmp chats))) =
    {row d k (ct_id c) | c d k. parent_in chats c = None \<and> descends chats c k d}"
proof -
  have "set (concat (map (branch_of cmp chats) (drawn_roots cmp chats))) =
      (\<Union>c\<in>set (roots_of chats). {row d k (ct_id c) | d k. descends chats c k d})"
    using drawn_branch(4) [OF assms] unfolding drawn_roots_set [of cmp, symmetric] by simp
  also have "\<dots> = {row d k (ct_id c) | c d k. parent_in chats c = None \<and> descends chats c k d}"
    using descends_in [of chats] by (fastforce simp: roots_of_def)
  finally show ?thesis .
qed

lemma drawn_section_rows:
  assumes "distinct (map ct_id chats)" "e \<in> set (sorted_buckets cmp chats)" "x \<in> set (ws_data (drawn_section cmp chats e))"
  shows "\<exists>c\<in>set chats. ct_id c = tr_rootThreadId x \<and> workspaceKey (normalizeCwd (ct_cwd c)) = fst e"
proof -
  have key: "workspaceKey (normalizeCwd (ct_cwd c)) = fst e" if "c \<in> set (sorted_roots cmp e)" for c
    using that assms(2) rootsByWorkspace_facts(2) [of cmp "roots_of chats"]
    by (cases e) (fastforce simp: buckets_ok_def list_all_iff sorted_buckets_def sorted_roots_def)
  from assms(3) obtain c where c: "c \<in> set (sorted_roots cmp e)" "x \<in> set (branch_of cmp chats c)"
    by (auto simp: drawn_section_def)
  then have "c \<in> set (roots_of chats)" using sorted_roots_subset [OF assms(2)] by auto
  with c key [OF c(1)] drawn_branch(1,4) [OF assms(1), of c] show ?thesis by (intro bexI [of _ c]) auto
qed

text \<open>
  C24. The drawer shows every chat that hangs on a root exactly once. If the ids of the chats differ, the recursion ends
  (the number of chats bounds its depth), no chat is shown twice, and the rows are exactly the chats from which
  the parents lead to a root, each with its distance from the root as indentation and the id of the root. In the section of a
  workspace are the rows of the roots of this workspace, and the count of a section is the number of its rows. (Chats whose
  parents form a cycle are not shown.)
\<close>

theorem drawer_rows:
  assumes "distinct (map ct_id chats)"
  shows "\<exists>sections. buildChatWorkspaceSections (length chats) cmp chats = Some sections \<and>
    distinct (map tr_chat (concat (map ws_data sections))) \<and>
    set (concat (map ws_data sections)) =
      {\<lparr>tr_chat = d, tr_indentLevel = k, tr_rootThreadId = ct_id c\<rparr> | c d k. parent_in chats c = None \<and> descends chats c k d} \<and>
    list_all (\<lambda>s. ws_itemCount s = length (ws_data s) \<and>
      (\<forall>x\<in>set (ws_data s). \<exists>c\<in>set chats. ct_id c = tr_rootThreadId x \<and> workspaceKey (normalizeCwd (ct_cwd c)) = ws_key s)) sections"
proof (cases "chats = []")
  case True
  have "\<not> descends [] c k d" for c k d using descends_in by fastforce
  with True show ?thesis by (simp add: buildChatWorkspaceSections_def)
next
  case False
  have "list_all (\<lambda>s. ws_itemCount s = length (ws_data s) \<and>
      (\<forall>x\<in>set (ws_data s). \<exists>c\<in>set chats. ct_id c = tr_rootThreadId x \<and> workspaceKey (normalizeCwd (ct_cwd c)) = ws_key s))
      (map (drawn_section cmp chats) (sorted_buckets cmp chats))"
    using drawn_section_rows [OF assms, of _ cmp] by (auto simp: list_all_iff) (auto simp: drawn_section_def)
  then show ?thesis
    using drawn_sections [OF assms False, of cmp] drawn_rows_distinct [OF assms, of cmp] drawn_rows_set [OF assms, of cmp]
    unfolding drawn_rows [symmetric] by blast
qed


definition demo_chat :: "string \<Rightarrow> string option \<Rightarrow> chat_summary" where
  "demo_chat i p = (blank_summary i i ''t'')\<lparr>ct_cwd := Some ''/w'', ct_parentThreadId := p\<rparr>"

definition demo_chats :: "chat_summary list" where
  "demo_chats = [demo_chat ''a'' None, demo_chat ''b'' (Some ''a''), demo_chat ''x'' (Some ''y''), demo_chat ''y'' (Some ''x'')]"

theorem drawer_rows_witness:
  "\<exists>sections. buildChatWorkspaceSections (length demo_chats) (\<lambda>_ _. 0) demo_chats = Some sections \<and>
    distinct (map tr_chat (concat (map ws_data sections))) \<and>
    set (concat (map ws_data sections)) =
      {\<lparr>tr_chat = d, tr_indentLevel = k, tr_rootThreadId = ct_id c\<rparr> | c d k.
        parent_in demo_chats c = None \<and> descends demo_chats c k d} \<and>
    list_all (\<lambda>s. ws_itemCount s = length (ws_data s) \<and>
      (\<forall>x\<in>set (ws_data s). \<exists>c\<in>set demo_chats.
        ct_id c = tr_rootThreadId x \<and> workspaceKey (normalizeCwd (ct_cwd c)) = ws_key s)) sections"
  by (rule drawer_rows) code_simp

text \<open>
  Chats that are each other's parents are left out of the drawer, without a trace: with the two chats \<open>x\<close> and \<open>y\<close>
  that name each other as parent, only the branch of \<open>a\<close> is shown.
\<close>

theorem parent_cycle_hidden:
  "map_option (map (\<lambda>s. (ws_key s, map (\<lambda>r. (ct_id (tr_chat r), tr_indentLevel r)) (ws_data s))))
     (buildChatWorkspaceSections (length demo_chats) (\<lambda>_ _. 0) demo_chats) =
   Some [(''/w'', [(''a'', 0), (''b'', 1)])]"
  by code_simp

end
