(* ===== verification/JsMaps.thy ===== *)
theory JsMaps
  imports Prelude
begin

text \<open>
  Further operations on insertion-ordered maps that several components share: building a map from
  the keys of its values, writing several entries, and when this changes nothing.
\<close>

text \<open>\<open>new Map(xs.map((x) => [key(x), x]))\<close>\<close>

definition map_by :: "('a \<Rightarrow> 'k) \<Rightarrow> 'a list \<Rightarrow> ('k, 'a) jsmap" where
  "map_by key xs = fold (\<lambda>x. map_put (key x) x) xs []"

section \<open>Writing several entries into a map\<close>

definition put_all :: "('k \<times> 'v) list \<Rightarrow> ('k, 'v) jsmap \<Rightarrow> ('k, 'v) jsmap" where
  "put_all kvs m = fold (\<lambda>(k, v). map_put k v) kvs m"

lemma put_all_simps [simp]:
  "put_all [] m = m" "put_all ((k, v) # kvs) m = put_all kvs (map_put k v m)"
  by (simp_all add: put_all_def)

lemma put_all_get: "map_of (put_all kvs m) = map_of m ++ map_of (rev kvs)"
proof (induction kvs arbitrary: m)
  case (Cons kv kvs)
  obtain k v where kv: "kv = (k, v)" by (cases kv)
  have "map_of (map_put k v m) = map_of m ++ map_of [(k, v)]" by (rule ext) (simp add: map_get_put map_add_def)
  with Cons.IH [of "map_put k v m"] show ?case by (simp only: kv put_all_simps rev.simps map_of_append map_add_assoc)
qed simp

lemma put_all_wf [simp]: "map_wf m \<Longrightarrow> map_wf (put_all kvs m)"
proof (induction kvs arbitrary: m)
  case (Cons kv kvs)
  then show ?case by (cases kv) (simp only: put_all_simps map_wf_put)
qed simp

lemma put_all_append: "put_all (xs @ ys) m = put_all ys (put_all xs m)"
  by (simp add: put_all_def)

lemma map_fst_put_present: "map_has m k \<Longrightarrow> map fst (map_put k v m) = map fst m"
  by (induction m) auto

lemma map_has_put: "map_has (map_put k v m) j \<longleftrightarrow> j = k \<or> map_has m j"
  by (simp add: map_get_put)

lemma map_fst_put_all_present: "\<forall>k\<in>fst ` set kvs. map_has m k \<Longrightarrow> map fst (put_all kvs m) = map fst m"
proof (induction kvs arbitrary: m)
  case (Cons kv kvs)
  obtain k v where "kv = (k, v)" by (cases kv)
  with Cons show ?case by (simp add: map_fst_put_present map_get_put)
qed simp

lemma alist_eqI:
  "map fst a = map fst b \<Longrightarrow> map_wf a \<Longrightarrow> map_of a = map_of b \<Longrightarrow> a = b"
proof (induction a arbitrary: b)
  case (Cons x a)
  obtain k v where x: "x = (k, v)" by (cases x)
  with Cons.prems(1) obtain w b' where b: "b = (k, w) # b'" by (cases b) auto
  have same: "map_of ((k, v) # a) j = map_of ((k, w) # b') j" for j
    using fun_cong [OF Cons.prems(3), of j] by (simp only: x b)
  have "v = w" using same [of k] by simp
  moreover have "map_of a j = map_of b' j" for j
  proof (cases "j = k")
    case True
    have "set (map fst a) = set (map fst b')" using Cons.prems(1) x b by simp
    moreover have "k \<notin> set (map fst a)" using Cons.prems(2) x by simp
    ultimately have "map_of a k = None" "map_of b' k = None" by (simp_all add: map_of_eq_None_iff)
    with True show ?thesis by simp
  next
    case False
    then show ?thesis using same [of j] by simp
  qed
  ultimately show ?case using Cons.IH [of b'] Cons.prems(1,2) x b by (simp add: fun_eq_iff)
qed simp

lemma put_all_unchanged:
  assumes "map_wf m" "map_of m ++ map_of (rev kvs) = map_of m"
  shows "put_all kvs m = m"
proof (rule alist_eqI)
  have "map_has m k" if "k \<in> fst ` set kvs" for k
  proof -
    have "map_of (rev kvs) k \<noteq> None" using that by (simp add: map_of_eq_None_iff)
    then have "(map_of m ++ map_of (rev kvs)) k \<noteq> None" by (auto simp: map_add_def)
    then show ?thesis using assms(2) by simp
  qed
  then show "map fst (put_all kvs m) = map fst m" by (intro map_fst_put_all_present) simp
qed (use assms in \<open>simp_all add: put_all_get\<close>)

lemma map_add_again: "f ++ g ++ g = f ++ g"
  by (rule ext) (simp add: map_add_def split: option.splits)

lemma put_all_again: "map_wf m \<Longrightarrow> put_all kvs (put_all kvs m) = put_all kvs m"
  by (rule put_all_unchanged) (simp_all add: put_all_get map_add_again)

text \<open>A map whose keys are the keys of its values, as \<open>map_by\<close> builds it.\<close>

definition keyed :: "('a \<Rightarrow> 'k) \<Rightarrow> ('k, 'a) jsmap \<Rightarrow> bool" where
  "keyed key m \<longleftrightarrow> map_wf m \<and> (\<forall>(k, x)\<in>set m. key x = k)"

lemma map_by_put_all: "map_by key xs = put_all (map (\<lambda>x. (key x, x)) xs) []"
proof -
  have "fold (\<lambda>x. map_put (key x) x) xs m = put_all (map (\<lambda>x. (key x, x)) xs) m" for m
    by (induction xs arbitrary: m) simp_all
  then show ?thesis by (simp add: map_by_def)
qed

lemma keyed_put: "keyed key m \<Longrightarrow> keyed key (map_put (key x) x m)"
  using set_map_put [of "key x" x m] by (auto simp: keyed_def)

lemma keyed_put_all: "keyed key m \<Longrightarrow> keyed key (put_all (map (\<lambda>x. (key x, x)) xs) m)"
  by (induction xs arbitrary: m) (simp_all add: keyed_put)

lemma keyed_map_by: "keyed key (map_by key xs)"
  unfolding map_by_put_all by (rule keyed_put_all) (simp add: keyed_def)

lemma put_all_distinct:
  assumes "distinct (map key xs)" "\<forall>x\<in>set xs. \<not> map_has m (key x)"
  shows "put_all (map (\<lambda>x. (key x, x)) xs) m = m @ map (\<lambda>x. (key x, x)) xs"
  using assms
proof (induction xs arbitrary: m)
  case (Cons x xs)
  then have "\<forall>y\<in>set xs. \<not> map_has (m @ [(key x, x)]) (key y)" by (auto simp: map_add_def image_iff)
  with Cons show ?case by (simp add: map_put_absent)
qed simp

lemma map_by_distinct: "distinct (map key xs) \<Longrightarrow> map_by key xs = map (\<lambda>x. (key x, x)) xs"
  by (simp add: map_by_put_all put_all_distinct)

lemma keyed_values: "keyed key m \<Longrightarrow> map (\<lambda>x. (key x, x)) (map snd m) = m"
  by (induction m) (auto simp: keyed_def)

lemma keyed_keys: "keyed key m \<Longrightarrow> map key (map snd m) = map fst m"
  by (induction m) (auto simp: keyed_def)

lemma map_by_values: "keyed key m \<Longrightarrow> map_by key (map snd m) = m"
  using map_by_distinct [of key "map snd m"] by (simp only: keyed_keys keyed_values) (simp add: keyed_def)

end
