(* ===== verification/SnapshotPages.thy ===== *)
theory SnapshotPages
  imports ChatTypes AgUiText JsMaps
begin

text \<open>
  Snapshots of a session and the pages of earlier history: the readers of
  \<^verbatim>\<open>bridge/mapping/chatMappingSnapshotAndSummaryProjection.ts\<close> (\<open>toRawAcpSnapshot\<close>) and of
  \<^verbatim>\<open>bridge/client/clientChatListInternals.ts\<close> (\<open>readSnapshotPageResponse\<close>), and
  \<open>mergeSnapshotPage\<close> of \<^verbatim>\<open>bridge/client/clientContractsAndSnapshotInternals.ts\<close>.
\<close>

section \<open>Reading a snapshot\<close>

text \<open>\<open>Array.isArray(r[k]) ? r[k] : []\<close>, and the objects among its elements.\<close>

definition array_of :: "(string, json) jsmap \<Rightarrow> string \<Rightarrow> json list" where
  "array_of r k = (case map_get r k of Some (JArr xs) \<Rightarrow> xs | _ \<Rightarrow> [])"

definition records_of :: "(string, json) jsmap \<Rightarrow> string \<Rightarrow> (string, json) jsmap list" where
  "records_of r k = List.map_filter (\<lambda>j. toRecord (Some j)) (array_of r k)"

definition str_or_empty :: "valibot \<Rightarrow> (string, json) jsmap \<Rightarrow> string \<Rightarrow> string" where
  "str_or_empty vb r k = (case readString vb (map_get r k) of Some s \<Rightarrow> s | None \<Rightarrow> [])"

definition is_true :: "(string, json) jsmap \<Rightarrow> string \<Rightarrow> bool" where
  "is_true r k = (map_get r k = Some (JBool True))"

definition num_or_zero :: "valibot \<Rightarrow> (string, json) jsmap \<Rightarrow> string \<Rightarrow> rat" where
  "num_or_zero vb r k = (case readCoercedFiniteNumber vb (map_get r k) of Some n \<Rightarrow> n | None \<Rightarrow> 0)"

fun readFirstNonNegativeInteger :: "valibot \<Rightarrow> json option list \<Rightarrow> int option" where
  "readFirstNonNegativeInteger vb [] = None"
| "readFirstNonNegativeInteger vb (v # vs) =
     (case readNonNegativeIntegerLike vb v of Some n \<Rightarrow> Some n | None \<Rightarrow> readFirstNonNegativeInteger vb vs)"

definition token_field :: "valibot \<Rightarrow> (string, json) jsmap \<Rightarrow> string \<Rightarrow> string \<Rightarrow> int option" where
  "token_field vb r camel snake = readFirstNonNegativeInteger vb [map_get r camel, map_get r snake]"

definition parseSnapshotMessageUsage :: "valibot \<Rightarrow> json option \<Rightarrow> token_usage option" where
  "parseSnapshotMessageUsage vb value =
     (case toRecord value of
        None \<Rightarrow> None
      | Some usage \<Rightarrow>
          (case (token_field vb usage ''inputTokens'' ''input_tokens'', token_field vb usage ''outputTokens'' ''output_tokens'',
                 token_field vb usage ''totalTokens'' ''total_tokens'') of
             (Some inputTokens, Some outputTokens, Some totalTokens) \<Rightarrow>
               Some \<lparr>tu_inputTokens = inputTokens, tu_outputTokens = outputTokens,
                 tu_reasoningTokens = token_field vb usage ''reasoningTokens'' ''reasoning_tokens'',
                 tu_cachedReadTokens = token_field vb usage ''cachedReadTokens'' ''cached_read_tokens'',
                 tu_cachedWriteTokens = token_field vb usage ''cachedWriteTokens'' ''cached_write_tokens'',
                 tu_totalTokens = totalTokens,
                 tu_model = non_empty (map_option trim (readString vb (map_get usage ''model'')))\<rparr>
           | _ \<Rightarrow> None))"

definition parseSnapshotMessages :: "valibot \<Rightarrow> (string, json) jsmap \<Rightarrow> snapshot_message list" where
  "parseSnapshotMessages vb snapshot =
     filter (\<lambda>m. sm_id m \<noteq> [] \<and> sm_role m \<noteq> [])
       (map (\<lambda>r. \<lparr>sm_id = str_or_empty vb r ''id'', sm_role = str_or_empty vb r ''role'', sm_parts = array_of r ''parts'',
               sm_truncated = is_true r ''truncated'', sm_usage = parseSnapshotMessageUsage vb (map_get r ''usage'')\<rparr>)
         (records_of snapshot ''messages''))"

definition parseSnapshotTools :: "valibot \<Rightarrow> (string, json) jsmap \<Rightarrow> snapshot_tool list" where
  "parseSnapshotTools vb snapshot =
     filter (\<lambda>t. st_id t \<noteq> [])
       (map (\<lambda>r. \<lparr>st_id = str_or_empty vb r ''id'', st_generation = readCoercedFiniteNumber vb (map_get r ''generation''),
               st_kind = str_or_empty vb r ''kind'', st_status = str_or_empty vb r ''status'', st_title = str_or_empty vb r ''title'',
               st_content = str_or_empty vb r ''content'', st_structuredContent = array_of r ''structuredContent'',
               st_locations = array_of r ''locations'', st_truncated = is_true r ''truncated'', st_subagent = is_true r ''subagent''\<rparr>)
         (records_of snapshot ''tools''))"

definition entry_kind_of :: "string option \<Rightarrow> entry_kind option" where
  "entry_kind_of kind =
     (case kind of
        None \<Rightarrow> None
      | Some k \<Rightarrow> if k = ''message'' then Some EntryMessage else if k = ''reasoning'' then Some EntryReasoning
                   else if k = ''tool'' then Some EntryTool else None)"

definition timeline_entry_of :: "valibot \<Rightarrow> (string, json) jsmap \<Rightarrow> timeline_entry option" where
  "timeline_entry_of vb r =
     (let sequence = (case readCoercedFiniteNumber vb (map_get r ''sequence'') of Some n \<Rightarrow> n | None \<Rightarrow> -1);
          canonicalId = str_or_empty vb r ''canonicalId''
      in case entry_kind_of (readString vb (map_get r ''kind'')) of
           Some kind \<Rightarrow>
             if 0 \<le> sequence \<and> canonicalId \<noteq> []
             then Some \<lparr>te_sequence = sequence, te_kind = kind, te_canonicalId = canonicalId\<rparr> else None
         | None \<Rightarrow> None)"

definition parseSnapshotTimeline :: "valibot \<Rightarrow> (string, json) jsmap \<Rightarrow> timeline_entry list" where
  "parseSnapshotTimeline vb snapshot = List.map_filter (timeline_entry_of vb) (records_of snapshot ''timeline'')"

definition parseSnapshotPlan :: "valibot \<Rightarrow> (string, json) jsmap \<Rightarrow> plan_entry list" where
  "parseSnapshotPlan vb snapshot =
     filter (\<lambda>p. pl_content p \<noteq> [])
       (map (\<lambda>r. \<lparr>pl_content = str_or_empty vb r ''content'', pl_priority = str_or_empty vb r ''priority'',
               pl_status = str_or_empty vb r ''status''\<rparr>) (records_of snapshot ''plan''))"

definition parseSnapshotConfig :: "valibot \<Rightarrow> (string, json) jsmap \<Rightarrow> config_option list" where
  "parseSnapshotConfig vb snapshot =
     filter (\<lambda>c. cg_id c \<noteq> [])
       (map (\<lambda>r. \<lparr>cg_id = str_or_empty vb r ''id'', cg_value = str_or_empty vb r ''value'',
               cg_name = readString vb (map_get r ''name''), cg_description = readString vb (map_get r ''description''),
               cg_category = readString vb (map_get r ''category''),
               cg_options = filter (\<lambda>v. cv_value v \<noteq> [] \<and> cv_name v \<noteq> [])
                 (map (\<lambda>v. \<lparr>cv_value = str_or_empty vb v ''value'', cv_name = str_or_empty vb v ''name'',
                        cv_description = readString vb (map_get v ''description'')\<rparr>) (records_of r ''options''))\<rparr>)
         (records_of snapshot ''config''))"

definition parseSnapshotCommands :: "valibot \<Rightarrow> (string, json) jsmap \<Rightarrow> acp_command list" where
  "parseSnapshotCommands vb snapshot =
     filter (\<lambda>c. cd_name c \<noteq> [])
       (map (\<lambda>r. \<lparr>cd_name = str_or_empty vb r ''name'', cd_description = str_or_empty vb r ''description''\<rparr>)
         (records_of snapshot ''commands''))"

definition parseSnapshotUsage :: "valibot \<Rightarrow> json option \<Rightarrow> acp_usage" where
  "parseSnapshotUsage vb usageValue =
     (let usage = (case toRecord usageValue of Some r \<Rightarrow> r | None \<Rightarrow> [])
      in \<lparr>us_used = readCoercedFiniteNumber vb (map_get usage ''used''),
          us_size = readCoercedFiniteNumber vb (map_get usage ''size''), us_cost = readString vb (map_get usage ''cost'')\<rparr>)"

definition parseSnapshotTokenTotals :: "valibot \<Rightarrow> json option \<Rightarrow> token_totals option" where
  "parseSnapshotTokenTotals vb value =
     (case toRecord value of
        None \<Rightarrow> None
      | Some totals \<Rightarrow>
          (case (readNonNegativeIntegerLike vb (map_get totals ''turns''), token_field vb totals ''inputTokens'' ''input_tokens'',
                 token_field vb totals ''outputTokens'' ''output_tokens'', token_field vb totals ''totalTokens'' ''total_tokens'') of
             (Some turns, Some inputTokens, Some outputTokens, Some totalTokens) \<Rightarrow>
               Some \<lparr>tt_turns = turns, tt_inputTokens = inputTokens, tt_outputTokens = outputTokens,
                 tt_reasoningTokens = token_field vb totals ''reasoningTokens'' ''reasoning_tokens'',
                 tt_cachedReadTokens = token_field vb totals ''cachedReadTokens'' ''cached_read_tokens'',
                 tt_cachedWriteTokens = token_field vb totals ''cachedWriteTokens'' ''cached_write_tokens'',
                 tt_totalTokens = totalTokens\<rparr>
           | _ \<Rightarrow> None))"

definition readSnapshotCollectionMetadata :: "valibot \<Rightarrow> json option \<Rightarrow> collection_metadata option" where
  "readSnapshotCollectionMetadata vb value =
     (case toRecord value of
        None \<Rightarrow> None
      | Some collection \<Rightarrow>
          map_option (\<lambda>revision.
              \<lparr>cl_truncated = is_true collection ''truncated'', cl_omittedCount = num_or_zero vb collection ''omittedCount'',
               cl_oldestAvailableSequence = readCoercedFiniteNumber vb (map_get collection ''oldestAvailableSequence''),
               cl_newestSequence = readCoercedFiniteNumber vb (map_get collection ''newestSequence''),
               cl_beforeCursor = readString vb (map_get collection ''beforeCursor''), cl_revision = revision\<rparr>)
            (readCoercedFiniteNumber vb (map_get collection ''revision'')))"

definition parseSnapshotContinuation :: "valibot \<Rightarrow> json option \<Rightarrow> snapshot_continuation option" where
  "parseSnapshotContinuation vb value =
     (case toRecord value of
        None \<Rightarrow> None
      | Some r \<Rightarrow>
          map_option (\<lambda>revision.
              \<lparr>sc_revision = revision, sc_unavailableCount = num_or_zero vb r ''unavailableCount'',
               sc_earliestAvailableSequence = readCoercedFiniteNumber vb (map_get r ''earliestAvailableSequence''),
               sc_latestAvailableSequence = readCoercedFiniteNumber vb (map_get r ''latestAvailableSequence''),
               sc_maxPageSize = num_or_zero vb r ''maxPageSize'', sc_maxHistoryEntries = num_or_zero vb r ''maxHistoryEntries'',
               sc_maxHistoryBytes = num_or_zero vb r ''maxHistoryBytes''\<rparr>)
            (readCoercedFiniteNumber vb (map_get r ''revision'')))"

definition parseSnapshotSessionInfo :: "valibot \<Rightarrow> (string, json) jsmap \<Rightarrow> session_info" where
  "parseSnapshotSessionInfo vb session =
     \<lparr>si_agentId = str_or_empty vb session ''agentId'', si_threadId = str_or_empty vb session ''threadId'',
      si_title = readString vb (map_get session ''title''), si_updatedAt = readString vb (map_get session ''updatedAt''),
      si_historyReconstruction = is_true session ''historyReconstruction''\<rparr>"

definition parseSnapshotActiveInfo :: "valibot \<Rightarrow> (string, json) jsmap \<Rightarrow> active_info" where
  "parseSnapshotActiveInfo vb active =
     \<lparr>ai_runId = readString vb (map_get active ''runId''), ai_sourceTurnId = readString vb (map_get active ''sourceTurnId''),
      ai_generation = readCoercedFiniteNumber vb (map_get active ''generation''),
      ai_toolIds = readTrimmedStringArray vb (map_get active ''toolIds'')\<rparr>"

text \<open>\<open>a ?? b\<close> on wire values: \<open>null\<close> falls back too.\<close>

definition nullish_or :: "json option \<Rightarrow> json option \<Rightarrow> json option" where
  "nullish_or a b = (if a = None \<or> a = Some JNull then b else a)"

definition toRawAcpSnapshot :: "valibot \<Rightarrow> json option \<Rightarrow> acp_snapshot option" where
  "toRawAcpSnapshot vb value =
     (case toRecord value of
        None \<Rightarrow> None
      | Some snapshot \<Rightarrow>
          (case (toRecord (map_get snapshot ''session''), toRecord (map_get snapshot ''active'')) of
             (Some session, Some active) \<Rightarrow>
               if readCoercedFiniteNumber vb (map_get snapshot ''version'') \<noteq> Some 2 then None
               else let timeline = parseSnapshotTimeline vb snapshot
                    in Some \<lparr>as_version = 2, as_timeline = (if timeline \<noteq> [] then Some timeline else None),
                         as_messages = parseSnapshotMessages vb snapshot, as_tools = parseSnapshotTools vb snapshot,
                         as_messageCollection = readSnapshotCollectionMetadata vb (map_get snapshot ''messageCollection''),
                         as_reasoningCollection = readSnapshotCollectionMetadata vb (map_get snapshot ''reasoningCollection''),
                         as_toolCollection = readSnapshotCollectionMetadata vb (map_get snapshot ''toolCollection''),
                         as_continuation = parseSnapshotContinuation vb (map_get snapshot ''continuation''),
                         as_plan = parseSnapshotPlan vb snapshot, as_usage = parseSnapshotUsage vb (map_get snapshot ''usage''),
                         as_tokenTotals = parseSnapshotTokenTotals vb
                           (nullish_or (map_get snapshot ''tokenTotals'') (map_get snapshot ''token_totals'')),
                         as_mode = readString vb (map_get snapshot ''mode''), as_config = parseSnapshotConfig vb snapshot,
                         as_commands = parseSnapshotCommands vb snapshot, as_session = parseSnapshotSessionInfo vb session,
                         as_active = parseSnapshotActiveInfo vb active\<rparr>
           | _ \<Rightarrow> None))"


section \<open>Pages\<close>

record page_entry =
  pe_sequence :: rat
  pe_kind :: entry_kind
  pe_canonicalId :: string
  pe_message :: "snapshot_message option"
  pe_tool :: "snapshot_tool option"

record snapshot_page =
  sp_entries :: "page_entry list"
  sp_beforeCursor :: "string option"
  sp_afterCursor :: "string option"
  sp_hasMoreBefore :: bool
  sp_hasMoreAfter :: bool
  sp_unavailableCount :: rat
  sp_earliestAvailableSequence :: "rat option"
  sp_latestAvailableSequence :: "rat option"
  sp_revision :: rat

text \<open>\<open>readFiniteNumber\<close> of the client module: a number, not a string that looks like one.\<close>

definition finite_number :: "json option \<Rightarrow> rat option" where
  "finite_number value = (case value of Some (JNum n) \<Rightarrow> Some n | _ \<Rightarrow> None)"

definition parseSnapshotPageMessage :: "valibot \<Rightarrow> json option \<Rightarrow> string \<Rightarrow> snapshot_message option" where
  "parseSnapshotPageMessage vb value canonicalId =
     map_option (\<lambda>message.
         \<lparr>sm_id = (case readString vb (map_get message ''id'') of Some i \<Rightarrow> i | None \<Rightarrow> canonicalId),
          sm_role = str_or_empty vb message ''role'', sm_parts = array_of message ''parts'',
          sm_truncated = is_true message ''truncated'', sm_usage = None\<rparr>)
       (toRecord value)"

definition parseSnapshotPageTool :: "valibot \<Rightarrow> json option \<Rightarrow> string \<Rightarrow> snapshot_tool option" where
  "parseSnapshotPageTool vb value canonicalId =
     map_option (\<lambda>tool.
         \<lparr>st_id = (case readString vb (map_get tool ''id'') of Some i \<Rightarrow> i | None \<Rightarrow> canonicalId),
          st_generation = finite_number (map_get tool ''generation''), st_kind = str_or_empty vb tool ''kind'',
          st_status = str_or_empty vb tool ''status'', st_title = str_or_empty vb tool ''title'',
          st_content = str_or_empty vb tool ''content'', st_structuredContent = array_of tool ''structuredContent'',
          st_locations = array_of tool ''locations'', st_truncated = is_true tool ''truncated'',
          st_subagent = is_true tool ''subagent''\<rparr>)
       (toRecord value)"

definition parseSnapshotPageEntry :: "valibot \<Rightarrow> json \<Rightarrow> page_entry list" where
  "parseSnapshotPageEntry vb value =
     (let entry = toRecord (Some value);
          canonicalId = non_empty (map_option trim (readString vb (field entry ''canonicalId'')))
      in case (finite_number (field entry ''sequence''), entry_kind_of (readString vb (field entry ''kind'')), canonicalId) of
           (Some sequence, Some kind, Some i) \<Rightarrow>
             [\<lparr>pe_sequence = sequence, pe_kind = kind, pe_canonicalId = i,
               pe_message = parseSnapshotPageMessage vb (field entry ''message'') i,
               pe_tool = parseSnapshotPageTool vb (field entry ''tool'') i\<rparr>]
         | _ \<Rightarrow> [])"

definition readSnapshotPageResponse :: "valibot \<Rightarrow> json option \<Rightarrow> snapshot_page" where
  "readSnapshotPageResponse vb value =
     (let record = (case toRecord value of Some r \<Rightarrow> r | None \<Rightarrow> []);
          number_or_zero = (\<lambda>k. case finite_number (map_get record k) of Some n \<Rightarrow> n | None \<Rightarrow> 0)
      in \<lparr>sp_entries = concat (map (parseSnapshotPageEntry vb) (array_of record ''entries'')),
          sp_beforeCursor = readString vb (map_get record ''beforeCursor''),
          sp_afterCursor = readString vb (map_get record ''afterCursor''),
          sp_hasMoreBefore = is_true record ''hasMoreBefore'', sp_hasMoreAfter = is_true record ''hasMoreAfter'',
          sp_unavailableCount = number_or_zero ''unavailableCount'',
          sp_earliestAvailableSequence = finite_number (map_get record ''earliestAvailableSequence''),
          sp_latestAvailableSequence = finite_number (map_get record ''latestAvailableSequence''),
          sp_revision = number_or_zero ''revision''\<rparr>)"

definition page_timeline_entry :: "page_entry \<Rightarrow> timeline_entry" where
  "page_timeline_entry e = \<lparr>te_sequence = pe_sequence e, te_kind = pe_kind e, te_canonicalId = pe_canonicalId e\<rparr>"

text \<open>The maps that the loop over the entries of the page fills.\<close>

record merge_maps =
  mm_messages :: "(string, snapshot_message) jsmap"
  mm_tools :: "(string, snapshot_tool) jsmap"
  mm_timeline :: "(rat, timeline_entry) jsmap"
  mm_added :: "(entry_kind, nat) jsmap"

definition added_of :: "merge_maps \<Rightarrow> entry_kind \<Rightarrow> nat" where
  "added_of m kind = (case map_get (mm_added m) kind of Some n \<Rightarrow> n | None \<Rightarrow> 0)"

definition merge_entry :: "page_entry \<Rightarrow> merge_maps \<Rightarrow> merge_maps" where
  "merge_entry e m =
     \<lparr>mm_messages = (case pe_message e of Some x \<Rightarrow> map_put (sm_id x) x (mm_messages m) | None \<Rightarrow> mm_messages m),
      mm_tools = (case pe_tool e of Some x \<Rightarrow> map_put (st_id x) x (mm_tools m) | None \<Rightarrow> mm_tools m),
      mm_timeline = map_put (pe_sequence e) (page_timeline_entry e) (mm_timeline m),
      mm_added = (if map_has (mm_timeline m) (pe_sequence e) then mm_added m
                  else map_put (pe_kind e) (added_of m (pe_kind e) + 1) (mm_added m))\<rparr>"

definition merge_entries :: "acp_snapshot \<Rightarrow> snapshot_page \<Rightarrow> merge_maps" where
  "merge_entries snapshot page =
     fold merge_entry (sp_entries page)
       \<lparr>mm_messages = map_by sm_id (as_messages snapshot), mm_tools = map_by st_id (as_tools snapshot),
        mm_timeline = map_by te_sequence (case as_timeline snapshot of Some t \<Rightarrow> t | None \<Rightarrow> []), mm_added = []\<rparr>"

definition updateCollection :: "snapshot_page \<Rightarrow> nat \<Rightarrow> collection_metadata option \<Rightarrow> collection_metadata option" where
  "updateCollection page added metadata =
     map_option (\<lambda>c. c\<lparr>cl_truncated := sp_hasMoreBefore page \<or> sp_unavailableCount page > 0,
         cl_omittedCount := max 0 (cl_omittedCount c - of_nat added),
         cl_oldestAvailableSequence := sp_earliestAvailableSequence page,
         cl_newestSequence := sp_latestAvailableSequence page,
         cl_beforeCursor := (if sp_hasMoreBefore page then sp_beforeCursor page else None),
         cl_revision := sp_revision page\<rparr>) metadata"

definition compare_rat :: "rat \<Rightarrow> rat \<Rightarrow> int" where
  "compare_rat a b = (if a < b then -1 else if a = b then 0 else 1)"

datatype snapshot_error = StaleSnapshotRevisionError rat rat

definition merged_snapshot :: "acp_snapshot \<Rightarrow> snapshot_page \<Rightarrow> acp_snapshot" where
  "merged_snapshot snapshot page =
     (let m = merge_entries snapshot page
      in snapshot\<lparr>
           as_timeline := Some (js_sort (\<lambda>l r. compare_rat (te_sequence l) (te_sequence r)) (map snd (mm_timeline m))),
           as_messages := map snd (mm_messages m), as_tools := map snd (mm_tools m),
           as_messageCollection := updateCollection page (added_of m EntryMessage) (as_messageCollection snapshot),
           as_reasoningCollection := updateCollection page (added_of m EntryReasoning) (as_reasoningCollection snapshot),
           as_toolCollection := updateCollection page (added_of m EntryTool) (as_toolCollection snapshot),
           as_continuation := map_option (\<lambda>c. c\<lparr>sc_revision := sp_revision page,
               sc_unavailableCount := sp_unavailableCount page,
               sc_earliestAvailableSequence := sp_earliestAvailableSequence page,
               sc_latestAvailableSequence := sp_latestAvailableSequence page\<rparr>) (as_continuation snapshot)\<rparr>)"

definition mergeSnapshotPage :: "acp_snapshot \<Rightarrow> snapshot_page \<Rightarrow> snapshot_error + acp_snapshot" where
  "mergeSnapshotPage snapshot page =
     (case as_continuation snapshot of
        Some c \<Rightarrow> if sp_revision page \<noteq> sc_revision c
                  then Inl (StaleSnapshotRevisionError (sc_revision c) (sp_revision page))
                  else Inr (merged_snapshot snapshot page)
      | None \<Rightarrow> Inr (merged_snapshot snapshot page))"


section \<open>The loop over the entries of a page\<close>

definition page_messages :: "snapshot_page \<Rightarrow> snapshot_message list" where
  "page_messages page = List.map_filter pe_message (sp_entries page)"

definition page_tools :: "snapshot_page \<Rightarrow> snapshot_tool list" where
  "page_tools page = List.map_filter pe_tool (sp_entries page)"

definition page_timeline :: "snapshot_page \<Rightarrow> timeline_entry list" where
  "page_timeline page = map page_timeline_entry (sp_entries page)"

abbreviation with_key :: "('a \<Rightarrow> 'k) \<Rightarrow> 'a list \<Rightarrow> ('k \<times> 'a) list" where
  "with_key key xs \<equiv> map (\<lambda>x. (key x, x)) xs"

definition timeline_of :: "acp_snapshot \<Rightarrow> timeline_entry list" where
  "timeline_of snapshot = (case as_timeline snapshot of Some t \<Rightarrow> t | None \<Rightarrow> [])"

lemma te_sequence_page [simp]: "te_sequence (page_timeline_entry e) = pe_sequence e"
  by (simp add: page_timeline_entry_def)

lemma fold_merge_entry:
  "mm_messages (fold merge_entry es m) = put_all (with_key sm_id (List.map_filter pe_message es)) (mm_messages m)"
  "mm_tools (fold merge_entry es m) = put_all (with_key st_id (List.map_filter pe_tool es)) (mm_tools m)"
  "mm_timeline (fold merge_entry es m) = put_all (with_key te_sequence (map page_timeline_entry es)) (mm_timeline m)"
  by (induction es arbitrary: m) (simp_all add: merge_entry_def map_filter_simps split: option.splits)

lemmas merge_fields = merge_entries_def page_messages_def page_tools_def page_timeline_def timeline_of_def fold_merge_entry

lemma merge_entries_messages:
  "mm_messages (merge_entries s p) = put_all (with_key sm_id (page_messages p)) (map_by sm_id (as_messages s))"
  by (simp add: merge_fields)

lemma merge_entries_tools:
  "mm_tools (merge_entries s p) = put_all (with_key st_id (page_tools p)) (map_by st_id (as_tools s))"
  by (simp add: merge_fields)

lemma merge_entries_timeline:
  "mm_timeline (merge_entries s p) = put_all (with_key te_sequence (page_timeline p)) (map_by te_sequence (timeline_of s))"
  by (simp add: merge_fields comp_def)

lemma merge_keyed:
  "keyed sm_id (mm_messages (merge_entries s p))" "keyed st_id (mm_tools (merge_entries s p))"
  "keyed te_sequence (mm_timeline (merge_entries s p))"
  unfolding merge_entries_messages merge_entries_tools merge_entries_timeline
  by (rule keyed_put_all, rule keyed_map_by)+

lemma merge_nothing_added:
  "(\<And>e. e \<in> set es \<Longrightarrow> map_has (mm_timeline m) (pe_sequence e)) \<Longrightarrow> mm_added (fold merge_entry es m) = mm_added m"
proof (induction es arbitrary: m)
  case (Cons e es)
  from Cons.prems have "mm_added (fold merge_entry es (merge_entry e m)) = mm_added (merge_entry e m)"
    by (intro Cons.IH) (simp add: merge_entry_def map_get_put)
  moreover have "mm_added (merge_entry e m) = mm_added m" using Cons.prems by (simp add: merge_entry_def)
  ultimately show ?case by simp
qed simp


section \<open>Sorted timelines\<close>

abbreviation by_sequence :: "timeline_entry \<Rightarrow> timeline_entry \<Rightarrow> int" where
  "by_sequence l r \<equiv> compare_rat (te_sequence l) (te_sequence r)"

definition ascending :: "timeline_entry list \<Rightarrow> bool" where
  "ascending t \<longleftrightarrow> sorted_wrt (<) (map te_sequence t)"

lemma insert_by_ascending:
  "ascending t \<Longrightarrow> te_sequence e \<notin> te_sequence ` set t \<Longrightarrow> ascending (insert_by by_sequence e t)"
  by (induction t) (auto simp: ascending_def compare_rat_def)

lemma js_sort_ascending: "distinct (map te_sequence t) \<Longrightarrow> ascending (js_sort by_sequence t)"
proof (induction t)
  case (Cons e t)
  have "js_sort by_sequence (e # t) = insert_by by_sequence e (js_sort by_sequence t)" by (simp add: js_sort_def)
  with Cons show ?case by (simp add: insert_by_ascending)
qed (simp add: js_sort_def ascending_def)

lemma js_sort_ascending_id: "ascending t \<Longrightarrow> js_sort by_sequence t = t"
proof (induction t)
  case (Cons e t)
  have "js_sort by_sequence (e # t) = insert_by by_sequence e (js_sort by_sequence t)" by (simp add: js_sort_def)
  moreover have "insert_by by_sequence e t = e # t"
    using Cons.prems by (cases t) (auto simp: ascending_def compare_rat_def)
  ultimately show ?case using Cons by (simp add: ascending_def)
qed (simp add: js_sort_def)

lemma ascending_distinct: "ascending t \<Longrightarrow> distinct (map te_sequence t)"
  unfolding ascending_def using strict_sorted_iff by blast

lemma ascending_unique:
  assumes "ascending a" "ascending b" "set a = set b"
  shows "a = b"
proof -
  have "map te_sequence a = map te_sequence b"
    using assms unfolding ascending_def by (metis (no_types, lifting) set_map strict_sorted_equal)
  then have keys: "map fst (with_key te_sequence a) = map fst (with_key te_sequence b)" by (simp add: comp_def)
  have wf: "map_wf (with_key te_sequence a)" "map_wf (with_key te_sequence b)"
    using ascending_distinct [OF assms(1)] ascending_distinct [OF assms(2)] by (simp_all add: comp_def)
  moreover have "set (with_key te_sequence a) = set (with_key te_sequence b)" using assms(3) by simp
  ultimately have "map_of (with_key te_sequence a) = map_of (with_key te_sequence b)" by (rule map_of_inject_set [THEN iffD2])
  with keys wf(1) have "with_key te_sequence a = with_key te_sequence b" by (intro alist_eqI)
  then have "map snd (with_key te_sequence a) = map snd (with_key te_sequence b)" by (rule arg_cong)
  then show ?thesis by (simp add: comp_def)
qed


section \<open>Merging pages\<close>

text \<open>
  What a snapshot or a page says about the history: the entry at each sequence number, the message
  and the tool under each id. Later elements of a list count.
\<close>

record history =
  hs_timeline :: "rat \<Rightarrow> timeline_entry option"
  hs_messages :: "string \<Rightarrow> snapshot_message option"
  hs_tools :: "string \<Rightarrow> snapshot_tool option"

definition history_of :: "timeline_entry list \<Rightarrow> snapshot_message list \<Rightarrow> snapshot_tool list \<Rightarrow> history" where
  "history_of t ms ts = \<lparr>hs_timeline = map_get (map_by te_sequence t), hs_messages = map_get (map_by sm_id ms),
     hs_tools = map_get (map_by st_id ts)\<rparr>"

definition snapshot_history :: "acp_snapshot \<Rightarrow> history" where
  "snapshot_history s = history_of (timeline_of s) (as_messages s) (as_tools s)"

definition page_history :: "snapshot_page \<Rightarrow> history" where
  "page_history p = history_of (page_timeline p) (page_messages p) (page_tools p)"

definition extend_history :: "history \<Rightarrow> history \<Rightarrow> history" where
  "extend_history h g = \<lparr>hs_timeline = hs_timeline h ++ hs_timeline g, hs_messages = hs_messages h ++ hs_messages g,
     hs_tools = hs_tools h ++ hs_tools g\<rparr>"

lemma map_by_get: "map_of (map_by key xs) = map_of (rev (with_key key xs))"
  by (simp add: map_by_put_all put_all_get)

lemma put_all_map_by:
  "map_of (put_all (with_key key xs) (map_by key ys)) = map_of (map_by key ys) ++ map_of (map_by key xs)"
  by (simp only: put_all_get map_by_get)

lemma keyed_sorted_get:
  assumes "keyed te_sequence m"
  shows "map_of (map_by te_sequence (js_sort by_sequence (map snd m))) = map_of m"
proof -
  let ?t = "js_sort by_sequence (map snd m)"
  have "distinct (map te_sequence (map snd m))" using assms by (simp only: keyed_keys) (simp add: keyed_def)
  then have "distinct (map te_sequence ?t)" by (rule ascending_distinct [OF js_sort_ascending])
  then have by_t: "map_by te_sequence ?t = with_key te_sequence ?t" and wf: "map_wf (with_key te_sequence ?t)"
    by (simp_all add: map_by_distinct comp_def)
  have "set (with_key te_sequence ?t) = set (with_key te_sequence (map snd m))" by (simp only: set_map set_js_sort)
  also have "\<dots> = set m" using assms by (simp only: keyed_values)
  finally have "map_of (with_key te_sequence ?t) = map_of m"
    using map_of_inject_set [OF wf, of m] assms by (simp add: keyed_def)
  then show ?thesis by (simp only: by_t)
qed

lemma merge_Inr:
  assumes "mergeSnapshotPage s p = Inr s'"
  shows "timeline_of s' = js_sort by_sequence (map snd (mm_timeline (merge_entries s p)))"
    and "as_timeline s' = Some (timeline_of s')"
    and "as_messages s' = map snd (mm_messages (merge_entries s p))"
    and "as_tools s' = map snd (mm_tools (merge_entries s p))"
  using assms by (auto simp: mergeSnapshotPage_def merged_snapshot_def timeline_of_def Let_def split: option.splits if_splits)

lemma merge_Inr_iff:
  "mergeSnapshotPage s p = Inr s' \<longleftrightarrow>
   s' = merged_snapshot s p \<and> map_option sc_revision (as_continuation s) \<in> {None, Some (sp_revision p)}"
  by (auto simp: mergeSnapshotPage_def split: option.splits)

lemma updateCollection_again: "updateCollection p 0 (updateCollection p n c) = updateCollection p n c"
  by (cases c) (simp_all add: updateCollection_def)

lemma merge_ascending: "mergeSnapshotPage s p = Inr s' \<Longrightarrow> ascending (timeline_of s')"
  unfolding merge_Inr(1) using merge_keyed(3) [of s p]
  by (intro js_sort_ascending) (simp only: keyed_keys, simp add: keyed_def)

lemma merge_map_by:
  assumes "mergeSnapshotPage s p = Inr s'"
  shows "map_by sm_id (as_messages s') = mm_messages (merge_entries s p)"
    and "map_by st_id (as_tools s') = mm_tools (merge_entries s p)"
    and "map_of (map_by te_sequence (timeline_of s')) = map_of (mm_timeline (merge_entries s p))"
  using merge_keyed [of s p] by (simp_all only: merge_Inr [OF assms] map_by_values keyed_sorted_get)

lemma merge_history: "mergeSnapshotPage s p = Inr s' \<Longrightarrow> snapshot_history s' = extend_history (snapshot_history s) (page_history p)"
  unfolding snapshot_history_def history_of_def page_history_def extend_history_def
  by (simp only: merge_map_by) (simp only: merge_entries_messages merge_entries_tools merge_entries_timeline put_all_map_by history.simps)

lemma ascending_history:
  assumes "ascending t"
  shows "set t = {e. \<exists>n. map_of (map_by te_sequence t) n = Some e}"
proof -
  have "map_by te_sequence t = with_key te_sequence t" using assms by (intro map_by_distinct ascending_distinct)
  moreover have "map_wf (with_key te_sequence t)" using ascending_distinct [OF assms] by (simp add: comp_def)
  ultimately show ?thesis by (auto simp: map_of_eq_Some_iff)
qed

text \<open>
  C20. A page of earlier history extends the snapshot. It is refused exactly if the snapshot has a revision and the page
  belongs to another one. Otherwise the timeline of the merged snapshot is strictly increasing in the sequence
  numbers, it is the only such timeline with its content, and the content is that of the snapshot
  overridden by that of the page, for the entries, the messages and the tools alike.
\<close>

theorem page_merge:
  "case mergeSnapshotPage s p of
     Inl e \<Rightarrow> \<exists>c. as_continuation s = Some c \<and> sc_revision c \<noteq> sp_revision p \<and>
       e = StaleSnapshotRevisionError (sc_revision c) (sp_revision p)
   | Inr s' \<Rightarrow> map_option sc_revision (as_continuation s) \<in> {None, Some (sp_revision p)} \<and>
       snapshot_history s' = extend_history (snapshot_history s) (page_history p) \<and>
       sorted_wrt (<) (map te_sequence (timeline_of s')) \<and>
       {t. sorted_wrt (<) (map te_sequence t) \<and> map_get (map_by te_sequence t) = hs_timeline (snapshot_history s')} =
         {timeline_of s'}"
proof (cases "mergeSnapshotPage s p")
  case (Inl e)
  then show ?thesis by (auto simp: mergeSnapshotPage_def Let_def split: option.splits if_splits)
next
  case (Inr s')
  have asc: "ascending (timeline_of s')" by (rule merge_ascending [OF Inr])
  have "t = timeline_of s'" if "ascending t" "map_get (map_by te_sequence t) = hs_timeline (snapshot_history s')" for t
    using that asc ascending_history [OF that(1)] ascending_history [OF asc]
    by (intro ascending_unique) (simp_all add: snapshot_history_def history_of_def)
  moreover have "map_option sc_revision (as_continuation s) \<in> {None, Some (sp_revision p)}"
    using Inr by (auto simp: mergeSnapshotPage_def Let_def split: option.splits if_splits)
  moreover have "map_get (map_by te_sequence (timeline_of s')) = hs_timeline (snapshot_history s')"
    by (simp add: snapshot_history_def history_of_def)
  ultimately have "{t. ascending t \<and> map_get (map_by te_sequence t) = hs_timeline (snapshot_history s')} = {timeline_of s'}"
    and "map_option sc_revision (as_continuation s) \<in> {None, Some (sp_revision p)}"
    using asc by blast+
  with asc merge_history [OF Inr] show ?thesis unfolding Inr ascending_def by simp
qed

text \<open>The maps of the merge, when the same page comes again.\<close>

lemma merge_again_maps:
  assumes "mergeSnapshotPage s p = Inr s'"
  shows "mm_messages (merge_entries s' p) = mm_messages (merge_entries s p)"
    and "mm_tools (merge_entries s' p) = mm_tools (merge_entries s p)"
proof -
  show "mm_messages (merge_entries s' p) = mm_messages (merge_entries s p)"
    unfolding merge_entries_messages [of s'] merge_map_by(1) [OF assms]
    unfolding merge_entries_messages by (intro put_all_again) (metis keyed_def keyed_map_by)
  show "mm_tools (merge_entries s' p) = mm_tools (merge_entries s p)"
    unfolding merge_entries_tools [of s'] merge_map_by(2) [OF assms]
    unfolding merge_entries_tools by (intro put_all_again) (metis keyed_def keyed_map_by)
qed

lemma merge_again_get:
  assumes "mergeSnapshotPage s p = Inr s'"
  shows "map_of (map_by te_sequence (timeline_of s')) ++ map_of (rev (with_key te_sequence (page_timeline p))) =
    map_of (map_by te_sequence (timeline_of s'))"
  by (simp only: merge_map_by(3) [OF assms] merge_entries_timeline put_all_get map_add_again)

lemma merge_again_timeline:
  assumes "mergeSnapshotPage s p = Inr s'"
  shows "mm_timeline (merge_entries s' p) = with_key te_sequence (timeline_of s')"
proof -
  have start: "map_by te_sequence (timeline_of s') = with_key te_sequence (timeline_of s')"
    by (intro map_by_distinct ascending_distinct merge_ascending [OF assms])
  show ?thesis
    unfolding merge_entries_timeline [of s'] start [symmetric]
    using merge_again_get [OF assms] keyed_map_by [of te_sequence "timeline_of s'"]
    by (intro put_all_unchanged) (simp_all only: keyed_def)
qed

lemma merge_again_adds_nothing:
  assumes "mergeSnapshotPage s p = Inr s'"
  shows "added_of (merge_entries s' p) k = 0"
proof -
  have "map_has (map_by te_sequence (timeline_of s')) (pe_sequence e)" if "e \<in> set (sp_entries p)" for e
  proof -
    have "pe_sequence e \<in> fst ` set (rev (with_key te_sequence (page_timeline p)))"
      using that by (force simp: page_timeline_def)
    then have "map_of (rev (with_key te_sequence (page_timeline p))) (pe_sequence e) \<noteq> None"
      by (simp only: map_of_eq_None_iff not_not)
    then have "(map_of (map_by te_sequence (timeline_of s')) ++ map_of (rev (with_key te_sequence (page_timeline p)))) (pe_sequence e) \<noteq> None"
      by (auto simp: map_add_def)
    then show ?thesis unfolding merge_again_get [OF assms] .
  qed
  then have "mm_added (merge_entries s' p) = []"
    unfolding merge_entries_def by (subst merge_nothing_added) (simp_all add: timeline_of_def)
  then show ?thesis by (simp add: added_of_def)
qed

text \<open>
  Merging the same page again changes nothing: neither the transcript nor the counts of what is still missing.
\<close>

theorem page_merge_idempotent:
  assumes "mergeSnapshotPage s p = Inr s'"
  shows "mergeSnapshotPage s' p = Inr s'"
proof -
  note again = merge_again_maps [OF assms] merge_again_timeline [OF assms] merge_again_adds_nothing [OF assms]
  have s': "s' = merged_snapshot s p" using assms by (simp only: merge_Inr_iff)
  have "js_sort by_sequence (map snd (mm_timeline (merge_entries s' p))) = timeline_of s'"
    by (simp add: again comp_def js_sort_ascending_id [OF merge_ascending [OF assms]])
  then have "as_timeline (merged_snapshot s' p) = as_timeline s'" "as_messages (merged_snapshot s' p) = as_messages s'"
    "as_tools (merged_snapshot s' p) = as_tools s'"
    by (simp_all only: merge_Inr(2) [OF assms]) (simp_all add: merged_snapshot_def Let_def merge_Inr [OF assms] again)
  moreover have "as_messageCollection (merged_snapshot s' p) = as_messageCollection s'"
    "as_reasoningCollection (merged_snapshot s' p) = as_reasoningCollection s'"
    "as_toolCollection (merged_snapshot s' p) = as_toolCollection s'"
    by (simp_all add: merged_snapshot_def [of s'] Let_def again)
      (simp_all add: s' merged_snapshot_def Let_def updateCollection_again)
  moreover have "as_continuation (merged_snapshot s' p) = as_continuation s'"
    by (simp add: merged_snapshot_def [of s'] Let_def) (cases "as_continuation s", simp_all add: s' merged_snapshot_def Let_def)
  moreover have "merged_snapshot s' p = s'\<lparr>as_timeline := as_timeline (merged_snapshot s' p),
      as_messages := as_messages (merged_snapshot s' p), as_tools := as_tools (merged_snapshot s' p),
      as_messageCollection := as_messageCollection (merged_snapshot s' p),
      as_reasoningCollection := as_reasoningCollection (merged_snapshot s' p),
      as_toolCollection := as_toolCollection (merged_snapshot s' p),
      as_continuation := as_continuation (merged_snapshot s' p)\<rparr>"
    by (simp add: merged_snapshot_def Let_def)
  ultimately have "merged_snapshot s' p = s'" by simp
  moreover have "map_option sc_revision (as_continuation s') \<in> {None, Some (sp_revision p)}"
    by (cases "as_continuation s") (simp_all add: s' merged_snapshot_def Let_def)
  ultimately show ?thesis by (simp add: merge_Inr_iff)
qed

definition demo_page :: snapshot_page where
  "demo_page = readSnapshotPageResponse valibot_documented (Some (JObj [(''revision'', JNum 3), (''hasMoreBefore'', JBool True),
     (''beforeCursor'', JStr ''c2''), (''entries'', JArr [JObj [(''sequence'', JNum 4), (''kind'', JStr ''message''),
        (''canonicalId'', JStr ''m4''), (''message'', JObj [(''role'', JStr ''user'')])],
        JObj [(''sequence'', JStr ''5''), (''kind'', JStr ''tool''), (''canonicalId'', JStr ''t'')]])]))"

definition demo_snapshot :: "acp_snapshot option" where
  "demo_snapshot = toRawAcpSnapshot valibot_documented (Some (JObj [(''version'', JNum 2), (''session'', JObj []), (''active'', JObj []),
     (''continuation'', JObj [(''revision'', JNum 3)]),
     (''messageCollection'', JObj [(''revision'', JNum 3), (''omittedCount'', JNum 7)]),
     (''timeline'', JArr [JObj [(''sequence'', JNum 9), (''kind'', JStr ''message''), (''canonicalId'', JStr ''m9'')]]),
     (''messages'', JArr [JObj [(''id'', JStr ''m9''), (''role'', JStr ''agent'')]])]))"

lemma demo_merge:
  "map_sum id (\<lambda>s. (map (\<lambda>e. (te_sequence e, te_canonicalId e)) (timeline_of s), map sm_id (as_messages s),
       map_option (\<lambda>c. (cl_omittedCount c, cl_beforeCursor c)) (as_messageCollection s)))
     (mergeSnapshotPage (the demo_snapshot) demo_page) =
   Inr ([(4, ''m4''), (9, ''m9'')], [''m9'', ''m4''], Some (6, Some ''c2''))"
  by code_simp

theorem page_merge_idempotent_witness:
  "\<exists>s'. mergeSnapshotPage (the demo_snapshot) demo_page = Inr s' \<and> mergeSnapshotPage s' demo_page = Inr s' \<and>
     map te_canonicalId (timeline_of s') = [''m4'', ''m9'']"
proof -
  obtain s' where s': "mergeSnapshotPage (the demo_snapshot) demo_page = Inr s'"
    using demo_merge by (cases "mergeSnapshotPage (the demo_snapshot) demo_page") auto
  have "map (\<lambda>e. (te_sequence e, te_canonicalId e)) (timeline_of s') = [(4, ''m4''), (9, ''m9'')]"
    using demo_merge by (simp only: s' map_sum.simps sum.inject prod.inject)
  from arg_cong [OF this, of "map snd"] have "map te_canonicalId (timeline_of s') = [''m4'', ''m9'']"
    by (simp only: map_map comp_def snd_conv list.map)
  with s' page_merge_idempotent [OF s'] show ?thesis by (intro exI [of _ s'] conjI)
qed

text \<open>
  The order in which pages arrive does not matter for the timeline, if two pages say the same about the entries they share.
\<close>

theorem page_merge_order:
  assumes "mergeSnapshotPage s p = Inr a" "mergeSnapshotPage a q = Inr ab"
    and "mergeSnapshotPage s q = Inr b" "mergeSnapshotPage b p = Inr ba"
    and "\<forall>n d e. hs_timeline (page_history p) n = Some d \<and> hs_timeline (page_history q) n = Some e \<longrightarrow> d = e"
  shows "as_timeline ab = as_timeline ba"
proof -
  let ?p = "hs_timeline (page_history p)" and ?q = "hs_timeline (page_history q)"
  have "?p ++ ?q = ?q ++ ?p"
  proof
    fix n
    show "(?p ++ ?q) n = (?q ++ ?p) n" using assms(5) by (cases "?p n"; cases "?q n") (auto simp: map_add_def)
  qed
  then have "hs_timeline (snapshot_history s) ++ ?p ++ ?q = hs_timeline (snapshot_history s) ++ ?q ++ ?p"
    by (simp only: map_add_assoc [symmetric])
  then have "hs_timeline (snapshot_history ab) = hs_timeline (snapshot_history ba)"
    by (simp only: merge_history [OF assms(2)] merge_history [OF assms(4)] merge_history [OF assms(1)] merge_history [OF assms(3)]
        extend_history_def history.simps)
  then have "set (timeline_of ab) = set (timeline_of ba)"
    using ascending_history [OF merge_ascending [OF assms(2)]] ascending_history [OF merge_ascending [OF assms(4)]]
    by (simp add: snapshot_history_def history_of_def)
  then have "timeline_of ab = timeline_of ba"
    using merge_ascending [OF assms(2)] merge_ascending [OF assms(4)] by (intro ascending_unique)
  then show ?thesis using merge_Inr(2) [OF assms(2)] merge_Inr(2) [OF assms(4)] by simp
qed

end
