(* ===== verification/SnapshotTranscript.thy ===== *)
theory SnapshotTranscript
  imports SnapshotPages AgUiReducer
begin

text \<open>
  The transcript of a snapshot (\<^verbatim>\<open>bridge/mapping/chatMappingMessageProjection.ts\<close>): the entries of
  the timeline in the order of their sequence numbers, messages and reasoning as text, tools as tool rows
  or sub-agent cards, with the state and the thread id of a sub-agent read from the task header
  (\<^verbatim>\<open>bridge/mapping/chatMappingPlanParsing.ts\<close>). Proved are that a page of earlier history
  goes in front of the rows of a timeline and changes only their times, that a settled tool call settles its card, and that
  the thread ids of sub-agents are unambiguous.
\<close>

section \<open>Task headers\<close>

definition is_word :: "char \<Rightarrow> bool" where
  "is_word c \<longleftrightarrow> is_alnum c \<or> c = CHR ''_''"

text \<open>The first match of \<open>\b<attribute>="([^"]{1,n})"\<close>; \<open>word\<close> tells whether a word character precedes.\<close>

fun attribute_match :: "string \<Rightarrow> nat \<Rightarrow> bool \<Rightarrow> string \<Rightarrow> string option" where
  "attribute_match attr n word [] = None"
| "attribute_match attr n word (c # cs) =
     (let name = attr @ [CHR ''='', CHR 0x22]; rest = drop (length name) (c # cs); v = takeWhile (\<lambda>x. x \<noteq> CHR 0x22) rest
      in if \<not> word \<and> starts_with (c # cs) name \<and> 1 \<le> length v \<and> length v \<le> n \<and> length v < length rest then Some v
         else attribute_match attr n (is_word c) cs)"

definition readTaskHeaderAttribute :: "string option \<Rightarrow> string \<Rightarrow> string option" where
  "readTaskHeaderAttribute header attribute =
     map_option trim (Option.bind header (attribute_match attribute (if attribute = ''id'' then 1024 else 64) False))"

text \<open>The captures of all matches of \<open><task\s+([^>]+)>\<close>, and what follows a match.\<close>

definition task_match :: "string \<Rightarrow> (string \<times> string) option" where
  "task_match s =
     (if \<not> starts_with s ''<task'' then None
      else let body = takeWhile (\<lambda>c. c \<noteq> CHR ''>'') (drop 5 s); after = drop (5 + length body) s;
               blank = takeWhile is_js_space body; rest = dropWhile is_js_space body
           in if after = [] \<or> blank = [] then None
              else if rest \<noteq> [] then Some (rest, tl after)
              else if length blank \<ge> 2 then Some ([last blank], tl after) else None)"

lemma task_match_shorter: "task_match s = Some (h, r) \<Longrightarrow> length r < length s"
  by (auto simp: task_match_def Let_def split: if_splits)

function task_headers :: "string \<Rightarrow> string list" where
  "task_headers s =
     (case s of
        [] \<Rightarrow> []
      | c # cs \<Rightarrow> (case task_match s of Some (h, r) \<Rightarrow> h # task_headers r | None \<Rightarrow> task_headers cs))"
  by pat_completeness auto
termination
  by (relation "measure length") (auto dest: task_match_shorter)

declare task_headers.simps [simp del]

definition findTaskHeader :: "string \<Rightarrow> string option" where
  "findTaskHeader content =
     find (\<lambda>h. non_empty (readTaskHeaderAttribute (Some h) ''id'') \<noteq> None \<and>
               non_empty (readTaskHeaderAttribute (Some h) ''state'') \<noteq> None)
       (rev (task_headers content))"

text \<open>UTF-8 and Base64 (\<open>TextEncoder\<close>, \<open>btoa\<close>) on code units below 256.\<close>

definition utf8_encode :: "string \<Rightarrow> nat list" where
  "utf8_encode s = concat (map (\<lambda>c. let n = of_char c in if n < 128 then [n] else [192 + n div 64, 128 + n mod 64]) s)"

definition base64_digit :: "nat \<Rightarrow> char" where
  "base64_digit d =
     (if d < 26 then char_of (65 + d) else if d < 52 then char_of (71 + d) else if d < 62 then char_of (d - 4)
      else if d = 62 then CHR ''+'' else CHR ''/'')"

fun btoa :: "nat list \<Rightarrow> string" where
  "btoa [] = []"
| "btoa [a] = [base64_digit (a div 4), base64_digit (a mod 4 * 16), CHR ''='', CHR ''='']"
| "btoa [a, b] = [base64_digit (a div 4), base64_digit (a mod 4 * 16 + b div 16), base64_digit (b mod 16 * 4), CHR ''='']"
| "btoa (a # b # c # r) =
     [base64_digit (a div 4), base64_digit (a mod 4 * 16 + b div 16), base64_digit (b mod 16 * 4 + c div 64),
      base64_digit (c mod 64)] @ btoa r"

definition base64UrlUtf8 :: "string \<Rightarrow> string" where
  "base64UrlUtf8 value =
     rev (dropWhile (\<lambda>c. c = CHR ''='')
       (rev (map (\<lambda>c. if c = CHR ''+'' then CHR ''-'' else if c = CHR ''/'' then CHR ''_'' else c) (btoa (utf8_encode value)))))"

record task_subagent =
  ta_threadId :: string
  ta_state :: string
  ta_result :: "string option"

text \<open>\<open>content.match(/<task_result>([\s\S]*?)<\/task_result>/)?.[1]\<close>\<close>

definition task_result_match :: "string \<Rightarrow> string option" where
  "task_result_match content =
     (case index_of content ''<task_result>'' 0 of
        None \<Rightarrow> None
      | Some i \<Rightarrow>
          map_option (\<lambda>j. take (j - (i + 13)) (drop (i + 13) content)) (index_of content ''</task_result>'' (i + 13)))"

definition subagent_thread_id :: "string \<Rightarrow> string \<Rightarrow> string" where
  "subagent_thread_id agentId sessionId = ''v1.'' @ base64UrlUtf8 agentId @ ''.'' @ base64UrlUtf8 sessionId"

definition parseSnapshotTaskSubagent :: "string \<Rightarrow> string option \<Rightarrow> task_subagent option" where
  "parseSnapshotTaskSubagent content agentId =
     (let header = findTaskHeader content
      in case (non_empty (readTaskHeaderAttribute header ''id''), non_empty (readTaskHeaderAttribute header ''state''),
               non_empty (map_option trim agentId)) of
           (Some sessionId, Some state, Some normalizedAgentId) \<Rightarrow>
             Some \<lparr>ta_threadId = subagent_thread_id normalizedAgentId sessionId, ta_state = state,
               ta_result = map_option (take 2048) (non_empty (map_option trim (task_result_match content)))\<rparr>
         | _ \<Rightarrow> None)"

definition FAILED_SUBAGENT_STATES :: "string list" where
  "FAILED_SUBAGENT_STATES = [''failed'', ''error'', ''aborted'', ''cancelled'', ''canceled'']"

definition TERMINAL_SUBAGENT_STATES :: "string list" where
  "TERMINAL_SUBAGENT_STATES = FAILED_SUBAGENT_STATES @ [''completed'', ''complete'', ''succeeded'', ''closed'']"

definition isFailedSubAgentState :: "string \<Rightarrow> bool" where
  "isFailedSubAgentState state \<longleftrightarrow> to_lower (trim state) \<in> set FAILED_SUBAGENT_STATES"

definition isTerminalSubAgentState :: "string \<Rightarrow> bool" where
  "isTerminalSubAgentState state \<longleftrightarrow> to_lower (trim state) \<in> set TERMINAL_SUBAGENT_STATES"

definition resolveSubAgentState :: "string \<Rightarrow> string option \<Rightarrow> string" where
  "resolveSubAgentState toolStatus headerState =
     (let normalizedTool = to_lower (trim toolStatus); header = non_empty (map_option trim headerState);
          failed_header = (case header of Some h \<Rightarrow> if isFailedSubAgentState h then Some h else None | None \<Rightarrow> None)
      in if isFailedSubAgentState normalizedTool then (case failed_header of Some h \<Rightarrow> h | None \<Rightarrow> ''failed'')
         else if isTerminalSubAgentState normalizedTool then (case failed_header of Some h \<Rightarrow> h | None \<Rightarrow> ''completed'')
         else (case header of Some h \<Rightarrow> h | None \<Rightarrow> ''running''))"

definition isChatMessagePart :: "json \<Rightarrow> bool" where
  "isChatMessagePart value =
     (case toRecord (Some value) of
        None \<Rightarrow> False
      | Some part \<Rightarrow>
          (case str_field part ''type'' of
             None \<Rightarrow> False
           | Some ty \<Rightarrow>
               if ty = ''text'' then str_field part ''text'' \<noteq> None
               else if ty = ''image'' \<or> ty = ''audio'' then True
               else if ty = ''resourceLink'' then str_field part ''uri'' \<noteq> None
               else ty = ''resource'' \<and> toRecord (map_get part ''resource'') \<noteq> None))"


section \<open>Rows of the transcript\<close>

text \<open>
  The host: the library of \<^typ>\<open>js_lib\<close> and \<open>ml_time\<close>, the time value of a date string that the client
  itself has produced with \<open>toISOString\<close>.
\<close>

record mapping_lib =
  ml_js :: js_lib
  ml_time :: "string \<Rightarrow> rat"

definition usage_json :: "token_usage \<Rightarrow> json" where
  "usage_json u =
     (let num = (\<lambda>n. JNum (of_int n)); num_or_null = (\<lambda>v. case v of Some n \<Rightarrow> JNum (of_int n) | None \<Rightarrow> JNull)
      in JObj [(''inputTokens'', num (tu_inputTokens u)), (''outputTokens'', num (tu_outputTokens u)),
           (''reasoningTokens'', num_or_null (tu_reasoningTokens u)), (''cachedReadTokens'', num_or_null (tu_cachedReadTokens u)),
           (''cachedWriteTokens'', num_or_null (tu_cachedWriteTokens u)), (''totalTokens'', num (tu_totalTokens u)),
           (''model'', case tu_model u of Some s \<Rightarrow> JStr s | None \<Rightarrow> JNull)])"

definition buildSnapshotSubagentActivity ::
  "snapshot_tool \<Rightarrow> string option \<Rightarrow> task_subagent option \<Rightarrow> string \<Rightarrow> chat_message" where
  "buildSnapshotSubagentActivity tool rawId taskSubagent createdAt =
     (let state = resolveSubAgentState (st_status tool) (map_option ta_state taskSubagent);
          txt = join_lines
            [BULLET @ (if isFailedSubAgentState state then '' Sub-agent failed''
              else if isTerminalSubAgentState state then '' Sub-agent completed'' else '' Sub-agent working''),
             ''  Status: '' @ state,
             (case Option.bind taskSubagent ta_result of Some r \<Rightarrow> ''  Latest: '' @ r | None \<Rightarrow> [])];
          threadIds = (case map_option ta_threadId taskSubagent of Some i \<Rightarrow> [JStr i] | None \<Rightarrow> [])
      in createActivityMessage (''subagent:'' @ st_id tool) SUBAGENT_ACTIVITY_TYPE
           [(''text'', JStr txt),
            (''subAgent'', JObj ([(''toolCallId'', JStr (st_id tool)), (''tool'', JStr ''spawnAgent'')] @
               (case rawId of Some i \<Rightarrow> [(''senderThreadId'', JStr i)] | None \<Rightarrow> []) @
               [(''receiverThreadIds'', JArr threadIds), (''agentStatus'', JStr state)]))]
           createdAt)"

definition buildSnapshotToolMessage :: "js_lib \<Rightarrow> snapshot_tool \<Rightarrow> string \<Rightarrow> chat_message" where
  "buildSnapshotToolMessage lib tool createdAt =
     (let hasStructured = st_structuredContent tool \<noteq> [] \<or> st_locations tool \<noteq> [];
          structured = (if hasStructured
            then renderAgUiCustomContent lib
                   (JObj [(''content'', JArr (st_structuredContent tool)), (''locations'', JArr (st_locations tool))])
            else []);
          structuredExtras = structuredTextRemainder (st_content tool) structured;
          details = join_lines [(if st_title tool \<noteq> [] then st_title tool else st_kind tool), st_content tool, structuredExtras];
          kind = toToolKind (Some (JStr (st_kind tool)))
      in (blank_message (''tool:'' @ st_id tool) Tool
            (JStr ((if details \<noteq> [] then details else st_id tool) @
               (if st_truncated tool then NL @ ''[tool content truncated]'' else []))) createdAt)
         \<lparr>cm_toolCallId := Some (st_id tool),
          cm_toolMeta := Some \<lparr>tm_toolCallId = st_id tool, tm_kind = kind, tm_status = toToolStatus (Some (JStr (st_status tool))),
            tm_title = (if st_title tool \<noteq> [] then st_title tool else kind_name kind),
            tm_content = Some (st_structuredContent tool), tm_locations = Some (st_locations tool),
            tm_truncated = Some (st_truncated tool)\<rparr>\<rparr>)"

definition isSnapshotSubagentTool :: "snapshot_tool \<Rightarrow> bool" where
  "isSnapshotSubagentTool tool \<longleftrightarrow>
     st_subagent tool \<or>
     filter (\<lambda>c. c \<notin> set ''-_ '') (to_lower (trim (st_title tool))) \<in> {''task'', ''spawnagent'', ''subagent''}"

record mapping_context =
  mc_rawId :: "string option"
  mc_agentId :: string
  mc_messagesById :: "(string, snapshot_message) jsmap"
  mc_toolsById :: "(string, snapshot_tool) jsmap"
  mc_baseTs :: rat

definition mapSnapshotToolEntry :: "mapping_lib \<Rightarrow> mapping_context \<Rightarrow> timeline_entry \<Rightarrow> nat \<Rightarrow> chat_message list" where
  "mapSnapshotToolEntry lib context entry index =
     (case map_get (mc_toolsById context) (te_canonicalId entry) of
        None \<Rightarrow> []
      | Some tool \<Rightarrow>
          let taskSubagent = parseSnapshotTaskSubagent (st_content tool) (Some (mc_agentId context));
              createdAt = js_iso (ml_js lib) (mc_baseTs context + of_nat index * 1000)
          in if taskSubagent \<noteq> None \<or> isSnapshotSubagentTool tool
             then [buildSnapshotSubagentActivity tool (mc_rawId context) taskSubagent createdAt]
             else [buildSnapshotToolMessage (ml_js lib) tool createdAt])"

definition mapSnapshotMessageEntry :: "mapping_lib \<Rightarrow> mapping_context \<Rightarrow> timeline_entry \<Rightarrow> nat \<Rightarrow> chat_message list" where
  "mapSnapshotMessageEntry lib context entry index =
     (case map_get (mc_messagesById context) (te_canonicalId entry) of
        None \<Rightarrow> []
      | Some message \<Rightarrow>
          let parts = filter isChatMessagePart (sm_parts message);
              content = join_lines (map (renderAgUiCustomContent (ml_js lib)) parts);
              common = (\<lambda>role. (blank_message (sm_id message) role
                  (JStr (content @ (if sm_truncated message then NL @ ''[message content truncated]'' else [])))
                  (js_iso (ml_js lib) (mc_baseTs context + of_nat index * 1000)))\<lparr>cm_parts := Some parts\<rparr>)
          in if content = [] then []
             else if sm_role message = ''agent''
               then [(common Assistant)\<lparr>cm_usage := Some (case sm_usage message of Some u \<Rightarrow> usage_json u | None \<Rightarrow> JNull)\<rparr>]
             else if sm_role message = ''user'' then [common User]
             else [common Reasoning])"

definition mapSnapshotTimelineEntry :: "mapping_lib \<Rightarrow> mapping_context \<Rightarrow> timeline_entry \<Rightarrow> nat \<Rightarrow> chat_message list" where
  "mapSnapshotTimelineEntry lib context entry index =
     (if te_kind entry = EntryTool then mapSnapshotToolEntry lib context entry index
      else mapSnapshotMessageEntry lib context entry index)"

definition buildSnapshotTimeline :: "acp_snapshot \<Rightarrow> timeline_entry list" where
  "buildSnapshotTimeline acpSnapshot =
     (case as_timeline acpSnapshot of
        Some t \<Rightarrow> t
      | None \<Rightarrow>
          map (\<lambda>(n, m). \<lparr>te_sequence = of_nat n, te_kind = (if sm_role m = ''thought'' then EntryReasoning else EntryMessage),
                 te_canonicalId = sm_id m\<rparr>) (List.enumerate 0 (as_messages acpSnapshot)) @
          map (\<lambda>(n, t). \<lparr>te_sequence = of_nat n, te_kind = EntryTool, te_canonicalId = st_id t\<rparr>)
            (List.enumerate (length (as_messages acpSnapshot)) (as_tools acpSnapshot)))"

definition buildSnapshotTruncationNotices :: "js_lib \<Rightarrow> acp_snapshot \<Rightarrow> string list" where
  "buildSnapshotTruncationNotices lib acpSnapshot =
     List.map_filter (\<lambda>(name, collection). case collection of
           Some c \<Rightarrow> if cl_truncated c then Some (name @ '': '' @ js_number lib (cl_omittedCount c) @ '' omitted'') else None
         | None \<Rightarrow> None)
       [(''messages'', as_messageCollection acpSnapshot), (''reasoning'', as_reasoningCollection acpSnapshot),
        (''tools'', as_toolCollection acpSnapshot)] @
     (case as_continuation acpSnapshot of
        Some c \<Rightarrow> if sc_unavailableCount c > 0
                  then [''older history unavailable: '' @ js_number lib (sc_unavailableCount c)] else []
      | None \<Rightarrow> [])"

definition mapping_context_of :: "mapping_lib \<Rightarrow> string option \<Rightarrow> string \<Rightarrow> acp_snapshot \<Rightarrow> mapping_context" where
  "mapping_context_of lib rawId fallbackCreatedAt acpSnapshot =
     \<lparr>mc_rawId = rawId, mc_agentId = si_agentId (as_session acpSnapshot), mc_messagesById = map_by sm_id (as_messages acpSnapshot),
      mc_toolsById = map_by st_id (as_tools acpSnapshot), mc_baseTs = ml_time lib fallbackCreatedAt\<rparr>"

definition timeline_rows :: "mapping_lib \<Rightarrow> mapping_context \<Rightarrow> timeline_entry list \<Rightarrow> chat_message list" where
  "timeline_rows lib context t =
     concat (map (\<lambda>(index, entry). mapSnapshotTimelineEntry lib context entry index) (List.enumerate 0 t))"

definition mapMessagesFromAcpSnapshot ::
  "mapping_lib \<Rightarrow> string option \<Rightarrow> acp_snapshot option \<Rightarrow> string \<Rightarrow> chat_message list" where
  "mapMessagesFromAcpSnapshot lib rawId snapshot fallbackCreatedAt =
     (case snapshot of
        None \<Rightarrow> []
      | Some acpSnapshot \<Rightarrow>
          let context = mapping_context_of lib rawId fallbackCreatedAt acpSnapshot;
              mapped = timeline_rows lib context
                (js_sort (\<lambda>l r. compare_rat (te_sequence l) (te_sequence r)) (buildSnapshotTimeline acpSnapshot));
              truncated = buildSnapshotTruncationNotices (ml_js lib) acpSnapshot
          in if truncated \<noteq> []
             then blank_message ((case rawId of Some i \<Rightarrow> i | None \<Rightarrow> ''thread'') @ ''::snapshot-truncated'') System
                    (JStr (''Snapshot truncated ('' @ join '', '' truncated @ '')''))
                    (js_iso (ml_js lib) (ml_time lib fallbackCreatedAt - 1)) # mapped
             else mapped)"


section \<open>The state of a card\<close>

abbreviation code :: "char \<Rightarrow> nat" where
  "code c \<equiv> of_char c"

lemma of_char_lower:
  "code (lower_char c) =
     (if (65 \<le> code c \<and> code c < 91) \<or> (192 \<le> code c \<and> code c < 223 \<and> code c \<noteq> 215) then code c + 32 else code c)"
  by (simp add: lower_char_def Let_def)

lemma is_js_space_lower [simp]: "is_js_space (lower_char c) = is_js_space c"
  unfolding is_js_space_def of_char_lower by auto

lemma lower_char_idem [simp]: "lower_char (lower_char c) = lower_char c"
proof -
  have "code (lower_char (lower_char c)) = code (lower_char c)"
    unfolding of_char_lower [of "lower_char c"] unfolding of_char_lower by simp
  then show ?thesis by simp
qed

lemma dropWhile_space_lower: "dropWhile is_js_space (to_lower s) = to_lower (dropWhile is_js_space s)"
  by (induction s) (simp_all add: to_lower_def)

lemma trim_lower: "trim (to_lower s) = to_lower (trim s)"
  using dropWhile_space_lower [of s] dropWhile_space_lower [of "rev (dropWhile is_js_space s)"]
  by (simp add: trim_def trim_start_def trim_end_def to_lower_def rev_map)

lemma lower_trim_normalized: "to_lower (trim (to_lower (trim s))) = to_lower (trim s)"
  by (simp add: trim_lower) (simp add: to_lower_def)

lemma failed_normalized [simp]: "isFailedSubAgentState (to_lower (trim s)) = isFailedSubAgentState s"
  by (simp add: isFailedSubAgentState_def lower_trim_normalized)

lemma terminal_normalized [simp]: "isTerminalSubAgentState (to_lower (trim s)) = isTerminalSubAgentState s"
  by (simp add: isTerminalSubAgentState_def lower_trim_normalized)

lemma failed_trim [simp]: "isFailedSubAgentState (trim s) = isFailedSubAgentState s"
  by (simp add: isFailedSubAgentState_def)

lemma terminal_trim [simp]: "isTerminalSubAgentState (trim s) = isTerminalSubAgentState s"
  by (simp add: isTerminalSubAgentState_def)

lemma failed_terminal: "isFailedSubAgentState s \<Longrightarrow> isTerminalSubAgentState s"
  by (simp add: isFailedSubAgentState_def isTerminalSubAgentState_def TERMINAL_SUBAGENT_STATES_def)

lemma state_names [simp]:
  "isFailedSubAgentState ''failed''" "\<not> isFailedSubAgentState ''completed''" "\<not> isFailedSubAgentState ''running''"
  "isTerminalSubAgentState ''failed''" "isTerminalSubAgentState ''completed''" "\<not> isTerminalSubAgentState ''running''"
  "\<not> isFailedSubAgentState []" "\<not> isTerminalSubAgentState []"
  by code_simp+

text \<open>
  The state that a sub-agent card shows. A card is settled exactly if the tool call is settled or the newest task header
  reports a settled state, and it shows a failure exactly if one of the two reports a failure: a header that still says running
  cannot keep the card of a settled tool call running, and a failure is never shown as a success.
\<close>

theorem subagent_state:
  "(isTerminalSubAgentState (resolveSubAgentState tool header) \<longleftrightarrow>
     isTerminalSubAgentState tool \<or> isTerminalSubAgentState (case header of Some h \<Rightarrow> h | None \<Rightarrow> [])) \<and>
   (isFailedSubAgentState (resolveSubAgentState tool header) \<longleftrightarrow>
     isFailedSubAgentState tool \<or> isFailedSubAgentState (case header of Some h \<Rightarrow> h | None \<Rightarrow> []))"
proof (cases header)
  case None
  then show ?thesis
    using failed_terminal [of tool] by (auto simp: resolveSubAgentState_def Let_def non_empty_def)
next
  case (Some h)
  have "trim h = [] \<Longrightarrow> \<not> isTerminalSubAgentState h" using terminal_trim [of h] by simp
  then show ?thesis
    using Some failed_terminal [of tool] failed_terminal [of h] failed_terminal [of "trim h"]
    by (auto simp: resolveSubAgentState_def Let_def non_empty_def)
qed


section \<open>Thread ids of sub-agents\<close>

definition url_digit :: "nat \<Rightarrow> char" where
  "url_digit d = (let c = base64_digit d in if c = CHR ''+'' then CHR ''-'' else if c = CHR ''/'' then CHR ''_'' else c)"

fun url_digits :: "nat list \<Rightarrow> nat list" where
  "url_digits [] = []"
| "url_digits [a] = [a div 4, a mod 4 * 16]"
| "url_digits [a, b] = [a div 4, a mod 4 * 16 + b div 16, b mod 16 * 4]"
| "url_digits (a # b # c # r) = [a div 4, a mod 4 * 16 + b div 16, b mod 16 * 4 + c div 64, c mod 64] @ url_digits r"

lemma code_url_digit:
  assumes "d < 64"
  shows "code (url_digit d) = (if d < 26 then 65 + d else if d < 52 then 71 + d else if d < 62 then d - 4 else if d = 62 then 45 else 95)"
proof -
  have signs: "c = CHR ''+'' \<longleftrightarrow> code c = 43" "c = CHR ''/'' \<longleftrightarrow> code c = 47" for c
    by (simp_all flip: of_char_eq_iff [where ?'a = nat])
  show ?thesis using assms unfolding url_digit_def base64_digit_def Let_def signs by auto
qed

lemma inj_url_digit: "inj_on url_digit {..<64}"
proof (rule inj_onI)
  fix d e assume de: "d \<in> {..<64}" "e \<in> {..<64}" "url_digit d = url_digit e"
  then have "code (url_digit d) = code (url_digit e)" by simp
  with de(1,2) show "d = e" by (simp add: code_url_digit split: if_splits)
qed

lemma url_digit_not:
  assumes "d < 64"
  shows "url_digit d \<noteq> CHR ''=''" "url_digit d \<noteq> CHR ''.''"
proof -
  have "code (url_digit d) \<noteq> 61" "code (url_digit d) \<noteq> 46" using assms by (auto simp: code_url_digit)
  then show "url_digit d \<noteq> CHR ''=''" "url_digit d \<noteq> CHR ''.''" by auto
qed

lemma url_digits_small: "\<forall>b\<in>set bs. b < 256 \<Longrightarrow> \<forall>d\<in>set (url_digits bs). d < 64"
  by (induction bs rule: url_digits.induct) auto

lemma quotient_remainder: "a div n = x div n \<Longrightarrow> a mod n = x mod n \<Longrightarrow> a = (x :: nat)"
  by (metis div_mult_mod_eq)

lemma two_fields:
  fixes a b x y m :: nat
  assumes "a * m + b = x * m + y" "b < m" "y < m"
  shows "a = x" "b = y"
proof -
  have "(a * m + b) div m = (x * m + y) div m" using assms(1) by simp
  then show "a = x" using assms(2,3) by simp
  with assms(1) show "b = y" by simp
qed

lemma group_two:
  fixes a b x y :: nat
  assumes "a div 4 = x div 4" "a mod 4 * 16 + b div 16 = x mod 4 * 16 + y div 16" "b < 256" "y < 256"
  shows "a = x" "b div 16 = y div 16"
proof -
  have "b div 16 < 16" "y div 16 < 16" using assms(3,4) by simp_all
  note fields = two_fields [OF assms(2) this]
  show "a = x" using assms(1) fields(1) by (rule quotient_remainder)
  show "b div 16 = y div 16" by (rule fields(2))
qed

lemma group_three:
  fixes a b c x y z :: nat
  assumes "a div 4 = x div 4" "a mod 4 * 16 + b div 16 = x mod 4 * 16 + y div 16"
    and "b mod 16 * 4 + c div 64 = y mod 16 * 4 + z div 64" "c mod 64 = z mod 64" "b < 256" "y < 256" "c < 256" "z < 256"
  shows "a = x \<and> b = y \<and> c = z"
proof -
  have "c div 64 < 4" "z div 64 < 4" using assms(7,8) by simp_all
  note fields = two_fields [OF assms(3) this]
  have "b = y" using group_two(2) [OF assms(1,2,5,6)] fields(1) by (rule quotient_remainder)
  moreover have "c = z" using fields(2) assms(4) by (rule quotient_remainder)
  ultimately show ?thesis using group_two(1) [OF assms(1,2,5,6)] by simp
qed

lemma url_digits_inject:
  "\<forall>x\<in>set xs. x < 256 \<Longrightarrow> \<forall>y\<in>set ys. y < 256 \<Longrightarrow> url_digits xs = url_digits ys \<Longrightarrow> xs = ys"
proof (induction xs arbitrary: ys rule: url_digits.induct)
  case 1
  then show ?case by (cases ys rule: url_digits.cases) simp_all
next
  case (2 a)
  then obtain x where ys: "ys = [x]" by (cases ys rule: url_digits.cases) simp_all
  with 2 have "a = x" by (intro quotient_remainder [of a 4]) simp_all
  with ys show ?case by simp
next
  case (3 a b)
  then obtain x y where ys: "ys = [x, y]" by (cases ys rule: url_digits.cases) simp_all
  with 3 have "a = x" "b div 16 = y div 16" using group_two [of a x b y] by simp_all
  with 3 ys show ?case using quotient_remainder [of b 16 y] by simp
next
  case (4 a b c r)
  then obtain x y z t where ys: "ys = x # y # z # t" by (cases ys rule: url_digits.cases) simp_all
  with 4 have "a = x \<and> b = y \<and> c = z" by (intro group_three) simp_all
  moreover have "r = t" using 4 ys by (intro "4.IH") simp_all
  ultimately show ?case using ys by simp
qed

lemma btoa_url:
  "\<exists>n. map (\<lambda>c. if c = CHR ''+'' then CHR ''-'' else if c = CHR ''/'' then CHR ''_'' else c) (btoa bs) =
     map url_digit (url_digits bs) @ replicate n CHR ''=''"
proof (induction bs rule: btoa.induct)
  case (4 a b c r)
  then show ?case by (auto simp: url_digit_def Let_def)
qed (auto simp: url_digit_def Let_def intro: exI [of _ 0] exI [of _ 1] exI [of _ 2] simp: numeral_2_eq_2)

lemma code_less: "code c < 256"
  by (rule nat_of_char_less_256)

lemma utf8_small: "\<forall>b\<in>set (utf8_encode s). b < 256"
proof
  fix b assume "b \<in> set (utf8_encode s)"
  then obtain c where c: "b \<in> set (let n = of_char c in if n < 128 then [n] else [192 + n div 64, 128 + n mod 64])"
    by (auto simp: utf8_encode_def)
  have "code c div 64 < 4" using less_mult_imp_div_less [of "code c" 4 64] code_less [of c] by simp
  with c show "b < 256" by (auto simp: Let_def split: if_splits)
qed

definition utf8_char :: "char \<Rightarrow> nat list" where
  "utf8_char c = (let n = of_char c in if n < 128 then [n] else [192 + n div 64, 128 + n mod 64])"

lemma utf8_encode_simps [simp]: "utf8_encode [] = []" "utf8_encode (c # s) = utf8_char c @ utf8_encode s"
  by (simp_all add: utf8_encode_def utf8_char_def)

lemma utf8_char_prefix:
  assumes "utf8_char c @ xs = utf8_char d @ ys"
  shows "c = d" "xs = ys"
proof -
  have "code c = code d \<and> xs = ys"
    using assms quotient_remainder [of "code c" 64 "code d"]
    by (cases "code c < 128"; cases "code d < 128") (simp_all add: utf8_char_def Let_def)
  then show "c = d" "xs = ys" by simp_all
qed

lemma utf8_inject: "utf8_encode s = utf8_encode t \<Longrightarrow> s = t"
proof (induction s arbitrary: t)
  case Nil
  then show ?case by (cases t) (simp_all add: utf8_char_def Let_def split: if_splits)
next
  case (Cons c s)
  then obtain d u where t: "t = d # u" by (cases t) (simp_all add: utf8_char_def Let_def split: if_splits)
  with Cons.prems have "utf8_char c @ utf8_encode s = utf8_char d @ utf8_encode u" by simp
  from utf8_char_prefix [OF this] Cons.IH t show ?case by simp
qed

lemma dropWhile_rev_absent: "x \<notin> set xs \<Longrightarrow> dropWhile (\<lambda>c. c = x) (rev xs) = rev xs"
  by (cases xs rule: rev_cases) auto

lemma dropWhile_replicate_append: "dropWhile (\<lambda>c. c = x) (replicate n x @ ys) = dropWhile (\<lambda>c. c = x) ys"
  by (induction n) auto

lemma base64UrlUtf8_digits: "base64UrlUtf8 s = map url_digit (url_digits (utf8_encode s))"
proof -
  let ?digits = "map url_digit (url_digits (utf8_encode s))"
  obtain n where n: "map (\<lambda>c. if c = CHR ''+'' then CHR ''-'' else if c = CHR ''/'' then CHR ''_'' else c) (btoa (utf8_encode s)) =
      ?digits @ replicate n CHR ''=''" using btoa_url by blast
  have "CHR ''='' \<notin> set ?digits" using url_digits_small [OF utf8_small] url_digit_not(1) by fastforce
  then have "dropWhile (\<lambda>c. c = CHR ''='') (rev ?digits) = rev ?digits" by (rule dropWhile_rev_absent)
  then show ?thesis
    unfolding base64UrlUtf8_def n rev_append rev_replicate dropWhile_replicate_append by (simp only: rev_rev_ident)
qed

lemma base64UrlUtf8_inject: "base64UrlUtf8 s = base64UrlUtf8 t \<Longrightarrow> s = t"
proof -
  assume "base64UrlUtf8 s = base64UrlUtf8 t"
  moreover have "set (url_digits (utf8_encode x)) \<subseteq> {..<64}" for x using url_digits_small [OF utf8_small] by auto
  then have "inj_on url_digit (set (url_digits (utf8_encode s)) \<union> set (url_digits (utf8_encode t)))"
    by (intro inj_on_subset [OF inj_url_digit] Un_least)
  from inj_on_map_eq_map [OF this] have "url_digits (utf8_encode s) = url_digits (utf8_encode t)"
    using calculation by (simp only: base64UrlUtf8_digits)
  then show "s = t" by (rule utf8_inject [OF url_digits_inject [OF utf8_small utf8_small]])
qed

lemma base64UrlUtf8_no_dot: "CHR ''.'' \<notin> set (base64UrlUtf8 s)"
  unfolding base64UrlUtf8_digits using url_digits_small [OF utf8_small] url_digit_not(2) by fastforce

text \<open>
  C22. The thread id under which a sub-agent is opened names its agent and its session unambiguously: the encoding (UTF-8, then
  Base64 without padding) loses nothing, and the dot between the two parts cannot occur in them.
\<close>

theorem subagent_thread_id_unique:
  "subagent_thread_id a s = subagent_thread_id b t \<longleftrightarrow> a = b \<and> s = t"
proof -
  have "subagent_thread_id a s = subagent_thread_id b t \<longleftrightarrow>
      base64UrlUtf8 a @ CHR ''.'' # base64UrlUtf8 s = base64UrlUtf8 b @ CHR ''.'' # base64UrlUtf8 t"
    by (simp add: subagent_thread_id_def)
  also have "\<dots> \<longleftrightarrow> base64UrlUtf8 a = base64UrlUtf8 b \<and> base64UrlUtf8 s = base64UrlUtf8 t"
    by (intro first_separator_inject base64UrlUtf8_no_dot)
  finally show ?thesis using base64UrlUtf8_inject by blast
qed


section \<open>Earlier history\<close>

text \<open>
  The time of a row is its position in the timeline, so it changes when earlier rows are loaded; everything else is compared.
\<close>

definition undated :: "chat_message \<Rightarrow> chat_message" where
  "undated m = m\<lparr>cm_createdAt := []\<rparr>"

definition entry_rows :: "mapping_lib \<Rightarrow> mapping_context \<Rightarrow> timeline_entry \<Rightarrow> chat_message list" where
  "entry_rows lib context e = map undated (mapSnapshotTimelineEntry lib context e 0)"

text \<open>The transcript without the notice about what is missing.\<close>

definition transcript :: "mapping_lib \<Rightarrow> string option \<Rightarrow> string \<Rightarrow> acp_snapshot \<Rightarrow> chat_message list" where
  "transcript lib rawId createdAt s =
     map undated (filter (\<lambda>m. cm_role m \<noteq> System) (mapMessagesFromAcpSnapshot lib rawId (Some s) createdAt))"

lemma undated_blank [simp]: "undated (blank_message i r c t) = blank_message i r c []"
  by (simp add: undated_def blank_message_def)

lemma entry_rows_position: "map undated (mapSnapshotTimelineEntry lib context e n) = entry_rows lib context e"
  by (simp add: entry_rows_def mapSnapshotTimelineEntry_def mapSnapshotToolEntry_def mapSnapshotMessageEntry_def
      buildSnapshotToolMessage_def buildSnapshotSubagentActivity_def createActivityMessage_def undated_def blank_message_def
      Let_def split: option.split)

lemma built_roles [simp]:
  "cm_role (blank_message i r x t) = r" "cm_role (buildSnapshotToolMessage l tool t) = Tool"
  "cm_role (buildSnapshotSubagentActivity tool rid sub t) = Activity"
  by (simp_all add: blank_message_def buildSnapshotToolMessage_def buildSnapshotSubagentActivity_def createActivityMessage_def Let_def)

lemma tool_entry_role: "m \<in> set (mapSnapshotToolEntry lib context e n) \<Longrightarrow> cm_role m \<noteq> System"
  by (cases "map_get (mc_toolsById context) (te_canonicalId e)")
    (simp_all add: mapSnapshotToolEntry_def Let_def split: if_splits)

lemma message_entry_role: "m \<in> set (mapSnapshotMessageEntry lib context e n) \<Longrightarrow> cm_role m \<noteq> System"
  by (cases "map_get (mc_messagesById context) (te_canonicalId e)")
    (simp_all add: mapSnapshotMessageEntry_def Let_def split: if_splits)

lemma entry_rows_role: "m \<in> set (mapSnapshotTimelineEntry lib context e n) \<Longrightarrow> cm_role m \<noteq> System"
  using tool_entry_role message_entry_role by (simp add: mapSnapshotTimelineEntry_def split: if_splits)

lemma timeline_rows_undated: "map undated (timeline_rows lib context t) = concat (map (entry_rows lib context) t)"
proof -
  have "map undated (concat (map (\<lambda>(index, entry). mapSnapshotTimelineEntry lib context entry index) (List.enumerate n t))) =
      concat (map (entry_rows lib context) t)" for n
    by (induction t arbitrary: n) (simp_all add: entry_rows_position)
  then show ?thesis by (simp add: timeline_rows_def)
qed

lemma timeline_rows_role: "filter (\<lambda>m. cm_role m \<noteq> System) (timeline_rows lib context t) = timeline_rows lib context t"
  unfolding timeline_rows_def by (intro filter_True) (auto dest: entry_rows_role)

lemma transcript_rows:
  "transcript lib i c s =
   concat (map (entry_rows lib (mapping_context_of lib i c s)) (js_sort by_sequence (buildSnapshotTimeline s)))"
  unfolding transcript_def mapMessagesFromAcpSnapshot_def Let_def
  by (simp add: timeline_rows_role blank_message_def) (simp add: timeline_rows_undated)

text \<open>The entries of a page, one for each sequence number, in their order.\<close>

definition page_part :: "snapshot_page \<Rightarrow> timeline_entry list" where
  "page_part p = js_sort by_sequence (map snd (map_by te_sequence (page_timeline p)))"

lemma page_part_ascending: "ascending (page_part p)"
  unfolding page_part_def using keyed_map_by [of te_sequence "page_timeline p"]
  by (intro js_sort_ascending) (simp only: keyed_keys, simp add: keyed_def)

lemma map_by_value:
  assumes "e \<in> set (map snd (map_by key xs))"
  shows "e \<in> set xs"
proof -
  from assms obtain k where k: "(k, e) \<in> set (map_by key xs)" by auto
  have "map_wf (map_by key xs)" using keyed_map_by [of key xs] by (simp add: keyed_def)
  with k have "map_of (map_by key xs) k = Some e" by simp
  then have "map_of (rev (with_key key xs)) k = Some e" by (simp only: map_by_get)
  then have "(k, e) \<in> set (rev (with_key key xs))" by (rule map_of_SomeD)
  then show ?thesis by auto
qed

lemma page_part_set: "e \<in> set (page_part p) \<Longrightarrow> e \<in> set (page_timeline p)"
  unfolding page_part_def set_js_sort by (rule map_by_value)

lemma map_add_same_key: "map_of (map_by key xs) k = None \<Longrightarrow> (f ++ map_of (map_by key xs)) k = f k"
  by (simp add: map_add_def)

lemma map_by_absent: "k \<notin> key ` set xs \<Longrightarrow> map_of (map_by key xs) k = None"
  unfolding map_by_get by (auto simp: map_of_eq_None_iff)

lemma older_timeline:
  assumes "mergeSnapshotPage s p = Inr s'" "ascending (timeline_of s)"
    and "\<forall>d\<in>set (page_timeline p). \<forall>e\<in>set (timeline_of s). te_sequence d < te_sequence e"
  shows "timeline_of s' = page_part p @ timeline_of s"
proof (rule ascending_unique)
  show "ascending (timeline_of s')" by (rule merge_ascending [OF assms(1)])
  show asc: "ascending (page_part p @ timeline_of s)"
    using page_part_ascending [of p] assms(2,3) page_part_set [of _ p]
    by (auto simp: ascending_def sorted_wrt_append)
  let ?old = "map_by te_sequence (timeline_of s)" and ?new = "map_by te_sequence (page_timeline p)"
  have "set (timeline_of s') = {e. \<exists>n. (map_of ?old ++ map_of ?new) n = Some e}"
    using ascending_history [OF merge_ascending [OF assms(1)]]
    by (simp add: merge_map_by(3) [OF assms(1)] merge_entries_timeline put_all_map_by)
  also have "\<dots> = {e. \<exists>n. map_of ?new n = Some e} \<union> {e. \<exists>n. map_of ?old n = Some e}"
  proof -
    have "map_of ?new n = None" if "map_of ?old n = Some e" for n e
    proof (rule map_by_absent)
      have "(n, e) \<in> set ?old" using that by (rule map_of_SomeD)
      then have "te_sequence e = n" "e \<in> set (timeline_of s)"
        using keyed_map_by [of te_sequence "timeline_of s"] map_by_value [of e te_sequence "timeline_of s"]
        by (force simp: keyed_def)+
      then show "n \<notin> te_sequence ` set (page_timeline p)" using assms(3) by (metis imageE order_less_irrefl)
    qed
    then show ?thesis by (fastforce simp: map_add_Some_iff)
  qed
  also have "\<dots> = set (map snd ?new) \<union> set (timeline_of s)"
    using ascending_history [OF assms(2)] keyed_map_by [of te_sequence "page_timeline p"]
    by (force simp: keyed_def map_of_eq_Some_iff)
  finally show "set (timeline_of s') = set (page_part p @ timeline_of s)" by (simp add: page_part_def)
qed

text \<open>The rows of timeline entries from a position on, and the notice about what is missing.\<close>

definition rows_from :: "mapping_lib \<Rightarrow> mapping_context \<Rightarrow> nat \<Rightarrow> timeline_entry list \<Rightarrow> chat_message list" where
  "rows_from lib context n t =
     concat (map (\<lambda>(index, entry). mapSnapshotTimelineEntry lib context entry index) (List.enumerate n t))"

definition notice_rows :: "mapping_lib \<Rightarrow> string option \<Rightarrow> string \<Rightarrow> acp_snapshot \<Rightarrow> chat_message list" where
  "notice_rows lib rawId createdAt s =
     (let missing = buildSnapshotTruncationNotices (ml_js lib) s
      in if missing = [] then []
         else [blank_message ((case rawId of Some i \<Rightarrow> i | None \<Rightarrow> ''thread'') @ ''::snapshot-truncated'') System
                 (JStr (''Snapshot truncated ('' @ join '', '' missing @ '')''))
                 (js_iso (ml_js lib) (ml_time lib createdAt - 1))])"

lemma mapped_rows:
  assumes "js_sort by_sequence (buildSnapshotTimeline s) = t"
  shows "mapMessagesFromAcpSnapshot lib i (Some s) c =
    notice_rows lib i c s @ rows_from lib (mapping_context_of lib i c s) 0 t"
  using assms by (simp add: mapMessagesFromAcpSnapshot_def notice_rows_def rows_from_def timeline_rows_def Let_def)

lemma rows_from_append:
  "rows_from lib context n (a @ b) = rows_from lib context n a @ rows_from lib context (n + length a) b"
  by (simp add: rows_from_def enumerate_append_eq)

lemma rows_from_cong:
  assumes "\<And>e k. e \<in> set t \<Longrightarrow> mapSnapshotTimelineEntry lib a e k = mapSnapshotTimelineEntry lib b e k"
  shows "rows_from lib a n t = rows_from lib b n t"
proof -
  have "mapSnapshotTimelineEntry lib a e k = mapSnapshotTimelineEntry lib b e k" if "(k, e) \<in> set (List.enumerate n t)" for k e
    using assms that by (metis in_set_zip enumerate_eq_zip nth_mem snd_conv)
  then show ?thesis unfolding rows_from_def by (intro arg_cong [where f = concat] map_cong) auto
qed

lemma rows_from_undated: "map undated (rows_from lib context n t) = concat (map (entry_rows lib context) t)"
  by (induction t arbitrary: n) (simp_all add: rows_from_def entry_rows_position)

lemma timeline_entry_cong:
  assumes "map_get (mc_messagesById a) (te_canonicalId e) = map_get (mc_messagesById b) (te_canonicalId e)"
    and "map_get (mc_toolsById a) (te_canonicalId e) = map_get (mc_toolsById b) (te_canonicalId e)"
    and "mc_rawId a = mc_rawId b" "mc_agentId a = mc_agentId b" "mc_baseTs a = mc_baseTs b"
  shows "mapSnapshotTimelineEntry lib a e n = mapSnapshotTimelineEntry lib b e n"
  unfolding mapSnapshotTimelineEntry_def mapSnapshotToolEntry_def mapSnapshotMessageEntry_def
  by (simp only: assms)

text \<open>
  C21. What loading earlier history does to the transcript of a snapshot that has a timeline. If the timeline is in
  order, the entries of the page come before all of its entries, and none of its entries refers to a message or
  tool of the page, then the rows of the merged snapshot are: the notice about what is missing there (a new one, it
  replaces the old notice), the rows of the page in their order, and the rows the timeline had before. These rows
  are the same in every field but the time, which is the position in the timeline and so moves on by the
  length of the page.
\<close>

theorem earlier_history_prepended:
  assumes "mergeSnapshotPage s p = Inr s'"
    and "as_timeline s = Some t" "sorted_wrt (<) (map te_sequence t)"
    and "list_all (\<lambda>d. list_all (\<lambda>e. te_sequence d < te_sequence e) t) (page_timeline p)"
    and "te_canonicalId ` set t \<inter> (sm_id ` set (page_messages p) \<union> st_id ` set (page_tools p)) = {}"
  shows "mapMessagesFromAcpSnapshot lib i (Some s) c =
      notice_rows lib i c s @ rows_from lib (mapping_context_of lib i c s) 0 t \<and>
    mapMessagesFromAcpSnapshot lib i (Some s') c =
      notice_rows lib i c s' @
      rows_from lib (mapping_context_of lib i c s') 0 (page_part p) @
      rows_from lib (mapping_context_of lib i c s) (length (page_part p)) t \<and>
    map undated (rows_from lib (mapping_context_of lib i c s) (length (page_part p)) t) =
      map undated (rows_from lib (mapping_context_of lib i c s) 0 t)"
proof (intro conjI)
  let ?new = "mapping_context_of lib i c s'" and ?old = "mapping_context_of lib i c s"
  have t: "timeline_of s = t" "buildSnapshotTimeline s = t" "ascending t"
    using assms(2,3) by (simp_all add: timeline_of_def buildSnapshotTimeline_def ascending_def)
  have s': "buildSnapshotTimeline s' = timeline_of s'" using merge_Inr(2) [OF assms(1)] by (simp add: buildSnapshotTimeline_def)
  have tl: "timeline_of s' = page_part p @ t"
    using older_timeline [OF assms(1)] t assms(4) by (simp add: list_all_iff)
  have sorted: "js_sort by_sequence (timeline_of s') = timeline_of s'" "js_sort by_sequence t = t"
    using js_sort_ascending_id merge_ascending [OF assms(1)] t(3) by blast+
  have "mapSnapshotTimelineEntry lib ?new e n = mapSnapshotTimelineEntry lib ?old e n" if "e \<in> set t" for e n
  proof (rule timeline_entry_cong)
    have "map_of (map_by sm_id (page_messages p)) (te_canonicalId e) = None"
      "map_of (map_by st_id (page_tools p)) (te_canonicalId e) = None"
      using that assms(5) by (auto intro!: map_by_absent)
    then show "map_get (mc_messagesById ?new) (te_canonicalId e) = map_get (mc_messagesById ?old) (te_canonicalId e)"
      "map_get (mc_toolsById ?new) (te_canonicalId e) = map_get (mc_toolsById ?old) (te_canonicalId e)"
      by (simp_all add: mapping_context_of_def merge_map_by [OF assms(1)] merge_entries_messages merge_entries_tools
          put_all_map_by map_add_same_key)
  qed (use assms(1) in \<open>simp_all add: mapping_context_of_def merge_Inr_iff merged_snapshot_def Let_def\<close>)
  then have kept: "rows_from lib ?new n t = rows_from lib ?old n t" for n by (rule rows_from_cong)
  show "mapMessagesFromAcpSnapshot lib i (Some s) c = notice_rows lib i c s @ rows_from lib ?old 0 t"
    by (rule mapped_rows) (simp add: t(2) sorted(2))
  have "mapMessagesFromAcpSnapshot lib i (Some s') c =
      notice_rows lib i c s' @ rows_from lib ?new 0 (page_part p @ t)"
    by (rule mapped_rows) (simp add: s' sorted(1) flip: tl)
  then show "mapMessagesFromAcpSnapshot lib i (Some s') c =
      notice_rows lib i c s' @ rows_from lib ?new 0 (page_part p) @ rows_from lib ?old (length (page_part p)) t"
    by (simp add: rows_from_append kept)
qed (simp add: rows_from_undated)

definition demo_lib :: mapping_lib where
  "demo_lib = \<lparr>ml_js = \<lparr>js_iso = (\<lambda>_. ''t''), js_now = ''t'', js_number = (\<lambda>_. ''n''), js_parse = (\<lambda>_. None)\<rparr>, ml_time = (\<lambda>_. 0)\<rparr>"

definition demo_part :: "string \<Rightarrow> json" where
  "demo_part t = JArr [JObj [(''type'', JStr ''text''), (''text'', JStr t)]]"

definition recent_snapshot :: acp_snapshot where
  "recent_snapshot = the (toRawAcpSnapshot valibot_documented (Some (JObj [(''version'', JNum 2), (''session'', JObj []),
     (''active'', JObj []), (''continuation'', JObj [(''revision'', JNum 3)]),
     (''timeline'', JArr [JObj [(''sequence'', JNum 9), (''kind'', JStr ''message''), (''canonicalId'', JStr ''m9'')]]),
     (''messages'', JArr [JObj [(''id'', JStr ''m9''), (''role'', JStr ''agent''), (''parts'', demo_part ''hello'')]])])))"

definition older_page :: snapshot_page where
  "older_page = readSnapshotPageResponse valibot_documented (Some (JObj [(''revision'', JNum 3),
     (''entries'', JArr [JObj [(''sequence'', JNum 4), (''kind'', JStr ''message''),
        (''canonicalId'', JStr ''m4''), (''message'', JObj [(''role'', JStr ''user''), (''parts'', demo_part ''hi'')])]])]))"

lemma older_page_merges: "case mergeSnapshotPage recent_snapshot older_page of Inr s' \<Rightarrow>
     map (\<lambda>m. (cm_id m, cm_role m, cm_content m)) (transcript demo_lib (Some ''c'') ''t'' s') =
       [(''m4'', User, JStr ''hi''), (''m9'', Assistant, JStr ''hello'')] | Inl _ \<Rightarrow> False"
  by code_simp

lemma recent_snapshot_timeline:
  "as_timeline recent_snapshot = Some [\<lparr>te_sequence = 9, te_kind = EntryMessage, te_canonicalId = ''m9''\<rparr>]"
  by code_simp

lemma older_page_entries:
  "page_timeline older_page = [\<lparr>te_sequence = 4, te_kind = EntryMessage, te_canonicalId = ''m4''\<rparr>]"
  "map sm_id (page_messages older_page) = [''m4'']" "map st_id (page_tools older_page) = []"
  by code_simp+

theorem earlier_history_prepended_witness:
  "\<exists>s'. mergeSnapshotPage recent_snapshot older_page = Inr s' \<and>
     mapMessagesFromAcpSnapshot demo_lib (Some ''c'') (Some s') ''t'' =
       notice_rows demo_lib (Some ''c'') ''t'' s' @
       rows_from demo_lib (mapping_context_of demo_lib (Some ''c'') ''t'' s') 0 (page_part older_page) @
       rows_from demo_lib (mapping_context_of demo_lib (Some ''c'') ''t'' recent_snapshot) (length (page_part older_page))
         (the (as_timeline recent_snapshot))"
proof -
  obtain s' where s': "mergeSnapshotPage recent_snapshot older_page = Inr s'"
    using older_page_merges by (cases "mergeSnapshotPage recent_snapshot older_page") simp_all
  have ids: "sm_id ` set (page_messages older_page) = {''m4''}" "st_id ` set (page_tools older_page) = {}"
    using older_page_entries(2,3) by (simp_all flip: set_map)
  have "sorted_wrt (<) (map te_sequence (the (as_timeline recent_snapshot)))"
    "list_all (\<lambda>d. list_all (\<lambda>e. te_sequence d < te_sequence e) (the (as_timeline recent_snapshot))) (page_timeline older_page)"
    "te_canonicalId ` set (the (as_timeline recent_snapshot)) \<inter>
       (sm_id ` set (page_messages older_page) \<union> st_id ` set (page_tools older_page)) = {}"
    "as_timeline recent_snapshot = Some (the (as_timeline recent_snapshot))"
    by (simp_all add: recent_snapshot_timeline older_page_entries(1) ids)
  from earlier_history_prepended [OF s' this(4,1,2,3), of demo_lib "Some ''c''" "''t''"] s'
  show ?thesis by blast
qed

text \<open>
  A snapshot without a timeline shows all its messages; after a page has been merged it has a timeline with
  the entries of the page only, so its own messages are not shown any more.
\<close>

theorem page_hides_snapshot_without_timeline:
  "map cm_id (transcript demo_lib (Some ''c'') ''t'' (recent_snapshot\<lparr>as_timeline := None\<rparr>)) = [''m9''] \<and>
   (case mergeSnapshotPage (recent_snapshot\<lparr>as_timeline := None\<rparr>) older_page of
      Inr s' \<Rightarrow> map sm_id (as_messages s') = [''m9'', ''m4''] \<and> map cm_id (transcript demo_lib (Some ''c'') ''t'' s') = [''m4'']
    | Inl _ \<Rightarrow> False)"
  by code_simp

end
