(* ===== verification/ChatMapping.thy ===== *)
theory ChatMapping
  imports SnapshotTranscript "HOL-Library.Word"
begin

text \<open>
  From the wire to chats: threads of the bridge become summaries and chats
  (\<^verbatim>\<open>bridge/mapping/chatMappingStatusAndErrorProjection.ts\<close>, \<^verbatim>\<open>chatMappingSnapshotAndSummaryProjection.ts\<close>,
  \<^verbatim>\<open>chatMappingChatProjection.ts\<close>, \<^verbatim>\<open>chatMappingPlanExtraction.ts\<close>, \<^verbatim>\<open>chatMappingPlanParsing.ts\<close>).

  Two parameters stand for what lies outside: the host library \<^typ>\<open>mapping_lib\<close> with \<open>Date.parse\<close>
  as the argument \<open>dp\<close>, and \<open>turn_messages\<close>, the rows of a thread without snapshot (\<open>mapMessagesFromTurns\<close>,
  the text rendering of finished turns, is not modelled). Fields that \<open>toRawThread\<close> has read as strings are not
  read a second time.
\<close>

section \<open>Raw threads\<close>

record raw_turn =
  rt_id :: "string option"
  rt_status :: "string option"
  rt_errors :: "json option list"
  rt_items :: "(string, json) jsmap list"

record raw_thread =
  rw_id :: "string option"
  rw_agentId :: "json option"
  rw_name :: "string option"
  rw_preview :: "string option"
  rw_modelProvider :: "string option"
  rw_agentNickname :: "string option"
  rw_agentRole :: "string option"
  rw_createdAt :: "rat option"
  rw_updatedAt :: "rat option"
  rw_status :: "json option"
  rw_cwd :: "string option"
  rw_source :: "json option"
  rw_turns :: "raw_turn list"
  rw_acpSnapshot :: "acp_snapshot option"

text \<open>\<open>error\<close>, \<open>message\<close>, ..., \<open>stderr\<close> of a turn, in the order in which \<open>readTurnErrorMessage\<close> tries them.\<close>

definition toRawTurn :: "valibot \<Rightarrow> json \<Rightarrow> raw_turn option" where
  "toRawTurn vb value =
     map_option (\<lambda>r. \<lparr>rt_id = readString vb (map_get r ''id''), rt_status = readString vb (map_get r ''status''),
         rt_errors = map (map_get r) [''error'', ''message'', ''errorMessage'', ''error_message'', ''detail'', ''details'', ''reason'',
           ''description'', ''stderr''],
         rt_items = records_of r ''items''\<rparr>)
       (toRecord (Some value))"

fun firstString :: "valibot \<Rightarrow> json option list \<Rightarrow> string option" where
  "firstString vb [] = None"
| "firstString vb (v # vs) = (case non_empty (readString vb v) of Some s \<Rightarrow> Some s | None \<Rightarrow> firstString vb vs)"

definition readTimestampSeconds :: "valibot \<Rightarrow> (string \<Rightarrow> rat option) \<Rightarrow> json option \<Rightarrow> rat option" where
  "readTimestampSeconds vb dp value =
     (let numeric = readCoercedFiniteNumber vb value;
          parsed = Option.bind (non_empty (map_option trim (readString vb value)))
            (\<lambda>s. Option.bind (dp s) (\<lambda>p. if p > 0 then Some (p / 1000) else None))
      in case numeric of
           Some n \<Rightarrow> if n > 0 then Some (if n > 1000000000000 then n / 1000 else n) else parsed
         | None \<Rightarrow> parsed)"

definition toRawThread :: "valibot \<Rightarrow> (string \<Rightarrow> rat option) \<Rightarrow> json option \<Rightarrow> raw_thread" where
  "toRawThread vb dp value =
     (let record = (case toRecord value of Some r \<Rightarrow> r | None \<Rightarrow> []); get = map_get record
      in \<lparr>rw_id = readString vb (get ''id''), rw_agentId = get ''agentId'',
          rw_name = firstString vb [get ''name'', get ''title'', get ''threadName'', get ''thread_name''],
          rw_preview = readString vb (get ''preview''), rw_modelProvider = readString vb (get ''modelProvider''),
          rw_agentNickname = firstString vb [get ''agentNickname'', get ''agent_nickname''],
          rw_agentRole = firstString vb [get ''agentRole'', get ''agent_role''],
          rw_createdAt = readTimestampSeconds vb dp (get ''createdAt''), rw_updatedAt = readTimestampSeconds vb dp (get ''updatedAt''),
          rw_status = get ''status'', rw_cwd = readString vb (get ''cwd''), rw_source = get ''source'',
          rw_turns = List.map_filter (toRawTurn vb) (array_of record ''turns''),
          rw_acpSnapshot = toRawAcpSnapshot vb (get ''acpSnapshot'')\<rparr>)"


section \<open>Status and errors\<close>

definition normalizeLifecycleStatus :: "string option \<Rightarrow> string option" where
  "normalizeLifecycleStatus value = non_empty (map_option (\<lambda>s. filter is_alnum (to_lower (trim s))) value)"

definition RUNNING_STATUSES :: "string list" where
  "RUNNING_STATUSES = [''inprogress'', ''running'', ''active'', ''queued'', ''pending'']"

definition ERROR_STATUSES :: "string list" where
  "ERROR_STATUSES = [''failed'', ''interrupted'', ''error'', ''aborted'', ''cancelled'', ''canceled'']"

definition COMPLETED_STATUSES :: "string list" where
  "COMPLETED_STATUSES = [''completed'', ''complete'', ''success'', ''succeeded'']"

definition ERROR_FIELDS :: "string list" where
  "ERROR_FIELDS = [''message'', ''errorMessage'', ''error_message'', ''detail'', ''details'', ''reason'', ''description'', ''stderr'', ''error'']"

text \<open>The first result among the values of a list.\<close>

definition first_some :: "('a \<Rightarrow> 'b option) \<Rightarrow> 'a list \<Rightarrow> 'b option" where
  "first_some f xs = (case List.map_filter f xs of [] \<Rightarrow> None | y # _ \<Rightarrow> Some y)"

text \<open>The first argument is the number of levels that may still be entered: depth 0 is called with 4.\<close>

fun readErrorMessage :: "valibot \<Rightarrow> nat \<Rightarrow> json option \<Rightarrow> string option" where
  "readErrorMessage vb 0 value = None"
| "readErrorMessage vb (Suc n) value =
     (case non_empty (map_option trim (readString vb value)) of
        Some direct \<Rightarrow> Some direct
      | None \<Rightarrow>
          Option.bind (toRecord value)
            (\<lambda>r. first_some (\<lambda>field. readErrorMessage vb n (map_get r field)) ERROR_FIELDS))"

definition readTurnErrorMessage :: "valibot \<Rightarrow> raw_turn \<Rightarrow> string option" where
  "readTurnErrorMessage vb turn = first_some (readErrorMessage vb 4) (rt_errors turn)"

text \<open>The last failed turn counts.\<close>

definition extractLastError :: "valibot \<Rightarrow> raw_turn list \<Rightarrow> string option" where
  "extractLastError vb turns =
     first_some (\<lambda>turn. case normalizeLifecycleStatus (rt_status turn) of
           Some st \<Rightarrow> if st \<in> set ERROR_STATUSES
             then Some (case readTurnErrorMessage vb turn of Some m \<Rightarrow> m | None \<Rightarrow> ''turn '' @ st) else None
         | None \<Rightarrow> None) (rev turns)"

definition hasActiveAcpRun :: "acp_snapshot option \<Rightarrow> bool" where
  "hasActiveAcpRun snapshot =
     (case snapshot of
        None \<Rightarrow> False
      | Some s \<Rightarrow>
          non_empty (case ai_runId (as_active s) of Some r \<Rightarrow> Some r | None \<Rightarrow> ai_sourceTurnId (as_active s)) \<noteq> None \<or>
          ai_generation (as_active s) \<noteq> None)"

definition mapLastTurnStatus :: "string option \<Rightarrow> bool \<Rightarrow> bool \<Rightarrow> chat_status option" where
  "mapLastTurnStatus status hasTurns isIdleLikeStatus =
     (let knownStatus = (case status of Some s \<Rightarrow> s | None \<Rightarrow> [])
      in if knownStatus \<in> set RUNNING_STATUSES
         then Some (if isIdleLikeStatus then (if hasTurns then StComplete else StIdle) else StRunning)
         else if knownStatus \<in> set ERROR_STATUSES then Some StError
         else if knownStatus \<in> set COMPLETED_STATUSES then Some StComplete else None)"

definition mapThreadLifecycleStatus :: "string option \<Rightarrow> bool \<Rightarrow> bool \<Rightarrow> chat_status" where
  "mapThreadLifecycleStatus statusType hasTurns isIdleLikeStatus =
     (let knownStatus = (case statusType of Some s \<Rightarrow> s | None \<Rightarrow> [])
      in if knownStatus \<in> {''systemerror'', ''error'', ''failed''} then StError
         else if knownStatus \<in> set RUNNING_STATUSES \<and> knownStatus \<noteq> ''active'' then StRunning
         else if knownStatus = ''active'' then (if hasTurns then StComplete else StIdle)
         else if isIdleLikeStatus then (if hasTurns then StComplete else StIdle)
         else StIdle)"

definition mapRawStatus :: "valibot \<Rightarrow> json option \<Rightarrow> raw_turn list \<Rightarrow> chat_status" where
  "mapRawStatus vb status turns =
     (let statusType = normalizeLifecycleStatus
            (case readString vb (field (toRecord status) ''type'') of Some s \<Rightarrow> Some s | None \<Rightarrow> readString vb status);
          hasTurns = (turns \<noteq> []);
          lastTurnStatus = (if hasTurns then normalizeLifecycleStatus (rt_status (last turns)) else None);
          isIdleLikeStatus = (statusType = Some ''idle'' \<or> statusType = Some ''notloaded'')
      in case mapLastTurnStatus lastTurnStatus hasTurns isIdleLikeStatus of
           Some s \<Rightarrow> s
         | None \<Rightarrow> mapThreadLifecycleStatus statusType hasTurns isIdleLikeStatus)"


section \<open>Summaries\<close>

text \<open>\<open>value.replace(/\s+/g, ' ')\<close>\<close>

fun collapse_spaces :: "bool \<Rightarrow> string \<Rightarrow> string" where
  "collapse_spaces blank [] = []"
| "collapse_spaces blank (c # cs) =
     (if is_js_space c then (if blank then collapse_spaces True cs else CHR '' '' # collapse_spaces True cs)
      else c # collapse_spaces False cs)"

definition toPreview :: "string \<Rightarrow> string" where
  "toPreview value =
     (let collapsed = trim (collapse_spaces False value)
      in if length collapsed \<le> 180 then collapsed else take 177 collapsed @ ''...'')"

text \<open>
  What the mapping throws: reading a field of \<open>null\<close>, the name of a time outside the range of a \<open>Date\<close>, or the
  complaint about a missing id.
\<close>

datatype map_error = TypeError | RangeError | ChatIdMissing

text \<open>\<open>toISOString\<close> throws for a time more than 8.64e15 milliseconds from 1970.\<close>

definition unixSecondsToIso :: "mapping_lib \<Rightarrow> rat \<Rightarrow> map_error + string" where
  "unixSecondsToIso lib value =
     (let ms = value * 1000
      in if \<bar>ms\<bar> > 8640000000000000 then Inl RangeError else Inr (js_iso (ml_js lib) ms))"

text \<open>\<open>hash = (hash * 31 + charCodeAt(0)) >>> 0\<close>: the product is below 2 to the 38, so the double is exact before the conversion.\<close>

definition hash_step :: "char \<Rightarrow> 32 word \<Rightarrow> 32 word" where
  "hash_step c hash = word_of_int (uint hash * 31 + of_char c)"

definition stableThreadTimestampSeconds :: "string \<Rightarrow> int" where
  "stableThreadTimestampSeconds threadId = 1704067200 + uint (fold hash_step threadId 0) mod 31536000"

definition resolveChatSummaryTimestamps :: "mapping_lib \<Rightarrow> raw_thread \<Rightarrow> map_error + string \<times> string \<times> bool" where
  "resolveChatSummaryTimestamps lib raw =
     (let fallback = of_int (stableThreadTimestampSeconds (case rw_id raw of Some i \<Rightarrow> i | None \<Rightarrow> []));
          createdAtSeconds = (case rw_createdAt raw of Some t \<Rightarrow> t | None \<Rightarrow> (case rw_updatedAt raw of Some t \<Rightarrow> t | None \<Rightarrow> fallback));
          updatedAtSeconds = (case rw_updatedAt raw of Some t \<Rightarrow> t
            | None \<Rightarrow> (case rw_createdAt raw of Some t \<Rightarrow> t | None \<Rightarrow> createdAtSeconds))
      in case unixSecondsToIso lib createdAtSeconds of
           Inl e \<Rightarrow> Inl e
         | Inr createdAt \<Rightarrow>
             map_sum id (\<lambda>updatedAt. (createdAt, updatedAt, rw_createdAt raw \<noteq> None \<or> rw_updatedAt raw \<noteq> None))
               (unixSecondsToIso lib updatedAtSeconds))"

definition shortSessionId :: "string \<Rightarrow> string" where
  "shortSessionId value =
     (let compact = slice_last 8 (filter is_alnum (trim value)) in if compact \<noteq> [] then compact else ''new'')"

definition readThreadItemText :: "valibot \<Rightarrow> (string, json) jsmap \<Rightarrow> string" where
  "readThreadItemText vb item =
     (case non_empty (readString vb (map_get item ''text'')) of
        Some t \<Rightarrow> t
      | None \<Rightarrow>
          concat (map (\<lambda>entry. let r = toRecord (Some entry)
              in if readString vb (field r ''type'') = Some ''text''
                 then (case readString vb (field r ''text'') of Some t \<Rightarrow> t | None \<Rightarrow> []) else [])
            (array_of item ''content'')))"

definition firstUserMessagePreview :: "valibot \<Rightarrow> raw_turn list \<Rightarrow> string option" where
  "firstUserMessagePreview vb turns =
     first_some (\<lambda>item. if map_get item ''type'' = Some (JStr ''userMessage'')
         then non_empty (Some (toPreview (readThreadItemText vb item))) else None)
       (concat (map rt_items turns))"

text \<open>Reading \<open>text\<close> of a part throws on \<open>null\<close>.\<close>

definition part_texts :: "json list \<Rightarrow> map_error + string" where
  "part_texts parts =
     (if JNull \<in> set parts then Inl TypeError
      else Inr (concat (map (\<lambda>p. case p of JObj o' \<Rightarrow> (case str_field o' ''text'' of Some t \<Rightarrow> t | None \<Rightarrow> []) | _ \<Rightarrow> []) parts)))"

fun first_user_preview :: "snapshot_message list \<Rightarrow> map_error + string option" where
  "first_user_preview [] = Inr None"
| "first_user_preview (m # ms) =
     (if sm_role m \<noteq> ''user'' then first_user_preview ms
      else case part_texts (sm_parts m) of
             Inl e \<Rightarrow> Inl e
           | Inr t \<Rightarrow> (let preview = toPreview (trim t) in if preview \<noteq> [] then Inr (Some preview) else first_user_preview ms))"

definition firstSnapshotUserMessagePreview :: "raw_thread \<Rightarrow> map_error + string option" where
  "firstSnapshotUserMessagePreview raw =
     first_user_preview (case rw_acpSnapshot raw of Some s \<Rightarrow> as_messages s | None \<Rightarrow> [])"

definition or_empty :: "string option \<Rightarrow> string" where
  "or_empty v = (case v of Some s \<Rightarrow> s | None \<Rightarrow> [])"

definition fallback_title :: "raw_thread \<Rightarrow> string" where
  "fallback_title raw =
     (case non_empty (map_option (\<lambda>s. si_threadId (as_session s)) (rw_acpSnapshot raw)) of
        Some i \<Rightarrow> ''Session '' @ shortSessionId i
      | None \<Rightarrow> ''Chat '' @ take 8 (or_empty (rw_id raw)))"

definition chat_title :: "raw_thread \<Rightarrow> string \<Rightarrow> string option \<Rightarrow> string" where
  "chat_title raw previewTitle firstUserTitle =
     toPreview (case find (\<lambda>s. s \<noteq> []) [or_empty (map_option trim (rw_name raw)), previewTitle, or_empty firstUserTitle] of
       Some t \<Rightarrow> t | None \<Rightarrow> fallback_title raw)"

definition resolveChatSummaryTitle :: "valibot \<Rightarrow> raw_thread \<Rightarrow> string \<Rightarrow> map_error + string" where
  "resolveChatSummaryTitle vb raw previewTitle =
     (case firstUserMessagePreview vb (rw_turns raw) of
        Some t \<Rightarrow> Inr (chat_title raw previewTitle (Some t))
      | None \<Rightarrow> map_sum id (chat_title raw previewTitle) (firstSnapshotUserMessagePreview raw))"

definition readAgentId :: "valibot \<Rightarrow> json option \<Rightarrow> string option" where
  "readAgentId vb value = non_empty (map_option trim (readString vb value))"

record source_metadata =
  so_kind :: "string option"
  so_parentThreadId :: "string option"
  so_subAgentDepth :: "rat option"

definition subAgentKind :: "string \<Rightarrow> string" where
  "subAgentKind subAgent =
     (if subAgent = ''review'' then ''subAgentReview'' else if subAgent = ''compact'' then ''subAgentCompact''
      else if subAgent = ''memory_consolidation'' then ''subAgentOther'' else ''subAgent'')"

text \<open>\<open>a ?? b\<close>\<close>

definition or_else :: "'a option \<Rightarrow> 'a option \<Rightarrow> 'a option" where
  "or_else a b = (case a of Some x \<Rightarrow> Some x | None \<Rightarrow> b)"

definition withSourceFields :: "valibot \<Rightarrow> string \<Rightarrow> (string, json) jsmap \<Rightarrow> source_metadata" where
  "withSourceFields vb kind source =
     \<lparr>so_kind = Some kind,
      so_parentThreadId = or_else (readString vb (map_get source ''parentThreadId'')) (readString vb (map_get source ''parent_thread_id'')),
      so_subAgentDepth = or_else (readCoercedFiniteNumber vb (map_get source ''depth''))
        (or_else (readCoercedFiniteNumber vb (map_get source ''agentDepth'')) (readCoercedFiniteNumber vb (map_get source ''agent_depth'')))\<rparr>"

definition source_kind_only :: "string \<Rightarrow> source_metadata" where
  "source_kind_only kind = \<lparr>so_kind = Some kind, so_parentThreadId = None, so_subAgentDepth = None\<rparr>"

definition readSubAgentSourceMetadata :: "valibot \<Rightarrow> json \<Rightarrow> source_metadata" where
  "readSubAgentSourceMetadata vb subAgent =
     (case subAgent of
        JStr s \<Rightarrow> source_kind_only (subAgentKind s)
      | _ \<Rightarrow>
          (case toRecord (Some subAgent) of
             None \<Rightarrow> source_kind_only ''subAgent''
           | Some r \<Rightarrow>
               (case toRecord (map_get r ''thread_spawn'') of
                  Some threadSpawn \<Rightarrow> withSourceFields vb ''subAgentThreadSpawn'' threadSpawn
                | None \<Rightarrow>
                    if non_empty (readString vb (map_get r ''other'')) \<noteq> None then source_kind_only ''subAgentOther''
                    else withSourceFields vb ''subAgent'' r)))"

definition readThreadSourceMetadata :: "valibot \<Rightarrow> json option \<Rightarrow> source_metadata" where
  "readThreadSourceMetadata vb source =
     (let none = \<lparr>so_kind = None, so_parentThreadId = None, so_subAgentDepth = None\<rparr>
      in case toRecord source of
           None \<Rightarrow> none
         | Some r \<Rightarrow>
             (case nullish_or (map_get r ''subAgent'') (map_get r ''subagent'') of
                Some v \<Rightarrow> readSubAgentSourceMetadata vb v
              | None \<Rightarrow> none))"

definition mapChatSummary :: "valibot \<Rightarrow> mapping_lib \<Rightarrow> raw_thread \<Rightarrow> map_error + chat_summary option" where
  "mapChatSummary vb lib raw =
     (case non_empty (rw_id raw) of
        None \<Rightarrow> Inr None
      | Some i \<Rightarrow>
          (case resolveChatSummaryTimestamps lib raw of
             Inl e \<Rightarrow> Inl e
           | Inr (createdAt, updatedAt, hasBridgeTimestamps) \<Rightarrow>
               let sourceMetadata = readThreadSourceMetadata vb (rw_source raw);
                   previewTitle = toPreview (or_empty (rw_preview raw))
               in map_sum id (\<lambda>title. Some
                    \<lparr>ct_id = i, ct_title = title,
                     ct_status = (if hasActiveAcpRun (rw_acpSnapshot raw) then StRunning else mapRawStatus vb (rw_status raw) (rw_turns raw)),
                     ct_createdAt = createdAt, ct_updatedAt = updatedAt, ct_statusUpdatedAt = updatedAt,
                     ct_timestampsSynthesized = Some (\<not> hasBridgeTimestamps),
                     ct_lastMessagePreview = toPreview (or_empty (rw_preview raw)), ct_cwd = rw_cwd raw,
                     ct_agentId = readAgentId vb (rw_agentId raw), ct_modelProvider = rw_modelProvider raw,
                     ct_agentNickname = rw_agentNickname raw, ct_agentRole = rw_agentRole raw, ct_sourceKind = so_kind sourceMetadata,
                     ct_parentThreadId = so_parentThreadId sourceMetadata, ct_subAgentDepth = so_subAgentDepth sourceMetadata,
                     ct_lastRunStartedAt = None, ct_lastRunFinishedAt = None, ct_lastRunDurationMs = None, ct_lastRunExitCode = None,
                     ct_lastRunTimedOut = None, ct_lastError = extractLastError vb (rw_turns raw)\<rparr>)
                  (resolveChatSummaryTitle vb raw previewTitle)))"


section \<open>Plans\<close>

definition normalizeType :: "string \<Rightarrow> string" where
  "normalizeType value = to_lower (filter is_alnum value)"

definition normalizePlanStepStatus :: "string option \<Rightarrow> string option" where
  "normalizePlanStepStatus value =
     (case non_empty value of
        None \<Rightarrow> None
      | Some v \<Rightarrow>
          let normalized = filter (\<lambda>c. 97 \<le> code c \<and> code c \<le> 122) (to_lower (trim v))
          in if normalized = ''pending'' then Some ''pending''
             else if normalized = ''inprogress'' then Some ''inProgress''
             else if normalized \<in> {''completed'', ''complete''} then Some ''completed'' else None)"

definition readPlanLines :: "string \<Rightarrow> string list" where
  "readPlanLines txt = filter (\<lambda>l. l \<noteq> []) (map trim (split_on CHR 0x0A txt))"

text \<open>What follows a list number, \<open>/^\d+[.)]\s+/\<close>, in a trimmed line.\<close>

definition numbered_rest :: "string \<Rightarrow> string option" where
  "numbered_rest line =
     (let digits = takeWhile (\<lambda>c. char_digit c \<noteq> None) line; rest = drop (length digits) line
      in if digits = [] then None
         else (case rest of
                 c # d # cs \<Rightarrow> if c \<in> {CHR ''.'', CHR '')''} \<and> is_js_space d then Some (dropWhile is_js_space cs) else None
               | _ \<Rightarrow> None))"

definition readPlanSteps :: "string list \<Rightarrow> (string \<times> string) list" where
  "readPlanSteps ls =
     List.map_filter (\<lambda>line. case numbered_rest line of
           Some rest \<Rightarrow> if rest \<noteq> [] \<and> CHR 0x0D \<notin> set rest then Some (trim rest, ''pending'') else None
         | None \<Rightarrow> None) ls"

definition is_summary :: "string \<Rightarrow> bool" where
  "is_summary line \<longleftrightarrow> to_lower line = ''summary''"

definition readPlanExplanation :: "string list \<Rightarrow> string option" where
  "readPlanExplanation ls =
     (let start = (if length ls > 1 \<and> ends_with (to_lower (hd ls)) ''plan'' then tl ls else ls);
          body = (case start of l # rest \<Rightarrow> if is_summary l then rest else start | [] \<Rightarrow> []);
          explanation = filter (\<lambda>l. to_lower l \<notin> {''summary'', ''implementation plan'', ''proposed plan''})
            (takeWhile (\<lambda>l. numbered_rest l = None) body)
      in non_empty (Some (trim (join '' '' explanation))))"

definition parsePlanTextSnapshot :: "string option \<Rightarrow> string \<Rightarrow> string \<Rightarrow> plan_snapshot option" where
  "parsePlanTextSnapshot txt threadId turnId =
     (case non_empty (map_option trim txt) of
        None \<Rightarrow> None
      | Some trimmed \<Rightarrow>
          let ls = readPlanLines trimmed; steps = readPlanSteps ls; explanation = readPlanExplanation ls
          in if ls = [] \<or> (\<not> list_ex is_summary ls \<and> steps = []) \<or> (steps = [] \<and> explanation = None) then None
             else Some \<lparr>ps_threadId = threadId, ps_turnId = turnId, ps_explanation = explanation, ps_steps = steps\<rparr>)"

definition plan_step_of :: "valibot \<Rightarrow> (string, json) jsmap \<Rightarrow> (string \<times> string) option" where
  "plan_step_of vb entry =
     (case (non_empty (readString vb (map_get entry ''step'')), normalizePlanStepStatus (readString vb (map_get entry ''status''))) of
        (Some step, Some status) \<Rightarrow> Some (step, status) | _ \<Rightarrow> None)"

definition toPlanSnapshot :: "valibot \<Rightarrow> (string, json) jsmap \<Rightarrow> string \<Rightarrow> string option \<Rightarrow> plan_snapshot option" where
  "toPlanSnapshot vb item threadId fallbackTurnId =
     (case non_empty (or_else (readString vb (map_get item ''turnId'')) (or_else (readString vb (map_get item ''turn_id''))
             (or_else fallbackTurnId (readString vb (map_get item ''id''))))) of
        None \<Rightarrow> None
      | Some turnId \<Rightarrow>
          let rawSteps = (case map_get item ''plan'' of Some (JArr _) \<Rightarrow> records_of item ''plan'' | _ \<Rightarrow> records_of item ''steps'');
              steps = List.map_filter (plan_step_of vb) rawSteps;
              explanation = readString vb (map_get item ''explanation'')
          in if steps = [] \<and> non_empty (map_option trim explanation) = None
             then parsePlanTextSnapshot (readString vb (map_get item ''text'')) threadId turnId
             else Some \<lparr>ps_threadId = threadId, ps_turnId = turnId, ps_explanation = explanation, ps_steps = steps\<rparr>)"

record chat_plans =
  cp_latestPlan :: "plan_snapshot option"
  cp_latestTurnPlan :: "plan_snapshot option"
  cp_latestTurnStatus :: "string option"
  cp_activeTurnId :: "string option"

definition extractActiveTurnId :: "raw_turn list \<Rightarrow> string option" where
  "extractActiveTurnId turns =
     first_some (\<lambda>turn. case (non_empty (map_option trim (rt_id turn)), normalizeLifecycleStatus (rt_status turn)) of
           (Some turnId, Some st) \<Rightarrow> if st \<in> set RUNNING_STATUSES then Some turnId else None
         | _ \<Rightarrow> None) (rev turns)"

definition snapshotPlanStepStatus :: "string \<Rightarrow> string" where
  "snapshotPlanStepStatus status =
     (if status = ''completed'' then ''completed''
      else if status = ''inProgress'' \<or> status = ''in_progress'' then ''inProgress'' else ''pending'')"

definition extractSnapshotPlans :: "acp_snapshot \<Rightarrow> string \<Rightarrow> chat_plans" where
  "extractSnapshotPlans snapshot threadId =
     (let steps = map (\<lambda>e. (pl_content e, snapshotPlanStepStatus (pl_status e))) (as_plan snapshot);
          plan = (if steps \<noteq> []
            then Some \<lparr>ps_threadId = threadId,
                   ps_turnId = (case ai_sourceTurnId (as_active snapshot) of Some t \<Rightarrow> t | None \<Rightarrow> threadId @ ''::snapshot''),
                   ps_explanation = None, ps_steps = steps\<rparr> else None)
      in \<lparr>cp_latestPlan = plan, cp_latestTurnPlan = plan,
          cp_latestTurnStatus = Some (if non_empty (ai_runId (as_active snapshot)) \<noteq> None then ''running'' else ''completed''),
          cp_activeTurnId = ai_sourceTurnId (as_active snapshot)\<rparr>)"

definition turn_plans :: "valibot \<Rightarrow> string \<Rightarrow> raw_turn \<Rightarrow> plan_snapshot list" where
  "turn_plans vb threadId turn =
     List.map_filter (\<lambda>item. if normalizeType (or_empty (readString vb (map_get item ''type''))) \<noteq> ''plan'' then None
         else toPlanSnapshot vb item threadId (rt_id turn)) (rt_items turn)"

definition last_of :: "'a list \<Rightarrow> 'a option" where
  "last_of xs = (if xs = [] then None else Some (last xs))"

definition extractTurnPlans :: "valibot \<Rightarrow> raw_turn list \<Rightarrow> string \<Rightarrow> string option \<Rightarrow> string option \<Rightarrow> chat_plans" where
  "extractTurnPlans vb turns threadId latestTurnStatus activeTurnId =
     \<lparr>cp_latestPlan = last_of (concat (map (turn_plans vb threadId) turns)),
      cp_latestTurnPlan = Option.bind (last_of turns) (\<lambda>t. last_of (turn_plans vb threadId t)),
      cp_latestTurnStatus = latestTurnStatus, cp_activeTurnId = activeTurnId\<rparr>"

definition extractChatPlans :: "valibot \<Rightarrow> raw_thread \<Rightarrow> chat_plans" where
  "extractChatPlans vb raw =
     (let turns = rw_turns raw; latestTurnStatus = Option.bind (last_of turns) rt_status; activeTurnId = extractActiveTurnId turns
      in case (non_empty (map_option trim (rw_id raw)), rw_acpSnapshot raw) of
           (Some threadId, Some snapshot) \<Rightarrow> extractSnapshotPlans snapshot threadId
         | (Some threadId, None) \<Rightarrow>
             if turns = [] then \<lparr>cp_latestPlan = None, cp_latestTurnPlan = None, cp_latestTurnStatus = latestTurnStatus,
               cp_activeTurnId = activeTurnId\<rparr>
             else extractTurnPlans vb turns threadId latestTurnStatus activeTurnId
         | (None, _) \<Rightarrow> \<lparr>cp_latestPlan = None, cp_latestTurnPlan = None, cp_latestTurnStatus = latestTurnStatus,
             cp_activeTurnId = activeTurnId\<rparr>)"


section \<open>Chats\<close>

definition mapMessages ::
  "mapping_lib \<Rightarrow> (raw_thread \<Rightarrow> string \<Rightarrow> chat_message list) \<Rightarrow> raw_thread \<Rightarrow> string \<Rightarrow> chat_message list" where
  "mapMessages lib turn_messages raw fallbackCreatedAt =
     (if rw_acpSnapshot raw \<noteq> None then mapMessagesFromAcpSnapshot lib (rw_id raw) (rw_acpSnapshot raw) fallbackCreatedAt
      else turn_messages raw fallbackCreatedAt)"

definition mapChat ::
  "valibot \<Rightarrow> mapping_lib \<Rightarrow> (raw_thread \<Rightarrow> string \<Rightarrow> chat_message list) \<Rightarrow> raw_thread \<Rightarrow> map_error + chat" where
  "mapChat vb lib turn_messages raw =
     (case mapChatSummary vb lib raw of
        Inl e \<Rightarrow> Inl e
      | Inr None \<Rightarrow> Inl ChatIdMissing
      | Inr (Some summary) \<Rightarrow>
          let messages = mapMessages lib turn_messages raw (ct_createdAt summary); plans = extractChatPlans vb raw;
              preview = (if messages \<noteq> [] then toPreview (getMessageText (last messages)) else ct_lastMessagePreview summary);
              snapshot = rw_acpSnapshot raw
          in Inr (chat_summary.extend (summary\<lparr>ct_lastMessagePreview := preview\<rparr>)
               (chat.fields messages snapshot (cp_latestPlan plans) (cp_latestTurnPlan plans) (cp_latestTurnStatus plans)
                  (cp_activeTurnId plans) (map_option as_usage snapshot) (Option.bind snapshot as_tokenTotals)
                  (Option.bind snapshot as_mode) (Some (case snapshot of Some s \<Rightarrow> as_config s | None \<Rightarrow> []))
                  (Some (case snapshot of Some s \<Rightarrow> as_commands s | None \<Rightarrow> [])) (map_option as_active snapshot))))"

definition status_name :: "chat_status \<Rightarrow> string" where
  "status_name st = (case st of StIdle \<Rightarrow> ''idle'' | StRunning \<Rightarrow> ''running'' | StError \<Rightarrow> ''error'' | StComplete \<Rightarrow> ''complete'')"

definition snapshot_thread :: "mapping_lib \<Rightarrow> chat \<Rightarrow> acp_snapshot \<Rightarrow> raw_thread" where
  "snapshot_thread lib c s =
     \<lparr>rw_id = Some (ct_id c), rw_agentId = map_option JStr (ct_agentId c), rw_name = Some (ct_title c),
      rw_preview = Some (ct_lastMessagePreview c), rw_modelProvider = ct_modelProvider c, rw_agentNickname = None, rw_agentRole = None,
      rw_createdAt = Some (ml_time lib (ct_createdAt c) / 1000), rw_updatedAt = Some (ml_time lib (ct_updatedAt c) / 1000),
      rw_status = Some (JObj [(''type'', JStr (status_name (ct_status c)))]), rw_cwd = ct_cwd c, rw_source = None, rw_turns = [],
      rw_acpSnapshot = Some s\<rparr>"

text \<open>
  The spread \<open>{...chat, ...mapped}\<close>: the keys of \<open>mapped\<close> replace those of the chat also when they are \<open>undefined\<close>;
  the five fields of the last run are not among them.
\<close>

definition applySnapshotToChat ::
  "valibot \<Rightarrow> mapping_lib \<Rightarrow> (raw_thread \<Rightarrow> string \<Rightarrow> chat_message list) \<Rightarrow> chat \<Rightarrow> acp_snapshot \<Rightarrow> map_error + chat" where
  "applySnapshotToChat vb lib turn_messages c s =
     map_sum id (\<lambda>mapped. mapped\<lparr>
         ct_lastRunStartedAt := ct_lastRunStartedAt c, ct_lastRunFinishedAt := ct_lastRunFinishedAt c,
         ct_lastRunDurationMs := ct_lastRunDurationMs c, ct_lastRunExitCode := ct_lastRunExitCode c,
         ct_lastRunTimedOut := ct_lastRunTimedOut c,
         ct_title := ct_title c, ct_status := ct_status c, ct_statusUpdatedAt := ct_statusUpdatedAt c,
         ct_sourceKind := ct_sourceKind c, ct_parentThreadId := ct_parentThreadId c, ct_subAgentDepth := ct_subAgentDepth c,
         ct_acpSnapshot := Some s\<rparr>)
       (mapChat vb lib turn_messages (snapshot_thread lib c s))"


section \<open>Previews, titles and synthesized times\<close>

lemma toPreview_length: "length (toPreview s) \<le> 180"
  by (simp add: toPreview_def Let_def)

lemma collapse_blank: "(\<forall>c\<in>set (collapse_spaces b s). is_js_space c) \<longleftrightarrow> (\<forall>c\<in>set s. is_js_space c)"
proof (induction s arbitrary: b)
  case (Cons c s)
  have "is_js_space CHR '' ''" by (simp add: is_js_space_def)
  with Cons show ?case by auto
qed simp

lemma trim_empty_iff: "trim s = [] \<longleftrightarrow> (\<forall>c\<in>set s. is_js_space c)"
proof -
  have "trim s = [] \<longleftrightarrow> (\<forall>c\<in>set (dropWhile is_js_space s). is_js_space c)"
    by (simp add: trim_def trim_end_empty_iff trim_start_def)
  also have "\<dots> \<longleftrightarrow> (\<forall>c\<in>set s. is_js_space c)"
  proof
    assume "\<forall>c\<in>set (dropWhile is_js_space s). is_js_space c"
    then show "\<forall>c\<in>set s. is_js_space c"
      by (metis Un_iff set_append set_takeWhileD takeWhile_dropWhile_id)
  qed (use set_dropWhileD in fastforce)
  finally show ?thesis .
qed

lemma toPreview_empty_iff: "toPreview s = [] \<longleftrightarrow> trim s = []"
proof -
  have "trim (collapse_spaces False s) = [] \<longleftrightarrow> trim s = []" by (simp add: trim_empty_iff collapse_blank)
  then show ?thesis by (auto simp: toPreview_def Let_def)
qed

lemma toPreview_trim: "toPreview s \<noteq> [] \<Longrightarrow> trim (toPreview s) \<noteq> []"
proof (cases "length (trim (collapse_spaces False s)) \<le> 180")
  case False
  have "\<not> is_js_space CHR ''.''" by (simp add: is_js_space_def)
  then show ?thesis using False by (simp add: toPreview_def Let_def trim_empty_iff)
qed (simp add: toPreview_def Let_def)

lemma first_some_SomeD: "first_some f xs = Some y \<Longrightarrow> \<exists>x\<in>set xs. f x = Some y"
proof (induction xs)
  case (Cons x xs)
  then show ?case by (cases "f x") (auto simp: first_some_def map_filter_simps)
qed (simp add: first_some_def map_filter_simps)

lemma firstUserMessagePreview_trim: "firstUserMessagePreview vb turns = Some t \<Longrightarrow> trim t \<noteq> []"
  using toPreview_trim
  by (fastforce simp: firstUserMessagePreview_def non_empty_def dest!: first_some_SomeD split: if_splits)

lemma first_user_preview_trim: "first_user_preview ms = Inr (Some t) \<Longrightarrow> trim t \<noteq> []"
  using toPreview_trim
  by (induction ms) (auto simp: Let_def split: if_splits sum.splits)

lemma title_of_candidates:
  assumes "\<And>t. t \<in> set ts \<Longrightarrow> t \<noteq> [] \<Longrightarrow> trim t \<noteq> []" "trim fallback \<noteq> []"
  shows "toPreview (case find (\<lambda>s. s \<noteq> []) ts of Some t \<Rightarrow> t | None \<Rightarrow> fallback) \<noteq> []"
  using assms by (auto simp: toPreview_empty_iff find_Some_iff split: option.split)

lemma word_start_trim: "\<not> is_js_space c \<Longrightarrow> trim (c # s) \<noteq> []"
  by (simp add: trim_empty_iff)

lemma chat_title_ok:
  assumes "trim (or_empty t) = [] \<Longrightarrow> or_empty t = []"
  shows "chat_title raw (toPreview p) t \<noteq> []" "length (chat_title raw (toPreview p) t) \<le> 180"
proof -
  have "trim (fallback_title raw) \<noteq> []" by (simp add: fallback_title_def word_start_trim is_js_space_def split: option.split)
  then show "chat_title raw (toPreview p) t \<noteq> []"
    unfolding chat_title_def using assms toPreview_trim
    by (intro title_of_candidates) (auto simp: or_empty_def split: option.splits)
  show "length (chat_title raw (toPreview p) t) \<le> 180" by (simp add: chat_title_def toPreview_length)
qed

lemma resolveChatSummaryTitle_cases:
  assumes "resolveChatSummaryTitle vb raw (toPreview p) = Inr title"
  obtains t where "title = chat_title raw (toPreview p) t" "trim (or_empty t) = [] \<Longrightarrow> or_empty t = []"
  using assms firstUserMessagePreview_trim first_user_preview_trim
  by (cases "firstUserMessagePreview vb (rw_turns raw)"; cases "firstSnapshotUserMessagePreview raw")
    (fastforce simp: resolveChatSummaryTitle_def firstSnapshotUserMessagePreview_def or_empty_def split: option.splits)+

lemma resolveChatSummaryTitle_non_empty:
  "resolveChatSummaryTitle vb raw (toPreview p) = Inr title \<Longrightarrow> title \<noteq> [] \<and> length title \<le> 180"
  by (metis resolveChatSummaryTitle_cases chat_title_ok)

lemma first_user_preview_error:
  "first_user_preview ms = Inl e \<Longrightarrow> e = TypeError \<and> (\<exists>m\<in>set ms. sm_role m = ''user'' \<and> JNull \<in> set (sm_parts m))"
  by (induction ms) (auto simp: part_texts_def Let_def split: if_splits sum.splits)

lemma resolve_title_error:
  assumes "resolveChatSummaryTitle vb raw p = Inl e"
  shows "e = TypeError \<and> (\<exists>s. rw_acpSnapshot raw = Some s \<and> (\<exists>m\<in>set (as_messages s). sm_role m = ''user'' \<and> JNull \<in> set (sm_parts m)))"
proof -
  have "firstSnapshotUserMessagePreview raw = Inl e"
    using assms by (cases "firstSnapshotUserMessagePreview raw") (auto simp: resolveChatSummaryTitle_def split: option.splits)
  then show ?thesis
    using first_user_preview_error by (fastforce simp: firstSnapshotUserMessagePreview_def split: option.splits)
qed

lemma stable_timestamp_range:
  "1704067200 \<le> stableThreadTimestampSeconds i" "stableThreadTimestampSeconds i < 1704067200 + 31536000"
  by (simp_all add: stableThreadTimestampSeconds_def)

text \<open>
  The seconds of a time of a thread: the time itself, or the other one when the bridge does not give it, or without both a
  second of the year 2024 that depends on the id alone.
\<close>

definition shown_seconds :: "rat option \<Rightarrow> rat option \<Rightarrow> string \<Rightarrow> rat" where
  "shown_seconds t other i =
     (case t of Some x \<Rightarrow> x
      | None \<Rightarrow> (case other of Some x \<Rightarrow> x | None \<Rightarrow> of_int (stableThreadTimestampSeconds i)))"

definition date_range :: "rat \<Rightarrow> bool" where
  "date_range seconds \<longleftrightarrow> \<bar>seconds * 1000\<bar> \<le> 8640000000000000"

lemma resolveChatSummaryTimestamps_eq:
  assumes "rw_id raw = Some i"
  defines "a \<equiv> shown_seconds (rw_createdAt raw) (rw_updatedAt raw) i"
    and "u \<equiv> shown_seconds (rw_updatedAt raw) (rw_createdAt raw) i"
  shows "resolveChatSummaryTimestamps lib raw =
    (if date_range a \<and> date_range u
     then Inr (js_iso (ml_js lib) (a * 1000), js_iso (ml_js lib) (u * 1000), rw_createdAt raw \<noteq> None \<or> rw_updatedAt raw \<noteq> None)
     else Inl RangeError)"
  using assms(1) unfolding a_def u_def shown_seconds_def date_range_def
  by (simp add: resolveChatSummaryTimestamps_def unixSecondsToIso_def Let_def not_le split: option.split)

lemma stable_date_range: "date_range (of_int (stableThreadTimestampSeconds i))"
proof -
  have "\<bar>stableThreadTimestampSeconds i * 1000\<bar> \<le> 8640000000000000" using stable_timestamp_range [of i] by simp
  then have "\<bar>of_int (stableThreadTimestampSeconds i * 1000) :: rat\<bar> \<le> of_int 8640000000000000"
    by (metis of_int_abs of_int_le_iff)
  then show ?thesis by (simp add: date_range_def)
qed

text \<open>
  C23. What the client makes of a thread. A thread without id, or with an empty one, has no summary. The mapping throws a RangeError
  exactly if one of the two times is outside the range of a \<open>Date\<close> (which the made-up times never are), and otherwise can only
  throw the TypeError of a user message of the snapshot with a \<open>null\<close> part. A summary has the id of the thread, a title
  of 1 to 180 characters and a preview of at most 180; a thread with an active run is running, whatever its lifecycle
  status says, and any other has the status of the lifecycle; the time of creation and the time of update
  are those of the bridge, each stands in for the other one if that is missing, and without both they are the same second of
  the year 2024, which depends on the id alone, and the summary says that they are made up.
\<close>

theorem summary_well_formed:
  "(mapChatSummary vb lib raw = Inr None \<longleftrightarrow> rw_id raw \<in> {None, Some []}) \<and>
   (mapChatSummary vb lib raw = Inl RangeError \<longleftrightarrow>
      (\<exists>i. rw_id raw = Some i \<and> i \<noteq> [] \<and>
        \<not> (date_range (shown_seconds (rw_createdAt raw) (rw_updatedAt raw) i) \<and>
           date_range (shown_seconds (rw_updatedAt raw) (rw_createdAt raw) i)))) \<and>
   date_range (shown_seconds None None j) \<and> shown_seconds None None j \<in> of_int ` {1704067200..<1735603200} \<and>
   (case mapChatSummary vb lib raw of
      Inl e \<Rightarrow> e = RangeError \<or> e = TypeError \<and>
        (\<exists>s. rw_acpSnapshot raw = Some s \<and> (\<exists>m\<in>set (as_messages s). sm_role m = ''user'' \<and> JNull \<in> set (sm_parts m)))
    | Inr None \<Rightarrow> True
    | Inr (Some c) \<Rightarrow> rw_id raw = Some (ct_id c) \<and> ct_id c \<noteq> [] \<and> ct_title c \<noteq> [] \<and> length (ct_title c) \<le> 180 \<and>
        length (ct_lastMessagePreview c) \<le> 180 \<and>
        (if hasActiveAcpRun (rw_acpSnapshot raw) then ct_status c = StRunning
         else ct_status c = mapRawStatus vb (rw_status raw) (rw_turns raw)) \<and>
        ct_createdAt c = js_iso (ml_js lib) (shown_seconds (rw_createdAt raw) (rw_updatedAt raw) (ct_id c) * 1000) \<and>
        ct_updatedAt c = js_iso (ml_js lib) (shown_seconds (rw_updatedAt raw) (rw_createdAt raw) (ct_id c) * 1000) \<and>
        ct_statusUpdatedAt c = ct_updatedAt c \<and>
        ct_timestampsSynthesized c = Some (rw_createdAt raw = None \<and> rw_updatedAt raw = None))"
proof -
  have made_up: "date_range (shown_seconds None None j)" "shown_seconds None None j \<in> of_int ` {1704067200..<1735603200}"
    using stable_timestamp_range [of j] stable_date_range [of j] by (auto simp: shown_seconds_def)
  show ?thesis
  proof (cases "non_empty (rw_id raw)")
    case None
    then show ?thesis using made_up by (auto simp: mapChatSummary_def non_empty_def split: option.splits if_splits)
  next
    case (Some i)
    then have i: "rw_id raw = Some i" "i \<noteq> []" by (auto simp: non_empty_def split: option.splits if_splits)
    note times = resolveChatSummaryTimestamps_eq [OF i(1), of lib]
    show ?thesis
    proof (cases "resolveChatSummaryTitle vb raw (toPreview (or_empty (rw_preview raw)))")
      case (Inl e)
      then show ?thesis using Some i made_up resolve_title_error [OF Inl] by (simp add: mapChatSummary_def times Let_def)
    next
      case (Inr title)
      then show ?thesis
        using Some i made_up resolveChatSummaryTitle_non_empty [OF Inr]
        by (simp add: mapChatSummary_def times Let_def toPreview_length)
    qed
  qed
qed

end
