(* ===== verification/Continuation.thy ===== *)
theory Continuation
  imports ChatMapping
begin

text \<open>
  \<^verbatim>\<open>features/chat/transcript/controllers/continuationController.ts\<close>: loading earlier history of a chat. The method
  \<open>loadEarlier\<close> is cut at its await: \<open>loadEarlier\<close> up to the request, \<open>readEarlierPage\<close> from its outcome on.
  The messages of the errors that the host throws are the argument \<open>te\<close>.
\<close>

record continuation_state =
  cs_loading :: bool
  cs_error :: "string option"
  cs_exhausted :: bool
  cs_unavailableCount :: rat

datatype continuation_result = Merged chat continuation_state | Stale continuation_state

record page_request =
  pr_threadId :: string
  pr_beforeCursor :: string
  pr_revision :: rat
  pr_limit :: rat

datatype load_start = Answered continuation_result | Requested page_request

definition usable_cursor :: "collection_metadata option \<Rightarrow> string option" where
  "usable_cursor collection =
     Option.bind collection (\<lambda>c. if cl_omittedCount c > 0 then non_empty (cl_beforeCursor c) else None)"

definition readBeforeCursor :: "acp_snapshot option \<Rightarrow> string option" where
  "readBeforeCursor snapshot =
     Option.bind snapshot (\<lambda>s. first_some usable_cursor [as_messageCollection s, as_reasoningCollection s, as_toolCollection s])"

definition getTranscriptContinuationState :: "chat \<Rightarrow> continuation_state" where
  "getTranscriptContinuationState c =
     \<lparr>cs_loading = False, cs_error = None, cs_exhausted = (readBeforeCursor (ct_acpSnapshot c) = None),
      cs_unavailableCount = (case Option.bind (ct_acpSnapshot c) as_continuation of Some k \<Rightarrow> sc_unavailableCount k | None \<Rightarrow> 0)\<rparr>"

definition loadEarlier :: "string option \<Rightarrow> chat \<Rightarrow> load_start \<times> string option" where
  "loadEarlier inFlightCursor c =
     (let baseState = getTranscriptContinuationState c
      in case (ct_acpSnapshot c, Option.bind (ct_acpSnapshot c) as_continuation, readBeforeCursor (ct_acpSnapshot c)) of
           (Some snapshot, Some k, Some beforeCursor) \<Rightarrow>
             if inFlightCursor = Some beforeCursor then (Answered (Merged c (baseState\<lparr>cs_loading := True\<rparr>)), inFlightCursor)
             else (Requested \<lparr>pr_threadId = ct_id c, pr_beforeCursor = beforeCursor, pr_revision = sc_revision k,
                     pr_limit = (if sc_maxPageSize k \<noteq> 0 then sc_maxPageSize k else 50)\<rparr>, Some beforeCursor)
         | _ \<Rightarrow> (Answered (Merged c baseState), inFlightCursor))"

definition load_error :: "string \<Rightarrow> string" where
  "load_error message = (if message \<noteq> [] then message else ''Unable to load earlier history'')"

text \<open>The outcome of the request is the message of an error or a page.\<close>

definition readEarlierPage ::
  "valibot \<Rightarrow> mapping_lib \<Rightarrow> (raw_thread \<Rightarrow> string \<Rightarrow> chat_message list) \<Rightarrow> (map_error \<Rightarrow> string) \<Rightarrow> string option \<Rightarrow> chat \<Rightarrow> acp_snapshot \<Rightarrow> string \<Rightarrow>
   string + snapshot_page \<Rightarrow> continuation_result \<times> string option" where
  "readEarlierPage vb lib turn_messages te inFlightCursor c snapshot beforeCursor outcome =
     (let baseState = getTranscriptContinuationState c;
          failed = (\<lambda>message. Merged c (baseState\<lparr>cs_error := Some (load_error message)\<rparr>))
      in (case outcome of
            Inl message \<Rightarrow> failed message
          | Inr page \<Rightarrow>
              (case mergeSnapshotPage snapshot page of
                 Inl _ \<Rightarrow> Stale baseState
               | Inr mergedSnapshot \<Rightarrow>
                   (case applySnapshotToChat vb lib turn_messages c mergedSnapshot of
                      Inl e \<Rightarrow> failed (if e = ChatIdMissing then ''chat id missing in app-server response'' else te e)
                    | Inr mergedChat \<Rightarrow> Merged mergedChat (getTranscriptContinuationState mergedChat))),
          if inFlightCursor = Some beforeCursor then None else inFlightCursor))"


section \<open>A loaded page\<close>

lemma mapChatSummary_fields:
  assumes "mapChatSummary vb lib raw = Inr (Some m)"
  shows "rw_id raw = Some (ct_id m)" "ct_cwd m = rw_cwd raw" "ct_agentNickname m = rw_agentNickname raw"
    "ct_agentRole m = rw_agentRole raw" "ct_lastError m = extractLastError vb (rw_turns raw)"
    "resolveChatSummaryTimestamps lib raw = Inr (ct_createdAt m, ct_updatedAt m, ct_timestampsSynthesized m = Some False)"
    "ct_timestampsSynthesized m \<noteq> None"
proof -
  obtain i where i: "rw_id raw = Some i" "non_empty (rw_id raw) = Some i"
    using assms by (auto simp: mapChatSummary_def non_empty_def split: option.splits if_splits)
  obtain a u h where r: "resolveChatSummaryTimestamps lib raw = Inr (a, u, h)"
    using assms i by (auto simp: mapChatSummary_def split: sum.splits)
  obtain title where t: "resolveChatSummaryTitle vb raw (toPreview (or_empty (rw_preview raw))) = Inr title"
    using assms i r by (cases "resolveChatSummaryTitle vb raw (toPreview (or_empty (rw_preview raw)))")
      (auto simp: mapChatSummary_def Let_def)
  show "rw_id raw = Some (ct_id m)" "ct_cwd m = rw_cwd raw" "ct_agentNickname m = rw_agentNickname raw"
    "ct_agentRole m = rw_agentRole raw" "ct_lastError m = extractLastError vb (rw_turns raw)"
    "resolveChatSummaryTimestamps lib raw = Inr (ct_createdAt m, ct_updatedAt m, ct_timestampsSynthesized m = Some False)"
    "ct_timestampsSynthesized m \<noteq> None"
    using assms unfolding mapChatSummary_def i(2) r Let_def by (auto simp: i t)
qed

lemma mapChat_fields:
  assumes "mapChat vb lib tm raw = Inr c"
  obtains m where "mapChatSummary vb lib raw = Inr (Some m)" "chat_summary.truncate c = m\<lparr>ct_lastMessagePreview := ct_lastMessagePreview c\<rparr>"
    "ct_messages c = mapMessages lib tm raw (ct_createdAt m)" "ct_acpSnapshot c = rw_acpSnapshot raw"
proof -
  obtain m where m: "mapChatSummary vb lib raw = Inr (Some m)"
    using assms by (auto simp: mapChat_def split: sum.splits option.splits)
  show thesis
    using assms by (intro that [OF m]) (auto simp: mapChat_def m Let_def chat_summary.defs chat.defs)
qed

lemma truncated_fields:
  assumes "chat_summary.truncate (c :: chat) = m\<lparr>ct_lastMessagePreview := p\<rparr>"
  shows "ct_id c = ct_id m" "ct_cwd c = ct_cwd m" "ct_agentNickname c = ct_agentNickname m" "ct_agentRole c = ct_agentRole m"
    "ct_lastError c = ct_lastError m" "ct_timestampsSynthesized c = ct_timestampsSynthesized m"
proof -
  have "f (chat_summary.truncate c) = f (m\<lparr>ct_lastMessagePreview := p\<rparr>)" for f :: "chat_summary \<Rightarrow> 'a"
    by (simp only: assms)
  from this [of ct_id] this [of ct_cwd] this [of ct_agentNickname] this [of ct_agentRole] this [of ct_lastError]
    this [of ct_timestampsSynthesized]
  show "ct_id c = ct_id m" "ct_cwd c = ct_cwd m" "ct_agentNickname c = ct_agentNickname m" "ct_agentRole c = ct_agentRole m"
    "ct_lastError c = ct_lastError m" "ct_timestampsSynthesized c = ct_timestampsSynthesized m"
    by (simp_all add: chat_summary.truncate_def)
qed

lemma applySnapshotToChat_fields:
  assumes "applySnapshotToChat vb lib tm c s = Inr c'"
  shows "ct_id c' = ct_id c" "ct_title c' = ct_title c" "ct_status c' = ct_status c" "ct_cwd c' = ct_cwd c"
    "ct_parentThreadId c' = ct_parentThreadId c" "ct_acpSnapshot c' = Some s"
    "ct_agentNickname c' = None" "ct_agentRole c' = None" "ct_lastError c' = None" "ct_timestampsSynthesized c' = Some False"
    "ct_messages c' = mapMessagesFromAcpSnapshot lib (Some (ct_id c)) (Some s)
       (js_iso (ml_js lib) (ml_time lib (ct_createdAt c)))"
proof -
  let ?raw = "snapshot_thread lib c s"
  obtain d where d: "mapChat vb lib tm ?raw = Inr d"
    using assms by (cases "mapChat vb lib tm ?raw") (auto simp: applySnapshotToChat_def)
  obtain m where m: "mapChatSummary vb lib ?raw = Inr (Some m)"
    "chat_summary.truncate d = m\<lparr>ct_lastMessagePreview := ct_lastMessagePreview d\<rparr>"
    "ct_messages d = mapMessages lib tm ?raw (ct_createdAt m)" "ct_acpSnapshot d = rw_acpSnapshot ?raw"
    using mapChat_fields [OF d] by metis
  note facts = assms [unfolded applySnapshotToChat_def d] truncated_fields [OF m(2)] mapChatSummary_fields [OF m(1)] m(3,4)
  show "ct_id c' = ct_id c" "ct_title c' = ct_title c" "ct_status c' = ct_status c" "ct_cwd c' = ct_cwd c"
    "ct_parentThreadId c' = ct_parentThreadId c" "ct_acpSnapshot c' = Some s"
    "ct_agentNickname c' = None" "ct_agentRole c' = None" "ct_lastError c' = None" "ct_timestampsSynthesized c' = Some False"
    "ct_messages c' = mapMessagesFromAcpSnapshot lib (Some (ct_id c)) (Some s)
       (js_iso (ml_js lib) (ml_time lib (ct_createdAt c)))"
    using facts by (auto simp: snapshot_thread_def resolveChatSummaryTimestamps_eq [of _ "ct_id c"] shown_seconds_def
        mapMessages_def extractLastError_def first_some_def map_filter_simps split: if_splits)
qed

lemma first_some_None: "first_some f xs = None \<longleftrightarrow> list_all (\<lambda>x. f x = None) xs"
  by (induction xs) (auto simp: first_some_def map_filter_simps split: option.splits)

lemma merged_cursor:
  "readBeforeCursor (Some (merged_snapshot s page)) = None \<longleftrightarrow>
     (if sp_hasMoreBefore page \<and> non_empty (sp_beforeCursor page) \<noteq> None
      then list_all (\<lambda>k. case k of Some x \<Rightarrow> cl_omittedCount x \<le> 0 | None \<Rightarrow> True)
        [as_messageCollection (merged_snapshot s page), as_reasoningCollection (merged_snapshot s page),
         as_toolCollection (merged_snapshot s page)]
      else True)"
proof -
  have "usable_cursor (updateCollection page n k) = None \<longleftrightarrow>
      \<not> (sp_hasMoreBefore page \<and> non_empty (sp_beforeCursor page) \<noteq> None) \<or>
      (case updateCollection page n k of Some x \<Rightarrow> cl_omittedCount x \<le> 0 | None \<Rightarrow> True)" for n k
    by (cases k) (auto simp: usable_cursor_def updateCollection_def non_empty_def split: if_splits option.splits)
  then show ?thesis
    by (cases "non_empty (sp_beforeCursor page)") (simp_all add: readBeforeCursor_def first_some_None merged_snapshot_def Let_def)
qed

text \<open>
  What a loaded page does to the chat. If the page has been merged without an error, then the next load may
  start, the chat has the merged snapshot and its transcript, its id, title and status are unchanged, and the history counts as
  exhausted exactly if the page has nothing before it, gives no cursor, or no collection misses entries any more.
\<close>

theorem load_earlier_page:
  assumes "readEarlierPage vb lib tm te (Some cursor) c s cursor (Inr page) = (Merged c' st, inFlight)" "cs_error st = None"
  shows "inFlight = None \<and> mergeSnapshotPage s page = Inr (merged_snapshot s page) \<and>
    ct_acpSnapshot c' = Some (merged_snapshot s page) \<and>
    ct_id c' = ct_id c \<and> ct_title c' = ct_title c \<and> ct_status c' = ct_status c \<and>
    map undated (filter (\<lambda>m. cm_role m \<noteq> System) (ct_messages c')) =
      transcript lib (Some (ct_id c)) (js_iso (ml_js lib) (ml_time lib (ct_createdAt c))) (merged_snapshot s page) \<and>
    cs_exhausted st =
      (if sp_hasMoreBefore page \<and> non_empty (sp_beforeCursor page) \<noteq> None
       then list_all (\<lambda>k. case k of Some x \<Rightarrow> cl_omittedCount x \<le> 0 | None \<Rightarrow> True)
         [as_messageCollection (merged_snapshot s page), as_reasoningCollection (merged_snapshot s page),
          as_toolCollection (merged_snapshot s page)]
       else True)"
proof -
  obtain d where m: "mergeSnapshotPage s page = Inr d"
    using assms by (auto simp: readEarlierPage_def Let_def split: sum.splits)
  then have merged: "mergeSnapshotPage s page = Inr (merged_snapshot s page)" by (simp only: merge_Inr_iff simp_thms)
  obtain e where e: "applySnapshotToChat vb lib tm c (merged_snapshot s page) = Inr e"
    using assms merged by (auto simp: readEarlierPage_def Let_def split: sum.splits)
  have "c' = e" "st = getTranscriptContinuationState e" "inFlight = None"
    using assms(1) by (auto simp: readEarlierPage_def Let_def merged e)
  then show ?thesis
    using merged applySnapshotToChat_fields [OF e] merged_cursor [of s page]
    by (simp add: getTranscriptContinuationState_def transcript_def)
qed

definition demo_full_chat :: chat where
  "demo_full_chat = chat_summary.extend ((blank_summary ''c'' ''Chat'' ''t'')\<lparr>ct_agentNickname := Some ''Ada'', ct_lastError := Some ''boom''\<rparr>)
     (chat.fields [] (Some recent_snapshot) None None None None None None None None None None)"

lemma demo_load:
  "case readEarlierPage valibot_documented demo_lib (\<lambda>_ _. []) (\<lambda>_. ''host error'') (Some ''k'') demo_full_chat recent_snapshot ''k'' (Inr older_page) of
     (Merged c st, inFlight) \<Rightarrow> cs_error st = None \<and> inFlight = None \<and>
       map cm_id (ct_messages c) = [''m4'', ''m9''] \<and> ct_agentNickname c = None \<and> ct_lastError c = None
   | _ \<Rightarrow> False"
  by code_simp

theorem load_earlier_page_witness:
  "\<exists>c' st inFlight. readEarlierPage valibot_documented demo_lib (\<lambda>_ _. []) (\<lambda>_. ''host error'') (Some ''k'') demo_full_chat recent_snapshot ''k''
       (Inr older_page) = (Merged c' st, inFlight) \<and> inFlight = None \<and> ct_id c' = ct_id demo_full_chat \<and>
     ct_acpSnapshot c' = Some (merged_snapshot recent_snapshot older_page)"
proof -
  obtain c' st inFlight where r: "readEarlierPage valibot_documented demo_lib (\<lambda>_ _. []) (\<lambda>_. ''host error'') (Some ''k'') demo_full_chat
      recent_snapshot ''k'' (Inr older_page) = (Merged c' st, inFlight)" "cs_error st = None"
    using demo_load by (simp split: prod.splits continuation_result.splits)
  note page = load_earlier_page [OF r]
  have "inFlight = None" using page by (rule conjunct1)
  moreover have "ct_id c' = ct_id demo_full_chat" using page by (elim conjE)
  moreover have "ct_acpSnapshot c' = Some (merged_snapshot recent_snapshot older_page)" using page by (elim conjE)
  ultimately show ?thesis using r(1) by (intro exI conjI)
qed

text \<open>
  Loading earlier history forgets what the snapshot does not say: the nickname and the role of a sub-agent and the last error of the
  chat are gone from the merged chat, since the spread of the mapped chat overwrites them with \<open>undefined\<close>.
\<close>

theorem earlier_history_drops_nickname:
  "ct_agentNickname demo_full_chat = Some ''Ada'' \<and> ct_lastError demo_full_chat = Some ''boom'' \<and>
   (case readEarlierPage valibot_documented demo_lib (\<lambda>_ _. []) (\<lambda>_. ''host error'') (Some ''k'') demo_full_chat recent_snapshot ''k'' (Inr older_page) of
      (Merged c st, inFlight) \<Rightarrow> cs_error st = None \<and> ct_agentNickname c = None \<and> ct_lastError c = None
    | _ \<Rightarrow> False)"
  by code_simp

end
