(* ===== verification/ReplayRecovery.thy ===== *)
theory ReplayRecovery
  imports Prelude
begin

text \<open>
  \<^verbatim>\<open>features/chat/turn/controllers/replayRecoveryController.ts\<close>: the state that the client fetches when a gap
  in the event stream cannot be replayed. The threads are read by a pool of workers (\<open>mapWithConcurrency\<close>), modelled as
  a step function on events: a call of the mapper is answered or fails, the continuation of a worker runs, the
  signal aborts. The calls to the bridge are the environment.
\<close>

definition REPLAY_RECOVERY_CONCURRENCY :: nat where "REPLAY_RECOVERY_CONCURRENCY = 4"

definition REPLAY_RECOVERY_MAX_LOADED_THREADS :: nat where "REPLAY_RECOVERY_MAX_LOADED_THREADS = 2048"


section \<open>Thread ids\<close>

definition add_id :: "string option \<Rightarrow> string list \<Rightarrow> string list" where
  "add_id candidate ids =
     (case candidate of
        None \<Rightarrow> ids
      | Some c \<Rightarrow> (let threadId = trim c in if threadId = [] \<or> threadId \<in> set ids then ids else ids @ [threadId]))"

definition collectReplayRecoveryThreadIds :: "string option list list \<Rightarrow> string list" where
  "collectReplayRecoveryThreadIds sources = fold (fold add_id) sources []"

lemma fold_add_id:
  "distinct ids \<Longrightarrow> distinct (fold add_id cs ids) \<and>
   set (fold add_id cs ids) = set ids \<union> {trim c | c. Some c \<in> set cs \<and> trim c \<noteq> []}"
proof (induction cs arbitrary: ids)
  case (Cons c cs)
  have "distinct (add_id c ids)" "set (add_id c ids) = set ids \<union> {trim x | x. c = Some x \<and> trim x \<noteq> []}"
    using Cons.prems by (auto simp: add_id_def Let_def split: option.splits)
  with Cons.IH [of "add_id c ids"] show ?case by auto
qed simp

lemma collect_ids:
  "distinct (collectReplayRecoveryThreadIds sources)"
  "set (collectReplayRecoveryThreadIds sources) = {trim c | c. Some c \<in> set (concat sources) \<and> trim c \<noteq> []}"
proof -
  have "distinct ids \<Longrightarrow> distinct (fold (fold add_id) ss ids) \<and>
      set (fold (fold add_id) ss ids) = set ids \<union> {trim c | c. Some c \<in> set (concat ss) \<and> trim c \<noteq> []}" for ss ids
  proof (induction ss arbitrary: ids)
    case (Cons s ss)
    from Cons.IH [of "fold add_id s ids"] fold_add_id [OF Cons.prems, of s] show ?case by auto
  qed simp
  from this [of "[]" sources]
  show "distinct (collectReplayRecoveryThreadIds sources)"
    "set (collectReplayRecoveryThreadIds sources) = {trim c | c. Some c \<in> set (concat sources) \<and> trim c \<noteq> []}"
    by (simp_all add: collectReplayRecoveryThreadIds_def)
qed


section \<open>The worker pool\<close>

text \<open>
  A worker waits for the call of an index, or has been answered and its continuation is queued, or has
  ended. \<open>po_open\<close> are the calls of the mapper that the bridge has not answered yet (those of
  aborted workers too), \<open>po_calls\<close> the indices of all calls so far.
\<close>

datatype 'b worker = Waiting nat | Resumed nat 'b | Finished | Failed

record ('a, 'b) pool =
  po_values :: "'a list"
  po_nextIndex :: nat
  po_workers :: "'b worker list"
  po_results :: "'b option list"
  po_aborted :: bool
  po_open :: "nat list"
  po_calls :: "nat list"

datatype 'b pool_event = Answers nat 'b | Fails nat | Continues nat | Aborts

text \<open>One pass of the loop of worker \<open>w\<close> up to its await: the loop test, the abort check, the next entry.\<close>

definition worker_loop :: "nat \<Rightarrow> ('a, 'b) pool \<Rightarrow> ('a, 'b) pool" where
  "worker_loop w s =
     (if po_nextIndex s < length (po_values s) then
        (if po_aborted s then s\<lparr>po_workers := (po_workers s)[w := Failed]\<rparr>
         else s\<lparr>po_workers := (po_workers s)[w := Waiting (po_nextIndex s)], po_nextIndex := po_nextIndex s + 1,
                po_open := po_open s @ [po_nextIndex s], po_calls := po_calls s @ [po_nextIndex s]\<rparr>)
      else s\<lparr>po_workers := (po_workers s)[w := Finished]\<rparr>)"

definition start_pool :: "'a list \<Rightarrow> nat \<Rightarrow> bool \<Rightarrow> ('a, 'b) pool" where
  "start_pool values concurrency aborted =
     (let n = min concurrency (length values)
      in fold worker_loop [0..<n]
           \<lparr>po_values = values, po_nextIndex = 0, po_workers = replicate n Finished, po_results = replicate (length values) None,
            po_aborted = aborted, po_open = [], po_calls = []\<rparr>)"

definition settle_call :: "nat \<Rightarrow> 'b worker \<Rightarrow> ('a, 'b) pool \<Rightarrow> ('a, 'b) pool" where
  "settle_call i after s =
     s\<lparr>po_open := removeAll i (po_open s), po_workers := map (\<lambda>w. case w of Waiting j \<Rightarrow> if j = i then after else w | _ \<Rightarrow> w) (po_workers s)\<rparr>"

definition pool_step :: "'b pool_event \<Rightarrow> ('a, 'b) pool \<Rightarrow> ('a, 'b) pool option" where
  "pool_step ev s =
     (case ev of
        Answers i y \<Rightarrow> if i \<in> set (po_open s) then Some (settle_call i (Resumed i y) s) else None
      | Fails i \<Rightarrow> if i \<in> set (po_open s) then Some (settle_call i Failed s) else None
      | Continues w \<Rightarrow>
          if w < length (po_workers s)
          then (case po_workers s ! w of
                  Resumed i y \<Rightarrow> Some (worker_loop w (s\<lparr>po_results := (po_results s)[i := Some y]\<rparr>))
                | _ \<Rightarrow> None)
          else None
      | Aborts \<Rightarrow>
          if po_aborted s then None
          else Some (s\<lparr>po_aborted := True,
                 po_workers := map (\<lambda>w. case w of Waiting _ \<Rightarrow> Failed | _ \<Rightarrow> w) (po_workers s)\<rparr>))"

fun pool_run :: "'b pool_event list \<Rightarrow> ('a, 'b) pool \<Rightarrow> ('a, 'b) pool option" where
  "pool_run [] s = Some s"
| "pool_run (ev # evs) s = Option.bind (pool_step ev s) (pool_run evs)"

text \<open>\<open>await Promise.all(workers)\<close>: rejected with the first failure, resolved when every worker has ended.\<close>

datatype 'b pool_outcome = Pending | Resolved "'b option list" | Rejected

definition mapWithConcurrency_outcome :: "('a, 'b) pool \<Rightarrow> 'b pool_outcome" where
  "mapWithConcurrency_outcome s =
     (if list_ex (\<lambda>w. case w of Failed \<Rightarrow> True | _ \<Rightarrow> False) (po_workers s) then Rejected
      else if list_all (\<lambda>w. case w of Finished \<Rightarrow> True | _ \<Rightarrow> False) (po_workers s) then Resolved (po_results s)
      else Pending)"


section \<open>The whole snapshot\<close>

datatype recovery_error = Cancelled | ProtocolError nat | RequestFailed

record recovery_lists =
  rl_loadedThreadIds :: "string list"
  rl_approvalThreadIds :: "string list"
  rl_userInputThreadIds :: "string list"

text \<open>
  \<open>fetchReplayRecoverySnapshot\<close> up to the pool, from the answers to the four list requests on: an error, or the
  ids of the threads to read.
\<close>

definition recovery_plan ::
  "bool \<Rightarrow> string option list \<Rightarrow> recovery_lists option \<Rightarrow> bool \<Rightarrow> recovery_error + string list" where
  "recovery_plan aborted_before tracked fetched aborted_after =
     (if aborted_before then Inl Cancelled
      else case fetched of
             None \<Rightarrow> Inl (if aborted_after then Cancelled else RequestFailed)
           | Some l \<Rightarrow>
               if aborted_after then Inl Cancelled
               else if length (rl_loadedThreadIds l) > REPLAY_RECOVERY_MAX_LOADED_THREADS
               then Inl (ProtocolError (length (rl_loadedThreadIds l)))
               else Inr (collectReplayRecoveryThreadIds
                 [tracked, map Some (rl_loadedThreadIds l), map Some (rl_approvalThreadIds l), map Some (rl_userInputThreadIds l)]))"

definition fetchReplayRecoverySnapshot ::
  "bool \<Rightarrow> string option list \<Rightarrow> recovery_lists option \<Rightarrow> bool \<Rightarrow> recovery_error + (string, 'b) pool" where
  "fetchReplayRecoverySnapshot aborted_before tracked fetched aborted_after =
     map_sum id (\<lambda>ids. start_pool ids REPLAY_RECOVERY_CONCURRENCY False) (recovery_plan aborted_before tracked fetched aborted_after)"


section \<open>The invariant of the pool\<close>

definition waiting_ids :: "'b worker list \<Rightarrow> nat list" where
  "waiting_ids ws = List.map_filter (\<lambda>w. case w of Waiting j \<Rightarrow> Some j | _ \<Rightarrow> None) ws"

definition failures :: "'b worker list \<Rightarrow> nat" where
  "failures ws = length (filter (\<lambda>w. case w of Failed \<Rightarrow> True | _ \<Rightarrow> False) ws)"

lemma waiting_ids_simps [simp]:
  "waiting_ids [] = []" "waiting_ids (Waiting i # ws) = i # waiting_ids ws" "waiting_ids (Resumed i y # ws) = waiting_ids ws"
  "waiting_ids (Finished # ws) = waiting_ids ws" "waiting_ids (Failed # ws) = waiting_ids ws"
  "waiting_ids (us @ ws) = waiting_ids us @ waiting_ids ws"
  by (simp_all add: waiting_ids_def map_filter_def)

lemma failures_simps [simp]:
  "failures [] = 0" "failures (Waiting i # ws) = failures ws" "failures (Resumed i y # ws) = failures ws"
  "failures (Finished # ws) = failures ws" "failures (Failed # ws) = Suc (failures ws)"
  "failures (us @ ws) = failures us + failures ws"
  by (simp_all add: failures_def)

lemma waiting_in: "i \<in> set (waiting_ids ws) \<longleftrightarrow> Waiting i \<in> set ws"
  by (induction ws) (auto simp: waiting_ids_def map_filter_simps split: worker.splits)

definition settled :: "nat \<Rightarrow> 'b worker \<Rightarrow> 'b worker list \<Rightarrow> 'b worker list" where
  "settled i after ws = map (\<lambda>w. case w of Waiting j \<Rightarrow> if j = i then after else w | _ \<Rightarrow> w) ws"

definition aborted_workers :: "'b worker list \<Rightarrow> 'b worker list" where
  "aborted_workers ws = map (\<lambda>w. case w of Waiting _ \<Rightarrow> Failed | _ \<Rightarrow> w) ws"

lemma settled_Resumed: "waiting_ids (settled i (Resumed k y) ws) = removeAll i (waiting_ids ws) \<and> failures (settled i (Resumed k y) ws) = failures ws"
proof (induction ws)
  case (Cons w ws)
  then show ?case by (cases w) (simp_all add: settled_def)
qed (simp add: settled_def)

lemma settled_Failed:
  "waiting_ids (settled i Failed ws) = removeAll i (waiting_ids ws) \<and>
   failures (settled i Failed ws) + length (removeAll i (waiting_ids ws)) = failures ws + length (waiting_ids ws)"
proof (induction ws)
  case (Cons w ws)
  then show ?case by (cases w) (auto simp: settled_def)
qed (simp add: settled_def)

lemma aborted_counts: "waiting_ids (aborted_workers ws) = [] \<and> failures (aborted_workers ws) = failures ws + length (waiting_ids ws)"
proof (induction ws)
  case (Cons w ws)
  then show ?case by (cases w) (simp_all add: aborted_workers_def)
qed (simp add: aborted_workers_def)

lemma length_removeAll_distinct: "distinct xs \<Longrightarrow> length (removeAll i xs) = (if i \<in> set xs then length xs - 1 else length xs)"
  by (simp add: distinct_remove1_removeAll [symmetric] length_remove1)

text \<open>An index that has been taken has its result, or a worker is at it, or a worker has failed.\<close>

definition covered :: "'b option list \<Rightarrow> 'b worker list \<Rightarrow> nat \<Rightarrow> bool" where
  "covered rs ws i \<longleftrightarrow> rs ! i \<noteq> None \<or> Waiting i \<in> set ws \<or> (\<exists>y. Resumed i y \<in> set ws) \<or> Failed \<in> set ws"

definition pool_inv :: "('a \<Rightarrow> 'b \<Rightarrow> bool) \<Rightarrow> nat \<Rightarrow> ('a, 'b) pool \<Rightarrow> bool" where
  "pool_inv ans c s \<longleftrightarrow>
     po_nextIndex s \<le> length (po_values s) \<and> po_calls s = [0..<po_nextIndex s] \<and>
     length (po_results s) = length (po_values s) \<and> length (po_workers s) = min c (length (po_values s)) \<and>
     distinct (po_open s) \<and> set (po_open s) \<subseteq> {..<po_nextIndex s} \<and>
     distinct (waiting_ids (po_workers s)) \<and> set (waiting_ids (po_workers s)) \<subseteq> set (po_open s) \<and>
     length (po_open s) \<le> length (waiting_ids (po_workers s)) + failures (po_workers s) \<and>
     (\<forall>i<po_nextIndex s. covered (po_results s) (po_workers s) i) \<and>
     (\<forall>i<length (po_values s). \<forall>y. po_results s ! i = Some y \<longrightarrow> ans (po_values s ! i) y) \<and>
     (\<forall>i y. Resumed i y \<in> set (po_workers s) \<longrightarrow> i < po_nextIndex s \<and> ans (po_values s ! i) y) \<and>
     (Finished \<in> set (po_workers s) \<longrightarrow> po_nextIndex s = length (po_values s))"

lemma start_pool_eq:
  "start_pool values c False =
     (let n = min c (length values)
      in \<lparr>po_values = values, po_nextIndex = n, po_workers = map Waiting [0..<n], po_results = replicate (length values) None,
          po_aborted = False, po_open = [0..<n], po_calls = [0..<n]\<rparr>)"
proof -
  let ?n = "min c (length values)"
  have "fold worker_loop [0..<k] \<lparr>po_values = values, po_nextIndex = 0, po_workers = replicate ?n Finished,
        po_results = replicate (length values) None, po_aborted = False, po_open = [], po_calls = []\<rparr> =
      \<lparr>po_values = values, po_nextIndex = k, po_workers = map Waiting [0..<k] @ replicate (?n - k) Finished,
       po_results = replicate (length values) None, po_aborted = False, po_open = [0..<k], po_calls = [0..<k]\<rparr>" if "k \<le> ?n" for k
    using that
  proof (induction k)
    case (Suc k)
    then obtain m where m: "?n - k = Suc m" "?n - Suc k = m" by (metis Suc_diff_Suc Suc_le_eq)
    have "k < length values" using Suc.prems by simp
    with Suc m show ?case by (simp add: worker_loop_def list_update_append del: min_def)
  qed simp
  from this [of ?n] show ?thesis by (simp add: start_pool_def Let_def)
qed

lemma waiting_ids_Waiting [simp]: "waiting_ids (map Waiting is) = is"
  by (induction "is") simp_all

lemma failures_Waiting [simp]: "failures (map Waiting is) = 0"
  by (induction "is") simp_all

lemma start_pool_inv: "pool_inv ans c (start_pool values c False)"
  by (auto simp: start_pool_eq Let_def pool_inv_def covered_def)

lemma worker_loop_inv:
  assumes inv: "pool_inv ans c s" and w: "w < length (po_workers s)" "po_workers s ! w = Resumed i y"
  shows "pool_inv ans c (worker_loop w (s\<lparr>po_results := (po_results s)[i := Some y]\<rparr>))"
proof -
  obtain us vs where ws: "po_workers s = us @ Resumed i y # vs" "w = length us"
    using id_take_nth_drop [OF w(1)] w by (metis length_take min.absorb4)
  have upd: "(po_workers s)[w := x] = us @ x # vs" for x by (simp add: ws)
  have i: "i < po_nextIndex s" "ans (po_values s ! i) y" using inv by (auto simp: pool_inv_def ws)
  have cov: "covered ((po_results s)[i := Some y]) (us @ x # vs) j" if "j < po_nextIndex s" for x j
  proof -
    have "covered (po_results s) (po_workers s) j" using inv that by (simp add: pool_inv_def)
    then show ?thesis using inv i(1) by (cases "j = i") (auto simp: covered_def ws pool_inv_def)
  qed
  have res: "\<forall>j<length (po_values s). \<forall>z. (po_results s)[i := Some y] ! j = Some z \<longrightarrow> ans (po_values s ! j) z"
    using inv i by (auto simp: pool_inv_def nth_list_update)
  show ?thesis
  proof (cases "po_nextIndex s < length (po_values s)")
    case False
    with inv cov res show ?thesis unfolding pool_inv_def worker_loop_def by (simp add: upd) (auto simp: ws)
  next
    case True
    have new: "po_nextIndex s \<notin> set (po_open s)" using inv by (auto simp: pool_inv_def)
    show ?thesis
    proof (cases "po_aborted s")
      case True
      with \<open>po_nextIndex s < length (po_values s)\<close> inv cov res show ?thesis
        unfolding pool_inv_def worker_loop_def by (simp add: upd) (auto simp: ws)
    next
      case False
      have "covered ((po_results s)[i := Some y]) (us @ Waiting (po_nextIndex s) # vs) j" if "j < Suc (po_nextIndex s)" for j
        using that cov [of j "Waiting (po_nextIndex s)"] by (cases "j = po_nextIndex s") (simp_all add: covered_def)
      with False True inv res new show ?thesis
        unfolding pool_inv_def worker_loop_def by (simp add: upd) (auto simp: ws intro: less_SucI)
    qed
  qed
qed

text \<open>The answers of the bridge are among those that the mapper may give for the value.\<close>

definition answers_ok :: "('a \<Rightarrow> 'b \<Rightarrow> bool) \<Rightarrow> 'a list \<Rightarrow> 'b pool_event \<Rightarrow> bool" where
  "answers_ok ans values ev = (case ev of Answers i y \<Rightarrow> ans (values ! i) y | _ \<Rightarrow> True)"

lemma settled_in:
  "Waiting j \<in> set (settled i after ws) \<longleftrightarrow> (Waiting j \<in> set ws \<and> j \<noteq> i) \<or> (Waiting i \<in> set ws \<and> after = Waiting j)"
  "Resumed j y \<in> set (settled i after ws) \<longleftrightarrow> Resumed j y \<in> set ws \<or> (Waiting i \<in> set ws \<and> after = Resumed j y)"
  "Failed \<in> set (settled i after ws) \<longleftrightarrow> Failed \<in> set ws \<or> (Waiting i \<in> set ws \<and> after = Failed)"
  "Finished \<in> set (settled i after ws) \<longleftrightarrow> Finished \<in> set ws \<or> (Waiting i \<in> set ws \<and> after = Finished)"
proof -
  show "Waiting j \<in> set (settled i after ws) \<longleftrightarrow> (Waiting j \<in> set ws \<and> j \<noteq> i) \<or> (Waiting i \<in> set ws \<and> after = Waiting j)"
    by (induction ws) (auto simp: settled_def split: worker.splits)
  show "Resumed j y \<in> set (settled i after ws) \<longleftrightarrow> Resumed j y \<in> set ws \<or> (Waiting i \<in> set ws \<and> after = Resumed j y)"
    by (induction ws) (auto simp: settled_def split: worker.splits)
  show "Failed \<in> set (settled i after ws) \<longleftrightarrow> Failed \<in> set ws \<or> (Waiting i \<in> set ws \<and> after = Failed)"
    by (induction ws) (auto simp: settled_def split: worker.splits)
  show "Finished \<in> set (settled i after ws) \<longleftrightarrow> Finished \<in> set ws \<or> (Waiting i \<in> set ws \<and> after = Finished)"
    by (induction ws) (auto simp: settled_def split: worker.splits)
qed

lemma aborted_in:
  "Waiting j \<notin> set (aborted_workers ws)" "Resumed j y \<in> set (aborted_workers ws) \<longleftrightarrow> Resumed j y \<in> set ws"
  "Finished \<in> set (aborted_workers ws) \<longleftrightarrow> Finished \<in> set ws"
  "Failed \<in> set (aborted_workers ws) \<longleftrightarrow> Failed \<in> set ws \<or> waiting_ids ws \<noteq> []"
  by (induction ws) (auto simp: aborted_workers_def waiting_ids_def map_filter_simps split: worker.splits)

lemma settle_inv:
  assumes inv: "pool_inv ans c s" and i: "i \<in> set (po_open s)"
    and after: "after = Failed \<or> (\<exists>y. after = Resumed i y \<and> ans (po_values s ! i) y)"
  shows "pool_inv ans c (settle_call i after s)"
proof -
  let ?ws = "po_workers s"
  have ws: "po_workers (settle_call i after s) = settled i after ?ws" by (simp add: settle_call_def settled_def)
  have wait: "waiting_ids (settled i after ?ws) = removeAll i (waiting_ids ?ws)"
    "length (removeAll i (waiting_ids ?ws)) + failures (settled i after ?ws) + (if i \<in> set (waiting_ids ?ws) then 1 else 0) \<ge>
      length (waiting_ids ?ws) + failures ?ws"
    using after settled_Failed [of i ?ws] settled_Resumed [of i i _ ?ws] length_removeAll_distinct [of "waiting_ids ?ws" i] inv
    by (auto simp: pool_inv_def)
  have "length (removeAll i (po_open s)) = length (po_open s) - 1" "po_open s \<noteq> []"
    using inv i length_removeAll_distinct [of "po_open s" i] by (auto simp: pool_inv_def)
  moreover have "length (po_open s) \<le> length (waiting_ids ?ws) + failures ?ws" using inv by (simp add: pool_inv_def)
  ultimately have open': "length (removeAll i (po_open s)) \<le> length (removeAll i (waiting_ids ?ws)) + failures (settled i after ?ws)"
    using wait(2) by (auto split: if_splits)
  have "covered (po_results s) (settled i after ?ws) j" if "j < po_nextIndex s" for j
    using inv that after by (cases "j = i") (auto simp: pool_inv_def covered_def settled_in)
  moreover have "i < po_nextIndex s" using inv i by (auto simp: pool_inv_def)
  ultimately show ?thesis
    using inv after open' unfolding pool_inv_def ws wait(1)
    by (auto simp: settle_call_def settled_in distinct_removeAll) (auto simp: settled_def)
qed

lemma abort_inv: "pool_inv ans c s \<Longrightarrow> pool_inv ans c (s\<lparr>po_aborted := True, po_workers := aborted_workers (po_workers s)\<rparr>)"
  using aborted_counts [of "po_workers s"]
  by (auto simp: pool_inv_def covered_def aborted_in waiting_in [symmetric]) (auto simp: aborted_workers_def)

lemma pool_step_inv:
  assumes "pool_inv ans c s" "pool_step ev s = Some s'" "answers_ok ans (po_values s) ev"
  shows "pool_inv ans c s' \<and> po_values s' = po_values s"
proof (cases ev)
  case (Answers i y)
  then show ?thesis
    using assms settle_inv [OF assms(1), of i "Resumed i y"] by (auto simp: pool_step_def answers_ok_def settle_call_def split: if_splits)
next
  case (Fails i)
  then show ?thesis using assms settle_inv [OF assms(1), of i Failed] by (auto simp: pool_step_def settle_call_def split: if_splits)
next
  case (Continues w)
  then show ?thesis
    using assms worker_loop_inv [OF assms(1), of w]
    by (auto simp: pool_step_def split: if_splits worker.splits) (auto simp: worker_loop_def)
next
  case Aborts
  then show ?thesis using assms abort_inv [OF assms(1)] by (auto simp: pool_step_def aborted_workers_def split: if_splits)
qed

text \<open>Every event uses up part of this measure.\<close>

definition pool_work :: "('a, 'b) pool \<Rightarrow> nat" where
  "pool_work s = 2 * (length (po_values s) - po_nextIndex s) + 2 * length (po_open s) +
     length (filter (\<lambda>w. case w of Resumed _ _ \<Rightarrow> True | _ \<Rightarrow> False) (po_workers s)) + (if po_aborted s then 0 else 1)"

abbreviation resumed :: "'b worker list \<Rightarrow> nat" where
  "resumed ws \<equiv> length (filter (\<lambda>w. case w of Resumed _ _ \<Rightarrow> True | _ \<Rightarrow> False) ws)"

lemma resumed_settled: "resumed (settled i after ws) \<le> resumed ws + length (filter (\<lambda>j. j = i) (waiting_ids ws))"
proof (induction ws)
  case (Cons w ws)
  then show ?case by (cases w) (auto simp: settled_def split: worker.split)
qed (simp add: settled_def)

lemma filter_eq_distinct: "distinct xs \<Longrightarrow> length (filter (\<lambda>j. j = i) xs) \<le> 1"
proof (induction xs)
  case (Cons x xs)
  then show ?case by (auto simp: filter_empty_conv)
qed simp

lemma resumed_aborted: "resumed (aborted_workers ws) = resumed ws"
proof (induction ws)
  case (Cons w ws)
  then show ?case by (cases w) (simp_all add: aborted_workers_def)
qed (simp add: aborted_workers_def)

lemma settle_work:
  assumes "pool_inv ans c s" "i \<in> set (po_open s)"
  shows "pool_work (settle_call i after s) < pool_work s"
proof -
  have "length (removeAll i (po_open s)) < length (po_open s)" using assms(2) by (rule length_removeAll_less)
  moreover have "resumed (settled i after (po_workers s)) \<le> resumed (po_workers s) + 1"
    using resumed_settled [of i after "po_workers s"] filter_eq_distinct [of "waiting_ids (po_workers s)" i] assms(1)
    by (simp add: pool_inv_def)
  ultimately show ?thesis by (simp add: pool_work_def settle_call_def settled_def)
qed

lemma loop_work:
  assumes "w < length (po_workers s)" "po_workers s ! w = Resumed i y"
  shows "pool_work (worker_loop w (s\<lparr>po_results := r\<rparr>)) < pool_work s"
proof -
  obtain us vs where ws: "po_workers s = us @ Resumed i y # vs" "w = length us"
    using id_take_nth_drop [OF assms(1)] assms by (metis length_take min.absorb4)
  then show ?thesis by (simp add: pool_work_def worker_loop_def) arith
qed

lemma pool_step_work:
  assumes "pool_inv ans c s" "pool_step ev s = Some s'"
  shows "pool_work s' < pool_work s"
proof (cases ev)
  case (Continues w)
  then show ?thesis using assms(2) loop_work [of w s] by (auto simp: pool_step_def split: if_splits worker.splits)
next
  case Aborts
  then have "\<not> po_aborted s" "s' = s\<lparr>po_aborted := True, po_workers := aborted_workers (po_workers s)\<rparr>"
    using assms(2) by (auto simp: pool_step_def aborted_workers_def split: if_splits)
  then show ?thesis by (simp add: pool_work_def resumed_aborted)
qed (use assms settle_work [OF assms(1)] in \<open>auto simp: pool_step_def split: if_splits\<close>)

lemma pool_run_inv:
  "pool_inv ans c s \<Longrightarrow> pool_run evs s = Some s' \<Longrightarrow> list_all (answers_ok ans (po_values s)) evs \<Longrightarrow>
   pool_inv ans c s' \<and> po_values s' = po_values s \<and> length evs + pool_work s' \<le> pool_work s"
proof (induction evs arbitrary: s)
  case (Cons ev evs)
  then obtain t where t: "pool_step ev s = Some t" "pool_run evs t = Some s'" by (auto simp: bind_eq_Some_conv)
  from pool_step_inv [OF Cons.prems(1) t(1)] Cons.prems(3) have inv: "pool_inv ans c t" "po_values t = po_values s" by simp_all
  from Cons.IH [OF inv(1) t(2)] Cons.prems(3) inv(2) pool_step_work [OF Cons.prems(1) t(1)] show ?case by simp
qed simp

lemma waiting_failures_le: "length (waiting_ids ws) + failures ws \<le> length ws"
proof (induction ws)
  case (Cons w ws)
  then show ?case by (cases w) simp_all
qed simp

lemma all_ended:
  assumes "pool_inv ans c s" "0 < c" "mapWithConcurrency_outcome s = Resolved rs"
  shows "list_all2 (\<lambda>v r. \<exists>y. r = Some y \<and> ans v y) (po_values s) rs"
proof -
  have all: "list_all (\<lambda>w. case w of Finished \<Rightarrow> True | _ \<Rightarrow> False) (po_workers s)" and rs: "rs = po_results s"
    using assms(3) by (auto simp: mapWithConcurrency_outcome_def split: if_splits)
  have ws: "\<forall>w\<in>set (po_workers s). w = Finished"
  proof
    fix w assume "w \<in> set (po_workers s)"
    with all show "w = Finished" by (cases w) (auto simp: list_all_iff)
  qed
  have "po_nextIndex s = length (po_values s)"
  proof (cases "po_workers s")
    case Nil
    then show ?thesis using assms(1,2) by (auto simp: pool_inv_def)
  next
    case (Cons w ws')
    then show ?thesis using ws assms(1) by (auto simp: pool_inv_def)
  qed
  then have "\<forall>i<length (po_values s). covered (po_results s) (po_workers s) i" using assms(1) by (simp add: pool_inv_def)
  then show ?thesis
    using assms(1) ws unfolding rs list_all2_conv_all_nth by (fastforce simp: pool_inv_def covered_def)
qed

lemma not_stuck:
  assumes "pool_inv ans c s" "mapWithConcurrency_outcome s = Pending"
  shows "\<exists>ev. ev \<noteq> Aborts \<and> pool_step ev s \<noteq> None"
proof -
  obtain w where w: "w \<in> set (po_workers s)" "w \<noteq> Finished" "w \<noteq> Failed"
    using assms(2) by (auto simp: mapWithConcurrency_outcome_def list_all_iff list_ex_iff split: if_splits worker.splits)
  then obtain k where k: "k < length (po_workers s)" "po_workers s ! k = w" by (auto simp: in_set_conv_nth)
  show ?thesis
  proof (cases w)
    case (Waiting i)
    then have "i \<in> set (po_open s)" using w(1) assms(1) by (auto simp: pool_inv_def waiting_in)
    then show ?thesis by (intro exI [of _ "Fails i"]) (simp add: pool_step_def)
  next
    case (Resumed i y)
    with k show ?thesis by (intro exI [of _ "Continues k"]) (simp add: pool_step_def)
  qed (use w in simp_all)
qed

text \<open>
  C25. The state for a recovery is fetched completely and with bounded effort. For every order in which the bridge answers or
  fails the reads, the workers go on and the signal aborts: at most as many reads are open as the pool has
  workers; the threads are taken in order, each once; after at most twice as many events as there are threads, plus one, nothing is left
  to happen, and as long as the promise is pending something is; and if the promise is resolved, its
  result has for every thread, in the order of the threads, an answer to the read of this thread.
\<close>

theorem recovery_pool:
  fixes s :: "('v, 'r) pool"
  assumes "0 < c" "pool_run evs (start_pool values c False) = Some s" "list_all (answers_ok ans values) evs"
  shows "length (po_open s) \<le> min c (length values) \<and> po_calls s = [0..<po_nextIndex s] \<and> po_nextIndex s \<le> length values \<and>
    length evs \<le> 2 * length values + 1 \<and>
    (case mapWithConcurrency_outcome s of
       Resolved rs \<Rightarrow> list_all2 (\<lambda>v r. \<exists>y. r = Some y \<and> ans v y) values rs
     | Pending \<Rightarrow> \<exists>ev. ev \<noteq> Aborts \<and> pool_step ev s \<noteq> None
     | Rejected \<Rightarrow> True)"
proof -
  let ?start = "start_pool values c False :: ('v, 'r) pool"
  have vs: "po_values ?start = values" by (simp add: start_pool_eq Let_def)
  have "list_all (answers_ok ans (po_values ?start)) evs" using assms(3) by (simp only: vs)
  note run = pool_run_inv [OF start_pool_inv [of ans c "values"] assms(2) this]
  from run have inv: "pool_inv ans c s" and same: "po_values s = values" by (simp_all add: vs)
  have "resumed (map Waiting [0..<min c (length values)] :: 'r worker list) = 0" by simp
  then have "pool_work ?start = 2 * length values + 1" by (simp add: pool_work_def start_pool_eq Let_def)
  moreover have "length (po_open s) \<le> length (po_workers s)"
    using inv waiting_failures_le [of "po_workers s"] by (simp add: pool_inv_def)
  ultimately show ?thesis
    using run inv same all_ended [OF inv assms(1)] not_stuck [OF inv]
    by (auto simp: pool_inv_def split: pool_outcome.split)
qed

text \<open>
  The reads of three threads by two workers; the second answer comes first.
\<close>

definition demo_events :: "string pool_event list" where
  "demo_events = [Answers 1 ''B'', Answers 0 ''A'', Continues 0, Continues 1, Answers 2 ''C'', Continues 0]"

lemma demo_run:
  "map_option (\<lambda>s. (mapWithConcurrency_outcome s, po_calls s)) (pool_run demo_events (start_pool [''a'', ''b'', ''c''] 2 False)) =
   Some (Resolved [Some ''A'', Some ''B'', Some ''C''], [0, 1, 2])"
  by code_simp

theorem recovery_pool_witness:
  "\<exists>s. pool_run demo_events (start_pool [''a'', ''b'', ''c''] 2 False) = Some s \<and> length (po_open s) \<le> 2 \<and>
     po_calls s = [0..<po_nextIndex s] \<and>
     mapWithConcurrency_outcome s = Resolved [Some ''A'', Some ''B'', Some ''C'']"
proof -
  let ?ans = "\<lambda>v y. (v, y) \<in> {(''a'', ''A''), (''b'', ''B''), (''c'', ''C'')}"
  obtain s where s: "pool_run demo_events (start_pool [''a'', ''b'', ''c''] 2 False) = Some s"
    "mapWithConcurrency_outcome s = Resolved [Some ''A'', Some ''B'', Some ''C'']"
    using demo_run by auto
  have "list_all (answers_ok ?ans [''a'', ''b'', ''c'']) demo_events" by (simp add: demo_events_def answers_ok_def)
  from recovery_pool [OF _ s(1) this] have "length (po_open s) \<le> 2" "po_calls s = [0..<po_nextIndex s]" by simp_all
  with s show ?thesis by blast
qed


section \<open>Cancellation\<close>

lemma aborted_step:
  "pool_step ev s = Some s' \<Longrightarrow> po_aborted s \<Longrightarrow>
   po_aborted s' \<and> po_calls s' = po_calls s \<and> po_nextIndex s' = po_nextIndex s \<and> po_values s' = po_values s"
  by (cases ev) (auto simp: pool_step_def settle_call_def worker_loop_def split: if_splits worker.splits)

lemma aborted_run:
  "pool_run evs s = Some s' \<Longrightarrow> po_aborted s \<Longrightarrow>
   po_aborted s' \<and> po_calls s' = po_calls s \<and> po_nextIndex s' = po_nextIndex s \<and> po_values s' = po_values s"
proof (induction evs arbitrary: s)
  case (Cons ev evs)
  then obtain t where t: "pool_step ev s = Some t" "pool_run evs t = Some s'" by (auto simp: bind_eq_Some_conv)
  from aborted_step [OF t(1) Cons.prems(2)] Cons.IH [OF t(2)] show ?case by simp
qed simp

lemma any_answers: "list_all (answers_ok (\<lambda>_ _. True) vs) evs"
  by (simp add: list_all_iff answers_ok_def split: pool_event.split)

text \<open>
  When the recovery is cancelled, no further thread is read, whatever the answers to the open reads are; and if there
  were threads left to read at this point, the recovery does not succeed.
\<close>

theorem recovery_abort:
  assumes "0 < c" "pool_run evs (start_pool values c False) = Some s" "pool_step Aborts s = Some t" "pool_run evs' t = Some u"
  shows "po_calls u = po_calls s \<and>
    (if po_nextIndex s < length values then \<forall>rs. mapWithConcurrency_outcome u \<noteq> Resolved rs else True)"
proof -
  have t: "po_aborted t" "po_calls t = po_calls s" "po_nextIndex t = po_nextIndex s"
    using assms(3) by (auto simp: pool_step_def split: if_splits)
  note s = pool_run_inv [OF start_pool_inv assms(2) any_answers]
  note t' = pool_step_inv [OF conjunct1 [OF s] assms(3)]
  have step: "answers_ok (\<lambda>_ _. True) (po_values s) Aborts" by (simp add: answers_ok_def)
  note u = pool_run_inv [OF conjunct1 [OF t' [OF step]] assms(4) any_answers]
  have vs: "po_values u = values" using s t' [OF step] u by (simp add: start_pool_eq Let_def)
  have calls: "po_calls u = po_calls s" "po_nextIndex u = po_nextIndex s" using aborted_run [OF assms(4) t(1)] t by simp_all
  have "mapWithConcurrency_outcome u \<noteq> Resolved rs" if left: "po_nextIndex s < length values" for rs
  proof
    assume r: "mapWithConcurrency_outcome u = Resolved rs"
    have "length (po_workers u) = min c (length values)" "Finished \<notin> set (po_workers u)"
      using u left calls vs by (auto simp: pool_inv_def)
    moreover from this(1) obtain w ws where "po_workers u = w # ws" using left assms(1) by (cases "po_workers u") auto
    ultimately show False using r by (cases w) (auto simp: mapWithConcurrency_outcome_def split: if_splits)
  qed
  with calls show ?thesis by simp
qed

theorem recovery_abort_witness:
  "\<exists>s t u. pool_run [Answers 0 (7 :: nat)] (start_pool [10, 20, 30 :: nat] 2 False) = Some s \<and> pool_step Aborts s = Some t \<and>
     pool_run [Answers 1 8, Continues 0] t = Some u \<and> po_calls u = [0, 1] \<and> (\<forall>rs. mapWithConcurrency_outcome u \<noteq> Resolved rs)"
proof -
  let ?start = "start_pool [10, 20, 30 :: nat] 2 False :: (nat, nat) pool"
  obtain s t u where run: "pool_run [Answers 0 (7 :: nat)] ?start = Some s" "pool_step Aborts s = Some t"
    "pool_run [Answers 1 8, Continues 0] t = Some u" "po_calls s = [0, 1]" "po_nextIndex s < 3"
    by (simp add: start_pool_eq pool_step_def settle_call_def worker_loop_def numeral_2_eq_2 Let_def upt_rec)
  from recovery_abort [OF _ run(1-3)] run(4,5) have "po_calls u = [0, 1]" "\<forall>rs. mapWithConcurrency_outcome u \<noteq> Resolved rs" by simp_all
  with run(1-3) show ?thesis by blast
qed


section \<open>The threads of a recovery\<close>

lemma recovery_plan_threads:
  assumes "recovery_plan False tracked (Some l) False = Inr ids"
  shows "length (rl_loadedThreadIds l) \<le> 2048" "distinct ids"
    "set ids = {trim c | c. (Some c \<in> set tracked \<or> c \<in> set (rl_loadedThreadIds l) \<or> c \<in> set (rl_approvalThreadIds l) \<or>
       c \<in> set (rl_userInputThreadIds l)) \<and> trim c \<noteq> []}"
  using assms collect_ids
  by (auto simp: recovery_plan_def REPLAY_RECOVERY_MAX_LOADED_THREADS_def inj_image_mem_iff split: if_splits)

end
