(* ===== verification/Approvals.thy ===== *)
theory Approvals
  imports Submission
begin

text \<open>
  \<^verbatim>\<open>features/chat/approvals/controllers/approvalController.ts\<close>: the answers to a request for input that the user has
  typed are read according to the type of each field, and the decisions on approvals are sent with resolution
  ids by which the bridge recognises a repeated decision.
\<close>

section \<open>Doubles\<close>

text \<open>
  \<open>Number\<close> rounds the value of a numeral to the nearest double, ties to even; \<open>Number.isInteger\<close> looks at
  the rounded value. Negative zero is not distinguished from zero.
\<close>

definition round_half_even :: "rat \<Rightarrow> int" where
  "round_half_even x =
     (let f = \<lfloor>x\<rfloor>; d = x - of_int f
      in if d < 1 / 2 then f else if 1 / 2 < d then f + 1 else if even f then f else f + 1)"

fun bit_count :: "nat \<Rightarrow> nat" where
  "bit_count n = (if n = 0 then 0 else Suc (bit_count (n div 2)))"

declare bit_count.simps [simp del]

definition pow2 :: "int \<Rightarrow> rat" where
  "pow2 e = (if 0 \<le> e then 2 ^ nat e else 1 / 2 ^ nat (- e))"

definition binary_exponent :: "rat \<Rightarrow> int" where
  "binary_exponent x =
     (let (n, d) = quotient_of \<bar>x\<bar>; e = int (bit_count (nat n)) - int (bit_count (nat d))
      in if pow2 e \<le> \<bar>x\<bar> then e else e - 1)"

definition round_double :: "rat \<Rightarrow> rat" where
  "round_double x =
     (let u = max (binary_exponent x - 52) (- 1074) in of_int (round_half_even (x / pow2 u)) * pow2 u)"

definition js_number :: "string \<Rightarrow> rat option" where
  "js_number s = map_option round_double (number_of_string s)"

definition is_integer :: "rat \<Rightarrow> bool" where
  "is_integer x \<longleftrightarrow> of_int \<lfloor>x\<rfloor> = x"


section \<open>Requests and answers\<close>

datatype field_type = FString | FInteger | FNumber | FBoolean | FStringArray

datatype user_input_value = UString string | UNumber rat | UBool bool | UStrings "string list"

record question_option =
  qo_value :: string
  qo_label :: string
  qo_description :: string

record user_question =
  q_id :: string
  q_header :: string
  q_question :: string
  q_isOther :: bool
  q_isSecret :: bool
  q_required :: "bool option"
  q_fieldType :: "field_type option"
  q_defaultValue :: "user_input_value option"
  q_options :: "question_option list option"

record user_input_request =
  ur_requestId :: string
  ur_agentId :: "string option"
  ur_threadId :: string
  ur_turnId :: string
  ur_itemId :: string
  ur_message :: string
  ur_requestedAt :: string
  ur_questions :: "user_question list"

record approval_option =
  ao_id :: string
  ao_label :: string
  ao_kind :: "string option"

record pending_approval =
  pa_requestId :: string
  pa_agentId :: string
  pa_kind :: string
  pa_threadId :: string
  pa_turnId :: string
  pa_itemId :: string
  pa_title :: string
  pa_message :: string
  pa_requestedAt :: string
  pa_reason :: "string option"
  pa_command :: "string option"
  pa_cwd :: "string option"
  pa_grantRoot :: "string option"
  pa_amendment :: "string list option"
  pa_options :: "approval_option list"

text \<open>A message for the user, or the exception of the language.\<close>

datatype answer_error = Complaint string | TypeError

definition normalizeQuestionAnswers :: "string \<Rightarrow> string list" where
  "normalizeQuestionAnswers value =
     filter (\<lambda>l. l \<noteq> []) (map trim (concat (map (split_on (CHR '','')) (split_on (CHR ''\<newline>'') value))))"

definition quoted :: "string \<Rightarrow> string" where
  "quoted header = CHR 0x22 # header @ [CHR 0x22]"

definition parseUserInputValue :: "field_type \<Rightarrow> string \<Rightarrow> string \<Rightarrow> string + user_input_value" where
  "parseUserInputValue fieldType draft header =
     (case fieldType of
        FInteger \<Rightarrow>
          (case js_number draft of
             Some v \<Rightarrow> if is_integer v then Inr (UNumber v) else Inl (quoted header @ '' must be an integer'')
           | None \<Rightarrow> Inl (quoted header @ '' must be an integer''))
      | FNumber \<Rightarrow>
          (case js_number draft of Some v \<Rightarrow> Inr (UNumber v) | None \<Rightarrow> Inl (quoted header @ '' must be a number''))
      | FBoolean \<Rightarrow>
          (if draft = ''true'' \<or> draft = ''false'' then Inr (UBool (draft = ''true''))
           else Inl (quoted header @ '' must be true or false''))
      | FStringArray \<Rightarrow> Inr (UStrings (normalizeQuestionAnswers draft))
      | FString \<Rightarrow> Inr (UString draft))"

text \<open>
  \<open>drafts\<close> and \<open>answers\<close> are plain objects: a key that the object does not have itself is looked up in
  \<open>Object.prototype\<close>, whose entries have no \<open>trim\<close>, and \<open>__proto__\<close> cannot be assigned a string,
  number or boolean.
\<close>

definition PROTOTYPE_KEYS :: "string list" where
  "PROTOTYPE_KEYS =
     [''constructor'', ''__defineGetter__'', ''__defineSetter__'', ''hasOwnProperty'', ''__lookupGetter__'',
      ''__lookupSetter__'', ''isPrototypeOf'', ''propertyIsEnumerable'', ''toString'', ''valueOf'', ''__proto__'', ''toLocaleString'']"

definition draft_of :: "(string, string) jsmap \<Rightarrow> string \<Rightarrow> string option" where
  "draft_of drafts qid =
     (case map_get drafts qid of
        Some d \<Rightarrow> Some (trim d)
      | None \<Rightarrow> if qid \<in> set PROTOTYPE_KEYS then None else Some [])"

definition set_answer :: "string \<Rightarrow> 'v \<Rightarrow> (string, 'v) jsmap \<Rightarrow> (string, 'v) jsmap" where
  "set_answer qid v answers = (if qid = ''__proto__'' then answers else map_put qid v answers)"

definition field_type_of :: "user_question \<Rightarrow> field_type" where
  "field_type_of q = (case q_fieldType q of Some t \<Rightarrow> t | None \<Rightarrow> FString)"

definition is_required :: "user_question \<Rightarrow> bool" where
  "is_required q \<longleftrightarrow> q_required q = Some True"

fun answers_loop ::
  "user_question list \<Rightarrow> (string, string) jsmap \<Rightarrow> (string, user_input_value) jsmap \<Rightarrow>
   answer_error + (string, user_input_value) jsmap" where
  "answers_loop [] drafts answers = Inr answers"
| "answers_loop (question # rest) drafts answers =
     (case draft_of drafts (q_id question) of
        None \<Rightarrow> Inl TypeError
      | Some draft \<Rightarrow>
          if draft = [] \<and> \<not> is_required question then answers_loop rest drafts answers
          else if draft = [] then Inl (Complaint (''Please answer '' @ quoted (q_header question)))
          else (case parseUserInputValue (field_type_of question) draft (q_header question) of
                  Inl e \<Rightarrow> Inl (Complaint e)
                | Inr v \<Rightarrow> answers_loop rest drafts (set_answer (q_id question) v answers)))"

definition buildUserInputAnswers ::
  "user_input_request \<Rightarrow> (string, string) jsmap \<Rightarrow> answer_error + (string, user_input_value) jsmap" where
  "buildUserInputAnswers request drafts = answers_loop (ur_questions request) drafts []"


section \<open>The controller\<close>

record approval_state =
  as_failed :: "(string, string) jsmap"
  as_counter :: nat

record user_input_call =
  uc_requestId :: string
  uc_answers :: "(string, user_input_value) jsmap"
  uc_action :: "string option"

definition findForThread :: "string \<Rightarrow> pending_approval list \<Rightarrow> pending_approval option" where
  "findForThread threadId approvals = List.find (\<lambda>a. pa_threadId a = threadId) approvals"

definition approval_key :: "string \<Rightarrow> string \<Rightarrow> string" where
  "approval_key i optionId = i @ '':'' @ optionId"

definition fresh_resolution :: "nat \<Rightarrow> nat \<Rightarrow> string" where
  "fresh_resolution now counter = ''approval-'' @ base36 now @ ''-'' @ base36 counter"

text \<open>\<open>resolveApproval\<close> up to its await, and after it.\<close>

definition resolveApproval_start :: "nat \<Rightarrow> string \<Rightarrow> string \<Rightarrow> approval_state \<Rightarrow> string \<times> approval_state" where
  "resolveApproval_start now i optionId s =
     (case map_get (as_failed s) (approval_key i optionId) of
        Some r \<Rightarrow> (r, s)
      | None \<Rightarrow> (fresh_resolution now (as_counter s + 1), s\<lparr>as_counter := as_counter s + 1\<rparr>))"

definition resolveApproval_settled :: "string \<Rightarrow> string \<Rightarrow> string \<Rightarrow> bool \<Rightarrow> approval_state \<Rightarrow> approval_state" where
  "resolveApproval_settled i optionId resolutionId ok s =
     s\<lparr>as_failed := (if ok then map_del (approval_key i optionId) (as_failed s)
                     else map_put (approval_key i optionId) resolutionId (as_failed s))\<rparr>"

definition resolveUserInput :: "user_input_request \<Rightarrow> (string, string) jsmap \<Rightarrow> answer_error + user_input_call" where
  "resolveUserInput request drafts =
     (case buildUserInputAnswers request drafts of
        Inl e \<Rightarrow> Inl e
      | Inr answers \<Rightarrow> Inr \<lparr>uc_requestId = ur_requestId request, uc_answers = answers, uc_action = None\<rparr>)"

definition dismissUserInput :: "user_input_request \<Rightarrow> string \<Rightarrow> user_input_call" where
  "dismissUserInput request action = \<lparr>uc_requestId = ur_requestId request, uc_answers = [], uc_action = Some action\<rparr>"


section \<open>Answers have the type of their field\<close>

definition has_field_type :: "field_type \<Rightarrow> user_input_value \<Rightarrow> bool" where
  "has_field_type t v =
     (case v of
        UString s \<Rightarrow> t = FString \<and> s \<noteq> [] \<and> trim s = s
      | UNumber x \<Rightarrow> t = FNumber \<or> (t = FInteger \<and> is_integer x)
      | UBool b \<Rightarrow> t = FBoolean
      | UStrings ss \<Rightarrow>
          t = FStringArray \<and> list_all (\<lambda>s. s \<noteq> [] \<and> trim s = s \<and> CHR '','' \<notin> set s \<and> CHR ''\<newline>'' \<notin> set s) ss)"

text \<open>What the user has typed for a question can be sent.\<close>

definition acceptable :: "(string, string) jsmap \<Rightarrow> user_question \<Rightarrow> bool" where
  "acceptable drafts q =
     (case draft_of drafts (q_id q) of
        None \<Rightarrow> False
      | Some d \<Rightarrow> if d = [] then \<not> is_required q
                  else (case parseUserInputValue (field_type_of q) d (q_header q) of Inl _ \<Rightarrow> False | Inr _ \<Rightarrow> True))"

lemma set_trim: "set (trim s) \<subseteq> set s"
  by (auto simp: trim_def trim_start_def trim_end_def dest!: set_dropWhileD)

lemma split_on_subset: "p \<in> set (split_on c s) \<Longrightarrow> set p \<subseteq> set s"
proof (induction s arbitrary: p)
  case (Cons x xs)
  then show ?case by (fastforce split: if_splits list.splits)
qed simp

lemma normalized_answers:
  "list_all (\<lambda>s. s \<noteq> [] \<and> trim s = s \<and> CHR '','' \<notin> set s \<and> CHR ''\<newline>'' \<notin> set s) (normalizeQuestionAnswers value)"
proof -
  have "CHR '','' \<notin> set (trim p) \<and> CHR ''\<newline>'' \<notin> set (trim p)"
    if "l \<in> set (split_on (CHR ''\<newline>'') value)" "p \<in> set (split_on (CHR '','') l)" for l p
  proof -
    have "set p \<subseteq> set l" using that(2) by (rule split_on_subset)
    then show ?thesis using split_on_no_sep [OF that(1)] split_on_no_sep [OF that(2)] set_trim [of p] by auto
  qed
  then show ?thesis by (auto simp: normalizeQuestionAnswers_def list_all_iff)
qed


lemma parsed_has_type:
  assumes "parseUserInputValue t d h = Inr v" "d \<noteq> []" "trim d = d"
  shows "has_field_type t v"
  using assms normalized_answers [of d]
  by (auto simp: parseUserInputValue_def has_field_type_def split: field_type.splits option.splits if_splits)

lemma draft_trimmed: "draft_of drafts i = Some d \<Longrightarrow> trim d = d"
  by (auto simp: draft_of_def split: option.splits if_splits)

definition typed_answer :: "user_question list \<Rightarrow> string \<times> user_input_value \<Rightarrow> bool" where
  "typed_answer qs kv \<longleftrightarrow> (\<exists>q\<in>set qs. q_id q = fst kv \<and> has_field_type (field_type_of q) (snd kv))"

definition answered :: "(string, user_input_value) jsmap \<Rightarrow> user_question \<Rightarrow> bool" where
  "answered answers q \<longleftrightarrow> (if is_required q \<and> q_id q \<noteq> ''__proto__'' then map_has answers (q_id q) else True)"

lemma map_put_mem: "kv \<in> set (map_put k v m) \<Longrightarrow> kv = (k, v) \<or> kv \<in> set m"
  by (induction m) (auto split: if_splits)

lemma answers_loop_ok:
  "answers_loop qs drafts answers = Inr out \<Longrightarrow>
   list_all (acceptable drafts) qs \<and> list_all (answered out) qs \<and> (\<forall>k. map_has answers k \<longrightarrow> map_has out k) \<and>
   (\<forall>kv\<in>set out. kv \<in> set answers \<or> typed_answer qs kv)"
proof (induction qs arbitrary: answers)
  case (Cons q qs)
  then obtain d where d: "draft_of drafts (q_id q) = Some d" by (auto split: option.splits)
  show ?case
  proof (cases "d = []")
    case True
    with Cons d have "\<not> is_required q" "answers_loop qs drafts answers = Inr out" by (auto split: if_splits)
    with Cons.IH d True show ?thesis by (auto simp: acceptable_def answered_def typed_answer_def)
  next
    case False
    with Cons.prems d obtain v where v: "parseUserInputValue (field_type_of q) d (q_header q) = Inr v"
        "answers_loop qs drafts (set_answer (q_id q) v answers) = Inr out"
      by (auto split: sum.splits)
    note IH = Cons.IH [OF v(2)]
    have t: "has_field_type (field_type_of q) v" using parsed_has_type [OF v(1) False draft_trimmed [OF d]] .
    have "map_has (set_answer (q_id q) v answers) k" if "map_has answers k \<or> (k = q_id q \<and> k \<noteq> ''__proto__'')" for k
      using that by (auto simp: set_answer_def map_get_put)
    moreover have "kv \<in> set answers \<or> kv = (q_id q, v)" if "kv \<in> set (set_answer (q_id q) v answers)" for kv
      using that map_put_mem by (fastforce simp: set_answer_def split: if_splits)
    ultimately show ?thesis using IH t d v(1) False
      by (fastforce simp: acceptable_def answered_def typed_answer_def)
  qed
qed auto

definition complaint_about :: "(string, string) jsmap \<Rightarrow> user_question \<Rightarrow> answer_error" where
  "complaint_about drafts q =
     (case draft_of drafts (q_id q) of
        None \<Rightarrow> TypeError
      | Some d \<Rightarrow>
          Complaint (if d = [] then ''Please answer '' @ quoted (q_header q)
            else quoted (q_header q) @
              (case field_type_of q of FInteger \<Rightarrow> '' must be an integer'' | FNumber \<Rightarrow> '' must be a number'' | _ \<Rightarrow> '' must be true or false'')))"

lemma parse_error:
  "parseUserInputValue t d h = Inl e \<Longrightarrow>
   e = quoted h @ (case t of FInteger \<Rightarrow> '' must be an integer'' | FNumber \<Rightarrow> '' must be a number'' | _ \<Rightarrow> '' must be true or false'')"
  by (auto simp: parseUserInputValue_def split: field_type.splits option.splits if_splits)

lemma answers_loop_error:
  "answers_loop qs drafts answers = Inl e \<Longrightarrow>
   \<exists>q. List.find (\<lambda>q. \<not> acceptable drafts q) qs = Some q \<and> e = complaint_about drafts q"
proof (induction qs arbitrary: answers)
  case (Cons q qs)
  show ?case
  proof (cases "acceptable drafts q")
    case True
    then obtain answers' where "answers_loop qs drafts answers' = Inl e"
      using Cons.prems by (auto simp: acceptable_def split: option.splits if_splits sum.splits)
    with Cons.IH True show ?thesis by simp
  next
    case False
    then have "e = complaint_about drafts q"
      using Cons.prems
      by (auto simp: acceptable_def complaint_about_def split: option.splits if_splits sum.splits dest: parse_error)
    with False show ?thesis by simp
  qed
qed simp

text \<open>
  C30. What becomes of the drafts of a request for input. Either an answer is sent: it is for that request, every question can be
  accepted, each entry belongs to a question and has the type of its field (a trimmed text that is not empty, a number, an integer, a truth
  value, or a list of trimmed texts that are not empty), and every required question has an entry, with two
  reservations: the entry of a list question may be the empty list (\<open>required_list_may_be_empty\<close>), and the
  id \<open>__proto__\<close> never gets one. Or nothing is sent because of the first question that cannot be accepted: the
  outcome is the complaint about it, or a TypeError if its id is a member of \<open>Object.prototype\<close> and there is no
  draft for it (\<open>prototype_question_throws\<close>).
\<close>

theorem answers_typed:
  "case resolveUserInput request drafts of
     Inr call \<Rightarrow> uc_requestId call = ur_requestId request \<and> uc_action call = None \<and>
       list_all (acceptable drafts) (ur_questions request) \<and>
       list_all (typed_answer (ur_questions request)) (uc_answers call) \<and> list_all (answered (uc_answers call)) (ur_questions request)
   | Inl e \<Rightarrow> \<exists>q. List.find (\<lambda>q. \<not> acceptable drafts q) (ur_questions request) = Some q \<and> e = complaint_about drafts q"
proof (cases "buildUserInputAnswers request drafts")
  case (Inl e)
  then show ?thesis using answers_loop_error by (simp add: resolveUserInput_def buildUserInputAnswers_def)
next
  case (Inr answers)
  then show ?thesis
    using answers_loop_ok [of "ur_questions request" drafts "[]" answers]
    by (simp add: resolveUserInput_def buildUserInputAnswers_def list_all_iff)
qed

text \<open>A question that the prototype of all objects answers: no message for the user but an exception.\<close>

lemma prototype_question_throws:
  "q_id q = ''constructor'' \<Longrightarrow> map_get drafts ''constructor'' = None \<Longrightarrow> answers_loop (q # qs) drafts answers = Inl TypeError"
  by (simp add: draft_of_def PROTOTYPE_KEYS_def)

lemma required_list_may_be_empty:
  "parseUserInputValue FStringArray '','' header = Inr (UStrings [])"
  by (simp add: parseUserInputValue_def normalizeQuestionAnswers_def)


section \<open>Integers are kept\<close>

lemma pow2_split: "e \<le> 0 \<Longrightarrow> pow2 e = 1 / 2 ^ nat (- e)"
  by (auto simp: pow2_def)

lemma round_half_even_int [simp]: "round_half_even (of_int i) = i"
  by (simp add: round_half_even_def Let_def)

lemma bit_count_bound: "n < 2 ^ b \<Longrightarrow> bit_count n \<le> b"
proof (induction b arbitrary: n)
  case 0
  then show ?case by (simp add: bit_count.simps)
next
  case (Suc b)
  then have "n div 2 < 2 ^ b" by auto
  with Suc.IH show ?case by (subst bit_count.simps) simp
qed

text \<open>An integer of at most 53 bits is the value that the user has typed.\<close>

lemma small_integer_exact:
  assumes "\<bar>i\<bar> < 2 ^ 53"
  shows "round_double (of_int i) = of_int i"
proof -
  let ?x = "of_int i :: rat"
  have "quotient_of \<bar>?x\<bar> = (\<bar>i\<bar>, 1)" by (simp flip: of_int_abs)
  moreover have "bit_count (nat \<bar>i\<bar>) \<le> 53" using assms by (intro bit_count_bound) (simp add: nat_less_iff)
  moreover have "bit_count (nat 1) = 1" by (simp add: bit_count.simps)
  ultimately have "binary_exponent ?x \<le> 52" by (auto simp: binary_exponent_def Let_def)
  then have u: "max (binary_exponent ?x - 52) (- 1074) \<le> 0" (is "?u \<le> 0") by simp
  then have "?x / pow2 ?u = of_int (i * 2 ^ nat (- ?u))" by (simp add: pow2_split)
  then have "round_half_even (?x / pow2 ?u) = i * 2 ^ nat (- ?u)" by (metis round_half_even_int)
  then show ?thesis using u by (simp add: round_double_def Let_def pow2_split)
qed



section \<open>Resolution ids\<close>

lemma digit36_inject: "a < 36 \<Longrightarrow> b < 36 \<Longrightarrow> digit36 a = digit36 b \<Longrightarrow> a = b"
proof -
  have "distinct ''0123456789abcdefghijklmnopqrstuvwxyz''" by code_simp
  then show "a < 36 \<Longrightarrow> b < 36 \<Longrightarrow> digit36 a = digit36 b \<Longrightarrow> a = b"
    unfolding digit36_def by (subst (asm) nth_eq_iff_index_eq) simp_all
qed

lemma digit36_not_dash:
  assumes "a < 36"
  shows "digit36 a \<noteq> CHR ''-''"
proof -
  have "digit36 a \<in> set ''0123456789abcdefghijklmnopqrstuvwxyz''" unfolding digit36_def by (rule nth_mem) (use assms in simp)
  moreover have "CHR ''-'' \<notin> set ''0123456789abcdefghijklmnopqrstuvwxyz''" by code_simp
  ultimately show ?thesis by metis
qed

lemma base36_no_dash: "CHR ''-'' \<notin> set (base36 n)"
proof (induction n rule: base36.induct)
  case (1 n)
  then show ?case using digit36_not_dash [of n] digit36_not_dash [of "n mod 36"] by (subst base36.simps) auto
qed

lemma base36_nonempty [simp]: "base36 n \<noteq> []"
  by (subst base36.simps) simp

lemma base36_inject: "base36 m = base36 n \<Longrightarrow> m = n"
proof (induction m arbitrary: n rule: base36.induct)
  case (1 m)
  show ?case
  proof (cases "m < 36 \<or> n < 36")
    case True
    with "1.prems" show ?thesis
      by (cases "m < 36"; cases "n < 36") (auto simp: base36.simps [of m] base36.simps [of n] dest: digit36_inject sym [of "[]"])
  next
    case False
    with "1.prems" have "base36 (m div 36) = base36 (n div 36)" "digit36 (m mod 36) = digit36 (n mod 36)"
      by (simp_all add: base36.simps [of m] base36.simps [of n])
    with "1.IH" False have "m div 36 = n div 36" "m mod 36 = n mod 36" by (auto intro: digit36_inject)
    then show ?thesis by (metis div_mult_mod_eq)
  qed
qed

lemma fresh_resolution_inject: "fresh_resolution a m = fresh_resolution b n \<Longrightarrow> m = n"
  using base36_no_dash by (auto simp: fresh_resolution_def last_separator_inject dest: base36_inject)

text \<open>
  The decisions of a session: calls are started and settled in any order. A call is its request, its option and
  the resolution id it was sent with.
\<close>

datatype approval_event = Decide nat string string | Settles nat bool

record approval_run =
  ar_state :: approval_state
  ar_calls :: "(string \<times> string \<times> string) list"
  ar_settled :: "(nat \<times> bool) list"

definition approval_step :: "approval_event \<Rightarrow> approval_run \<Rightarrow> approval_run option" where
  "approval_step ev r =
     (case ev of
        Decide now i optionId \<Rightarrow>
          (let (rid, s) = resolveApproval_start now i optionId (ar_state r)
           in Some (r\<lparr>ar_state := s, ar_calls := ar_calls r @ [(i, optionId, rid)]\<rparr>))
      | Settles n ok \<Rightarrow>
          if n < length (ar_calls r) \<and> n \<notin> fst ` set (ar_settled r)
          then (case ar_calls r ! n of
                  (i, optionId, rid) \<Rightarrow>
                    Some (r\<lparr>ar_state := resolveApproval_settled i optionId rid ok (ar_state r), ar_settled := ar_settled r @ [(n, ok)]\<rparr>))
          else None)"

fun approval_steps :: "approval_event list \<Rightarrow> approval_run \<Rightarrow> approval_run option" where
  "approval_steps [] r = Some r"
| "approval_steps (ev # evs) r = Option.bind (approval_step ev r) (approval_steps evs)"

definition approval_start :: approval_run where
  "approval_start = \<lparr>ar_state = \<lparr>as_failed = [], as_counter = 0\<rparr>, ar_calls = [], ar_settled = []\<rparr>"

definition call_key :: "approval_run \<Rightarrow> nat \<Rightarrow> string" where
  "call_key r n = (case ar_calls r ! n of (i, optionId, _) \<Rightarrow> approval_key i optionId)"

definition call_resolution :: "approval_run \<Rightarrow> nat \<Rightarrow> string" where
  "call_resolution r n = snd (snd (ar_calls r ! n))"

text \<open>The resolution id of the last settled call for a decision, if that call failed.\<close>

fun failed_last :: "(nat \<times> bool) list \<Rightarrow> approval_run \<Rightarrow> string \<Rightarrow> string option" where
  "failed_last [] r k = None"
| "failed_last ((n, ok) # earlier) r k =
     (if call_key r n = k then (if ok then None else Some (call_resolution r n)) else failed_last earlier r k)"

definition last_failure :: "approval_run \<Rightarrow> string \<Rightarrow> string option" where
  "last_failure r k = failed_last (rev (ar_settled r)) r k"

definition ids_determine :: "approval_run \<Rightarrow> bool" where
  "ids_determine r \<longleftrightarrow>
     (\<forall>m<length (ar_calls r). \<forall>n<length (ar_calls r). call_resolution r m = call_resolution r n \<longrightarrow> call_key r m = call_key r n)"

definition approval_inv :: "approval_run \<Rightarrow> bool" where
  "approval_inv r \<longleftrightarrow>
     map_wf (as_failed (ar_state r)) \<and>
     (\<forall>n<length (ar_calls r). \<exists>now c. call_resolution r n = fresh_resolution now c \<and> c \<le> as_counter (ar_state r)) \<and>
     ids_determine r \<and>
     (\<forall>(n, ok)\<in>set (ar_settled r). n < length (ar_calls r)) \<and>
     (\<forall>k. map_get (as_failed (ar_state r)) k = last_failure r k)"

lemma failed_last_call:
  "failed_last xs r k = Some rid \<Longrightarrow> \<exists>(n, ok)\<in>set xs. call_key r n = k \<and> call_resolution r n = rid"
  by (induction xs) (auto split: if_splits)

lemma failed_last_more:
  assumes "\<forall>(n, ok)\<in>set xs. n < length (ar_calls r)"
  shows "failed_last xs (r\<lparr>ar_state := s, ar_calls := ar_calls r @ [c]\<rparr>) k = failed_last xs r k"
  using assms by (induction xs) (auto simp: call_key_def call_resolution_def nth_append)

lemma failed_last_same:
  "failed_last xs (r\<lparr>ar_state := s, ar_settled := t\<rparr>) k = failed_last xs r k"
  by (induction xs) (auto simp: call_key_def call_resolution_def)

lemma call_append:
  assumes "r' = r\<lparr>ar_state := s, ar_calls := ar_calls r @ [(i, optionId, rid)]\<rparr>"
  shows "n < length (ar_calls r) \<Longrightarrow> call_key r' n = call_key r n \<and> call_resolution r' n = call_resolution r n"
    "call_key r' (length (ar_calls r)) = approval_key i optionId" "call_resolution r' (length (ar_calls r)) = rid"
  by (simp_all add: assms call_key_def call_resolution_def nth_append)

lemma unused_resolution:
  assumes "approval_inv r" "n < length (ar_calls r)"
  shows "call_resolution r n \<noteq> fresh_resolution now (as_counter (ar_state r) + 1)"
proof
  assume eq: "call_resolution r n = fresh_resolution now (as_counter (ar_state r) + 1)"
  obtain now' c where "call_resolution r n = fresh_resolution now' c" "c \<le> as_counter (ar_state r)"
    using assms by (auto simp: approval_inv_def)
  with eq fresh_resolution_inject show False by fastforce
qed

lemma decide_inv:
  assumes "approval_inv r" "resolveApproval_start now i optionId (ar_state r) = (rid, s)"
    "r' = r\<lparr>ar_state := s, ar_calls := ar_calls r @ [(i, optionId, rid)]\<rparr>"
  shows "approval_inv r'"
proof -
  let ?k = "approval_key i optionId" and ?n = "length (ar_calls r)"
  note new = call_append [OF assms(3)]
  have determined: "call_resolution r m = call_resolution r n \<Longrightarrow> m < ?n \<Longrightarrow> n < ?n \<Longrightarrow> call_key r m = call_key r n" for m n
    using assms(1) unfolding approval_inv_def ids_determine_def by metis
  have failed: "as_failed s = as_failed (ar_state r)" and mono: "as_counter (ar_state r) \<le> as_counter s"
    using assms(2) by (auto simp: resolveApproval_start_def split: option.splits)
  have rid: "(\<exists>now c. rid = fresh_resolution now c \<and> c \<le> as_counter s) \<and>
      (\<forall>m<?n. call_resolution r m = rid \<longrightarrow> call_key r m = ?k)"
  proof (cases "map_get (as_failed (ar_state r)) ?k")
    case None
    then have "rid = fresh_resolution now (as_counter (ar_state r) + 1)" "as_counter s = as_counter (ar_state r) + 1"
      using assms(2) by (auto simp: resolveApproval_start_def)
    moreover have "call_resolution r m \<noteq> rid" if "m < ?n" for m using unused_resolution [OF assms(1) that] calculation(1) by simp
    ultimately show ?thesis by auto
  next
    case (Some r0)
    then have "last_failure r ?k = Some rid" "s = ar_state r"
      using assms(1,2) by (auto simp: resolveApproval_start_def approval_inv_def)
    then obtain n ok where "(n, ok) \<in> set (ar_settled r)" "call_key r n = ?k" "call_resolution r n = rid"
      by (auto simp: last_failure_def dest: failed_last_call)
    moreover from this(1) have "n < ?n" using assms(1) by (auto simp: approval_inv_def)
    moreover from calculation have "call_resolution r m = rid \<Longrightarrow> m < ?n \<Longrightarrow> call_key r m = ?k" for m
      using determined [of m n] by metis
    ultimately show ?thesis using assms(1) \<open>s = ar_state r\<close> by (auto simp: approval_inv_def)
  qed
  have "last_failure r' k = last_failure r k" for k
    using assms(1) by (auto simp: last_failure_def assms(3) approval_inv_def intro!: failed_last_more)
  moreover have "\<exists>now c. call_resolution r' n = fresh_resolution now c \<and> c \<le> as_counter s" if "n < Suc ?n" for n
  proof (cases "n = ?n")
    case True
    then show ?thesis using rid new(3) by simp
  next
    case False
    with that have "n < ?n" by simp
    with new(1) assms(1) mono show ?thesis unfolding approval_inv_def by (metis le_trans)
  qed
  moreover have "ids_determine r'"
    unfolding ids_determine_def
  proof (intro allI impI)
    fix m n assume mn: "m < length (ar_calls r')" "n < length (ar_calls r')" "call_resolution r' m = call_resolution r' n"
    then have "m = ?n \<or> m < ?n" "n = ?n \<or> n < ?n" by (auto simp: assms(3))
    with mn(3) rid new determined show "call_key r' m = call_key r' n" by metis
  qed
  ultimately show ?thesis using assms(1) failed by (auto simp: approval_inv_def assms(3))
qed

lemma settle_inv_approval:
  assumes "approval_inv r" "n < length (ar_calls r)" "ar_calls r ! n = (i, optionId, rid)"
  shows "approval_inv (r\<lparr>ar_state := resolveApproval_settled i optionId rid ok (ar_state r), ar_settled := ar_settled r @ [(n, ok)]\<rparr>)"
    (is "approval_inv ?r")
proof -
  have "last_failure ?r k = (if k = approval_key i optionId then (if ok then None else Some rid) else last_failure r k)" for k
    using assms(3) by (simp add: last_failure_def failed_last_same) (simp add: call_key_def call_resolution_def)
  moreover have "call_key ?r = call_key r" "call_resolution ?r = call_resolution r"
    by (simp_all add: call_key_def call_resolution_def fun_eq_iff)
  moreover have "map_get (as_failed (resolveApproval_settled i optionId rid ok (ar_state r))) k =
      (if k = approval_key i optionId then (if ok then None else Some rid) else last_failure r k)" for k
    using assms(1) by (simp add: approval_inv_def resolveApproval_settled_def map_get_put map_get_del)
  moreover have "map_wf (as_failed (resolveApproval_settled i optionId rid ok (ar_state r)))"
    using assms(1) by (simp add: approval_inv_def resolveApproval_settled_def map_wf_put map_wf_del)
  moreover have "as_counter (resolveApproval_settled i optionId rid ok (ar_state r)) = as_counter (ar_state r)"
    by (simp add: resolveApproval_settled_def)
  moreover from \<open>call_key ?r = call_key r\<close> \<open>call_resolution ?r = call_resolution r\<close> have "ids_determine ?r = ids_determine r"
    by (simp add: ids_determine_def)
  ultimately show ?thesis
    using assms(1,2) unfolding approval_inv_def by auto
qed

lemma approval_steps_inv: "approval_steps evs r = Some r' \<Longrightarrow> approval_inv r \<Longrightarrow> approval_inv r'"
proof (induction evs arbitrary: r)
  case (Cons ev evs)
  then obtain t where t: "approval_step ev r = Some t" "approval_steps evs t = Some r'" by (auto simp: bind_eq_Some_conv)
  have "approval_inv t"
    using t(1) Cons.prems(2)
    by (cases ev) (auto simp: approval_step_def split: if_splits prod.splits intro: decide_inv settle_inv_approval)
  then show ?case by (rule Cons.IH [OF t(2)])
qed simp

lemma approval_start_inv: "approval_inv approval_start"
  by (simp add: approval_inv_def approval_start_def last_failure_def ids_determine_def)

text \<open>The resolution id of the last settled call for this request and option, if that call failed.\<close>

definition decision_failure :: "approval_run \<Rightarrow> string \<Rightarrow> string \<Rightarrow> string option" where
  "decision_failure r i optionId =
     (case filter (\<lambda>(n, ok). fst (ar_calls r ! n) = i \<and> fst (snd (ar_calls r ! n)) = optionId) (rev (ar_settled r)) of
        [] \<Rightarrow> None
      | (n, ok) # _ \<Rightarrow> if ok then None else Some (call_resolution r n))"

lemma decision_failure_key:
  assumes "approval_inv r" "list_all (\<lambda>c. CHR '':'' \<notin> set (fst c)) (ar_calls r)" "CHR '':'' \<notin> set i"
  shows "last_failure r (approval_key i optionId) = decision_failure r i optionId"
proof -
  have key: "call_key r n = approval_key i optionId \<longleftrightarrow> fst (ar_calls r ! n) = i \<and> fst (snd (ar_calls r ! n)) = optionId"
    if "n < length (ar_calls r)" for n
    using that assms(2,3) by (auto simp: call_key_def approval_key_def first_separator_inject list_all_length split: prod.splits)
  have "failed_last xs r (approval_key i optionId) =
      (case filter (\<lambda>(n, ok). fst (ar_calls r ! n) = i \<and> fst (snd (ar_calls r ! n)) = optionId) xs of
         [] \<Rightarrow> None | (n, ok) # _ \<Rightarrow> if ok then None else Some (call_resolution r n))"
    if "\<forall>(n, ok)\<in>set xs. n < length (ar_calls r)" for xs
    using that
  proof (induction xs)
    case (Cons x xs)
    then show ?case by (cases x) (simp add: key)
  qed simp
  then show ?thesis using assms(1) by (simp add: last_failure_def decision_failure_def approval_inv_def)
qed

text \<open>
  C31. The resolution ids of decisions. The client tells decisions apart by a key, the request id and the option id joined by a
  colon. In every session, however the calls overlap, fail and succeed: a decision is sent with the resolution id of the last
  settled call with its key if that call failed, and otherwise with an id that no call before had. Two different decisions
  can have the same key, and then share an id (\<open>resolution_id_of_other_request\<close>), but only if a request id contains a
  colon: calls whose request ids have none and that share a resolution id decide the same request in the same way, and in a
  session without colons in the request ids the last call with the key is the last call for this request and option.
\<close>

theorem approval_resolution_ids:
  assumes "approval_steps evs approval_start = Some r"
  shows "(case last_failure r (approval_key i optionId) of
            Some rid \<Rightarrow> fst (resolveApproval_start now i optionId (ar_state r)) = rid
          | None \<Rightarrow> fst (resolveApproval_start now i optionId (ar_state r)) \<notin> set (map (snd \<circ> snd) (ar_calls r))) \<and>
     (\<forall>m n. if m < length (ar_calls r) \<and> n < length (ar_calls r) \<and> call_resolution r m = call_resolution r n \<and>
                CHR '':'' \<notin> set (fst (ar_calls r ! m)) \<and> CHR '':'' \<notin> set (fst (ar_calls r ! n))
            then ar_calls r ! m = ar_calls r ! n else True) \<and>
     (if list_all (\<lambda>c. CHR '':'' \<notin> set (fst c)) (ar_calls r) \<and> CHR '':'' \<notin> set i
      then last_failure r (approval_key i optionId) = decision_failure r i optionId else True)"
proof -
  have inv: "approval_inv r" using approval_steps_inv [OF assms approval_start_inv] .
  have "fst (resolveApproval_start now i optionId (ar_state r)) \<notin> set (map (snd \<circ> snd) (ar_calls r))"
    if none: "map_get (as_failed (ar_state r)) (approval_key i optionId) = None"
  proof -
    have "fst (resolveApproval_start now i optionId (ar_state r)) = fresh_resolution now (as_counter (ar_state r) + 1)"
      unfolding resolveApproval_start_def none by simp
    then show ?thesis
      using unused_resolution [OF inv, of _ now] unfolding call_resolution_def in_set_conv_nth by auto
  qed
  moreover have "ar_calls r ! m = ar_calls r ! n"
    if "m < length (ar_calls r)" "n < length (ar_calls r)" "call_resolution r m = call_resolution r n"
      "CHR '':'' \<notin> set (fst (ar_calls r ! m))" "CHR '':'' \<notin> set (fst (ar_calls r ! n))" for m n
  proof -
    have "call_key r m = call_key r n" using inv that(1-3) unfolding approval_inv_def ids_determine_def by metis
    then show ?thesis
      using that(3-5) by (auto simp: call_key_def call_resolution_def approval_key_def first_separator_inject split: prod.splits intro: prod_eqI)
  qed
  ultimately show ?thesis
    using inv decision_failure_key [OF inv, of i optionId]
    by (auto simp: approval_inv_def resolveApproval_start_def split: option.split)
qed

theorem approval_resolution_ids_witness:
  "\<exists>r. approval_steps [Decide 5 ''r1'' ''allow'', Settles 0 False] approval_start = Some r \<and>
     fst (resolveApproval_start 9 ''r1'' ''allow'' (ar_state r)) = ''approval-5-1''"
proof -
  obtain r where r: "approval_steps [Decide 5 ''r1'' ''allow'', Settles 0 False] approval_start = Some r"
    "last_failure r (approval_key ''r1'' ''allow'') = Some ''approval-5-1''"
    by (simp add: approval_start_def approval_step_def resolveApproval_start_def resolveApproval_settled_def last_failure_def
        approval_key_def call_key_def call_resolution_def fresh_resolution_def base36.simps digit36_def)
  from approval_resolution_ids [OF r(1), where now = 9 and i = "''r1''" and optionId = "''allow''"] r(2) have "fst (resolveApproval_start 9 ''r1'' ''allow'' (ar_state r)) = ''approval-5-1''"
    by simp
  with r(1) show ?thesis by blast
qed

text \<open>Two requests, one key: the second decision is sent with the resolution id of the first.\<close>

lemma resolution_id_of_other_request:
  "map_option (\<lambda>r. map (\<lambda>n. (ar_calls r ! n)) [0, 1])
     (approval_steps [Decide 5 ''a:b'' ''c'', Settles 0 False, Decide 9 ''a'' ''b:c''] approval_start) =
   Some [(''a:b'', ''c'', ''approval-5-1''), (''a'', ''b:c'', ''approval-5-1'')]"
  by code_simp

end
