(* ===== verification/ClientCaches.thy ===== *)
theory ClientCaches
  imports ChatMapping JsMaps
begin

text \<open>
  The caches of the bridge client: \<^verbatim>\<open>bridge/client/healthAndCacheLayer.ts\<close>, \<^verbatim>\<open>chatListingLayer.ts\<close>,
  \<^verbatim>\<open>workspaceAndChatReadLayer.ts\<close>, \<^verbatim>\<open>turnPreparationLayer.ts\<close> (reading of threads),
  \<^verbatim>\<open>clientChatListInternals.ts\<close> and \<^verbatim>\<open>clientChatCloneAndRetryInternals.ts\<close>.

  The fields of the client that hold cached data are the record \<open>api_client\<close>. A promise in an in-flight map is
  the number of its request. Asynchronous methods are cut at their awaits; what the bridge answers
  is an argument of the part behind the await, as are the clock and the host library. Values are immutable here, so the
  copies that the source takes of cached values (\<open>cloneChat\<close>, \<open>cloneChatSummaries\<close>) are the values themselves.
\<close>

section \<open>Data\<close>

record 'a cache_entry =
  ce_value :: 'a
  ce_loadedAt :: rat

record list_result =
  lr_chats :: "chat_summary list"
  lr_diagnostics :: "string list"
  lr_partial :: bool

record list_page =
  lp_chats :: "chat_summary list"
  lp_nextCursor :: "string option"
  lp_backwardsCursor :: "string option"
  lp_diagnostics :: "string list"
  lp_partial :: bool

record list_options =
  lo_agentId :: "string option"
  lo_includeSubAgents :: bool
  lo_limit :: "rat option"
  lo_cacheTtlMs :: "rat option"
  lo_forceRefresh :: bool

record read_options =
  ro_cacheTtlMs :: "rat option"
  ro_forceRefresh :: bool

record model_option =
  mo_id :: string
  mo_displayName :: string
  mo_providerId :: "string option"
  mo_providerName :: "string option"
  mo_contextWindow :: "int option"
  mo_reasoningEffort :: "string list option"

record api_client =
  ac_renamedTitles :: "(string, string) jsmap"
  ac_chatListCache :: "(string, chat_summary list cache_entry) jsmap"
  ac_chatListInFlight :: "(string, nat) jsmap"
  ac_allChatListCache :: "(string, list_result cache_entry) jsmap"
  ac_allChatListInFlight :: "(string, nat) jsmap"
  ac_chatCache :: "(string, chat cache_entry) jsmap"
  ac_chatInFlight :: "(string, nat) jsmap"
  ac_modelListCache :: "(string, model_option list cache_entry) jsmap"
  ac_modelListInFlight :: "(string, nat) jsmap"
  ac_requests :: nat

definition empty_client :: api_client where
  "empty_client = \<lparr>ac_renamedTitles = [], ac_chatListCache = [], ac_chatListInFlight = [], ac_allChatListCache = [],
     ac_allChatListInFlight = [], ac_chatCache = [], ac_chatInFlight = [], ac_modelListCache = [], ac_modelListInFlight = [], ac_requests = 0\<rparr>"

text \<open>What the client needs of the host: validation, dates, the rows of finished turns and \<open>localeCompare\<close>.\<close>

record client_lib =
  cl_vb :: valibot
  cl_ml :: mapping_lib
  cl_dp :: "string \<Rightarrow> rat option"
  cl_rows :: "raw_thread \<Rightarrow> string \<Rightarrow> chat_message list"
  cl_cmp :: "string \<Rightarrow> string \<Rightarrow> int"

datatype client_error = RpcFailure int string | MapFailure map_error | OtherFailure string


section \<open>Limits, cursors and keys\<close>

definition DEFAULT_PREFETCH_CACHE_TTL_MS :: rat where "DEFAULT_PREFETCH_CACHE_TTL_MS = 30000"
definition DEFAULT_CHAT_LIST_LIMIT :: rat where "DEFAULT_CHAT_LIST_LIMIT = 20"
definition DEFAULT_SUB_AGENT_CHAT_LIST_LIMIT :: rat where "DEFAULT_SUB_AGENT_CHAT_LIST_LIMIT = 50"
definition CHAT_LIST_STREAM_INITIAL_LIMIT :: rat where "CHAT_LIST_STREAM_INITIAL_LIMIT = 5"
definition MAX_CHAT_LIST_PAGES :: nat where "MAX_CHAT_LIST_PAGES = 32"
definition MODEL_LIST_CACHE_TTL_MS :: rat where "MODEL_LIST_CACHE_TTL_MS = 5 * 60 * 1000"

text \<open>\<open>Math.round\<close>\<close>

definition js_round :: "rat \<Rightarrow> int" where
  "js_round x = \<lfloor>x + 1 / 2\<rfloor>"

definition normalizeListLimit :: "json option \<Rightarrow> int" where
  "normalizeListLimit limit =
     (case limit of Some (JNum n) \<Rightarrow> max 1 (min 200 (js_round n)) | _ \<Rightarrow> js_round DEFAULT_CHAT_LIST_LIMIT)"

definition normalizeConcurrency :: "json option \<Rightarrow> int \<Rightarrow> int \<Rightarrow> int" where
  "normalizeConcurrency value fallback maximum =
     (case value of Some (JNum n) \<Rightarrow> max 1 (min maximum (js_round n)) | _ \<Rightarrow> fallback)"

definition normalizeCursor :: "json option \<Rightarrow> string option" where
  "normalizeCursor cursor =
     (case cursor of Some (JStr s) \<Rightarrow> (let trimmed = trim s in if trimmed \<noteq> [] then Some trimmed else None) | _ \<Rightarrow> None)"

definition add_thread_id :: "string \<Rightarrow> string list \<Rightarrow> string list" where
  "add_thread_id i normalized =
     (let trimmed = trim i in if trimmed = [] \<or> trimmed \<in> set normalized then normalized else normalized @ [trimmed])"

definition normalizeUniqueThreadIds :: "string list \<Rightarrow> string list" where
  "normalizeUniqueThreadIds ids = fold add_thread_id ids []"

definition add_limit :: "json option \<Rightarrow> int list \<Rightarrow> int list" where
  "add_limit limit normalized =
     (let nextLimit = normalizeListLimit limit in if nextLimit \<in> set normalized then normalized else normalized @ [nextLimit])"

definition normalizeChatListStreamLimits :: "json list option \<Rightarrow> rat \<Rightarrow> int list" where
  "normalizeChatListStreamLimits limits fallbackLimit =
     (let rawLimits = (case limits of Some l \<Rightarrow> l | None \<Rightarrow> [JNum CHAT_LIST_STREAM_INITIAL_LIMIT, JNum fallbackLimit]);
          normalized = fold (add_limit \<circ> Some) rawLimits []
      in if normalized \<noteq> [] then normalized else [normalizeListLimit (Some (JNum fallbackLimit))])"

definition isSubAgentSource :: "string option \<Rightarrow> bool" where
  "isSubAgentSource sourceKind = (case sourceKind of Some s \<Rightarrow> starts_with s ''subAgent'' | None \<Rightarrow> False)"

definition default_limit :: "bool \<Rightarrow> rat" where
  "default_limit includeSubAgents = (if includeSubAgents then DEFAULT_SUB_AGENT_CHAT_LIST_LIMIT else DEFAULT_CHAT_LIST_LIMIT)"

definition list_limit :: "list_options \<Rightarrow> int" where
  "list_limit options =
     normalizeListLimit (Some (JNum (case lo_limit options of Some n \<Rightarrow> n | None \<Rightarrow> default_limit (lo_includeSubAgents options))))"

definition chatListCacheKey :: "list_options \<Rightarrow> string" where
  "chatListCacheKey options =
     (if lo_includeSubAgents options then ''with-subagents'' else ''default'') @ '':'' @ string_of_int (list_limit options)"

definition allChatListCacheKey :: "bool \<Rightarrow> string" where
  "allChatListCacheKey includeSubAgents = (if includeSubAgents then ''with-subagents'' else ''default'')"

definition modelListCacheKey :: "string option \<Rightarrow> string" where
  "modelListCacheKey agentId = (case agentId of Some a \<Rightarrow> a | None \<Rightarrow> [])"

definition mergeChatSummariesById ::
  "(string \<Rightarrow> string \<Rightarrow> int) \<Rightarrow> chat_summary list \<Rightarrow> chat_summary list \<Rightarrow> chat_summary list" where
  "mergeChatSummariesById cmp previous incoming =
     js_sort (\<lambda>left right. cmp (ct_updatedAt right) (ct_updatedAt left)) (map snd (map_by ct_id (previous @ incoming)))"


section \<open>Reading and writing the caches\<close>

definition on_values :: "('v \<Rightarrow> 'w) \<Rightarrow> ('k, 'v) jsmap \<Rightarrow> ('k, 'w) jsmap" where
  "on_values f m = map (\<lambda>(k, v). (k, f v)) m"

definition cloneChatSummary :: "'a chat_summary_scheme \<Rightarrow> chat_summary" where
  "cloneChatSummary c = chat_summary.truncate c"

definition chatShellFromSummary :: "chat_summary \<Rightarrow> chat" where
  "chatShellFromSummary summary =
     chat_summary.extend summary (chat.fields [] None None None None None None None None None None None)"

definition without_chat :: "string \<Rightarrow> chat_summary list \<Rightarrow> chat_summary list" where
  "without_chat i chats = filter (\<lambda>c. ct_id c \<noteq> i) chats"

text \<open>The first entry with the id of the chat is overwritten; a list without such an entry is left alone.\<close>

fun replace_chat :: "chat_summary \<Rightarrow> chat_summary list \<Rightarrow> chat_summary list" where
  "replace_chat c [] = []"
| "replace_chat c (x # xs) = (if ct_id x = ct_id c then c # xs else x # replace_chat c xs)"

definition in_list :: "(chat_summary list \<Rightarrow> chat_summary list) \<Rightarrow> chat_summary list cache_entry \<Rightarrow> chat_summary list cache_entry" where
  "in_list f e = e\<lparr>ce_value := f (ce_value e)\<rparr>"

definition in_result :: "(chat_summary list \<Rightarrow> chat_summary list) \<Rightarrow> list_result cache_entry \<Rightarrow> list_result cache_entry" where
  "in_result f e = e\<lparr>ce_value := (ce_value e)\<lparr>lr_chats := f (lr_chats (ce_value e))\<rparr>\<rparr>"

definition forgetChat :: "string \<Rightarrow> api_client \<Rightarrow> api_client" where
  "forgetChat threadId s =
     (let i = trim threadId
      in if i = [] then s
         else s\<lparr>ac_chatCache := map_del i (ac_chatCache s), ac_renamedTitles := map_del i (ac_renamedTitles s),
                ac_chatListCache := on_values (in_list (without_chat i)) (ac_chatListCache s),
                ac_allChatListCache := on_values (in_result (without_chat i)) (ac_allChatListCache s)\<rparr>)"

definition mergeIntoAllChatListCaches :: "(string \<Rightarrow> string \<Rightarrow> int) \<Rightarrow> chat_summary list \<Rightarrow> api_client \<Rightarrow> api_client" where
  "mergeIntoAllChatListCaches cmp chats s =
     s\<lparr>ac_allChatListCache := on_values (in_result (\<lambda>l. mergeChatSummariesById cmp l chats)) (ac_allChatListCache s)\<rparr>"

definition rememberChats :: "(string \<Rightarrow> string \<Rightarrow> int) \<Rightarrow> rat \<Rightarrow> chat_summary list \<Rightarrow> list_options \<Rightarrow> api_client \<Rightarrow> api_client" where
  "rememberChats cmp now chats options s =
     (let s1 = s\<lparr>ac_chatListCache := map_put (chatListCacheKey options) \<lparr>ce_value = chats, ce_loadedAt = now\<rparr> (ac_chatListCache s)\<rparr>
      in if chats \<noteq> [] then mergeIntoAllChatListCaches cmp chats s1 else s1)"

definition rememberChat :: "rat \<Rightarrow> chat \<Rightarrow> api_client \<Rightarrow> api_client" where
  "rememberChat now c s =
     s\<lparr>ac_chatCache := map_put (ct_id c) \<lparr>ce_value = c, ce_loadedAt = now\<rparr> (ac_chatCache s),
       ac_chatListCache := on_values (in_list (replace_chat (cloneChatSummary c))) (ac_chatListCache s),
       ac_allChatListCache := on_values (in_result (replace_chat (cloneChatSummary c))) (ac_allChatListCache s)\<rparr>"

definition peekChats :: "list_options \<Rightarrow> api_client \<Rightarrow> chat_summary list option" where
  "peekChats options s = map_option ce_value (map_get (ac_chatListCache s) (chatListCacheKey options))"

definition peekAllChats :: "bool \<Rightarrow> api_client \<Rightarrow> chat_summary list option" where
  "peekAllChats includeSubAgents s =
     map_option (lr_chats \<circ> ce_value) (map_get (ac_allChatListCache s) (allChatListCacheKey includeSubAgents))"

definition peekChat :: "string \<Rightarrow> api_client \<Rightarrow> chat option" where
  "peekChat i s = map_option ce_value (map_get (ac_chatCache s) (trim i))"

definition find_chat :: "string \<Rightarrow> chat_summary list list \<Rightarrow> chat_summary option" where
  "find_chat i ls = first_some (List.find (\<lambda>c. ct_id c = i)) ls"

definition peekChatSummary :: "string \<Rightarrow> api_client \<Rightarrow> chat_summary option" where
  "peekChatSummary i s =
     (let threadId = trim i
      in if threadId = [] then None
         else case map_get (ac_chatCache s) threadId of
                Some e \<Rightarrow> Some (cloneChatSummary (ce_value e))
              | None \<Rightarrow>
                  (case find_chat threadId (map (ce_value \<circ> snd) (ac_chatListCache s)) of
                     Some c \<Rightarrow> Some c
                   | None \<Rightarrow> find_chat threadId (map (lr_chats \<circ> ce_value \<circ> snd) (ac_allChatListCache s))))"

definition peekChatShell :: "string \<Rightarrow> api_client \<Rightarrow> chat option" where
  "peekChatShell i s =
     (case peekChat i s of Some c \<Rightarrow> Some c | None \<Rightarrow> map_option chatShellFromSummary (peekChatSummary i s))"

definition peekModelOptions :: "string option \<Rightarrow> api_client \<Rightarrow> model_option list option" where
  "peekModelOptions agentId s = map_option ce_value (map_get (ac_modelListCache s) (modelListCacheKey agentId))"

definition deleteChat_check :: "string \<Rightarrow> client_error + string" where
  "deleteChat_check threadId =
     (let i = trim threadId in if i = [] then Inl (OtherFailure ''thread is required'') else Inr i)"

text \<open>\<open>deleteChat\<close> behind the request: \<^const>\<open>None\<close> for a failed one.\<close>

definition deleteChat_answered :: "string \<Rightarrow> client_error option \<Rightarrow> api_client \<Rightarrow> api_client" where
  "deleteChat_answered threadId failure s = (case failure of Some _ \<Rightarrow> s | None \<Rightarrow> forgetChat (trim threadId) s)"


section \<open>Titles and mapped threads\<close>

definition rememberRawThreadTitle :: "raw_thread \<Rightarrow> api_client \<Rightarrow> api_client" where
  "rememberRawThreadTitle raw s =
     (case (map_option trim (rw_id raw), map_option trim (rw_name raw)) of
        (Some i, Some t) \<Rightarrow>
          if i = [] \<or> t = [] then s else s\<lparr>ac_renamedTitles := map_put i t (ac_renamedTitles s)\<rparr>
      | _ \<Rightarrow> s)"

definition applyRememberedTitle :: "api_client \<Rightarrow> 'a chat_summary_scheme \<Rightarrow> 'a chat_summary_scheme" where
  "applyRememberedTitle s c =
     (case map_get (ac_renamedTitles s) (ct_id c) of
        Some t \<Rightarrow> if t = [] then c else c\<lparr>ct_title := t\<rparr>
      | None \<Rightarrow> c)"

definition mapChatWithCachedTitle :: "client_lib \<Rightarrow> rat \<Rightarrow> raw_thread \<Rightarrow> api_client \<Rightarrow> (client_error + chat) \<times> api_client" where
  "mapChatWithCachedTitle lib now raw s =
     (let s1 = rememberRawThreadTitle raw s
      in case mapChat (cl_vb lib) (cl_ml lib) (cl_rows lib) raw of
           Inl e \<Rightarrow> (Inl (MapFailure e), s1)
         | Inr mapped \<Rightarrow> let c = applyRememberedTitle s1 mapped in (Inr c, rememberChat now c s1))"

fun map_items :: "client_lib \<Rightarrow> json list \<Rightarrow> api_client \<Rightarrow> (client_error + chat_summary list) \<times> api_client" where
  "map_items lib [] s = (Inr [], s)"
| "map_items lib (item # items) s =
     (let raw = toRawThread (cl_vb lib) (cl_dp lib) (Some item); s1 = rememberRawThreadTitle raw s
      in case mapChatSummary (cl_vb lib) (cl_ml lib) raw of
           Inl e \<Rightarrow> (Inl (MapFailure e), s1)
         | Inr mapped \<Rightarrow>
             let (rest, s2) = map_items lib items s1
             in (map_sum id (\<lambda>l. (case mapped of Some c \<Rightarrow> [applyRememberedTitle s1 c] | None \<Rightarrow> []) @ l) rest, s2))"

definition mapChatListItems :: "client_lib \<Rightarrow> json list \<Rightarrow> bool \<Rightarrow> api_client \<Rightarrow> (client_error + chat_summary list) \<times> api_client" where
  "mapChatListItems lib listRaw includeSubAgents s =
     (let (items, s1) = map_items lib listRaw s
      in (map_sum id (\<lambda>l. js_sort (\<lambda>a b. cl_cmp lib (ct_updatedAt b) (ct_updatedAt a))
            (filter (\<lambda>c. includeSubAgents \<or> \<not> isSubAgentSource (ct_sourceKind c)) l)) items, s1))"

definition renameChat_answered :: "client_lib \<Rightarrow> rat \<Rightarrow> string \<Rightarrow> json option \<Rightarrow> api_client \<Rightarrow> (client_error + chat) \<times> api_client" where
  "renameChat_answered lib now title thread s =
     (case thread of
        None \<Rightarrow> (Inl (OtherFailure ''thread/name/update did not return a chat''), s)
      | Some t \<Rightarrow>
          (case mapChatWithCachedTitle lib now (toRawThread (cl_vb lib) (cl_dp lib) (Some t)) s of
             (Inl e, s1) \<Rightarrow> (Inl e, s1)
           | (Inr c, s1) \<Rightarrow>
               (Inr c, rememberChat now c (s1\<lparr>ac_renamedTitles := map_put (ct_id c) (trim title) (ac_renamedTitles s1)\<rparr>))))"

definition setThreadConfigOption_answered :: "client_lib \<Rightarrow> rat \<Rightarrow> json option \<Rightarrow> api_client \<Rightarrow> (client_error + chat) \<times> api_client" where
  "setThreadConfigOption_answered lib now thread s =
     (case thread of
        None \<Rightarrow> (Inl (OtherFailure ''thread/config/set did not return a chat''), s)
      | Some t \<Rightarrow>
          (case mapChatWithCachedTitle lib now (toRawThread (cl_vb lib) (cl_dp lib) (Some t)) s of
             (Inl e, s1) \<Rightarrow> (Inl e, s1)
           | (Inr c, s1) \<Rightarrow> (Inr c, rememberChat now c s1)))"

definition forkChat_answered :: "client_lib \<Rightarrow> rat \<Rightarrow> json option \<Rightarrow> api_client \<Rightarrow> (client_error + chat) \<times> api_client" where
  "forkChat_answered lib now thread s =
     (case toRecord thread of
        None \<Rightarrow> (Inl (OtherFailure ''bridge/thread/fork did not return a chat''), s)
      | Some r \<Rightarrow>
          (case readString (cl_vb lib) (map_get r ''id'') of
             None \<Rightarrow> (Inl (OtherFailure ''bridge/thread/fork did not return a chat''), s)
           | Some i \<Rightarrow>
               if i = [] then (Inl (OtherFailure ''bridge/thread/fork did not return a chat''), s)
               else (case mapChatWithCachedTitle lib now (toRawThread (cl_vb lib) (cl_dp lib) (Some (JObj r))) s of
                       (Inl e, s1) \<Rightarrow> (Inl e, s1)
                     | (Inr c, s1) \<Rightarrow>
                         (Inr c, mergeIntoAllChatListCaches (cl_cmp lib) [cloneChatSummary c]
                            (s1\<lparr>ac_chatListCache :=
                               on_values (in_list (\<lambda>l. mergeChatSummariesById (cl_cmp lib) l [cloneChatSummary c])) (ac_chatListCache s1)\<rparr>)))))"

end
