(* ===== verification/ClientReads.thy ===== *)
theory ClientReads
  imports ClientCaches
begin

text \<open>
  Reading through the caches of the client: chats, lists of chats and model lists are answered from a cache while it
  is fresh, otherwise by a request, which callers share while it is under way. Also the retries of
  \<open>readAppServerThread\<close>, the fallback of \<open>readChatSnapshot\<close>, and the loop over the pages of \<open>fetchAllChats\<close>
  (without its \<open>onPage\<close> callback, which reports the pages to the caller as they arrive).
\<close>

section \<open>Reads that share a request\<close>

text \<open>A call is answered from the cache, waits for a request that is under way, or has sent one.\<close>

datatype 'v read = Hit 'v | Await nat | Sent nat

definition cached_value :: "bool \<Rightarrow> rat option \<Rightarrow> rat \<Rightarrow> 'v cache_entry option \<Rightarrow> 'v option" where
  "cached_value forceRefresh ttl now cached =
     (let cacheTtlMs = max 0 (case ttl of Some t \<Rightarrow> t | None \<Rightarrow> 0)
      in case cached of
           Some e \<Rightarrow> if \<not> forceRefresh \<and> cacheTtlMs > 0 \<and> now - ce_loadedAt e \<le> cacheTtlMs then Some (ce_value e) else None
         | None \<Rightarrow> None)"

definition listChats :: "list_options \<Rightarrow> rat \<Rightarrow> api_client \<Rightarrow> chat_summary list read \<times> api_client" where
  "listChats options now s =
     (let key = chatListCacheKey options
      in case cached_value (lo_forceRefresh options) (lo_cacheTtlMs options) now (map_get (ac_chatListCache s) key) of
           Some v \<Rightarrow> (Hit v, s)
         | None \<Rightarrow>
             (case map_get (ac_chatListInFlight s) key of
                Some r \<Rightarrow> (Await r, s)
              | None \<Rightarrow>
                  (Sent (ac_requests s),
                   s\<lparr>ac_chatListInFlight := map_put key (ac_requests s) (ac_chatListInFlight s), ac_requests := ac_requests s + 1\<rparr>)))"

definition primeChats :: "list_options \<Rightarrow> rat \<Rightarrow> api_client \<Rightarrow> chat_summary list read \<times> api_client" where
  "primeChats options now s =
     listChats (options\<lparr>lo_cacheTtlMs := Some (case lo_cacheTtlMs options of Some t \<Rightarrow> t | None \<Rightarrow> DEFAULT_PREFETCH_CACHE_TTL_MS)\<rparr>) now s"

definition listAllChats :: "bool \<Rightarrow> read_options \<Rightarrow> rat \<Rightarrow> api_client \<Rightarrow> list_result read \<times> api_client" where
  "listAllChats includeSubAgents options now s =
     (let key = allChatListCacheKey includeSubAgents
      in case cached_value (ro_forceRefresh options) (ro_cacheTtlMs options) now (map_get (ac_allChatListCache s) key) of
           Some v \<Rightarrow> (Hit v, s)
         | None \<Rightarrow>
             (case map_get (ac_allChatListInFlight s) key of
                Some r \<Rightarrow> (Await r, s)
              | None \<Rightarrow>
                  (Sent (ac_requests s),
                   s\<lparr>ac_allChatListInFlight := map_put key (ac_requests s) (ac_allChatListInFlight s), ac_requests := ac_requests s + 1\<rparr>)))"

definition getChat :: "string \<Rightarrow> read_options \<Rightarrow> rat \<Rightarrow> api_client \<Rightarrow> chat read \<times> api_client" where
  "getChat i options now s =
     (let threadId = trim i
      in case cached_value (ro_forceRefresh options) (ro_cacheTtlMs options) now (map_get (ac_chatCache s) threadId) of
           Some v \<Rightarrow> (Hit v, s)
         | None \<Rightarrow>
             (case map_get (ac_chatInFlight s) threadId of
                Some r \<Rightarrow> (Await r, s)
              | None \<Rightarrow>
                  (Sent (ac_requests s),
                   s\<lparr>ac_chatInFlight := map_put threadId (ac_requests s) (ac_chatInFlight s), ac_requests := ac_requests s + 1\<rparr>)))"

definition listModelOptions :: "string option \<Rightarrow> rat \<Rightarrow> api_client \<Rightarrow> model_option list read \<times> api_client" where
  "listModelOptions agentId now s =
     (let key = modelListCacheKey agentId
      in case map_get (ac_modelListCache s) key of
           Some e \<Rightarrow>
             if now - ce_loadedAt e < MODEL_LIST_CACHE_TTL_MS then (Hit (ce_value e), s)
             else (case map_get (ac_modelListInFlight s) key of
                     Some r \<Rightarrow> (Await r, s)
                   | None \<Rightarrow>
                       (Sent (ac_requests s),
                        s\<lparr>ac_modelListInFlight := map_put key (ac_requests s) (ac_modelListInFlight s), ac_requests := ac_requests s + 1\<rparr>))
         | None \<Rightarrow>
             (case map_get (ac_modelListInFlight s) key of
                Some r \<Rightarrow> (Await r, s)
              | None \<Rightarrow>
                  (Sent (ac_requests s),
                   s\<lparr>ac_modelListInFlight := map_put key (ac_requests s) (ac_modelListInFlight s), ac_requests := ac_requests s + 1\<rparr>)))"

text \<open>The \<open>finally\<close> of each request.\<close>

definition listChats_finally :: "string \<Rightarrow> api_client \<Rightarrow> api_client" where
  "listChats_finally key s = s\<lparr>ac_chatListInFlight := map_del key (ac_chatListInFlight s)\<rparr>"

definition listAllChats_finally :: "string \<Rightarrow> api_client \<Rightarrow> api_client" where
  "listAllChats_finally key s = s\<lparr>ac_allChatListInFlight := map_del key (ac_allChatListInFlight s)\<rparr>"

definition getChat_finally :: "string \<Rightarrow> api_client \<Rightarrow> api_client" where
  "getChat_finally key s = s\<lparr>ac_chatInFlight := map_del key (ac_chatInFlight s)\<rparr>"

definition listModelOptions_finally :: "string \<Rightarrow> api_client \<Rightarrow> api_client" where
  "listModelOptions_finally key s = s\<lparr>ac_modelListInFlight := map_del key (ac_modelListInFlight s)\<rparr>"

definition listModelOptions_answered :: "string option \<Rightarrow> rat \<Rightarrow> model_option list \<Rightarrow> api_client \<Rightarrow> api_client" where
  "listModelOptions_answered agentId now options s =
     s\<lparr>ac_modelListCache := map_put (modelListCacheKey agentId) \<lparr>ce_value = options, ce_loadedAt = now\<rparr> (ac_modelListCache s)\<rparr>"


section \<open>Pages of chats\<close>

definition array_field :: "(string, json) jsmap \<Rightarrow> string \<Rightarrow> json list option" where
  "array_field r k = (case map_get r k of Some (JArr l) \<Rightarrow> Some l | _ \<Rightarrow> None)"

definition fetchChatPage_answered ::
  "client_lib \<Rightarrow> bool \<Rightarrow> (string, json) jsmap \<Rightarrow> api_client \<Rightarrow> (client_error + list_page) \<times> api_client" where
  "fetchChatPage_answered lib includeSubAgents response s =
     (let listRaw = (case array_field response ''data'' of Some l \<Rightarrow> l | None \<Rightarrow> []);
          (chats, s1) = mapChatListItems lib listRaw includeSubAgents s;
          read = readString (cl_vb lib) \<circ> map_get response;
          diagnostics = (case array_field response ''diagnostics'' of Some l \<Rightarrow> l | None \<Rightarrow> [])
      in (map_sum id (\<lambda>cs.
            \<lparr>lp_chats = cs, lp_nextCursor = or_else (read ''nextCursor'') (read ''next_cursor''),
             lp_backwardsCursor = or_else (read ''backwardsCursor'') (read ''backwards_cursor''),
             lp_diagnostics = filter (\<lambda>d. d \<noteq> []) (List.map_filter (\<lambda>v. readString (cl_vb lib) (Some v)) diagnostics),
             lp_partial = (map_get response ''partial'' = Some (JBool True) \<or> diagnostics \<noteq> [])\<rparr>) chats, s1))"

definition fetchChats_answered ::
  "client_lib \<Rightarrow> rat \<Rightarrow> list_options \<Rightarrow> (string, json) jsmap \<Rightarrow> api_client \<Rightarrow> (client_error + chat_summary list) \<times> api_client" where
  "fetchChats_answered lib now options response s =
     (case fetchChatPage_answered lib (lo_includeSubAgents options) response s of
        (Inl e, s1) \<Rightarrow> (Inl e, s1)
      | (Inr page, s1) \<Rightarrow> (Inr (lp_chats page), rememberChats (cl_cmp lib) now (lp_chats page) options s1))"


section \<open>The loop over all pages\<close>

record all_loop =
  al_cursor :: "string option"
  al_chats :: "chat_summary list"
  al_diagnostics :: "string list"
  al_partial :: bool
  al_seenCursors :: "string list"
  al_pageCount :: nat

text \<open>The loop has ended, or waits for the next page.\<close>

datatype all_next = AllDone all_loop | AllRequest all_loop

definition add_diagnostic :: "string \<Rightarrow> string list \<Rightarrow> string list" where
  "add_diagnostic d ds = (if d \<in> set ds then ds else ds @ [d])"

definition stop_early :: "string \<Rightarrow> all_loop \<Rightarrow> all_loop" where
  "stop_early d l = l\<lparr>al_diagnostics := add_diagnostic d (al_diagnostics l), al_partial := True\<rparr>"

definition truthy :: "string option \<Rightarrow> bool" where
  "truthy c \<longleftrightarrow> (case c of Some s \<Rightarrow> s \<noteq> [] | None \<Rightarrow> False)"

text \<open>From the head of the loop to the request of a page.\<close>

definition all_head :: "all_loop \<Rightarrow> all_next" where
  "all_head l =
     (if al_pageCount l \<ge> MAX_CHAT_LIST_PAGES then AllDone (stop_early ''Chat listing reached the 32-page safety limit.'' l)
      else if truthy (al_cursor l) \<and> the (al_cursor l) \<in> set (al_seenCursors l)
      then AllDone (stop_early ''Chat listing repeated a page cursor.'' l)
      else AllRequest (l\<lparr>al_seenCursors := al_seenCursors l @ (if truthy (al_cursor l) then [the (al_cursor l)] else []),
                         al_pageCount := al_pageCount l + 1\<rparr>))"

text \<open>From the answer to the next request or the end.\<close>

definition all_page :: "(string \<Rightarrow> string \<Rightarrow> int) \<Rightarrow> list_page \<Rightarrow> all_loop \<Rightarrow> all_next" where
  "all_page cmp page l =
     (let chats = mergeChatSummariesById cmp (al_chats l) (lp_chats page);
          l1 = l\<lparr>al_chats := chats, al_diagnostics := fold add_diagnostic (lp_diagnostics page) (al_diagnostics l),
                 al_partial := al_partial l \<or> lp_partial page, al_cursor := lp_nextCursor page\<rparr>
      in if truthy (lp_nextCursor page) \<and> length chats = length (al_chats l)
         then AllDone (stop_early ''Chat listing made no progress on a page.'' l1)
         else if truthy (lp_nextCursor page) then all_head l1 else AllDone l1)"

definition loop_left :: "all_next \<Rightarrow> nat" where
  "loop_left n = (case n of AllDone _ \<Rightarrow> 0 | AllRequest l \<Rightarrow> 1 + (MAX_CHAT_LIST_PAGES + 1 - al_pageCount l))"

lemma all_page_left: "loop_left (all_page cmp page l) < loop_left (AllRequest l)"
  by (auto simp: loop_left_def all_page_def all_head_def stop_early_def Let_def)

text \<open>
  The whole loop; \<open>answers n\<close> is what the bridge gives for page \<open>n\<close>. Each page is mapped as
  \<open>fetchChatPage\<close> does it, which remembers the titles of its threads.
\<close>

function fetchAllChats_loop ::
  "client_lib \<Rightarrow> bool \<Rightarrow> (nat \<Rightarrow> client_error + (string, json) jsmap) \<Rightarrow> all_next \<Rightarrow> api_client \<Rightarrow>
   (client_error + all_loop) \<times> api_client" where
  "fetchAllChats_loop lib includeSubAgents answers (AllDone l) s = (Inr l, s)"
| "fetchAllChats_loop lib includeSubAgents answers (AllRequest l) s =
     (case answers (al_pageCount l) of
        Inl e \<Rightarrow> (Inl e, s)
      | Inr response \<Rightarrow>
          (case fetchChatPage_answered lib includeSubAgents response s of
             (Inl e, s1) \<Rightarrow> (Inl e, s1)
           | (Inr page, s1) \<Rightarrow>
               fetchAllChats_loop lib includeSubAgents answers (all_page (cl_cmp lib) page l) s1))"
  by pat_completeness auto

termination
  by (relation "measure (\<lambda>(_, _, _, n, _). loop_left n)") (auto intro: all_page_left)

definition all_start :: all_loop where
  "all_start = \<lparr>al_cursor = None, al_chats = [], al_diagnostics = [], al_partial = False, al_seenCursors = [], al_pageCount = 0\<rparr>"

definition fetchAllChats ::
  "client_lib \<Rightarrow> rat \<Rightarrow> bool \<Rightarrow> (nat \<Rightarrow> client_error + (string, json) jsmap) \<Rightarrow> api_client \<Rightarrow>
   (client_error + list_result) \<times> api_client" where
  "fetchAllChats lib now includeSubAgents answers s =
     (case fetchAllChats_loop lib includeSubAgents answers (all_head all_start) s of
        (Inl e, s1) \<Rightarrow> (Inl e, s1)
      | (Inr l, s1) \<Rightarrow>
          let result = \<lparr>lr_chats = al_chats l, lr_diagnostics = al_diagnostics l, lr_partial = al_partial l\<rparr>
          in (Inr result, s1\<lparr>ac_allChatListCache :=
                map_put (allChatListCacheKey includeSubAgents) \<lparr>ce_value = result, ce_loadedAt = now\<rparr> (ac_allChatListCache s1)\<rparr>))"


section \<open>Reading a thread\<close>

definition isRpcInvalidParamsError :: "client_error \<Rightarrow> bool" where
  "isRpcInvalidParamsError e = (case e of RpcFailure c _ \<Rightarrow> c = -32602 | _ \<Rightarrow> False)"

definition isMaterializationGapError :: "client_error \<Rightarrow> bool" where
  "isMaterializationGapError e =
     (case e of
        RpcFailure c message \<Rightarrow>
          c = -32602 \<and> str_includes message ''includeTurns'' \<and>
          (str_includes message ''material'' \<or> str_includes message ''materialis'')
      | _ \<Rightarrow> False)"

definition isTransientThreadReadError :: "client_error \<Rightarrow> bool" where
  "isTransientThreadReadError e =
     (case e of
        RpcFailure c text \<Rightarrow>
          c = -32603 \<and>
          (let message = to_lower text
           in str_includes message ''failed to read thread'' \<and> str_includes message ''thread-store internal error'' \<and>
              str_includes message ''rollout'' \<and> str_includes message ''is empty'')
      | _ \<Rightarrow> False)"

definition TRANSIENT_THREAD_READ_RETRY_DELAYS_MS :: "nat list" where
  "TRANSIENT_THREAD_READ_RETRY_DELAYS_MS = [50, 100, 200, 400, 800]"

text \<open>The result and the delays that were waited for; \<open>answers n\<close> is the outcome of attempt \<open>n\<close>.\<close>

fun read_attempts :: "nat list \<Rightarrow> nat \<Rightarrow> (nat \<Rightarrow> client_error + 'a) \<Rightarrow> (client_error + 'a) \<times> nat list" where
  "read_attempts delays attempt answers =
     (case answers attempt of
        Inr v \<Rightarrow> (Inr v, [])
      | Inl e \<Rightarrow>
          if \<not> isTransientThreadReadError e then (Inl e, [])
          else (case delays of
                  [] \<Rightarrow> (Inl e, [])
                | d # ds \<Rightarrow> let (r, waited) = read_attempts ds (attempt + 1) answers in (r, d # waited)))"

declare read_attempts.simps [simp del]

definition readAppServerThread :: "(nat \<Rightarrow> client_error + 'a) \<Rightarrow> (client_error + 'a) \<times> nat list" where
  "readAppServerThread answers = read_attempts TRANSIENT_THREAD_READ_RETRY_DELAYS_MS 0 answers"

definition preserveCachedTranscript :: "chat option \<Rightarrow> chat \<Rightarrow> chat" where
  "preserveCachedTranscript cached latest =
     (case cached of
        None \<Rightarrow> latest
      | Some c \<Rightarrow>
          if ct_id c \<noteq> ct_id latest \<or> ct_messages c = [] \<or> ct_messages latest \<noteq> [] then latest
          else latest\<lparr>ct_lastMessagePreview := (if ct_lastMessagePreview latest \<noteq> [] then ct_lastMessagePreview latest else ct_lastMessagePreview c),
                      ct_messages := ct_messages c\<rparr>)"

text \<open>
  \<open>readChatSnapshot\<close> with the outcome of the read with turns (\<^const>\<open>None\<close> as its value stands for a response without thread), and of the read
  without turns that follows a materialisation gap; the client may have changed in between.
\<close>

definition readChatSnapshot_with_turns ::
  "client_lib \<Rightarrow> rat \<Rightarrow> client_error + json option \<Rightarrow> api_client \<Rightarrow> (client_error + raw_thread \<times> chat) \<times> api_client" where
  "readChatSnapshot_with_turns lib now response s =
     (case response of
        Inl e \<Rightarrow> (Inl e, s)
      | Inr thread \<Rightarrow>
          let raw = toRawThread (cl_vb lib) (cl_dp lib) thread;
              (c, s1) = mapChatWithCachedTitle lib now raw s
          in (map_sum id (Pair raw) c, s1))"

definition readChatSnapshot_without_turns ::
  "client_lib \<Rightarrow> rat \<Rightarrow> string \<Rightarrow> client_error + json option \<Rightarrow> api_client \<Rightarrow> (client_error + raw_thread \<times> chat) \<times> api_client" where
  "readChatSnapshot_without_turns lib now i response s =
     (case response of
        Inl e \<Rightarrow> (Inl e, s)
      | Inr thread \<Rightarrow>
          let raw = toRawThread (cl_vb lib) (cl_dp lib) thread; cached = peekChat i s; s1 = rememberRawThreadTitle raw s
          in case mapChat (cl_vb lib) (cl_ml lib) (cl_rows lib) raw of
               Inl e \<Rightarrow> (Inl (MapFailure e), s1)
             | Inr mapped \<Rightarrow>
                 let c = preserveCachedTranscript cached (applyRememberedTitle s1 mapped)
                 in (Inr (raw, c), rememberChat now c s1))"

definition getChat_answered :: "rat \<Rightarrow> chat \<Rightarrow> api_client \<Rightarrow> api_client" where
  "getChat_answered now c s = rememberChat now c s"

text \<open>The spread of a mapped summary over a chat keeps the fields of the last run, which the summary does not have.\<close>

definition with_run_fields :: "chat \<Rightarrow> chat \<Rightarrow> chat" where
  "with_run_fields cached c = c\<lparr>
     ct_lastRunStartedAt := ct_lastRunStartedAt cached, ct_lastRunFinishedAt := ct_lastRunFinishedAt cached,
     ct_lastRunDurationMs := ct_lastRunDurationMs cached, ct_lastRunExitCode := ct_lastRunExitCode cached,
     ct_lastRunTimedOut := ct_lastRunTimedOut cached\<rparr>"

definition getChatSummary_answered ::
  "client_lib \<Rightarrow> rat \<Rightarrow> json option \<Rightarrow> api_client \<Rightarrow> (client_error + chat_summary) \<times> api_client" where
  "getChatSummary_answered lib now thread s =
     (let raw = toRawThread (cl_vb lib) (cl_dp lib) thread; s1 = rememberRawThreadTitle raw s
      in case mapChatSummary (cl_vb lib) (cl_ml lib) raw of
           Inl e \<Rightarrow> (Inl (MapFailure e), s1)
         | Inr None \<Rightarrow> (Inl (OtherFailure ''chat id missing in app-server response''), s1)
         | Inr (Some mapped) \<Rightarrow>
             let summary = applyRememberedTitle s1 mapped;
                 c = (case peekChat (ct_id summary) s1 of
                        Some cached \<Rightarrow> with_run_fields cached (chat_summary.extend summary (chat_summary.more cached))
                      | None \<Rightarrow> chatShellFromSummary summary)
             in (Inr summary, rememberChat now c s1))"

end
