(* ===== verification/ClientCorrect.thy ===== *)
theory ClientCorrect
  imports ClientReads JsSort
begin

text \<open>
  What the caches of the bridge client promise: a forgotten chat is in no cache, a remembered one is the same in all,
  concurrent readers share one request (the locale \<open>single_flight\<close>, interpreted for the four cached reads), the
  listing of all chats ends and says whether it is complete, and a failed read of a thread is repeated within bounds.
\<close>

section \<open>Forgetting and remembering a chat\<close>

lemma map_get_on_values [simp]: "map_get (on_values f m) k = map_option f (map_get m k)"
  by (induction m) (auto simp: on_values_def)

lemma find_without: "List.find (\<lambda>c. ct_id c = j) (without_chat i l) = (if j = i then None else List.find (\<lambda>c. ct_id c = j) l)"
  by (induction l) (auto simp: without_chat_def)

lemma first_some_simps [simp]:
  "first_some f [] = None" "first_some f (x # xs) = (case f x of Some y \<Rightarrow> Some y | None \<Rightarrow> first_some f xs)"
  by (simp_all add: first_some_def map_filter_simps split: option.split)

lemma find_chat_without: "find_chat j (map (without_chat i) ls) = (if j = i then None else find_chat j ls)"
  by (induction ls) (auto simp: find_chat_def find_without split: option.split)

lemma lists_on_values:
  "map (ce_value \<circ> snd) (on_values (in_list f) m) = map f (map (ce_value \<circ> snd) m)"
  "map (lr_chats \<circ> ce_value \<circ> snd) (on_values (in_result f) m') = map f (map (lr_chats \<circ> ce_value \<circ> snd) m')"
  by (auto simp: on_values_def in_list_def in_result_def)

text \<open>
  C28. When a chat has been deleted, no cache knows it any more: it is not found by its id, and every
  cached list is the former one without it. All other chats are found as before.
\<close>

theorem forgotten_chat:
  "let s' = forgetChat i s; t = trim i
   in if t = [] then s' = s
      else peekChat i s' = None \<and> peekChatSummary i s' = None \<and> peekChatShell i s' = None \<and>
        (\<forall>options. peekChats options s' = map_option (without_chat t) (peekChats options s)) \<and>
        (\<forall>b. peekAllChats b s' = map_option (without_chat t) (peekAllChats b s)) \<and>
        (\<forall>j. if trim j = t then True
             else peekChat j s' = peekChat j s \<and> peekChatSummary j s' = peekChatSummary j s \<and> peekChatShell j s' = peekChatShell j s)"
proof (cases "trim i = []")
  case True
  then show ?thesis by (simp add: forgetChat_def)
next
  case False
  let ?s = "forgetChat i s"
  have eq: "?s = s\<lparr>ac_chatCache := map_del (trim i) (ac_chatCache s), ac_renamedTitles := map_del (trim i) (ac_renamedTitles s),
      ac_chatListCache := on_values (in_list (without_chat (trim i))) (ac_chatListCache s),
      ac_allChatListCache := on_values (in_result (without_chat (trim i))) (ac_allChatListCache s)\<rparr>"
    using False by (simp add: forgetChat_def Let_def)
  have cache: "ac_chatCache ?s = map_del (trim i) (ac_chatCache s)" by (simp add: eq)
  have lists: "map (ce_value \<circ> snd) (ac_chatListCache ?s) = map (without_chat (trim i)) (map (ce_value \<circ> snd) (ac_chatListCache s))"
    "map (lr_chats \<circ> ce_value \<circ> snd) (ac_allChatListCache ?s) =
       map (without_chat (trim i)) (map (lr_chats \<circ> ce_value \<circ> snd) (ac_allChatListCache s))"
    unfolding eq by (simp_all add: lists_on_values del: map_map)
  have chat: "peekChat j ?s = (if trim j = trim i then None else peekChat j s)" for j
    by (simp add: eq peekChat_def map_get_del)
  moreover have summary: "peekChatSummary j ?s = (if trim j = trim i then None else peekChatSummary j s)" for j
    unfolding peekChatSummary_def Let_def lists find_chat_without cache by (simp add: map_get_del split: option.split)
  moreover have "peekChatShell j ?s = (if trim j = trim i then None else peekChatShell j s)" for j
    unfolding peekChatShell_def chat summary by simp
  moreover have "peekChats options ?s = map_option (without_chat (trim i)) (peekChats options s)" for options
    by (simp add: eq peekChats_def option.map_comp comp_def in_list_def)
  moreover have "peekAllChats b ?s = map_option (without_chat (trim i)) (peekAllChats b s)" for b
    by (simp add: eq peekAllChats_def option.map_comp comp_def in_result_def)
  ultimately show ?thesis using False by (simp add: Let_def)
qed

lemma map_ids_replace: "map ct_id (replace_chat c l) = map ct_id l"
  by (induction l) auto

lemma find_replace:
  "List.find (\<lambda>x. ct_id x = j) (replace_chat c l) =
     (if j = ct_id c \<and> List.find (\<lambda>x. ct_id x = j) l \<noteq> None then Some c else List.find (\<lambda>x. ct_id x = j) l)"
  by (induction l) auto

lemma find_chat_replace: "j \<noteq> ct_id c \<Longrightarrow> find_chat j (map (replace_chat c) ls) = find_chat j ls"
  by (induction ls) (auto simp: find_chat_def find_replace split: option.split)

lemma cloneChatSummary_id [simp]: "ct_id (cloneChatSummary c) = ct_id c"
  by (simp add: cloneChatSummary_def chat_summary.truncate_def)

text \<open>
  When a chat has been read or changed, every cache has its new state: it is found under its id, in every
  cached list that has the chat its first entry is the new summary, the lists keep their length and order, and all other chats are
  found as before.
\<close>

theorem remembered_chat:
  "let s' = rememberChat now c s; find = List.find (\<lambda>x. ct_id x = ct_id c)
   in (if trim (ct_id c) = ct_id c then peekChat (ct_id c) s' = Some c else True) \<and>
      (if trim (ct_id c) = ct_id c \<and> ct_id c \<noteq> [] then peekChatSummary (ct_id c) s' = Some (cloneChatSummary c) else True) \<and>
      (\<forall>options. map_option (map ct_id) (peekChats options s') = map_option (map ct_id) (peekChats options s) \<and>
         map_option find (peekChats options s') = map_option (map_option (\<lambda>_. cloneChatSummary c) \<circ> find) (peekChats options s)) \<and>
      (\<forall>b. map_option (map ct_id) (peekAllChats b s') = map_option (map ct_id) (peekAllChats b s) \<and>
         map_option find (peekAllChats b s') = map_option (map_option (\<lambda>_. cloneChatSummary c) \<circ> find) (peekAllChats b s)) \<and>
      (\<forall>j. if trim j = ct_id c then True else peekChat j s' = peekChat j s \<and> peekChatSummary j s' = peekChatSummary j s)"
proof -
  let ?s = "rememberChat now c s" and ?find = "List.find (\<lambda>x. ct_id x = ct_id c)"
  have cache: "ac_chatCache ?s = map_put (ct_id c) \<lparr>ce_value = c, ce_loadedAt = now\<rparr> (ac_chatCache s)" by (simp add: rememberChat_def)
  have lists: "map (ce_value \<circ> snd) (ac_chatListCache ?s) = map (replace_chat (cloneChatSummary c)) (map (ce_value \<circ> snd) (ac_chatListCache s))"
    "map (lr_chats \<circ> ce_value \<circ> snd) (ac_allChatListCache ?s) =
       map (replace_chat (cloneChatSummary c)) (map (lr_chats \<circ> ce_value \<circ> snd) (ac_allChatListCache s))"
    unfolding rememberChat_def by (simp_all add: lists_on_values del: map_map)
  have found: "?find (replace_chat (cloneChatSummary c) l) = map_option (\<lambda>_. cloneChatSummary c) (?find l)" for l
    by (cases "?find l") (simp_all add: find_replace)
  have "trim (ct_id c) = ct_id c \<Longrightarrow> peekChat (ct_id c) ?s = Some c"
    by (simp add: rememberChat_def peekChat_def map_get_put)
  moreover have "trim (ct_id c) = ct_id c \<Longrightarrow> ct_id c \<noteq> [] \<Longrightarrow> peekChatSummary (ct_id c) ?s = Some (cloneChatSummary c)"
    by (simp add: rememberChat_def peekChatSummary_def map_get_put)
  moreover have "peekChats options ?s = map_option (replace_chat (cloneChatSummary c)) (peekChats options s)" for options
    by (simp add: rememberChat_def peekChats_def option.map_comp comp_def in_list_def)
  moreover have "peekAllChats b ?s = map_option (replace_chat (cloneChatSummary c)) (peekAllChats b s)" for b
    by (simp add: rememberChat_def peekAllChats_def option.map_comp comp_def in_result_def)
  moreover have "trim j \<noteq> ct_id c \<Longrightarrow> peekChat j ?s = peekChat j s" for j
    by (simp add: rememberChat_def peekChat_def map_get_put)
  moreover have "trim j \<noteq> ct_id c \<Longrightarrow> peekChatSummary j ?s = peekChatSummary j s" for j
    unfolding peekChatSummary_def Let_def lists cache by (simp add: map_get_put find_chat_replace del: map_map split: option.split)
  ultimately show ?thesis
    by (simp add: Let_def option.map_comp comp_def map_ids_replace found)
qed

text \<open>
  A list that was requested before a deletion and arrives after it brings the deleted chat back.
\<close>

lemma first_some_NoneD: "first_some f xs = None \<Longrightarrow> x \<in> set xs \<Longrightarrow> f x = None"
  by (induction xs) (auto split: option.splits)

lemma stale_list_resurrects:
  assumes "fetchChatPage_answered lib (lo_includeSubAgents options) response (forgetChat i s) = (Inr page, s1)"
    "c \<in> set (lp_chats page)" "ct_id c = trim i" "trim i \<noteq> []"
  shows "peekChatSummary i (snd (fetchChats_answered lib now options response (forgetChat i s))) \<noteq> None"
proof -
  let ?s = "rememberChats (cl_cmp lib) now (lp_chats page) options s1"
  have list: "map_get (ac_chatListCache ?s) (chatListCacheKey options) = Some \<lparr>ce_value = lp_chats page, ce_loadedAt = now\<rparr>"
    by (simp add: rememberChats_def Let_def mergeIntoAllChatListCaches_def map_get_put)
  then have "lp_chats page \<in> set (map (ce_value \<circ> snd) (ac_chatListCache ?s))"
    by (force dest: map_of_SomeD)
  moreover have "List.find (\<lambda>c. ct_id c = trim i) (lp_chats page) \<noteq> None"
    using assms(2,3) by (auto simp: find_None_iff)
  ultimately have "find_chat (trim i) (map (ce_value \<circ> snd) (ac_chatListCache ?s)) \<noteq> None"
    unfolding find_chat_def by (metis first_some_NoneD)
  then obtain y where y: "find_chat (trim i) (map (ce_value \<circ> snd) (ac_chatListCache ?s)) = Some y" by blast
  have "peekChatSummary i ?s \<noteq> None" using assms(4) unfolding peekChatSummary_def Let_def y by (simp split: option.split)
  moreover have "snd (fetchChats_answered lib now options response (forgetChat i s)) = ?s"
    using assms(1) by (simp add: fetchChats_answered_def)
  ultimately show ?thesis by simp
qed

text \<open>The cache does not tell the lists of different agents apart.\<close>

lemma list_of_other_agent:
  assumes "lo_agentId theirs \<noteq> lo_agentId ours" "theirs = ours\<lparr>lo_agentId := a\<rparr>" "\<not> lo_forceRefresh ours" "lo_cacheTtlMs ours = Some t" "0 < t"
  shows "fst (listChats ours now (rememberChats cmp now chats theirs s)) = Hit chats"
proof -
  have "chatListCacheKey theirs = chatListCacheKey ours" by (simp add: assms(2) chatListCacheKey_def list_limit_def split: option.split)
  then show ?thesis
    using assms(3-5) by (simp add: listChats_def rememberChats_def mergeIntoAllChatListCaches_def cached_value_def Let_def map_get_put)
qed


section \<open>One request at a time\<close>

text \<open>
  The state of a session of cached reads: open requests and answered ones whose \<open>finally\<close> has not run, each with its key, and
  the requests that callers wait for.
\<close>

record ('k, 's) flight_run =
  fr_state :: 's
  fr_open :: "(nat \<times> 'k) list"
  fr_done :: "(nat \<times> 'k) list"
  fr_waiting :: "nat list"

text \<open>
  The steps of a session. \<open>other\<close> is everything else that happens to the client: it may send requests of other
  kinds and change the caches, but not the in-flight map of these reads.
\<close>

inductive flight_step ::
  "('c \<Rightarrow> 's \<Rightarrow> 'v read \<times> 's) \<Rightarrow> ('c \<Rightarrow> 'k) \<Rightarrow> ('k \<Rightarrow> 's \<Rightarrow> 's) \<Rightarrow> ('s \<Rightarrow> ('k, nat) jsmap) \<Rightarrow> ('s \<Rightarrow> nat) \<Rightarrow>
   ('k, 's) flight_run \<Rightarrow> ('k, 's) flight_run \<Rightarrow> bool"
  for call key cleanup flights requests
where
  hit: "call c (fr_state f) = (Hit v, s') \<Longrightarrow> flight_step call key cleanup flights requests f (f\<lparr>fr_state := s'\<rparr>)"
| join: "call c (fr_state f) = (Await r, s') \<Longrightarrow>
    flight_step call key cleanup flights requests f
      (f\<lparr>fr_state := s', fr_waiting := (if r \<in> fst ` set (fr_open f) then r # fr_waiting f else fr_waiting f)\<rparr>)"
| send: "call c (fr_state f) = (Sent r, s') \<Longrightarrow>
    flight_step call key cleanup flights requests f
      (f\<lparr>fr_state := s', fr_open := (r, key c) # fr_open f, fr_waiting := r # fr_waiting f\<rparr>)"
| answer: "(r, k) \<in> set (fr_open f) \<Longrightarrow> flights s' = flights (fr_state f) \<Longrightarrow> requests (fr_state f) \<le> requests s' \<Longrightarrow>
    flight_step call key cleanup flights requests f
      (f\<lparr>fr_state := s', fr_open := removeAll (r, k) (fr_open f), fr_done := (r, k) # fr_done f, fr_waiting := removeAll r (fr_waiting f)\<rparr>)"
| finish: "(r, k) \<in> set (fr_done f) \<Longrightarrow>
    flight_step call key cleanup flights requests f (f\<lparr>fr_state := cleanup k (fr_state f), fr_done := removeAll (r, k) (fr_done f)\<rparr>)"
| other: "flights s' = flights (fr_state f) \<Longrightarrow> requests (fr_state f) \<le> requests s' \<Longrightarrow>
    flight_step call key cleanup flights requests f (f\<lparr>fr_state := s'\<rparr>)"

inductive_cases flight_stepE: "flight_step call key cleanup flights requests f f'"

text \<open>The contract of a cached read that shares its requests.\<close>

locale single_flight =
  fixes call :: "'c \<Rightarrow> 's \<Rightarrow> 'v read \<times> 's"
    and key :: "'c \<Rightarrow> 'k"
    and cleanup :: "'k \<Rightarrow> 's \<Rightarrow> 's"
    and flights :: "'s \<Rightarrow> ('k, nat) jsmap"
    and requests :: "'s \<Rightarrow> nat"
  assumes call_hit: "call c s = (Hit v, s') \<Longrightarrow> s' = s"
    and call_join: "call c s = (Await r, s') \<Longrightarrow> s' = s \<and> map_get (flights s) (key c) = Some r"
    and call_send: "call c s = (Sent r, s') \<Longrightarrow>
      r = requests s \<and> requests s' = Suc r \<and> map_get (flights s) (key c) = None \<and> flights s' = map_put (key c) r (flights s)"
    and call_cleanup: "flights (cleanup k s) = map_del k (flights s) \<and> requests (cleanup k s) = requests s"
begin

abbreviation step :: "('k, 's) flight_run \<Rightarrow> ('k, 's) flight_run \<Rightarrow> bool" where
  "step \<equiv> flight_step call key cleanup flights requests"

definition flight_inv :: "('k, 's) flight_run \<Rightarrow> bool" where
  "flight_inv f \<longleftrightarrow>
     (\<forall>k r. map_get (flights (fr_state f)) k = Some r \<longleftrightarrow> (r, k) \<in> set (fr_open f) \<union> set (fr_done f)) \<and>
     set (fr_open f) \<inter> set (fr_done f) = {} \<and>
     (\<forall>k r. (r, k) \<in> set (fr_open f) \<union> set (fr_done f) \<longrightarrow> r < requests (fr_state f)) \<and>
     set (fr_waiting f) \<subseteq> fst ` set (fr_open f)"

lemma step_inv:
  assumes "flight_inv f" "step f f'"
  shows "flight_inv f'"
  using assms(2)
proof cases
  case (hit c v s')
  then show ?thesis using assms(1) call_hit [OF hit(2)] by (simp add: flight_inv_def)
next
  case (join c r s')
  then show ?thesis using assms(1) call_join [OF join(2)] by (simp add: flight_inv_def)
next
  case (send c r s')
  note s = call_send [OF send(2)]
  have fresh: "(r, k) \<notin> set (fr_open f) \<union> set (fr_done f)" for k
    using assms(1) s by (fastforce simp: flight_inv_def)
  have none: "(r', key c) \<notin> set (fr_open f) \<union> set (fr_done f)" for r'
    using assms(1) s by (metis flight_inv_def option.distinct(1))
  have "map_get (flights s') k = Some r' \<longleftrightarrow> (r', k) \<in> set ((r, key c) # fr_open f) \<union> set (fr_done f)" for k r'
    using assms(1) s none by (cases "k = key c") (auto simp: flight_inv_def map_get_put)
  moreover have "a < requests s'" if "(a, b) \<in> set ((r, key c) # fr_open f) \<union> set (fr_done f)" for a b
    using that assms(1) s by (auto simp: flight_inv_def less_Suc_eq)
  moreover have "set ((r, key c) # fr_open f) \<inter> set (fr_done f) = {}" "set (r # fr_waiting f) \<subseteq> fst ` set ((r, key c) # fr_open f)"
    using assms(1) fresh by (auto simp: flight_inv_def)
  ultimately show ?thesis using send(1) by (simp add: flight_inv_def)
next
  case (answer r k s')
  have waiting: "set (fr_waiting f) \<subseteq> fst ` set (fr_open f)" using assms(1) by (simp add: flight_inv_def)
  have "set (removeAll (r, k) (fr_open f)) \<union> set ((r, k) # fr_done f) = set (fr_open f) \<union> set (fr_done f)"
    using answer(2) by auto
  moreover have "set (removeAll (r, k) (fr_open f)) \<inter> set ((r, k) # fr_done f) = {}" using assms(1) by (auto simp: flight_inv_def)
  moreover have "set (removeAll r (fr_waiting f)) \<subseteq> fst ` set (removeAll (r, k) (fr_open f))"
    using waiting by force
  moreover have "a < requests s'" if "(a, b) \<in> set (fr_open f) \<union> set (fr_done f)" for a b
    using that assms(1) answer(4) unfolding flight_inv_def by (meson order.strict_trans2)
  ultimately show ?thesis using assms(1) answer(1,3) unfolding flight_inv_def by simp
next
  case (finish r k)
  note s = call_cleanup [of k "fr_state f"]
  have only: "(r', k) \<in> set (fr_open f) \<union> set (fr_done f) \<longleftrightarrow> r' = r" for r'
    using assms(1) finish(2) unfolding flight_inv_def by (metis UnI2 option.inject)
  moreover have "(r', k) \<notin> set (fr_open f)" for r'
    using only [of r'] finish(2) assms(1) by (auto simp: flight_inv_def)
  ultimately show ?thesis using assms(1) s finish(1,2) by (auto simp: flight_inv_def map_get_del)
next
  case (other s')
  then show ?thesis using assms(1) unfolding flight_inv_def by simp (meson order.strict_trans2)
qed

lemma run_inv: "step\<^sup>*\<^sup>* f f' \<Longrightarrow> flight_inv f \<Longrightarrow> flight_inv f'"
  by (induction rule: rtranclp_induct) (auto intro: step_inv)

lemma start_inv: "flights s = [] \<Longrightarrow> flight_inv \<lparr>fr_state = s, fr_open = [], fr_done = [], fr_waiting = []\<rparr>"
  by (simp add: flight_inv_def)

lemma one_request:
  assumes "flights s = []" "step\<^sup>*\<^sup>* \<lparr>fr_state = s, fr_open = [], fr_done = [], fr_waiting = []\<rparr> f"
  shows "(r, k) \<in> set (fr_open f) \<Longrightarrow> (r', k) \<in> set (fr_open f) \<Longrightarrow> r = r'"
    "r \<in> set (fr_waiting f) \<Longrightarrow> \<exists>k. (r, k) \<in> set (fr_open f)"
    "(r, key c) \<in> set (fr_open f) \<Longrightarrow> call c (fr_state f) = (out, s') \<Longrightarrow> (\<exists>v. out = Hit v) \<or> out = Await r"
proof -
  have inv: "flight_inv f" using run_inv [OF assms(2) start_inv [OF assms(1)]] .
  then show "(r, k) \<in> set (fr_open f) \<Longrightarrow> (r', k) \<in> set (fr_open f) \<Longrightarrow> r = r'"
    unfolding flight_inv_def by (metis UnI1 option.inject)
  show "r \<in> set (fr_waiting f) \<Longrightarrow> \<exists>k. (r, k) \<in> set (fr_open f)" using inv by (force simp: flight_inv_def)
  assume open_: "(r, key c) \<in> set (fr_open f)" and out: "call c (fr_state f) = (out, s')"
  have here: "map_get (flights (fr_state f)) (key c) = Some r" using inv open_ by (auto simp: flight_inv_def)
  show "(\<exists>v. out = Hit v) \<or> out = Await r"
  proof (cases out)
    case (Await q)
    with call_join [of c "fr_state f" q s'] out here show ?thesis by simp
  next
    case (Sent q)
    with call_send [of c "fr_state f" q s'] out here show ?thesis by simp
  qed simp
qed

end


interpretation chat_reads: single_flight "\<lambda>(i, options, now). getChat i options now" "\<lambda>(i, options, now). trim i"
  getChat_finally ac_chatInFlight ac_requests
  by unfold_locales (auto simp: getChat_def getChat_finally_def Let_def split: option.splits)

interpretation chat_lists: single_flight "\<lambda>(options, now). listChats options now" "\<lambda>(options, now). chatListCacheKey options"
  listChats_finally ac_chatListInFlight ac_requests
  by unfold_locales (auto simp: listChats_def listChats_finally_def Let_def split: option.splits)

interpretation all_chat_lists: single_flight "\<lambda>(b, options, now). listAllChats b options now" "\<lambda>(b, options, now). allChatListCacheKey b"
  listAllChats_finally ac_allChatListInFlight ac_requests
  by unfold_locales (auto simp: listAllChats_def listAllChats_finally_def Let_def split: option.splits)

interpretation model_lists: single_flight "\<lambda>(agentId, now). listModelOptions agentId now" "\<lambda>(agentId, now). modelListCacheKey agentId"
  listModelOptions_finally ac_modelListInFlight ac_requests
  by unfold_locales (auto simp: listModelOptions_def listModelOptions_finally_def Let_def split: option.splits if_splits)

abbreviation chat_read_step :: "(string, api_client) flight_run \<Rightarrow> (string, api_client) flight_run \<Rightarrow> bool" where
  "chat_read_step \<equiv> flight_step (\<lambda>(i, options, now). getChat i options now) (\<lambda>(i, options, now). trim i) getChat_finally ac_chatInFlight ac_requests"

lemma getChat_hit:
  assumes "getChat i options now s = (Hit c, s')"
  shows "\<exists>e t. map_get (ac_chatCache s) (trim i) = Some e \<and> c = ce_value e \<and> \<not> ro_forceRefresh options \<and>
    ro_cacheTtlMs options = Some t \<and> now - ce_loadedAt e \<le> t"
  using assms by (auto simp: getChat_def cached_value_def Let_def max_def split: option.splits if_splits)

text \<open>
  C27. Readers of a chat share their requests, whatever else happens to the client: at most one
  request per thread is open, everybody who waits waits for an open request, so that its answer serves them all, a request is sent only when none
  is open for the thread, and an answer from the cache is no older than the reader allows.
\<close>

theorem chat_reads_shared:
  assumes "ac_chatInFlight s = []"
    "chat_read_step\<^sup>*\<^sup>* \<lparr>fr_state = s, fr_open = [], fr_done = [], fr_waiting = []\<rparr> f"
  shows "(\<forall>r r' k. if (r, k) \<in> set (fr_open f) \<and> (r', k) \<in> set (fr_open f) then r = r' else True) \<and>
    set (fr_waiting f) \<subseteq> fst ` set (fr_open f) \<and>
    (case getChat i options now (fr_state f) of
       (Hit c, _) \<Rightarrow> \<exists>e t. map_get (ac_chatCache (fr_state f)) (trim i) = Some e \<and> c = ce_value e \<and> \<not> ro_forceRefresh options \<and>
         ro_cacheTtlMs options = Some t \<and> now - ce_loadedAt e \<le> t
     | (Await r, _) \<Rightarrow> (r, trim i) \<in> set (fr_open f) \<union> set (fr_done f)
     | (Sent r, _) \<Rightarrow> trim i \<notin> snd ` set (fr_open f))"
proof -
  note one = chat_reads.one_request [OF assms(1), simplified, OF assms(2)]
  obtain out s' where out: "getChat i options now (fr_state f) = (out, s')" by (cases "getChat i options now (fr_state f)")
  have "case out of Hit c \<Rightarrow> \<exists>e t. map_get (ac_chatCache (fr_state f)) (trim i) = Some e \<and> c = ce_value e \<and> \<not> ro_forceRefresh options \<and>
         ro_cacheTtlMs options = Some t \<and> now - ce_loadedAt e \<le> t
     | Await r \<Rightarrow> (r, trim i) \<in> set (fr_open f) \<union> set (fr_done f)
     | Sent r \<Rightarrow> trim i \<notin> snd ` set (fr_open f)"
  proof (cases out)
    case (Hit c)
    then show ?thesis using getChat_hit out by simp
  next
    case (Await r)
    have "chat_reads.flight_inv f" using chat_reads.run_inv [OF assms(2) chat_reads.start_inv [OF assms(1)]] .
    moreover have "map_get (ac_chatInFlight (fr_state f)) (trim i) = Some r"
      using chat_reads.call_join [of "(i, options, now)" "fr_state f" r s'] out Await by simp
    ultimately show ?thesis unfolding Await chat_reads.flight_inv_def by simp
  next
    case (Sent r)
    then show ?thesis using one(3) [of _ "(i, options, now)" out s'] out by (force simp: image_iff)
  qed
  moreover have "set (fr_waiting f) \<subseteq> fst ` set (fr_open f)" using one(2) by force
  ultimately show ?thesis using out one(1) by (auto split: read.splits)
qed

definition demo_read :: read_options where
  "demo_read = \<lparr>ro_cacheTtlMs = None, ro_forceRefresh = False\<rparr>"

definition demo_waiting :: "(string, api_client) flight_run" where
  "demo_waiting = \<lparr>fr_state = empty_client\<lparr>ac_chatInFlight := [(''t'', 0)], ac_requests := 1\<rparr>, fr_open = [(0, ''t'')], fr_done = [], fr_waiting = [0, 0]\<rparr>"

text \<open>Two readers of a thread: the second waits for the request of the first.\<close>

theorem chat_reads_shared_witness:
  "chat_read_step\<^sup>*\<^sup>* \<lparr>fr_state = empty_client, fr_open = [], fr_done = [], fr_waiting = []\<rparr> demo_waiting \<and>
   set (fr_waiting demo_waiting) \<subseteq> fst ` set (fr_open demo_waiting) \<and>
   fst (getChat ''t'' demo_read 5 (fr_state demo_waiting)) = Await 0"
proof -
  let ?start = "\<lparr>fr_state = empty_client, fr_open = [], fr_done = [], fr_waiting = []\<rparr>"
  let ?sent = "\<lparr>fr_state = empty_client\<lparr>ac_chatInFlight := [(''t'', 0)], ac_requests := 1\<rparr>, fr_open = [(0, ''t'')], fr_done = [], fr_waiting = [0]\<rparr>"
  have t: "trim ''t'' = ''t''" by code_simp
  have first: "getChat ''t'' demo_read 0 empty_client = (Sent 0, empty_client\<lparr>ac_chatInFlight := [(''t'', 0)], ac_requests := 1\<rparr>)"
    by (simp add: getChat_def empty_client_def cached_value_def demo_read_def t)
  have again: "getChat ''t'' demo_read now (fr_state ?sent) = (Await 0, fr_state ?sent)" for now
    by (simp add: getChat_def empty_client_def cached_value_def demo_read_def t)
  have "chat_read_step ?start ?sent"
    using send [of "\<lambda>(i, options, now). getChat i options now" "(''t'', demo_read, 0)" ?start 0 _ "\<lambda>(i, options, now). trim i"] first t by simp
  moreover have "chat_read_step ?sent demo_waiting"
    using join [of "\<lambda>(i, options, now). getChat i options now" "(''t'', demo_read, 1)" ?sent 0 _ "\<lambda>(i, options, now). trim i"] again by (simp add: demo_waiting_def)
  ultimately have run: "chat_read_step\<^sup>*\<^sup>* ?start demo_waiting" by (meson rtranclp.rtrancl_into_rtrancl rtranclp.rtrancl_refl)
  have "ac_chatInFlight empty_client = []" by (simp add: empty_client_def)
  from chat_reads_shared [OF this run] have "set (fr_waiting demo_waiting) \<subseteq> fst ` set (fr_open demo_waiting)" by blast
  with run again [of 5] show ?thesis by (simp add: demo_waiting_def)
qed


section \<open>All chats\<close>

abbreviation by_id :: "chat_summary list \<Rightarrow> (string \<times> chat_summary) list" where
  "by_id l \<equiv> map (\<lambda>c. (ct_id c, c)) l"

lemma fst_by_id: "map fst (by_id l) = map ct_id l"
  by simp

lemma merged_list:
  assumes "distinct (map ct_id previous)"
  shows "distinct (map ct_id (mergeChatSummariesById cmp previous incoming))"
    "map_of (by_id (mergeChatSummariesById cmp previous incoming)) = map_of (by_id previous) ++ map_of (rev (by_id incoming))"
    "length previous \<le> length (mergeChatSummariesById cmp previous incoming)"
proof -
  let ?m = "map_by ct_id (previous @ incoming)" and ?l = "mergeChatSummariesById cmp previous incoming"
  have keyed: "keyed ct_id ?m" by (rule keyed_map_by)
  have perm: "mset ?l = mset (map snd ?m)" by (simp add: mergeChatSummariesById_def mset_js_sort)
  have "mset (map ct_id ?l) = mset (map ct_id (map snd ?m))" unfolding mset_map perm ..
  then have "mset (map ct_id ?l) = mset (map fst ?m)" by (simp only: keyed_keys [OF keyed])
  moreover have "map_wf ?m" using keyed by (simp only: keyed_def)
  ultimately show d: "distinct (map ct_id ?l)" by (metis mset_eq_imp_distinct_iff)
  have "set (by_id ?l) = set (by_id (map snd ?m))" unfolding set_map mset_eq_setD [OF perm] ..
  then have "set (by_id ?l) = set ?m" by (simp only: keyed_values [OF keyed])
  then have "map_of (by_id ?l) = map_of ?m"
    by (rule iffD2 [OF map_of_inject_set, rotated 2]) (use d keyed in \<open>simp_all only: fst_by_id keyed_def\<close>)
  also have "\<dots> = map_of (rev (by_id previous)) ++ map_of (rev (by_id incoming))"
    by (simp add: map_by_put_all put_all_get)
  also have "map_of (rev (by_id previous)) = map_of (by_id previous)"
    by (rule iffD2 [OF map_of_inject_set]) (use assms in \<open>simp_all only: rev_map [symmetric] fst_by_id distinct_rev set_rev\<close>)
  finally show *: "map_of (by_id ?l) = map_of (by_id previous) ++ map_of (rev (by_id incoming))" .
  have "ct_id ` set previous \<subseteq> ct_id ` set ?l"
  proof
    fix i assume "i \<in> ct_id ` set previous"
    then have "map_of (by_id previous) i \<noteq> None" by (auto simp: map_of_eq_None_iff image_iff)
    then have "map_of (by_id ?l) i \<noteq> None" unfolding * by (auto simp: map_add_def split: option.split)
    then show "i \<in> ct_id ` set ?l" by (auto simp: map_of_eq_None_iff image_iff)
  qed
  then have "card (ct_id ` set previous) \<le> card (ct_id ` set ?l)" by (intro card_mono) auto
  then show "length previous \<le> length ?l"
    using distinct_card [OF assms] distinct_card [OF d] by simp
qed

definition pages_read :: "(nat \<Rightarrow> client_error + list_page) \<Rightarrow> nat \<Rightarrow> list_page list" where
  "pages_read answers n = map (projr \<circ> answers) [1..<Suc n]"

definition listed :: "(nat \<Rightarrow> client_error + list_page) \<Rightarrow> nat \<Rightarrow> chat_summary list \<Rightarrow> bool" where
  "listed answers n chats \<longleftrightarrow>
     list_all (\<lambda>k. \<not> isl (answers k)) [1..<Suc n] \<and> distinct (map ct_id chats) \<and>
     map_of (by_id chats) = map_of (rev (by_id (concat (map lp_chats (pages_read answers n)))))"


lemma pages_read_Suc: "answers (Suc n) = Inr page \<Longrightarrow> pages_read answers (Suc n) = pages_read answers n @ [page]"
  by (simp add: pages_read_def)

lemma listed_merge:
  assumes "listed answers n chats" "answers (Suc n) = Inr page"
  shows "listed answers (Suc n) (mergeChatSummariesById cmp chats (lp_chats page))"
  using assms merged_list [of chats cmp "lp_chats page"] by (simp add: listed_def pages_read_Suc)

definition waits_after :: "(nat \<Rightarrow> client_error + list_page) \<Rightarrow> nat \<Rightarrow> all_loop \<Rightarrow> bool" where
  "waits_after answers n l \<longleftrightarrow>
     al_pageCount l = Suc n \<and> n < MAX_CHAT_LIST_PAGES \<and> listed answers n (al_chats l) \<and> n \<le> length (al_chats l) \<and>
     (al_partial l \<longleftrightarrow> list_ex lp_partial (pages_read answers n))"

definition ended_after :: "(nat \<Rightarrow> client_error + list_page) \<Rightarrow> nat \<Rightarrow> all_loop \<Rightarrow> bool" where
  "ended_after answers n l \<longleftrightarrow>
     0 < n \<and> n \<le> MAX_CHAT_LIST_PAGES \<and> listed answers n (al_chats l) \<and> n \<le> length (al_chats l) + 1 \<and>
     (al_partial l \<longleftrightarrow> list_ex lp_partial (pages_read answers n) \<or> truthy (lp_nextCursor (last (pages_read answers n))))"

lemma all_head_cases:
  obtains (stopped) d where "all_head l = AllDone (stop_early d l)"
  | (request) l' where "all_head l = AllRequest l'" "al_pageCount l' = Suc (al_pageCount l)" "al_pageCount l < MAX_CHAT_LIST_PAGES"
      "al_chats l' = al_chats l" "al_partial l' = al_partial l"
  by (cases "all_head l") (auto simp: all_head_def split: if_splits)

lemma all_page_next:
  assumes "waits_after answers n l" "answers (Suc n) = Inr page"
  shows "case all_page cmp page l of AllDone l' \<Rightarrow> ended_after answers (Suc n) l' | AllRequest l' \<Rightarrow> waits_after answers (Suc n) l'"
proof -
  let ?chats = "mergeChatSummariesById cmp (al_chats l) (lp_chats page)"
  define l1 where "l1 = l\<lparr>al_chats := ?chats, al_diagnostics := fold add_diagnostic (lp_diagnostics page) (al_diagnostics l),
     al_partial := al_partial l \<or> lp_partial page, al_cursor := lp_nextCursor page\<rparr>"
  have l1: "al_chats l1 = ?chats" "al_partial l1 \<longleftrightarrow> al_partial l \<or> lp_partial page" "al_pageCount l1 = Suc n"
    using assms(1) by (simp_all add: l1_def waits_after_def)
  have w: "n < MAX_CHAT_LIST_PAGES" "n \<le> length (al_chats l)" "al_partial l \<longleftrightarrow> list_ex lp_partial (pages_read answers n)"
    "length (al_chats l) \<le> length ?chats"
    using assms(1) merged_list(3) [of "al_chats l"] by (simp_all add: waits_after_def listed_def)
  have listed: "listed answers (Suc n) ?chats" using assms by (intro listed_merge) (simp_all add: waits_after_def)
  have pages: "last (pages_read answers (Suc n)) = page"
    "list_ex lp_partial (pages_read answers (Suc n)) \<longleftrightarrow> list_ex lp_partial (pages_read answers n) \<or> lp_partial page"
    using pages_read_Suc [of answers n page] assms(2) by auto
  have ended: "ended_after answers (Suc n) l'"
    if "al_chats l' = ?chats" "al_partial l' \<longleftrightarrow> al_partial l \<or> lp_partial page \<or> truthy (lp_nextCursor page)" for l'
    unfolding ended_after_def using that w listed pages by auto
  have page: "all_page cmp page l =
      (if truthy (lp_nextCursor page) \<and> length ?chats = length (al_chats l)
       then AllDone (stop_early ''Chat listing made no progress on a page.'' l1)
       else if truthy (lp_nextCursor page) then all_head l1 else AllDone l1)"
    by (simp add: all_page_def l1_def Let_def)
  show ?thesis
  proof (cases "truthy (lp_nextCursor page) \<and> length ?chats \<noteq> length (al_chats l)")
    case True
    then have head: "all_page cmp page l = all_head l1" by (simp add: page)
    show ?thesis
    proof (cases l1 rule: all_head_cases)
      case (stopped d)
      then show ?thesis using True l1 by (simp add: head stop_early_def ended)
    next
      case (request l')
      then show ?thesis using True l1 w listed pages by (auto simp: head waits_after_def)
    qed
  next
    case False
    then show ?thesis using l1 by (auto simp: page stop_early_def intro!: ended)
  qed
qed

text \<open>
  The client after the first pages have been mapped, and what the reading of a page gives there: the error of
  the request or of the mapping, or the page.
\<close>

primrec client_after ::
  "client_lib \<Rightarrow> bool \<Rightarrow> (nat \<Rightarrow> client_error + (string, json) jsmap) \<Rightarrow> api_client \<Rightarrow> nat \<Rightarrow> api_client" where
  "client_after lib b answers s 0 = s"
| "client_after lib b answers s (Suc n) =
     (case answers (Suc n) of
        Inl e \<Rightarrow> client_after lib b answers s n
      | Inr response \<Rightarrow> snd (fetchChatPage_answered lib b response (client_after lib b answers s n)))"

definition page_outcome ::
  "client_lib \<Rightarrow> bool \<Rightarrow> (nat \<Rightarrow> client_error + (string, json) jsmap) \<Rightarrow> api_client \<Rightarrow> nat \<Rightarrow> client_error + list_page" where
  "page_outcome lib b answers s n =
     (case answers n of
        Inl e \<Rightarrow> Inl e
      | Inr response \<Rightarrow> fst (fetchChatPage_answered lib b response (client_after lib b answers s (n - 1))))"

lemma titles_only_map_items: "snd (map_items lib items s)\<lparr>ac_renamedTitles := r\<rparr> = s\<lparr>ac_renamedTitles := r\<rparr>"
proof (induction items arbitrary: s)
  case (Cons item items)
  have title: "(rememberRawThreadTitle raw s)\<lparr>ac_renamedTitles := r\<rparr> = s\<lparr>ac_renamedTitles := r\<rparr>" for raw
    by (simp add: rememberRawThreadTitle_def split: option.split)
  show ?case using Cons by (simp add: Let_def title split: sum.split prod.split) (metis snd_conv title)
qed simp

lemma titles_only_client_after:
  "(client_after lib b answers s n)\<lparr>ac_renamedTitles := r\<rparr> = s\<lparr>ac_renamedTitles := r\<rparr>"
proof (induction n)
  case (Suc n)
  have "snd (fetchChatPage_answered lib b response t) = snd (map_items lib (case array_field response ''data'' of Some l \<Rightarrow> l | None \<Rightarrow> []) t)"
    for response t
    by (simp add: fetchChatPage_answered_def mapChatListItems_def Let_def split: prod.split)
  then show ?case using Suc by (simp add: titles_only_map_items split: sum.split)
qed simp

lemma loop_result:
  assumes outcome: "outcome = page_outcome lib b answers s"
  shows "case nxt of AllRequest l \<Rightarrow> waits_after outcome n l | AllDone l \<Rightarrow> ended_after outcome n l \<Longrightarrow>
   case fetchAllChats_loop lib b answers nxt (client_after lib b answers s n) of
     (Inl e, s') \<Rightarrow> \<exists>k. 0 < k \<and> k \<le> MAX_CHAT_LIST_PAGES \<and> list_all (\<lambda>j. \<not> isl (outcome j)) [1..<k] \<and>
       outcome k = Inl e \<and> s' = client_after lib b answers s k
   | (Inr l, s') \<Rightarrow> \<exists>k. ended_after outcome k l \<and> s' = client_after lib b answers s k"
proof (induction "loop_left nxt" arbitrary: n nxt rule: less_induct)
  case less
  show ?case
  proof (cases nxt)
    case (AllDone l)
    then show ?thesis using less.prems by auto
  next
    case (AllRequest l)
    then have count: "al_pageCount l = Suc n" "n < MAX_CHAT_LIST_PAGES" and w: "waits_after outcome n l"
      and before: "list_all (\<lambda>j. \<not> isl (outcome j)) [1..<Suc n]"
      using less.prems by (simp_all add: waits_after_def listed_def)
    show ?thesis
    proof (cases "answers (Suc n)")
      case (Inl e)
      then show ?thesis using count AllRequest before by (auto simp: outcome page_outcome_def intro!: exI [of _ "Suc n"])
    next
      case (Inr response)
      obtain p s1 where p: "fetchChatPage_answered lib b response (client_after lib b answers s n) = (p, s1)" by fastforce
      then have o': "outcome (Suc n) = p" "client_after lib b answers s (Suc n) = s1"
        using Inr by (simp_all add: outcome page_outcome_def)
      show ?thesis
      proof (cases p)
        case (Inl e)
        then show ?thesis using count AllRequest before Inr p o' by (auto intro!: exI [of _ "Suc n"])
      next
        case page: (Inr page)
        have "case all_page (cl_cmp lib) page l of AllRequest l' \<Rightarrow> waits_after outcome (Suc n) l'
            | AllDone l' \<Rightarrow> ended_after outcome (Suc n) l'"
          using all_page_next [OF w, of page "cl_cmp lib"] o'(1) page by (simp split: all_next.splits)
        from less.hyps [OF _ this] show ?thesis
          using AllRequest count Inr p page o'(2) all_page_left [of "cl_cmp lib" page l] by simp
      qed
    qed
  qed
qed

text \<open>
  C26. The listing of all chats ends and tells the truth about itself. It asks for at most 32 pages, whatever the bridge
  answers. If it succeeds, it has read some number of pages without an error; its chats are those of these pages,
  each id once and in the version of the last page that has it; it is marked as partial exactly if
  a page was partial or the last page names a further one; and it is what the cache of all lists holds afterwards. It fails only
  with the error of a page, the first that fails, and then nothing of the client has changed but the titles that the mapping of the
  pages read so far remembers.
\<close>

theorem all_chats_listed:
  "case fetchAllChats lib now b answers s of
     (Inl e, s') \<Rightarrow> s'\<lparr>ac_renamedTitles := ac_renamedTitles s\<rparr> = s \<and>
       (\<exists>k. 0 < k \<and> k \<le> 32 \<and> list_all (\<lambda>j. \<not> isl (page_outcome lib b answers s j)) [1..<k] \<and>
          page_outcome lib b answers s k = Inl e \<and> s' = client_after lib b answers s k)
   | (Inr result, s') \<Rightarrow>
       peekAllChats b s' = Some (lr_chats result) \<and>
       s'\<lparr>ac_renamedTitles := ac_renamedTitles s, ac_allChatListCache := ac_allChatListCache s\<rparr> = s \<and>
       (\<exists>n. 0 < n \<and> n \<le> 32 \<and> list_all (\<lambda>k. \<not> isl (page_outcome lib b answers s k)) [1..<Suc n] \<and>
          ac_renamedTitles s' = ac_renamedTitles (client_after lib b answers s n) \<and>
          distinct (map ct_id (lr_chats result)) \<and>
          map_of (by_id (lr_chats result)) =
            map_of (rev (by_id (concat (map lp_chats (pages_read (page_outcome lib b answers s) n))))) \<and>
          (lr_partial result \<longleftrightarrow> list_ex lp_partial (pages_read (page_outcome lib b answers s) n) \<or>
             truthy (lp_nextCursor (last (pages_read (page_outcome lib b answers s) n)))))"
proof -
  let ?outcome = "page_outcome lib b answers s"
  have "waits_after ?outcome 0 (all_start\<lparr>al_pageCount := 1\<rparr>)"
    by (simp add: waits_after_def all_start_def listed_def pages_read_def MAX_CHAT_LIST_PAGES_def)
  moreover have "all_head all_start = AllRequest (all_start\<lparr>al_pageCount := 1\<rparr>)"
    by (simp add: all_head_def all_start_def truthy_def MAX_CHAT_LIST_PAGES_def)
  ultimately have result: "case fetchAllChats_loop lib b answers (all_head all_start) s of
      (Inl e, s') \<Rightarrow> \<exists>k. 0 < k \<and> k \<le> MAX_CHAT_LIST_PAGES \<and> list_all (\<lambda>j. \<not> isl (?outcome j)) [1..<k] \<and>
        ?outcome k = Inl e \<and> s' = client_after lib b answers s k
    | (Inr l, s') \<Rightarrow> \<exists>k. ended_after ?outcome k l \<and> s' = client_after lib b answers s k"
    using loop_result [OF refl, where nxt = "all_head all_start" and answers = answers and n = 0 and lib = lib and b = b and s = s] by simp
  obtain r s1 where loop: "fetchAllChats_loop lib b answers (all_head all_start) s = (r, s1)" by fastforce
  have titles: "(client_after lib b answers s k)\<lparr>ac_renamedTitles := ac_renamedTitles s\<rparr> = s" for k
    by (simp add: titles_only_client_after)
  show ?thesis
  proof (cases r)
    case (Inl e)
    then show ?thesis using result titles by (auto simp: loop fetchAllChats_def MAX_CHAT_LIST_PAGES_def)
  next
    case (Inr l)
    then obtain k where k: "ended_after ?outcome k l" "s1 = client_after lib b answers s k" using result loop by auto
    define R where "R = \<lparr>lr_chats = al_chats l, lr_diagnostics = al_diagnostics l, lr_partial = al_partial l\<rparr>"
    define s' where "s' = s1\<lparr>ac_allChatListCache :=
      map_put (allChatListCacheKey b) \<lparr>ce_value = R, ce_loadedAt = now\<rparr> (ac_allChatListCache s1)\<rparr>"
    have f: "fetchAllChats lib now b answers s = (Inr R, s')" by (simp add: fetchAllChats_def loop Inr Let_def R_def s'_def)
    have "s'\<lparr>ac_renamedTitles := ac_renamedTitles s, ac_allChatListCache := ac_allChatListCache s\<rparr> =
        (s1\<lparr>ac_renamedTitles := ac_renamedTitles s\<rparr>)\<lparr>ac_allChatListCache := ac_allChatListCache s\<rparr>" by (simp add: s'_def)
    also have "\<dots> = s" by (simp add: k(2) titles)
    finally have same: "s'\<lparr>ac_renamedTitles := ac_renamedTitles s, ac_allChatListCache := ac_allChatListCache s\<rparr> = s" .
    have R: "lr_chats R = al_chats l" "lr_partial R = al_partial l" by (simp_all add: R_def)
    have "peekAllChats b s' = Some (lr_chats R)" by (simp add: peekAllChats_def s'_def map_get_put)
    moreover have "ac_renamedTitles s' = ac_renamedTitles (client_after lib b answers s k)" by (simp add: s'_def k(2))
    moreover note k(1) [unfolded ended_after_def listed_def MAX_CHAT_LIST_PAGES_def]
    ultimately show ?thesis unfolding f prod.case sum.case R using same by blast
  qed
qed


section \<open>Repeated reads\<close>

lemma read_attempts_result:
  "read_attempts delays a answers = (r, waited) \<Longrightarrow>
   (\<exists>rest. delays = waited @ rest) \<and> r = answers (a + length waited) \<and>
   (\<forall>k<length waited. \<exists>e. answers (a + k) = Inl e \<and> isTransientThreadReadError e) \<and>
   (length waited < length delays \<longrightarrow> (case r of Inl e \<Rightarrow> \<not> isTransientThreadReadError e | Inr _ \<Rightarrow> True))"
proof (induction delays arbitrary: a r waited)
  case Nil
  then show ?case by (subst (asm) read_attempts.simps) (auto split: sum.splits if_splits)
next
  case (Cons d ds)
  show ?case
  proof (cases "\<exists>e. answers a = Inl e \<and> isTransientThreadReadError e")
    case True
    then obtain e where e: "answers a = Inl e" "isTransientThreadReadError e" by blast
    obtain r' w where w: "read_attempts ds (a + 1) answers = (r', w)" by (cases "read_attempts ds (a + 1) answers")
    with Cons.prems e have "r = r'" "waited = d # w" by (subst (asm) read_attempts.simps; simp)+
    moreover have "\<exists>e. answers (a + k) = Inl e \<and> isTransientThreadReadError e" if "k < Suc (length w)" for k
      using that Cons.IH [OF w] e by (cases k) auto
    ultimately show ?thesis using Cons.IH [OF w] by auto
  next
    case False
    then have "r = answers a \<and> waited = []"
      using Cons.prems by (subst (asm) read_attempts.simps) (auto split: sum.splits if_splits)
    with False show ?thesis by (auto split: sum.split)
  qed
qed

text \<open>
  C29. A thread that the bridge cannot read for the moment is read again, at most five times and after waiting 1.55 seconds in
  all. The result is the outcome of the last attempt, all attempts before it failed for the transient reason, and unless
  the attempts are used up the last one did not.
\<close>

theorem thread_read_retries:
  "case readAppServerThread answers of
     (r, waited) \<Rightarrow>
       length waited \<le> 5 \<and> sum_list waited \<le> 1550 \<and> r = answers (length waited) \<and>
       list_all (\<lambda>k. case answers k of Inl e \<Rightarrow> isTransientThreadReadError e | Inr _ \<Rightarrow> False) [0..<length waited] \<and>
       (if length waited < 5 then (case r of Inl e \<Rightarrow> \<not> isTransientThreadReadError e | Inr _ \<Rightarrow> True) else True)"
proof -
  obtain r waited where w: "readAppServerThread answers = (r, waited)" by (cases "readAppServerThread answers")
  note result = read_attempts_result [OF w [unfolded readAppServerThread_def]]
  then obtain rest where rest: "TRANSIENT_THREAD_READ_RETRY_DELAYS_MS = waited @ rest" by blast
  have "length (waited @ rest) = 5" "sum_list (waited @ rest) = 1550"
    unfolding rest [symmetric] by (simp_all add: TRANSIENT_THREAD_READ_RETRY_DELAYS_MS_def)
  then have "length waited \<le> 5" "sum_list waited \<le> 1550" by simp_all
  moreover have "length TRANSIENT_THREAD_READ_RETRY_DELAYS_MS = 5" by (simp add: TRANSIENT_THREAD_READ_RETRY_DELAYS_MS_def)
  ultimately show ?thesis using result by (auto simp: w list_all_iff)
qed


section \<open>Transcripts\<close>

text \<open>A thread whose turns are not stored yet does not lose the transcript that was shown before.\<close>

lemma transcript_survives_gap:
  assumes "readChatSnapshot_without_turns lib now i (Inr thread) s = (Inr (raw, c), s')" "peekChat i s = Some cached"
    "ct_id c = ct_id cached" "ct_messages cached \<noteq> []"
  shows "ct_messages c \<noteq> []" "map_get (ac_chatCache s') (ct_id c) = Some \<lparr>ce_value = c, ce_loadedAt = now\<rparr>"
  using assms
  by (auto simp: readChatSnapshot_without_turns_def Let_def preserveCachedTranscript_def rememberChat_def map_get_put split: sum.splits if_splits)

end
