(* ===== verification/Attachments.thy ===== *)
theory Attachments
  imports ChatMapping
begin

text \<open>
  \<^verbatim>\<open>features/chat/helpers/attachments.ts\<close>: paths of attachments and clones, the text that stands for a prompt with
  attachments until the bridge has answered, and the comparison that recognises the prompt in the transcript
  of the bridge. Regular expressions are spelled out; \<open>draftContainsMentionLabel\<close> is not modelled.
\<close>

section \<open>Paths\<close>

definition normalizeWorkspacePath :: "string option \<Rightarrow> string option" where
  "normalizeWorkspacePath value = (case value of None \<Rightarrow> None | Some v \<Rightarrow> non_empty (Some (trim v)))"

definition getWorkspaceBrowseCacheKey :: "string option \<Rightarrow> string" where
  "getWorkspaceBrowseCacheKey path = (case path of Some p \<Rightarrow> p | None \<Rightarrow> ''__bridge_default__'')"

definition normalizeAttachmentPath :: "string option \<Rightarrow> string option" where
  "normalizeAttachmentPath value = (case value of None \<Rightarrow> None | Some v \<Rightarrow> non_empty (Some (trim v)))"

definition is_slash :: "char \<Rightarrow> bool" where
  "is_slash c \<longleftrightarrow> c = CHR ''/'' \<or> c = CHR 0x5C"

definition normalizeCloneDirectoryName :: "string option \<Rightarrow> string option" where
  "normalizeCloneDirectoryName value =
     (case value of
        None \<Rightarrow> None
      | Some v \<Rightarrow>
          let trimmed = trim v in
          if trimmed = [] \<or> trimmed = ''.'' \<or> trimmed = ''..'' then None
          else if list_ex is_slash trimmed then None else Some trimmed)"

text \<open>\<open>s.slice(max(s.lastIndexOf('/'), s.lastIndexOf(':')) + 1)\<close>\<close>

definition after_last :: "(char \<Rightarrow> bool) \<Rightarrow> string \<Rightarrow> string" where
  "after_last P s = rev (takeWhile (\<lambda>c. \<not> P c) (rev s))"

definition without_git_suffix :: "string \<Rightarrow> string" where
  "without_git_suffix s = (if ends_with (to_lower s) ''.git'' then take (length s - 4) s else s)"

definition deriveCloneDirectoryName :: "string option \<Rightarrow> string option" where
  "deriveCloneDirectoryName url =
     (case url of
        None \<Rightarrow> None
      | Some u \<Rightarrow>
          let trimmed = rev (dropWhile (\<lambda>c. c = CHR ''/'') (rev (trim u))) in
          if trimmed = [] then None
          else normalizeCloneDirectoryName
                 (Some (without_git_suffix (after_last (\<lambda>c. c = CHR ''/'' \<or> c = CHR '':'') trimmed))))"

record clone_result =
  cr_code :: "int option"
  cr_stdout :: string
  cr_stderr :: string
  cr_cloned :: bool

definition formatGitCloneFailureMessage :: "clone_result \<Rightarrow> string \<Rightarrow> string option" where
  "formatGitCloneFailureMessage result fallbackLabel =
     (if cr_cloned result \<and> (cr_code result = None \<or> cr_code result = Some 0) then None
      else let detail = trim (if cr_stderr result \<noteq> [] then cr_stderr result else cr_stdout result) in
        Some (if detail \<noteq> [] then detail else ''Git clone failed for '' @ fallbackLabel @ ''.''))"

definition joinWorkspacePath :: "string \<Rightarrow> string \<Rightarrow> string" where
  "joinWorkspacePath parentPath child =
     (let separator = (if CHR 0x5C \<in> set parentPath \<and> CHR ''/'' \<notin> set parentPath then CHR 0x5C else CHR ''/'')
      in if ends_with parentPath ''/'' \<or> ends_with parentPath [CHR 0x5C] then parentPath @ child
         else parentPath @ separator # child)"

definition is_letter :: "char \<Rightarrow> bool" where
  "is_letter c \<longleftrightarrow> (let n = of_char c :: nat in (65 \<le> n \<and> n < 91) \<or> (97 \<le> n \<and> n < 123))"

definition isAbsoluteWorkspacePath :: "string \<Rightarrow> bool" where
  "isAbsoluteWorkspacePath path \<longleftrightarrow>
     starts_with path ''/'' \<or>
     (case path of c # d # e # _ \<Rightarrow> is_letter c \<and> d = CHR '':'' \<and> is_slash e | _ \<Rightarrow> False)"

definition resolveMentionPath :: "string \<Rightarrow> string option \<Rightarrow> string" where
  "resolveMentionPath path workspace =
     (case normalizeAttachmentPath (Some path) of
        None \<Rightarrow> path
      | Some p \<Rightarrow>
          if isAbsoluteWorkspacePath p then p
          else (case normalizeWorkspacePath workspace of None \<Rightarrow> p | Some w \<Rightarrow> joinWorkspacePath w p))"

text \<open>\<open>s.split(/[\\/]/).filter(Boolean)\<close>\<close>

definition path_segments :: "string \<Rightarrow> string list" where
  "path_segments s = filter (\<lambda>x. x \<noteq> []) (concat (map (split_on (CHR 0x5C)) (split_on (CHR ''/'') s)))"

record mention_input =
  mi_path :: string
  mi_name :: "string option"

definition toMentionInput :: "string \<Rightarrow> string option \<Rightarrow> mention_input" where
  "toMentionInput path workspace =
     (let resolved = resolveMentionPath path workspace
      in \<lparr>mi_path = resolved, mi_name = Some (case last_of (path_segments resolved) of Some s \<Rightarrow> s | None \<Rightarrow> resolved)\<rparr>)"

definition toPathBasename :: "string \<Rightarrow> string" where
  "toPathBasename path =
     (let normalized = trim path in
      if normalized = [] then ''image''
      else (case last_of (path_segments normalized) of Some s \<Rightarrow> s | None \<Rightarrow> normalized))"

definition escapeRegex :: "string \<Rightarrow> string" where
  "escapeRegex value =
     concat (map (\<lambda>c. if c \<in> set ''.*+?^${}()|[]'' \<or> c = CHR 0x5C then [CHR 0x5C, c] else [c]) value)"


section \<open>Prompts that the bridge has not confirmed yet\<close>

definition toOptimisticUserContent :: "string \<Rightarrow> mention_input list \<Rightarrow> string list \<Rightarrow> string" where
  "toOptimisticUserContent content mentions localImages =
     (if mentions = [] \<and> localImages = [] then content
      else join NL (content # map (\<lambda>m. ''[file: '' @ mi_path m @ '']'') mentions
                            @ map (\<lambda>path. ''[local image: '' @ path @ '']'') localImages))"

definition countUserMessages :: "chat_message list \<Rightarrow> nat" where
  "countUserMessages messages = length (filter (\<lambda>m. cm_role m = User) messages)"

text \<open>
  \<open>/^\[label:\s*(.+?)\]$/i\<close>: after the label, white space, at least one character, no line terminator, and the
  closing bracket. When there is white space only, the last of it is the character.
\<close>

definition is_line_end :: "char \<Rightarrow> bool" where
  "is_line_end c \<longleftrightarrow> c = CHR 0x0A \<or> c = CHR 0x0D"

definition bracket_body :: "string \<Rightarrow> bool" where
  "bracket_body s =
     (let body = dropWhile is_js_space s in
      if body \<noteq> [] then \<not> list_ex is_line_end body else s \<noteq> [] \<and> \<not> is_line_end (last s))"

definition attachment_line :: "string \<Rightarrow> string \<Rightarrow> bool" where
  "attachment_line label s \<longleftrightarrow>
     starts_with (to_lower s) (''['' @ label @ '':'') \<and> length label + 3 \<le> length s \<and> last s = CHR '']'' \<and>
     bracket_body (butlast (drop (length label + 2) s))"

definition isSyntheticUserAttachmentLine :: "string \<Rightarrow> bool" where
  "isSyntheticUserAttachmentLine value \<longleftrightarrow>
     attachment_line ''file'' value \<or> attachment_line ''local image'' value \<or> attachment_line ''image'' value"

definition normalizeChatMessageMatchContent :: "string \<Rightarrow> string" where
  "normalizeChatMessageMatchContent value =
     trim (join NL (filter (\<lambda>line. \<not> isSyntheticUserAttachmentLine line)
       (map trim (split_on (CHR 0x0A) (replace_all [CHR 0x0D, CHR 0x0A] NL value)))))"

record pending_user_message =
  pu_message :: chat_message
  pu_userOrdinal :: nat

text \<open>\<open>userMessages[entry.userOrdinal - 1]\<close>: ordinals start with one.\<close>

definition still_pending :: "chat_message list \<Rightarrow> pending_user_message \<Rightarrow> bool" where
  "still_pending userMessages entry =
     (if pu_userOrdinal entry = 0 \<or> length userMessages < pu_userOrdinal entry then True
      else normalizeChatMessageMatchContent (getMessageText (userMessages ! (pu_userOrdinal entry - 1)))
             \<noteq> normalizeChatMessageMatchContent (getMessageText (pu_message entry)))"

definition reconcileChatWithPendingOptimisticMessages ::
  "chat \<Rightarrow> pending_user_message list \<Rightarrow> chat \<times> pending_user_message list" where
  "reconcileChatWithPendingOptimisticMessages c pendingMessages =
     (if pendingMessages = [] then (c, [])
      else
        let userMessages = filter (\<lambda>m. cm_role m = User) (ct_messages c);
            remaining = filter (still_pending userMessages) pendingMessages
        in if remaining = [] then (c, remaining)
           else
             let preview = take 120 (normalizeChatMessageMatchContent (getMessageText (pu_message (last remaining))))
             in (c\<lparr>ct_lastMessagePreview := (if preview \<noteq> [] then preview else ct_lastMessagePreview c),
                   ct_messages := ct_messages c @ map pu_message remaining\<rparr>, remaining))"


section \<open>A clone stays in its directory\<close>

text \<open>
  The name of the directory that a clone goes to, typed or derived from the address of the repository, is never empty,
  has no white space around it, contains no slash or backslash, and is not the directory itself or its parent.
\<close>

theorem clone_directory_safe:
  assumes "normalizeCloneDirectoryName v = Some d \<or> deriveCloneDirectoryName v = Some d"
  shows "d \<noteq> [] \<and> d \<noteq> ''.'' \<and> d \<noteq> ''..'' \<and> CHR ''/'' \<notin> set d \<and> CHR 0x5C \<notin> set d \<and> trim d = d"
proof -
  obtain w where "normalizeCloneDirectoryName w = Some d"
    using assms by (auto simp: deriveCloneDirectoryName_def Let_def split: option.splits if_splits)
  then obtain v where v: "trim v = d" "d \<noteq> []" "d \<noteq> ''.''" "d \<noteq> ''..''" "\<not> list_ex is_slash d"
    by (auto simp: normalizeCloneDirectoryName_def Let_def split: option.splits if_splits)
  then have "CHR ''/'' \<notin> set d" "CHR 0x5C \<notin> set d" unfolding list_ex_iff is_slash_def by blast+
  with v show ?thesis by auto
qed

theorem clone_directory_safe_witness:
  "deriveCloneDirectoryName (Some ''git@host:group/Tool.GIT/'') = Some ''Tool'' \<and> trim ''Tool'' = ''Tool''"
proof -
  have "deriveCloneDirectoryName (Some ''git@host:group/Tool.GIT/'') = Some ''Tool''" by code_simp
  with clone_directory_safe [of "Some ''git@host:group/Tool.GIT/''" "''Tool''"] show ?thesis by simp
qed


section \<open>A confirmed prompt is recognised\<close>

lemma split_on_append: "split_on c (xs @ c # ys) = split_on c xs @ split_on c ys"
  by (induction xs) (auto split: list.splits)

lemma split_on_none: "c \<notin> set s \<Longrightarrow> split_on c s = [s]"
  by (induction s) auto

lemma split_on_join_all: "ls \<noteq> [] \<Longrightarrow> split_on c (join [c] ls) = concat (map (split_on c) ls)"
proof (induction ls)
  case (Cons l ls)
  then show ?case by (cases ls) (simp_all add: split_on_append)
qed simp

definition CRLF :: string where "CRLF = [CHR 0x0D, CHR 0x0A]"

abbreviation unix_lines :: "string \<Rightarrow> string" where
  "unix_lines s \<equiv> replace_all CRLF NL s"

lemma unix_lines_Nil [simp]: "unix_lines [] = []"
  by (subst replace_all.simps) simp

lemma unix_lines_Cons:
  "unix_lines (c # cs) = (if c = CHR 0x0D \<and> cs \<noteq> [] \<and> hd cs = CHR 0x0A then CHR 0x0A # unix_lines (tl cs) else c # unix_lines cs)"
  by (subst replace_all.simps) (cases cs; auto simp: CRLF_def starts_with_def NL_def numeral_2_eq_2)

lemma unix_lines_no_CR: "CHR 0x0D \<notin> set s \<Longrightarrow> unix_lines s = s"
  by (induction s) (auto simp: unix_lines_Cons)

text \<open>Replacing CRLF by LF takes a carriage return from the end of some lines, which \<open>trim\<close> would take as well.\<close>

lemma unix_lines_split:
  "list_all2 (\<lambda>u l. l = u \<or> l = u @ [CHR 0x0D]) (split_on (CHR 0x0A) (unix_lines s)) (split_on (CHR 0x0A) s)"
proof (induction "length s" arbitrary: s rule: less_induct)
  case less
  show ?case
  proof (cases s)
    case (Cons c cs)
    show ?thesis
    proof (cases "c = CHR 0x0D \<and> cs \<noteq> [] \<and> hd cs = CHR 0x0A")
      case True
      then obtain z where z: "cs = CHR 0x0A # z" by (cases cs) auto
      with less.hyps [of z] True Cons show ?thesis by (simp add: unix_lines_Cons)
    next
      case False
      have IH: "list_all2 (\<lambda>u l. l = u \<or> l = u @ [CHR 0x0D]) (split_on (CHR 0x0A) (unix_lines cs)) (split_on (CHR 0x0A) cs)"
        by (rule less.hyps) (simp add: Cons)
      have u: "unix_lines s = c # unix_lines cs" using False Cons by (simp only: unix_lines_Cons if_False)
      show ?thesis
      proof (cases "c = CHR 0x0A")
        case True
        then show ?thesis using IH by (simp add: u) (simp add: Cons)
      next
        case other: False
        obtain l ls l' ls' where ls: "split_on (CHR 0x0A) (unix_lines cs) = l # ls" "split_on (CHR 0x0A) cs = l' # ls'"
          by (metis split_on_nonempty list.exhaust)
        with IH have "l' = l \<or> l' = l @ [CHR 0x0D]" "list_all2 (\<lambda>u l. l = u \<or> l = u @ [CHR 0x0D]) ls ls'" by simp_all
        then have "list_all2 (\<lambda>u l. l = u \<or> l = u @ [CHR 0x0D]) ((c # l) # ls) ((c # l') # ls')" by auto
        moreover have "split_on (CHR 0x0A) (unix_lines s) = (c # l) # ls" using other ls by (simp add: u)
        moreover have "split_on (CHR 0x0A) s = (c # l') # ls'" using other ls by (simp add: Cons)
        ultimately show ?thesis by (simp only:)
      qed
    qed
  qed simp
qed

lemma trim_snoc_space:
  assumes "is_js_space c"
  shows "trim (s @ [c]) = trim s"
proof (cases "\<forall>x\<in>set s. is_js_space x")
  case True
  with assms show ?thesis by (simp add: trim_def trim_start_def trim_end_def dropWhile_append2 dropWhile_eq_Nil_conv [THEN iffD2])
next
  case False
  with assms show ?thesis by (auto simp: trim_def trim_start_def trim_end_def dropWhile_append1)
qed

lemma trim_lines_unix: "map trim (split_on (CHR 0x0A) (unix_lines s)) = map trim (split_on (CHR 0x0A) s)"
proof -
  have CR: "is_js_space (CHR 0x0D)" by (simp add: is_js_space_def)
  have "map trim us = map trim ls" if "list_all2 (\<lambda>u l. l = u \<or> l = u @ [CHR 0x0D]) us ls" for us ls
    using that by (induction rule: list_all2_induct) (auto simp: trim_snoc_space [OF CR])
  from this [OF unix_lines_split] show ?thesis .
qed

definition prompt_lines :: "string \<Rightarrow> string list" where
  "prompt_lines s = filter (\<lambda>line. \<not> isSyntheticUserAttachmentLine line) (map trim (split_on (CHR 0x0A) s))"

lemma match_content_lines: "normalizeChatMessageMatchContent s = trim (join NL (prompt_lines s))"
  using trim_lines_unix [of s] by (simp add: normalizeChatMessageMatchContent_def prompt_lines_def CRLF_def)

text \<open>A path that an attachment line can name has no line break in it.\<close>

definition one_line :: "string \<Rightarrow> bool" where
  "one_line s \<longleftrightarrow> \<not> list_ex is_line_end s"

lemma bracket_body_path: "one_line p \<Longrightarrow> bracket_body (CHR '' '' # p)"
  using set_dropWhileD [of _ is_js_space p]
  by (auto simp: bracket_body_def one_line_def list_ex_iff is_line_end_def is_js_space_def Let_def
      dest!: last_in_set split: if_splits)

lemma to_lower_append [simp]: "to_lower (a @ b) = to_lower a @ to_lower b"
  by (simp add: to_lower_def)

lemma attachment_line_of_path:
  assumes "one_line p" "to_lower label = label"
  shows "attachment_line label (''['' @ label @ '': '' @ p @ '']'')"
proof -
  have low: "to_lower (CHR ''['' # s) = CHR ''['' # to_lower s" "to_lower (CHR '':'' # s) = CHR '':'' # to_lower s"
    for s by (simp_all add: to_lower_def lower_char_def)
  with assms bracket_body_path [OF assms(1)] show ?thesis
    by (simp add: attachment_line_def starts_with_def butlast_append)
qed

lemma trim_bracketed: "trim (CHR ''['' # s @ '']'') = CHR ''['' # s @ '']''"
  by (simp add: trim_def trim_start_def trim_end_def is_js_space_def)

lemma attachment_no_prompt_line:
  assumes "one_line p" "label = ''file'' \<or> label = ''local image''"
  shows "prompt_lines (''['' @ label @ '': '' @ p @ '']'') = []"
proof -
  have "to_lower label = label" using assms(2) by (auto simp: to_lower_def lower_char_def)
  from attachment_line_of_path [OF assms(1) this] assms(2)
  have "isSyntheticUserAttachmentLine (''['' @ label @ '': '' @ p @ '']'')"
    unfolding isSyntheticUserAttachmentLine_def by metis
  moreover have "split_on (CHR 0x0A) (''['' @ label @ '': '' @ p @ '']'') = [''['' @ label @ '': '' @ p @ '']'']"
  proof (rule split_on_none)
    have "CHR 0x0A \<notin> set p" using assms(1) by (auto simp: one_line_def list_ex_iff is_line_end_def)
    moreover have "CHR 0x0A \<notin> set label" using assms(2) by (elim disjE) simp_all
    ultimately show "CHR 0x0A \<notin> set (''['' @ label @ '': '' @ p @ '']'')" by simp
  qed
  moreover have "trim (''['' @ label @ '': '' @ p @ '']'') = ''['' @ label @ '': '' @ p @ '']''"
    using trim_bracketed [of "label @ '': '' @ p"] by simp
  ultimately show ?thesis by (simp add: prompt_lines_def)
qed

lemma prompt_lines_join: "prompt_lines (join NL (l # ls)) = prompt_lines l @ concat (map prompt_lines ls)"
  using split_on_join_all [of "l # ls" "CHR 0x0A"] by (simp add: prompt_lines_def [abs_def] NL_def filter_concat map_concat comp_def)

lemma optimistic_prompt_lines:
  assumes "\<forall>m\<in>set mentions. one_line (mi_path m)" "\<forall>p\<in>set images. one_line p"
  shows "prompt_lines (toOptimisticUserContent content mentions images) = prompt_lines content"
proof -
  have "\<forall>m\<in>set mentions. prompt_lines (''[file: '' @ mi_path m @ '']'') = []"
    using assms(1) attachment_no_prompt_line [of _ "''file''"] by simp
  moreover have "\<forall>p\<in>set images. prompt_lines (''[local image: '' @ p @ '']'') = []"
    using assms(2) attachment_no_prompt_line [of _ "''local image''"] by simp
  ultimately have "concat (map prompt_lines (map (\<lambda>m. ''[file: '' @ mi_path m @ '']'') mentions
      @ map (\<lambda>path. ''[local image: '' @ path @ '']'') images)) = []" by simp
  then show ?thesis by (simp only: toOptimisticUserContent_def prompt_lines_join append_Nil2 if_cancel split: if_split) simp
qed

text \<open>
  C40. When the pending copy of a prompt goes. Let a prompt be sent with attached files and images whose paths are single
  lines, and let its pending copy hold the text that stands for it. Its place is its number among the user messages. The copy is dropped
  exactly when the transcript of the bridge has a user message at that place whose text, without the lines of
  attachments, is the prompt without such lines; as long as the place is empty, or another text stands
  there, it stays pending. The transcript shown is that of the bridge followed by the copies that remain, in
  their order; if none remains, the chat is unchanged.
\<close>

theorem confirmed_prompt_recognised:
  assumes "\<forall>m\<in>set mentions. one_line (mi_path m)" "\<forall>p\<in>set images. one_line p"
    and "getMessageText (pu_message e) = toOptimisticUserContent content mentions images" "pu_userOrdinal e > 0"
    and "e \<in> set es" "reconcileChatWithPendingOptimisticMessages c es = (c', remaining)"
  shows "(e \<in> set remaining \<longleftrightarrow>
      countUserMessages (ct_messages c) < pu_userOrdinal e \<or>
      normalizeChatMessageMatchContent
        (getMessageText (filter (\<lambda>m. cm_role m = User) (ct_messages c) ! (pu_userOrdinal e - 1)))
        \<noteq> normalizeChatMessageMatchContent content) \<and>
    subseq remaining es \<and> ct_messages c' = ct_messages c @ map pu_message remaining \<and>
    (if remaining = [] then c' = c else True)"
proof -
  let ?users = "filter (\<lambda>m. cm_role m = User) (ct_messages c)"
  have "normalizeChatMessageMatchContent (getMessageText (pu_message e)) = normalizeChatMessageMatchContent content"
    by (simp add: match_content_lines assms(3) optimistic_prompt_lines [OF assms(1,2)])
  then have e: "still_pending ?users e \<longleftrightarrow> countUserMessages (ct_messages c) < pu_userOrdinal e \<or>
      normalizeChatMessageMatchContent (getMessageText (?users ! (pu_userOrdinal e - 1))) \<noteq> normalizeChatMessageMatchContent content"
    using assms(4) by (auto simp: still_pending_def countUserMessages_def)
  have "es \<noteq> []" using assms(5) by auto
  then have "remaining = filter (still_pending ?users) es"
    "ct_messages c' = ct_messages c @ map pu_message remaining" "remaining = [] \<longrightarrow> c' = c"
    using assms(6) by (auto simp: reconcileChatWithPendingOptimisticMessages_def Let_def split: if_splits)
  with e assms(5) show ?thesis by simp
qed

definition demo_prompt :: "string \<Rightarrow> string \<Rightarrow> chat_message" where
  "demo_prompt i content = blank_message i User (JStr content) ''t''"

definition demo_pending :: pending_user_message where
  "demo_pending = \<lparr>pu_message = demo_prompt ''local-user-1'' (toOptimisticUserContent ''do it'' [\<lparr>mi_path = ''a.ts'', mi_name = None\<rparr>] [''x.png'']),
     pu_userOrdinal = 1\<rparr>"

lemma confirmed_prompt_recognised_witness:
  "let opened = blank_chat ''c'' StIdle []; sent = blank_chat ''c'' StIdle [demo_prompt ''u1'' ''do it''];
       other = blank_chat ''c'' StIdle [demo_prompt ''u0'' ''something else'']
   in demo_pending \<in> set (snd (reconcileChatWithPendingOptimisticMessages opened [demo_pending])) \<and>
      demo_pending \<in> set (snd (reconcileChatWithPendingOptimisticMessages other [demo_pending])) \<and>
      demo_pending \<notin> set (snd (reconcileChatWithPendingOptimisticMessages sent [demo_pending]))"
proof -
  let ?opened = "blank_chat ''c'' StIdle []" and ?sent = "blank_chat ''c'' StIdle [demo_prompt ''u1'' ''do it'']"
    and ?other = "blank_chat ''c'' StIdle [demo_prompt ''u0'' ''something else'']"
  have content: "getMessageText (pu_message demo_pending) = toOptimisticUserContent ''do it'' [\<lparr>mi_path = ''a.ts'', mi_name = None\<rparr>] [''x.png'']"
    by code_simp
  have paths: "\<forall>m\<in>set [\<lparr>mi_path = ''a.ts'', mi_name = None\<rparr>]. one_line (mi_path m)" "\<forall>p\<in>set [''x.png'']. one_line p"
    by (simp_all add: one_line_def is_line_end_def)
  have ordinal: "pu_userOrdinal demo_pending > 0" by (simp add: demo_pending_def)
  have "demo_pending \<in> set [demo_pending]" by simp
  note recognised = confirmed_prompt_recognised [OF paths content ordinal this prod.collapse [symmetric], THEN conjunct1]
  have counts: "countUserMessages (ct_messages ?opened) < pu_userOrdinal demo_pending"
    "\<not> countUserMessages (ct_messages ?sent) < pu_userOrdinal demo_pending" by code_simp+
  have same: "normalizeChatMessageMatchContent
      (getMessageText (filter (\<lambda>m. cm_role m = User) (ct_messages ?sent) ! (pu_userOrdinal demo_pending - 1)))
      = normalizeChatMessageMatchContent ''do it''" by code_simp
  have different: "normalizeChatMessageMatchContent
      (getMessageText (filter (\<lambda>m. cm_role m = User) (ct_messages ?other) ! (pu_userOrdinal demo_pending - 1)))
      \<noteq> normalizeChatMessageMatchContent ''do it''" by code_simp
  show ?thesis
    unfolding Let_def using recognised [of ?opened] recognised [of ?sent] recognised [of ?other] counts same different by blast
qed

end
