(* ===== verification/TranscriptMessages.thy ===== *)
theory TranscriptMessages
  imports Attachments AgUiReducer
begin

text \<open>
  Which messages a transcript shows, and what it reads from them: \<^verbatim>\<open>features/chat/transcript/messages.ts\<close> (visible
  messages, the status of sub-agent cards, where a chat can be forked), \<^verbatim>\<open>features/chat/agents/transcript.ts\<close> (the
  part of a parent's transcript that a sub-agent inherits) and \<open>isTerminalSubAgentStatus\<close> of
  \<^verbatim>\<open>features/chat/message/timelineHelpers.ts\<close>. The grouping of tool rows (\<open>buildTranscriptDisplayItems\<close>) is not
  modelled.
\<close>

section \<open>Visible messages\<close>

definition COMPACTION_ACTIVITY_TYPE :: string where "COMPACTION_ACTIVITY_TYPE = ''dappercode.compaction''"

definition HIDDEN_TRANSCRIPT_MARKERS :: "string list" where
  "HIDDEN_TRANSCRIPT_MARKERS =
     [''FINAL_TASK_RESULT_JSON'', ''Current working directory is:'', ''You are operating in task worktree'']"

definition isHiddenActivityTranscriptMessage :: "chat_message \<Rightarrow> bool" where
  "isHiddenActivityTranscriptMessage m \<longleftrightarrow>
     cm_role m = Activity \<and> cm_activityType m \<noteq> Some SUBAGENT_ACTIVITY_TYPE \<and>
     cm_activityType m \<noteq> Some COMPACTION_ACTIVITY_TYPE"

definition shouldHideToolTranscriptMessage :: "chat_message \<Rightarrow> bool \<Rightarrow> bool \<Rightarrow> bool" where
  "shouldHideToolTranscriptMessage m hasToolCalls showToolCalls \<longleftrightarrow>
     (if showToolCalls then False
      else cm_role m = Tool \<or> hasToolCalls \<or> cm_toolMeta m \<noteq> None \<or> isHiddenActivityTranscriptMessage m)"

definition hasHiddenTranscriptMarker :: "string \<Rightarrow> bool" where
  "hasHiddenTranscriptMarker txt \<longleftrightarrow> list_ex (str_includes txt) HIDDEN_TRANSCRIPT_MARKERS"

definition isBlankAssistantTranscriptMessage :: "chat_message \<Rightarrow> string \<Rightarrow> bool \<Rightarrow> bool" where
  "isBlankAssistantTranscriptMessage m txt hasToolCalls \<longleftrightarrow>
     cm_role m = Assistant \<and> trim txt = [] \<and> \<not> hasToolCalls \<and> cm_toolMeta m = None"

definition shouldDisplayTranscriptMessage :: "bool \<Rightarrow> chat_message \<Rightarrow> bool" where
  "shouldDisplayTranscriptMessage showToolCalls m =
     (let txt = getMessageText m; hasToolCalls = getToolCallDisplayLines m \<noteq> [] in
      \<not> (shouldHideToolTranscriptMessage m hasToolCalls showToolCalls \<or> hasHiddenTranscriptMarker txt \<or>
         isBlankAssistantTranscriptMessage m txt hasToolCalls))"

definition getVisibleTranscriptMessages :: "chat_message list \<Rightarrow> bool \<Rightarrow> chat_message list" where
  "getVisibleTranscriptMessages messages showToolCalls = filter (shouldDisplayTranscriptMessage showToolCalls) messages"

text \<open>\<open>filterReasoningMessages\<close> of \<^verbatim>\<open>features/chat/helpers/timeline.ts\<close>\<close>

definition filterReasoningMessages :: "chat_message list \<Rightarrow> chat_message list" where
  "filterReasoningMessages messages = messages"


section \<open>Where a chat can be forked\<close>

definition isLocallyMintedMessageId :: "string \<Rightarrow> bool" where
  "isLocallyMintedMessageId i \<longleftrightarrow> starts_with i ''msg-'' \<or> starts_with i ''local-user-''"

record fork_scan =
  fs_boundaries :: "(string, string) jsmap"
  fs_requestSeen :: bool
  fs_turnResponseId :: "string option"

definition closeTurn :: "fork_scan \<Rightarrow> fork_scan" where
  "closeTurn s =
     (let s' = s\<lparr>fs_turnResponseId := None\<rparr> in
      case non_empty (fs_turnResponseId s) of
        Some i \<Rightarrow> if fs_requestSeen s then s'\<lparr>fs_boundaries := map_put i i (fs_boundaries s)\<rparr> else s'
      | None \<Rightarrow> s')"

definition fork_step :: "chat_message \<Rightarrow> fork_scan \<Rightarrow> fork_scan" where
  "fork_step m s =
     (if cm_role m = User then (closeTurn s)\<lparr>fs_requestSeen := True\<rparr>
      else if cm_role m = Assistant \<and> cm_pending m \<noteq> Some True \<and> \<not> isLocallyMintedMessageId (cm_id m)
      then s\<lparr>fs_turnResponseId := Some (cm_id m)\<rparr> else s)"

definition forkBoundariesAtResponses :: "chat_message list \<Rightarrow> (string, string) jsmap" where
  "forkBoundariesAtResponses messages =
     fs_boundaries (closeTurn (fold fork_step messages
       \<lparr>fs_boundaries = [], fs_requestSeen = False, fs_turnResponseId = None\<rparr>))"

definition forkBoundariesByActionMessageId :: "chat_message list \<Rightarrow> chat_status \<Rightarrow> (string, string) jsmap" where
  "forkBoundariesByActionMessageId messages chatStatus =
     (if chatStatus = StRunning then [] else forkBoundariesAtResponses messages)"


section \<open>The status of sub-agent cards\<close>

definition isTerminalSubAgentStatus :: "string option \<Rightarrow> bool" where
  "isTerminalSubAgentStatus status \<longleftrightarrow>
     to_lower (trim (or_empty status)) \<in> set [''completed'', ''complete'', ''succeeded'', ''failed'', ''error'', ''aborted'',
       ''cancelled'', ''canceled'', ''closed'']"

definition is_status_line :: "string \<Rightarrow> bool" where
  "is_status_line line \<longleftrightarrow> starts_with (to_lower (trim_start line)) ''status:''"

definition status_line :: "chat_status \<Rightarrow> string" where
  "status_line status = ''Status: '' @ status_name status"

definition replaceSubAgentStatusLine :: "string \<Rightarrow> chat_status \<Rightarrow> string" where
  "replaceSubAgentStatusLine content status =
     (let statusLine = status_line status;
          parts = split_on (CHR 0x0A) content;
          nextLines = map (\<lambda>line. if is_status_line line then takeWhile is_js_space line @ statusLine else line) parts
      in if list_ex is_status_line parts then join NL nextLines else join NL (nextLines @ [''  '' @ statusLine]))"

text \<open>The status of the first receiving thread that has one.\<close>

definition receiver_status :: "(string, chat_status) jsmap \<Rightarrow> (string, json) jsmap \<Rightarrow> chat_status option" where
  "receiver_status threadStatuses meta =
     first_some (\<lambda>r. case r of JStr threadId \<Rightarrow> map_get threadStatuses threadId | _ \<Rightarrow> None)
       (case arr_field (Some meta) ''receiverThreadIds'' of Some rs \<Rightarrow> rs | None \<Rightarrow> [])"

definition syncSubAgentMessageStatus :: "(string, chat_status) jsmap \<Rightarrow> chat_message \<Rightarrow> chat_message" where
  "syncSubAgentMessageStatus threadStatuses m =
     (case getSubAgentMeta m of
        None \<Rightarrow> m
      | Some meta \<Rightarrow>
          let previousStatus = str_field meta ''agentStatus'' in
          if isTerminalSubAgentStatus previousStatus then m
          else
            (case receiver_status threadStatuses meta of
               None \<Rightarrow> m
             | Some nextStatus \<Rightarrow>
                 let txt = getMessageText m; nextContent = replaceSubAgentStatusLine txt nextStatus in
                 if nextContent = txt \<and> previousStatus = Some (status_name nextStatus) then m
                 else if cm_role m \<noteq> Activity then m
                 else
                   let content = (case cm_content m of JObj o' \<Rightarrow> o' | _ \<Rightarrow> [])
                   in m\<lparr>cm_content := JObj (map_put ''subAgent''
                          (JObj (map_put ''agentStatus'' (JStr (status_name nextStatus)) meta))
                          (map_put ''text'' (JStr nextContent) content))\<rparr>))"

text \<open>The source copies the array only when a message changes; the value is that of the map in any case.\<close>

definition syncVisibleSubAgentStatuses :: "chat_message list \<Rightarrow> (string, chat_status) jsmap \<Rightarrow> chat_message list" where
  "syncVisibleSubAgentStatuses messages threadStatuses =
     (if threadStatuses = [] then messages else map (syncSubAgentMessageStatus threadStatuses) messages)"


section \<open>Messages that a sub-agent inherits from its parent\<close>

definition normalizeMessageContent :: "string \<Rightarrow> string" where
  "normalizeMessageContent value = trim (collapse_spaces False value)"

definition inherited_attachment :: "string \<Rightarrow> bool" where
  "inherited_attachment line \<longleftrightarrow>
     list_ex (\<lambda>label. starts_with (to_lower line) (''['' @ label @ '':'')) [''file'', ''image'', ''local image'']"

definition normalizeUserPromptContent :: "string \<Rightarrow> string" where
  "normalizeUserPromptContent value =
     normalizeMessageContent (join NL
       (filter (\<lambda>line. \<not> inherited_attachment line) (filter (\<lambda>line. line \<noteq> []) (map trim (split_on (CHR 0x0A) value)))))"

definition messagesMatch :: "chat_message \<Rightarrow> chat_message \<Rightarrow> bool" where
  "messagesMatch l r \<longleftrightarrow>
     cm_role l = cm_role r \<and> normalizeMessageContent (getMessageText l) = normalizeMessageContent (getMessageText r)"

definition sharedLeadingMessageCount :: "chat_message list \<Rightarrow> chat_message list \<Rightarrow> nat" where
  "sharedLeadingMessageCount ls rs = length (takeWhile (\<lambda>(l, r). messagesMatch l r) (zip ls rs))"

text \<open>The prompt of a message that names the child thread, and whether its tool is the one that starts agents.\<close>

definition spawn_prompt :: "string \<Rightarrow> chat_message \<Rightarrow> (string \<times> bool) option" where
  "spawn_prompt childThreadId m =
     (case getSubAgentMeta m of
        None \<Rightarrow> None
      | Some meta \<Rightarrow>
          if JStr childThreadId \<notin> set (case arr_field (Some meta) ''receiverThreadIds'' of Some rs \<Rightarrow> rs | None \<Rightarrow> []) then None
          else (case non_empty (map_option trim (str_field meta ''prompt'')) of
                  None \<Rightarrow> None
                | Some prompt \<Rightarrow>
                    Some (prompt, normalizeMessageContent (or_empty (str_field meta ''tool'')) \<in> {''spawn_agent'', ''spawnagent''})))"

fun findSpawnPrompt :: "string \<Rightarrow> string option \<Rightarrow> chat_message list \<Rightarrow> string option" where
  "findSpawnPrompt childThreadId fallbackPrompt [] = fallbackPrompt"
| "findSpawnPrompt childThreadId fallbackPrompt (m # ms) =
     (case spawn_prompt childThreadId m of
        None \<Rightarrow> findSpawnPrompt childThreadId fallbackPrompt ms
      | Some (prompt, spawns) \<Rightarrow>
          if spawns then Some prompt
          else findSpawnPrompt childThreadId (if fallbackPrompt = None then Some prompt else fallbackPrompt) ms)"

fun find_index :: "('a \<Rightarrow> bool) \<Rightarrow> 'a list \<Rightarrow> nat option" where
  "find_index P [] = None"
| "find_index P (x # xs) = (if P x then Some 0 else map_option Suc (find_index P xs))"

definition prompt_candidate :: "string \<Rightarrow> chat_message \<Rightarrow> bool" where
  "prompt_candidate normalizedPrompt m \<longleftrightarrow>
     cm_role m = User \<and>
     (let candidate = normalizeUserPromptContent (getMessageText m) in
      candidate \<noteq> [] \<and>
      (candidate = normalizedPrompt \<or> str_includes candidate normalizedPrompt \<or> str_includes normalizedPrompt candidate))"

text \<open>The index is looked for after the shared messages; \<^const>\<open>None\<close> is -1.\<close>

definition findSpawnPromptStartIndex :: "chat_message list \<Rightarrow> chat_message list \<Rightarrow> string \<Rightarrow> nat option" where
  "findSpawnPromptStartIndex parentMessages childMessages childThreadId =
     (case findSpawnPrompt childThreadId None parentMessages of
        None \<Rightarrow> None
      | Some prompt \<Rightarrow>
          let normalizedPrompt = normalizeMessageContent prompt;
              shared = sharedLeadingMessageCount parentMessages childMessages
          in if normalizedPrompt = [] then None
             else map_option (\<lambda>n. n + shared) (find_index (prompt_candidate normalizedPrompt) (drop shared childMessages)))"

definition trimInheritedParentMessages ::
  "chat_message list \<Rightarrow> chat_message list \<Rightarrow> string option \<Rightarrow> chat_message list \<times> nat" where
  "trimInheritedParentMessages parentMessages childMessages childThreadId =
     (let child = trim (or_empty childThreadId);
          shared = sharedLeadingMessageCount parentMessages childMessages;
          by_prefix = (if shared = 0 \<or> shared \<ge> length childMessages then (childMessages, 0)
                       else (drop shared childMessages, shared))
      in if child = [] then by_prefix
         else (case findSpawnPromptStartIndex parentMessages childMessages child of
                 Some startIndex \<Rightarrow>
                   if 0 < startIndex \<and> startIndex < length childMessages then (drop startIndex childMessages, startIndex)
                   else by_prefix
               | None \<Rightarrow> by_prefix))"


section \<open>Trimming keeps a suffix\<close>

text \<open>Trimming drops messages from the front only, counts them, and never empties a transcript.\<close>

lemma trimInherited_suffix:
  assumes "trimInheritedParentMessages ps cs i = (ms, n)"
  shows "ms = drop n cs \<and> (n = 0 \<or> n < length cs)"
  using assms by (auto simp: trimInheritedParentMessages_def Let_def split: if_splits option.splits)

text \<open>Synchronising the status of sub-agent cards changes their content only, and doing it twice changes nothing more.\<close>

lemma sync_message_frame:
  "cm_id (syncSubAgentMessageStatus st m) = cm_id m" "cm_role (syncSubAgentMessageStatus st m) = cm_role m"
  by (auto simp: syncSubAgentMessageStatus_def Let_def split: option.splits)

lemma sync_frame:
  "map cm_id (syncVisibleSubAgentStatuses ms st) = map cm_id ms"
  "map cm_role (syncVisibleSubAgentStatuses ms st) = map cm_role ms"
  by (simp_all add: syncVisibleSubAgentStatuses_def sync_message_frame)


section \<open>Forks start at the last response of a turn\<close>

text \<open>
  The response that a turn settles on: the last assistant message that the bridge knows and that has been completed.
\<close>

definition settled_response :: "chat_message \<Rightarrow> bool" where
  "settled_response m \<longleftrightarrow> cm_role m = Assistant \<and> cm_pending m \<noteq> Some True \<and> \<not> isLocallyMintedMessageId (cm_id m)"

definition turn_response :: "chat_message list \<Rightarrow> string option" where
  "turn_response ms = last_of (map cm_id (filter settled_response ms))"

text \<open>The turns: what follows each prompt, up to the next one.\<close>

fun turns_of :: "chat_message list \<Rightarrow> chat_message list list" where
  "turns_of [] = []"
| "turns_of (m # ms) =
     (if cm_role m = User then takeWhile (\<lambda>m. cm_role m \<noteq> User) ms # turns_of ms else turns_of ms)"

lemma turn_response_Cons:
  "turn_response (m # ms) =
     (case turn_response ms of Some i \<Rightarrow> Some i | None \<Rightarrow> if settled_response m then Some (cm_id m) else None)"
  by (auto simp: turn_response_def last_of_def split: option.splits)

lemma turn_response_Nil [simp]: "turn_response [] = None"
  by (simp add: turn_response_def last_of_def)

text \<open>What the boundaries of a scan are going to be: those it has, that of the open turn, and those of the further turns.\<close>

definition open_response :: "fork_scan \<Rightarrow> chat_message list \<Rightarrow> string option" where
  "open_response s ms =
     (if fs_requestSeen s
      then non_empty (case turn_response (takeWhile (\<lambda>m. cm_role m \<noteq> User) ms) of
             Some i \<Rightarrow> Some i | None \<Rightarrow> fs_turnResponseId s)
      else None)"

definition scan_ok :: "fork_scan \<Rightarrow> bool" where
  "scan_ok s \<longleftrightarrow> (\<forall>(k, v)\<in>set (fs_boundaries s). v = k)"

lemma closeTurn_keys:
  "fst ` set (fs_boundaries (closeTurn s)) = fst ` set (fs_boundaries s) \<union> set_option (open_response s [])"
proof -
  have "fst ` set (map_put k v m) = insert k (fst ` set m)" for k v and m :: "(string, string) jsmap"
    by (induction m) auto
  then show ?thesis
    by (auto simp: closeTurn_def open_response_def Let_def non_empty_def split: option.splits if_splits)
qed

lemma closeTurn_ok: "scan_ok s \<Longrightarrow> scan_ok (closeTurn s)"
  using set_map_put by (fastforce simp: scan_ok_def closeTurn_def Let_def split: option.splits if_splits)

lemma fork_scan_keys:
  "fst ` set (fs_boundaries (closeTurn (fold fork_step ms s)))
     = fst ` set (fs_boundaries s) \<union> set_option (open_response s ms)
       \<union> {i. i \<noteq> [] \<and> (\<exists>turn\<in>set (turns_of ms). turn_response turn = Some i)}"
proof (induction ms arbitrary: s)
  case Nil
  then show ?case by (simp add: closeTurn_keys)
next
  case (Cons m ms)
  show ?case
  proof (cases "cm_role m = User")
    case True
    have "open_response s (m # ms) = open_response s []" using True by (simp add: open_response_def)
    moreover have "set_option (open_response ((closeTurn s)\<lparr>fs_requestSeen := True\<rparr>) ms)
        = {i. i \<noteq> [] \<and> turn_response (takeWhile (\<lambda>m. cm_role m \<noteq> User) ms) = Some i}"
      by (auto simp: open_response_def closeTurn_def Let_def non_empty_def split: option.splits if_splits)
    ultimately show ?thesis
      using Cons.IH [of "(closeTurn s)\<lparr>fs_requestSeen := True\<rparr>"] True closeTurn_keys [of s]
      by (auto simp: fork_step_def)
  next
    case False
    have "open_response (fork_step m s) ms = open_response s (m # ms)"
      using False by (auto simp: open_response_def fork_step_def turn_response_Cons settled_response_def split: option.splits)
    moreover have "fs_boundaries (fork_step m s) = fs_boundaries s" using False by (simp add: fork_step_def)
    ultimately show ?thesis using Cons.IH [of "fork_step m s"] False by simp
  qed
qed

lemma fork_scan_ok: "scan_ok s \<Longrightarrow> scan_ok (closeTurn (fold fork_step ms s))"
proof (induction ms arbitrary: s)
  case (Cons m ms)
  have "scan_ok (fork_step m s)"
    using Cons.prems closeTurn_ok [of s] by (simp add: fork_step_def scan_ok_def)
  then show ?case using Cons.IH by simp
qed (simp add: closeTurn_ok)

text \<open>
  C38. A chat that is not running can be forked exactly after the last settled response of each of its turns, the newest one
  included: a response that is still pending, that only this client knows, or that precedes the first prompt is not
  offered. A running chat offers none.
\<close>

theorem fork_boundaries:
  "forkBoundariesByActionMessageId ms st =
     (if st = StRunning then [] else forkBoundariesAtResponses ms) \<and>
   map_get (forkBoundariesAtResponses ms) i =
     (if i \<noteq> [] \<and> (\<exists>turn\<in>set (turns_of ms). turn_response turn = Some i) then Some i else None)"
proof -
  let ?s = "\<lparr>fs_boundaries = [], fs_requestSeen = False, fs_turnResponseId = None\<rparr>"
  have keys: "fst ` set (forkBoundariesAtResponses ms) = {i. i \<noteq> [] \<and> (\<exists>turn\<in>set (turns_of ms). turn_response turn = Some i)}"
    using fork_scan_keys [of ms ?s] by (simp add: forkBoundariesAtResponses_def open_response_def)
  have "scan_ok ?s" by (simp add: scan_ok_def)
  from fork_scan_ok [OF this] have "\<forall>(k, v)\<in>set (forkBoundariesAtResponses ms). v = k"
    by (simp add: forkBoundariesAtResponses_def scan_ok_def)
  then have "map_get (forkBoundariesAtResponses ms) i = Some v \<Longrightarrow> v = i" for v by (auto dest: map_of_SomeD)
  moreover have "map_get (forkBoundariesAtResponses ms) i = None \<longleftrightarrow> i \<notin> fst ` set (forkBoundariesAtResponses ms)"
    by (rule map_of_eq_None_iff)
  ultimately show ?thesis using keys by (auto simp: forkBoundariesByActionMessageId_def)
qed


section \<open>Synchronising twice\<close>

lemma status_line_self:
  assumes "list_all is_js_space ws"
  shows "is_status_line (ws @ status_line st)" "takeWhile is_js_space (ws @ status_line st) = ws"
proof -
  have line: "status_line st = CHR ''S'' # tl (status_line st)" "\<not> is_js_space (CHR ''S'')"
    by (simp_all add: status_line_def is_js_space_def)
  have low: "to_lower ''Status:'' = ''status:''" by code_simp
  have "status_line st = ''Status:'' @ ('' '' @ status_name st)" by (simp add: status_line_def)
  then have "prefix ''status:'' (to_lower (status_line st))" by (simp only: to_lower_append low) (simp only: prefixI)
  moreover have "dropWhile is_js_space (ws @ CHR ''S'' # x) = CHR ''S'' # x" "takeWhile is_js_space (ws @ CHR ''S'' # x) = ws" for x
    using assms line(2) by (simp_all add: list_all_iff dropWhile_append2 takeWhile_append2)
  ultimately show "is_status_line (ws @ status_line st)" "takeWhile is_js_space (ws @ status_line st) = ws"
    using line(1) unfolding is_status_line_def trim_start_def starts_with_prefix by metis+
qed

lemma status_line_one_line: "CHR 0x0A \<notin> set (status_line st)"
  by (cases st) (simp_all add: status_line_def status_name_def)

definition with_status :: "chat_status \<Rightarrow> string \<Rightarrow> string" where
  "with_status st line = (if is_status_line line then takeWhile is_js_space line @ status_line st else line)"

lemma with_status_again: "with_status st (with_status st l) = with_status st l"
proof -
  have "list_all is_js_space (takeWhile is_js_space l)" by (metis list_all_iff set_takeWhileD)
  from status_line_self [OF this, of st] show ?thesis by (simp add: with_status_def)
qed

definition status_rows :: "chat_status \<Rightarrow> string list \<Rightarrow> string list" where
  "status_rows st ls = map (with_status st) ls @ (if list_ex is_status_line ls then [] else [''  '' @ status_line st])"

lemma replace_status_rows: "replaceSubAgentStatusLine txt st = join NL (status_rows st (split_on (CHR 0x0A) txt))"
  by (simp add: replaceSubAgentStatusLine_def status_rows_def with_status_def [abs_def] Let_def)

lemma replace_status_again: "replaceSubAgentStatusLine (replaceSubAgentStatusLine txt st) st = replaceSubAgentStatusLine txt st"
proof -
  let ?parts = "split_on (CHR 0x0A) txt"
  define rows where "rows = status_rows st ?parts"
  have sp: "list_all is_js_space (takeWhile is_js_space l)" for l by (metis list_all_iff set_takeWhileD)
  have sp2: "list_all is_js_space ''  ''" by (simp add: is_js_space_def)
  note self = status_line_self [OF sp, of _ st] and self2 = status_line_self [OF sp2, of st]
  have "with_status st (''  '' @ status_line st) = ''  '' @ status_line st" using self2 by (simp only: with_status_def if_True)
  then have fixed: "map (with_status st) rows = rows" by (simp add: rows_def status_rows_def with_status_again)
  have "list_ex is_status_line rows"
  proof (cases "list_ex is_status_line ?parts")
    case True
    then obtain l where "l \<in> set ?parts" "is_status_line l" by (auto simp: list_ex_iff)
    then show ?thesis using self(1) [of l] by (auto simp: rows_def status_rows_def list_ex_iff with_status_def)
  next
    case False
    then have "''  '' @ status_line st \<in> set rows" by (simp add: rows_def status_rows_def)
    with self2(1) show ?thesis unfolding list_ex_iff by blast
  qed
  then have rows_again: "status_rows st rows = rows" by (simp add: status_rows_def fixed)
  have "CHR 0x0A \<notin> set l" if "l \<in> set rows" for l
  proof -
    have "CHR 0x0A \<notin> set (with_status st p)" if "p \<in> set ?parts" for p
      using split_on_no_sep [OF that] status_line_one_line [of st] by (auto simp: with_status_def dest: set_takeWhileD)
    then show ?thesis using that status_line_one_line [of st] by (auto simp: rows_def status_rows_def split: if_splits)
  qed
  then have "concat (map (split_on (CHR 0x0A)) rows) = rows"
    by (induction rows) (simp_all add: split_on_none)
  moreover have "rows \<noteq> []" by (simp add: rows_def status_rows_def)
  ultimately have "split_on (CHR 0x0A) (join NL rows) = rows" using split_on_join_all [of rows "CHR 0x0A"] by (simp add: NL_def)
  then show ?thesis by (simp add: replace_status_rows rows_again rows_def [symmetric])
qed

lemma getSubAgentMeta_SomeD:
  "getSubAgentMeta m = Some meta \<Longrightarrow>
   cm_role m = Activity \<and> cm_activityType m = Some SUBAGENT_ACTIVITY_TYPE \<and> isChatMessageSubAgentMeta meta"
  by (auto simp: getSubAgentMeta_def bind_eq_Some_conv split: if_splits)

lemma subagent_meta_after_sync:
  assumes "getSubAgentMeta m = Some meta"
    and "m' = m\<lparr>cm_content := JObj (map_put ''subAgent'' (JObj (map_put ''agentStatus'' (JStr s) meta)) c)\<rparr>"
  shows "getSubAgentMeta m' = Some (map_put ''agentStatus'' (JStr s) meta)"
proof -
  note m = getSubAgentMeta_SomeD [OF assms(1)]
  have "isChatMessageSubAgentMeta (map_put ''agentStatus'' (JStr s) meta)"
    using m by (simp add: isChatMessageSubAgentMeta_def isOptionalStringProperty_def isOptionalStringArrayProperty_def map_get_put)
  with m show ?thesis by (simp add: getSubAgentMeta_def assms(2) content_field_def object_entries_def map_get_put)
qed

lemma sync_again: "syncSubAgentMessageStatus st (syncSubAgentMessageStatus st m) = syncSubAgentMessageStatus st m"
proof (cases "syncSubAgentMessageStatus st m = m")
  case False
  then obtain meta where meta: "getSubAgentMeta m = Some meta"
    by (auto simp: syncSubAgentMessageStatus_def split: option.splits)
  from False meta obtain nextStatus where found: "receiver_status st meta = Some nextStatus"
    by (auto simp: syncSubAgentMessageStatus_def Let_def split: option.splits if_splits)
  define shown where "shown = replaceSubAgentStatusLine (getMessageText m) nextStatus"
  define c where "c = (case cm_content m of JObj o' \<Rightarrow> o' | _ \<Rightarrow> [])"
  define meta' where "meta' = map_put ''agentStatus'' (JStr (status_name nextStatus)) meta"
  define m' where "m' = m\<lparr>cm_content := JObj (map_put ''subAgent'' (JObj meta') (map_put ''text'' (JStr shown) c))\<rparr>"
  have role: "cm_role m = Activity" using meta by (simp add: getSubAgentMeta_def split: if_splits)
  have sync: "syncSubAgentMessageStatus st m = m'"
    using False meta found role
    by (auto simp: syncSubAgentMessageStatus_def m'_def meta'_def shown_def c_def Let_def split: if_splits)
  have "getSubAgentMeta m' = Some meta'"
    using subagent_meta_after_sync [OF meta, of m' "status_name nextStatus" "map_put ''text'' (JStr shown) c"]
    by (simp add: m'_def meta'_def)
  moreover have "receiver_status st meta' = Some nextStatus" using found by (simp add: meta'_def receiver_status_def arr_field_def field_def map_get_put)
  moreover have "str_field meta' ''agentStatus'' = Some (status_name nextStatus)"
    by (simp add: meta'_def str_field_def map_get_put)
  moreover have "getMessageText m' = shown"
    using role by (simp add: m'_def getMessageText_def readActivityText_def str_field_def map_get_put)
  moreover have "replaceSubAgentStatusLine shown nextStatus = shown" by (simp add: shown_def replace_status_again)
  ultimately have "syncSubAgentMessageStatus st m' = m'" by (simp add: syncSubAgentMessageStatus_def Let_def)
  with sync show ?thesis by simp
qed simp

end
