(* ===== verification/ChatStatus.thy ===== *)
theory ChatStatus
  imports ChatMapping Approvals
begin

text \<open>
  Is a thread at work? \<^verbatim>\<open>features/chat/helpers/status.ts\<close> reads thread ids, status hints and approvals from
  notifications, looks through the tree of sub-agents, and compares two versions of a chat;
  \<^verbatim>\<open>features/chat/session/controllers/chatSyncController.ts\<close> judges the answer of a poll.

  \<open>Date.parse\<close> is the argument \<open>dp\<close> (\<^const>\<open>None\<close> when it is not finite) and \<open>Date.now()\<close> the argument
  \<open>now\<close>. The two functions that shorten markdown for the ticker are not modelled.
\<close>

section \<open>Fields of notifications\<close>

type_synonym wire_record = "(string, json) jsmap"

definition normalizeExternalStatusHint :: "string option \<Rightarrow> string option" where
  "normalizeExternalStatusHint value =
     (case non_empty value of
        None \<Rightarrow> None
      | Some v \<Rightarrow> non_empty (Some (filter is_alnum (to_lower (trim v)))))"

definition THREAD_ID_FIELDS :: "string list" where
  "THREAD_ID_FIELDS = [''thread_id'', ''threadId'', ''conversation_id'', ''conversationId'']"
definition PARENT_THREAD_ID_FIELDS :: "string list" where
  "PARENT_THREAD_ID_FIELDS = [''parent_thread_id'', ''parentThreadId'']"
definition TURN_THREAD_ID_FIELDS :: "string list" where
  "TURN_THREAD_ID_FIELDS = [''thread_id'', ''threadId'']"
definition THREAD_RECORD_FIELDS :: "string list" where
  "THREAD_RECORD_FIELDS = [''thread'', ''threadState'', ''thread_state'']"
definition STATUS_FIELDS :: "string list" where
  "STATUS_FIELDS = [''status'', ''threadStatus'', ''thread_status'', ''state'', ''phase'']"
definition TYPED_STATUS_FIELDS :: "string list" where
  "TYPED_STATUS_FIELDS = [''type'', ''status'', ''state'', ''phase'']"

record lookup_context =
  lc_msg :: "wire_record option"
  lc_thread :: "wire_record option"
  lc_threadSource :: "wire_record option"
  lc_turn :: "wire_record option"
  lc_source :: "wire_record option"
  lc_threadSpawn :: "wire_record option"
  lc_sourceThreadSpawn :: "wire_record option"

definition firstRecord :: "json option list \<Rightarrow> wire_record option" where
  "firstRecord candidates = first_some toRecord candidates"

definition readFirstStringFromRecord :: "valibot \<Rightarrow> wire_record option \<Rightarrow> string list \<Rightarrow> string option" where
  "readFirstStringFromRecord vb r keys =
     (case r of None \<Rightarrow> None | Some m \<Rightarrow> first_some (\<lambda>key. non_empty (readString vb (map_get m key))) keys)"

definition readFirstAvailableString :: "valibot \<Rightarrow> (wire_record option \<times> string list) list \<Rightarrow> string option" where
  "readFirstAvailableString vb sources = first_some (\<lambda>(r, keys). readFirstStringFromRecord vb r keys) sources"

definition extractThreadSpawnRecord :: "wire_record option \<Rightarrow> wire_record option" where
  "extractThreadSpawnRecord r =
     firstRecord [field (firstRecord [field r ''subagent'', field r ''subAgent'']) ''thread_spawn'']"

definition resolveNotificationLookupContext :: "wire_record option \<Rightarrow> wire_record option \<Rightarrow> lookup_context" where
  "resolveNotificationLookupContext params msgArg =
     (let msg = firstRecord [map_option JObj msgArg, field params ''msg''];
          threadRecord = firstRecord [field params ''thread'', field params ''threadState'', field params ''thread_state'',
                                      field msg ''thread''];
          threadSource = firstRecord [field threadRecord ''source''];
          turn = firstRecord [field params ''turn'', field msg ''turn''];
          source = firstRecord [field params ''source'', field msg ''source'']
      in \<lparr>lc_msg = msg, lc_thread = threadRecord, lc_threadSource = threadSource, lc_turn = turn, lc_source = source,
          lc_threadSpawn = extractThreadSpawnRecord source, lc_sourceThreadSpawn = extractThreadSpawnRecord threadSource\<rparr>)"

definition extractNotificationThreadId :: "valibot \<Rightarrow> wire_record option \<Rightarrow> wire_record option \<Rightarrow> string option" where
  "extractNotificationThreadId vb params msgArg =
     (if params = None \<and> msgArg = None then None
      else let c = resolveNotificationLookupContext params msgArg in
        readFirstAvailableString vb
          [(lc_msg c, THREAD_ID_FIELDS), (params, THREAD_ID_FIELDS), (lc_thread c, ''id'' # THREAD_ID_FIELDS),
           (lc_turn c, TURN_THREAD_ID_FIELDS), (lc_source c, THREAD_ID_FIELDS @ PARENT_THREAD_ID_FIELDS),
           (lc_threadSpawn c, PARENT_THREAD_ID_FIELDS), (lc_threadSource c, PARENT_THREAD_ID_FIELDS),
           (lc_sourceThreadSpawn c, PARENT_THREAD_ID_FIELDS)])"

definition extractNotificationParentThreadId ::
  "valibot \<Rightarrow> wire_record option \<Rightarrow> wire_record option \<Rightarrow> string option" where
  "extractNotificationParentThreadId vb params msgArg =
     (if params = None \<and> msgArg = None then None
      else let c = resolveNotificationLookupContext params msgArg in
        readFirstAvailableString vb
          [(lc_source c, PARENT_THREAD_ID_FIELDS), (lc_threadSpawn c, PARENT_THREAD_ID_FIELDS),
           (lc_threadSource c, PARENT_THREAD_ID_FIELDS), (lc_sourceThreadSpawn c, PARENT_THREAD_ID_FIELDS)])"

definition extractStatusHintFromCandidate :: "valibot \<Rightarrow> json option \<Rightarrow> string option" where
  "extractStatusHintFromCandidate vb candidate =
     (case normalizeExternalStatusHint (readString vb candidate) of
        Some direct \<Rightarrow> Some direct
      | None \<Rightarrow>
          (case toRecord candidate of
             Some r \<Rightarrow> normalizeExternalStatusHint (readFirstStringFromRecord vb (Some r) TYPED_STATUS_FIELDS)
           | None \<Rightarrow> None))"

definition extractNestedThreadStatusHint :: "valibot \<Rightarrow> wire_record option \<Rightarrow> string option" where
  "extractNestedThreadStatusHint vb r =
     (case r of
        None \<Rightarrow> None
      | Some m \<Rightarrow>
          normalizeExternalStatusHint (readFirstAvailableString vb
            [(Some m, [''status'']), (toRecord (map_get m ''status''), [''type'']), (Some m, [''state'', ''phase'']),
             (toRecord (map_get m ''lifecycle''), [''status''])]))"

definition extractExternalStatusHint :: "valibot \<Rightarrow> wire_record option \<Rightarrow> string option" where
  "extractExternalStatusHint vb params =
     (case params of
        None \<Rightarrow> None
      | Some p \<Rightarrow>
          (case first_some (\<lambda>key. extractStatusHintFromCandidate vb (map_get p key)) STATUS_FIELDS of
             Some hint \<Rightarrow> Some hint
           | None \<Rightarrow> extractNestedThreadStatusHint vb (firstRecord (map (map_get p) THREAD_RECORD_FIELDS))))"


section \<open>Approvals in notifications\<close>

definition isPendingApprovalKind :: "string option \<Rightarrow> bool" where
  "isPendingApprovalKind value \<longleftrightarrow> value = Some ''commandExecution'' \<or> value = Some ''fileChange''"

definition extractPendingApprovalOption :: "valibot \<Rightarrow> json \<Rightarrow> approval_option option" where
  "extractPendingApprovalOption vb value =
     (let option = toRecord (Some value) in
      case (non_empty (readString vb (field option ''id'')), readFirstStringFromRecord vb option [''label'', ''name'']) of
        (Some optionId, Some label) \<Rightarrow>
          Some \<lparr>ao_id = optionId, ao_label = label, ao_kind = readString vb (field option ''kind'')\<rparr>
      | _ \<Rightarrow> None)"

definition extractPendingApprovalOptions :: "valibot \<Rightarrow> json option \<Rightarrow> approval_option list" where
  "extractPendingApprovalOptions vb value =
     (case value of Some (JArr xs) \<Rightarrow> List.map_filter (extractPendingApprovalOption vb) xs | _ \<Rightarrow> [])"

text \<open>The fields that have to be there: request, kind, thread, turn, item and time.\<close>

definition extractPendingApprovalBase ::
  "valibot \<Rightarrow> wire_record \<Rightarrow> (string \<times> string \<times> string \<times> string \<times> string \<times> string) option" where
  "extractPendingApprovalBase vb r =
     (let get = (\<lambda>key. readString vb (map_get r key));
          requestId = readFirstStringFromRecord vb (Some r) [''requestId'', ''id''];
          kind = get ''kind''
      in case (requestId, kind, non_empty (get ''threadId''), non_empty (get ''turnId''), non_empty (get ''itemId''),
               non_empty (get ''requestedAt'')) of
           (Some q, Some k, Some t, Some u, Some i, Some a) \<Rightarrow>
             if isPendingApprovalKind kind then Some (q, k, t, u, i, a) else None
         | _ \<Rightarrow> None)"

definition toPendingApproval :: "valibot \<Rightarrow> json option \<Rightarrow> pending_approval option" where
  "toPendingApproval vb value =
     (case toRecord value of
        None \<Rightarrow> None
      | Some r \<Rightarrow>
          let get = (\<lambda>key. readString vb (map_get r key));
              first = (\<lambda>keys. or_empty (readFirstStringFromRecord vb (Some r) keys))
          in case extractPendingApprovalBase vb r of
               None \<Rightarrow> None
             | Some (requestId, kind, threadId, turnId, itemId, requestedAt) \<Rightarrow>
                 Some \<lparr>pa_requestId = requestId, pa_agentId = or_empty (get ''agentId''), pa_kind = kind,
                       pa_threadId = threadId, pa_turnId = turnId, pa_itemId = itemId,
                       pa_title = first [''title'', ''reason''], pa_message = first [''message'', ''reason''],
                       pa_requestedAt = requestedAt, pa_reason = get ''reason'', pa_command = get ''command'',
                       pa_cwd = get ''cwd'', pa_grantRoot = get ''grantRoot'',
                       pa_amendment = readNonEmptyStringArray vb (map_get r ''proposedExecpolicyAmendment''),
                       pa_options = extractPendingApprovalOptions vb (map_get r ''options'')\<rparr>)"


section \<open>Threads below a thread\<close>

definition add_to_parent :: "string \<Rightarrow> chat_summary \<Rightarrow> (string, chat_summary list) jsmap \<Rightarrow> (string, chat_summary list) jsmap" where
  "add_to_parent threadId c m =
     (case non_empty (ct_parentThreadId c) of
        Some p \<Rightarrow>
          if ct_id c = threadId then m
          else map_put p (case map_get m p of Some siblings \<Rightarrow> siblings @ [c] | None \<Rightarrow> [c]) m
      | None \<Rightarrow> m)"

definition byParent :: "string \<Rightarrow> chat_summary list \<Rightarrow> (string, chat_summary list) jsmap" where
  "byParent threadId threads = fold (add_to_parent threadId) threads []"

record search =
  se_seen :: "string list"
  se_descendants :: "chat_summary list"
  se_queue :: "string list"

definition visit_child :: "chat_summary \<Rightarrow> search \<Rightarrow> search" where
  "visit_child child s =
     (if ct_id child \<in> set (se_seen s) then s
      else s\<lparr>se_seen := se_seen s @ [ct_id child], se_descendants := se_descendants s @ [child],
             se_queue := se_queue s @ [ct_id child]\<rparr>)"

definition entries_of :: "(string, chat_summary list) jsmap \<Rightarrow> string \<Rightarrow> chat_summary list" where
  "entries_of m p = (case map_get m p of Some cs \<Rightarrow> cs | None \<Rightarrow> [])"

text \<open>The ids that the map mentions and the search has not seen yet.\<close>

definition unseen :: "(string, chat_summary list) jsmap \<Rightarrow> string list \<Rightarrow> string set" where
  "unseen m seen = ct_id ` (\<Union>p. set (entries_of m p)) - set seen"

lemma finite_unseen [simp]: "finite (unseen m seen)"
proof -
  have "set (entries_of m p) \<subseteq> (\<Union>cs\<in>ran (map_of m). set cs)" for p
    by (cases "map_of m p") (auto simp: entries_of_def intro: ranI)
  then have "(\<Union>p. set (entries_of m p)) \<subseteq> (\<Union>cs\<in>ran (map_of m). set cs)" by blast
  moreover have "finite (\<Union>cs\<in>ran (map_of m). set cs)" by (intro finite_UN_I finite_ran) (simp_all add: finite_dom_map_of)
  ultimately show ?thesis unfolding unseen_def by (meson finite_Diff finite_imageI finite_subset)
qed

text \<open>Every thread that a step puts into the queue leaves the set of unseen ids.\<close>

lemma visit_children_measure:
  "\<forall>c\<in>set cs. \<exists>p. c \<in> set (entries_of m p) \<Longrightarrow>
   length (se_queue (fold visit_child cs s)) + card (unseen m (se_seen (fold visit_child cs s)))
     = length (se_queue s) + card (unseen m (se_seen s))"
proof (induction cs arbitrary: s)
  case (Cons c cs)
  have "length (se_queue (visit_child c s)) + card (unseen m (se_seen (visit_child c s)))
      = length (se_queue s) + card (unseen m (se_seen s))"
  proof (cases "ct_id c \<in> set (se_seen s)")
    case False
    with Cons.prems have "ct_id c \<in> unseen m (se_seen s)" by (auto simp: unseen_def)
    moreover have "unseen m (se_seen s @ [ct_id c]) = unseen m (se_seen s) - {ct_id c}" by (auto simp: unseen_def)
    ultimately have "Suc (card (unseen m (se_seen s @ [ct_id c]))) = card (unseen m (se_seen s))"
      using card_Suc_Diff1 [of "unseen m (se_seen s)" "ct_id c"] by simp
    with False show ?thesis by (simp add: visit_child_def)
  qed (simp add: visit_child_def)
  with Cons show ?case by simp
qed simp

function search_loop :: "(string, chat_summary list) jsmap \<Rightarrow> search \<Rightarrow> chat_summary list" where
  "search_loop m s =
     (case se_queue s of
        [] \<Rightarrow> se_descendants s
      | current # rest \<Rightarrow> search_loop m (fold visit_child (entries_of m current) (s\<lparr>se_queue := rest\<rparr>)))"
  by pat_completeness auto
termination
proof (relation "measure (\<lambda>(m, s). length (se_queue s) + card (unseen m (se_seen s)))")
  fix m :: "(string, chat_summary list) jsmap" and s :: search and current rest
  assume "se_queue s = current # rest"
  then show "((m, fold visit_child (entries_of m current) (s\<lparr>se_queue := rest\<rparr>)), m, s)
      \<in> measure (\<lambda>(m, s). length (se_queue s) + card (unseen m (se_seen s)))"
    using visit_children_measure [of "entries_of m current" m "s\<lparr>se_queue := rest\<rparr>"] by (simp add: exI [of _ current])
qed simp

declare search_loop.simps [simp del]

definition descendantsOf :: "string \<Rightarrow> chat_summary list \<Rightarrow> chat_summary list" where
  "descendantsOf threadId threads =
     search_loop (byParent threadId threads) \<lparr>se_seen = [threadId], se_descendants = [], se_queue = [threadId]\<rparr>"


section \<open>Running chats\<close>

definition LIKELY_RUNNING_RECENT_UPDATE_MS :: rat where "LIKELY_RUNNING_RECENT_UPDATE_MS = 30000"
definition UNANSWERED_USER_RUNNING_TTL_MS :: rat where "UNANSWERED_USER_RUNNING_TTL_MS = 90000"

definition isChatSummaryLikelyRunning :: "'a chat_summary_scheme \<Rightarrow> bool" where
  "isChatSummaryLikelyRunning c \<longleftrightarrow> ct_status c = StRunning"

definition isChatLikelyRunning :: "(string \<Rightarrow> rat option) \<Rightarrow> rat \<Rightarrow> chat \<Rightarrow> bool" where
  "isChatLikelyRunning dp now c =
     (if ct_status c = StRunning then True
      else if ct_status c = StError \<or> ct_status c = StComplete \<or> ct_status c = StIdle then False
      else if ct_messages c = [] \<or> cm_role (last (ct_messages c)) \<noteq> User then False
      else (case dp (cm_createdAt (last (ct_messages c))) of
              Some sentAt \<Rightarrow> now - sentAt < LIKELY_RUNNING_RECENT_UPDATE_MS
            | None \<Rightarrow> False))"

definition isThreadOrSubAgentRunning ::
  "(string \<Rightarrow> rat option) \<Rightarrow> rat \<Rightarrow> chat option \<Rightarrow> chat_summary list \<Rightarrow> bool" where
  "isThreadOrSubAgentRunning dp now chat related =
     (case chat of
        None \<Rightarrow> False
      | Some c \<Rightarrow>
          if isChatLikelyRunning dp now c then True
          else list_ex isChatSummaryLikelyRunning (descendantsOf (ct_id c) related))"

definition hasRecentUnansweredUserTurn :: "(string \<Rightarrow> rat option) \<Rightarrow> rat \<Rightarrow> chat \<Rightarrow> bool" where
  "hasRecentUnansweredUserTurn dp now c =
     (let later = takeWhile (\<lambda>m. cm_role m \<noteq> User) (rev (ct_messages c)) in
      case drop (length later) (rev (ct_messages c)) of
        [] \<Rightarrow> False
      | lastUser # _ \<Rightarrow>
          if list_ex (\<lambda>m. cm_role m = Assistant) later then False
          else (case dp (cm_createdAt lastUser) of
                  None \<Rightarrow> False
                | Some createdAt \<Rightarrow> now - createdAt < UNANSWERED_USER_RUNNING_TTL_MS))"

definition latestAssistantMessage :: "chat_message list \<Rightarrow> chat_message option" where
  "latestAssistantMessage messages = List.find (\<lambda>m. cm_role m = Assistant) (rev messages)"

definition didAssistantMessageProgress :: "chat option \<Rightarrow> chat \<Rightarrow> bool" where
  "didAssistantMessageProgress previous nxt =
     (case previous of
        None \<Rightarrow> False
      | Some p \<Rightarrow>
          if ct_id p \<noteq> ct_id nxt \<or> ct_messages p = [] then False
          else (case (latestAssistantMessage (ct_messages p), latestAssistantMessage (ct_messages nxt)) of
                  (_, None) \<Rightarrow> False
                | (None, Some n) \<Rightarrow> trim (getMessageText n) \<noteq> []
                | (Some o', Some n) \<Rightarrow>
                    if cm_id n = cm_id o' then length (getMessageText n) > length (getMessageText o')
                    else length (ct_messages nxt) > length (ct_messages p) \<and> trim (getMessageText n) \<noteq> []))"


section \<open>The activity of the header\<close>

datatype activity_tone = ToneRunning | ToneComplete | ToneError | ToneIdle

record activity_state =
  ay_tone :: activity_tone
  ay_title :: string
  ay_detail :: "string option"

definition OPENING_CHAT_ACTIVITY_TITLE :: string where "OPENING_CHAT_ACTIVITY_TITLE = ''Opening chat''"

definition resolveSettledActivity :: "chat \<Rightarrow> activity_state" where
  "resolveSettledActivity c =
     (if ct_status c = StComplete then \<lparr>ay_tone = ToneComplete, ay_title = ''Turn completed'', ay_detail = None\<rparr>
      else if ct_status c = StError then \<lparr>ay_tone = ToneError, ay_title = ''Turn failed'', ay_detail = ct_lastError c\<rparr>
      else \<lparr>ay_tone = ToneIdle, ay_title = ''Ready'', ay_detail = None\<rparr>)"

definition retireOpeningChatActivity :: "activity_state \<Rightarrow> chat \<Rightarrow> activity_state" where
  "retireOpeningChatActivity current c =
     (if ay_tone current \<noteq> ToneRunning \<or> ay_title current \<noteq> OPENING_CHAT_ACTIVITY_TITLE then current
      else resolveSettledActivity c)"


section \<open>Polling\<close>

definition RUN_WATCHDOG_MS :: int where "RUN_WATCHDOG_MS = 60000"
definition ACTIVE_CHAT_SYNC_INTERVAL_MS :: int where "ACTIVE_CHAT_SYNC_INTERVAL_MS = 2000"
definition IDLE_CHAT_SYNC_INTERVAL_MS :: int where "IDLE_CHAT_SYNC_INTERVAL_MS = 5000"
definition BACKGROUND_CHAT_SYNC_INTERVAL_MS :: int where "BACKGROUND_CHAT_SYNC_INTERVAL_MS = 15000"

record sync_assessment =
  sy_terminal :: bool
  sy_shouldShowRunning :: bool
  sy_shouldRefreshWatchdog :: bool
  sy_watchdogDurationMs :: int

definition assessChatSync ::
  "(string \<Rightarrow> rat option) \<Rightarrow> rat \<Rightarrow> chat option \<Rightarrow> chat \<Rightarrow> bool \<Rightarrow> sync_assessment" where
  "assessChatSync dp now previous latest watchdogActive =
     (let hasTerminalStatus = ct_status latest = StComplete \<or> ct_status latest = StError;
          pendingUserMessage = \<not> hasTerminalStatus \<and> hasRecentUnansweredUserTurn dp now latest;
          terminal = hasTerminalStatus \<or> (ct_status latest = StIdle \<and> \<not> pendingUserMessage);
          assistantProgress = \<not> terminal \<and> didAssistantMessageProgress previous latest;
          runningFromChat = isChatLikelyRunning dp now latest \<or> assistantProgress \<or> pendingUserMessage
      in \<lparr>sy_terminal = terminal, sy_shouldShowRunning = \<not> terminal \<and> (runningFromChat \<or> watchdogActive),
          sy_shouldRefreshWatchdog = \<not> terminal \<and> runningFromChat,
          sy_watchdogDurationMs = (if assistantProgress \<and> \<not> isChatLikelyRunning dp now latest
            then RUN_WATCHDOG_MS div 4 else RUN_WATCHDOG_MS)\<rparr>)"

definition getChatSyncInterval :: "bool \<Rightarrow> bool \<Rightarrow> int" where
  "getChatSyncInterval appActive turnActive =
     (if \<not> appActive then BACKGROUND_CHAT_SYNC_INTERVAL_MS
      else if turnActive then ACTIVE_CHAT_SYNC_INTERVAL_MS else IDLE_CHAT_SYNC_INTERVAL_MS)"


section \<open>The search finds the threads below a thread\<close>

text \<open>A thread is below another one through a chain of parents. Threads with the id of the root itself do not count.\<close>

definition has_parent :: "string \<Rightarrow> chat_summary list \<Rightarrow> string \<Rightarrow> chat_summary \<Rightarrow> bool" where
  "has_parent t threads p c \<longleftrightarrow> c \<in> set threads \<and> p \<noteq> [] \<and> ct_parentThreadId c = Some p \<and> ct_id c \<noteq> t"

inductive below :: "string \<Rightarrow> chat_summary list \<Rightarrow> chat_summary \<Rightarrow> bool" for t threads where
  child: "has_parent t threads t c \<Longrightarrow> below t threads c"
| further: "below t threads d \<Longrightarrow> has_parent t threads (ct_id d) c \<Longrightarrow> below t threads c"

lemma below_mem: "below t threads c \<Longrightarrow> c \<in> set threads"
  by (induction rule: below.induct) (simp_all add: has_parent_def)

lemma entries_of_put: "entries_of (map_put k v m) p = (if p = k then v else entries_of m p)"
  by (simp add: entries_of_def map_get_put)

lemma add_to_parent_entries:
  "set (entries_of (add_to_parent t c m) p)
     = set (entries_of m p) \<union> (if p \<noteq> [] \<and> ct_parentThreadId c = Some p \<and> ct_id c \<noteq> t then {c} else {})"
proof -
  have "add_to_parent t c m = (case non_empty (ct_parentThreadId c) of
      Some q \<Rightarrow> if ct_id c = t then m else map_put q (entries_of m q @ [c]) m | None \<Rightarrow> m)"
    by (simp add: add_to_parent_def entries_of_def split: option.split)
  then show ?thesis by (auto simp: entries_of_put non_empty_def split: option.splits if_splits)
qed

lemma fold_add_to_parent:
  "set (entries_of (fold (add_to_parent t) threads m) p) = set (entries_of m p) \<union> {c. has_parent t threads p c}"
  by (induction threads arbitrary: m) (auto simp: add_to_parent_entries has_parent_def)

lemma byParent_entries: "set (entries_of (byParent t threads) p) = {c. has_parent t threads p c}"
  by (simp add: byParent_def fold_add_to_parent) (simp add: entries_of_def)

definition search_ok :: "string \<Rightarrow> chat_summary list \<Rightarrow> search \<Rightarrow> bool" where
  "search_ok t threads s \<longleftrightarrow>
     se_seen s = t # map ct_id (se_descendants s) \<and> distinct (se_seen s) \<and>
     (\<forall>d\<in>set (se_descendants s). below t threads d) \<and> set (se_queue s) \<subseteq> set (se_seen s)"

text \<open>The children of a thread that has left the queue have been seen.\<close>

definition explored :: "string \<Rightarrow> chat_summary list \<Rightarrow> search \<Rightarrow> bool" where
  "explored t threads s \<longleftrightarrow>
     (\<forall>p\<in>set (se_seen s) - set (se_queue s). \<forall>c. has_parent t threads p c \<longrightarrow> ct_id c \<in> set (se_seen s))"

lemma visit_child_ok: "search_ok t threads s \<Longrightarrow> below t threads c \<Longrightarrow> search_ok t threads (visit_child c s)"
  by (auto simp: search_ok_def visit_child_def)

lemma visit_children_ok:
  "search_ok t threads s \<Longrightarrow> \<forall>c\<in>set cs. below t threads c \<Longrightarrow> search_ok t threads (fold visit_child cs s)"
  by (induction cs arbitrary: s) (simp_all add: visit_child_ok)

lemma visit_children_seen:
  "set (se_seen s) \<union> ct_id ` set cs = set (se_seen (fold visit_child cs s)) \<and>
   set (se_queue s) \<subseteq> set (se_queue (fold visit_child cs s)) \<and>
   set (se_seen (fold visit_child cs s)) - set (se_queue (fold visit_child cs s)) \<subseteq> set (se_seen s) - set (se_queue s)"
proof (induction cs arbitrary: s)
  case (Cons c cs)
  have "set (se_seen (visit_child c s)) = insert (ct_id c) (set (se_seen s))"
    "set (se_queue s) \<subseteq> set (se_queue (visit_child c s))"
    "set (se_seen (visit_child c s)) - set (se_queue (visit_child c s)) \<subseteq> set (se_seen s) - set (se_queue s)"
    by (auto simp: visit_child_def)
  with Cons [of "visit_child c s"] show ?case by auto
qed simp

lemma search_step:
  assumes "search_ok t threads s" "explored t threads s" "se_queue s = current # rest"
  defines "s' \<equiv> fold visit_child (entries_of (byParent t threads) current) (s\<lparr>se_queue := rest\<rparr>)"
  shows "search_ok t threads s' \<and> explored t threads s'"
proof -
  let ?s' = s'
  let ?cs = "entries_of (byParent t threads) current" and ?s = "s\<lparr>se_queue := rest\<rparr>"
  have cs: "has_parent t threads current c \<longleftrightarrow> c \<in> set ?cs" for c by (simp add: byParent_entries)
  have ok: "search_ok t threads ?s" using assms(1,3) by (auto simp: search_ok_def)
  have "current \<in> set (se_seen s)" using assms(1,3) by (auto simp: search_ok_def)
  then have "below t threads c" if "c \<in> set ?cs" for c
    using that assms(1) cs [of c] by (auto simp: search_ok_def intro: below.intros)
  with ok have "search_ok t threads ?s'" by (simp add: visit_children_ok s'_def)
  have seen: "set (se_seen s) \<union> ct_id ` set ?cs = set (se_seen ?s')"
    "set (se_seen ?s') - set (se_queue ?s') \<subseteq> set (se_seen s) - set rest"
    using visit_children_seen [of ?s ?cs] by (simp_all add: s'_def)
  have "explored t threads ?s'"
    unfolding explored_def
  proof (intro ballI allI impI)
    fix p c
    assume p: "p \<in> set (se_seen ?s') - set (se_queue ?s')" and c: "has_parent t threads p c"
    show "ct_id c \<in> set (se_seen ?s')"
    proof (cases "p = current")
      case True
      with c cs seen(1) show ?thesis by blast
    next
      case False
      with p seen(2) assms(3) have "p \<in> set (se_seen s) - set (se_queue s)" by auto
      with c assms(2) seen(1) show ?thesis by (auto simp: explored_def)
    qed
  qed
  with \<open>search_ok t threads ?s'\<close> show ?thesis ..
qed

lemma search_loop_result:
  "search_ok t threads s \<Longrightarrow> explored t threads s \<Longrightarrow>
   distinct (t # map ct_id (search_loop (byParent t threads) s)) \<and>
   (\<forall>d\<in>set (search_loop (byParent t threads) s). below t threads d) \<and>
   (\<forall>c. below t threads c \<longrightarrow> ct_id c \<in> ct_id ` set (search_loop (byParent t threads) s))"
proof (induction "length (se_queue s) + card (unseen (byParent t threads) (se_seen s))" arbitrary: s rule: less_induct)
  case less
  show ?case
  proof (cases "se_queue s")
    case Nil
    have "ct_id c \<in> set (se_seen s)" if "below t threads c" for c
      using that
    proof (induction rule: below.induct)
      case (child c)
      then show ?case using less.prems Nil by (auto simp: explored_def search_ok_def)
    next
      case (further d c)
      then show ?case using less.prems Nil by (auto simp: explored_def)
    qed
    moreover have "ct_id c \<noteq> t" if "below t threads c" for c
      using that by (cases rule: below.cases) (simp_all add: has_parent_def)
    ultimately have "ct_id c \<in> ct_id ` set (se_descendants s)" if "below t threads c" for c
      using less.prems(1) that by (force simp: search_ok_def)
    moreover have "search_loop (byParent t threads) s = se_descendants s" by (subst search_loop.simps) (simp add: Nil)
    moreover have "distinct (t # map ct_id (se_descendants s))" "\<forall>d\<in>set (se_descendants s). below t threads d"
      using less.prems(1) by (auto simp: search_ok_def)
    ultimately show ?thesis by simp
  next
    case (Cons current rest)
    let ?cs = "entries_of (byParent t threads) current"
    let ?s = "fold visit_child ?cs (s\<lparr>se_queue := rest\<rparr>)"
    have "length (se_queue ?s) + card (unseen (byParent t threads) (se_seen ?s))
        < length (se_queue s) + card (unseen (byParent t threads) (se_seen s))"
      using visit_children_measure [of ?cs "byParent t threads" "s\<lparr>se_queue := rest\<rparr>"] Cons by (simp add: exI [of _ current])
    note IH = less.hyps [OF this search_step [OF less.prems Cons, THEN conjunct1] search_step [OF less.prems Cons, THEN conjunct2]]
    have step: "search_loop (byParent t threads) s = search_loop (byParent t threads) ?s"
      by (subst search_loop.simps) (simp add: Cons)
    show ?thesis unfolding step by (rule IH)
  qed
qed

lemma descendantsOf_result:
  shows "distinct (t # map ct_id (descendantsOf t threads))"
    and "\<forall>d\<in>set (descendantsOf t threads). below t threads d"
    and "below t threads c \<Longrightarrow> ct_id c \<in> ct_id ` set (descendantsOf t threads)"
  using search_loop_result [of t threads "\<lparr>se_seen = [t], se_descendants = [], se_queue = [t]\<rparr>"]
  by (auto simp: descendantsOf_def search_ok_def explored_def)

lemma descendantsOf_set:
  assumes "distinct (map ct_id threads)"
  shows "set (descendantsOf t threads) = {c. below t threads c}"
proof -
  have "c \<in> set (descendantsOf t threads)" if below: "below t threads c" for c
  proof -
    obtain d where d: "d \<in> set (descendantsOf t threads)" "ct_id d = ct_id c"
      using descendantsOf_result(3) [OF below] by (auto simp: image_iff)
    then have "d \<in> set threads" "c \<in> set threads"
      using descendantsOf_result(2) [of t threads] below by (auto intro: below_mem)
    with d(2) assms have "d = c" by (simp add: distinct_map inj_on_def)
    with d(1) show ?thesis by simp
  qed
  then show ?thesis using descendantsOf_result(2) [of t threads] by auto
qed

text \<open>A status is one of four, so the age of the last message is never looked at.\<close>

lemma isChatLikelyRunning_status: "isChatLikelyRunning dp now c \<longleftrightarrow> ct_status c = StRunning"
  by (cases "ct_status c") (simp_all add: isChatLikelyRunning_def)

text \<open>
  C39. A chat is shown as working exactly if it is running itself or a thread below it, through any number of parents, is
  running, whatever order the related threads come in and whatever cycles their parents form. Threads of another chat,
  ancestors and siblings never count.
\<close>

theorem working_thread:
  assumes "distinct (map ct_id related)"
  shows "isThreadOrSubAgentRunning dp now (Some c) related \<longleftrightarrow>
    ct_status c = StRunning \<or> (\<exists>d. below (ct_id c) related d \<and> ct_status d = StRunning)"
  using descendantsOf_set [OF assms, of "ct_id c"]
  by (auto simp: isThreadOrSubAgentRunning_def isChatLikelyRunning_status list_ex_iff isChatSummaryLikelyRunning_def)

definition child_of :: "string \<Rightarrow> string \<Rightarrow> chat_status \<Rightarrow> chat_summary" where
  "child_of p i st = (blank_summary i i [])\<lparr>ct_parentThreadId := Some p, ct_status := st\<rparr>"

definition demo_threads :: "chat_summary list" where
  "demo_threads = [child_of ''b'' ''c'' StRunning, child_of ''a'' ''b'' StIdle, child_of ''c'' ''a'' StIdle, child_of ''x'' ''y'' StRunning]"

theorem working_thread_witness:
  "isThreadOrSubAgentRunning (\<lambda>_. None) 0 (Some (blank_chat ''a'' StComplete [])) demo_threads \<and>
   \<not> isThreadOrSubAgentRunning (\<lambda>_. None) 0 (Some (blank_chat ''y'' StComplete [])) demo_threads"
proof -
  have d: "distinct (map ct_id demo_threads)" by (simp add: demo_threads_def child_of_def blank_summary_def)
  have "below ''a'' demo_threads (child_of ''a'' ''b'' StIdle)"
    by (rule below.child) (simp add: has_parent_def demo_threads_def child_of_def blank_summary_def)
  then have "below ''a'' demo_threads (child_of ''b'' ''c'' StRunning)"
    by (rule below.further) (simp add: has_parent_def demo_threads_def child_of_def blank_summary_def)
  moreover have "\<not> below ''y'' demo_threads e" for e
    by (rule notI, induction rule: below.induct) (auto simp: has_parent_def demo_threads_def child_of_def blank_summary_def)
  moreover have "ct_status (child_of ''b'' ''c'' StRunning) = StRunning" by (simp add: child_of_def)
  moreover have "ct_id (blank_chat ''a'' StComplete []) = ''a''" "ct_id (blank_chat ''y'' StComplete []) = ''y''"
    "ct_status (blank_chat ''y'' StComplete []) = StComplete"
    by (simp_all add: blank_chat_def blank_summary_def chat_summary.defs)
  ultimately show ?thesis
    unfolding working_thread [OF d, of _ _ "blank_chat ''a'' StComplete []"]
      working_thread [OF d, of _ _ "blank_chat ''y'' StComplete []"] by auto
qed


section \<open>A poll settles\<close>

lemma progress_irreflexive: "\<not> didAssistantMessageProgress (Some c) c"
  by (simp add: didAssistantMessageProgress_def split: option.splits)

text \<open>
  The judgement of a poll: a finished or failed chat is settled whatever the watchdog says; an idle chat stays open only
  after a recent prompt without an answer. Everything else is shown as running and arms the watchdog again, for a quarter of
  a minute when only the transcript moved. The watchdog's own state never decides.
\<close>

theorem poll_settles:
  "let r = assessChatSync dp now previous latest watchdogActive;
       open_prompt = (ct_status latest = StIdle \<and> hasRecentUnansweredUserTurn dp now latest)
   in (sy_terminal r \<longleftrightarrow> ct_status latest \<noteq> StRunning \<and> \<not> open_prompt) \<and>
      (if sy_terminal r then \<not> sy_shouldShowRunning r \<and> \<not> sy_shouldRefreshWatchdog r
       else sy_shouldShowRunning r \<and> sy_shouldRefreshWatchdog r) \<and>
      sy_watchdogDurationMs r =
        (if ct_status latest \<noteq> StRunning \<and> open_prompt \<and> didAssistantMessageProgress previous latest then 15000 else 60000) \<and>
      \<not> didAssistantMessageProgress (Some latest) latest"
  by (cases "ct_status latest")
    (simp_all add: assessChatSync_def isChatLikelyRunning_status progress_irreflexive RUN_WATCHDOG_MS_def Let_def)

text \<open>A prompt without an answer stops counting after 90 seconds, so an idle chat settles.\<close>

lemma idle_chat_settles:
  assumes "ct_status c = StIdle" "\<forall>m\<in>set (ct_messages c). \<forall>t. dp (cm_createdAt m) = Some t \<longrightarrow> t + 90000 \<le> now"
  shows "sy_terminal (assessChatSync dp now previous c watchdogActive)"
proof -
  have "\<not> hasRecentUnansweredUserTurn dp now c"
  proof (cases "drop (length (takeWhile (\<lambda>m. cm_role m \<noteq> User) (rev (ct_messages c)))) (rev (ct_messages c))")
    case (Cons lastUser rest)
    then have "lastUser \<in> set (ct_messages c)" by (metis in_set_dropD list.set_intros(1) set_rev)
    then show ?thesis using assms(2) Cons
      by (auto simp: hasRecentUnansweredUserTurn_def Let_def UNANSWERED_USER_RUNNING_TTL_MS_def split: option.splits)
  qed (simp add: hasRecentUnansweredUserTurn_def)
  then show ?thesis by (simp add: assessChatSync_def assms(1) Let_def)
qed

end
