(* ===== verification/Projection.thy ===== *)
theory Projection
  imports TranscriptMessages AgUiInvariants ChatStatus
begin

text \<open>
  \<^verbatim>\<open>features/chat/transcript/controllers/projectionController.ts\<close>: the transcript that is shown is the persisted chat,
  without what a sub-agent inherits from its parent, merged with the messages of the running stream. The time of the
  clock is the argument \<open>now\<close>. Objects are compared by reference in \<open>replacePersistedLiveMessage\<close>; the model
  gives the position of the persisted message instead.
\<close>

section \<open>The base of the projection\<close>

record projection_base =
  pb_messages :: "chat_message list"
  pb_liveMessages :: "chat_message list"
  pb_replaced :: "string set"
  pb_hidden :: nat

definition carriesToolActivity :: "chat_message \<Rightarrow> bool" where
  "carriesToolActivity m \<longleftrightarrow> cm_toolMeta m \<noteq> None \<or> (cm_role m = Assistant \<and> tool_calls m \<noteq> [])"

definition isTransientUserMessage :: "chat_message \<Rightarrow> bool" where
  "isTransientUserMessage m \<longleftrightarrow>
     cm_role m = User \<and> (starts_with (cm_id m) ''msg-'' \<or> starts_with (cm_id m) ''local-user-'')"

definition confirms_transient :: "string \<Rightarrow> chat_message option \<Rightarrow> bool" where
  "confirms_transient content neighbor =
     (case neighbor of
        None \<Rightarrow> False
      | Some n \<Rightarrow> cm_role n = User \<and> \<not> isTransientUserMessage n \<and>
                  normalizeChatMessageMatchContent (getMessageText n) = content)"

definition kept_by_dedupe :: "chat_message option \<Rightarrow> chat_message \<Rightarrow> chat_message option \<Rightarrow> bool" where
  "kept_by_dedupe previous m following =
     (if \<not> isTransientUserMessage m then True
      else let content = normalizeChatMessageMatchContent (getMessageText m) in
        if content = [] then True
        else \<not> (confirms_transient content previous \<or> confirms_transient content following))"

definition nth_option :: "'a list \<Rightarrow> nat \<Rightarrow> 'a option" where
  "nth_option xs i = (if i < length xs then Some (xs ! i) else None)"

definition dedupeTransientUserMessages :: "chat_message list \<Rightarrow> chat_message list" where
  "dedupeTransientUserMessages ms =
     map (\<lambda>i. ms ! i)
       (filter (\<lambda>i. kept_by_dedupe (if i = 0 then None else nth_option ms (i - 1)) (ms ! i) (nth_option ms (i + 1)))
          [0..<length ms])"

definition getProjectedParentMessages :: "chat \<Rightarrow> chat option \<Rightarrow> bool \<Rightarrow> chat_message list option" where
  "getProjectedParentMessages c parentChat showToolCalls =
     (case (non_empty (ct_parentThreadId c), parentChat) of
        (Some _, Some p) \<Rightarrow> Some (getVisibleTranscriptMessages (filterReasoningMessages (ct_messages p)) showToolCalls)
      | _ \<Rightarrow> None)"

definition buildTranscriptProjectionBase ::
  "chat \<Rightarrow> chat option \<Rightarrow> bool \<Rightarrow> (string, chat_status) jsmap \<Rightarrow> agui_thread option \<Rightarrow> projection_base" where
  "buildTranscriptProjectionBase c parentChat showToolCalls threadStatuses live =
     (let childMessages = getVisibleTranscriptMessages (filterReasoningMessages (ct_messages c)) showToolCalls;
          parentMessages = getProjectedParentMessages c parentChat showToolCalls;
          (inherited, hidden) = (case parentMessages of
             Some ps \<Rightarrow> trimInheritedParentMessages ps childMessages (Some (ct_id c)) | None \<Rightarrow> (childMessages, 0));
          messages = dedupeTransientUserMessages (syncVisibleSubAgentStatuses inherited threadStatuses);
          rawLiveMessages = (case live of Some t \<Rightarrow> th_messages t | None \<Rightarrow> [])
      in \<lparr>pb_messages = messages,
          pb_liveMessages = (case parentMessages of
             Some ps \<Rightarrow> fst (trimInheritedParentMessages ps rawLiveMessages (Some (ct_id c))) | None \<Rightarrow> rawLiveMessages),
          pb_replaced = (case live of Some t \<Rightarrow> snd ` set (th_replacesMessageId t) | None \<Rightarrow> {}),
          pb_hidden = hidden\<rparr>)"


section \<open>Authoritative snapshots\<close>

definition hasVisibleLiveMessageContent :: "chat_message \<Rightarrow> bool" where
  "hasVisibleLiveMessageContent m \<longleftrightarrow> trim (getMessageText m) \<noteq> [] \<or> carriesToolActivity m"

text \<open>\<open>a || b || now()\<close> on dates, and the usage of a message, where \<open>null\<close> counts as missing.\<close>

definition date_or :: "string \<Rightarrow> string \<Rightarrow> string" where
  "date_or a b = (if a \<noteq> [] then a else b)"

definition usage_of :: "chat_message \<Rightarrow> json option" where
  "usage_of m = (case cm_usage m of Some JNull \<Rightarrow> None | u \<Rightarrow> u)"

definition projected_live :: "js_lib \<Rightarrow> (string, chat_message) jsmap \<Rightarrow> chat_message \<Rightarrow> chat_message" where
  "projected_live lib persistedById m =
     (let persisted = map_get persistedById (cm_id m);
          parts = or_else (Option.bind persisted cm_parts) (cm_parts m)
      in m\<lparr>cm_createdAt := date_or (case persisted of Some p \<Rightarrow> cm_createdAt p | None \<Rightarrow> [])
                             (date_or (cm_createdAt m) (js_now lib)),
           cm_usage := or_else (usage_of m) (Option.bind persisted usage_of),
           cm_parts := (if partsMatchMessageContent lib parts (cm_content m) then parts else None)\<rparr>)"

definition projectAuthoritativeLiveMessages ::
  "js_lib \<Rightarrow> chat_message list \<Rightarrow> chat_message list \<Rightarrow> string set \<Rightarrow> chat_message list" where
  "projectAuthoritativeLiveMessages lib messages liveMessages replaced =
     map (projected_live lib (map_by cm_id messages))
       (filter (\<lambda>m. cm_id m \<notin> replaced \<and> hasVisibleLiveMessageContent m) liveMessages)"

text \<open>The first and the last covered index; \<^const>\<open>None\<close> is -1.\<close>

definition getAuthoritativeSnapshotCoverage :: "chat_message list \<Rightarrow> string set \<Rightarrow> (nat \<times> nat) option" where
  "getAuthoritativeSnapshotCoverage messages liveIds =
     (let covered = filter (\<lambda>i. cm_id (messages ! i) \<in> liveIds) [0..<length messages]
      in if covered = [] then None else Some (hd covered, last covered))"

definition buildTranscriptSignature :: "chat_message \<Rightarrow> chat_role \<times> string" where
  "buildTranscriptSignature m = (cm_role m, trim (getMessageText m))"

definition prependPersistedMessagesAheadOfSnapshot ::
  "chat_message list \<Rightarrow> chat_message list \<Rightarrow> string set \<Rightarrow> chat_message list" where
  "prependPersistedMessagesAheadOfSnapshot messages projected liveIds =
     (let signatures = buildTranscriptSignature ` set projected
      in filter (\<lambda>m. cm_id m \<notin> liveIds \<and> buildTranscriptSignature m \<notin> signatures) messages @ projected)"

definition buildAuthoritativeMergedMessages ::
  "chat_message list \<Rightarrow> chat_message list \<Rightarrow> (nat \<times> nat) option \<Rightarrow> string set \<Rightarrow> string set \<Rightarrow> chat_message list" where
  "buildAuthoritativeMergedMessages messages projected coverage liveIds replaced =
     (case coverage of
        None \<Rightarrow> projected
      | Some (first, final) \<Rightarrow>
          filter (\<lambda>m. cm_id m \<notin> replaced) (take first messages) @ projected @
          filter (\<lambda>m. cm_id m \<notin> liveIds) (drop (Suc final) messages))"

definition applyAuthoritativeSnapshot ::
  "js_lib \<Rightarrow> chat_message list \<Rightarrow> chat_message list \<Rightarrow> string set \<Rightarrow> chat_message list" where
  "applyAuthoritativeSnapshot lib messages liveMessages replaced =
     (let projected = projectAuthoritativeLiveMessages lib messages liveMessages replaced;
          liveIds = cm_id ` set liveMessages;
          coverage = getAuthoritativeSnapshotCoverage messages liveIds
      in if coverage = None \<and> projected \<noteq> [] \<and> messages \<noteq> []
         then prependPersistedMessagesAheadOfSnapshot messages projected liveIds
         else buildAuthoritativeMergedMessages messages projected coverage liveIds replaced)"


section \<open>Messages of the stream\<close>

definition ITEM_SEPARATOR :: string where "ITEM_SEPARATOR = ''::item::''"

definition same_live_message :: "chat_message \<Rightarrow> chat_message \<Rightarrow> bool" where
  "same_live_message l m \<longleftrightarrow>
     cm_role m = cm_role l \<and> (cm_id m = cm_id l \<or> ends_with (cm_id l) (ITEM_SEPARATOR @ cm_id m))"

definition isMatchingTrailingUserMessage :: "chat_message option \<Rightarrow> chat_message \<Rightarrow> bool" where
  "isMatchingTrailingUserMessage trailing l =
     (case trailing of
        None \<Rightarrow> False
      | Some m \<Rightarrow> cm_role l = User \<and> cm_role m = User \<and>
          normalizeChatMessageMatchContent (getMessageText m) = normalizeChatMessageMatchContent (getMessageText l))"

definition findPersistedLiveMessage :: "chat_message list \<Rightarrow> chat_message \<Rightarrow> nat option" where
  "findPersistedLiveMessage messages l =
     (case find_index (same_live_message l) messages of
        Some i \<Rightarrow> Some i
      | None \<Rightarrow> if isMatchingTrailingUserMessage (last_of messages) l then Some (length messages - 1) else None)"

definition shouldReplacePersistedLiveMessage ::
  "chat_message \<Rightarrow> chat_message \<Rightarrow> string \<Rightarrow> agui_thread option \<Rightarrow> bool" where
  "shouldReplacePersistedLiveMessage persisted l liveText live =
     (let persistedText = trim (getMessageText persisted);
          liveExtendsPersisted = starts_with liveText persistedText;
          persistedExtendsLive = starts_with persistedText liveText
      in \<not> (case live of Some t \<Rightarrow> cm_id l \<in> set (th_terminalMessageIds t) | None \<Rightarrow> False) \<and>
         cm_role l \<noteq> User \<and> liveText \<noteq> persistedText \<and> (liveExtendsPersisted \<or> \<not> persistedExtendsLive))"

definition shouldAdoptLivePendingState :: "chat_message \<Rightarrow> chat_message \<Rightarrow> bool" where
  "shouldAdoptLivePendingState persisted l \<longleftrightarrow> cm_pending l \<noteq> None \<and> cm_pending l \<noteq> cm_pending persisted"

definition hasNewLiveSubAgentThreadLink :: "chat_message \<Rightarrow> chat_message \<Rightarrow> bool" where
  "hasNewLiveSubAgentThreadLink persisted l \<longleftrightarrow>
     cm_role persisted = Activity \<and> cm_role l = Activity \<and>
     (\<exists>i\<in>set (thread_links (getSubAgentMeta l)). i \<notin> set (thread_links (getSubAgentMeta persisted)))"

record merge_uses =
  mu_content :: bool
  mu_link :: bool
  mu_pending :: bool
  mu_completion :: bool

definition object_of :: "json \<Rightarrow> (string, json) jsmap" where
  "object_of v = (case v of JObj m \<Rightarrow> m | _ \<Rightarrow> [])"

text \<open>The fields that both branches take over, and the two branches.\<close>

definition adopt_flags :: "merge_uses \<Rightarrow> chat_message \<Rightarrow> chat_message \<Rightarrow> chat_message" where
  "adopt_flags uses l m =
     (let m1 = (if mu_pending uses then m\<lparr>cm_pending := cm_pending l\<rparr> else m)
      in if mu_completion uses then m1\<lparr>cm_completedAt := cm_completedAt l\<rparr> else m1)"

definition merged_message :: "merge_uses \<Rightarrow> chat_message \<Rightarrow> string \<Rightarrow> chat_message \<Rightarrow> chat_message" where
  "merged_message uses l liveText m =
     (let parts = (if mu_content uses then or_else (cm_parts l) (cm_parts m) else cm_parts m) in
      if cm_role m = Activity \<and> cm_role l = Activity \<and> (mu_content uses \<or> mu_link uses) then
        let content = spread (object_of (cm_content m)) (object_of (cm_content l));
            content' = (if mu_content uses then map_put ''text'' (JStr liveText) content
                        else case map_get (object_of (cm_content m)) ''text'' of
                               Some t \<Rightarrow> map_put ''text'' t content
                             | None \<Rightarrow> map_del ''text'' content)
        in preserveKnownSubAgentThreadLink (Some m)
             (adopt_flags uses l (m\<lparr>cm_content := JObj content', cm_parts := parts\<rparr>))
      else adopt_flags uses l (m\<lparr>cm_content := (if mu_content uses then JStr liveText else cm_content m), cm_parts := parts\<rparr>))"

definition merge_uses_of :: "chat_message \<Rightarrow> chat_message \<Rightarrow> string \<Rightarrow> agui_thread option \<Rightarrow> merge_uses" where
  "merge_uses_of persisted l liveText live =
     \<lparr>mu_content = shouldReplacePersistedLiveMessage persisted l liveText live,
      mu_link = hasNewLiveSubAgentThreadLink persisted l,
      mu_pending = shouldAdoptLivePendingState persisted l,
      mu_completion = cm_completedAt l \<noteq> None \<and> cm_completedAt l \<noteq> cm_completedAt persisted\<rparr>"

definition mergeLiveMessage ::
  "js_lib \<Rightarrow> string set \<Rightarrow> agui_thread option \<Rightarrow> chat_message \<Rightarrow> chat_message list \<Rightarrow> chat_message list" where
  "mergeLiveMessage lib replaced live l messages =
     (let liveText = trim (getMessageText l) in
      if (liveText = [] \<and> \<not> carriesToolActivity l) \<or> cm_id l \<in> replaced then messages
      else
        case findPersistedLiveMessage messages l of
          None \<Rightarrow> messages @ [l\<lparr>cm_createdAt := date_or (cm_createdAt l) (js_now lib)\<rparr>]
        | Some i \<Rightarrow>
            let persisted = messages ! i;
                uses = merge_uses_of persisted l liveText live
            in if \<not> mu_content uses \<and> \<not> mu_link uses \<and> \<not> mu_pending uses \<and> \<not> mu_completion uses then messages
               else messages[i := merged_message uses l liveText persisted])"

definition mergeLiveMessages ::
  "js_lib \<Rightarrow> chat_message list \<Rightarrow> chat_message list \<Rightarrow> string set \<Rightarrow> agui_thread option \<Rightarrow> chat_message list" where
  "mergeLiveMessages lib messages liveMessages replaced live =
     fold (mergeLiveMessage lib replaced live) liveMessages messages"

definition projectTranscript ::
  "js_lib \<Rightarrow> chat \<Rightarrow> chat option \<Rightarrow> bool \<Rightarrow> (string, chat_status) jsmap \<Rightarrow> agui_thread option \<Rightarrow> chat_message list \<times> nat" where
  "projectTranscript lib c parentChat showToolCalls threadStatuses live =
     (let b = buildTranscriptProjectionBase c parentChat showToolCalls threadStatuses live;
          messagesWithSnapshot =
            (if (case live of Some t \<Rightarrow> th_authoritativeSnapshot t | None \<Rightarrow> False)
             then applyAuthoritativeSnapshot lib (pb_messages b) (pb_liveMessages b) (pb_replaced b)
             else pb_messages b)
      in (mergeLiveMessages lib messagesWithSnapshot (pb_liveMessages b) (pb_replaced b) live, pb_hidden b))"


section \<open>Merging keeps identities\<close>

lemma preserve_link_frame:
  "cm_id (preserveKnownSubAgentThreadLink e m) = cm_id m" "cm_role (preserveKnownSubAgentThreadLink e m) = cm_role m"
  "cm_createdAt (preserveKnownSubAgentThreadLink e m) = cm_createdAt m"
  by (simp_all add: preserveKnownSubAgentThreadLink_def Let_def)

lemma adopt_flags_frame:
  "cm_id (adopt_flags u l m) = cm_id m" "cm_role (adopt_flags u l m) = cm_role m"
  "cm_createdAt (adopt_flags u l m) = cm_createdAt m" "cm_content (adopt_flags u l m) = cm_content m"
  by (simp_all add: adopt_flags_def Let_def)

lemma merged_message_frame:
  "cm_id (merged_message u l t m) = cm_id m" "cm_role (merged_message u l t m) = cm_role m"
  "cm_createdAt (merged_message u l t m) = cm_createdAt m"
  by (simp_all add: merged_message_def Let_def preserve_link_frame adopt_flags_frame)

text \<open>What a merge may do to a message of the transcript.\<close>

definition same_row :: "chat_message \<Rightarrow> chat_message \<Rightarrow> bool" where
  "same_row p m \<longleftrightarrow>
     cm_id m = cm_id p \<and> cm_role m = cm_role p \<and> cm_createdAt m = cm_createdAt p \<and>
     (cm_role p = User \<longrightarrow> cm_content m = cm_content p)"

lemma same_row_refl [simp]: "same_row p p"
  by (simp add: same_row_def)

lemma same_row_trans: "same_row p m \<Longrightarrow> same_row m n \<Longrightarrow> same_row p n"
  by (simp add: same_row_def)

lemma find_index_Some: "find_index P xs = Some i \<Longrightarrow> i < length xs \<and> P (xs ! i)"
  by (induction xs arbitrary: i) (auto split: if_splits)

lemma find_index_None: "find_index P xs = None \<longleftrightarrow> (\<forall>x\<in>set xs. \<not> P x)"
  by (induction xs) auto

lemma find_persisted:
  assumes "findPersistedLiveMessage ms l = Some i"
  shows "i < length ms \<and> cm_role (ms ! i) = cm_role l \<and>
    (same_live_message l (ms ! i) \<or> isMatchingTrailingUserMessage (Some (ms ! i)) l)"
  using assms
  by (auto simp: findPersistedLiveMessage_def isMatchingTrailingUserMessage_def same_live_message_def last_of_def last_conv_nth
      split: option.splits if_splits dest: find_index_Some)

lemma merged_same_row:
  assumes "cm_role m = cm_role l" "mu_content u \<Longrightarrow> cm_role l \<noteq> User"
  shows "same_row m (merged_message u l t m)"
proof -
  have "cm_content (merged_message u l t m) = cm_content m" if "cm_role m = User"
  proof -
    have "\<not> mu_content u" using assms that by auto
    with that show ?thesis by (simp add: merged_message_def adopt_flags_frame)
  qed
  then show ?thesis by (simp add: same_row_def merged_message_frame)
qed

lemma merge_step_cases:
  obtains (kept) "mergeLiveMessage lib r live l ms = ms"
      "(trim (getMessageText l) = [] \<and> \<not> carriesToolActivity l) \<or> cm_id l \<in> r \<or> findPersistedLiveMessage ms l \<noteq> None"
  | (appended) "findPersistedLiveMessage ms l = None"
      "mergeLiveMessage lib r live l ms = ms @ [l\<lparr>cm_createdAt := date_or (cm_createdAt l) (js_now lib)\<rparr>]"
  | (updated) i m where "findPersistedLiveMessage ms l = Some i" "mergeLiveMessage lib r live l ms = ms[i := m]" "same_row (ms ! i) m"
proof (cases "(trim (getMessageText l) = [] \<and> \<not> carriesToolActivity l) \<or> cm_id l \<in> r")
  case True
  then have "mergeLiveMessage lib r live l ms = ms" by (simp add: mergeLiveMessage_def Let_def)
  with True show ?thesis by (intro kept) blast+
next
  case False
  show ?thesis
  proof (cases "findPersistedLiveMessage ms l")
    case None
    then show ?thesis using False by (intro appended) (simp_all add: mergeLiveMessage_def Let_def)
  next
    case (Some i)
    let ?m = "merged_message (merge_uses_of (ms ! i) l (trim (getMessageText l)) live) l (trim (getMessageText l)) (ms ! i)"
    have "same_row (ms ! i) ?m"
      using find_persisted [OF Some]
      by (intro merged_same_row) (simp_all add: merge_uses_of_def shouldReplacePersistedLiveMessage_def Let_def)
    moreover have "mergeLiveMessage lib r live l ms \<in> {ms, ms[i := ?m]}"
      using False Some by (auto simp: mergeLiveMessage_def Let_def)
    ultimately show ?thesis using Some kept updated by blast
  qed
qed

text \<open>The rows stay where they are; new rows come after them and are messages of the stream.\<close>

definition extends :: "chat_message list \<Rightarrow> chat_message list \<Rightarrow> chat_message list \<Rightarrow> bool" where
  "extends live ms ms' \<longleftrightarrow>
     length ms \<le> length ms' \<and> list_all2 same_row ms (take (length ms) ms') \<and>
     cm_id ` set (drop (length ms) ms') \<subseteq> cm_id ` set live"

lemma extends_refl [simp]: "extends live ms ms"
  by (simp add: extends_def list_all2_refl)

lemma merge_step_extends:
  assumes "l \<in> set live"
  shows "extends live ms (mergeLiveMessage lib r st l ms)"
proof (cases rule: merge_step_cases [of lib r st l ms])
  case (updated i m)
  then show ?thesis using find_persisted [OF updated(1)]
    by (auto simp: extends_def list_all2_conv_all_nth nth_list_update)
qed (use assms in \<open>auto simp: extends_def list_all2_refl\<close>)

lemma extends_trans:
  assumes "extends live a b" "extends live b c"
  shows "extends live a c"
proof -
  have "list_all2 same_row (take (length a) b) (take (length a) c)"
    using list_all2_takeI [of same_row b "take (length b) c" "length a"] assms
    by (simp add: extends_def min_absorb1)
  then have "list_all2 same_row a (take (length a) c)"
    using assms(1) list_all2_trans [of same_row same_row same_row a] by (auto simp: extends_def intro: same_row_trans)
  moreover have "cm_id ` set (drop (length a) c) \<subseteq> cm_id ` set live"
  proof -
    have "drop (length a) c = drop (length a) (take (length b) c) @ drop (length b) c"
      using assms by (metis append_take_drop_id drop_append extends_def length_take min.absorb2 diff_is_0_eq drop_0)
    moreover have "map cm_id (drop (length a) (take (length b) c)) = map cm_id (drop (length a) b)"
    proof -
      have "map cm_id b = map cm_id (take (length b) c)"
        using assms(2) by (intro nth_equalityI) (auto simp: extends_def list_all2_conv_all_nth same_row_def)
      then show ?thesis by (metis drop_map)
    qed
    ultimately show ?thesis using assms by (metis (no_types, lifting) Un_least extends_def image_Un list.set_map set_append)
  qed
  ultimately show ?thesis using assms by (simp add: extends_def)
qed

lemma merge_extends:
  "set ls \<subseteq> set live \<Longrightarrow> extends live ms (fold (mergeLiveMessage lib r st) ls ms)"
proof (induction ls arbitrary: ms)
  case (Cons l ls)
  then have "extends live ms (mergeLiveMessage lib r st l ms)" by (intro merge_step_extends) simp
  with Cons show ?case by (auto intro: extends_trans)
qed simp


section \<open>Different ids\<close>

text \<open>Rows of the transcript and messages of the stream with the same id have the same role.\<close>

definition roles_agree :: "chat_message list \<Rightarrow> chat_message list \<Rightarrow> bool" where
  "roles_agree ms ls \<longleftrightarrow> (\<forall>m\<in>set ms. \<forall>l\<in>set ls. cm_id m = cm_id l \<longrightarrow> cm_role m = cm_role l)"

lemma roles_agree_parts: "roles_agree a ls \<Longrightarrow> roles_agree b ls \<Longrightarrow> set c \<subseteq> set a \<union> set b \<Longrightarrow> roles_agree c ls"
  unfolding roles_agree_def by blast

lemma merge_step_distinct:
  assumes "distinct (map cm_id ms)" "roles_agree ms live" "l \<in> set live" "distinct (map cm_id live)"
  shows "distinct (map cm_id (mergeLiveMessage lib r st l ms)) \<and> roles_agree (mergeLiveMessage lib r st l ms) live"
proof (cases rule: merge_step_cases [of lib r st l ms])
  case appended
  let ?l = "l\<lparr>cm_createdAt := date_or (cm_createdAt l) (js_now lib)\<rparr>"
  have "\<not> same_live_message l m" if "m \<in> set ms" for m
    using that appended(1) by (auto simp: findPersistedLiveMessage_def find_index_None split: option.splits)
  then have "cm_id m \<noteq> cm_id l" if "m \<in> set ms" for m
    using that assms(2,3) unfolding roles_agree_def same_live_message_def by blast
  then have "cm_id l \<notin> cm_id ` set ms" by (metis imageE)
  then have "distinct (map cm_id (ms @ [?l]))" using assms(1) by simp
  moreover have "cm_role l = cm_role k" if "k \<in> set live" "cm_id l = cm_id k" for k
    using that assms(3,4) by (metis distinct_map inj_on_def)
  then have "roles_agree [?l] live" by (simp add: roles_agree_def)
  then have "roles_agree (ms @ [?l]) live" by (rule roles_agree_parts [OF assms(2)]) simp
  ultimately show ?thesis unfolding appended(2) ..
next
  case (updated i m)
  have i: "i < length ms" using find_persisted [OF updated(1)] by simp
  have "map cm_id (ms[i := m]) = map cm_id ms"
    using updated(3) i by (simp add: map_update same_row_def list_update_same_conv)
  moreover have "roles_agree (ms[i := m]) live"
    using assms(2) updated(3) i nth_mem [OF i] set_update_subset_insert [of ms i m] by (fastforce simp: roles_agree_def same_row_def)
  ultimately show ?thesis using updated(2) assms(1) by simp
qed (use assms in simp)

lemma merge_distinct:
  "distinct (map cm_id ms) \<Longrightarrow> roles_agree ms live \<Longrightarrow> set ls \<subseteq> set live \<Longrightarrow> distinct (map cm_id live) \<Longrightarrow>
   distinct (map cm_id (fold (mergeLiveMessage lib r st) ls ms))"
proof (induction ls arbitrary: ms)
  case (Cons l ls)
  then show ?case using merge_step_distinct [of ms live l lib r st] by simp
qed simp

lemma projected_live_frame: "cm_id (projected_live lib p m) = cm_id m" "cm_role (projected_live lib p m) = cm_role m"
  by (simp_all add: projected_live_def Let_def)

lemma projected_ids: "map cm_id (projectAuthoritativeLiveMessages lib ms live r)
    = map cm_id (filter (\<lambda>m. cm_id m \<notin> r \<and> hasVisibleLiveMessageContent m) live)"
  by (simp add: projectAuthoritativeLiveMessages_def projected_live_frame comp_def)

lemma coverage_first:
  assumes "getAuthoritativeSnapshotCoverage ms liveIds = Some (a, b)"
  shows "\<forall>m\<in>set (take a ms). cm_id m \<notin> liveIds" "a \<le> b"
proof -
  let ?c = "filter (\<lambda>i. cm_id (ms ! i) \<in> liveIds) [0..<length ms]"
  have c: "?c \<noteq> []" "a = hd ?c" "b = last ?c"
    using assms by (auto simp: getAuthoritativeSnapshotCoverage_def Let_def split: if_splits)
  have s: "sorted ?c" by (simp add: sorted_wrt_filter)
  then show "a \<le> b" using c by (metis hd_in_set last_in_set list.collapse sorted_simps(2) last.simps order_refl)
  show "\<forall>m\<in>set (take a ms). cm_id m \<notin> liveIds"
  proof
    fix m assume "m \<in> set (take a ms)"
    then obtain i where i: "i < a" "i < length ms" "m = ms ! i" by (auto simp: in_set_conv_nth)
    show "cm_id m \<notin> liveIds"
    proof
      assume "cm_id m \<in> liveIds"
      with i have "i \<in> set ?c" by simp
      with s c(1,2) have "a \<le> i" by (metis list.collapse list.set_cases set_ConsD sorted_simps(2) order_refl)
      with i(1) show False by simp
    qed
  qed
qed

lemma distinct_ids_filter: "distinct (map cm_id ms) \<Longrightarrow> distinct (map cm_id (filter P ms))"
  by (induction ms) auto

lemma snapshot_distinct:
  assumes "distinct (map cm_id ms)" "distinct (map cm_id live)"
  shows "distinct (map cm_id (applyAuthoritativeSnapshot lib ms live r))"
proof -
  let ?p = "projectAuthoritativeLiveMessages lib ms live r" and ?ids = "cm_id ` set live"
  have p: "distinct (map cm_id ?p)" "cm_id ` set ?p \<subseteq> ?ids"
  proof -
    show "distinct (map cm_id ?p)" by (simp only: projected_ids distinct_ids_filter [OF assms(2)])
    have "cm_id ` set ?p = set (map cm_id ?p)" by simp
    also have "\<dots> \<subseteq> ?ids" unfolding projected_ids by auto
    finally show "cm_id ` set ?p \<subseteq> ?ids" .
  qed
  show ?thesis
  proof (cases "getAuthoritativeSnapshotCoverage ms ?ids")
    case None
    then show ?thesis using p distinct_ids_filter [OF assms(1)]
      by (auto simp: applyAuthoritativeSnapshot_def Let_def prependPersistedMessagesAheadOfSnapshot_def
          buildAuthoritativeMergedMessages_def)
  next
    case (Some ab)
    obtain a b where ab: "ab = (a, b)" by (cases ab)
    note cov = coverage_first [OF Some [unfolded ab]]
    have "ms = take a ms @ drop a ms" by simp
    then have "cm_id ` set (take a ms) \<inter> cm_id ` set (drop a ms) = {}" using assms(1) by (metis distinct_append list.set_map map_append)
    moreover have "set (drop (Suc b) ms) \<subseteq> set (drop a ms)" using cov(2) by (intro set_drop_subset_set_drop) simp
    ultimately have "cm_id ` set (take a ms) \<inter> cm_id ` set (drop (Suc b) ms) = {}" by blast
    moreover have "distinct (map cm_id (take a ms))" "distinct (map cm_id (drop (Suc b) ms))"
      using assms(1) by (simp_all add: take_map [symmetric] drop_map [symmetric])
    moreover have "cm_id ` set (take a ms) \<inter> ?ids = {}" using cov(1) by auto
    moreover define front where "front = filter (\<lambda>m. cm_id m \<notin> r) (take a ms)"
    moreover define rear where "rear = filter (\<lambda>m. cm_id m \<notin> ?ids) (drop (Suc b) ms)"
    ultimately have "distinct (map cm_id front)" "distinct (map cm_id rear)"
      "cm_id ` set front \<inter> ?ids = {}" "cm_id ` set rear \<inter> ?ids = {}" "cm_id ` set front \<inter> cm_id ` set rear = {}"
      by (auto simp: distinct_ids_filter)
    note parts = this
    have "cm_id ` set front \<inter> cm_id ` set ?p = {}" using parts(3) p(2) by blast
    moreover have "cm_id ` set ?p \<inter> cm_id ` set rear = {}" using parts(4) p(2) by blast
    ultimately have "distinct (map cm_id (front @ ?p @ rear))"
      using parts(1,2,5) p(1) by (simp only: map_append distinct_append set_append list.set_map Int_Un_distrib Un_empty simp_thms)
    then show ?thesis using Some ab
      by (simp add: applyAuthoritativeSnapshot_def Let_def buildAuthoritativeMergedMessages_def front_def rear_def)
  qed
qed

lemma snapshot_roles:
  assumes "roles_agree ms live" "distinct (map cm_id live)"
  shows "roles_agree (applyAuthoritativeSnapshot lib ms live r) live"
proof -
  have same: "cm_role k = cm_role l" if "k \<in> set live" "l \<in> set live" "cm_id k = cm_id l" for k l
    using that assms(2) by (metis distinct_map inj_on_def)
  have "roles_agree (projectAuthoritativeLiveMessages lib ms live r) live"
    unfolding roles_agree_def by (auto simp: projectAuthoritativeLiveMessages_def projected_live_frame intro: same)
  moreover have "set (applyAuthoritativeSnapshot lib ms live r) \<subseteq> set ms \<union> set (projectAuthoritativeLiveMessages lib ms live r)"
    by (auto simp: applyAuthoritativeSnapshot_def prependPersistedMessagesAheadOfSnapshot_def
        buildAuthoritativeMergedMessages_def Let_def split: option.splits if_splits dest: in_set_takeD in_set_dropD)
  ultimately show ?thesis by (rule roles_agree_parts [OF assms(1)])
qed

lemma subseq_set: "subseq xs ys \<Longrightarrow> set xs \<subseteq> set ys"
  by (auto simp: subseq_conv_nths dest: in_set_nthsD)

lemma distinct_subseq: "subseq xs ys \<Longrightarrow> distinct ys \<Longrightarrow> distinct xs"
  by (auto simp: subseq_conv_nths)

lemma dedupe_subseq: "subseq (dedupeTransientUserMessages ms) ms"
proof -
  have "subseq (map (\<lambda>i. ms ! i) (filter P [0..<length ms])) (map (\<lambda>i. ms ! i) [0..<length ms])" for P
    by (intro subseq_map) (simp add: subseq_filter_left)
  then show ?thesis by (simp add: dedupeTransientUserMessages_def map_nth)
qed

lemma base_subseq:
  "subseq (map (\<lambda>m. (cm_id m, cm_role m)) (pb_messages (buildTranscriptProjectionBase c p s st live)))
          (map (\<lambda>m. (cm_id m, cm_role m)) (ct_messages c))"
  "subseq (pb_liveMessages (buildTranscriptProjectionBase c p s st live)) (case live of Some t \<Rightarrow> th_messages t | None \<Rightarrow> [])"
proof -
  let ?k = "\<lambda>m. (cm_id m, cm_role m)"
  have dd: "subseq (map ?k (dedupeTransientUserMessages (syncVisibleSubAgentStatuses ms st))) (map ?k ms)" for ms
  proof -
    have "map ?k (syncVisibleSubAgentStatuses ms st) = map ?k ms"
      by (simp add: syncVisibleSubAgentStatuses_def sync_message_frame)
    then show ?thesis using subseq_map [OF dedupe_subseq, of ?k "syncVisibleSubAgentStatuses ms st"] by simp
  qed
  have vis: "subseq (map ?k (getVisibleTranscriptMessages (filterReasoningMessages ms) s)) (map ?k ms)" for ms
    by (intro subseq_map) (simp add: getVisibleTranscriptMessages_def filterReasoningMessages_def subseq_filter_left)
  have tr: "subseq (fst (trimInheritedParentMessages ps ms i)) ms" for ps ms i
  proof -
    obtain ms' n where e: "trimInheritedParentMessages ps ms i = (ms', n)" by (rule prod.exhaust)
    from trimInherited_suffix [OF e] show ?thesis by (simp add: e suffix_imp_subseq suffix_drop)
  qed
  have trk: "subseq (map ?k (fst (trimInheritedParentMessages ps ms i))) (map ?k ms)" for ps ms i
    by (rule subseq_map [OF tr])
  let ?v = "getVisibleTranscriptMessages (filterReasoningMessages (ct_messages c)) s"
  obtain inh hid where inh: "(case getProjectedParentMessages c p s of
      Some ps \<Rightarrow> trimInheritedParentMessages ps ?v (Some (ct_id c)) | None \<Rightarrow> (?v, 0)) = (inh, hid)" by (rule prod.exhaust)
  have "subseq (map ?k inh) (map ?k ?v)"
  proof (cases "getProjectedParentMessages c p s")
    case None
    with inh show ?thesis by simp
  next
    case (Some ps)
    with inh trk [of ps ?v "Some (ct_id c)"] show ?thesis by simp
  qed
  note chain = subseq_order.order_trans [OF dd subseq_order.order_trans [OF this vis]]
  have "pb_messages (buildTranscriptProjectionBase c p s st live) = dedupeTransientUserMessages (syncVisibleSubAgentStatuses inh st)"
    by (simp add: buildTranscriptProjectionBase_def Let_def inh)
  with chain show "subseq (map ?k (pb_messages (buildTranscriptProjectionBase c p s st live))) (map ?k (ct_messages c))"
    by (simp only:)
  show "subseq (pb_liveMessages (buildTranscriptProjectionBase c p s st live)) (case live of Some t \<Rightarrow> th_messages t | None \<Rightarrow> [])"
    by (simp add: buildTranscriptProjectionBase_def Let_def tr split: prod.split option.split)
qed

lemma projection_distinct:
  assumes "distinct (map cm_id (ct_messages c))" "distinct (map cm_id (th_messages t))"
    and "roles_agree (ct_messages c) (th_messages t)"
  shows "distinct (map cm_id (fst (projectTranscript lib c parentChat showToolCalls threadStatuses (Some t))))"
proof -
  define b where "b = buildTranscriptProjectionBase c parentChat showToolCalls threadStatuses (Some t)"
  let ?k = "\<lambda>m. (cm_id m, cm_role m)"
  have sub: "subseq (map ?k (pb_messages b)) (map ?k (ct_messages c))" "subseq (pb_liveMessages b) (th_messages t)"
    using base_subseq [of c parentChat showToolCalls threadStatuses "Some t"] by (simp_all add: b_def)
  have "subseq (map cm_id (pb_messages b)) (map cm_id (ct_messages c))"
    using subseq_map [OF sub(1), of fst] by (simp add: comp_def)
  then have msgs: "distinct (map cm_id (pb_messages b))" using assms(1) by (rule distinct_subseq)
  have live: "distinct (map cm_id (pb_liveMessages b))" using distinct_subseq [OF subseq_map [OF sub(2)] assms(2)] .
  have pairs: "?k ` set (pb_messages b) \<subseteq> ?k ` set (ct_messages c)" "set (pb_liveMessages b) \<subseteq> set (th_messages t)"
    using subseq_set [OF sub(1)] subseq_set [OF sub(2)] by simp_all
  have roles: "roles_agree (pb_messages b) (pb_liveMessages b)"
    unfolding roles_agree_def
  proof (intro ballI impI)
    fix m l
    assume m: "m \<in> set (pb_messages b)" and l: "l \<in> set (pb_liveMessages b)" and eq: "cm_id m = cm_id l"
    have "?k m \<in> ?k ` set (ct_messages c)" using m pairs(1) by blast
    then obtain m' where m': "m' \<in> set (ct_messages c)" "cm_id m' = cm_id m" "cm_role m' = cm_role m" by auto
    have "l \<in> set (th_messages t)" using l pairs(2) by blast
    with m' assms(3) eq show "cm_role m = cm_role l" unfolding roles_agree_def by metis
  qed
  note snap = snapshot_distinct [OF msgs live, of lib "pb_replaced b"] snapshot_roles [OF roles live, of lib "pb_replaced b"]
  show ?thesis
    unfolding projectTranscript_def Let_def b_def [symmetric] mergeLiveMessages_def fst_conv
    using merge_distinct [OF msgs roles order_refl live] merge_distinct [OF snap order_refl live] by (simp split: option.split)
qed

text \<open>
  C32. When the rows of the transcript have different ids. Let the messages of the chat have different ids and those of the
  running stream, too. Let a further event of the stream arrive; if it is a message snapshot, its own ids
  are different and, where it has the id of a sub-agent card of the stream, it also has a card for the tool call of
  that card. Let, after the event, every message of the stream have the role of the message of the chat with
  the same id, if there is one. Then no two rows of the projected transcript have the same id, with or without an
  authoritative snapshot, a parent chat or hidden tool calls.
\<close>

theorem projected_ids_distinct:
  assumes "distinct (map cm_id (ct_messages c))" "distinct (map cm_id (th_messages t))"
    and "\<And>ms. env_event env = MESSAGES_SNAPSHOT ms \<Longrightarrow> snapshot_clean t ms"
    and "roles_agree (ct_messages c) (th_messages (reduceThreadState lib t env))"
  shows "distinct (map cm_id (fst (projectTranscript lib c parentChat showToolCalls threadStatuses
    (Some (reduceThreadState lib t env)))))"
proof (rule projection_distinct)
  show "distinct (map cm_id (th_messages (reduceThreadState lib t env)))"
    using unique.event [of t env lib] assms(2,3) by (simp add: unique_ids_def)
qed (use assms in simp_all)

text \<open>
  C33. Without an authoritative snapshot the stream takes nothing from the transcript: all persisted rows stay in their order,
  with their ids, roles and dates, and prompts keep their text; new rows come after them and are messages of the stream.
\<close>

theorem history_kept:
  assumes "\<not> th_authoritativeSnapshot t"
  shows "extends (th_messages t) (pb_messages (buildTranscriptProjectionBase c parentChat showToolCalls threadStatuses (Some t)))
    (fst (projectTranscript lib c parentChat showToolCalls threadStatuses (Some t)))"
proof -
  define b where "b = buildTranscriptProjectionBase c parentChat showToolCalls threadStatuses (Some t)"
  have "set (pb_liveMessages b) \<subseteq> set (th_messages t)"
    using subseq_set [OF base_subseq(2) [of c parentChat showToolCalls threadStatuses "Some t"]] by (simp add: b_def)
  then have "extends (th_messages t) (pb_messages b)
      (fold (mergeLiveMessage lib (pb_replaced b) (Some t)) (pb_liveMessages b) (pb_messages b))" by (rule merge_extends)
  with assms(1) show ?thesis unfolding projectTranscript_def Let_def b_def [symmetric] by (simp add: mergeLiveMessages_def)
qed


section \<open>Messages of the stream are shown\<close>

definition shows_live :: "chat_message \<Rightarrow> chat_message \<Rightarrow> bool" where
  "shows_live l m \<longleftrightarrow> same_live_message l m \<or> isMatchingTrailingUserMessage (Some m) l"

lemma shows_live_row: "shows_live l m \<Longrightarrow> same_row m m' \<Longrightarrow> shows_live l m'"
  by (auto simp: shows_live_def same_row_def same_live_message_def isMatchingTrailingUserMessage_def getMessageText_def)

lemma extends_shows:
  assumes "extends live ms ms'" "m \<in> set ms" "shows_live l m"
  shows "\<exists>m'\<in>set ms'. shows_live l m'"
proof -
  obtain i where i: "i < length ms" "m = ms ! i" using assms(2) by (auto simp: in_set_conv_nth)
  then have "same_row m (ms' ! i)" "i < length ms'"
    using assms(1) by (auto simp: extends_def list_all2_conv_all_nth)
  with assms(3) show ?thesis using shows_live_row by (meson nth_mem)
qed

lemma merge_step_shows:
  assumes "hasVisibleLiveMessageContent l" "cm_id l \<notin> r"
  shows "\<exists>m\<in>set (mergeLiveMessage lib r st l ms). shows_live l m"
proof (cases rule: merge_step_cases [of lib r st l ms])
  case kept
  then obtain i where "findPersistedLiveMessage ms l = Some i" using assms by (auto simp: hasVisibleLiveMessageContent_def)
  with find_persisted [OF this] kept(1) show ?thesis by (auto simp: shows_live_def intro!: bexI [of _ "ms ! i"])
next
  case appended
  then show ?thesis by (simp add: shows_live_def same_live_message_def)
next
  case (updated i m)
  have i: "i < length ms" "shows_live l (ms ! i)" using find_persisted [OF updated(1)] by (auto simp: shows_live_def)
  with updated(3) have "shows_live l m" by (simp add: shows_live_row)
  moreover have "m \<in> set (ms[i := m])" using i(1) by (rule set_update_memI)
  ultimately show ?thesis unfolding updated(2) by blast
qed

text \<open>
  C34. Every message of the stream that has text or tool activity, and that no other message replaces, has its row in the
  transcript: a row with its id and role, or the prompt with the same text that it echoes. It stays there whatever messages
  are merged after it.
\<close>

theorem live_messages_shown:
  assumes "l \<in> set (pb_liveMessages (buildTranscriptProjectionBase c parentChat showToolCalls threadStatuses (Some t)))"
    and "hasVisibleLiveMessageContent l" "cm_id l \<notin> snd ` set (th_replacesMessageId t)"
  shows "\<exists>m\<in>set (fst (projectTranscript lib c parentChat showToolCalls threadStatuses (Some t))).
    cm_role m = cm_role l \<and>
    (cm_id m = cm_id l \<or> ends_with (cm_id l) (''::item::'' @ cm_id m) \<or>
     (cm_role l = User \<and> normalizeChatMessageMatchContent (getMessageText m) = normalizeChatMessageMatchContent (getMessageText l)))"
proof -
  define b where "b = buildTranscriptProjectionBase c parentChat showToolCalls threadStatuses (Some t)"
  have r: "pb_replaced b = snd ` set (th_replacesMessageId t)"
    by (simp add: b_def buildTranscriptProjectionBase_def Let_def split: prod.split)
  obtain xs ys where split: "pb_liveMessages b = xs @ l # ys" using assms(1) by (auto simp: b_def in_set_conv_decomp)
  let ?step = "mergeLiveMessage lib (pb_replaced b) (Some t)"
  have "\<exists>m\<in>set (fold ?step (pb_liveMessages b) ms). shows_live l m" for ms
  proof -
    obtain m where m: "m \<in> set (?step l (fold ?step xs ms))" "shows_live l m"
      using merge_step_shows [of l "pb_replaced b" lib "Some t" "fold ?step xs ms"] assms(2,3) r by auto
    have "extends ys (?step l (fold ?step xs ms)) (fold ?step ys (?step l (fold ?step xs ms)))" by (rule merge_extends) simp
    from extends_shows [OF this m] show ?thesis by (simp add: split)
  qed
  then obtain m where "m \<in> set (fst (projectTranscript lib c parentChat showToolCalls threadStatuses (Some t)))" "shows_live l m"
    unfolding projectTranscript_def Let_def b_def [symmetric] mergeLiveMessages_def fst_conv by blast
  then show ?thesis
    by (auto simp: shows_live_def same_live_message_def isMatchingTrailingUserMessage_def ITEM_SEPARATOR_def)
qed


section \<open>What an authoritative snapshot keeps\<close>

text \<open>The persisted messages before the first one that the snapshot covers stay in front, unless a message replaces them.\<close>

lemma snapshot_keeps_earlier:
  assumes "getAuthoritativeSnapshotCoverage ms (cm_id ` set live) = Some (a, b)" "m \<in> set (take a ms)" "cm_id m \<notin> r"
  shows "m \<in> set (applyAuthoritativeSnapshot lib ms live r)"
  using assms by (auto simp: applyAuthoritativeSnapshot_def buildAuthoritativeMergedMessages_def Let_def)

text \<open>
  A snapshot that covers nothing of the transcript and has no visible message leaves an empty transcript, although earlier
  turns are kept ahead of any other snapshot of this kind.
\<close>

lemma empty_snapshot_erases:
  assumes "\<forall>m\<in>set ms. cm_id m \<notin> cm_id ` set live" "\<forall>l\<in>set live. \<not> hasVisibleLiveMessageContent l"
  shows "applyAuthoritativeSnapshot lib ms live r = []"
proof -
  have "getAuthoritativeSnapshotCoverage ms (cm_id ` set live) = None"
    using assms(1) by (auto simp: getAuthoritativeSnapshotCoverage_def filter_empty_conv)
  moreover have "projectAuthoritativeLiveMessages lib ms live r = []"
    using assms(2) by (auto simp: projectAuthoritativeLiveMessages_def filter_empty_conv)
  ultimately show ?thesis by (simp add: applyAuthoritativeSnapshot_def buildAuthoritativeMergedMessages_def Let_def)
qed


section \<open>Witnesses\<close>

definition demo_said :: "string \<Rightarrow> chat_role \<Rightarrow> string \<Rightarrow> chat_message" where
  "demo_said i role content = blank_message i role (JStr content) ''t''"

text \<open>A chat with a prompt and the beginning of an answer, and the stream that goes on with the answer.\<close>

definition demo_opened :: chat where
  "demo_opened = blank_chat ''c'' StRunning [demo_said ''u1'' User ''hi'', demo_said ''a1'' Assistant ''Hel'']"

definition demo_stream :: agui_thread where
  "demo_stream = createAgUiThreadMessageState\<lparr>th_messages := [demo_said ''a1'' Assistant ''Hello'']\<rparr>"

definition demo_more :: agui_envelope where
  "demo_more = demo_env (TEXT_MESSAGE_CONTENT ''a2'' ''more'')"

theorem projected_ids_distinct_witness:
  "distinct (map cm_id (fst (projectTranscript demo_lib demo_opened None True [] (Some (reduceThreadState demo_lib demo_stream demo_more)))))"
proof (rule projected_ids_distinct)
  show "distinct (map cm_id (ct_messages demo_opened))" "distinct (map cm_id (th_messages demo_stream))" by code_simp+
  show "snapshot_clean demo_stream ms" if "env_event demo_more = MESSAGES_SNAPSHOT ms" for ms
    using that by (simp add: demo_more_def demo_env_def)
  show "roles_agree (ct_messages demo_opened) (th_messages (reduceThreadState demo_lib demo_stream demo_more))" by code_simp
qed

lemma demo_projection:
  "map (\<lambda>m. (cm_id m, getMessageText m)) (fst (projectTranscript demo_lib demo_opened None True []
     (Some (reduceThreadState demo_lib demo_stream demo_more)))) = [(''u1'', ''hi''), (''a1'', ''Hello''), (''a2'', ''more'')]"
  by code_simp

theorem history_kept_witness:
  "extends (th_messages demo_stream) (pb_messages (buildTranscriptProjectionBase demo_opened None True [] (Some demo_stream)))
     (fst (projectTranscript demo_lib demo_opened None True [] (Some demo_stream))) \<and>
   length (pb_messages (buildTranscriptProjectionBase demo_opened None True [] (Some demo_stream))) = 2"
proof -
  have "\<not> th_authoritativeSnapshot demo_stream" by code_simp
  moreover have "length (pb_messages (buildTranscriptProjectionBase demo_opened None True [] (Some demo_stream))) = 2" by code_simp
  ultimately show ?thesis using history_kept by blast
qed

theorem live_messages_shown_witness:
  "\<exists>m\<in>set (fst (projectTranscript demo_lib demo_opened None True [] (Some demo_stream))).
    cm_role m = Assistant \<and> (cm_id m = ''a1'' \<or> ends_with ''a1'' (''::item::'' @ cm_id m))"
proof -
  let ?l = "demo_said ''a1'' Assistant ''Hello''"
  have "?l \<in> set (pb_liveMessages (buildTranscriptProjectionBase demo_opened None True [] (Some demo_stream)))"
    by (simp add: buildTranscriptProjectionBase_def getProjectedParentMessages_def demo_stream_def demo_opened_def
        blank_chat_def blank_summary_def chat_summary.defs non_empty_def)
  moreover have "hasVisibleLiveMessageContent ?l" by code_simp
  moreover have "cm_id ?l \<notin> snd ` set (th_replacesMessageId demo_stream)" by code_simp
  ultimately obtain m where "m \<in> set (fst (projectTranscript demo_lib demo_opened None True [] (Some demo_stream)))"
    "cm_role m = cm_role ?l" "cm_id m = cm_id ?l \<or> ends_with (cm_id ?l) (''::item::'' @ cm_id m) \<or> cm_role ?l = User"
    using live_messages_shown by blast
  moreover have "cm_id ?l = ''a1''" "cm_role ?l = Assistant" by (simp_all add: demo_said_def blank_message_def)
  ultimately show ?thesis by auto
qed

end
