(* ===== verification/TurnRequests.thy ===== *)
theory TurnRequests
  imports ClientReads ChatStatus Attachments
begin

text \<open>
  Sending a prompt: \<^verbatim>\<open>bridge/client/clientTurnInputInternals.ts\<close> (the input of a turn and how it is recognised in a
  thread), \<^verbatim>\<open>turnPreparationLayer.ts\<close> (\<open>prepareTurnRequest\<close>, \<open>getChatWithUserMessage\<close>),
  \<^verbatim>\<open>turnLifecycleLayer.ts\<close> (sending, queueing, interrupting) and the normalisers of
  \<^verbatim>\<open>clientBridgeResponseNormalization.ts\<close>.

  An asynchronous method is cut at its awaits; what the bridge answers is an argument. \<open>getChatWithUserMessage\<close> reads
  up to five times: \<open>readSnapshot n\<close> is its \<open>n\<close>-th read, a state transformer of the client. The id and the time of
  a synthetic message are arguments.
\<close>

section \<open>Normalised settings\<close>

definition normalizeModel :: "string option \<Rightarrow> string option" where
  "normalizeModel model = non_empty (map_option trim model)"

definition one_of :: "string list \<Rightarrow> string option \<Rightarrow> string option" where
  "one_of allowed value =
     (case value of None \<Rightarrow> None | Some v \<Rightarrow> (let n = to_lower (trim v) in if n \<in> set allowed then Some n else None))"

definition normalizeEffort :: "string option \<Rightarrow> string option" where
  "normalizeEffort effort = one_of [''none'', ''minimal'', ''low'', ''medium'', ''high'', ''xhigh'', ''max''] effort"

definition normalizeServiceTier :: "string option \<Rightarrow> string option" where
  "normalizeServiceTier serviceTier = one_of [''flex'', ''fast''] serviceTier"

definition normalizeApprovalPolicy :: "string option \<Rightarrow> string option" where
  "normalizeApprovalPolicy policy = one_of [''untrusted'', ''on-request'', ''on-failure'', ''never''] policy"

definition normalizeTurnStatus :: "string option \<Rightarrow> string option" where
  "normalizeTurnStatus status = non_empty (map_option (\<lambda>s. to_lower (trim s)) (non_empty status))"

definition normalizeCollaborationMode :: "string option \<Rightarrow> string option" where
  "normalizeCollaborationMode value = one_of [''plan'', ''default''] value"

definition normalizeAgentName :: "string option \<Rightarrow> string option" where
  "normalizeAgentName value = non_empty (map_option trim value)"

definition normalizeAgentId :: "string option \<Rightarrow> string option" where
  "normalizeAgentId value = non_empty (map_option trim value)"

definition client_cwd :: "string option \<Rightarrow> string option" where
  "client_cwd cwd = non_empty (map_option trim cwd)"

record runtime_settings =
  rs_model :: "string option"
  rs_effort :: "string option"

definition readThreadRuntimeSettings :: "valibot \<Rightarrow> json option \<Rightarrow> runtime_settings" where
  "readThreadRuntimeSettings vb value =
     (let r = toRecord value
      in \<lparr>rs_model = normalizeModel (readString vb (field r ''model'')),
          rs_effort = normalizeEffort (or_else (readString vb (field r ''reasoningEffort'')) (readString vb (field r ''reasoning_effort'')))\<rparr>)"

record collaboration =
  cb_mode :: string
  cb_model :: string
  cb_effort :: "string option"

definition toTurnCollaborationMode :: "string option \<Rightarrow> string option \<Rightarrow> string option \<Rightarrow> collaboration option" where
  "toTurnCollaborationMode value model effort =
     (case value of
        None \<Rightarrow> None
      | Some v \<Rightarrow>
          let normalized = to_lower (trim v) in
          if normalized \<noteq> ''plan'' \<and> normalized \<noteq> ''default'' \<and> normalized \<noteq> ''ask'' then None
          else if normalized = ''ask'' then None
          else map_option (\<lambda>m. \<lparr>cb_mode = normalized, cb_model = m, cb_effort = effort\<rparr>) (non_empty model))"


section \<open>The input of a turn\<close>

record turn_mention =
  tn_name :: string
  tn_path :: string

datatype turn_input = InText string | InMention turn_mention | InLocalImage string

definition buildTurnInput :: "string \<Rightarrow> turn_mention list \<Rightarrow> string list \<Rightarrow> turn_input list" where
  "buildTurnInput content mentions localImages =
     (if mentions = [] \<and> localImages = [] then [InText content]
      else InText content # map InMention mentions @ map InLocalImage localImages)"

definition normalizeMentionName :: "string option \<Rightarrow> string \<Rightarrow> string" where
  "normalizeMentionName name path =
     (case non_empty (map_option trim name) of
        Some n \<Rightarrow> n
      | None \<Rightarrow> (case non_empty (map_option trim (last_of (path_segments path))) of Some n \<Rightarrow> n | None \<Rightarrow> path))"

text \<open>The loops over the raw entries, with the set of the paths seen so far.\<close>

definition add_mention :: "mention_input \<Rightarrow> turn_mention list \<times> string list \<Rightarrow> turn_mention list \<times> string list" where
  "add_mention entry s =
     (let (normalized, seenPaths) = s; path = trim (mi_path entry); dedupeKey = to_lower path in
      if path = [] \<or> dedupeKey \<in> set seenPaths then s
      else (normalized @ [\<lparr>tn_name = normalizeMentionName (mi_name entry) path, tn_path = path\<rparr>], seenPaths @ [dedupeKey]))"

definition normalizeMentions :: "mention_input list option \<Rightarrow> turn_mention list" where
  "normalizeMentions raw = (case raw of None \<Rightarrow> [] | Some entries \<Rightarrow> fst (fold add_mention entries ([], [])))"

definition add_image :: "string \<Rightarrow> string list \<times> string list \<Rightarrow> string list \<times> string list" where
  "add_image entry s =
     (let (normalized, seenPaths) = s; path = trim entry; dedupeKey = to_lower path in
      if path = [] \<or> dedupeKey \<in> set seenPaths then s else (normalized @ [path], seenPaths @ [dedupeKey]))"

definition normalizeLocalImages :: "string list option \<Rightarrow> string list" where
  "normalizeLocalImages raw = (case raw of None \<Rightarrow> [] | Some entries \<Rightarrow> fst (fold add_image entries ([], [])))"

definition buildExpectedUserMessageContent :: "string \<Rightarrow> turn_mention list \<Rightarrow> string list \<Rightarrow> string" where
  "buildExpectedUserMessageContent content mentions localImages =
     join NL (filter (\<lambda>part. trim part \<noteq> [])
       (trim content # map (\<lambda>m. ''[file: '' @ tn_path m @ '']'') mentions @ map (\<lambda>p. ''[local image: '' @ p @ '']'') localImages))"


section \<open>Is the prompt in the thread?\<close>

definition chatHasRecentUserMessage :: "chat \<Rightarrow> string \<Rightarrow> turn_mention list \<Rightarrow> string list \<Rightarrow> nat \<Rightarrow> bool" where
  "chatHasRecentUserMessage c content mentions localImages tailSize =
     (let normalized = buildExpectedUserMessageContent (trim content) mentions localImages in
      if normalized = [] then True
      else list_ex (\<lambda>m. cm_role m = User \<and> trim (getMessageText m) = normalized) (slice_last tailSize (ct_messages c)))"

definition rawThreadHasTurns :: "raw_thread \<Rightarrow> bool" where
  "rawThreadHasTurns raw \<longleftrightarrow> rw_turns raw \<noteq> []"

definition typed_record :: "valibot \<Rightarrow> string \<Rightarrow> json \<Rightarrow> (string, json) jsmap option" where
  "typed_record vb kind entry =
     Option.bind (toRecord (Some entry)) (\<lambda>r. if readString vb (map_get r ''type'') = Some kind then Some r else None)"

definition array_entries :: "json option \<Rightarrow> json list" where
  "array_entries value = (case value of Some (JArr xs) \<Rightarrow> xs | _ \<Rightarrow> [])"

definition extractUserMessageText :: "valibot \<Rightarrow> json option \<Rightarrow> string" where
  "extractUserMessageText vb value =
     join NL (filter (\<lambda>part. part \<noteq> [])
       (map (\<lambda>entry. case typed_record vb ''text'' entry of Some r \<Rightarrow> or_empty (readString vb (map_get r ''text'')) | None \<Rightarrow> [])
         (array_entries value)))"

definition extractUserMessageMentions :: "valibot \<Rightarrow> json option \<Rightarrow> turn_mention list" where
  "extractUserMessageMentions vb value =
     List.map_filter (\<lambda>entry. Option.bind (typed_record vb ''mention'' entry)
         (\<lambda>r. map_option (\<lambda>path. \<lparr>tn_name = normalizeMentionName (readString vb (map_get r ''name'')) path, tn_path = path\<rparr>)
                (non_empty (map_option trim (readString vb (map_get r ''path''))))))
       (array_entries value)"

definition extractUserMessageLocalImages :: "valibot \<Rightarrow> json option \<Rightarrow> string list" where
  "extractUserMessageLocalImages vb value =
     List.map_filter (\<lambda>entry. Option.bind (typed_record vb ''localImage'' entry)
         (\<lambda>r. non_empty (map_option trim (readString vb (map_get r ''path'')))))
       (array_entries value)"

definition item_is_user_message :: "valibot \<Rightarrow> string \<Rightarrow> (string, json) jsmap \<Rightarrow> bool" where
  "item_is_user_message vb expected item \<longleftrightarrow>
     readString vb (map_get item ''type'') = Some ''userMessage'' \<and>
     (let content = map_get item ''content'' in
      buildExpectedUserMessageContent (trim (extractUserMessageText vb content)) (extractUserMessageMentions vb content)
        (extractUserMessageLocalImages vb content) = expected)"

definition rawThreadHasTurnUserMessage ::
  "valibot \<Rightarrow> raw_thread \<Rightarrow> string \<Rightarrow> string \<Rightarrow> turn_mention list \<Rightarrow> string list \<Rightarrow> bool" where
  "rawThreadHasTurnUserMessage vb raw turnId content mentions localImages =
     (let normalizedContent = trim content; normalizedTurnId = trim turnId in
      if normalizedContent = [] \<or> normalizedTurnId = [] then False
      else case List.find (\<lambda>t. rt_id t = Some normalizedTurnId) (rw_turns raw) of
             None \<Rightarrow> False
           | Some t \<Rightarrow>
               list_ex (item_is_user_message vb (buildExpectedUserMessageContent normalizedContent mentions localImages)) (rt_items t))"


section \<open>The chat with the prompt\<close>

definition appendSyntheticUserMessage ::
  "string \<Rightarrow> string \<Rightarrow> chat \<Rightarrow> string \<Rightarrow> turn_mention list \<Rightarrow> string list \<Rightarrow> chat" where
  "appendSyntheticUserMessage local_id createdAt c content mentions localImages =
     (let normalized = buildExpectedUserMessageContent (trim content) mentions localImages in
      if normalized = [] then c
      else c\<lparr>ct_updatedAt := createdAt, ct_lastMessagePreview := take 120 normalized,
             ct_messages := ct_messages c @ [blank_message local_id User (JStr normalized) createdAt]\<rparr>)"

definition shows_user_message ::
  "valibot \<Rightarrow> string \<Rightarrow> string \<Rightarrow> turn_mention list \<Rightarrow> string list \<Rightarrow> raw_thread \<times> chat \<Rightarrow> bool" where
  "shows_user_message vb turnId content mentions localImages snapshot \<longleftrightarrow>
     rawThreadHasTurnUserMessage vb (fst snapshot) turnId content mentions localImages \<or>
     (\<not> rawThreadHasTurns (fst snapshot) \<and> chatHasRecentUserMessage (snd snapshot) content mentions localImages 8)"

definition USER_MESSAGE_RETRY_DELAYS_MS :: "nat list" where
  "USER_MESSAGE_RETRY_DELAYS_MS = [25, 50, 100, 150]"

type_synonym snapshot_reader = "nat \<Rightarrow> api_client \<Rightarrow> (client_error + raw_thread \<times> chat) \<times> api_client"

text \<open>The first read, and the loop over the delays with the latest chat.\<close>

fun user_message_retries ::
  "snapshot_reader \<Rightarrow> (raw_thread \<times> chat \<Rightarrow> bool) \<Rightarrow> nat list \<Rightarrow> nat \<Rightarrow> chat \<Rightarrow> api_client \<Rightarrow> (client_error + chat \<times> bool) \<times> api_client" where
  "user_message_retries readSnapshot found [] n latest s = (Inr (latest, False), s)"
| "user_message_retries readSnapshot found (d # ds) n latest s =
     (case readSnapshot n s of
        (Inl e, s1) \<Rightarrow> (Inl e, s1)
      | (Inr snapshot, s1) \<Rightarrow>
          if found snapshot then (Inr (snd snapshot, True), s1)
          else user_message_retries readSnapshot found ds (n + 1) (snd snapshot) s1)"

definition getChatWithUserMessage ::
  "valibot \<Rightarrow> rat \<Rightarrow> string \<Rightarrow> string \<Rightarrow> snapshot_reader \<Rightarrow> string \<Rightarrow> string \<Rightarrow> turn_mention list \<Rightarrow> string list \<Rightarrow> api_client \<Rightarrow>
   (client_error + chat) \<times> api_client" where
  "getChatWithUserMessage vb now local_id createdAt readSnapshot turnId content mentions localImages s =
     (let normalizedContent = trim content; found = shows_user_message vb turnId normalizedContent mentions localImages in
      case readSnapshot 0 s of
        (Inl e, s1) \<Rightarrow> (Inl e, s1)
      | (Inr snapshot, s1) \<Rightarrow>
          if normalizedContent = [] then (Inr (snd snapshot), s1)
          else
            (case (if found snapshot then (Inr (snd snapshot, True), s1)
                   else user_message_retries readSnapshot found USER_MESSAGE_RETRY_DELAYS_MS 1 (snd snapshot) s1) of
               (Inl e, s2) \<Rightarrow> (Inl e, s2)
             | (Inr (c, True), s2) \<Rightarrow> (Inr c, rememberChat now c s2)
             | (Inr (c, False), s2) \<Rightarrow>
                 let synthetic = appendSyntheticUserMessage local_id createdAt c normalizedContent mentions localImages
                 in (Inr synthetic, rememberChat now synthetic s2)))"


section \<open>Preparing a turn\<close>

record send_request =
  sq_content :: string
  sq_role :: "string option"
  sq_cwd :: "string option"
  sq_model :: "string option"
  sq_effort :: "string option"
  sq_serviceTier :: "string option"
  sq_approvalPolicy :: "string option"
  sq_mentions :: "mention_input list option"
  sq_localImages :: "string list option"
  sq_collaborationMode :: "string option"
  sq_agent :: "string option"

record turn_settings =
  tg_cwd :: "string option"
  tg_model :: "string option"
  tg_effort :: "string option"
  tg_serviceTier :: "string option"
  tg_approvalPolicy :: string
  tg_mentions :: "turn_mention list"
  tg_localImages :: "string list"
  tg_collaborationMode :: "string option"
  tg_agent :: "string option"

record turn_start =
  ts_threadId :: string
  ts_input :: "turn_input list"
  ts_cwd :: "string option"
  ts_approvalPolicy :: "string option"
  ts_model :: "string option"
  ts_effort :: "string option"
  ts_serviceTier :: "string option"
  ts_collaborationMode :: "collaboration option"
  ts_agent :: "string option"

record prepared_turn =
  pt_content :: string
  pt_mentions :: "turn_mention list"
  pt_localImages :: "string list"
  pt_turnStart :: turn_start

definition emptyPreparedTurn :: "string \<Rightarrow> prepared_turn" where
  "emptyPreparedTurn threadId =
     \<lparr>pt_content = [], pt_mentions = [], pt_localImages = [],
      pt_turnStart = \<lparr>ts_threadId = threadId, ts_input = [], ts_cwd = None, ts_approvalPolicy = None, ts_model = None,
        ts_effort = None, ts_serviceTier = None, ts_collaborationMode = None, ts_agent = None\<rparr>\<rparr>"

definition readTurnSettings :: "send_request \<Rightarrow> turn_settings" where
  "readTurnSettings body =
     \<lparr>tg_cwd = client_cwd (sq_cwd body), tg_model = normalizeModel (sq_model body), tg_effort = normalizeEffort (sq_effort body),
      tg_serviceTier = normalizeServiceTier (sq_serviceTier body),
      tg_approvalPolicy = (case normalizeApprovalPolicy (sq_approvalPolicy body) of Some p \<Rightarrow> p | None \<Rightarrow> ''untrusted''),
      tg_mentions = normalizeMentions (sq_mentions body), tg_localImages = normalizeLocalImages (sq_localImages body),
      tg_collaborationMode = normalizeCollaborationMode (sq_collaborationMode body), tg_agent = normalizeAgentName (sq_agent body)\<rparr>"

record resume_request =
  rq_threadId :: string
  rq_model :: "string option"
  rq_cwd :: string
  rq_approvalPolicy :: string

definition resumeThread_check :: "string \<Rightarrow> string option \<Rightarrow> string option \<Rightarrow> string option \<Rightarrow> client_error + resume_request" where
  "resumeThread_check i cwd model approvalPolicy =
     (let threadId = trim i in
      if threadId = [] then Inl (OtherFailure ''thread id is required'')
      else case client_cwd cwd of
             None \<Rightarrow> Inl (OtherFailure ''Cannot resume thread without its canonical workspace path'')
           | Some requestedCwd \<Rightarrow>
               Inr \<lparr>rq_threadId = threadId, rq_model = normalizeModel model, rq_cwd = requestedCwd,
                    rq_approvalPolicy = (case normalizeApprovalPolicy approvalPolicy of Some p \<Rightarrow> p | None \<Rightarrow> ''untrusted'')\<rparr>)"

text \<open>\<open>resumeThread\<close> with the bridge as an argument.\<close>

definition resumeThread ::
  "valibot \<Rightarrow> (resume_request \<Rightarrow> client_error + json option) \<Rightarrow> string \<Rightarrow> string option \<Rightarrow> string option \<Rightarrow> string option \<Rightarrow>
   client_error + runtime_settings" where
  "resumeThread vb bridge i cwd model approvalPolicy =
     (case resumeThread_check i cwd model approvalPolicy of
        Inl e \<Rightarrow> Inl e
      | Inr request \<Rightarrow> map_sum id (readThreadRuntimeSettings vb) (bridge request))"

definition prepareNonEmptyTurnRequest :: "string \<Rightarrow> string \<Rightarrow> turn_settings \<Rightarrow> runtime_settings option \<Rightarrow> prepared_turn" where
  "prepareNonEmptyTurnRequest i content settings resumed =
     (let effectiveModel = or_else (tg_model settings) (Option.bind resumed rs_model);
          effectiveEffort = (if tg_collaborationMode settings \<noteq> None then or_else (tg_effort settings) (Option.bind resumed rs_effort)
                             else tg_effort settings)
      in \<lparr>pt_content = content, pt_mentions = tg_mentions settings, pt_localImages = tg_localImages settings,
          pt_turnStart =
            \<lparr>ts_threadId = i, ts_input = buildTurnInput content (tg_mentions settings) (tg_localImages settings),
             ts_cwd = tg_cwd settings, ts_approvalPolicy = Some (tg_approvalPolicy settings), ts_model = effectiveModel,
             ts_effort = effectiveEffort, ts_serviceTier = tg_serviceTier settings,
             ts_collaborationMode = toTurnCollaborationMode (tg_collaborationMode settings) effectiveModel effectiveEffort,
             ts_agent = tg_agent settings\<rparr>\<rparr>)"

definition prepareTurnRequest ::
  "valibot \<Rightarrow> (resume_request \<Rightarrow> client_error + json option) \<Rightarrow> bool \<Rightarrow> string \<Rightarrow> send_request \<Rightarrow> client_error + prepared_turn" where
  "prepareTurnRequest vb bridge skipResume i body =
     (let content = trim (sq_content body); settings = readTurnSettings body in
      if content = [] then Inr (emptyPreparedTurn i)
      else if (case sq_role body of Some r \<Rightarrow> r | None \<Rightarrow> ''user'') \<noteq> ''user''
      then Inl (OtherFailure ''Only user role is supported in bridge/chat messaging'')
      else if skipResume then Inr (prepareNonEmptyTurnRequest i content settings None)
      else map_sum id (\<lambda>resumed. prepareNonEmptyTurnRequest i content settings (Some resumed))
             (resumeThread vb bridge i (tg_cwd settings) (tg_model settings) (Some (tg_approvalPolicy settings))))"


section \<open>Sending\<close>

record thread_queue =
  tq_threadId :: string
  tq_items :: "json list"
  tq_pendingSteers :: "json list"
  tq_pendingSteerCount :: int
  tq_waitingForToolCalls :: bool
  tq_steeringInFlight :: bool
  tq_lastError :: "string option"

record queue_request =
  qr_threadId :: string
  qr_submissionId :: string
  qr_content :: string
  qr_turnStart :: turn_start

record queue_response =
  qp_queued :: bool
  qp_queue :: thread_queue
  qp_turnId :: "string option"

text \<open>The answers of the bridge to the requests that sending makes; a chat is read through the caches.\<close>

record turn_bridge =
  tb_resume :: "resume_request \<Rightarrow> client_error + json option"
  tb_readQueue :: "string \<Rightarrow> client_error + thread_queue"
  tb_queueSend :: "queue_request \<Rightarrow> client_error + queue_response"
  tb_turnStart :: "turn_start \<Rightarrow> client_error + string option"
  tb_interrupt :: "string \<Rightarrow> string \<Rightarrow> client_error option"
  tb_getChat :: "string \<Rightarrow> api_client \<Rightarrow> (client_error + chat) \<times> api_client"
  tb_readSnapshot :: "string \<Rightarrow> snapshot_reader"

text \<open>What else a call takes from its surroundings: the clock and fresh ids.\<close>

record call_context =
  cx_now :: rat
  cx_createdAt :: string
  cx_localId :: string
  cx_submissionId :: string

record send_result =
  sr_queued :: bool
  sr_queue :: thread_queue
  sr_turnId :: "string option"
  sr_chat :: "chat option"

definition readThreadQueue :: "turn_bridge \<Rightarrow> string \<Rightarrow> client_error + thread_queue" where
  "readThreadQueue B threadId =
     (let i = trim threadId in
      if i = [] then Inr \<lparr>tq_threadId = [], tq_items = [], tq_pendingSteers = [], tq_pendingSteerCount = 0,
        tq_waitingForToolCalls = False, tq_steeringInFlight = False, tq_lastError = None\<rparr>
      else tb_readQueue B i)"

definition chat_with_message ::
  "valibot \<Rightarrow> call_context \<Rightarrow> turn_bridge \<Rightarrow> string \<Rightarrow> string \<Rightarrow> prepared_turn \<Rightarrow> api_client \<Rightarrow> (client_error + chat) \<times> api_client" where
  "chat_with_message vb cx B i turnId p s =
     getChatWithUserMessage vb (cx_now cx) (cx_localId cx) (cx_createdAt cx) (tb_readSnapshot B i) turnId
       (pt_content p) (pt_mentions p) (pt_localImages p) s"

definition sendOrQueueChatMessage ::
  "valibot \<Rightarrow> call_context \<Rightarrow> turn_bridge \<Rightarrow> string \<Rightarrow> send_request \<Rightarrow> bool \<Rightarrow> string option \<Rightarrow> api_client \<Rightarrow>
   (client_error + send_result) \<times> api_client" where
  "sendOrQueueChatMessage vb cx B i body skipResume submissionId s =
     (case prepareTurnRequest vb (tb_resume B) skipResume i body of
        Inl e \<Rightarrow> (Inl e, s)
      | Inr p \<Rightarrow>
          if pt_content p = [] then
            (case readThreadQueue B i of
               Inl e \<Rightarrow> (Inl e, s)
             | Inr q \<Rightarrow>
                 (case tb_getChat B i s of
                    (Inl e, s1) \<Rightarrow> (Inl e, s1)
                  | (Inr c, s1) \<Rightarrow> (Inr \<lparr>sr_queued = False, sr_queue = q, sr_turnId = None, sr_chat = Some c\<rparr>, s1)))
          else
            (case tb_queueSend B \<lparr>qr_threadId = i,
                    qr_submissionId = (case non_empty (map_option trim submissionId) of Some x \<Rightarrow> x | None \<Rightarrow> cx_submissionId cx),
                    qr_content = pt_content p, qr_turnStart = pt_turnStart p\<rparr> of
               Inl e \<Rightarrow> (Inl e, s)
             | Inr r \<Rightarrow>
                 if qp_queued r then (Inr \<lparr>sr_queued = True, sr_queue = qp_queue r, sr_turnId = None, sr_chat = None\<rparr>, s)
                 else
                   (case non_empty (map_option trim (qp_turnId r)) of
                      None \<Rightarrow> (Inr \<lparr>sr_queued = False, sr_queue = qp_queue r, sr_turnId = None, sr_chat = None\<rparr>, s)
                    | Some turnId \<Rightarrow>
                        (case chat_with_message vb cx B i turnId p s of
                           (Inl _, s1) \<Rightarrow>
                             (Inr \<lparr>sr_queued = False, sr_queue = qp_queue r, sr_turnId = Some turnId, sr_chat = None\<rparr>, s1)
                         | (Inr c, s1) \<Rightarrow>
                             (Inr \<lparr>sr_queued = False, sr_queue = qp_queue r, sr_turnId = Some turnId, sr_chat = Some c\<rparr>, s1)))))"

definition acceptedTurnFallback :: "string \<Rightarrow> string option \<Rightarrow> api_client \<Rightarrow> chat option" where
  "acceptedTurnFallback i turnId s =
     map_option (\<lambda>c. c\<lparr>ct_status := StRunning, ct_activeTurnId := or_else turnId (ct_activeTurnId c)\<rparr>) (peekChat i s)"

text \<open>The second component is the turn that \<open>onTurnStarted\<close> is called with.\<close>

definition sendChatMessageIdempotent ::
  "valibot \<Rightarrow> call_context \<Rightarrow> turn_bridge \<Rightarrow> string \<Rightarrow> send_request \<Rightarrow> string \<Rightarrow> api_client \<Rightarrow>
   (client_error + chat) \<times> string option \<times> api_client" where
  "sendChatMessageIdempotent vb cx B i body submissionId s =
     (case sendOrQueueChatMessage vb cx B i body False (Some submissionId) s of
        (Inl e, s1) \<Rightarrow> (Inl e, None, s1)
      | (Inr r, s1) \<Rightarrow>
          if sr_queued r then (case tb_getChat B i s1 of (c, s2) \<Rightarrow> (c, None, s2))
          else
            (case sr_chat r of
               Some c \<Rightarrow> (Inr c, non_empty (sr_turnId r), s1)
             | None \<Rightarrow>
                 (case acceptedTurnFallback i (sr_turnId r) s1 of
                    Some c \<Rightarrow> (Inr c, non_empty (sr_turnId r), s1)
                  | None \<Rightarrow> (Inl (OtherFailure ''Accepted turn could not be hydrated''), non_empty (sr_turnId r), s1))))"

definition sendChatMessage ::
  "valibot \<Rightarrow> call_context \<Rightarrow> turn_bridge \<Rightarrow> string \<Rightarrow> send_request \<Rightarrow> api_client \<Rightarrow>
   (client_error + chat) \<times> string option \<times> api_client" where
  "sendChatMessage vb cx B i body s =
     (case prepareTurnRequest vb (tb_resume B) False i body of
        Inl e \<Rightarrow> (Inl e, None, s)
      | Inr p \<Rightarrow>
          if pt_content p = [] then (case tb_getChat B i s of (c, s1) \<Rightarrow> (c, None, s1))
          else
            (case tb_turnStart B (pt_turnStart p) of
               Inl e \<Rightarrow> (Inl e, None, s)
             | Inr t \<Rightarrow>
                 (case non_empty t of
                    None \<Rightarrow> (Inl (OtherFailure ''turn/start did not return turn id''), None, s)
                  | Some turnId \<Rightarrow> (case chat_with_message vb cx B i turnId p s of (c, s1) \<Rightarrow> (c, Some turnId, s1)))))"


section \<open>Interrupting\<close>

definition ACTIVE_TURN_STATUSES :: "string list" where
  "ACTIVE_TURN_STATUSES = [''inprogress'', ''in_progress'', ''running'', ''active'', ''queued'', ''pending'']"

definition interruptTurn :: "turn_bridge \<Rightarrow> string \<Rightarrow> string \<Rightarrow> client_error option" where
  "interruptTurn B threadId turnId =
     (if trim threadId = [] \<or> trim turnId = []
      then Some (OtherFailure ''threadId and turnId are required to interrupt a turn'')
      else tb_interrupt B (trim threadId) (trim turnId))"

definition active_turn :: "raw_turn \<Rightarrow> string option" where
  "active_turn t =
     (case (non_empty (rt_id t), normalizeTurnStatus (rt_status t)) of
        (Some i, Some st) \<Rightarrow> if st \<in> set ACTIVE_TURN_STATUSES then Some i else None
      | _ \<Rightarrow> None)"

definition interruptLatestTurn :: "turn_bridge \<Rightarrow> string \<Rightarrow> api_client \<Rightarrow> (client_error + string option) \<times> api_client" where
  "interruptLatestTurn B threadId s =
     (let i = trim threadId in
      if i = [] then (Inl (OtherFailure ''threadId is required to interrupt the active turn''), s)
      else
        (case tb_readSnapshot B i 0 s of
           (Inl e, s1) \<Rightarrow> (Inl e, s1)
         | (Inr snapshot, s1) \<Rightarrow>
             (case first_some active_turn (rev (rw_turns (fst snapshot))) of
                None \<Rightarrow> (Inr None, s1)
              | Some turnId \<Rightarrow>
                  (case interruptTurn B i turnId of Some e \<Rightarrow> (Inl e, s1) | None \<Rightarrow> (Inr (Some turnId), s1)))))"

definition setChatWorkspace ::
  "valibot \<Rightarrow> turn_bridge \<Rightarrow> string \<Rightarrow> string \<Rightarrow> api_client \<Rightarrow> (client_error + chat) \<times> api_client" where
  "setChatWorkspace vb B i cwd s =
     (case client_cwd (Some cwd) of
        None \<Rightarrow> (Inl (OtherFailure ''Workspace path cannot be empty''), s)
      | Some c \<Rightarrow>
          (case resumeThread vb (tb_resume B) i (Some c) None None of
             Inl e \<Rightarrow> (Inl e, s)
           | Inr _ \<Rightarrow>
               (case tb_getChat B i s of
                  (Inl e, s1) \<Rightarrow> (Inl e, s1)
                | (Inr updated, s1) \<Rightarrow>
                    (Inr (if ct_cwd updated = Some c then updated else updated\<lparr>ct_cwd := Some c\<rparr>), s1))))"


section \<open>Mentions are normalised once\<close>

definition mentions_ok :: "turn_mention list \<times> string list \<Rightarrow> bool" where
  "mentions_ok s \<longleftrightarrow>
     snd s = map (\<lambda>m. to_lower (tn_path m)) (fst s) \<and> distinct (snd s) \<and>
     (\<forall>m\<in>set (fst s). tn_path m \<noteq> [] \<and> trim (tn_path m) = tn_path m)"

lemma add_mention_ok: "mentions_ok s \<Longrightarrow> mentions_ok (add_mention e s)"
  by (cases s) (auto simp: mentions_ok_def add_mention_def Let_def)

lemma normalized_mentions:
  "distinct (map (\<lambda>m. to_lower (tn_path m)) (normalizeMentions raw))"
  "m \<in> set (normalizeMentions raw) \<Longrightarrow> tn_path m \<noteq> [] \<and> trim (tn_path m) = tn_path m"
proof -
  have run: "mentions_ok s \<Longrightarrow> mentions_ok (fold add_mention es s)" for es s
    by (induction es arbitrary: s) (simp_all add: add_mention_ok)
  have ok: "mentions_ok (fold add_mention es ([], []))" for es by (rule run) (simp add: mentions_ok_def)
  show "distinct (map (\<lambda>m. to_lower (tn_path m)) (normalizeMentions raw))"
  proof (cases raw)
    case (Some es)
    have "distinct (snd (fold add_mention es ([], [])))"
      "snd (fold add_mention es ([], [])) = map (\<lambda>m. to_lower (tn_path m)) (fst (fold add_mention es ([], [])))"
      using ok [of es] unfolding mentions_ok_def by blast+
    then show ?thesis unfolding normalizeMentions_def Some option.case by (rule subst [rotated])
  qed (simp add: normalizeMentions_def)
  show "m \<in> set (normalizeMentions raw) \<Longrightarrow> tn_path m \<noteq> [] \<and> trim (tn_path m) = tn_path m"
    using ok by (cases raw) (auto simp: normalizeMentions_def mentions_ok_def)
qed

definition images_ok :: "string list \<times> string list \<Rightarrow> bool" where
  "images_ok s \<longleftrightarrow> (\<forall>p\<in>set (fst s). p \<noteq> [] \<and> trim p = p)"

lemma normalized_images: "p \<in> set (normalizeLocalImages raw) \<Longrightarrow> p \<noteq> [] \<and> trim p = p"
proof -
  have "images_ok s \<Longrightarrow> images_ok (add_image e s)" for e s
    by (cases s) (auto simp: images_ok_def add_image_def Let_def)
  then have "images_ok s \<Longrightarrow> images_ok (fold add_image es s)" for es s
    by (induction es arbitrary: s) simp_all
  from this [of "([], [])"] show "p \<in> set (normalizeLocalImages raw) \<Longrightarrow> p \<noteq> [] \<and> trim p = p"
    by (cases raw) (simp_all add: normalizeLocalImages_def images_ok_def)
qed


section \<open>A sent prompt is recognised in its turn\<close>

text \<open>The input as the bridge keeps it in the item of the user message.\<close>

definition wire_input :: "turn_input \<Rightarrow> json" where
  "wire_input i =
     (case i of
        InText t \<Rightarrow> JObj [(''type'', JStr ''text''), (''text'', JStr t), (''text_elements'', JArr [])]
      | InMention m \<Rightarrow> JObj [(''type'', JStr ''mention''), (''name'', JStr (tn_name m)), (''path'', JStr (tn_path m))]
      | InLocalImage p \<Rightarrow> JObj [(''type'', JStr ''localImage''), (''path'', JStr p)])"

definition wire_item :: "turn_input list \<Rightarrow> (string, json) jsmap" where
  "wire_item inputs = [(''type'', JStr ''userMessage''), (''content'', JArr (map wire_input inputs))]"

lemma typed_record_wire:
  assumes "valibot_conforms vb"
  shows "typed_record vb ''text'' (wire_input i) = (case i of InText t \<Rightarrow> record_of (Some (wire_input i)) | _ \<Rightarrow> None)"
    and "typed_record vb ''mention'' (wire_input i) = (case i of InMention m \<Rightarrow> record_of (Some (wire_input i)) | _ \<Rightarrow> None)"
    and "typed_record vb ''localImage'' (wire_input i) = (case i of InLocalImage p \<Rightarrow> record_of (Some (wire_input i)) | _ \<Rightarrow> None)"
  using assms
  by (cases i; simp add: typed_record_def wire_input_def toRecord_def readString_def valibot_conforms_def record_of_def)+

lemma buildTurnInput_parts:
  "buildTurnInput content ms ps = InText content # map InMention ms @ map InLocalImage ps"
  by (auto simp: buildTurnInput_def)

lemma map_filter_Nil: "\<forall>x\<in>set xs. f x = None \<Longrightarrow> List.map_filter f xs = []"
  by (induction xs) (simp_all add: List.map_filter_simps)

lemma map_filter_append: "List.map_filter f (xs @ ys) = List.map_filter f xs @ List.map_filter f ys"
  by (simp add: List.map_filter_def)

lemma map_filter_map_Some: "\<forall>x\<in>set xs. f (g x) = Some (h x) \<Longrightarrow> List.map_filter f (map g xs) = map h xs"
  by (induction xs) (simp_all add: List.map_filter_simps)

lemma extracted_input:
  assumes vb: "valibot_conforms vb" and "content \<noteq> []" "\<forall>m\<in>set ms. tn_path m \<noteq> [] \<and> trim (tn_path m) = tn_path m"
    "\<forall>p\<in>set ps. p \<noteq> [] \<and> trim p = p"
  defines "v \<equiv> Some (JArr (map wire_input (buildTurnInput content ms ps)))"
  shows "extractUserMessageText vb v = content"
    and "map tn_path (extractUserMessageMentions vb v) = map tn_path ms"
    and "extractUserMessageLocalImages vb v = ps"
proof -
  note wire = typed_record_wire [OF vb]
  have read: "readString vb (Some (JStr t)) = Some t" for t using vb by (simp add: readString_def valibot_conforms_def)
  have "filter (\<lambda>part. part \<noteq> []) (map (\<lambda>entry. case typed_record vb ''text'' entry of
      Some r \<Rightarrow> or_empty (readString vb (map_get r ''text'')) | None \<Rightarrow> []) (map wire_input (map InMention ms @ map InLocalImage ps))) = []"
    by (simp add: wire filter_empty_conv)
  moreover have "(case typed_record vb ''text'' (wire_input (InText content)) of
      Some r \<Rightarrow> or_empty (readString vb (map_get r ''text'')) | None \<Rightarrow> []) = content"
    by (simp only: wire turn_input.case) (simp add: wire_input_def record_of_def read or_empty_def)
  ultimately show "extractUserMessageText vb v = content"
    using assms(2) by (simp add: extractUserMessageText_def v_def array_entries_def buildTurnInput_parts)
  define mention where "mention = (\<lambda>entry. Option.bind (typed_record vb ''mention'' entry)
      (\<lambda>r. map_option (\<lambda>path. \<lparr>tn_name = normalizeMentionName (readString vb (map_get r ''name'')) path, tn_path = path\<rparr>)
             (non_empty (map_option trim (readString vb (map_get r ''path''))))))"
  have "mention (wire_input (InText content)) = None" "\<forall>x\<in>set (map (wire_input \<circ> InLocalImage) ps). mention x = None"
    by (simp_all add: mention_def wire)
  moreover have "\<forall>m\<in>set ms. mention ((wire_input \<circ> InMention) m)
      = Some \<lparr>tn_name = normalizeMentionName (Some (tn_name m)) (tn_path m), tn_path = tn_path m\<rparr>"
    using assms(3) by (simp add: mention_def wire) (simp add: wire_input_def record_of_def read non_empty_def)
  ultimately have "extractUserMessageMentions vb v
      = map (\<lambda>m. \<lparr>tn_name = normalizeMentionName (Some (tn_name m)) (tn_path m), tn_path = tn_path m\<rparr>) ms"
    unfolding extractUserMessageMentions_def mention_def [symmetric] v_def array_entries_def buildTurnInput_parts
    by (simp add: List.map_filter_simps map_filter_append map_filter_map_Some [where h = "\<lambda>m. _ m"] map_filter_Nil)
  then show "map tn_path (extractUserMessageMentions vb v) = map tn_path ms" by (simp add: comp_def)
  define image where "image = (\<lambda>entry. Option.bind (typed_record vb ''localImage'' entry)
      (\<lambda>r. non_empty (map_option trim (readString vb (map_get r ''path'')))))"
  have "image (wire_input (InText content)) = None" "\<forall>x\<in>set (map (wire_input \<circ> InMention) ms). image x = None"
    by (simp_all add: image_def wire)
  moreover have "\<forall>p\<in>set ps. image ((wire_input \<circ> InLocalImage) p) = Some p"
    using assms(4) by (simp add: image_def wire) (simp add: wire_input_def record_of_def read non_empty_def)
  ultimately show "extractUserMessageLocalImages vb v = ps"
    unfolding extractUserMessageLocalImages_def image_def [symmetric] v_def array_entries_def buildTurnInput_parts
    by (simp add: List.map_filter_simps map_filter_append map_filter_map_Some [where h = id, simplified] map_filter_Nil)
qed

text \<open>
  C35. A prompt that was sent is recognised: the input that is built for a turn from the text, the files and the images of a
  request is found again in the item of the user message that holds it, in the turn with the given id, whatever files and
  images were mentioned, repeated or written with white space. Other turns of the thread do not matter, if none before has
  the same id.
\<close>

theorem sent_prompt_recognised:
  assumes "valibot_conforms vb" "trim content \<noteq> []" "trim turnId \<noteq> []"
    and "rw_turns raw = before @ t # after" "\<forall>u\<in>set before. rt_id u \<noteq> Some (trim turnId)" "rt_id t = Some (trim turnId)"
    and "wire_item (buildTurnInput (trim content) (normalizeMentions ms) (normalizeLocalImages ps)) \<in> set (rt_items t)"
  shows "rawThreadHasTurnUserMessage vb raw turnId content (normalizeMentions ms) (normalizeLocalImages ps)"
proof -
  let ?ms = "normalizeMentions ms" and ?ps = "normalizeLocalImages ps"
  let ?item = "wire_item (buildTurnInput (trim content) ?ms ?ps)"
  let ?content = "Some (JArr (map wire_input (buildTurnInput (trim content) ?ms ?ps)))"
  have "\<forall>m\<in>set ?ms. tn_path m \<noteq> [] \<and> trim (tn_path m) = tn_path m" "\<forall>p\<in>set ?ps. p \<noteq> [] \<and> trim p = p"
    using normalized_mentions(2) [of _ ms] normalized_images [of _ ps] by blast+
  note ext = extracted_input [OF assms(1,2) this]
  have expected: "buildExpectedUserMessageContent c (extractUserMessageMentions vb ?content) qs = buildExpectedUserMessageContent c ?ms qs" for c qs
  proof -
    have "map (\<lambda>p. ''[file: '' @ p @ '']'') (map tn_path (extractUserMessageMentions vb ?content))
        = map (\<lambda>p. ''[file: '' @ p @ '']'') (map tn_path ?ms)" by (simp only: ext(2))
    then show ?thesis by (simp add: buildExpectedUserMessageContent_def comp_def)
  qed
  have item: "readString vb (map_get ?item ''type'') = Some ''userMessage''" "map_get ?item ''content'' = ?content"
    using assms(1) by (simp_all add: wire_item_def readString_def valibot_conforms_def)
  have "item_is_user_message vb (buildExpectedUserMessageContent (trim content) ?ms ?ps) ?item"
    unfolding item_is_user_message_def Let_def item ext(1,3) expected trim_idem by simp
  moreover have "List.find (\<lambda>u. rt_id u = Some (trim turnId)) (before @ t # after) = Some t"
    using assms(5,6) by (induction before) auto
  ultimately show ?thesis
    using assms(2,3,4,7) unfolding rawThreadHasTurnUserMessage_def Let_def list_ex_iff by auto
qed

definition demo_mentions :: "mention_input list" where
  "demo_mentions = [\<lparr>mi_path = '' src/A.ts'', mi_name = None\<rparr>, \<lparr>mi_path = ''SRC/a.ts '', mi_name = Some ''again''\<rparr>]"

definition demo_turn :: raw_turn where
  "demo_turn = \<lparr>rt_id = Some ''t1'', rt_status = None, rt_errors = [],
     rt_items = [wire_item (buildTurnInput ''do it'' (normalizeMentions (Some demo_mentions)) (normalizeLocalImages (Some ['' x.png''])))]\<rparr>"

definition demo_thread :: raw_thread where
  "demo_thread = (toRawThread valibot_documented (\<lambda>_. None) None)\<lparr>rw_turns := [demo_turn]\<rparr>"

theorem sent_prompt_recognised_witness:
  "rawThreadHasTurnUserMessage valibot_documented demo_thread ''t1 '' '' do it'' (normalizeMentions (Some demo_mentions))
     (normalizeLocalImages (Some ['' x.png''])) \<and> length (normalizeMentions (Some demo_mentions)) = 1"
proof -
  have t: "trim ''t1 '' = ''t1''" "trim '' do it'' = ''do it''" by code_simp+
  have "rawThreadHasTurnUserMessage valibot_documented demo_thread ''t1 '' '' do it'' (normalizeMentions (Some demo_mentions))
     (normalizeLocalImages (Some ['' x.png'']))"
    by (rule sent_prompt_recognised [where before = "[]" and t = demo_turn and after = "[]"])
      (simp_all add: valibot_documented_conforms t demo_thread_def demo_turn_def)
  moreover have "length (normalizeMentions (Some demo_mentions)) = 1" by code_simp
  ultimately show ?thesis ..
qed


section \<open>The chat after sending shows the prompt\<close>












text \<open>
  C37. What a prompt that the bridge has accepted comes to. If the bridge answers the request with an error, \<open>sendOrQueueChatMessage\<close>
  fails with that error and the caches are untouched. If it answers with a queued prompt or with a turn,
  \<open>sendOrQueueChatMessage\<close> succeeds, whatever happens to the reads of the chat behind it, and tells the disposition, the
  queue and the turn of the answer. Its caller \<open>sendChatMessageIdempotent\<close> needs a chat as well and can fail after the
  acceptance: for a queued prompt exactly if \<open>getChat\<close> then fails, for a sent one exactly if no chat came with the result
  and the client has none in its caches (\<open>accepted_prompt_reported_failed\<close>). \<open>sendChatMessage\<close>, which does not go through
  the queue, is not covered.
\<close>

theorem accepted_prompt_succeeds:
  assumes "prepareTurnRequest vb (tb_resume B) skipResume i body = Inr p" "pt_content p \<noteq> []"
  shows "case tb_queueSend B \<lparr>qr_threadId = i,
      qr_submissionId = (case non_empty (map_option trim submissionId) of Some x \<Rightarrow> x | None \<Rightarrow> cx_submissionId cx),
      qr_content = pt_content p, qr_turnStart = pt_turnStart p\<rparr> of
    Inl e \<Rightarrow> sendOrQueueChatMessage vb cx B i body skipResume submissionId s = (Inl e, s)
  | Inr answer \<Rightarrow> \<exists>r s'. sendOrQueueChatMessage vb cx B i body skipResume submissionId s = (Inr r, s') \<and>
      sr_queued r = qp_queued answer \<and> sr_queue r = qp_queue answer \<and>
      sr_turnId r = (if qp_queued answer then None else non_empty (map_option trim (qp_turnId answer))) \<and>
      (case submissionId of
         Some submission \<Rightarrow>
           if skipResume then True
           else isl (fst (sendChatMessageIdempotent vb cx B i body submission s)) \<longleftrightarrow>
             (if qp_queued answer then isl (fst (tb_getChat B i s')) else sr_chat r = None \<and> peekChat i s' = None)
       | None \<Rightarrow> True)"
proof (cases "tb_queueSend B \<lparr>qr_threadId = i,
      qr_submissionId = (case non_empty (map_option trim submissionId) of Some x \<Rightarrow> x | None \<Rightarrow> cx_submissionId cx),
      qr_content = pt_content p, qr_turnStart = pt_turnStart p\<rparr>")
  case (Inl e)
  then show ?thesis using assms by (simp add: sendOrQueueChatMessage_def)
next
  case (Inr answer)
  have "\<exists>r s'. sendOrQueueChatMessage vb cx B i body skipResume submissionId s = (Inr r, s') \<and>
      sr_queued r = qp_queued answer \<and> sr_queue r = qp_queue answer \<and>
      sr_turnId r = (if qp_queued answer then None else non_empty (map_option trim (qp_turnId answer)))"
    using assms Inr by (auto simp: sendOrQueueChatMessage_def split: sum.splits option.splits prod.splits)
  then obtain r s' where r: "sendOrQueueChatMessage vb cx B i body skipResume submissionId s = (Inr r, s')"
    "sr_queued r = qp_queued answer" "sr_queue r = qp_queue answer"
    "sr_turnId r = (if qp_queued answer then None else non_empty (map_option trim (qp_turnId answer)))" by blast
  have "isl (fst (sendChatMessageIdempotent vb cx B i body submission s)) \<longleftrightarrow>
      (if qp_queued answer then isl (fst (tb_getChat B i s')) else sr_chat r = None \<and> peekChat i s' = None)"
    if "submissionId = Some submission" "\<not> skipResume" for submission
    using r that
    by (simp add: sendChatMessageIdempotent_def acceptedTurnFallback_def split: option.split prod.split)
  with r Inr show ?thesis by (auto split: option.split)
qed

definition demo_queue :: thread_queue where
  "demo_queue = \<lparr>tq_threadId = ''t'', tq_items = [], tq_pendingSteers = [], tq_pendingSteerCount = 0,
     tq_waitingForToolCalls = False, tq_steeringInFlight = False, tq_lastError = None\<rparr>"

text \<open>A bridge that accepts every prompt and fails every read.\<close>

definition demo_bridge :: turn_bridge where
  "demo_bridge = \<lparr>tb_resume = (\<lambda>_. Inr None), tb_readQueue = (\<lambda>_. Inr demo_queue),
     tb_queueSend = (\<lambda>_. Inr \<lparr>qp_queued = False, qp_queue = demo_queue, qp_turnId = Some '' t1 ''\<rparr>),
     tb_turnStart = (\<lambda>_. Inl (OtherFailure ''down'')), tb_interrupt = (\<lambda>_ _. None),
     tb_getChat = (\<lambda>_ s. (Inl (OtherFailure ''down''), s)), tb_readSnapshot = (\<lambda>_ _ s. (Inl (OtherFailure ''down''), s))\<rparr>"

definition demo_body :: send_request where
  "demo_body = \<lparr>sq_content = '' go '', sq_role = None, sq_cwd = Some ''/w'', sq_model = None, sq_effort = None, sq_serviceTier = None,
     sq_approvalPolicy = None, sq_mentions = None, sq_localImages = None, sq_collaborationMode = None, sq_agent = None\<rparr>"

definition demo_context :: call_context where
  "demo_context = \<lparr>cx_now = 0, cx_createdAt = [], cx_localId = ''l'', cx_submissionId = ''s''\<rparr>"

theorem accepted_prompt_succeeds_witness:
  "\<exists>r s'. sendOrQueueChatMessage valibot_documented demo_context demo_bridge ''t'' demo_body False (Some ''sub'') empty_client = (Inr r, s') \<and>
     \<not> sr_queued r \<and> sr_queue r = demo_queue \<and> sr_turnId r = Some ''t1''"
proof -
  obtain p where p: "prepareTurnRequest valibot_documented (tb_resume demo_bridge) False ''t'' demo_body = Inr p" "pt_content p \<noteq> []"
  proof
    show "prepareTurnRequest valibot_documented (tb_resume demo_bridge) False ''t'' demo_body
      = Inr (projr (prepareTurnRequest valibot_documented (tb_resume demo_bridge) False ''t'' demo_body))" by code_simp
    show "pt_content (projr (prepareTurnRequest valibot_documented (tb_resume demo_bridge) False ''t'' demo_body)) \<noteq> []" by code_simp
  qed
  have "non_empty (map_option trim (Some '' t1 '')) = Some ''t1''" by code_simp
  moreover have "tb_queueSend demo_bridge q = Inr \<lparr>qp_queued = False, qp_queue = demo_queue, qp_turnId = Some '' t1 ''\<rparr>" for q
    by (simp add: demo_bridge_def)
  ultimately show ?thesis
    using accepted_prompt_succeeds [OF p, where submissionId = "Some ''sub''" and cx = demo_context and s = empty_client]
    by simp blast
qed

text \<open>
  A prompt that is reported as failed although the bridge has accepted it: the reads fail and the chat is not in the caches.
  The queue function returns the turn, its caller turns it into an error, after the start of the turn has been announced.
\<close>

theorem accepted_prompt_reported_failed:
  "(case sendOrQueueChatMessage valibot_documented demo_context demo_bridge ''t'' demo_body False (Some ''sub'') empty_client of
      (Inr r, _) \<Rightarrow> sr_turnId r = Some ''t1'' | _ \<Rightarrow> False) \<and>
   (case sendChatMessageIdempotent valibot_documented demo_context demo_bridge ''t'' demo_body ''sub'' empty_client of
      (Inl e, started, _) \<Rightarrow> e = OtherFailure ''Accepted turn could not be hydrated'' \<and> started = Some ''t1''
    | _ \<Rightarrow> False)"
  by code_simp

text \<open>An interruption goes to the last turn that is active.\<close>

lemma interrupt_last_active:
  assumes "tb_readSnapshot B (trim i) 0 s = (Inr (raw, c), s1)" "trim i \<noteq> []" "rw_turns raw = before @ t # after"
    "active_turn t = Some j" "\<forall>u\<in>set after. active_turn u = None" "trim j \<noteq> []" "tb_interrupt B (trim i) (trim j) = None"
  shows "interruptLatestTurn B i s = (Inr (Some j), s1)"
proof -
  have "List.map_filter active_turn (rev after) = []" using assms(5) by (intro map_filter_Nil) simp
  then have "first_some active_turn (rev (rw_turns raw)) = Some j"
    by (simp add: first_some_def assms(3,4) map_filter_append List.map_filter_simps)
  then show ?thesis using assms by (simp add: interruptLatestTurn_def interruptTurn_def Let_def)
qed

end
