(* ===== verification/DrawerIndicators.thy ===== *)
theory DrawerIndicators
  imports ChatStatus ThreadTree
begin

text \<open>
  \<^verbatim>\<open>shell/navigation/drawerRuntimeIndicators.ts\<close>: which chats the drawer shows as running. Notifications of the
  bridge set and clear an indicator per thread; an indicator that was set by the start of a run lasts six hours, one that
  was set by a sign of life twenty seconds. \<open>Date.now()\<close> is the argument \<open>now\<close>, \<open>Date.parse\<close> the argument \<open>dp\<close>.
  An object that is returned unchanged is the same list. Thread ids that name a member of \<open>Object.prototype\<close> are left out.
\<close>

section \<open>Indicators\<close>

datatype indicator_source = Heartbeat | Lifecycle

record run_indicator =
  ri_source :: indicator_source
  ri_updatedAt :: rat

type_synonym indicators = "(string, run_indicator) jsmap"

definition RUN_HEARTBEAT_STALE_MS :: rat where "RUN_HEARTBEAT_STALE_MS = 20000"
definition RUN_LIFECYCLE_SAFETY_STALE_MS :: rat where "RUN_LIFECYCLE_SAFETY_STALE_MS = 6 * 60 * 60 * 1000"
definition RUN_INDICATOR_REFRESH_MIN_MS :: rat where "RUN_INDICATOR_REFRESH_MIN_MS = 3000"
definition CHAT_STATUS_EVENT_SKEW_MS :: rat where "CHAT_STATUS_EVENT_SKEW_MS = 1000"

definition DRAWER_RUNNING_STATUS_HINTS :: "string list" where
  "DRAWER_RUNNING_STATUS_HINTS = [''running'', ''inprogress'', ''active'', ''queued'', ''pending'']"
definition DRAWER_NON_RUNNING_STATUS_HINTS :: "string list" where
  "DRAWER_NON_RUNNING_STATUS_HINTS =
     [''complete'', ''completed'', ''success'', ''succeeded'', ''failed'', ''error'', ''interrupted'', ''aborted'', ''idle'', ''notloaded'']"
definition DRAWER_LIFECYCLE_METHODS :: "string list" where
  "DRAWER_LIFECYCLE_METHODS = [''bridge/approval.requested'', ''bridge/userInput.requested'']"
definition DRAWER_HEARTBEAT_METHODS :: "string list" where
  "DRAWER_HEARTBEAT_METHODS =
     [''item/started'', ''item/plan/delta'', ''item/reasoning/summaryPartAdded'', ''item/reasoning/summaryTextDelta'',
      ''item/reasoning/textDelta'', ''item/commandExecution/outputDelta'', ''item/mcpToolCall/progress'',
      ''turn/plan/updated'', ''turn/diff/updated'']"
definition DRAWER_TERMINAL_METHODS :: "string list" where
  "DRAWER_TERMINAL_METHODS = [''bridge/approval.resolved'', ''bridge/userInput.resolved'']"

definition ttl_of :: "indicator_source \<Rightarrow> rat" where
  "ttl_of src = (if src = Lifecycle then RUN_LIFECYCLE_SAFETY_STALE_MS else RUN_HEARTBEAT_STALE_MS)"

definition isDrawerRunIndicatorActive :: "run_indicator option \<Rightarrow> rat \<Rightarrow> bool" where
  "isDrawerRunIndicatorActive indicator now =
     (case indicator of None \<Rightarrow> False | Some i \<Rightarrow> now - ri_updatedAt i < ttl_of (ri_source i))"

definition setRunningIndicator :: "indicators \<Rightarrow> string \<Rightarrow> indicator_source \<Rightarrow> rat \<Rightarrow> indicators" where
  "setRunningIndicator previous threadId src now =
     (let existing = map_get previous threadId;
          nextSource = (if map_option ri_source existing = Some Lifecycle \<or> src = Lifecycle then Lifecycle else Heartbeat);
          nextUpdatedAt = (case existing of Some e \<Rightarrow> max (ri_updatedAt e) now | None \<Rightarrow> now)
      in if (case existing of
               Some e \<Rightarrow> ri_source e = nextSource \<and> nextUpdatedAt - ri_updatedAt e < RUN_INDICATOR_REFRESH_MIN_MS
             | None \<Rightarrow> False)
         then previous
         else map_put threadId \<lparr>ri_source = nextSource, ri_updatedAt = nextUpdatedAt\<rparr> previous)"

definition clearRunningIndicator :: "indicators \<Rightarrow> string \<Rightarrow> indicators" where
  "clearRunningIndicator previous threadId =
     (if \<not> map_has previous threadId then previous else map_del threadId previous)"

definition pruneStaleDrawerRunIndicators :: "indicators \<Rightarrow> rat \<Rightarrow> indicators" where
  "pruneStaleDrawerRunIndicators previous now = filter (\<lambda>(_, i). isDrawerRunIndicatorActive (Some i) now) previous"


section \<open>Chats\<close>

definition isDrawerChatRunning :: "chat_summary \<Rightarrow> indicators \<Rightarrow> rat \<Rightarrow> bool" where
  "isDrawerChatRunning c indicators now \<longleftrightarrow>
     ct_status c = StRunning \<or> isDrawerRunIndicatorActive (map_get indicators (ct_id c)) now"

definition countDrawerRunningChats :: "chat_summary list \<Rightarrow> indicators \<Rightarrow> rat \<Rightarrow> nat" where
  "countDrawerRunningChats chats indicators now =
     fold (\<lambda>c count. count + (if isDrawerChatRunning c indicators now then 1 else 0)) chats 0"

definition isDrawerWorkspaceSectionRunning :: "workspace_section \<Rightarrow> indicators \<Rightarrow> rat \<Rightarrow> bool" where
  "isDrawerWorkspaceSectionRunning s indicators now \<longleftrightarrow>
     list_ex (\<lambda>row. isDrawerChatRunning (tr_chat row) indicators now) (ws_data s)"

definition parseTimestamp :: "(string \<Rightarrow> rat option) \<Rightarrow> string \<Rightarrow> rat option" where
  "parseTimestamp dp value = (if value = [] then None else dp value)"

definition status_time :: "(string \<Rightarrow> rat option) \<Rightarrow> chat_summary \<Rightarrow> rat option" where
  "status_time dp c =
     (case parseTimestamp dp (ct_statusUpdatedAt c) of Some t \<Rightarrow> Some t | None \<Rightarrow> parseTimestamp dp (ct_updatedAt c))"

definition shouldChatSnapshotClearIndicator :: "(string \<Rightarrow> rat option) \<Rightarrow> chat_summary \<Rightarrow> run_indicator \<Rightarrow> bool" where
  "shouldChatSnapshotClearIndicator dp c i \<longleftrightarrow>
     (case status_time dp c of None \<Rightarrow> False | Some stamp \<Rightarrow> stamp + CHAT_STATUS_EVENT_SKEW_MS \<ge> ri_updatedAt i)"

definition reconcile_chat :: "(string \<Rightarrow> rat option) \<Rightarrow> rat \<Rightarrow> chat_summary \<Rightarrow> indicators \<Rightarrow> indicators" where
  "reconcile_chat dp now c m =
     (if ct_status c = StRunning
      then setRunningIndicator m (ct_id c) Lifecycle (case status_time dp c of Some t \<Rightarrow> t | None \<Rightarrow> now)
      else (case map_get m (ct_id c) of
              Some existing \<Rightarrow> if shouldChatSnapshotClearIndicator dp c existing then clearRunningIndicator m (ct_id c) else m
            | None \<Rightarrow> m))"

definition reconcileDrawerRunIndicatorsWithChats ::
  "(string \<Rightarrow> rat option) \<Rightarrow> indicators \<Rightarrow> chat_summary list \<Rightarrow> rat \<Rightarrow> indicators" where
  "reconcileDrawerRunIndicatorsWithChats dp previous chats now =
     fold (reconcile_chat dp now) chats (pruneStaleDrawerRunIndicators previous now)"


section \<open>Fields of notifications\<close>

text \<open>The reader of this file takes an array for a record; an array has none of the fields that are looked up.\<close>

definition drawer_record :: "json option \<Rightarrow> wire_record option" where
  "drawer_record v = (case v of Some (JObj o') \<Rightarrow> Some o' | Some (JArr _) \<Rightarrow> Some [] | _ \<Rightarrow> None)"

definition drawer_string :: "json option \<Rightarrow> string option" where
  "drawer_string v = (case v of Some (JStr s) \<Rightarrow> Some s | _ \<Rightarrow> None)"

definition readNonEmptyString :: "json option \<Rightarrow> string option" where
  "readNonEmptyString v = (case drawer_string v of None \<Rightarrow> None | Some s \<Rightarrow> if trim s = [] then None else Some (trim s))"

definition normalizeToken :: "string option \<Rightarrow> string option" where
  "normalizeToken value =
     (case non_empty value of
        None \<Rightarrow> None
      | Some v \<Rightarrow> let normalized = filter is_alnum (to_lower (trim v)) in if normalized \<noteq> [] then Some normalized else None)"

definition resolveDrawerThreadRecord :: "wire_record option \<Rightarrow> wire_record option \<Rightarrow> wire_record option" where
  "resolveDrawerThreadRecord params msg =
     first_some drawer_record [field params ''thread'', field params ''threadState'', field params ''thread_state'', field msg ''thread'']"

text \<open>\<open>a ?? b\<close> on values of the wire\<close>

definition present :: "json option \<Rightarrow> json option \<Rightarrow> json option" where
  "present a b = (case a of None \<Rightarrow> b | Some JNull \<Rightarrow> b | _ \<Rightarrow> a)"

definition resolveDrawerSubagentSpawnRecord :: "wire_record option \<Rightarrow> wire_record option" where
  "resolveDrawerSubagentSpawnRecord source =
     drawer_record (field (drawer_record (present (field source ''subagent'') (field source ''subAgent''))) ''thread_spawn'')"

definition buildDrawerThreadIdContext :: "wire_record option \<Rightarrow> wire_record option \<Rightarrow> lookup_context" where
  "buildDrawerThreadIdContext params msgArg =
     (let msg = (case msgArg of Some m \<Rightarrow> Some m | None \<Rightarrow> drawer_record (field params ''msg''));
          threadRecord = resolveDrawerThreadRecord params msg;
          threadSourceRecord = drawer_record (field threadRecord ''source'');
          sourceRecord = first_some drawer_record [field params ''source'', field msg ''source'']
      in \<lparr>lc_msg = msg, lc_thread = threadRecord, lc_threadSource = threadSourceRecord,
          lc_turn = first_some drawer_record [field params ''turn'', field msg ''turn''], lc_source = sourceRecord,
          lc_threadSpawn = resolveDrawerSubagentSpawnRecord sourceRecord,
          lc_sourceThreadSpawn = resolveDrawerSubagentSpawnRecord threadSourceRecord\<rparr>)"

definition read_keys :: "wire_record option \<Rightarrow> string list \<Rightarrow> string option" where
  "read_keys r keys = first_some (\<lambda>key. readNonEmptyString (field r key)) keys"

definition extractThreadIdFromMsg :: "wire_record option \<Rightarrow> string option" where
  "extractThreadIdFromMsg msg = read_keys msg [''thread_id'', ''threadId'', ''conversation_id'', ''conversationId'']"

definition extractThreadIdFromParams :: "wire_record option \<Rightarrow> string option" where
  "extractThreadIdFromParams params = read_keys params [''thread_id'', ''threadId'', ''conversation_id'', ''conversationId'']"

definition extractThreadIdFromThreadRecord :: "wire_record option \<Rightarrow> string option" where
  "extractThreadIdFromThreadRecord r = read_keys r [''id'', ''thread_id'', ''threadId'', ''conversation_id'', ''conversationId'']"

definition extractThreadIdFromTurnRecord :: "wire_record option \<Rightarrow> string option" where
  "extractThreadIdFromTurnRecord r = read_keys r [''thread_id'', ''threadId'']"

definition extractThreadIdFromSourceRecord :: "wire_record option \<Rightarrow> string option" where
  "extractThreadIdFromSourceRecord r =
     read_keys r [''thread_id'', ''threadId'', ''conversation_id'', ''conversationId'', ''parent_thread_id'', ''parentThreadId'']"

definition extractParentThreadId :: "wire_record option \<Rightarrow> string option" where
  "extractParentThreadId r = read_keys r [''parent_thread_id'', ''parentThreadId'']"

definition extractDrawerNotificationThreadId :: "wire_record option \<Rightarrow> wire_record option \<Rightarrow> string option" where
  "extractDrawerNotificationThreadId params msgArg =
     (if params = None \<and> msgArg = None then None
      else let c = buildDrawerThreadIdContext params msgArg in
        first_some id
          [extractThreadIdFromMsg (lc_msg c), extractThreadIdFromParams params, extractThreadIdFromThreadRecord (lc_thread c),
           extractThreadIdFromTurnRecord (lc_turn c), extractThreadIdFromSourceRecord (lc_source c),
           extractParentThreadId (lc_threadSpawn c), extractParentThreadId (lc_threadSource c),
           extractParentThreadId (lc_sourceThreadSpawn c)])"

definition resolveDrawerStatusRecord ::
  "wire_record \<Rightarrow> wire_record option \<Rightarrow> wire_record option \<Rightarrow> wire_record option" where
  "resolveDrawerStatusRecord params msg threadRecord =
     first_some drawer_record [map_get params ''status'', field msg ''status'', field threadRecord ''status'']"

definition resolveDrawerStatusToken ::
  "wire_record \<Rightarrow> wire_record option \<Rightarrow> wire_record option \<Rightarrow> wire_record option \<Rightarrow> string option" where
  "resolveDrawerStatusToken params msg statusRecord threadRecord =
     first_some drawer_string [map_get params ''status'', field msg ''status'', field statusRecord ''type'',
       field statusRecord ''status'', field threadRecord ''status'']"

definition extractDrawerStatusHint :: "wire_record option \<Rightarrow> string option" where
  "extractDrawerStatusHint params =
     (case params of
        None \<Rightarrow> None
      | Some p \<Rightarrow>
          let msg = drawer_record (map_get p ''msg'');
              threadRecord = resolveDrawerThreadRecord (Some p) msg;
              statusRecord = resolveDrawerStatusRecord p msg threadRecord
          in normalizeToken (resolveDrawerStatusToken p msg statusRecord threadRecord))"


section \<open>Events\<close>

definition updateDrawerRunIndicatorsForAgUiEvent :: "indicators \<Rightarrow> agui_envelope \<Rightarrow> rat \<Rightarrow> indicators" where
  "updateDrawerRunIndicatorsForAgUiEvent previous agUi now =
     (case env_event agUi of
        RUN_STARTED _ _ \<Rightarrow> setRunningIndicator previous (env_threadId agUi) Lifecycle now
      | TEXT_MESSAGE_CONTENT _ _ \<Rightarrow> setRunningIndicator previous (env_threadId agUi) Heartbeat now
      | RUN_FINISHED _ _ \<Rightarrow> clearRunningIndicator previous (env_threadId agUi)
      | RUN_ERROR _ \<Rightarrow> clearRunningIndicator previous (env_threadId agUi)
      | _ \<Rightarrow> previous)"

definition updateDrawerRunIndicatorsForStatusChange ::
  "indicators \<Rightarrow> string \<Rightarrow> wire_record option \<Rightarrow> rat \<Rightarrow> indicators" where
  "updateDrawerRunIndicatorsForStatusChange previous threadId params now =
     (case extractDrawerStatusHint params of
        None \<Rightarrow> previous
      | Some hint \<Rightarrow>
          if hint \<in> set DRAWER_RUNNING_STATUS_HINTS then setRunningIndicator previous threadId Lifecycle now
          else if hint \<in> set DRAWER_NON_RUNNING_STATUS_HINTS then clearRunningIndicator previous threadId
          else previous)"

definition updateDrawerRunIndicatorsForEvent :: "event_parser \<Rightarrow> indicators \<Rightarrow> notification \<Rightarrow> rat \<Rightarrow> indicators" where
  "updateDrawerRunIndicatorsForEvent sp previous event now =
     (case parseAgUiEventNotification sp event of
        Some agUi \<Rightarrow> updateDrawerRunIndicatorsForAgUiEvent previous agUi now
      | None \<Rightarrow>
          (case extractDrawerNotificationThreadId (n_params event) None of
             None \<Rightarrow> previous
           | Some threadId \<Rightarrow>
               if n_method event = ''thread/status/changed''
               then updateDrawerRunIndicatorsForStatusChange previous threadId (n_params event) now
               else if n_method event \<in> set DRAWER_LIFECYCLE_METHODS then setRunningIndicator previous threadId Lifecycle now
               else if n_method event \<in> set DRAWER_TERMINAL_METHODS then clearRunningIndicator previous threadId
               else if n_method event \<in> set DRAWER_HEARTBEAT_METHODS then setRunningIndicator previous threadId Heartbeat now
               else previous))"


section \<open>What the indicator of a thread says\<close>

text \<open>What an event means for the threads: a run of one of them shows a sign of life, or ends.\<close>

datatype run_signal = Runs string indicator_source | Stops string | Silent

definition agui_signal :: "agui_envelope \<Rightarrow> run_signal" where
  "agui_signal e =
     (case env_event e of
        RUN_STARTED _ _ \<Rightarrow> Runs (env_threadId e) Lifecycle
      | TEXT_MESSAGE_CONTENT _ _ \<Rightarrow> Runs (env_threadId e) Heartbeat
      | RUN_FINISHED _ _ \<Rightarrow> Stops (env_threadId e)
      | RUN_ERROR _ \<Rightarrow> Stops (env_threadId e)
      | _ \<Rightarrow> Silent)"

definition status_signal :: "string \<Rightarrow> string option \<Rightarrow> run_signal" where
  "status_signal t hint =
     (if hint \<in> Some ` set DRAWER_RUNNING_STATUS_HINTS then Runs t Lifecycle
      else if hint \<in> Some ` set DRAWER_NON_RUNNING_STATUS_HINTS then Stops t else Silent)"

definition method_signal :: "string \<Rightarrow> notification \<Rightarrow> run_signal" where
  "method_signal t n =
     (if n_method n = ''thread/status/changed'' then status_signal t (extractDrawerStatusHint (n_params n))
      else if n_method n \<in> set DRAWER_LIFECYCLE_METHODS then Runs t Lifecycle
      else if n_method n \<in> set DRAWER_TERMINAL_METHODS then Stops t
      else if n_method n \<in> set DRAWER_HEARTBEAT_METHODS then Runs t Heartbeat else Silent)"

definition signal_of :: "event_parser \<Rightarrow> notification \<Rightarrow> run_signal" where
  "signal_of sp n =
     (case parseAgUiEventNotification sp n of
        Some e \<Rightarrow> agui_signal e
      | None \<Rightarrow> (case extractDrawerNotificationThreadId (n_params n) None of None \<Rightarrow> Silent | Some t \<Rightarrow> method_signal t n))"

definition obey :: "run_signal \<Rightarrow> rat \<Rightarrow> indicators \<Rightarrow> indicators" where
  "obey s now m =
     (case s of Runs t src \<Rightarrow> setRunningIndicator m t src now | Stops t \<Rightarrow> clearRunningIndicator m t | Silent \<Rightarrow> m)"

lemma update_obeys: "updateDrawerRunIndicatorsForEvent sp m n now = obey (signal_of sp n) now m"
proof (cases "parseAgUiEventNotification sp n")
  case (Some e)
  then show ?thesis
    by (cases "env_event e")
      (simp_all add: updateDrawerRunIndicatorsForEvent_def signal_of_def obey_def updateDrawerRunIndicatorsForAgUiEvent_def agui_signal_def)
next
  case None
  show ?thesis
  proof (cases "extractDrawerNotificationThreadId (n_params n) None")
    case (Some t)
    show ?thesis
      by (cases "extractDrawerStatusHint (n_params n)")
        (simp_all add: updateDrawerRunIndicatorsForEvent_def None Some signal_of_def obey_def method_signal_def
          status_signal_def updateDrawerRunIndicatorsForStatusChange_def image_iff)
  qed (simp add: updateDrawerRunIndicatorsForEvent_def None signal_of_def obey_def)
qed

text \<open>The signs of life of a thread since its last end.\<close>

definition hear :: "event_parser \<Rightarrow> string \<Rightarrow> notification \<times> rat \<Rightarrow> (indicator_source \<times> rat) list \<Rightarrow> (indicator_source \<times> rat) list" where
  "hear sp t e h =
     (case signal_of sp (fst e) of
        Runs t' src \<Rightarrow> if t' = t then h @ [(src, snd e)] else h
      | Stops t' \<Rightarrow> if t' = t then [] else h
      | Silent \<Rightarrow> h)"

definition strongest :: "(indicator_source \<times> rat) list \<Rightarrow> indicator_source" where
  "strongest h = (if Lifecycle \<in> fst ` set h then Lifecycle else Heartbeat)"

text \<open>An indicator stands for the signs of life: the strongest source, and a time less than three seconds behind the latest.\<close>

definition stands_for :: "run_indicator option \<Rightarrow> (indicator_source \<times> rat) list \<Rightarrow> bool" where
  "stands_for i h \<longleftrightarrow>
     (if h = [] then i = None
      else \<exists>u. Max (snd ` set h) - RUN_INDICATOR_REFRESH_MIN_MS < u \<and> u \<le> Max (snd ` set h) \<and>
             i = Some \<lparr>ri_source = strongest h, ri_updatedAt = u\<rparr>)"

lemma strongest_snoc: "strongest (h @ [(src, now)]) = (if strongest h = Lifecycle \<or> src = Lifecycle then Lifecycle else Heartbeat)"
  by (auto simp: strongest_def)

lemma Max_snoc: "h \<noteq> [] \<Longrightarrow> Max (snd ` set (h @ [(src, now)])) = max (Max (snd ` set h)) (now :: rat)"
  by (simp add: max.commute)

lemma set_stands_for:
  assumes "stands_for (map_get m t) h"
  shows "stands_for (map_get (setRunningIndicator m t src now) t) (h @ [(src, now)])"
proof (cases "h = []")
  case True
  with assms have "map_get m t = None" by (simp add: stands_for_def)
  with True show ?thesis
    by (cases src) (simp_all add: stands_for_def setRunningIndicator_def strongest_def map_get_put RUN_INDICATOR_REFRESH_MIN_MS_def)
next
  case False
  then obtain u where u: "Max (snd ` set h) - RUN_INDICATOR_REFRESH_MIN_MS < u" "u \<le> Max (snd ` set h)"
      "map_get m t = Some \<lparr>ri_source = strongest h, ri_updatedAt = u\<rparr>"
    using assms by (auto simp: stands_for_def)
  let ?s = "strongest (h @ [(src, now)])" and ?u = "max u now" and ?M = "max (Max (snd ` set h)) now"
  have s: "(if map_option ri_source (map_get m t) = Some Lifecycle \<or> src = Lifecycle then Lifecycle else Heartbeat) = ?s"
    by (simp add: u(3) strongest_snoc)
  have "map_get (setRunningIndicator m t src now) t =
      (if strongest h = ?s \<and> ?u - u < RUN_INDICATOR_REFRESH_MIN_MS then Some \<lparr>ri_source = ?s, ri_updatedAt = u\<rparr>
       else Some \<lparr>ri_source = ?s, ri_updatedAt = ?u\<rparr>)"
    unfolding setRunningIndicator_def Let_def s by (simp add: u(3) map_get_put)
  moreover have "?M - RUN_INDICATOR_REFRESH_MIN_MS < ?u \<and> ?u \<le> ?M" using u(1,2) by (auto simp: max_def)
  moreover have "?M - RUN_INDICATOR_REFRESH_MIN_MS < u \<and> u \<le> ?M" if "?u - u < RUN_INDICATOR_REFRESH_MIN_MS"
    using that u(1,2) by (auto simp: max_def split: if_splits)
  ultimately show ?thesis
    unfolding stands_for_def Max_snoc [OF False] by (cases "strongest h = ?s \<and> ?u - u < RUN_INDICATOR_REFRESH_MIN_MS") auto
qed

lemma set_other [simp]: "t' \<noteq> t \<Longrightarrow> map_get (setRunningIndicator m t' src now) t = map_get m t"
  by (simp add: setRunningIndicator_def Let_def map_get_put)

lemma clear_get: "map_get (clearRunningIndicator m t') t = (if t' = t then None else map_get m t)"
  by (auto simp: clearRunningIndicator_def map_get_del)

lemma obey_stands_for:
  assumes "stands_for (map_get m t) h"
  shows "stands_for (map_get (updateDrawerRunIndicatorsForEvent sp m (fst e) (snd e)) t) (hear sp t e h)"
  unfolding update_obeys obey_def hear_def
  using assms set_stands_for [OF assms]
  by (cases "signal_of sp (fst e)") (auto simp: clear_get stands_for_def)

definition after_events :: "event_parser \<Rightarrow> (notification \<times> rat) list \<Rightarrow> indicators" where
  "after_events sp es = fold (\<lambda>e m. updateDrawerRunIndicatorsForEvent sp m (fst e) (snd e)) es []"

text \<open>
  The drawer shows a run as long as it lasts. After any notifications, at any times, a thread has no indicator exactly if
  there was no sign of life since its last end; otherwise the indicator has the source of the strongest sign (the start
  of a run counts for six hours, a sign of life for twenty seconds) and goes out that long after a moment that is less than three
  seconds before the latest sign. Notifications of other threads change nothing.
\<close>

theorem run_indicator:
  "let h = fold (hear sp t) es []; latest = Max (snd ` set h); i = map_get (after_events sp es) t
   in if h = [] then \<not> isDrawerRunIndicatorActive i now
      else \<exists>u. latest - 3000 < u \<and> u \<le> latest \<and>
             isDrawerRunIndicatorActive i now = (now < u + (if strongest h = Lifecycle then 21600000 else 20000))"
proof -
  have "stands_for (map_get (fold (\<lambda>e m. updateDrawerRunIndicatorsForEvent sp m (fst e) (snd e)) es m) t) (fold (hear sp t) es h)"
    if "stands_for (map_get m t) h" for m h
    using that by (induction es arbitrary: m h) (simp_all add: obey_stands_for)
  from this [of "[]" "[]"] have "stands_for (map_get (after_events sp es) t) (fold (hear sp t) es [])"
    by (simp add: after_events_def stands_for_def)
  note stands = this [unfolded stands_for_def]
  show ?thesis
  proof (cases "fold (hear sp t) es [] = []")
    case True
    with stands show ?thesis by (simp add: Let_def isDrawerRunIndicatorActive_def)
  next
    case False
    with stands obtain u where u: "Max (snd ` set (fold (hear sp t) es [])) - 3000 < u" "u \<le> Max (snd ` set (fold (hear sp t) es []))"
        "map_get (after_events sp es) t = Some \<lparr>ri_source = strongest (fold (hear sp t) es []), ri_updatedAt = u\<rparr>"
      unfolding RUN_INDICATOR_REFRESH_MIN_MS_def by auto
    have "isDrawerRunIndicatorActive (map_get (after_events sp es) t) now =
        (now < u + (if strongest (fold (hear sp t) es []) = Lifecycle then 21600000 else 20000))"
      by (simp add: u(3) isDrawerRunIndicatorActive_def ttl_of_def RUN_LIFECYCLE_SAFETY_STALE_MS_def
          RUN_HEARTBEAT_STALE_MS_def diff_less_eq add.commute)
    with False u(1,2) show ?thesis unfolding Let_def by (simp only: if_False) blast
  qed
qed


section \<open>Pruning and reconciliation\<close>

lemma stale_stays_stale: "now \<le> later \<Longrightarrow> \<not> isDrawerRunIndicatorActive i now \<Longrightarrow> \<not> isDrawerRunIndicatorActive i later"
  by (auto simp: isDrawerRunIndicatorActive_def split: option.splits)

lemma prune_get:
  "map_wf m \<Longrightarrow> map_get (pruneStaleDrawerRunIndicators m now) t =
     (if isDrawerRunIndicatorActive (map_get m t) now then map_get m t else None)"
proof (induction m)
  case (Cons e m)
  then have "fst e \<notin> fst ` set m" by (cases e) simp
  then have "map_of m (fst e) = None" by (simp add: map_of_eq_None_iff)
  with Cons show ?case
    by (cases e) (auto simp: pruneStaleDrawerRunIndicators_def isDrawerRunIndicatorActive_def)
qed (simp add: pruneStaleDrawerRunIndicators_def isDrawerRunIndicatorActive_def)

text \<open>Pruning is never seen: at this moment and later the same chats run.\<close>

lemma prune_unseen:
  assumes "map_wf m" "now \<le> later"
  shows "isDrawerChatRunning c (pruneStaleDrawerRunIndicators m now) later = isDrawerChatRunning c m later"
  using stale_stays_stale [OF assms(2)] by (auto simp: isDrawerChatRunning_def prune_get [OF assms(1)] isDrawerRunIndicatorActive_def)

lemma reconcile_other: "t \<noteq> ct_id c \<Longrightarrow> map_get (reconcile_chat dp now c m) t = map_get m t"
  by (auto simp: reconcile_chat_def clear_get split: option.split)

lemma reconcile_others: "t \<notin> ct_id ` set cs \<Longrightarrow> map_get (fold (reconcile_chat dp now) cs m) t = map_get m t"
  by (induction cs arbitrary: m) (simp_all add: reconcile_other)

lemma reconcile_one:
  assumes "distinct (map ct_id cs)" "c \<in> set cs"
  shows "\<exists>m'. map_get m' (ct_id c) = map_get m (ct_id c) \<and>
    map_get (fold (reconcile_chat dp now) cs m) (ct_id c) = map_get (reconcile_chat dp now c m') (ct_id c)"
  using assms
proof (induction cs arbitrary: m)
  case (Cons d cs)
  show ?case
  proof (cases "d = c")
    case True
    with Cons.prems have "ct_id c \<notin> ct_id ` set cs" by auto
    with True show ?thesis using reconcile_others [of "ct_id c" cs] by auto
  next
    case False
    with Cons.prems have "c \<in> set cs" "ct_id d \<noteq> ct_id c" by auto
    with Cons.IH [of "reconcile_chat dp now d m"] Cons.prems(1) show ?thesis by (auto simp: reconcile_other)
  qed
qed simp

text \<open>
  Reading the list of chats brings the indicators up to date. A chat that the list says is running has an indicator of
  six hours afterwards. The indicator of a chat that is not running stays exactly if it is still lit and was refreshed more than a
  second after the status of the list (or the list has no time for it); chats that are not in the list keep theirs while lit.
\<close>

theorem reconciled_indicators:
  assumes "distinct (map ct_id chats)" "map_wf m"
  shows "list_all (\<lambda>c. let before = map_get m (ct_id c);
      after = map_get (reconcileDrawerRunIndicatorsWithChats dp m chats now) (ct_id c);
      lit = isDrawerRunIndicatorActive before now
    in if ct_status c = StRunning then map_option ri_source after = Some Lifecycle
       else after = (if lit \<and> (case status_time dp c of None \<Rightarrow> True | Some stamp \<Rightarrow> stamp + 1000 < ri_updatedAt (the before))
                     then before else None)) chats"
    and "t \<notin> ct_id ` set chats \<Longrightarrow> map_get (reconcileDrawerRunIndicatorsWithChats dp m chats now) t =
      (if isDrawerRunIndicatorActive (map_get m t) now then map_get m t else None)"
proof -
  show "list_all (\<lambda>c. let before = map_get m (ct_id c);
      after = map_get (reconcileDrawerRunIndicatorsWithChats dp m chats now) (ct_id c);
      lit = isDrawerRunIndicatorActive before now
    in if ct_status c = StRunning then map_option ri_source after = Some Lifecycle
       else after = (if lit \<and> (case status_time dp c of None \<Rightarrow> True | Some stamp \<Rightarrow> stamp + 1000 < ri_updatedAt (the before))
                     then before else None)) chats"
    unfolding list_all_iff
  proof
    fix c assume c: "c \<in> set chats"
    obtain m' where m': "map_get m' (ct_id c) = map_get (pruneStaleDrawerRunIndicators m now) (ct_id c)"
        "map_get (reconcileDrawerRunIndicatorsWithChats dp m chats now) (ct_id c) = map_get (reconcile_chat dp now c m') (ct_id c)"
      using reconcile_one [OF assms(1) c] unfolding reconcileDrawerRunIndicatorsWithChats_def by blast
    have "map_option ri_source (map_get (setRunningIndicator m' (ct_id c) Lifecycle stamp) (ct_id c)) = Some Lifecycle" for stamp
      by (auto simp: setRunningIndicator_def Let_def map_get_put split: option.splits)
    moreover have "map_get (reconcile_chat dp now c m') (ct_id c) =
        (case map_get m' (ct_id c) of None \<Rightarrow> None
         | Some i \<Rightarrow> if shouldChatSnapshotClearIndicator dp c i then None else Some i)" if "ct_status c \<noteq> StRunning"
      using that by (simp add: reconcile_chat_def clear_get split: option.split)
    ultimately show "let before = map_get m (ct_id c);
        after = map_get (reconcileDrawerRunIndicatorsWithChats dp m chats now) (ct_id c);
        lit = isDrawerRunIndicatorActive before now
      in if ct_status c = StRunning then map_option ri_source after = Some Lifecycle
         else after = (if lit \<and> (case status_time dp c of None \<Rightarrow> True | Some stamp \<Rightarrow> stamp + 1000 < ri_updatedAt (the before))
                       then before else None)"
      unfolding m'(2) Let_def
      by (cases "map_get m (ct_id c)"; cases "status_time dp c")
        (simp_all add: m'(1) prune_get [OF assms(2)] reconcile_chat_def shouldChatSnapshotClearIndicator_def
          CHAT_STATUS_EVENT_SKEW_MS_def isDrawerRunIndicatorActive_def not_le)
  qed
  show "t \<notin> ct_id ` set chats \<Longrightarrow> map_get (reconcileDrawerRunIndicatorsWithChats dp m chats now) t =
      (if isDrawerRunIndicatorActive (map_get m t) now then map_get m t else None)"
    unfolding reconcileDrawerRunIndicatorsWithChats_def by (simp add: reconcile_others prune_get [OF assms(2)])
qed

end
