(* ===== verification/DrawerAttention.thy ===== *)
theory DrawerAttention
  imports DrawerIndicators ClientCaches
begin

text \<open>
  \<^verbatim>\<open>shell/navigation/drawerAttention.ts\<close> sorts the chats of the drawer into those that need the user, those at work and
  the recent ones, and picks those that are shown; \<^verbatim>\<open>shared/agents.ts\<close> names agents and chooses one.
  \<open>localeCompare\<close> is the argument \<open>cmp\<close>; \<open>Date.now()\<close>, which the code reads for every chat, is one argument \<open>now\<close>.
\<close>

section \<open>Agents\<close>

datatype agent_lifecycle = AgentReady | AgentUnavailable | AgentStopped

record agent_descriptor =
  ad_agentId :: string
  ad_displayName :: string
  ad_icon :: "string option"
  ad_version :: string
  ad_provenance :: string
  ad_lifecycle :: agent_lifecycle
  ad_lastError :: "string option"
  ad_capabilities :: "json option"

text \<open>Of the capabilities of the bridge, what the choice of an agent reads.\<close>

record agent_choice =
  cp_preferredAgentId :: string
  cp_activeAgentId :: "string option"
  cp_agents :: "agent_descriptor list"

definition UNKNOWN_AGENT_LABEL :: string where "UNKNOWN_AGENT_LABEL = ''Agent''"

definition findAgentDescriptor :: "agent_descriptor list \<Rightarrow> string option \<Rightarrow> agent_descriptor option" where
  "findAgentDescriptor agents agentId =
     (case non_empty agentId of None \<Rightarrow> None | Some i \<Rightarrow> List.find (\<lambda>agent. ad_agentId agent = i) agents)"

text \<open>\<open>toUpperCase\<close> on one code unit; the two whose upper case lies beyond the code units of the model stay.\<close>

definition upper_char :: "char \<Rightarrow> string" where
  "upper_char c =
     (let n = of_char c :: nat
      in if (97 \<le> n \<and> n < 123) \<or> (224 \<le> n \<and> n < 255 \<and> n \<noteq> 247) then [char_of (n - 32)]
         else if n = 223 then ''SS'' else [c])"

text \<open>\<open>split(/[-_\s]+/).filter(Boolean)\<close>\<close>

definition label_parts :: "string \<Rightarrow> string list" where
  "label_parts s =
     filter (\<lambda>p. p \<noteq> [])
       (split_on CHR ''-'' (map (\<lambda>c. if c = CHR ''_'' \<or> is_js_space c then CHR ''-'' else c) s))"

definition capitalised :: "string \<Rightarrow> string" where
  "capitalised part = (case part of [] \<Rightarrow> [] | c # cs \<Rightarrow> upper_char c @ cs)"

definition humanizeAgentId :: "string option \<Rightarrow> string option" where
  "humanizeAgentId agentId =
     (case non_empty (map_option trim agentId) of
        None \<Rightarrow> None
      | Some normalized \<Rightarrow>
          if to_lower normalized = ''opencode'' then Some ''OpenCode''
          else non_empty (Some (join '' '' (map capitalised (label_parts normalized)))))"

definition getAgentLabel :: "agent_descriptor list \<Rightarrow> string option \<Rightarrow> string" where
  "getAgentLabel agents agentId =
     (case non_empty (map_option (\<lambda>a. trim (ad_displayName a)) (findAgentDescriptor agents agentId)) of
        Some label \<Rightarrow> label
      | None \<Rightarrow> (case humanizeAgentId agentId of Some label \<Rightarrow> label | None \<Rightarrow> UNKNOWN_AGENT_LABEL))"

definition is_ready :: "agent_descriptor option \<Rightarrow> bool" where
  "is_ready a \<longleftrightarrow> map_option ad_lifecycle a = Some AgentReady"

definition selectAgentId :: "string option \<Rightarrow> agent_choice \<Rightarrow> string option" where
  "selectAgentId savedAgentId capabilities =
     (let agents = cp_agents capabilities;
          preferred = findAgentDescriptor agents (Some (cp_preferredAgentId capabilities));
          active = findAgentDescriptor agents (cp_activeAgentId capabilities)
      in if (case non_empty savedAgentId of
               Some i \<Rightarrow> list_ex (\<lambda>a. ad_agentId a = i) agents \<and> is_ready (findAgentDescriptor agents savedAgentId)
             | None \<Rightarrow> False)
         then savedAgentId
         else if is_ready preferred then map_option ad_agentId preferred
         else if is_ready active then map_option ad_agentId active
         else map_option ad_agentId (List.find (\<lambda>a. ad_lifecycle a = AgentReady) agents))"


section \<open>The rows of the drawer\<close>

datatype attention_lane = LaneAttention | LaneWorking | LaneRecent
datatype attention_reason = ReasonApproval | ReasonInput | ReasonError

record folder_option =
  fo_key :: "string option"
  fo_label :: string
  fo_subtitle :: "string option"
  fo_itemCount :: nat

record attention_row =
  dr_chat :: chat_summary
  dr_lane :: attention_lane
  dr_attentionReason :: "attention_reason option"
  dr_stateLabel :: string
  dr_agentLabel :: string
  dr_workspaceKey :: string
  dr_workspaceLabel :: string
  dr_indentLevel :: nat

record attention_section =
  ds_key :: attention_lane
  ds_title :: string
  ds_itemCount :: nat
  ds_data :: "attention_row list"

record attention_model =
  dm_sections :: "attention_section list"
  dm_folderOptions :: "folder_option list"
  dm_selectedFolderLabel :: string
  dm_attentionCount :: nat
  dm_workingCount :: nat
  dm_recentCount :: nat
  dm_visibleChatCount :: nat
  dm_sessionCount :: nat

record pending_summary =
  ps_approvalCount :: nat
  ps_inputCount :: nat
  ps_latestRequestedAt :: string

record attention_options =
  dx_chats :: "chat_summary list"
  dx_agents :: "agent_descriptor list"
  dx_runIndicatorsByThread :: indicators
  dx_pendingApprovals :: "pending_approval list"
  dx_pendingUserInputs :: "user_input_request list"
  dx_selectedFolderKey :: "string option"
  dx_workspaceChatLimit :: "nat option"

definition LANE_TITLES :: "attention_lane \<Rightarrow> string" where
  "LANE_TITLES lane =
     (case lane of LaneAttention \<Rightarrow> ''Needs your attention'' | LaneWorking \<Rightarrow> ''Working now'' | LaneRecent \<Rightarrow> ''Recent'')"

definition resolveDrawerAttentionLane :: "pending_summary option \<Rightarrow> bool \<Rightarrow> chat_summary \<Rightarrow> attention_lane" where
  "resolveDrawerAttentionLane pending running c =
     (if pending \<noteq> None then LaneAttention else if running then LaneWorking
      else if ct_status c = StError then LaneAttention else LaneRecent)"

definition resolveDrawerAttentionReason :: "pending_summary option \<Rightarrow> bool \<Rightarrow> chat_summary \<Rightarrow> attention_reason option" where
  "resolveDrawerAttentionReason pending running c =
     (case pending of
        Some p \<Rightarrow> Some (if ps_approvalCount p > 0 then ReasonApproval else ReasonInput)
      | None \<Rightarrow> if \<not> running \<and> ct_status c = StError then Some ReasonError else None)"

definition getStateLabel :: "chat_summary \<Rightarrow> pending_summary option \<Rightarrow> bool \<Rightarrow> string" where
  "getStateLabel c pending running =
     (case pending of
        Some p \<Rightarrow>
          (let requestCount = ps_approvalCount p + ps_inputCount p
           in if requestCount > 1 then string_of_nat requestCount @ '' requests''
              else if ps_approvalCount p > 0 then ''Approval requested'' else ''Input requested'')
      | None \<Rightarrow>
          if running then ''Working'' else if ct_status c = StError then ''Failed''
          else if ct_status c = StComplete then ''Complete'' else ''Idle'')"


section \<open>What waits for the user\<close>

definition latestTimestamp :: "(string \<Rightarrow> string \<Rightarrow> int) \<Rightarrow> string option \<Rightarrow> string \<Rightarrow> string" where
  "latestTimestamp cmp left right =
     (case non_empty left of Some l \<Rightarrow> if cmp l right > 0 then l else right | None \<Rightarrow> right)"

definition count_pending ::
  "(string \<Rightarrow> string \<Rightarrow> int) \<Rightarrow> bool \<Rightarrow> string \<Rightarrow> string \<Rightarrow> (string, pending_summary) jsmap \<Rightarrow> (string, pending_summary) jsmap" where
  "count_pending cmp isApproval threadId requestedAt m =
     (let existing = map_get m threadId;
          approvals = (case existing of Some e \<Rightarrow> ps_approvalCount e | None \<Rightarrow> 0);
          inputs = (case existing of Some e \<Rightarrow> ps_inputCount e | None \<Rightarrow> 0)
      in map_put threadId
           \<lparr>ps_approvalCount = (if isApproval then approvals + 1 else approvals),
            ps_inputCount = (if isApproval then inputs else inputs + 1),
            ps_latestRequestedAt = latestTimestamp cmp (map_option ps_latestRequestedAt existing) requestedAt\<rparr> m)"

definition buildPendingInteractionMap ::
  "(string \<Rightarrow> string \<Rightarrow> int) \<Rightarrow> pending_approval list \<Rightarrow> user_input_request list \<Rightarrow> (string, pending_summary) jsmap" where
  "buildPendingInteractionMap cmp approvals userInputs =
     fold (\<lambda>input. count_pending cmp False (ur_threadId input) (ur_requestedAt input)) userInputs
       (fold (\<lambda>approval. count_pending cmp True (pa_threadId approval) (pa_requestedAt approval)) approvals [])"


section \<open>What is shown\<close>

definition listable :: "(string, pending_summary) jsmap \<Rightarrow> workspace_section \<Rightarrow> thread_row list" where
  "listable pendingByThread s =
     filter (\<lambda>row. \<not> isSubAgentSource (ct_sourceKind (tr_chat row)) \<or> map_has pendingByThread (ct_id (tr_chat row))) (ws_data s)"

definition shown_anyway :: "(string, pending_summary) jsmap \<Rightarrow> indicators \<Rightarrow> rat \<Rightarrow> thread_row \<Rightarrow> bool" where
  "shown_anyway pendingByThread indicators now entry \<longleftrightarrow>
     map_has pendingByThread (ct_id (tr_chat entry)) \<or> ct_status (tr_chat entry) = StError \<or>
     (\<not> isSubAgentSource (ct_sourceKind (tr_chat entry)) \<and> isDrawerChatRunning (tr_chat entry) indicators now)"

text \<open>The set of ids, as the list of its elements in the order of the insertions.\<close>

definition buildVisibleChatIdSet ::
  "workspace_section list \<Rightarrow> string option \<Rightarrow> nat option \<Rightarrow> (string, pending_summary) jsmap \<Rightarrow> indicators \<Rightarrow> rat \<Rightarrow> string list" where
  "buildVisibleChatIdSet sections selectedFolderKey limit pendingByThread indicators now =
     concat (map (\<lambda>s.
       if non_empty selectedFolderKey \<noteq> None \<and> Some (ws_key s) \<noteq> selectedFolderKey then []
       else
         let rows = (if non_empty selectedFolderKey \<noteq> None then listable pendingByThread s
                     else case limit of None \<Rightarrow> listable pendingByThread s | Some n \<Rightarrow> take n (listable pendingByThread s))
         in map (ct_id \<circ> tr_chat) rows @
            map (ct_id \<circ> tr_chat) (filter (shown_anyway pendingByThread indicators now) (ws_data s))) sections)"

text \<open>The dash between the parts of a label, in UTF-8.\<close>

definition DASH :: string where "DASH = [CHR '' '', CHR 0xE2, CHR 0x80, CHR 0x94, CHR '' '']"

definition count_label :: "string \<Rightarrow> (string, nat) jsmap \<Rightarrow> (string, nat) jsmap" where
  "count_label label m = map_put label ((case map_get m label of Some n \<Rightarrow> n | None \<Rightarrow> 0) + 1) m"

definition label_count :: "(string, nat) jsmap \<Rightarrow> string \<Rightarrow> nat" where
  "label_count m label = (case map_get m label of Some n \<Rightarrow> n | None \<Rightarrow> 0)"

definition getDrawerFolderPickerLabels :: "folder_option list \<Rightarrow> string list" where
  "getDrawerFolderPickerLabels options =
     (let labelCounts = fold (\<lambda>o'. if non_empty (fo_key o') \<noteq> None then count_label (fo_label o') else id) options [];
          labels = map (\<lambda>o'. case non_empty (fo_key o') of
              None \<Rightarrow> fo_label o'
            | Some key \<Rightarrow>
                if label_count labelCounts (fo_label o') \<le> 1 then fo_label o'
                else fo_label o' @ DASH @ (case fo_subtitle o' of Some s \<Rightarrow> s | None \<Rightarrow> key)) options;
          generatedLabelCounts = fold count_label labels []
      in map (\<lambda>(o', label). case non_empty (fo_key o') of
              Some key \<Rightarrow> if label_count generatedLabelCounts label > 1 then fo_label o' @ DASH @ key else label
            | None \<Rightarrow> label) (zip options labels))"

record workspace_of_chat =
  wc_key :: string
  wc_label :: string
  wc_indentLevel :: nat

definition workspaceByChatId :: "workspace_section list \<Rightarrow> (string, workspace_of_chat) jsmap" where
  "workspaceByChatId sections =
     fold (\<lambda>s m. fold (\<lambda>row. map_put (ct_id (tr_chat row))
         \<lparr>wc_key = ws_key s, wc_label = ws_title s, wc_indentLevel = tr_indentLevel row\<rparr>) (ws_data s) m) sections []"

definition folder_options_of :: "chat_summary list \<Rightarrow> workspace_section list \<Rightarrow> folder_option list" where
  "folder_options_of chats sections =
     \<lparr>fo_key = None, fo_label = ''All folders'', fo_subtitle = None, fo_itemCount = length chats\<rparr> #
     map (\<lambda>s. \<lparr>fo_key = Some (ws_key s), fo_label = ws_title s, fo_subtitle = ws_subtitle s, fo_itemCount = ws_itemCount s\<rparr>) sections"

definition attention_row_of ::
  "attention_options \<Rightarrow> rat \<Rightarrow> string list \<Rightarrow> (string, workspace_of_chat) jsmap \<Rightarrow> (string, pending_summary) jsmap
   \<Rightarrow> chat_summary \<Rightarrow> attention_row option" where
  "attention_row_of x now visible workspaces pendingByThread c =
     (if ct_id c \<notin> set visible then None
      else (case map_get workspaces (ct_id c) of
              None \<Rightarrow> None
            | Some workspace \<Rightarrow>
                let pending = map_get pendingByThread (ct_id c);
                    running = isDrawerChatRunning c (dx_runIndicatorsByThread x) now;
                    lane = resolveDrawerAttentionLane pending running c
                in if lane \<noteq> LaneAttention \<and> isSubAgentSource (ct_sourceKind c) then None
                   else Some \<lparr>dr_chat = c, dr_lane = lane, dr_attentionReason = resolveDrawerAttentionReason pending running c,
                          dr_stateLabel = getStateLabel c pending running,
                          dr_agentLabel = getAgentLabel (dx_agents x) (ct_agentId c),
                          dr_workspaceKey = wc_key workspace, dr_workspaceLabel = wc_label workspace,
                          dr_indentLevel = wc_indentLevel workspace\<rparr>))"

definition row_time :: "(string, pending_summary) jsmap \<Rightarrow> attention_row \<Rightarrow> string" where
  "row_time pendingByThread r =
     (case map_get pendingByThread (ct_id (dr_chat r)) of Some p \<Rightarrow> ps_latestRequestedAt p | None \<Rightarrow> ct_updatedAt (dr_chat r))"

definition lane_rows ::
  "(string \<Rightarrow> string \<Rightarrow> int) \<Rightarrow> (string, pending_summary) jsmap \<Rightarrow> attention_row list \<Rightarrow> attention_lane \<Rightarrow> attention_row list" where
  "lane_rows cmp pendingByThread rows lane =
     js_sort (\<lambda>l r. cmp (row_time pendingByThread r) (row_time pendingByThread l)) (filter (\<lambda>r. dr_lane r = lane) rows)"

definition model_of_sections ::
  "(string \<Rightarrow> string \<Rightarrow> int) \<Rightarrow> attention_options \<Rightarrow> rat \<Rightarrow> workspace_section list \<Rightarrow> attention_model" where
  "model_of_sections cmp x now sections =
     (let folderOptions = folder_options_of (dx_chats x) sections;
          selectedFolder = List.find (\<lambda>o'. fo_key o' = dx_selectedFolderKey x) folderOptions;
          selectedFolderIndex = (case selectedFolder of
              Some _ \<Rightarrow> length (takeWhile (\<lambda>o'. fo_key o' \<noteq> dx_selectedFolderKey x) folderOptions) | None \<Rightarrow> 0);
          resolvedFolderKey = Option.bind selectedFolder fo_key;
          pendingByThread = buildPendingInteractionMap cmp (dx_pendingApprovals x) (dx_pendingUserInputs x);
          visible = buildVisibleChatIdSet sections resolvedFolderKey (dx_workspaceChatLimit x) pendingByThread
                      (dx_runIndicatorsByThread x) now;
          rows = List.map_filter (attention_row_of x now visible (workspaceByChatId sections) pendingByThread) (dx_chats x);
          lane = lane_rows cmp pendingByThread rows
      in \<lparr>dm_sections = map (\<lambda>l. \<lparr>ds_key = l, ds_title = LANE_TITLES l, ds_itemCount = length (lane l), ds_data = lane l\<rparr>)
                         (filter (\<lambda>l. lane l \<noteq> []) [LaneAttention, LaneWorking, LaneRecent]),
          dm_folderOptions = folderOptions,
          dm_selectedFolderLabel = getDrawerFolderPickerLabels folderOptions ! selectedFolderIndex,
          dm_attentionCount = length (lane LaneAttention), dm_workingCount = length (lane LaneWorking),
          dm_recentCount = length (lane LaneRecent),
          dm_visibleChatCount = length (lane LaneAttention) + length (lane LaneWorking) + length (lane LaneRecent),
          dm_sessionCount = length (filter (\<lambda>c. \<not> isSubAgentSource (ct_sourceKind c)) (dx_chats x))\<rparr>)"

definition buildDrawerAttentionModel ::
  "nat \<Rightarrow> (string \<Rightarrow> string \<Rightarrow> int) \<Rightarrow> attention_options \<Rightarrow> rat \<Rightarrow> attention_model option" where
  "buildDrawerAttentionModel n cmp x now =
     map_option (model_of_sections cmp x now) (buildChatWorkspaceSections n cmp (dx_chats x))"


section \<open>The choice of an agent\<close>

lemma find_agent: "findAgentDescriptor agents i = Some a \<Longrightarrow> a \<in> set agents \<and> Some (ad_agentId a) = i"
  by (auto simp: findAgentDescriptor_def non_empty_def find_Some_iff split: option.splits if_splits)

text \<open>The agent that is chosen is ready; none is chosen only if none is ready; and an agent that was saved is kept while it is ready.\<close>

lemma selectAgentId_ready:
  "selectAgentId saved cp = Some i \<Longrightarrow> \<exists>a\<in>set (cp_agents cp). ad_agentId a = i \<and> ad_lifecycle a = AgentReady"
  by (auto simp: selectAgentId_def is_ready_def Let_def find_Some_iff dest!: find_agent split: if_splits option.splits)

lemma selectAgentId_None: "selectAgentId saved cp = None \<Longrightarrow> \<forall>a\<in>set (cp_agents cp). ad_lifecycle a \<noteq> AgentReady"
  by (auto simp: selectAgentId_def is_ready_def Let_def find_None_iff non_empty_def split: if_splits option.splits)

lemma selectAgentId_saved:
  assumes "is_ready (findAgentDescriptor (cp_agents cp) saved)"
  shows "selectAgentId saved cp = saved"
proof -
  from assms obtain a where a: "findAgentDescriptor (cp_agents cp) saved = Some a" by (auto simp: is_ready_def)
  then have "non_empty saved = saved" by (auto simp: findAgentDescriptor_def non_empty_def split: option.splits if_splits)
  with find_agent [OF a] assms a
  have saved: "case non_empty saved of Some i \<Rightarrow> list_ex (\<lambda>a. ad_agentId a = i) (cp_agents cp) \<and> is_ready (findAgentDescriptor (cp_agents cp) saved)
      | None \<Rightarrow> False" by (cases saved) (auto simp: list_ex_iff)
  show ?thesis unfolding selectAgentId_def Let_def by (simp only: saved if_True)
qed


section \<open>Pending interactions\<close>

lemma count_pending_get:
  "map_get (count_pending cmp a t stamp m) i =
     (if i = t then Some \<lparr>ps_approvalCount = (case map_get m t of Some e \<Rightarrow> ps_approvalCount e | None \<Rightarrow> 0) + (if a then 1 else 0),
        ps_inputCount = (case map_get m t of Some e \<Rightarrow> ps_inputCount e | None \<Rightarrow> 0) + (if a then 0 else 1),
        ps_latestRequestedAt = latestTimestamp cmp (map_option ps_latestRequestedAt (map_get m t)) stamp\<rparr>
      else map_get m i)"
  by (simp add: count_pending_def Let_def map_get_put)

lemma count_all_pending:
  "(map_get (fold (\<lambda>x. count_pending cmp a (th x) (req x)) xs m) i = None) = (map_get m i = None \<and> i \<notin> th ` set xs)"
  "(case map_get (fold (\<lambda>x. count_pending cmp a (th x) (req x)) xs m) i of Some e \<Rightarrow> ps_approvalCount e | None \<Rightarrow> 0) =
   (case map_get m i of Some e \<Rightarrow> ps_approvalCount e | None \<Rightarrow> 0) + (if a then length (filter (\<lambda>x. th x = i) xs) else 0)"
  by (induction xs arbitrary: m) (auto simp: count_pending_get)

lemma pending_has:
  "map_get (buildPendingInteractionMap cmp as us) i = None \<longleftrightarrow> i \<notin> pa_threadId ` set as \<and> i \<notin> ur_threadId ` set us"
  by (simp add: buildPendingInteractionMap_def count_all_pending(1))

lemma pending_approvals:
  "map_get (buildPendingInteractionMap cmp as us) i = Some p \<Longrightarrow> ps_approvalCount p = length (filter (\<lambda>a. pa_threadId a = i) as)"
  using count_all_pending(2) [of cmp False ur_threadId ur_requestedAt us
      "fold (\<lambda>x. count_pending cmp True (pa_threadId x) (pa_requestedAt x)) as []" i]
    count_all_pending(2) [of cmp True pa_threadId pa_requestedAt as "[]" i]
  by (simp add: buildPendingInteractionMap_def)

text \<open>Why a chat needs the user.\<close>

definition needs_user :: "attention_options \<Rightarrow> rat \<Rightarrow> chat_summary \<Rightarrow> attention_reason option" where
  "needs_user x now c =
     (if ct_id c \<in> pa_threadId ` set (dx_pendingApprovals x) then Some ReasonApproval
      else if ct_id c \<in> ur_threadId ` set (dx_pendingUserInputs x) then Some ReasonInput
      else if ct_status c = StError \<and> \<not> isDrawerChatRunning c (dx_runIndicatorsByThread x) now then Some ReasonError else None)"

abbreviation pending_of :: "(string \<Rightarrow> string \<Rightarrow> int) \<Rightarrow> attention_options \<Rightarrow> (string, pending_summary) jsmap" where
  "pending_of cmp x \<equiv> buildPendingInteractionMap cmp (dx_pendingApprovals x) (dx_pendingUserInputs x)"

lemma reason_needs_user:
  "resolveDrawerAttentionReason (map_get (pending_of cmp x) (ct_id c))
     (isDrawerChatRunning c (dx_runIndicatorsByThread x) now) c = needs_user x now c"
proof (cases "map_get (pending_of cmp x) (ct_id c)")
  case None
  then show ?thesis unfolding pending_has by (simp add: None resolveDrawerAttentionReason_def needs_user_def)
next
  case (Some p)
  have "ct_id c \<in> pa_threadId ` set (dx_pendingApprovals x) \<or> ct_id c \<in> ur_threadId ` set (dx_pendingUserInputs x)"
    using pending_has [of cmp "dx_pendingApprovals x" "dx_pendingUserInputs x" "ct_id c"] Some by auto
  moreover have "ps_approvalCount p > 0 \<longleftrightarrow> ct_id c \<in> pa_threadId ` set (dx_pendingApprovals x)"
    unfolding pending_approvals [OF Some] length_greater_0_conv filter_empty_conv by (auto intro: rev_image_eqI)
  ultimately show ?thesis by (auto simp: Some resolveDrawerAttentionReason_def needs_user_def)
qed

lemma lane_attention:
  "resolveDrawerAttentionLane (map_get (pending_of cmp x) (ct_id c)) (isDrawerChatRunning c (dx_runIndicatorsByThread x) now) c = LaneAttention
   \<longleftrightarrow> needs_user x now c \<noteq> None"
  by (auto simp: resolveDrawerAttentionLane_def needs_user_def pending_has isDrawerChatRunning_def)


section \<open>The workspace of a chat\<close>

definition section_rows :: "workspace_section list \<Rightarrow> (workspace_section \<times> thread_row) list" where
  "section_rows sections = concat (map (\<lambda>s. map (Pair s) (ws_data s)) sections)"

definition place_of :: "workspace_section \<times> thread_row \<Rightarrow> string \<times> workspace_of_chat" where
  "place_of e = (ct_id (tr_chat (snd e)),
     \<lparr>wc_key = ws_key (fst e), wc_label = ws_title (fst e), wc_indentLevel = tr_indentLevel (snd e)\<rparr>)"

lemma workspaceByChatId_put_all: "workspaceByChatId sections = put_all (map place_of (section_rows sections)) []"
proof -
  have row: "fold (\<lambda>row. map_put (ct_id (tr_chat row))
        \<lparr>wc_key = ws_key s, wc_label = ws_title s, wc_indentLevel = tr_indentLevel row\<rparr>) rows m =
      put_all (map place_of (map (Pair s) rows)) m" for s rows m
    by (induction rows arbitrary: m) (simp_all add: place_of_def)
  have "fold (\<lambda>s m. put_all (map place_of (map (Pair s) (ws_data s))) m) ss m = put_all (map place_of (section_rows ss)) m" for ss m
    by (induction ss arbitrary: m) (simp_all add: section_rows_def put_all_append)
  then show ?thesis unfolding workspaceByChatId_def row .
qed

definition distinct_rows :: "workspace_section list \<Rightarrow> bool" where
  "distinct_rows sections \<longleftrightarrow> distinct (map (\<lambda>row. ct_id (tr_chat row)) (concat (map ws_data sections)))"

lemma place_keys: "map fst (map place_of (section_rows sections)) = map (\<lambda>row. ct_id (tr_chat row)) (concat (map ws_data sections))"
  by (induction sections) (simp_all add: section_rows_def place_of_def)

lemma workspace_get:
  assumes "distinct_rows sections"
  shows "map_get (workspaceByChatId sections) i = Some w \<longleftrightarrow> (\<exists>e\<in>set (section_rows sections). place_of e = (i, w))"
proof -
  have "distinct (map fst (rev (map place_of (section_rows sections))))"
    using assms unfolding distinct_rows_def rev_map [symmetric] distinct_rev place_keys .
  then have "map_of (rev (map place_of (section_rows sections))) i = Some w \<longleftrightarrow> (i, w) \<in> set (rev (map place_of (section_rows sections)))"
    by (rule map_of_eq_Some_iff)
  moreover have "(i, w) \<in> set (rev (map place_of (section_rows sections))) \<longleftrightarrow> (\<exists>e\<in>set (section_rows sections). place_of e = (i, w))"
    unfolding set_rev set_map by (metis imageE imageI)
  ultimately show ?thesis unfolding workspaceByChatId_put_all put_all_get empty_map_add by simp
qed


section \<open>The sections of the tree\<close>

definition tree_of :: "(string \<Rightarrow> string \<Rightarrow> int) \<Rightarrow> chat_summary list \<Rightarrow> workspace_section list" where
  "tree_of cmp chats = (if chats = [] then [] else map (drawn_section cmp chats) (sorted_buckets cmp chats))"

lemma tree_of_built:
  "distinct (map ct_id chats) \<Longrightarrow> buildChatWorkspaceSections (length chats) cmp chats = Some (tree_of cmp chats)"
  using drawn_sections [of chats cmp] by (cases "chats = []") (simp_all add: tree_of_def buildChatWorkspaceSections_def)

lemma tree_rows:
  assumes "distinct (map ct_id chats)"
  shows "e \<in> set (section_rows (tree_of cmp chats)) \<Longrightarrow>
      \<exists>c. parent_in chats c = None \<and> descends chats c (tr_indentLevel (snd e)) (tr_chat (snd e)) \<and>
        workspaceKey (normalizeCwd (ct_cwd c)) = ws_key (fst e)" (is "_ \<Longrightarrow> ?root e")
    and "parent_in chats c = None \<Longrightarrow> descends chats c k d \<Longrightarrow>
      \<exists>s row. (s, row) \<in> set (section_rows (tree_of cmp chats)) \<and> tr_chat row = d \<and> tr_indentLevel row = k \<and>
        ws_key s = workspaceKey (normalizeCwd (ct_cwd c))" (is "_ \<Longrightarrow> _ \<Longrightarrow> ?row")
proof -
  have rows: "set (concat (map ws_data (tree_of cmp chats))) =
      {\<lparr>tr_chat = d, tr_indentLevel = k, tr_rootThreadId = ct_id c\<rparr> | c d k. parent_in chats c = None \<and> descends chats c k d}"
    using drawn_rows_set [OF assms, of cmp] descends_in [of chats]
    unfolding drawn_rows [symmetric] by (cases "chats = []") (auto simp: tree_of_def)
  have key: "\<exists>c\<in>set chats. ct_id c = tr_rootThreadId row \<and> workspaceKey (normalizeCwd (ct_cwd c)) = ws_key s"
    if "(s, row) \<in> set (section_rows (tree_of cmp chats))" for s row
  proof -
    from that obtain b where "b \<in> set (sorted_buckets cmp chats)" "s = drawn_section cmp chats b" "row \<in> set (ws_data s)"
      by (auto simp: section_rows_def tree_of_def split: if_splits)
    with drawn_section_rows [OF assms] show ?thesis by (fastforce simp: drawn_section_def)
  qed
  have in_concat: "(s, row) \<in> set (section_rows ss) \<Longrightarrow> row \<in> set (concat (map ws_data ss))" for s row ss
    by (auto simp: section_rows_def)
  show "?root e" if "e \<in> set (section_rows (tree_of cmp chats))"
  proof -
    obtain s row where e: "e = (s, row)" by (cases e)
    have "row \<in> set (concat (map ws_data (tree_of cmp chats)))" using that unfolding e by (rule in_concat)
    then obtain c d k where "row = \<lparr>tr_chat = d, tr_indentLevel = k, tr_rootThreadId = ct_id c\<rparr>"
        "parent_in chats c = None" "descends chats c k d" unfolding rows by blast
    then have c: "parent_in chats c = None" "descends chats c (tr_indentLevel row) (tr_chat row)" "tr_rootThreadId row = ct_id c"
      by simp_all
    from key [of s row] that obtain c' where "c' \<in> set chats" "ct_id c' = ct_id c" "workspaceKey (normalizeCwd (ct_cwd c')) = ws_key s"
      unfolding e c(3) by blast
    with same_id [OF assms, of c' c] descends_in [OF c(2)] c(1,2) show ?thesis by (auto simp: e)
  qed
  show ?row if c: "parent_in chats c = None" "descends chats c k d"
  proof -
    let ?row = "\<lparr>tr_chat = d, tr_indentLevel = k, tr_rootThreadId = ct_id c\<rparr>"
    have "?row \<in> set (concat (map ws_data (tree_of cmp chats)))" unfolding rows using c by blast
    then obtain s where s: "(s, ?row) \<in> set (section_rows (tree_of cmp chats))" by (auto simp: section_rows_def)
    from key [OF this] obtain c' where "c' \<in> set chats" "ct_id c' = ct_id c" "workspaceKey (normalizeCwd (ct_cwd c')) = ws_key s"
      by auto
    with same_id [OF assms, of c' c] descends_in [OF c(2)] s show ?thesis by (intro exI [of _ s] exI [of _ ?row]) auto
  qed
qed

lemma tree_distinct:
  assumes "distinct (map ct_id chats)"
  shows "distinct_rows (tree_of cmp chats)" "distinct (map ws_key (tree_of cmp chats))"
proof -
  have rows: "distinct (map tr_chat (concat (map ws_data (tree_of cmp chats))))"
    using drawn_rows_distinct [OF assms, of cmp] unfolding drawn_rows [symmetric] by (simp add: tree_of_def)
  have "tr_chat ` set (concat (map ws_data (tree_of cmp chats))) \<subseteq> set chats"
  proof
    fix d assume "d \<in> tr_chat ` set (concat (map ws_data (tree_of cmp chats)))"
    then obtain s row where "(s, row) \<in> set (section_rows (tree_of cmp chats))" "d = tr_chat row" by (auto simp: section_rows_def)
    with tree_rows(1) [OF assms, of "(s, row)" cmp] descends_in [of chats] show "d \<in> set chats" by auto
  qed
  then have "inj_on ct_id (set (map tr_chat (concat (map ws_data (tree_of cmp chats)))))"
    using assms inj_on_subset unfolding distinct_map set_map by blast
  with rows have "distinct (map ct_id (map tr_chat (concat (map ws_data (tree_of cmp chats)))))"
    unfolding distinct_map [of ct_id] by (rule conjI)
  then show "distinct_rows (tree_of cmp chats)" unfolding distinct_rows_def map_map comp_def .
  have "distinct (map fst (rootsByWorkspace cmp (roots_of chats)))"
    using rootsByWorkspace_facts(2) [of cmp "roots_of chats"] by (simp add: buckets_ok_def)
  moreover have "mset (map fst (sorted_buckets cmp chats)) = mset (map fst (rootsByWorkspace cmp (roots_of chats)))"
    by (simp add: sorted_buckets_def)
  ultimately have "distinct (map fst (sorted_buckets cmp chats))" using mset_eq_imp_distinct_iff by blast
  then show "distinct (map ws_key (tree_of cmp chats))" by (simp add: tree_of_def drawn_section_def comp_def)
qed


section \<open>What the drawer promises\<close>

lemma visible_iff:
  "i \<in> set (buildVisibleChatIdSet sections key limit pending ind now) \<longleftrightarrow>
   (\<exists>s\<in>set sections. (non_empty key = None \<or> Some (ws_key s) = key) \<and>
     (i \<in> (ct_id \<circ> tr_chat) ` set (if non_empty key \<noteq> None then listable pending s
           else case limit of None \<Rightarrow> listable pending s | Some n \<Rightarrow> take n (listable pending s)) \<or>
      i \<in> (ct_id \<circ> tr_chat) ` set (filter (shown_anyway pending ind now) (ws_data s))))"
  unfolding buildVisibleChatIdSet_def set_concat set_map by (auto simp: Let_def)

abbreviation tree_rows_of :: "(string \<Rightarrow> string \<Rightarrow> int) \<Rightarrow> attention_options \<Rightarrow> rat \<Rightarrow> attention_row list" where
  "tree_rows_of cmp x now \<equiv>
     List.map_filter (attention_row_of x now
       (buildVisibleChatIdSet (tree_of cmp (dx_chats x))
         (Option.bind (List.find (\<lambda>o'. fo_key o' = dx_selectedFolderKey x) (folder_options_of (dx_chats x) (tree_of cmp (dx_chats x)))) fo_key)
         (dx_workspaceChatLimit x) (pending_of cmp x) (dx_runIndicatorsByThread x) now)
       (workspaceByChatId (tree_of cmp (dx_chats x))) (pending_of cmp x)) (dx_chats x)"

definition rows_in :: "attention_model \<Rightarrow> attention_lane \<Rightarrow> attention_row list" where
  "rows_in m lane = concat (map ds_data (filter (\<lambda>s. ds_key s = lane) (dm_sections m)))"

lemma model_built:
  assumes "distinct (map ct_id (dx_chats x))"
  shows "\<exists>m. buildDrawerAttentionModel (length (dx_chats x)) cmp x now = Some m \<and>
    (\<forall>lane. rows_in m lane = lane_rows cmp (pending_of cmp x) (tree_rows_of cmp x now) lane)"
proof -
  have "rows_in (model_of_sections cmp x now (tree_of cmp (dx_chats x))) lane =
      lane_rows cmp (pending_of cmp x) (tree_rows_of cmp x now) lane" for lane
    by (cases lane) (simp_all add: rows_in_def model_of_sections_def Let_def)
  then show ?thesis by (simp add: buildDrawerAttentionModel_def tree_of_built [OF assms])
qed

lemma set_lane_rows: "r \<in> set (lane_rows cmp p rows lane) \<longleftrightarrow> r \<in> set rows \<and> dr_lane r = lane"
  by (auto simp: lane_rows_def)

lemma in_map_filter: "r \<in> set (List.map_filter f xs) \<longleftrightarrow> (\<exists>c\<in>set xs. f c = Some r)"
  by (induction xs) (auto simp: map_filter_simps split: option.splits)

lemma row_fields:
  assumes "attention_row_of x now visible ws (pending_of cmp x) c = Some r"
  shows "dr_chat r = c" "ct_id c \<in> set visible" "\<exists>w. map_get ws (ct_id c) = Some w \<and> dr_workspaceKey r = wc_key w \<and> dr_indentLevel r = wc_indentLevel w"
    "dr_lane r = resolveDrawerAttentionLane (map_get (pending_of cmp x) (ct_id c)) (isDrawerChatRunning c (dx_runIndicatorsByThread x) now) c"
    "dr_attentionReason r = needs_user x now c" "dr_lane r = LaneAttention \<or> \<not> isSubAgentSource (ct_sourceKind c)"
  using assms reason_needs_user [of cmp x c now]
  by (auto simp: attention_row_of_def Let_def split: if_splits option.splits)

lemma selected_folder:
  assumes "dx_selectedFolderKey x = None \<or> (\<exists>s\<in>set sections. dx_selectedFolderKey x = Some (ws_key s))"
  shows "Option.bind (List.find (\<lambda>o'. fo_key o' = dx_selectedFolderKey x) (folder_options_of chats sections)) fo_key = dx_selectedFolderKey x"
proof (cases "List.find (\<lambda>o'. fo_key o' = dx_selectedFolderKey x) (folder_options_of chats sections)")
  case None
  with assms show ?thesis by (auto simp: find_None_iff folder_options_of_def)
next
  case (Some a)
  then have "fo_key a = dx_selectedFolderKey x" by (auto simp: find_Some_iff)
  with Some show ?thesis by simp
qed

text \<open>
  Nothing that needs the user is cut from the drawer. A chat that hangs on a root and has a pending approval, a pending question,
  or failed and is not running, has a row under "Needs your attention", with the reason and its depth in the tree, whatever the limit
  of chats per workspace is, for sub-agents too, as long as all folders or the folder of its root are shown.
\<close>

theorem needs_user_shown:
  assumes "distinct (map ct_id (dx_chats x))" "parent_in (dx_chats x) r = None" "descends (dx_chats x) r k c"
    and "dx_selectedFolderKey x \<in> {None, Some (workspaceKey (normalizeCwd (ct_cwd r)))}"
    and "needs_user x now c = Some reason"
  shows "\<exists>m. buildDrawerAttentionModel (length (dx_chats x)) cmp x now = Some m \<and>
    (\<exists>entry\<in>set (rows_in m LaneAttention). dr_chat entry = c \<and> dr_attentionReason entry = Some reason \<and> dr_indentLevel entry = k)"
proof -
  let ?tree = "tree_of cmp (dx_chats x)" and ?pending = "pending_of cmp x" and ?i = "ct_id c"
  obtain s e where e: "(s, e) \<in> set (section_rows ?tree)" "tr_chat e = c" "tr_indentLevel e = k"
      "ws_key s = workspaceKey (normalizeCwd (ct_cwd r))"
    using tree_rows(2) [OF assms(1-3), of cmp] by blast
  then have s: "s \<in> set ?tree" "e \<in> set (ws_data s)" by (auto simp: section_rows_def)
  have key: "Option.bind (List.find (\<lambda>o'. fo_key o' = dx_selectedFolderKey x) (folder_options_of (dx_chats x) ?tree)) fo_key = dx_selectedFolderKey x"
    using assms(4) s(1) e(4) [symmetric] by (intro selected_folder) auto
  have shown: "shown_anyway ?pending (dx_runIndicatorsByThread x) now e"
    using assms(5) by (auto simp: shown_anyway_def e(2) pending_has needs_user_def split: if_splits)
  have visible: "?i \<in> set (buildVisibleChatIdSet ?tree (dx_selectedFolderKey x) (dx_workspaceChatLimit x) ?pending (dx_runIndicatorsByThread x) now)"
    unfolding visible_iff
  proof (rule bexI [OF conjI [OF _ disjI2] s(1)])
    show "non_empty (dx_selectedFolderKey x) = None \<or> Some (ws_key s) = dx_selectedFolderKey x" using assms(4) e(4) by (auto simp: non_empty_def)
    show "?i \<in> (ct_id \<circ> tr_chat) ` set (filter (shown_anyway ?pending (dx_runIndicatorsByThread x) now) (ws_data s))"
      using shown s(2) e(2) by (intro image_eqI [of _ _ e]) auto
  qed
  have "map_get (workspaceByChatId ?tree) ?i = Some \<lparr>wc_key = ws_key s, wc_label = ws_title s, wc_indentLevel = k\<rparr>"
    unfolding workspace_get [OF tree_distinct(1) [OF assms(1)]] using e(1-3) by (intro bexI [of _ "(s, e)"]) (auto simp: place_of_def)
  then obtain entry where entry: "attention_row_of x now (buildVisibleChatIdSet ?tree (dx_selectedFolderKey x) (dx_workspaceChatLimit x)
        ?pending (dx_runIndicatorsByThread x) now) (workspaceByChatId ?tree) ?pending c = Some entry" "dr_indentLevel entry = k"
    using visible lane_attention [of cmp x c now] assms(5) by (simp add: attention_row_of_def Let_def)
  note fields = row_fields [OF entry(1)]
  have "dr_lane entry = LaneAttention" unfolding fields(4) lane_attention by (simp add: assms(5))
  moreover have "entry \<in> set (tree_rows_of cmp x now)"
    unfolding in_map_filter key using entry(1) descends_in [OF assms(3)] by blast
  ultimately have entry_in: "entry \<in> set (lane_rows cmp ?pending (tree_rows_of cmp x now) LaneAttention)" by (simp add: set_lane_rows)
  obtain m where m: "buildDrawerAttentionModel (length (dx_chats x)) cmp x now = Some m"
      "rows_in m LaneAttention = lane_rows cmp ?pending (tree_rows_of cmp x now) LaneAttention"
    using model_built [OF assms(1), of cmp now] by blast
  have "\<exists>e\<in>set (rows_in m LaneAttention). dr_chat e = c \<and> dr_attentionReason e = Some reason \<and> dr_indentLevel e = k"
    unfolding m(2) by (rule bexI [OF _ entry_in]) (simp add: fields(1,5) entry(2) assms(5))
  with m(1) show ?thesis by blast
qed


lemma recent_row_place:
  assumes "distinct (map ct_id (dx_chats x))" "dx_selectedFolderKey x = None" "dx_workspaceChatLimit x = Some n"
    and "entry \<in> set (tree_rows_of cmp x now)" "dr_lane entry = LaneRecent"
  shows "\<exists>s\<in>set (tree_of cmp (dx_chats x)). ws_key s = dr_workspaceKey entry \<and>
    ct_id (dr_chat entry) \<in> set (map (ct_id \<circ> tr_chat) (take n (listable (pending_of cmp x) s)))"
proof -
  let ?tree = "tree_of cmp (dx_chats x)" and ?p = "pending_of cmp x"
  obtain c where c: "attention_row_of x now (buildVisibleChatIdSet ?tree None (Some n) ?p (dx_runIndicatorsByThread x) now)
      (workspaceByChatId ?tree) ?p c = Some entry" and chat: "c \<in> set (dx_chats x)"
    using assms(4) selected_folder [of x ?tree "dx_chats x"] unfolding in_map_filter assms(2,3) by auto
  note fields = row_fields [OF c]
  obtain w where w: "map_get (workspaceByChatId ?tree) (ct_id c) = Some w" "dr_workspaceKey entry = wc_key w" using fields(3) by blast
  then obtain t d where t: "(t, d) \<in> set (section_rows ?tree)" "ct_id (tr_chat d) = ct_id c" "ws_key t = wc_key w"
    unfolding workspace_get [OF tree_distinct(1) [OF assms(1)]] by (auto simp: place_of_def)
  from fields(2) obtain s where s: "s \<in> set ?tree" "ct_id c \<in> (ct_id \<circ> tr_chat) ` set (take n (listable ?p s)) \<or>
      ct_id c \<in> (ct_id \<circ> tr_chat) ` set (filter (shown_anyway ?p (dx_runIndicatorsByThread x) now) (ws_data s))"
    unfolding visible_iff by (auto simp: non_empty_def)
  then obtain e where e: "e \<in> set (ws_data s)" "ct_id (tr_chat e) = ct_id c" by (auto simp: listable_def dest!: in_set_takeD)
  have "(s, e) \<in> set (section_rows ?tree)" using s(1) e(1) by (auto simp: section_rows_def)
  then have "map_get (workspaceByChatId ?tree) (ct_id c) = Some \<lparr>wc_key = ws_key s, wc_label = ws_title s, wc_indentLevel = tr_indentLevel e\<rparr>"
    unfolding workspace_get [OF tree_distinct(1) [OF assms(1)]] using e(2) by (intro bexI [of _ "(s, e)"]) (auto simp: place_of_def)
  then have key: "ws_key s = dr_workspaceKey entry" using w by simp
  have "needs_user x now c = None" using assms(5) lane_attention [of cmp x c now] unfolding fields(4) by auto
  moreover have "\<not> isDrawerChatRunning c (dx_runIndicatorsByThread x) now"
    using assms(5) unfolding fields(4) by (auto simp: resolveDrawerAttentionLane_def split: if_splits)
  ultimately have quiet: "\<not> shown_anyway ?p (dx_runIndicatorsByThread x) now e'" if "tr_chat e' = c" for e'
    using that by (auto simp: shown_anyway_def pending_has needs_user_def split: if_splits)
  have "tr_chat e' = c" if "e' \<in> set (ws_data s)" "ct_id (tr_chat e') = ct_id c" for e'
  proof -
    have "(s, e') \<in> set (section_rows ?tree)" using s(1) that(1) by (auto simp: section_rows_def)
    with tree_rows(1) [OF assms(1), of "(s, e')" cmp] descends_in have "tr_chat e' \<in> set (dx_chats x)" by fastforce
    with same_id [OF assms(1) _ chat] that(2) show ?thesis by blast
  qed
  with quiet have "ct_id c \<notin> (ct_id \<circ> tr_chat) ` set (filter (shown_anyway ?p (dx_runIndicatorsByThread x) now) (ws_data s))" by auto
  with s(2) have "ct_id c \<in> (ct_id \<circ> tr_chat) ` set (take n (listable ?p s))" by blast
  with s(1) key fields(1) show ?thesis by (intro bexI [of _ s]) simp_all
qed

lemma distinct_map_filter_by:
  assumes "\<And>c r. f c = Some r \<Longrightarrow> g r = h c" "distinct (map h cs)"
  shows "distinct (map g (List.map_filter f cs))"
  using assms(2)
proof (induction cs)
  case (Cons c cs)
  have "g ` set (List.map_filter f cs) \<subseteq> h ` set cs" using assms(1) by (fastforce simp: in_map_filter)
  with Cons show ?case using assms(1) [of c] by (cases "f c") (auto simp: map_filter_simps)
qed (simp add: map_filter_simps)

lemma distinct_tree_rows:
  assumes "distinct (map ct_id (dx_chats x))"
  shows "distinct (map (ct_id \<circ> dr_chat) (tree_rows_of cmp x now))"
  by (rule distinct_map_filter_by [OF _ assms]) (use row_fields(1) in fastforce)

text \<open>
  The drawer is sorted into lanes and keeps its limits. Every row stands in the lane that its chat belongs to, no chat has two
  rows, and sub-agents have rows only where they need the user. When all folders are shown and the number of chats per workspace is
  limited, no more than this number of recent chats of a workspace are shown.
\<close>

theorem drawer_lanes:
  assumes "distinct (map ct_id (dx_chats x))"
  shows "\<exists>m. buildDrawerAttentionModel (length (dx_chats x)) cmp x now = Some m \<and>
    distinct (map (ct_id \<circ> dr_chat) (rows_in m LaneAttention @ rows_in m LaneWorking @ rows_in m LaneRecent)) \<and>
    (\<forall>lane. list_all (\<lambda>entry.
       let c = dr_chat entry; running = isDrawerChatRunning c (dx_runIndicatorsByThread x) now in
       c \<in> set (dx_chats x) \<and> dr_attentionReason entry = needs_user x now c \<and>
       lane = (if needs_user x now c \<noteq> None then LaneAttention else if running then LaneWorking else LaneRecent) \<and>
       (lane = LaneAttention \<or> \<not> isSubAgentSource (ct_sourceKind c))) (rows_in m lane)) \<and>
    (dx_selectedFolderKey x = None \<longrightarrow> dx_workspaceChatLimit x = Some n \<longrightarrow>
       length (filter (\<lambda>entry. dr_workspaceKey entry = key) (rows_in m LaneRecent)) \<le> n)"
proof -
  obtain m where m: "buildDrawerAttentionModel (length (dx_chats x)) cmp x now = Some m"
      "\<And>lane. rows_in m lane = lane_rows cmp (pending_of cmp x) (tree_rows_of cmp x now) lane"
    using model_built [OF assms, of cmp now] by blast
  let ?rows = "tree_rows_of cmp x now"
  have unique: "distinct (map (ct_id \<circ> dr_chat) ?rows)" by (rule distinct_tree_rows [OF assms])
  have "mset (rows_in m LaneAttention @ rows_in m LaneWorking @ rows_in m LaneRecent) = mset ?rows"
  proof -
    have "mset rs = {#r \<in># mset rs. dr_lane r = LaneAttention#} + ({#r \<in># mset rs. dr_lane r = LaneWorking#} + {#r \<in># mset rs. dr_lane r = LaneRecent#})"
      for rs :: "attention_row list"
      by (induction rs) (auto, (case_tac "dr_lane a"; simp)+)
    then show ?thesis by (simp add: m(2) lane_rows_def)
  qed
  then have "mset (map (ct_id \<circ> dr_chat) (rows_in m LaneAttention @ rows_in m LaneWorking @ rows_in m LaneRecent)) =
      mset (map (ct_id \<circ> dr_chat) ?rows)" by (simp only: mset_map)
  with unique have distinct: "distinct (map (ct_id \<circ> dr_chat) (rows_in m LaneAttention @ rows_in m LaneWorking @ rows_in m LaneRecent))"
    using mset_eq_imp_distinct_iff by blast
  have lanes: "let c = dr_chat entry; running = isDrawerChatRunning c (dx_runIndicatorsByThread x) now in
       c \<in> set (dx_chats x) \<and> dr_attentionReason entry = needs_user x now c \<and>
       lane = (if needs_user x now c \<noteq> None then LaneAttention else if running then LaneWorking else LaneRecent) \<and>
       (lane = LaneAttention \<or> \<not> isSubAgentSource (ct_sourceKind c))" if "entry \<in> set (rows_in m lane)" for entry lane
  proof -
    from that obtain c visible where c: "c \<in> set (dx_chats x)"
        "attention_row_of x now visible (workspaceByChatId (tree_of cmp (dx_chats x))) (pending_of cmp x) c = Some entry" "dr_lane entry = lane"
      unfolding m(2) set_lane_rows in_map_filter by blast
    note fields = row_fields [OF c(2)]
    have "resolveDrawerAttentionLane (map_get (pending_of cmp x) (ct_id c)) (isDrawerChatRunning c (dx_runIndicatorsByThread x) now) c =
        (if needs_user x now c \<noteq> None then LaneAttention else if isDrawerChatRunning c (dx_runIndicatorsByThread x) now then LaneWorking else LaneRecent)"
      by (auto simp: resolveDrawerAttentionLane_def needs_user_def pending_has isDrawerChatRunning_def)
    with fields c show ?thesis by (simp add: Let_def)
  qed
  have limit: "length (filter (\<lambda>entry. dr_workspaceKey entry = key) (rows_in m LaneRecent)) \<le> n"
    if folder: "dx_selectedFolderKey x = None" "dx_workspaceChatLimit x = Some n"
  proof (cases "filter (\<lambda>entry. dr_workspaceKey entry = key) (rows_in m LaneRecent)")
    case (Cons first others)
    let ?recent = "filter (\<lambda>entry. dr_workspaceKey entry = key) (rows_in m LaneRecent)"
    note place = recent_row_place [OF assms folder, where cmp = cmp and now = now]
    have recent: "entry \<in> set ?rows \<and> dr_lane entry = LaneRecent \<and> dr_workspaceKey entry = key" if "entry \<in> set ?recent" for entry
      using that unfolding m(2) by (simp add: set_lane_rows)
    from place [of first] recent [of first] obtain s where s: "s \<in> set (tree_of cmp (dx_chats x))" "ws_key s = key" by (auto simp: Cons)
    have "ct_id (dr_chat entry) \<in> set (map (ct_id \<circ> tr_chat) (take n (listable (pending_of cmp x) s)))" if "entry \<in> set ?recent" for entry
    proof -
      from place [of entry] recent [OF that] obtain t where t: "t \<in> set (tree_of cmp (dx_chats x))" "ws_key t = key"
          "ct_id (dr_chat entry) \<in> set (map (ct_id \<circ> tr_chat) (take n (listable (pending_of cmp x) t)))" by auto
      have "t = s" using tree_distinct(2) [OF assms, of cmp] s t(1,2) by (auto simp: distinct_map inj_on_def)
      with t(3) show ?thesis by simp
    qed
    then have "set (map (ct_id \<circ> dr_chat) ?recent) \<subseteq> set (map (ct_id \<circ> tr_chat) (take n (listable (pending_of cmp x) s)))" by auto
    then have "card (set (map (ct_id \<circ> dr_chat) ?recent)) \<le> card (set (map (ct_id \<circ> tr_chat) (take n (listable (pending_of cmp x) s))))"
      by (rule card_mono [OF finite_set])
    also have "\<dots> \<le> length (map (ct_id \<circ> tr_chat) (take n (listable (pending_of cmp x) s)))" by (rule card_length)
    also have "\<dots> \<le> n" by simp
    finally have "card (set (map (ct_id \<circ> dr_chat) ?recent)) \<le> n" .
    moreover have "distinct (map (ct_id \<circ> dr_chat) ?recent)" using distinct by (simp add: distinct_map_filter)
    ultimately show ?thesis using distinct_card [of "map (ct_id \<circ> dr_chat) ?recent"] by (simp only: length_map)
  qed simp
  show ?thesis
  proof (intro exI [of _ m] conjI allI impI)
    show "list_all (\<lambda>entry. let c = dr_chat entry; running = isDrawerChatRunning c (dx_runIndicatorsByThread x) now in
       c \<in> set (dx_chats x) \<and> dr_attentionReason entry = needs_user x now c \<and>
       lane = (if needs_user x now c \<noteq> None then LaneAttention else if running then LaneWorking else LaneRecent) \<and>
       (lane = LaneAttention \<or> \<not> isSubAgentSource (ct_sourceKind c))) (rows_in m lane)" for lane
      unfolding list_all_iff by (rule ballI) (rule lanes)
    show "length (filter (\<lambda>entry. dr_workspaceKey entry = key) (rows_in m LaneRecent)) \<le> n"
      if "dx_selectedFolderKey x = None" "dx_workspaceChatLimit x = Some n" by (rule limit [OF that])
  qed (fact m(1) distinct)+
qed

definition demo_drawer :: attention_options where
  "demo_drawer =
     \<lparr>dx_chats = [(demo_chat ''b'' (Some ''a''))\<lparr>ct_sourceKind := Some ''subAgentTask'', ct_status := StError\<rparr>, demo_chat ''a'' None,
                  demo_chat ''r1'' None, demo_chat ''r2'' None],
      dx_agents = [], dx_runIndicatorsByThread = [(''a'', \<lparr>ri_source = Heartbeat, ri_updatedAt = 0\<rparr>)], dx_pendingApprovals = [],
      dx_pendingUserInputs = [], dx_selectedFolderKey = None, dx_workspaceChatLimit = Some 2\<rparr>"

theorem needs_user_shown_witness:
  "\<exists>m. buildDrawerAttentionModel 4 (\<lambda>_ _. 0) demo_drawer 5 = Some m \<and>
    (\<exists>entry\<in>set (rows_in m LaneAttention). dr_chat entry = hd (dx_chats demo_drawer) \<and>
       dr_attentionReason entry = Some ReasonError \<and> dr_indentLevel entry = 1)"
proof -
  let ?x = demo_drawer
  have "descends (dx_chats ?x) (demo_chat ''a'' None) 0 (demo_chat ''a'' None)" by (rule descends.here) (simp add: demo_drawer_def)
  then have below: "descends (dx_chats ?x) (demo_chat ''a'' None) (Suc 0) (hd (dx_chats ?x))" by (rule descends.below) code_simp+
  have "distinct (map ct_id (dx_chats ?x))" "parent_in (dx_chats ?x) (demo_chat ''a'' None) = None"
    "dx_selectedFolderKey ?x \<in> {None, Some (workspaceKey (normalizeCwd (ct_cwd (demo_chat ''a'' None))))}"
    "needs_user ?x 5 (hd (dx_chats ?x)) = Some ReasonError" by code_simp+
  note shown = needs_user_shown [OF this(1,2) below this(3,4), of "\<lambda>_ _. 0"]
  have "length (dx_chats ?x) = 4" by (simp add: demo_drawer_def)
  with shown show ?thesis by (simp only: One_nat_def)
qed

theorem drawer_lanes_witness:
  "\<exists>m. buildDrawerAttentionModel 4 (\<lambda>_ _. 0) demo_drawer 5 = Some m \<and>
    length (filter (\<lambda>entry. dr_workspaceKey entry = ''/w'') (rows_in m LaneRecent)) \<le> 2"
proof -
  have "distinct (map ct_id (dx_chats demo_drawer))" "dx_selectedFolderKey demo_drawer = None" "dx_workspaceChatLimit demo_drawer = Some 2"
    "length (dx_chats demo_drawer) = 4" by code_simp+
  then show ?thesis using drawer_lanes [of demo_drawer "\<lambda>_ _. 0" 5 2 "''/w''"] by auto
qed

end
