(* ===== verification/Spec2Isabelle.thy ===== *)
theory Spec2Isabelle
  imports WsConnection CompactDiffCorrect UnifiedDiffCorrect SubmissionCorrect SnapshotCacheCorrect AgUiChunks
    PersistenceCorrect ThreadTree Continuation ReplayRecovery Approvals ClientCorrect Projection TurnRequests DrawerAttention
begin

text \<open>
  TetherCode lets a phone drive coding agents on a computer. A bridge process on the computer (Rust, \<^verbatim>\<open>src/services\<close>)
  speaks to the agents; the mobile client (TypeScript, \<^verbatim>\<open>src/apps/mobile/src\<close>) talks to the bridge over a websocket
  and shows chats, tool calls, diffs and approvals. This library is about the mobile client: the code below its user
  interface that decides what is shown, sent and stored. All file names below are relative to \<^verbatim>\<open>src/apps/mobile/src\<close>.

  \<^bold>\<open>How the parts work together.\<close>
  The websocket client (\<^verbatim>\<open>bridge/ws\<close>) turns frames into an ordered stream of notifications; when events were lost it
  asks for a replay or, if that is impossible, for a snapshot, which \<^verbatim>\<open>replayRecoveryController.ts\<close> gathers. AG-UI
  notifications (\<^verbatim>\<open>bridge/agui\<close>) go through the reducers of the message store. Requests (\<^verbatim>\<open>bridge/client\<close>) read chats
  and lists through caches; what they return is mapped from the wire to chats (\<^verbatim>\<open>bridge/mapping\<close>). The chat screen
  (\<^verbatim>\<open>features/chat\<close>) merges the persisted chat, the message store and the pages of earlier history into one transcript,
  sends prompts with retry-safe ids, and answers approvals. The shell (\<^verbatim>\<open>shell\<close>) keeps the app state, caches snapshots
  on the device, and draws the list of chats.

  \<^bold>\<open>Conventions.\<close>
  The client is single-threaded: an asynchronous method is cut at its awaits, each piece is a function on the explicit state,
  and what waits (promises, timers, queues) is data that a later step resumes; steps of different calls interleave
  freely. Exceptions and rejected promises are values of \<^typ>\<open>'a option\<close> or \<^typ>\<open>'e + 'a\<close>. A \<open>Map\<close> or dictionary object is
  an association list in insertion order (\<^typ>\<open>('k, 'v) jsmap\<close>), a string a list of code units below 256, a number that
  is read from the wire a rational, a counter a natural number or an integer, and a number that the code truncates
  (hashes, 16-bit matrix cells, IPv4 octets) a machine word. What the host provides is a parameter with its documented
  laws where a theorem needs them: valibot (\<^const>\<open>valibot_conforms\<close>), the event schemas of \<^verbatim>\<open>@ag-ui/core\<close>, \<open>URL\<close>,
  \<open>Date.parse\<close>, \<open>localeCompare\<close>, the printing of numbers, random nonces. The clock is an argument.

  \<^bold>\<open>Shared theories.\<close>
  \<^theory_text>\<open>Prelude\<close> models the standard library that is used (maps, slices, sorting, trimming, decimal printing, splitting) with
  its lemmas and the collections \<open>frame_simps\<close> and \<open>js_simps\<close>; \<^theory_text>\<open>JsMaps\<close> adds bulk updates of maps, \<^theory_text>\<open>JsSort\<close> that sorting
  permutes, \<^theory_text>\<open>JsValue\<close> the readers of untrusted values (\<^verbatim>\<open>shared/runtimeValidation.ts\<close>), \<^theory_text>\<open>JsonText\<close> the printing of JSON.

  \<^bold>\<open>Components.\<close>
  \<^item> \<^theory_text>\<open>WsClient\<close>, \<^theory_text>\<open>WsProtocol\<close> (state \<open>ws_client\<close>, step function \<open>ws_step\<close>, \<^const>\<open>ws_reachable\<close>): every method of
    \<^verbatim>\<open>bridge/ws/*.ts\<close>. \<^theory_text>\<open>WsOrdering\<close>, \<^theory_text>\<open>WsGuarantees\<close>, \<^theory_text>\<open>WsConnection\<close>: by rule induction over the reachable states, numbered
    events are delivered gap-free, in order and once; no numbered event of the current stream passes an outstanding
    snapshot once the client has a position; replay makes progress; sockets, timers and pending requests stay consistent.
  \<^item> \<^theory_text>\<open>AgUiTypes\<close>, \<^theory_text>\<open>AgUiText\<close>, \<^theory_text>\<open>AgUiStore\<close>, \<^theory_text>\<open>AgUiReducer\<close> (state \<open>agui_state\<close>, entry \<open>reduceAgUiMessageState\<close>): \<^verbatim>\<open>bridge/agui\<close>,
    \<^verbatim>\<open>bridge/messages.ts\<close>, \<^verbatim>\<open>bridge/toolMeta.ts\<close>. \<^theory_text>\<open>AgUiInvariants\<close> proves invariants once in the locale \<open>thread_invariant\<close>,
    which is interpreted for the bounds, for unique ids (snapshots need a condition) and, in \<^theory_text>\<open>AgUiTools\<close>, for calls that a sub-agent
    card has taken over; \<^theory_text>\<open>AgUiStreams\<close> and
    \<^theory_text>\<open>AgUiChunks\<close> say what streams, finished runs and chunked events amount to.
  \<^item> \<^theory_text>\<open>ChatTypes\<close>, \<^theory_text>\<open>SnapshotPages\<close>, \<^theory_text>\<open>SnapshotTranscript\<close>, \<^theory_text>\<open>ChatMapping\<close>: \<^verbatim>\<open>bridge/mapping\<close> and the merge of history pages
    (\<open>mergeSnapshotPage\<close>), with its refinement of a map override; \<^theory_text>\<open>Continuation\<close>: \<^verbatim>\<open>continuationController.ts\<close>.
  \<^item> \<^theory_text>\<open>ClientCaches\<close>, \<^theory_text>\<open>ClientReads\<close> (state \<open>api_client\<close>): the caches and listing of \<^verbatim>\<open>bridge/client\<close>; \<^theory_text>\<open>ClientCorrect\<close>: what
    is forgotten, remembered, shared (the locale \<open>single_flight\<close>, interpreted for four kinds of requests) and retried.
  \<^item> \<^theory_text>\<open>TurnRequests\<close>: \<^verbatim>\<open>clientTurnInputInternals.ts\<close>, \<^verbatim>\<open>turnPreparationLayer.ts\<close>, \<^verbatim>\<open>turnLifecycleLayer.ts\<close>: the input of a turn,
    sending, queueing and interrupting it, and how the prompt is found again in what the bridge returns.
  \<^item> \<^theory_text>\<open>Submission\<close>, \<^theory_text>\<open>SubmissionCorrect\<close>: \<^verbatim>\<open>submissionController.ts\<close> and \<^verbatim>\<open>submissionIdempotencyCache.ts\<close> (the locale
    \<open>idempotency_store\<close>); \<^theory_text>\<open>ReplayRecovery\<close>: \<^verbatim>\<open>replayRecoveryController.ts\<close> with its worker pool; \<^theory_text>\<open>Approvals\<close>:
    \<^verbatim>\<open>approvalController.ts\<close>.
  \<^item> \<^theory_text>\<open>ChatStatus\<close>: \<^verbatim>\<open>features/chat/helpers/status.ts\<close> and \<^verbatim>\<open>chatSyncController.ts\<close>; \<^theory_text>\<open>Attachments\<close>: \<^verbatim>\<open>attachments.ts\<close>;
    \<^theory_text>\<open>TranscriptMessages\<close>: \<^verbatim>\<open>transcript/messages.ts\<close>, \<^verbatim>\<open>agents/transcript.ts\<close>; \<^theory_text>\<open>Projection\<close>: \<^verbatim>\<open>projectionController.ts\<close>, where
    the invariants of the message store meet the persisted chat.
  \<^item> \<^theory_text>\<open>AppState\<close>, \<^theory_text>\<open>AppStateCorrect\<close>: \<^verbatim>\<open>shell/state\<close> with the reducer, and the round trip through the file; \<^theory_text>\<open>Persistence\<close>,
    \<^theory_text>\<open>PersistenceCorrect\<close>: \<^verbatim>\<open>persistenceCoordinator.ts\<close> as a step relation (\<^const>\<open>coord_reachable\<close>), its termination and
    what ends up in the store; \<^theory_text>\<open>BridgeUrl\<close>: \<^verbatim>\<open>bridgeUrl.ts\<close>.
  \<^item> \<^theory_text>\<open>SnapshotCache\<close>, \<^theory_text>\<open>SnapshotCacheCorrect\<close>: \<^verbatim>\<open>chatSnapshotCache.ts\<close> with the barrier between saves and purges.
  \<^item> \<^theory_text>\<open>ThreadTree\<close>: \<^verbatim>\<open>chatThreadTree.ts\<close>; \<^theory_text>\<open>DrawerIndicators\<close>: \<^verbatim>\<open>drawerRuntimeIndicators.ts\<close>, which chats count as running;
    \<^theory_text>\<open>DrawerAttention\<close>: \<^verbatim>\<open>drawerAttention.ts\<close> and \<^verbatim>\<open>shared/agents.ts\<close>, which chats are shown and in which lane.
  \<^item> \<^theory_text>\<open>CompactDiff\<close>, \<^theory_text>\<open>CompactDiffCorrect\<close>: \<^verbatim>\<open>shared/diff/compactDiff.ts\<close>, compared with shortest edit scripts (the cache in
    the locale \<open>memo_cache\<close>); \<^theory_text>\<open>UnifiedDiff\<close>, \<^theory_text>\<open>UnifiedDiffCorrect\<close>: \<^verbatim>\<open>features/git/diff\<close>.

  \<^bold>\<open>Bounds and fuel.\<close>
  Loops are structural recursions or functions with a termination measure. The recursion over the branches of the drawer has
  fuel, and a theorem shows that the number of chats is enough when their ids differ. The loop over the pages of
  \<open>fetchAllChats\<close> is bounded by its 32 pages, retries by the list of their delays, \<open>readErrorMessage\<close> and the rendering
  of nested content by the depth of four levels that the source has. The limits of the source (128 messages per thread, 64
  diffs, a million matrix cells, 20 snapshots, 8 MiB, 32 submissions and so on) are constants with their names.

  \<^bold>\<open>Where the code does not do what it says.\<close>
  Several theorems describe behaviour that the comments of the code rule out or that loses data, for example
  \<open>parent_cycle_hidden\<close> (chats that name each other as parents disappear), \<open>empty_snapshot_erases\<close> (an empty authoritative
  snapshot erases the transcript), \<open>dashed_removal_not_counted\<close>, \<open>page_hides_snapshot_without_timeline\<close>,
  \<open>live_baseline_strands_buffer\<close>, \<open>accepted_prompt_reported_failed\<close> and the three theorems on lost updates at the end of \<^theory_text>\<open>PersistenceCorrect\<close>.

  \<^bold>\<open>Not modelled.\<close>
  The bridge and the desktop operator (Rust), the native shells (Swift, Kotlin) and the scripts are other programs. Within the
  mobile client: React components, styles and hooks, whose state lives in the renderer of React (for example
  \<^verbatim>\<open>workflow/queueState.ts\<close>, \<^verbatim>\<open>turn/sendMessageState.ts\<close>, \<^verbatim>\<open>git/controller/screenController.ts\<close>, \<^verbatim>\<open>workspace/state\<close>,
  \<^verbatim>\<open>composer/controllers\<close>); calls of the file system, the camera and push services; the text that finished turns of
  old threads are rendered to (\<^verbatim>\<open>chatMappingToolMessageProjection.ts\<close> and its argument parsers: a parameter);
  markdown. Numbers are exact, so rounding beyond 2 to the 53 is not modelled. Nor are code units beyond 255, names that
  every object inherits used as keys (except where a theorem is about them), and array indices used as keys of objects.
  A time outside the range of a \<open>Date\<close> makes the mapping of a thread throw (\<open>unixSecondsToIso\<close>); the times of AG-UI
  events and of the rows of a snapshot, which go to \<open>js_iso\<close>, are taken to be inside it, and a date text to be parseable.
\<close>

end
